(* ===== verification/Prelude.thy ===== *)
theory Prelude
  imports
    Complex_Main
    "HOL-Library.List_Lexorder"
    "HOL-Library.Char_ord"
    "HOL-Library.Product_Lexorder"
    "HOL-Library.Multiset"
    "HOL-Library.Sublist"
begin

text \<open>
  What every component shares: Go's error values, the result type, the request context, dynamic
  values (\<open>any\<close>), the parts of packages \<open>strings\<close>, \<open>strconv\<close> and \<open>sort\<close> that the code calls,
  with the lemmas about them.

  A Go string is a sequence of bytes, so it is an Isabelle \<^typ>\<open>string\<close> (a list of 8-bit
  characters), \<open>len(s)\<close> is \<^term>\<open>length s\<close>, and \<open>s < t\<close> is the lexicographic order of
  \<open>HOL-Library.List_Lexorder\<close> over \<open>Char_ord\<close>.
\<close>

named_theorems go_defs "definitions of the modelled operations that proofs unfold"
named_theorems go_inv "preservation of invariants by single operations"

subsection \<open>Errors and results\<close>

text \<open>
  \<open>Sentinel v m\<close> is the package variable \<open>v\<close> made by \<open>errors.New(m)\<close> (sentinels of two packages
  with one message stay different, as Go compares them by identity), \<open>Adhoc m\<close> an error made on
  the spot, \<open>Wrapped m e\<close> the result of \<open>fmt.Errorf\<close> with \<open>%w\<close>: the formatted text and the
  error it wraps.
\<close>

datatype goerr = Sentinel string string | Adhoc string | Wrapped string goerr

fun err_msg :: "goerr \<Rightarrow> string" where
  "err_msg (Sentinel v m) = m"
| "err_msg (Adhoc m) = m"
| "err_msg (Wrapped m e) = m"

fun errors_is :: "goerr \<Rightarrow> goerr \<Rightarrow> bool" where
  "errors_is (Wrapped m e) t = (Wrapped m e = t \<or> errors_is e t)"
| "errors_is e t = (e = t)"

lemma errors_is_refl [simp]: "errors_is e e"
  by (cases e) simp_all

type_synonym 'a result = "goerr + 'a"

definition wrap_err :: "goerr \<Rightarrow> string \<Rightarrow> goerr" where
  "wrap_err e detail = Wrapped (err_msg e @ '': '' @ detail) e"

lemma errors_is_wrap_err [simp]: "errors_is (wrap_err e d) e"
  by (simp add: wrap_err_def)

text \<open>
  A \<open>context.Context\<close> as the operations read it: \<open>None\<close> while it is live, \<open>Some (ctx.Err())\<close>
  once it is done.
\<close>

type_synonym ctx = "goerr option"

definition ctx_canceled :: goerr where
  "ctx_canceled = Sentinel ''context.Canceled'' ''context canceled''"

fun result_bind :: "'a result \<Rightarrow> ('a \<Rightarrow> 'b result) \<Rightarrow> 'b result" where
  "result_bind (Inl e) f = Inl e"
| "result_bind (Inr x) f = f x"

lemma result_bind_Inr_iff: "result_bind r f = Inr y \<longleftrightarrow> (\<exists>x. r = Inr x \<and> f x = Inr y)"
  by (cases r) auto

lemma result_bind_Inl_iff:
  "result_bind r f = Inl e \<longleftrightarrow> r = Inl e \<or> (\<exists>x. r = Inr x \<and> f x = Inl e)"
  by (cases r) auto

fun is_ok :: "'a result \<Rightarrow> bool" where
  "is_ok (Inl e) = False"
| "is_ok (Inr x) = True"

subsection \<open>Lists\<close>

lemma find_append_Some: "find P xs = Some x \<Longrightarrow> find P (xs @ ys) = Some x"
  by (induction xs) (auto split: if_splits)

lemma find_snoc: "find P (xs @ [x]) = (case find P xs of None \<Rightarrow> if P x then Some x else None | Some y \<Rightarrow> Some y)"
  by (induction xs) auto

lemma distinct_map_filter_nth:
  "distinct (map f (filter P xs)) \<Longrightarrow> i < length xs \<Longrightarrow> j < length xs \<Longrightarrow> P (xs ! i) \<Longrightarrow> P (xs ! j)
    \<Longrightarrow> f (xs ! i) = f (xs ! j) \<Longrightarrow> i = j"
proof (induction xs arbitrary: i j)
  case (Cons x xs)
  have mem: "k < length xs \<Longrightarrow> P (xs ! k) \<Longrightarrow> f (xs ! k) \<in> f ` set (filter P xs)" for k
    by simp
  show ?case
  proof (cases i)
    case 0
    with Cons.prems mem [of "j - 1"] show ?thesis by (cases j) auto
  next
    case (Suc i')
    note i = Suc
    show ?thesis
    proof (cases j)
      case 0
      with i Cons.prems mem [of i'] show ?thesis by (auto simp: eq_commute [of "f x"])
    next
      case (Suc j')
      with i Cons.prems Cons.IH [of i' j'] show ?thesis by (auto split: if_splits)
    qed
  qed
qed simp

subsection \<open>Time\<close>

text \<open>
  A \<open>time.Time\<close> is the number of nanoseconds since Go's zero time, so \<open>IsZero\<close> is equality with
  0 and \<open>Before\<close>/\<open>After\<close> are the order of the integers.
\<close>

type_synonym gotime = int

text \<open>\<open>time.Time.UnixNano\<close> counts from 1970, \<^typ>\<open>gotime\<close> from year 1.\<close>

definition unix_nano :: "gotime \<Rightarrow> int" where
  "unix_nano t = t - 62135596800 * 10 ^ 9"

subsection \<open>Dynamic values\<close>

text \<open>
  The values the code puts into \<open>map[string]any\<close>. A map is an association list (the first entry
  of a key counts); a nil map and an empty one behave alike in this code, both are \<open>[]\<close>. The order
  of the list is the order in which a \<open>range\<close> over the map happens to run.
\<close>

datatype goval =
    VNil
  | VStr string
  | VInt int
  | VInt64 int
  | VFloat rat
  | VBool bool
  | VStrs "string list"
  | VList "goval list"
  | VMap "(string \<times> goval) list"
  | VMaps "(string \<times> goval) list list"

type_synonym gomap = "(string \<times> goval) list"

text \<open>\<open>s, ok := m[key].(string)\<close>, with the empty string where the assertion fails.\<close>

definition meta_string :: "gomap \<Rightarrow> string \<Rightarrow> string" where
  "meta_string m k = (case map_of m k of Some (VStr s) \<Rightarrow> s | _ \<Rightarrow> [])"

lemma meta_string_VStr [simp]: "map_of m k = Some (VStr s) \<Longrightarrow> meta_string m k = s"
  by (simp add: meta_string_def)

lemma meta_string_None [simp]: "map_of m k = None \<Longrightarrow> meta_string m k = []"
  by (simp add: meta_string_def)

subsection \<open>Package strings\<close>

text \<open>
  The UTF-8 encodings of the code points with \<open>unicode.IsSpace\<close>. \<open>strings.TrimSpace\<close> removes
  them from both ends. A leading (trailing) rune of a byte string is a space exactly if one of
  these encodings is a prefix (suffix) of it, since none of them is a prefix or suffix of another
  valid encoding.
\<close>

definition space_runes :: "string list" where
  "space_runes =
     [[CHR 0x09], [CHR 0x0A], [CHR 0x0B], [CHR 0x0C], [CHR 0x0D], [CHR 0x20],
      [CHR 0xC2, CHR 0x85], [CHR 0xC2, CHR 0xA0],
      [CHR 0xE1, CHR 0x9A, CHR 0x80],
      [CHR 0xE2, CHR 0x80, CHR 0x80], [CHR 0xE2, CHR 0x80, CHR 0x81],
      [CHR 0xE2, CHR 0x80, CHR 0x82], [CHR 0xE2, CHR 0x80, CHR 0x83],
      [CHR 0xE2, CHR 0x80, CHR 0x84], [CHR 0xE2, CHR 0x80, CHR 0x85],
      [CHR 0xE2, CHR 0x80, CHR 0x86], [CHR 0xE2, CHR 0x80, CHR 0x87],
      [CHR 0xE2, CHR 0x80, CHR 0x88], [CHR 0xE2, CHR 0x80, CHR 0x89],
      [CHR 0xE2, CHR 0x80, CHR 0x8A], [CHR 0xE2, CHR 0x80, CHR 0xA8],
      [CHR 0xE2, CHR 0x80, CHR 0xA9], [CHR 0xE2, CHR 0x80, CHR 0xAF],
      [CHR 0xE2, CHR 0x81, CHR 0x9F], [CHR 0xE3, CHR 0x80, CHR 0x80]]"

definition strip_one :: "string list \<Rightarrow> string \<Rightarrow> string option" where
  "strip_one ps s =
     (case find (\<lambda>p. p \<noteq> [] \<and> prefix p s) ps of
        None \<Rightarrow> None
      | Some p \<Rightarrow> Some (drop (length p) s))"

lemma strip_one_shorter: "strip_one ps s = Some r \<Longrightarrow> length r < length s"
  by (auto simp: strip_one_def find_Some_iff prefix_def split: option.splits)

function trim_with :: "string list \<Rightarrow> string \<Rightarrow> string" where
  "trim_with ps s = (case strip_one ps s of None \<Rightarrow> s | Some r \<Rightarrow> trim_with ps r)"
  by pat_completeness auto
termination
  by (relation "measure (\<lambda>(ps, s). length s)") (auto dest: strip_one_shorter)

declare trim_with.simps [simp del]

definition trim_left :: "string \<Rightarrow> string" where
  "trim_left s = trim_with space_runes s"

definition trim_right :: "string \<Rightarrow> string" where
  "trim_right s = rev (trim_with (map rev space_runes) (rev s))"

definition trim_space :: "string \<Rightarrow> string" where
  "trim_space s = trim_right (trim_left s)"

lemma strip_one_trim_with [simp]: "strip_one ps (trim_with ps s) = None"
proof (induction ps s rule: trim_with.induct)
  case (1 ps s)
  then show ?case
    by (subst trim_with.simps) (simp split: option.split)
qed

lemma trim_with_fixed: "strip_one ps s = None \<Longrightarrow> trim_with ps s = s"
  by (subst trim_with.simps) simp

lemma suffix_trim_with: "suffix (trim_with ps s) s"
proof (induction ps s rule: trim_with.induct)
  case (1 ps s)
  show ?case
  proof (cases "strip_one ps s")
    case None
    then show ?thesis by (simp add: trim_with_fixed)
  next
    case (Some r)
    then have "suffix r s"
      by (auto simp: strip_one_def suffix_drop split: option.splits)
    with 1 [OF Some] Some show ?thesis
      by (subst trim_with.simps) (auto intro: suffix_order.trans)
  qed
qed

lemma strip_one_prefix_None:
  assumes "prefix r s" and "strip_one ps s = None"
  shows "strip_one ps r = None"
proof -
  from assms(2) have "\<not> (p \<noteq> [] \<and> prefix p s)" if "p \<in> set ps" for p
    using that by (auto simp: strip_one_def find_None_iff split: option.splits)
  with assms(1) have "find (\<lambda>p. p \<noteq> [] \<and> prefix p r) ps = None"
    by (auto simp: find_None_iff intro: prefix_order.trans)
  then show ?thesis by (simp add: strip_one_def)
qed

lemma prefix_trim_right: "prefix (trim_right s) s"
  using suffix_trim_with [of "map rev space_runes" "rev s"]
  by (simp add: trim_right_def suffix_to_prefix)

lemma trim_space_idem [simp]: "trim_space (trim_space s) = trim_space s"
proof -
  have "strip_one space_runes (trim_right (trim_left s)) = None"
    by (rule strip_one_prefix_None [OF prefix_trim_right]) (simp add: trim_left_def)
  then have "trim_left (trim_space s) = trim_space s"
    by (simp add: trim_space_def trim_left_def trim_with_fixed)
  then show ?thesis
    by (simp add: trim_space_def trim_right_def trim_with_fixed)
qed

lemma trim_space_Nil [simp]: "trim_space [] = []"
  by code_simp

lemma length_trim_space: "length (trim_space s) \<le> length s"
proof -
  have "length (trim_right (trim_left s)) \<le> length (trim_left s)"
    by (rule prefix_length_le) (rule prefix_trim_right)
  also have "\<dots> \<le> length s"
    unfolding trim_left_def by (rule suffix_length_le) (rule suffix_trim_with)
  finally show ?thesis by (simp add: trim_space_def)
qed

text \<open>
  \<open>strings.ToLower\<close>, on what its callers look at: ASCII letters, and the two other code points
  (U+0130, U+212A) whose lower case is an ASCII letter. Every other rune lowers to a rune outside
  ASCII; it is left as it is, which no caller here can tell apart, since they only search the
  result for ASCII text.
\<close>

definition lower_char :: "char \<Rightarrow> char" where
  "lower_char c = (if 65 \<le> (of_char c :: nat) \<and> (of_char c :: nat) \<le> 90
                   then char_of ((of_char c :: nat) + 32) else c)"

fun to_lower :: "string \<Rightarrow> string" where
  "to_lower [] = []"
| "to_lower (a # b # c # cs) =
     (if [a, b, c] = [CHR 0xE2, CHR 0x84, CHR 0xAA] then CHR ''k'' # to_lower cs
      else if [a, b] = [CHR 0xC4, CHR 0xB0] then CHR ''i'' # to_lower (c # cs)
      else lower_char a # to_lower (b # c # cs))"
| "to_lower [a, b] =
     (if [a, b] = [CHR 0xC4, CHR 0xB0] then ''i'' else [lower_char a, lower_char b])"
| "to_lower [a] = [lower_char a]"

definition upper_char :: "char \<Rightarrow> char" where
  "upper_char c = (if 97 \<le> (of_char c :: nat) \<and> (of_char c :: nat) \<le> 122
                   then char_of ((of_char c :: nat) - 32) else c)"

text \<open>\<open>strings.Join\<close>.\<close>

fun str_join :: "string \<Rightarrow> string list \<Rightarrow> string" where
  "str_join sep [] = []"
| "str_join sep [x] = x"
| "str_join sep (x # y # ys) = x @ sep @ str_join sep (y # ys)"

subsection \<open>Package strconv and the verb d\<close>

definition digit_char :: "nat \<Rightarrow> char" where
  "digit_char d = char_of (48 + d)"

fun nat_str :: "nat \<Rightarrow> string" where
  "nat_str n = (if n < 10 then [digit_char n] else nat_str (n div 10) @ [digit_char (n mod 10)])"

declare nat_str.simps [simp del]

definition int_str :: "int \<Rightarrow> string" where
  "int_str i = (if i < 0 then ''-'' @ nat_str (nat (- i)) else nat_str (nat i))"

lemma nat_str_nonempty [simp]: "nat_str n \<noteq> []"
  by (subst nat_str.simps) simp

text \<open>\<open>%06d\<close> of a number that is not negative.\<close>

definition pad6 :: "nat \<Rightarrow> string" where
  "pad6 n = replicate (6 - length (nat_str n)) (CHR ''0'') @ nat_str n"

text \<open>Reading the digits back: decimal rendering is injective.\<close>

fun dec_value :: "nat \<Rightarrow> string \<Rightarrow> nat" where
  "dec_value acc [] = acc"
| "dec_value acc (c # cs) = dec_value (10 * acc + (of_char c - 48)) cs"

lemma dec_value_append: "dec_value acc (s @ t) = dec_value (dec_value acc s) t"
  by (induction s arbitrary: acc) auto

lemma of_char_digit_char: "d < 10 \<Longrightarrow> of_char (digit_char d) = 48 + d"
  by (simp add: digit_char_def)

lemma dec_value_nat_str: "dec_value 0 (nat_str n) = n"
proof (induction n rule: nat_str.induct)
  case (1 n)
  then show ?case
    by (subst nat_str.simps) (auto simp: dec_value_append of_char_digit_char)
qed

lemma nat_str_inj: "nat_str m = nat_str n \<longleftrightarrow> m = n"
  by (metis dec_value_nat_str)

lemma dec_value_zeros: "dec_value 0 (replicate k (CHR ''0'') @ s) = dec_value 0 s"
  by (induction k) auto

lemma pad6_inj: "pad6 m = pad6 n \<longleftrightarrow> m = n"
  by (metis dec_value_nat_str dec_value_zeros pad6_def)

lemma nat_str_digit: "c \<in> set (nat_str n) \<Longrightarrow> 48 \<le> (of_char c :: nat) \<and> (of_char c :: nat) < 58"
proof (induction n rule: nat_str.induct)
  case (1 n)
  then show ?case
    by (subst (asm) (2) nat_str.simps) (auto simp: of_char_digit_char split: if_splits)
qed

lemma length_nat_str: "length (nat_str n) = (if n < 10 then 1 else Suc (length (nat_str (n div 10))))"
  by (subst nat_str.simps) simp

lemma length_nat_str_mono: "m \<le> n \<Longrightarrow> length (nat_str m) \<le> length (nat_str n)"
proof (induction n arbitrary: m rule: nat_str.induct)
  case (1 n)
  show ?case
  proof (cases "n < 10")
    case True
    with 1 show ?thesis by (simp add: length_nat_str)
  next
    case False
    have "length (nat_str (m div 10)) \<le> length (nat_str (n div 10))"
      using 1 False by (simp add: div_le_mono)
    with False show ?thesis
      by (subst (1 2) length_nat_str) (simp add: Suc_le_eq)
  qed
qed

text \<open>
  \<open>strconv.Quote\<close> and the verb \<open>%q\<close>, exact on ASCII; bytes outside ASCII are copied, as they are
  for printable runes.
\<close>

definition hex_char :: "nat \<Rightarrow> char" where
  "hex_char d = (if d < 10 then char_of (48 + d) else char_of (87 + d))"

definition quote_char :: "char \<Rightarrow> string" where
  "quote_char c =
     (if c = CHR 0x22 \<or> c = CHR 0x5C then [CHR 0x5C, c]
      else if c = CHR 0x07 then [CHR 0x5C, CHR ''a'']
      else if c = CHR 0x08 then [CHR 0x5C, CHR ''b'']
      else if c = CHR 0x0C then [CHR 0x5C, CHR ''f'']
      else if c = CHR 0x0A then [CHR 0x5C, CHR ''n'']
      else if c = CHR 0x0D then [CHR 0x5C, CHR ''r'']
      else if c = CHR 0x09 then [CHR 0x5C, CHR ''t'']
      else if c = CHR 0x0B then [CHR 0x5C, CHR ''v'']
      else if (of_char c :: nat) < 32 \<or> c = CHR 0x7F
        then [CHR 0x5C, CHR ''x'', hex_char (of_char c div 16), hex_char (of_char c mod 16)]
      else [c])"

definition go_quote :: "string \<Rightarrow> string" where
  "go_quote s = CHR 0x22 # concat (map quote_char s) @ [CHR 0x22]"

subsection \<open>Package sort\<close>

text \<open>
  \<open>sort.Slice\<close> with the caller's \<open>less\<close>. On up to twelve elements the library runs insertion
  sort, which is what is written here (the sorted part is kept with its last element first, and a
  new element moves left while \<open>less\<close> says so). On longer slices the library's order of elements
  that neither precede nor follow each other is not specified; this model keeps them in input
  order there too. Where the comparison is total on the elements that occur the result is the same
  whichever algorithm runs, as \<open>sort_key_unique\<close> says.
\<close>

fun ins_down :: "('a \<Rightarrow> 'a \<Rightarrow> bool) \<Rightarrow> 'a \<Rightarrow> 'a list \<Rightarrow> 'a list" where
  "ins_down lt x [] = [x]"
| "ins_down lt x (y # ys) = (if lt x y then y # ins_down lt x ys else x # y # ys)"

definition go_sort :: "('a \<Rightarrow> 'a \<Rightarrow> bool) \<Rightarrow> 'a list \<Rightarrow> 'a list" where
  "go_sort lt xs = rev (foldl (\<lambda>acc x. ins_down lt x acc) [] xs)"

lemma mset_ins_down [simp]: "mset (ins_down lt x ys) = add_mset x (mset ys)"
  by (induction ys) auto

lemma mset_foldl_ins_down: "mset (foldl (\<lambda>acc x. ins_down lt x acc) acc xs) = mset acc + mset xs"
  by (induction xs arbitrary: acc) auto

lemma mset_go_sort [simp]: "mset (go_sort lt xs) = mset xs"
  by (simp add: go_sort_def mset_foldl_ins_down)

lemma set_go_sort [simp]: "set (go_sort lt xs) = set xs"
  by (metis mset_go_sort set_mset_mset)

lemma length_go_sort [simp]: "length (go_sort lt xs) = length xs"
  by (metis mset_go_sort size_mset)

lemma go_sort_Nil [simp]: "go_sort lt [] = []"
  by (simp add: go_sort_def)

text \<open>With \<open>less\<close> given by a key in a linear order the result is the library's \<^const>\<open>sort_key\<close>.\<close>

lemma ins_down_sorted:
  "sorted (rev (map f ys)) \<Longrightarrow> sorted (rev (map f (ins_down (\<lambda>a b. f a < f b) x ys)))"
proof (induction ys)
  case Nil
  then show ?case by simp
next
  case (Cons y ys)
  have "set (ins_down (\<lambda>a b. f a < f b) x ys) = insert x (set ys)"
    by (metis mset_ins_down set_mset_add_mset_insert set_mset_mset)
  with Cons show ?case
    by (auto simp: sorted_append)
qed

lemma ins_down_filter:
  "sorted (rev (map f ys)) \<Longrightarrow>
   filter (\<lambda>y. f k = f y) (ins_down (\<lambda>a b. f a < f b) x ys) =
   (if f k = f x then x # filter (\<lambda>y. f k = f y) ys else filter (\<lambda>y. f k = f y) ys)"
proof (induction ys)
  case Nil
  then show ?case by simp
next
  case (Cons y ys)
  then show ?case by (auto simp: sorted_append)
qed

lemma go_sort_key_eq: "go_sort (\<lambda>a b. f a < f b) xs = sort_key f xs"
proof -
  let ?F = "foldl (\<lambda>acc x. ins_down (\<lambda>a b. f a < f b) x acc)"
  have 1: "sorted (rev (map f (?F acc xs)))" if "sorted (rev (map f acc))" for acc xs
    using that
  proof (induction xs arbitrary: acc)
    case (Cons x xs)
    then show ?case using ins_down_sorted [OF Cons.prems] by simp
  qed simp
  have 2: "filter (\<lambda>y. f k = f y) (?F acc xs) =
      rev (filter (\<lambda>y. f k = f y) xs) @ filter (\<lambda>y. f k = f y) acc"
    if "sorted (rev (map f acc))" for acc xs k
    using that
  proof (induction xs arbitrary: acc)
    case (Cons x xs)
    then show ?case
      using ins_down_sorted [OF Cons.prems] by (simp add: ins_down_filter)
  qed simp
  show ?thesis
  proof (rule properties_for_sort_key [symmetric])
    show "mset (go_sort (\<lambda>a b. f a < f b) xs) = mset xs" by simp
    show "filter (\<lambda>y. f k = f y) (go_sort (\<lambda>a b. f a < f b) xs) = filter (\<lambda>y. f k = f y) xs"
      for k
      using 2 [of "[]" k xs] by (simp add: go_sort_def flip: rev_filter)
    show "sorted (map f (go_sort (\<lambda>a b. f a < f b) xs))"
      using 1 [of "[]" xs] by (simp add: go_sort_def rev_map)
  qed
qed

lemma go_sort_less_eq: "go_sort (<) xs = sort (xs :: 'a :: linorder list)"
  using go_sort_key_eq [of "\<lambda>x. x" xs] by simp

lemma map_sort_key_sort: "map f (sort_key f xs) = sort (map f xs)"
  by (rule properties_for_sort [symmetric]) auto

lemma sort_key_unique:
  assumes "inj_on f (set xs)" and "mset xs = mset ys"
  shows "sort_key f xs = sort_key f ys"
proof -
  have "map f (sort_key f xs) = map f (sort_key f ys)"
    unfolding map_sort_key_sort
    by (rule properties_for_sort) (simp_all add: assms(2))
  moreover have "set xs = set ys"
    using assms(2) by (rule mset_eq_setD)
  ultimately show ?thesis
    using assms(1) by (auto dest: map_inj_on)
qed

definition sort_strings :: "string list \<Rightarrow> string list" where
  "sort_strings xs = go_sort (<) xs"

lemma sort_strings_eq: "sort_strings xs = sort xs"
  by (simp add: sort_strings_def go_sort_less_eq)

lemma sort_strings_perm: "mset xs = mset ys \<Longrightarrow> sort_strings xs = sort_strings ys"
  by (metis sort_strings_eq properties_for_sort mset_sort sorted_sort)

end
