(* ===== verification/Eventlog.thy ===== *)
theory Eventlog
  imports Prelude
begin

text \<open>
  Package \<open>internal/eventlog\<close>: the event record of the local session graph, its validation, the
  event kinds, and the in-memory store. The locale \<open>event_spine\<close> is the contract of every
  append-only event store in the repository (\<open>eventlog.MemoryStore\<close>, \<open>backend.MemoryBackend\<close>,
  \<open>xs.Adapter\<close>); its lemmas are proved once and each store interprets it in its own theory. The
  stores lock a mutex around every operation, so an operation is one atomic step of the model.
\<close>

subsection \<open>Events\<close>

record event =
  ev_id :: string
  ev_session :: string
  ev_ts :: gotime
  ev_kind :: string
  ev_branch :: string
  ev_parent :: string
  ev_refs :: "string list"
  ev_meta :: gomap
  ev_blob :: string

definition ErrInvalidEvent :: goerr where
  "ErrInvalidEvent = Sentinel ''eventlog.ErrInvalidEvent'' ''invalid event''"

definition ErrDuplicateEventID :: goerr where
  "ErrDuplicateEventID =
     Sentinel ''eventlog.ErrDuplicateEventID'' ''duplicate event id in session''"

definition ErrEventNotFound :: goerr where
  "ErrEventNotFound = Sentinel ''eventlog.ErrEventNotFound'' ''event not found''"

definition event_validate :: "event \<Rightarrow> goerr option" where
  "event_validate e =
     (if ev_id e = [] then Some ErrInvalidEvent
      else if ev_session e = [] then Some ErrInvalidEvent
      else if ev_ts e = 0 then Some ErrInvalidEvent
      else if ev_kind e = [] then Some ErrInvalidEvent
      else if ev_branch e = [] then Some ErrInvalidEvent
      else None)"

lemma event_validate_None_iff:
  "event_validate e = None \<longleftrightarrow>
     ev_id e \<noteq> [] \<and> ev_session e \<noteq> [] \<and> ev_ts e \<noteq> 0 \<and> ev_kind e \<noteq> [] \<and> ev_branch e \<noteq> []"
  by (simp add: event_validate_def)

lemma event_validate_Some: "event_validate e = Some err \<Longrightarrow> err = ErrInvalidEvent"
  by (auto simp: event_validate_def split: if_splits)

subsection \<open>Event kinds\<close>

definition KindTurnUser :: string where "KindTurnUser = ''turn.user''"
definition KindTurnAgent :: string where "KindTurnAgent = ''turn.agent''"
definition KindToolRequest :: string where "KindToolRequest = ''tool.request''"
definition KindToolResult :: string where "KindToolResult = ''tool.result''"
definition KindToolFailure :: string where "KindToolFailure = ''tool.failure''"
definition KindSummaryCheckpoint :: string where "KindSummaryCheckpoint = ''summary.checkpoint''"
definition KindSummaryRebuild :: string where "KindSummaryRebuild = ''summary.rebuild''"
definition KindBranchFork :: string where "KindBranchFork = ''branch.fork''"
definition KindPacketCandidate :: string where "KindPacketCandidate = ''packet.candidate''"
definition KindPacketSent :: string where "KindPacketSent = ''packet.sent''"
definition KindPacketRejected :: string where "KindPacketRejected = ''packet.rejected_budget''"
definition KindResponseReceived :: string where "KindResponseReceived = ''response.received''"
definition KindResponseInvalid :: string where "KindResponseInvalid = ''response.invalid_schema''"
definition KindConsultResolved :: string where "KindConsultResolved = ''consult.resolved''"
definition KindConsultUnresolved :: string where "KindConsultUnresolved = ''consult.unresolved''"
definition KindRecoveryAttempt :: string where "KindRecoveryAttempt = ''recovery.attempt''"
definition KindRecoveryFallback :: string where "KindRecoveryFallback = ''recovery.fallback''"
definition KindAuditDecision :: string where "KindAuditDecision = ''audit.decision''"
definition KindPreprocessExtract :: string where "KindPreprocessExtract = ''preprocess.extraction''"
definition KindCompactionRequest :: string where "KindCompactionRequest = ''compaction.request''"
definition KindCompactionComplete :: string where "KindCompactionComplete = ''compaction.complete''"
definition KindCompactionFailure :: string where "KindCompactionFailure = ''compaction.failure''"
definition KindASTPersisted :: string where "KindASTPersisted = ''ast.persisted''"

lemmas kind_defs [go_defs] =
  KindTurnUser_def KindTurnAgent_def KindToolRequest_def KindToolResult_def KindToolFailure_def
  KindSummaryCheckpoint_def KindSummaryRebuild_def KindBranchFork_def KindPacketCandidate_def
  KindPacketSent_def KindPacketRejected_def KindResponseReceived_def KindResponseInvalid_def
  KindConsultResolved_def KindConsultUnresolved_def KindRecoveryAttempt_def
  KindRecoveryFallback_def KindAuditDecision_def KindPreprocessExtract_def
  KindCompactionRequest_def KindCompactionComplete_def KindCompactionFailure_def
  KindASTPersisted_def

subsection \<open>The contract of an event store\<close>

text \<open>
  \<open>spine s sid\<close> is the abstract value of a store: the events of a session in append order.
\<close>

locale event_spine =
  fixes append :: "ctx \<Rightarrow> event \<Rightarrow> 's \<Rightarrow> goerr option \<times> 's"
    and listing :: "ctx \<Rightarrow> string \<Rightarrow> 's \<Rightarrow> event list result"
    and get :: "ctx \<Rightarrow> string \<Rightarrow> string \<Rightarrow> 's \<Rightarrow> event result"
    and spine :: "'s \<Rightarrow> string \<Rightarrow> event list"
    and inv :: "'s \<Rightarrow> bool"
    and not_found :: goerr
  assumes append_ok:
      "inv s \<Longrightarrow> append c e s = (None, s') \<Longrightarrow>
         inv s' \<and> c = None \<and> event_validate e = None
         \<and> ev_id e \<notin> ev_id ` set (spine s (ev_session e))
         \<and> spine s' = (spine s)(ev_session e := spine s (ev_session e) @ [e])"
    and append_err:
      "inv s \<Longrightarrow> append c e s = (Some err, s') \<Longrightarrow> inv s' \<and> spine s' = spine s"
    and append_total:
      "inv s \<Longrightarrow> event_validate e = None \<Longrightarrow>
         ev_id e \<notin> ev_id ` set (spine s (ev_session e)) \<Longrightarrow> fst (append None e s) = None"
    and listing_live: "inv s \<Longrightarrow> listing None sid s = Inr (spine s sid)"
    and get_live:
      "inv s \<Longrightarrow> get None sid eid s =
         (case find (\<lambda>e. ev_id e = eid) (spine s sid) of None \<Rightarrow> Inl not_found | Some e \<Rightarrow> Inr e)"
    and spine_distinct: "inv s \<Longrightarrow> distinct (map ev_id (spine s sid))"
    and spine_session: "inv s \<Longrightarrow> e \<in> set (spine s sid) \<Longrightarrow> ev_session e = sid \<and> event_validate e = None"
begin

lemma append_inv: "inv s \<Longrightarrow> inv (snd (append c e s))"
  by (cases "append c e s"; cases "fst (append c e s)") (auto dest: append_ok append_err)

lemma append_spine:
  "inv s \<Longrightarrow> spine (snd (append c e s)) sid =
     (if fst (append c e s) = None \<and> sid = ev_session e then spine s sid @ [e] else spine s sid)"
  by (cases "append c e s"; cases "fst (append c e s)") (auto dest: append_ok append_err)

text \<open>Append-only: whatever is appended, every session's earlier events stay a prefix.\<close>

lemma append_prefix: "inv s \<Longrightarrow> prefix (spine s sid) (spine (snd (append c e s)) sid)"
  by (simp add: append_spine)

lemma append_duplicate:
  "inv s \<Longrightarrow> ev_id e \<in> ev_id ` set (spine s (ev_session e)) \<Longrightarrow> fst (append c e s) \<noteq> None"
  by (cases "append c e s") (auto dest: append_ok)

lemma append_None_iff:
  "inv s \<Longrightarrow> fst (append None e s) = None \<longleftrightarrow>
     event_validate e = None \<and> ev_id e \<notin> ev_id ` set (spine s (ev_session e))"
  by (metis append_ok append_total prod.collapse)

lemma get_appended:
  assumes "inv s" and "append c e s = (None, s')"
  shows "get None (ev_session e) (ev_id e) s' = Inr e"
proof -
  have i: "inv s'" and sp: "spine s' (ev_session e) = spine s (ev_session e) @ [e]"
    and fresh: "ev_id e \<notin> ev_id ` set (spine s (ev_session e))"
    using append_ok [OF assms] by auto
  have "find (\<lambda>x. ev_id x = ev_id e) (spine s (ev_session e)) = None"
    using fresh by (auto simp: find_None_iff image_iff)
  then show ?thesis by (simp add: get_live [OF i] sp find_snoc)
qed

text \<open>A stored event is never changed: what \<open>get\<close> returned, it returns after every append.\<close>

lemma get_stable:
  assumes "inv s" and "get None sid eid s = Inr x"
  shows "get None sid eid (snd (append c e s)) = Inr x"
proof -
  have f: "find (\<lambda>e. ev_id e = eid) (spine s sid) = Some x"
    using assms by (auto simp: get_live split: option.splits)
  obtain zs where "spine (snd (append c e s)) sid = spine s sid @ zs"
    using append_prefix [OF assms(1), of sid c e] by (auto simp: prefix_def)
  with f show ?thesis
    by (simp add: get_live [OF append_inv [OF assms(1)]] find_append_Some)
qed

text \<open>The same for a whole sequence of appends, of which some may fail.\<close>

lemma appends_inv: "inv s \<Longrightarrow> inv (fold (\<lambda>(c, e) s. snd (append c e s)) ces s)"
  by (induction ces arbitrary: s) (auto intro: append_inv)

lemma appends_prefix:
  "inv s \<Longrightarrow> prefix (spine s sid) (spine (fold (\<lambda>(c, e) s. snd (append c e s)) ces s) sid)"
proof (induction ces arbitrary: s)
  case (Cons ce ces)
  obtain c e where ce: "ce = (c, e)" by (cases ce)
  have "prefix (spine s sid) (spine (snd (append c e s)) sid)"
    using Cons.prems by (rule append_prefix)
  also have "prefix \<dots> (spine (fold (\<lambda>(c, e) s. snd (append c e s)) ces (snd (append c e s))) sid)"
    by (rule Cons.IH) (rule append_inv [OF Cons.prems])
  finally show ?case by (simp add: ce)
qed simp

lemma appends_get_stable:
  "inv s \<Longrightarrow> get None sid eid s = Inr x \<Longrightarrow>
     get None sid eid (fold (\<lambda>(c, e) s. snd (append c e s)) ces s) = Inr x"
  by (induction ces arbitrary: s) (auto intro: get_stable append_inv)

end

subsection \<open>The two maps of a store agree\<close>

text \<open>
  All three stores keep \<open>sessions\<close> (events in order) and \<open>byID\<close> (events by identifier); the
  invariant that ties them, with the lemmas on the two updates an append makes.
\<close>

type_synonym sessions = "string \<rightharpoonup> event list"
type_synonym by_id = "string \<rightharpoonup> (string \<rightharpoonup> event)"

definition stored :: "sessions \<Rightarrow> string \<Rightarrow> event list" where
  "stored ss sid = (case ss sid of None \<Rightarrow> [] | Some es \<Rightarrow> es)"

definition lookup_id :: "by_id \<Rightarrow> string \<Rightarrow> string \<Rightarrow> event option" where
  "lookup_id bi sid eid = (case bi sid of None \<Rightarrow> None | Some m \<Rightarrow> m eid)"

definition store_inv :: "sessions \<Rightarrow> by_id \<Rightarrow> bool" where
  "store_inv ss bi \<longleftrightarrow>
     (\<forall>sid. distinct (map ev_id (stored ss sid))
        \<and> (\<forall>e \<in> set (stored ss sid). ev_session e = sid \<and> event_validate e = None)
        \<and> (\<forall>eid. lookup_id bi sid eid = find (\<lambda>e. ev_id e = eid) (stored ss sid)))"

text \<open>\<open>if byID[sid] == nil { byID[sid] = make(...) }\<close>\<close>

definition ensure_session :: "by_id \<Rightarrow> string \<Rightarrow> by_id" where
  "ensure_session bi sid = (if bi sid = None then bi(sid \<mapsto> Map.empty) else bi)"

definition add_by_id :: "by_id \<Rightarrow> event \<Rightarrow> by_id" where
  "add_by_id bi e = bi(ev_session e \<mapsto> (case bi (ev_session e) of None \<Rightarrow> Map.empty | Some m \<Rightarrow> m)
                        (ev_id e \<mapsto> e))"

definition add_session :: "sessions \<Rightarrow> event \<Rightarrow> sessions" where
  "add_session ss e = ss(ev_session e \<mapsto> stored ss (ev_session e) @ [e])"

lemma stored_empty [simp]: "stored Map.empty sid = []"
  by (simp add: stored_def)

lemma stored_add_session: "stored (add_session ss e) = (stored ss)(ev_session e := stored ss (ev_session e) @ [e])"
  by (auto simp: stored_def add_session_def)

lemma lookup_ensure_session [simp]: "lookup_id (ensure_session bi sid') sid eid = lookup_id bi sid eid"
  by (auto simp: lookup_id_def ensure_session_def)

lemma lookup_add_by_id:
  "lookup_id (add_by_id bi e) sid eid =
     (if sid = ev_session e \<and> eid = ev_id e then Some e else lookup_id bi sid eid)"
  by (auto simp: lookup_id_def add_by_id_def split: option.splits)

lemma store_inv_empty [simp]: "store_inv Map.empty Map.empty"
  by (simp add: store_inv_def lookup_id_def)

lemma store_inv_ensure [simp]: "store_inv ss (ensure_session bi sid) = store_inv ss bi"
  by (simp add: store_inv_def)

lemma store_inv_lookup_None:
  "store_inv ss bi \<Longrightarrow> lookup_id bi sid eid = None \<longleftrightarrow> eid \<notin> ev_id ` set (stored ss sid)"
  by (auto simp: store_inv_def find_None_iff)

lemma store_inv_add:
  assumes inv: "store_inv ss bi" and v: "event_validate e = None"
    and fresh: "lookup_id bi (ev_session e) (ev_id e) = None"
  shows "store_inv (add_session ss e) (add_by_id bi e)"
proof -
  have "ev_id e \<notin> ev_id ` set (stored ss (ev_session e))"
    using fresh store_inv_lookup_None [OF inv] by blast
  with inv v fresh show ?thesis
    by (auto simp: store_inv_def stored_add_session lookup_add_by_id find_snoc split: option.splits)
qed

subsection \<open>The in-memory store\<close>

record memory_store =
  ms_sessions :: sessions
  ms_by_id :: by_id

definition new_memory_store :: memory_store where
  "new_memory_store = \<lparr>ms_sessions = Map.empty, ms_by_id = Map.empty\<rparr>"

definition ms_append :: "ctx \<Rightarrow> event \<Rightarrow> memory_store \<Rightarrow> goerr option \<times> memory_store" where
  "ms_append c e s =
     (case c of Some err \<Rightarrow> (Some err, s) | None \<Rightarrow>
      case event_validate e of Some err \<Rightarrow> (Some err, s) | None \<Rightarrow>
      let bi = ensure_session (ms_by_id s) (ev_session e) in
      if lookup_id bi (ev_session e) (ev_id e) \<noteq> None
      then (Some ErrDuplicateEventID, s\<lparr>ms_by_id := bi\<rparr>)
      else (None, s\<lparr>ms_sessions := add_session (ms_sessions s) e, ms_by_id := add_by_id bi e\<rparr>))"

definition ms_get_by_id :: "ctx \<Rightarrow> string \<Rightarrow> string \<Rightarrow> memory_store \<Rightarrow> event result" where
  "ms_get_by_id c sid eid s =
     (case c of Some err \<Rightarrow> Inl err | None \<Rightarrow>
      case ms_by_id s sid of None \<Rightarrow> Inl ErrEventNotFound | Some events \<Rightarrow>
      case events eid of None \<Rightarrow> Inl ErrEventNotFound | Some e \<Rightarrow> Inr e)"

definition ms_list_by_session :: "ctx \<Rightarrow> string \<Rightarrow> memory_store \<Rightarrow> event list result" where
  "ms_list_by_session c sid s =
     (case c of Some err \<Rightarrow> Inl err | None \<Rightarrow> Inr (stored (ms_sessions s) sid))"

definition ms_inv :: "memory_store \<Rightarrow> bool" where
  "ms_inv s \<longleftrightarrow> store_inv (ms_sessions s) (ms_by_id s)"

lemma ms_inv_new [simp]: "ms_inv new_memory_store"
  by (simp add: ms_inv_def new_memory_store_def)

lemma ms_get_alt:
  "ms_get_by_id None sid eid s =
     (case lookup_id (ms_by_id s) sid eid of None \<Rightarrow> Inl ErrEventNotFound | Some e \<Rightarrow> Inr e)"
  by (simp add: ms_get_by_id_def lookup_id_def split: option.split)

interpretation es: event_spine ms_append ms_list_by_session ms_get_by_id
  "\<lambda>s. stored (ms_sessions s)" ms_inv ErrEventNotFound
proof unfold_locales
  fix s c e s'
  assume "ms_inv s" and "ms_append c e s = (None, s')"
  then show "ms_inv s' \<and> c = None \<and> event_validate e = None
      \<and> ev_id e \<notin> ev_id ` set (stored (ms_sessions s) (ev_session e))
      \<and> stored (ms_sessions s') =
        (stored (ms_sessions s))(ev_session e := stored (ms_sessions s) (ev_session e) @ [e])"
    by (auto simp: ms_append_def ms_inv_def Let_def store_inv_add store_inv_lookup_None
        stored_add_session split: option.splits if_splits)
next
  fix s e
  assume "ms_inv s" and "event_validate e = None"
    and "ev_id e \<notin> ev_id ` set (stored (ms_sessions s) (ev_session e))"
  then show "fst (ms_append None e s) = None"
    by (simp add: ms_append_def ms_inv_def Let_def store_inv_lookup_None)
qed (auto simp: ms_append_def ms_inv_def Let_def ms_list_by_session_def ms_get_alt store_inv_def
      split: option.splits if_splits)

end
