(* ===== verification/GoJson.thy ===== *)
theory GoJson
  imports Prelude
begin

text \<open>
  The part of Go's \<open>encoding/json\<close> that the code relies on byte for byte: \<open>json.Marshal\<close> of
  strings, integers, booleans, slices, structs and string maps. The assembler and the consult
  manifest measure the length of its output, and the fingerprint hashes it, so the escaping rules
  are written out: HTML-relevant characters and control characters are escaped, bytes that are not
  UTF-8 become the replacement character, and U+2028 and U+2029 are escaped.
\<close>

subsection \<open>UTF-8\<close>

definition cont_byte :: "char \<Rightarrow> bool" where
  "cont_byte c \<longleftrightarrow> 128 \<le> (of_char c :: nat) \<and> (of_char c :: nat) < 192"

text \<open>
  \<open>utf8.DecodeRune\<close> on a string whose first byte is not ASCII: the size of the encoding at the
  head, or \<open>None\<close> where it would report \<open>RuneError\<close> with width 1.
\<close>

definition in_range :: "nat \<Rightarrow> nat \<Rightarrow> char \<Rightarrow> bool" where
  "in_range lo hi c \<longleftrightarrow> lo \<le> of_char c \<and> of_char c \<le> hi"

fun rune_size :: "string \<Rightarrow> nat option" where
  "rune_size [] = None"
| "rune_size (a # cs) =
     (if in_range 0xC2 0xDF a then
        (case cs of b # _ \<Rightarrow> if cont_byte b then Some 2 else None | _ \<Rightarrow> None)
      else if in_range 0xE0 0xEF a then
        (case cs of b # c # _ \<Rightarrow>
           if (if of_char a = (0xE0 :: nat) then in_range 0xA0 0xBF b
               else if of_char a = (0xED :: nat) then in_range 0x80 0x9F b
               else cont_byte b) \<and> cont_byte c then Some 3 else None
         | _ \<Rightarrow> None)
      else if in_range 0xF0 0xF4 a then
        (case cs of b # c # d # _ \<Rightarrow>
           if (if of_char a = (0xF0 :: nat) then in_range 0x90 0xBF b
               else if of_char a = (0xF4 :: nat) then in_range 0x80 0x8F b
               else cont_byte b) \<and> cont_byte c \<and> cont_byte d then Some 4 else None
         | _ \<Rightarrow> None)
      else None)"

lemma rune_size_bounds: "rune_size s = Some n \<Longrightarrow> 2 \<le> n \<and> n \<le> length s \<and> n \<le> 4"
  by (cases s) (auto split: if_splits list.splits)

declare rune_size.simps [simp del]

subsection \<open>String literals\<close>

definition hex_digit :: "nat \<Rightarrow> char" where
  "hex_digit d = (if d < 10 then char_of (48 + d) else char_of (87 + d))"

definition escape_ascii :: "char \<Rightarrow> string" where
  "escape_ascii c =
     (if c = CHR 0x5C \<or> c = CHR 0x22 then [CHR 0x5C, c]
      else if c = CHR 0x08 then [CHR 0x5C, CHR ''b'']
      else if c = CHR 0x0C then [CHR 0x5C, CHR ''f'']
      else if c = CHR 0x0A then [CHR 0x5C, CHR ''n'']
      else if c = CHR 0x0D then [CHR 0x5C, CHR ''r'']
      else if c = CHR 0x09 then [CHR 0x5C, CHR ''t'']
      else if (of_char c :: nat) < 32 \<or> c = CHR ''<'' \<or> c = CHR ''>'' \<or> c = CHR ''&''
        then [CHR 0x5C, CHR ''u'', CHR ''0'', CHR ''0'',
              hex_digit (of_char c div 16), hex_digit (of_char c mod 16)]
      else [c])"

definition escape_rune :: "string \<Rightarrow> string" where
  "escape_rune r =
     (if r = [CHR 0xE2, CHR 0x80, CHR 0xA8] then [CHR 0x5C] @ ''u2028''
      else if r = [CHR 0xE2, CHR 0x80, CHR 0xA9] then [CHR 0x5C] @ ''u2029''
      else r)"

function json_escape :: "string \<Rightarrow> string" where
  "json_escape [] = []"
| "json_escape (c # cs) =
     (if (of_char c :: nat) < 128 then escape_ascii c @ json_escape cs
      else (case rune_size (c # cs) of
              None \<Rightarrow> [CHR 0x5C] @ ''ufffd'' @ json_escape cs
            | Some n \<Rightarrow> escape_rune (take n (c # cs)) @ json_escape (drop n (c # cs))))"
  by pat_completeness auto
termination
  by (relation "measure length") (auto dest!: rune_size_bounds)

declare json_escape.simps(2) [simp del]

definition json_string :: "string \<Rightarrow> string" where
  "json_string s = CHR 0x22 # json_escape s @ [CHR 0x22]"

subsection \<open>Values\<close>

text \<open>
  What \<open>json.Marshal\<close> prints: the fields of a struct in declaration order (those left out by
  \<open>omitempty\<close> are not in the list), the entries of a map in the order of their keys.
\<close>

datatype json =
    JNull
  | JBool bool
  | JInt int
  | JString string
  | JArray "json list"
  | JObject "(string \<times> json) list"

fun json_print :: "json \<Rightarrow> string" where
  "json_print JNull = ''null''"
| "json_print (JBool b) = (if b then ''true'' else ''false'')"
| "json_print (JInt i) = int_str i"
| "json_print (JString s) = json_string s"
| "json_print (JArray vs) = ''['' @ str_join '','' (map json_print vs) @ '']''"
| "json_print (JObject fs) =
     ''{'' @ str_join '','' (map (\<lambda>(k, v). json_string k @ '':'' @ json_print v) fs) @ ''}''"

text \<open>Struct fields: always present, or present unless empty.\<close>

definition fld :: "string \<Rightarrow> json \<Rightarrow> (string \<times> json) list" where
  "fld k v = [(k, v)]"

definition opt_fld :: "bool \<Rightarrow> string \<Rightarrow> json \<Rightarrow> (string \<times> json) list" where
  "opt_fld present k v = (if present then [(k, v)] else [])"

definition opt_str :: "string \<Rightarrow> string \<Rightarrow> (string \<times> json) list" where
  "opt_str k s = opt_fld (s \<noteq> []) k (JString s)"

definition opt_strs :: "string \<Rightarrow> string list \<Rightarrow> (string \<times> json) list" where
  "opt_strs k ss = opt_fld (ss \<noteq> []) k (JArray (map JString ss))"

text \<open>A \<open>map[string]string\<close>: its entries sorted by key.\<close>

definition string_map_json :: "(string \<times> string) list \<Rightarrow> json" where
  "string_map_json m = JObject (map (\<lambda>(k, v). (k, JString v)) (go_sort (\<lambda>a b. fst a < fst b) m))"

subsection \<open>Lengths\<close>

lemma length_str_join:
  "length (str_join sep xs) = sum_list (map length xs) + (length xs - 1) * length sep"
  by (induction sep xs rule: str_join.induct) (auto simp: algebra_simps)

lemma length_print_array:
  "length (json_print (JArray vs)) = 2 + sum_list (map (\<lambda>v. length (json_print v)) vs) + (length vs - 1)"
  by (simp add: length_str_join comp_def)

lemma length_print_object:
  "length (json_print (JObject fs)) =
     2 + sum_list (map (\<lambda>(k, v). length (json_string k) + 1 + length (json_print v)) fs)
       + (length fs - 1)"
  by (simp add: length_str_join comp_def split_def)

lemma length_json_print_ge: "1 \<le> length (json_print v)"
proof (cases v)
  case (JInt i)
  then show ?thesis
    using nat_str_nonempty [of "nat i"] by (auto simp: int_str_def Suc_le_eq)
next
  case (JString s)
  then show ?thesis by (simp add: json_string_def)
qed auto

text \<open>
  Replacing the value of one field of an object changes the length of the text by the difference
  of the two values' lengths.
\<close>

lemma length_print_object_field:
  "length (json_print (JObject (fs @ (k, v) # gs))) + length (json_print w) =
   length (json_print (JObject (fs @ (k, w) # gs))) + length (json_print v)"
  by (simp only: length_print_object) simp

subsection \<open>String literals read back\<close>

fun valid_utf8_fuel :: "nat \<Rightarrow> string \<Rightarrow> bool" where
  "valid_utf8_fuel k [] = True"
| "valid_utf8_fuel 0 (c # cs) = False"
| "valid_utf8_fuel (Suc k) (c # cs) =
     (if (of_char c :: nat) < 128 then valid_utf8_fuel k cs
      else case rune_size (c # cs) of None \<Rightarrow> False | Some n \<Rightarrow> valid_utf8_fuel k (drop n (c # cs)))"

text \<open>A rune has at least one byte, so the length is fuel enough.\<close>

definition valid_utf8 :: "string \<Rightarrow> bool" where
  "valid_utf8 s = valid_utf8_fuel (length s) s"

definition hex_value :: "char \<Rightarrow> nat" where
  "hex_value c = (let n = of_char c in if n < 58 then n - 48 else n - 87)"

text \<open>A reader for the escapes that the printer produces, up to the closing quote.\<close>

definition simple_escape :: "char \<Rightarrow> char" where
  "simple_escape e =
     (if e = CHR ''b'' then CHR 0x08 else if e = CHR ''f'' then CHR 0x0C
      else if e = CHR ''n'' then CHR 0x0A else if e = CHR ''r'' then CHR 0x0D
      else if e = CHR ''t'' then CHR 0x09 else e)"

definition unicode_escape :: "string \<Rightarrow> string" where
  "unicode_escape q =
     (if q = ''2028'' then [CHR 0xE2, CHR 0x80, CHR 0xA8]
      else if q = ''2029'' then [CHR 0xE2, CHR 0x80, CHR 0xA9]
      else [char_of (16 * hex_value (q ! 2) + hex_value (q ! 3))])"

definition read_char :: "string \<Rightarrow> (string \<times> string) option" where
  "read_char s =
     (if s = [] \<or> hd s = CHR 0x22 then None
      else if hd s \<noteq> CHR 0x5C then Some ([hd s], tl s)
      else if hd (tl s) = CHR ''u'' then Some (unicode_escape (take 4 (drop 2 s)), drop 6 s)
      else Some ([simple_escape (hd (tl s))], drop 2 s))"

lemma read_char_shorter: "read_char s = Some (c, r) \<Longrightarrow> length r < length s"
  by (cases s) (auto simp: read_char_def split: if_splits)

function unescape :: "string \<Rightarrow> string \<times> string" where
  "unescape s =
     (case read_char s of
        None \<Rightarrow> ([], drop 1 s)
      | Some (c, r) \<Rightarrow> (c @ fst (unescape r), snd (unescape r)))"
  by pat_completeness auto
termination by (relation "measure length") (auto dest: read_char_shorter)

declare unescape.simps [simp del]

lemma unescape_quote [simp]: "unescape (CHR 0x22 # r) = ([], r)"
  by (subst unescape.simps) (simp add: read_char_def)

lemma unescape_step:
  "read_char s = Some (c, r) \<Longrightarrow> unescape s = (c @ fst (unescape r), snd (unescape r))"
  by (subst unescape.simps) simp

lemma unescape_plain: "c \<noteq> CHR 0x22 \<Longrightarrow> c \<noteq> CHR 0x5C \<Longrightarrow>
    unescape (c # cs) = (c # fst (unescape cs), snd (unescape cs))"
  by (subst unescape_step [of _ "[c]" cs]) (simp_all add: read_char_def)

lemma unescape_plains: "\<forall>c \<in> set xs. c \<noteq> CHR 0x22 \<and> c \<noteq> CHR 0x5C \<Longrightarrow>
    unescape (xs @ t) = (xs @ fst (unescape t), snd (unescape t))"
  by (induction xs) (simp_all add: unescape_plain)

lemma unescape_simple: "e \<noteq> CHR ''u'' \<Longrightarrow>
    unescape (CHR 0x5C # e # t) = (simple_escape e # fst (unescape t), snd (unescape t))"
  by (subst unescape_step [of _ "[simple_escape e]" t]) (simp_all add: read_char_def)

lemma unescape_unicode:
  "unescape (CHR 0x5C # CHR ''u'' # a # b # c # d # t) =
     (unicode_escape [a, b, c, d] @ fst (unescape t), snd (unescape t))"
  by (subst unescape_step [of _ "unicode_escape [a, b, c, d]" t]) (simp_all add: read_char_def)

lemma hex_value_digit: "d < 16 \<Longrightarrow> hex_value (hex_digit d) = d"
  by (auto simp: hex_value_def hex_digit_def Let_def)

lemma unescape_ascii:
  assumes "(of_char c :: nat) < 128"
  shows "unescape (escape_ascii c @ t) = (c # fst (unescape t), snd (unescape t))"
proof -
  have "char_of (16 * hex_value (hex_digit (of_char c div 16)) + hex_value (hex_digit (of_char c mod 16))) = c"
    using assms by (simp add: hex_value_digit)
  then have u: "unicode_escape [CHR ''0'', CHR ''0'', hex_digit (of_char c div 16), hex_digit (of_char c mod 16)] = [c]"
    by (simp add: unicode_escape_def)
  show ?thesis
    by (simp add: escape_ascii_def unescape_simple unescape_unicode unescape_plain u)
       (simp add: simple_escape_def)
qed

lemma in_range_high: "in_range lo hi c \<Longrightarrow> 128 \<le> lo \<Longrightarrow> 128 \<le> (of_char c :: nat)"
  by (simp add: in_range_def)

lemma cont_byte_high: "cont_byte c \<Longrightarrow> 128 \<le> (of_char c :: nat)"
  by (simp add: cont_byte_def)

lemma rune_bytes_high:
  assumes "rune_size s = Some n"
  shows "\<forall>c \<in> set (take n s). 128 \<le> (of_char c :: nat)"
proof -
  obtain a cs where s: "s = a # cs" using assms by (cases s) (auto simp: rune_size.simps)
  consider (two) "in_range 0xC2 0xDF a" | (three) "\<not> in_range 0xC2 0xDF a" "in_range 0xE0 0xEF a"
    | (four) "\<not> in_range 0xC2 0xDF a" "\<not> in_range 0xE0 0xEF a" "in_range 0xF0 0xF4 a"
    using assms s by (auto simp: rune_size.simps split: if_splits)
  then show ?thesis
  proof cases
    case two
    with assms s obtain b r where "cs = b # r" "cont_byte b" "n = 2"
      by (auto simp: rune_size.simps split: list.splits if_splits)
    with two s show ?thesis by (auto dest: in_range_high cont_byte_high)
  next
    case three
    with assms s obtain b c r where "cs = b # c # r" "n = 3" "cont_byte c" and
      b: "if of_char a = (0xE0 :: nat) then in_range 0xA0 0xBF b
          else if of_char a = (0xED :: nat) then in_range 0x80 0x9F b else cont_byte b"
      by (auto simp: rune_size.simps simp del: if_split split: list.splits if_split_asm)
    moreover have "128 \<le> (of_char b :: nat)"
      using b by (auto dest: in_range_high cont_byte_high split: if_split_asm)
    ultimately show ?thesis using three s by (auto dest: in_range_high cont_byte_high)
  next
    case four
    with assms s obtain b c d r where "cs = b # c # d # r" "n = 4" "cont_byte c" "cont_byte d" and
      b: "if of_char a = (0xF0 :: nat) then in_range 0x90 0xBF b
          else if of_char a = (0xF4 :: nat) then in_range 0x80 0x8F b else cont_byte b"
      by (auto simp: rune_size.simps simp del: if_split split: list.splits if_split_asm)
    moreover have "128 \<le> (of_char b :: nat)"
      using b by (auto dest: in_range_high cont_byte_high split: if_split_asm)
    ultimately show ?thesis using four s by (auto dest: in_range_high cont_byte_high)
  qed
qed

lemma unescape_rune:
  assumes "rune_size s = Some n"
  shows "unescape (escape_rune (take n s) @ t) = (take n s @ fst (unescape t), snd (unescape t))"
proof -
  have "\<forall>c \<in> set (take n s). c \<noteq> CHR 0x22 \<and> c \<noteq> CHR 0x5C"
    using rune_bytes_high [OF assms] by auto
  then show ?thesis
    by (auto simp: escape_rune_def unescape_plains unescape_unicode unicode_escape_def)
qed

lemma unescape_json_escape:
  "valid_utf8_fuel k s \<Longrightarrow> unescape (json_escape s @ CHR 0x22 # r) = (s, r)"
proof (induction k s rule: valid_utf8_fuel.induct)
  case (3 k c cs)
  show ?case
  proof (cases "(of_char c :: nat) < 128")
    case True
    with 3 show ?thesis by (simp add: json_escape.simps unescape_ascii)
  next
    case False
    then obtain n where n: "rune_size (c # cs) = Some n" "valid_utf8_fuel k (drop n (c # cs))"
      using 3(3) by (auto split: option.splits)
    from False n(1) have "json_escape (c # cs) = escape_rune (take n (c # cs)) @ json_escape (drop n (c # cs))"
      by (simp add: json_escape.simps)
    with 3(2) [OF False n] show ?thesis
      by (simp only: append_assoc unescape_rune [OF n(1)] fst_conv snd_conv append_take_drop_id)
  qed
qed simp_all

lemma json_string_unique:
  assumes "valid_utf8 s" and "valid_utf8 s'" and "json_string s @ r = json_string s' @ r'"
  shows "s = s' \<and> r = r'"
proof -
  have eq: "json_escape s @ CHR 0x22 # r = json_escape s' @ CHR 0x22 # r'"
    using assms(3) by (simp only: json_string_def append_Cons append_assoc list.inject append_Nil simp_thms)
  have "(s, r) = unescape (json_escape s @ CHR 0x22 # r)"
    using assms(1) unfolding valid_utf8_def by (rule unescape_json_escape [symmetric])
  also have "\<dots> = (s', r')"
    unfolding eq using assms(2) unfolding valid_utf8_def by (rule unescape_json_escape)
  finally show ?thesis by simp
qed

subsection \<open>Values read back\<close>

text \<open>
  Values without numbers (a number is the one value whose text could continue) have texts of which
  none is a proper prefix of another, so a value and what follows it can be told apart.
\<close>

fun no_numbers :: "json \<Rightarrow> bool" where
  "no_numbers JNull = True"
| "no_numbers (JBool b) = True"
| "no_numbers (JInt i) = False"
| "no_numbers (JString s) = valid_utf8 s"
| "no_numbers (JArray vs) = list_all no_numbers vs"
| "no_numbers (JObject fs) = list_all (\<lambda>(k, v). valid_utf8 k \<and> no_numbers v) fs"

text \<open>The texts of the elements after the first, each with its comma, and the closing character.\<close>

fun print_rest :: "char \<Rightarrow> ('a \<Rightarrow> string) \<Rightarrow> 'a list \<Rightarrow> string" where
  "print_rest q p [] = [q]"
| "print_rest q p (x # xs) = CHR '','' # p x @ print_rest q p xs"

lemma join_print_rest:
  "str_join '','' (map p (x # xs)) @ q # r = p x @ print_rest q p xs @ r"
  by (induction xs arbitrary: x) simp_all

lemma print_rest_unique:
  assumes "\<And>x y r r'. x \<in> set xs \<Longrightarrow> y \<in> set ys \<Longrightarrow> p x @ r = p y @ r' \<Longrightarrow> x = y \<and> r = r'"
    and "q \<noteq> CHR '',''" and "print_rest q p xs @ r = print_rest q p ys @ r'"
  shows "xs = ys \<and> r = r'"
  using assms(1,3)
proof (induction xs arbitrary: ys)
  case Nil
  with assms(2) show ?case by (cases ys) auto
next
  case (Cons x xs)
  from Cons.prems(2) assms(2) obtain y zs where ys: "ys = y # zs" by (cases ys) auto
  with Cons.prems(2) have "p x @ print_rest q p xs @ r = p y @ print_rest q p zs @ r'" by simp
  with Cons.prems(1) [of x y] ys have "x = y" "print_rest q p xs @ r = print_rest q p zs @ r'"
    by auto
  with Cons.IH [of zs] Cons.prems(1) ys show ?case by auto
qed

lemma json_print_starts:
  "no_numbers v \<Longrightarrow> hd (json_print v) =
     (case v of JNull \<Rightarrow> CHR ''n'' | JBool b \<Rightarrow> if b then CHR ''t'' else CHR ''f'' | JInt i \<Rightarrow> CHR ''0''
      | JString s \<Rightarrow> CHR 0x22 | JArray vs \<Rightarrow> CHR ''['' | JObject fs \<Rightarrow> CHR ''{'')"
  by (cases v) (simp_all add: json_string_def)

lemma list_print_unique:
  assumes u: "\<And>x y r r'. x \<in> set xs \<Longrightarrow> y \<in> set ys \<Longrightarrow> p x @ r = p y @ r' \<Longrightarrow> x = y \<and> r = r'"
    and n: "\<And>x. x \<in> set xs \<union> set ys \<Longrightarrow> p x \<noteq> [] \<and> hd (p x) \<noteq> q" and q: "q \<noteq> CHR '',''"
    and eq: "str_join '','' (map p xs) @ q # r = str_join '','' (map p ys) @ q # r'"
  shows "xs = ys \<and> r = r'"
proof (cases xs)
  case Nil
  show ?thesis
  proof (cases ys)
    case (Cons y zs)
    have "str_join '','' (map p ys) @ q # r' = p y @ print_rest q p zs @ r'"
      unfolding Cons by (rule join_print_rest)
    with eq Nil have "q # r = p y @ print_rest q p zs @ r'" by simp
    moreover obtain c cs where "p y = c # cs" "c \<noteq> q" using n [of y] Cons by (cases "p y") auto
    ultimately show ?thesis by simp
  qed (use Nil eq in simp)
next
  case (Cons x xs')
  have 1: "str_join '','' (map p xs) @ q # r = p x @ print_rest q p xs' @ r"
    unfolding Cons by (rule join_print_rest)
  obtain c cs where c: "p x = c # cs" "c \<noteq> q" using n [of x] Cons by (cases "p x") auto
  show ?thesis
  proof (cases ys)
    case Nil
    with 1 eq have "p x @ print_rest q p xs' @ r = q # r'" by simp
    with c show ?thesis by simp
  next
    case (Cons y ys')
    have 2: "str_join '','' (map p ys) @ q # r' = p y @ print_rest q p ys' @ r'"
      unfolding Cons by (rule join_print_rest)
    have xy: "x = y \<and> print_rest q p xs' @ r = print_rest q p ys' @ r'"
      using u [of x y "print_rest q p xs' @ r"] eq 1 2 Cons \<open>xs = x # xs'\<close> by simp
    then have "xs' = ys' \<and> r = r'"
      using print_rest_unique [of xs' ys' p q r r'] u q Cons \<open>xs = x # xs'\<close> by auto
    with xy Cons \<open>xs = x # xs'\<close> show ?thesis by simp
  qed
qed

lemma json_print_nonempty [simp]: "json_print v \<noteq> []"
  using length_json_print_ge [of v] by auto

lemma append_hd_eq: "xs @ r = ys @ r' \<Longrightarrow> xs \<noteq> [] \<Longrightarrow> ys \<noteq> [] \<Longrightarrow> hd xs = hd ys"
  by (metis hd_append)

lemma json_print_hd_not_close: "no_numbers v \<Longrightarrow> hd (json_print v) \<noteq> CHR '']''"
  by (subst json_print_starts) (auto split: json.split)

lemma json_print_same_start:
  assumes "no_numbers v" "no_numbers v'" "json_print v @ r = json_print v' @ r'"
  shows "(case v of JNull \<Rightarrow> v' = JNull | JBool b \<Rightarrow> v' = JBool b | JInt i \<Rightarrow> False
      | JString s \<Rightarrow> \<exists>s'. v' = JString s' | JArray vs \<Rightarrow> \<exists>vs'. v' = JArray vs'
      | JObject fs \<Rightarrow> \<exists>fs'. v' = JObject fs')"
proof -
  have "hd (json_print v) = hd (json_print v')"
    using assms(3) by (rule append_hd_eq) simp_all
  with assms(1,2) show ?thesis
    unfolding json_print_starts [OF assms(1)] json_print_starts [OF assms(2)]
    by (cases v; cases v') (auto split: if_splits)
qed

lemma json_print_unique:
  "no_numbers v \<Longrightarrow> no_numbers v' \<Longrightarrow> json_print v @ r = json_print v' @ r' \<Longrightarrow> v = v' \<and> r = r'"
proof (induction v arbitrary: v' r r')
  case (JString s)
  obtain s' where "v' = JString s'"
    using json_print_same_start [OF JString.prems] by auto
  with JString.prems have "valid_utf8 s" "valid_utf8 s'" "json_string s @ r = json_string s' @ r'"
    by (simp_all only: no_numbers.simps json_print.simps)
  from json_string_unique [OF this] \<open>v' = JString s'\<close> show ?case by simp
next
  case (JArray vs)
  obtain vs' where v': "v' = JArray vs'"
    using json_print_same_start [OF JArray.prems] by auto
  have "vs = vs' \<and> r = r'"
  proof (rule list_print_unique [where p = json_print and q = "CHR '']''"])
    show "x = y \<and> t = t'" if "x \<in> set vs" "y \<in> set vs'" "json_print x @ t = json_print y @ t'" for x y t t'
      using that JArray.IH [of x y t t'] JArray.prems v' by (auto simp: list_all_iff)
    show "json_print x \<noteq> [] \<and> hd (json_print x) \<noteq> CHR '']''" if "x \<in> set vs \<union> set vs'" for x
      using that JArray.prems v' json_print_hd_not_close by (auto simp: list_all_iff)
  qed (use JArray.prems v' in simp_all)
  with v' show ?case by simp
next
  case (JObject fs)
  obtain fs' where v': "v' = JObject fs'"
    using json_print_same_start [OF JObject.prems] by auto
  let ?p = "\<lambda>(k, v). json_string k @ '':'' @ json_print v"
  have "fs = fs' \<and> r = r'"
  proof (rule list_print_unique [where p = ?p and q = "CHR ''}''"])
    show "x = y \<and> t = t'" if mem: "x \<in> set fs" "y \<in> set fs'" and eq: "?p x @ t = ?p y @ t'" for x y t t'
    proof -
      obtain k v where x: "x = (k, v)" by (cases x)
      obtain l w where y: "y = (l, w)" by (cases y)
      have ok: "valid_utf8 k" "no_numbers v" "valid_utf8 l" "no_numbers w"
        using mem JObject.prems v' x y by (auto simp: list_all_iff)
      have "json_string k @ '':'' @ json_print v @ t = json_string l @ '':'' @ json_print w @ t'"
        using eq x y by simp
      from json_string_unique [OF ok(1,3) this]
      have "k = l" "json_print v @ t = json_print w @ t'" by simp_all
      with JObject.IH [of x v w t t'] ok mem x y show ?thesis by auto
    qed
    show "?p x \<noteq> [] \<and> hd (?p x) \<noteq> CHR ''}''" if "x \<in> set fs \<union> set fs'" for x
      by (cases x) (simp add: json_string_def)
  qed (use JObject.prems v' in simp_all)
  with v' show ?case by simp
next
  case JNull
  then show ?case using json_print_same_start [OF JNull.prems] by simp
next
  case (JBool b)
  then show ?case using json_print_same_start [OF JBool.prems] by simp
qed simp

end
