(* ===== verification/Consult.thy ===== *)
theory Consult
  imports GoJson "HOL-Library.AList"
begin

text \<open>
  Package \<open>internal/consult\<close>: the consult manifest (the deterministic, byte-accounted artifact of a
  resolved consult) and the event summary that goes to the event spine.
\<close>

subsection \<open>Types\<close>

definition SerializerVersionV1 :: string where
  "SerializerVersionV1 = ''consult.v1''"

definition EventSchemaVersionV1 :: string where
  "EventSchemaVersionV1 = SerializerVersionV1"

definition OutcomeResolved :: string where "OutcomeResolved = ''resolved''"
definition OutcomeUnresolved :: string where "OutcomeUnresolved = ''unresolved''"
definition RoleLeader :: string where "RoleLeader = ''leader''"
definition RoleFollower :: string where "RoleFollower = ''follower''"

record selected_item =
  si_id :: string
  si_kind :: string
  si_ref :: string
  si_summary_ref :: string
  si_bytes :: int
  si_reason :: string

record selection_item =
  sx_id :: string
  sx_kind :: string
  sx_reason :: string
  sx_class :: string

record reason_count =
  rc_reason :: string
  rc_count :: int

record selection_explanation =
  se_included :: "selection_item list"
  se_excluded :: "selection_item list"
  se_dom_included :: "reason_count list"
  se_dom_excluded :: "reason_count list"
  se_pressure :: bool

type_synonym string_map = "(string \<times> string) list"

record consult_input =
  ci_session :: string
  ci_branch :: string
  ci_fingerprint :: string
  ci_mode :: string
  ci_scope :: string
  ci_refs :: "string list"
  ci_constraints :: string_map
  ci_items :: "selected_item list"
  ci_budget :: int
  ci_compacted :: bool
  ci_truncated :: bool
  ci_task :: string
  ci_selection :: "selection_explanation option"

record manifest =
  mf_event_id :: string
  mf_session :: string
  mf_branch :: string
  mf_fingerprint :: string
  mf_mode :: string
  mf_scope :: string
  mf_refs :: "string list"
  mf_constraints :: string_map
  mf_items :: "selected_item list"
  mf_budget :: int
  mf_actual :: int
  mf_compacted :: bool
  mf_truncated :: bool
  mf_version :: string
  mf_task :: string
  mf_selection :: "selection_explanation option"

record event_summary =
  es_schema :: string
  es_fingerprint :: string
  es_contract :: string
  es_serializer :: string
  es_outcome :: string
  es_role :: string
  es_leader_event :: string
  es_budget :: int
  es_actual :: int
  es_task :: string
  es_missing :: "string list"
  es_selection :: "selection_explanation option"

subsection \<open>Event metadata\<close>

definition selection_item_meta :: "selection_item \<Rightarrow> gomap" where
  "selection_item_meta i =
     [(''id'', VStr (sx_id i)), (''kind'', VStr (sx_kind i)), (''reason'', VStr (sx_reason i))]
     @ (if sx_class i \<noteq> [] then [(''class'', VStr (sx_class i))] else [])"

definition selection_reason_meta :: "reason_count list \<Rightarrow> gomap list" where
  "selection_reason_meta rs =
     map (\<lambda>r. [(''reason'', VStr (rc_reason r)), (''count'', VInt (rc_count r))]) rs"

definition selection_meta :: "selection_explanation \<Rightarrow> gomap" where
  "selection_meta s =
     (if se_included s \<noteq> [] then [(''included'', VMaps (map selection_item_meta (se_included s)))]
      else [])
     @ (if se_excluded s \<noteq> [] then [(''excluded'', VMaps (map selection_item_meta (se_excluded s)))]
        else [])
     @ (if se_dom_included s \<noteq> []
        then [(''dominant_inclusion_reasons'', VMaps (selection_reason_meta (se_dom_included s)))]
        else [])
     @ (if se_dom_excluded s \<noteq> []
        then [(''dominant_exclusion_reasons'', VMaps (selection_reason_meta (se_dom_excluded s)))]
        else [])
     @ (if se_pressure s then [(''budget_pressure'', VBool True)] else [])"

definition event_summary_meta :: "event_summary \<Rightarrow> gomap" where
  "event_summary_meta e =
     [(''schema_version'', VStr (es_schema e)), (''fingerprint'', VStr (es_fingerprint e)),
      (''contract_version'', VStr (es_contract e)), (''outcome'', VStr (es_outcome e)),
      (''role'', VStr (es_role e)), (''byte_budget'', VInt (es_budget e)),
      (''actual_bytes'', VInt (es_actual e))]
     @ (if es_serializer e \<noteq> [] then [(''manifest_serializer_version'', VStr (es_serializer e))]
        else [])
     @ (if es_leader_event e \<noteq> [] then [(''leader_consult_event_id'', VStr (es_leader_event e))]
        else [])
     @ (if es_task e \<noteq> [] then [(''task_summary'', VStr (es_task e))] else [])
     @ (if es_missing e \<noteq> [] then [(''missing'', VStrs (es_missing e))] else [])
     @ (case es_selection e of None \<Rightarrow> [] | Some s \<Rightarrow> [(''selection'', VMap (selection_meta s))])"

subsection \<open>Normalisation\<close>

definition consult_ErrMalformedInput :: goerr where
  "consult_ErrMalformedInput =
     Sentinel ''consult.ErrMalformedInput'' ''malformed consult input''"

definition normalize_refs :: "string list \<Rightarrow> string list" where
  "normalize_refs refs = sort_strings (filter (\<lambda>r. r \<noteq> []) (map trim_space refs))"

text \<open>
  The loop over the Go map: the list is the order in which the range runs, and a later entry
  overwrites an earlier one whose key has the same trimmed form.
\<close>

fun normalize_constraints_from :: "string_map \<Rightarrow> string_map \<Rightarrow> string_map option" where
  "normalize_constraints_from out [] = Some out"
| "normalize_constraints_from out ((k, v) # m) =
     (let key = trim_space k in
      if key = [] then None
      else normalize_constraints_from (AList.update key (trim_space v) out) m)"

definition normalize_constraints :: "string_map \<Rightarrow> string_map option" where
  "normalize_constraints m = normalize_constraints_from [] m"

definition selected_item_less :: "selected_item \<Rightarrow> selected_item \<Rightarrow> bool" where
  "selected_item_less a b =
     (if si_id a \<noteq> si_id b then si_id a < si_id b
      else if si_kind a \<noteq> si_kind b then si_kind a < si_kind b
      else if si_ref a \<noteq> si_ref b then si_ref a < si_ref b
      else if si_summary_ref a \<noteq> si_summary_ref b then si_summary_ref a < si_summary_ref b
      else if si_reason a \<noteq> si_reason b then si_reason a < si_reason b
      else si_bytes a < si_bytes b)"

definition trim_selected_item :: "selected_item \<Rightarrow> selected_item" where
  "trim_selected_item i =
     \<lparr>si_id = trim_space (si_id i), si_kind = trim_space (si_kind i),
      si_ref = trim_space (si_ref i), si_summary_ref = trim_space (si_summary_ref i),
      si_bytes = si_bytes i, si_reason = trim_space (si_reason i)\<rparr>"

definition normalize_selected_items :: "selected_item list \<Rightarrow> selected_item list option" where
  "normalize_selected_items items =
     (if list_ex (\<lambda>i. trim_space (si_id i) = [] \<or> trim_space (si_kind i) = [] \<or> si_bytes i < 0) items
      then None
      else Some (go_sort selected_item_less (map trim_selected_item items)))"

definition selection_item_less :: "selection_item \<Rightarrow> selection_item \<Rightarrow> bool" where
  "selection_item_less a b =
     (if sx_id a \<noteq> sx_id b then sx_id a < sx_id b
      else if sx_kind a \<noteq> sx_kind b then sx_kind a < sx_kind b
      else if sx_reason a \<noteq> sx_reason b then sx_reason a < sx_reason b
      else sx_class a < sx_class b)"

definition trim_selection_item :: "selection_item \<Rightarrow> selection_item" where
  "trim_selection_item i =
     \<lparr>sx_id = trim_space (sx_id i), sx_kind = trim_space (sx_kind i),
      sx_reason = trim_space (sx_reason i), sx_class = trim_space (sx_class i)\<rparr>"

definition normalize_selection_items :: "selection_item list \<Rightarrow> selection_item list option" where
  "normalize_selection_items items =
     (if list_ex (\<lambda>i. trim_space (sx_id i) = [] \<or> trim_space (sx_kind i) = []
                    \<or> trim_space (sx_reason i) = []) items
      then None
      else Some (go_sort selection_item_less (map trim_selection_item items)))"

definition reason_count_less :: "reason_count \<Rightarrow> reason_count \<Rightarrow> bool" where
  "reason_count_less a b =
     (if rc_count a \<noteq> rc_count b then rc_count a > rc_count b else rc_reason a < rc_reason b)"

definition trim_reason_count :: "reason_count \<Rightarrow> reason_count" where
  "trim_reason_count r = r\<lparr>rc_reason := trim_space (rc_reason r)\<rparr>"

definition normalize_reason_counts :: "reason_count list \<Rightarrow> reason_count list option" where
  "normalize_reason_counts rs =
     (if list_ex (\<lambda>r. trim_space (rc_reason r) = [] \<or> rc_count r \<le> 0) rs then None
      else Some (go_sort reason_count_less (map trim_reason_count rs)))"

definition normalize_selection :: "selection_explanation option \<Rightarrow> selection_explanation option option" where
  "normalize_selection s =
     (case s of None \<Rightarrow> Some None | Some s \<Rightarrow>
      case normalize_selection_items (se_included s) of None \<Rightarrow> None | Some inc \<Rightarrow>
      case normalize_selection_items (se_excluded s) of None \<Rightarrow> None | Some exc \<Rightarrow>
      case normalize_reason_counts (se_dom_included s) of None \<Rightarrow> None | Some di \<Rightarrow>
      case normalize_reason_counts (se_dom_excluded s) of None \<Rightarrow> None | Some de \<Rightarrow>
      Some (Some \<lparr>se_included = inc, se_excluded = exc, se_dom_included = di,
                  se_dom_excluded = de, se_pressure = se_pressure s\<rparr>))"

subsection \<open>JSON form of a manifest\<close>

definition selected_item_json :: "selected_item \<Rightarrow> json" where
  "selected_item_json i = JObject
     (fld ''id'' (JString (si_id i)) @ fld ''kind'' (JString (si_kind i))
      @ opt_str ''ref'' (si_ref i) @ opt_str ''summary_ref'' (si_summary_ref i)
      @ opt_fld (si_bytes i \<noteq> 0) ''bytes'' (JInt (si_bytes i)) @ opt_str ''reason'' (si_reason i))"

definition selection_item_json :: "selection_item \<Rightarrow> json" where
  "selection_item_json i = JObject
     (fld ''id'' (JString (sx_id i)) @ fld ''kind'' (JString (sx_kind i))
      @ fld ''reason'' (JString (sx_reason i)) @ opt_str ''class'' (sx_class i))"

definition reason_count_json :: "reason_count \<Rightarrow> json" where
  "reason_count_json r = JObject
     (fld ''reason'' (JString (rc_reason r)) @ fld ''count'' (JInt (rc_count r)))"

definition selection_json :: "selection_explanation \<Rightarrow> json" where
  "selection_json s = JObject
     (opt_fld (se_included s \<noteq> []) ''included'' (JArray (map selection_item_json (se_included s)))
      @ opt_fld (se_excluded s \<noteq> []) ''excluded'' (JArray (map selection_item_json (se_excluded s)))
      @ opt_fld (se_dom_included s \<noteq> []) ''dominant_inclusion_reasons''
          (JArray (map reason_count_json (se_dom_included s)))
      @ opt_fld (se_dom_excluded s \<noteq> []) ''dominant_exclusion_reasons''
          (JArray (map reason_count_json (se_dom_excluded s)))
      @ opt_fld (se_pressure s) ''budget_pressure'' (JBool True))"

definition manifest_json :: "manifest \<Rightarrow> json" where
  "manifest_json m = JObject
     (fld ''event_id'' (JString (mf_event_id m)) @ fld ''session_id'' (JString (mf_session m))
      @ fld ''branch_id'' (JString (mf_branch m)) @ fld ''fingerprint'' (JString (mf_fingerprint m))
      @ fld ''mode'' (JString (mf_mode m)) @ opt_str ''scope'' (mf_scope m)
      @ opt_strs ''refs'' (mf_refs m)
      @ opt_fld (mf_constraints m \<noteq> []) ''constraints'' (string_map_json (mf_constraints m))
      @ opt_fld (mf_items m \<noteq> []) ''selected_items'' (JArray (map selected_item_json (mf_items m)))
      @ fld ''byte_budget'' (JInt (mf_budget m)) @ fld ''actual_bytes'' (JInt (mf_actual m))
      @ fld ''compacted'' (JBool (mf_compacted m)) @ fld ''truncated'' (JBool (mf_truncated m))
      @ fld ''serializer_version'' (JString (mf_version m)) @ opt_str ''task_summary'' (mf_task m)
      @ (case mf_selection m of None \<Rightarrow> [] | Some s \<Rightarrow> fld ''selection'' (selection_json s)))"

definition manifest_marshal :: "manifest \<Rightarrow> string" where
  "manifest_marshal m = json_print (manifest_json m)"

subsection \<open>Measuring and generating\<close>

text \<open>
  \<open>measuredBytes\<close>: the size of the text depends on the number printed in it, so the code marshals
  until the number is its own length, at most eight times.
\<close>

fun measure_loop :: "nat \<Rightarrow> manifest \<Rightarrow> int" where
  "measure_loop 0 m = mf_actual m"
| "measure_loop (Suc k) m =
     (let n = int (length (manifest_marshal m)) in
      if mf_actual m = n then n else measure_loop k (m\<lparr>mf_actual := n\<rparr>))"

definition measured_bytes :: "manifest \<Rightarrow> int" where
  "measured_bytes m = measure_loop 8 (m\<lparr>mf_actual := 0\<rparr>)"

text \<open>The tail of \<open>Generate\<close>: measure, and measure again if the artifact is over its budget.\<close>

definition account_bytes :: "manifest \<Rightarrow> manifest" where
  "account_bytes m0 =
     (let m1 = m0\<lparr>mf_actual := measured_bytes m0\<rparr> in
      if mf_budget m1 > 0 \<and> mf_actual m1 > mf_budget m1
      then let m2 = m1\<lparr>mf_compacted := True\<rparr> in m2\<lparr>mf_actual := measured_bytes m2\<rparr>
      else m1)"

definition generate :: "consult_input \<Rightarrow> manifest result" where
  "generate inp =
     (let session = trim_space (ci_session inp); branch = trim_space (ci_branch inp);
          fingerprint = trim_space (ci_fingerprint inp); mode = trim_space (ci_mode inp);
          scope = trim_space (ci_scope inp); task = trim_space (ci_task inp) in
      if session = [] \<or> branch = [] \<or> fingerprint = [] \<or> mode = [] then Inl consult_ErrMalformedInput
      else if ci_budget inp < 0 then Inl consult_ErrMalformedInput
      else case normalize_constraints (ci_constraints inp) of
        None \<Rightarrow> Inl consult_ErrMalformedInput | Some constraints \<Rightarrow>
      case normalize_selected_items (ci_items inp) of
        None \<Rightarrow> Inl consult_ErrMalformedInput | Some items \<Rightarrow>
      case normalize_selection (ci_selection inp) of
        None \<Rightarrow> Inl consult_ErrMalformedInput | Some selection \<Rightarrow>
      Inr (account_bytes
        \<lparr>mf_event_id = [], mf_session = session, mf_branch = branch,
         mf_fingerprint = fingerprint, mf_mode = mode, mf_scope = scope,
         mf_refs = normalize_refs (ci_refs inp), mf_constraints = constraints,
         mf_items = items, mf_budget = ci_budget inp, mf_actual = 0,
         mf_compacted = ci_compacted inp, mf_truncated = ci_truncated inp,
         mf_version = SerializerVersionV1, mf_task = task, mf_selection = selection\<rparr>))"

subsection \<open>The measured size is the size\<close>

text \<open>
  Everything but the number is fixed, so the text has \<open>B + d n\<close> bytes when it prints \<open>n\<close>, with
  \<open>d n\<close> the decimal digits of \<open>n\<close>. From 0 the iteration reaches a fixed point in three steps.
\<close>

lemma length_nat_str_mult10: "0 < a \<Longrightarrow> length (nat_str (10 * a)) = Suc (length (nat_str a))"
  by (subst length_nat_str) simp

lemma length_nat_str_le: "0 < n \<Longrightarrow> length (nat_str n) \<le> n"
proof (induction n rule: nat_str.induct)
  case (1 n)
  show ?case
  proof (cases "n < 10")
    case True
    with 1 show ?thesis by (simp add: length_nat_str)
  next
    case False
    then have "length (nat_str (n div 10)) \<le> n div 10" using 1 by simp
    with False show ?thesis by (subst length_nat_str) simp
  qed
qed

lemma digit_iteration_fixpoint:
  fixes B :: nat
  defines "f \<equiv> \<lambda>a. B + length (nat_str a)"
  shows "f (f (f (f 0))) = f (f (f 0))"
proof -
  let ?d = "\<lambda>n. length (nat_str n)"
  define a1 where "a1 = f 0"
  define a2 where "a2 = f a1"
  define a3 where "a3 = f a2"
  have d0: "?d 0 = 1" by (simp add: length_nat_str)
  have a1: "a1 = B + 1" by (simp add: a1_def f_def d0)
  have a2: "a2 = B + ?d a1" by (simp add: a2_def f_def)
  have a3: "a3 = B + ?d a2" by (simp add: a3_def f_def)
  have d1: "1 \<le> ?d a1" "?d a1 \<le> a1"
    using nat_str_nonempty [of a1] length_nat_str_le [of a1] a1 by (auto simp: Suc_le_eq)
  have le: "a1 \<le> a2" "Suc a2 \<le> 10 * a1" using a1 a2 d1 by auto
  have up: "?d a1 \<le> ?d a2" "?d a2 \<le> ?d (Suc a2)"
    by (simp_all add: le length_nat_str_mono)
  have "?d (Suc a2) \<le> ?d (10 * a1)" using le(2) by (rule length_nat_str_mono)
  also have "\<dots> = Suc (?d a1)"
    by (rule length_nat_str_mult10) (simp add: a1)
  finally have "?d a2 = ?d a1 \<or> ?d a2 = Suc (?d a1) \<and> ?d (Suc a2) = ?d a2"
    using up by auto
  then have "?d a3 = ?d a2"
  proof
    assume "?d a2 = ?d a1"
    with a2 a3 have "a3 = a2" by simp
    then show ?thesis by simp
  next
    assume "?d a2 = Suc (?d a1) \<and> ?d (Suc a2) = ?d a2"
    with a2 a3 show ?thesis by simp
  qed
  then have "f a3 = a3" by (simp add: f_def a3)
  then show ?thesis by (simp add: a3_def a2_def a1_def)
qed

definition manifest_fields_before :: "manifest \<Rightarrow> (string \<times> json) list" where
  "manifest_fields_before m =
     fld ''event_id'' (JString (mf_event_id m)) @ fld ''session_id'' (JString (mf_session m))
     @ fld ''branch_id'' (JString (mf_branch m)) @ fld ''fingerprint'' (JString (mf_fingerprint m))
     @ fld ''mode'' (JString (mf_mode m)) @ opt_str ''scope'' (mf_scope m)
     @ opt_strs ''refs'' (mf_refs m)
     @ opt_fld (mf_constraints m \<noteq> []) ''constraints'' (string_map_json (mf_constraints m))
     @ opt_fld (mf_items m \<noteq> []) ''selected_items'' (JArray (map selected_item_json (mf_items m)))
     @ fld ''byte_budget'' (JInt (mf_budget m))"

definition manifest_fields_after :: "manifest \<Rightarrow> (string \<times> json) list" where
  "manifest_fields_after m =
     fld ''compacted'' (JBool (mf_compacted m)) @ fld ''truncated'' (JBool (mf_truncated m))
     @ fld ''serializer_version'' (JString (mf_version m)) @ opt_str ''task_summary'' (mf_task m)
     @ (case mf_selection m of None \<Rightarrow> [] | Some s \<Rightarrow> fld ''selection'' (selection_json s))"

lemma manifest_json_split:
  "manifest_json (m\<lparr>mf_actual := i\<rparr>) =
     JObject (manifest_fields_before m @ (''actual_bytes'', JInt i) # manifest_fields_after m)"
  by (simp add: manifest_json_def manifest_fields_before_def manifest_fields_after_def fld_def)

lemma manifest_length_split:
  "\<exists>B. \<forall>n. length (manifest_marshal (m\<lparr>mf_actual := int n\<rparr>)) = B + length (nat_str n)"
proof -
  define L where "L = (\<lambda>i. length (json_print (JObject (manifest_fields_before m @
                 (''actual_bytes'', JInt i) # manifest_fields_after m))))"
  have "L (int n) + length (json_print (JInt 0)) = L 0 + length (json_print (JInt (int n)))" for n
    unfolding L_def by (rule length_print_object_field)
  then have "L (int n) + 1 = L 0 + length (nat_str n)" for n
    by (simp add: int_str_def length_nat_str [of 0])
  moreover have "1 \<le> L 0"
    unfolding L_def by (rule length_json_print_ge)
  ultimately have "L (int n) = (L 0 - 1) + length (nat_str n)" for n
    by (metis add.commute add_diff_assoc2 add_diff_cancel_right')
  then show ?thesis
    unfolding manifest_marshal_def manifest_json_split L_def by blast
qed

lemma measure_loop_reaches:
  assumes step: "\<And>n. int (length (manifest_marshal (m\<lparr>mf_actual := int n\<rparr>))) = int (f n)"
    and "f ((f ^^ j) a) = (f ^^ j) a" and "j < k"
  shows "\<exists>b. measure_loop k (m\<lparr>mf_actual := int a\<rparr>) = int b \<and> f b = b"
  using assms(2,3)
proof (induction k arbitrary: a j)
  case (Suc k)
  show ?case
  proof (cases "f a = a")
    case True
    then show ?thesis by (auto simp: Let_def step)
  next
    case False
    with Suc.prems obtain i where "j = Suc i" by (cases j) auto
    with Suc.prems have "f ((f ^^ i) (f a)) = (f ^^ i) (f a)" "i < k"
      by (simp_all add: funpow_swap1)
    then have "\<exists>b. measure_loop k (m\<lparr>mf_actual := int (f a)\<rparr>) = int b \<and> f b = b"
      by (rule Suc.IH)
    with False show ?thesis by (auto simp: Let_def step)
  qed
qed simp

lemma measured_bytes_exact:
  "int (length (manifest_marshal (m\<lparr>mf_actual := measured_bytes m\<rparr>))) = measured_bytes m"
proof -
  obtain B where B: "\<And>n. length (manifest_marshal (m\<lparr>mf_actual := int n\<rparr>)) = B + length (nat_str n)"
    using manifest_length_split by blast
  define f where "f = (\<lambda>a. B + length (nat_str a))"
  have "f ((f ^^ 3) 0) = (f ^^ 3) 0"
    unfolding f_def using digit_iteration_fixpoint [of B] by (simp add: numeral_3_eq_3)
  then have "\<exists>b. measure_loop 8 (m\<lparr>mf_actual := int 0\<rparr>) = int b \<and> f b = b"
    by (intro measure_loop_reaches [where f = f and j = 3]) (simp_all add: B f_def)
  then show ?thesis by (auto simp: measured_bytes_def B f_def)
qed

lemma measured_bytes_irrelevant [simp]: "measured_bytes (m\<lparr>mf_actual := i\<rparr>) = measured_bytes m"
  by (simp add: measured_bytes_def)

subsection \<open>Normal forms do not depend on the order of the input\<close>

lemma selected_item_less_key:
  "selected_item_less = (\<lambda>a b.
     (si_id a, si_kind a, si_ref a, si_summary_ref a, si_reason a, si_bytes a) <
     (si_id b, si_kind b, si_ref b, si_summary_ref b, si_reason b, si_bytes b))"
  by (intro ext) (auto simp: selected_item_less_def less_prod_def)

lemma selection_item_less_key:
  "selection_item_less = (\<lambda>a b.
     (sx_id a, sx_kind a, sx_reason a, sx_class a) < (sx_id b, sx_kind b, sx_reason b, sx_class b))"
  by (intro ext) (auto simp: selection_item_less_def less_prod_def)

lemma reason_count_less_key:
  "reason_count_less = (\<lambda>a b. (- rc_count a, rc_reason a) < (- rc_count b, rc_reason b))"
  by (intro ext) (auto simp: reason_count_less_def less_prod_def)

lemma go_sort_total:
  fixes f :: "'a \<Rightarrow> 'b :: linorder"
  assumes "lt = (\<lambda>a b. f a < f b)" and "inj f" and "mset xs = mset ys"
  shows "go_sort lt xs = go_sort lt ys"
proof -
  have "inj_on f (set xs)" using assms(2) by (rule inj_on_subset) simp
  then show ?thesis using assms(1,3) by (simp add: go_sort_key_eq sort_key_unique)
qed

lemma go_sort_selected_perm:
  "mset xs = mset ys \<Longrightarrow> go_sort selected_item_less xs = go_sort selected_item_less ys"
  by (rule go_sort_total [OF selected_item_less_key]) (auto simp: inj_def)

lemma go_sort_selection_perm:
  "mset xs = mset ys \<Longrightarrow> go_sort selection_item_less xs = go_sort selection_item_less ys"
  by (rule go_sort_total [OF selection_item_less_key]) (auto simp: inj_def)

lemma go_sort_reason_perm:
  "mset xs = mset ys \<Longrightarrow> go_sort reason_count_less xs = go_sort reason_count_less ys"
  by (rule go_sort_total [OF reason_count_less_key]) (auto simp: inj_def)

lemma list_ex_perm: "mset xs = mset ys \<Longrightarrow> list_ex P xs = list_ex P ys"
  by (metis list_ex_iff mset_eq_setD)

lemma normalize_refs_perm: "mset xs = mset ys \<Longrightarrow> normalize_refs xs = normalize_refs ys"
  unfolding normalize_refs_def
  by (rule sort_strings_perm) (simp add: mset_filter)

lemma normalize_selected_items_perm:
  "mset xs = mset ys \<Longrightarrow> normalize_selected_items xs = normalize_selected_items ys"
  by (auto simp: normalize_selected_items_def list_ex_perm [of xs ys] intro!: go_sort_selected_perm)

lemma normalize_refs_idem: "normalize_refs (normalize_refs xs) = normalize_refs xs"
proof -
  have "map trim_space (normalize_refs xs) = normalize_refs xs"
    by (rule map_idI) (auto simp: normalize_refs_def sort_strings_def)
  moreover have "filter (\<lambda>r. r \<noteq> []) (normalize_refs xs) = normalize_refs xs"
    by (rule filter_True) (auto simp: normalize_refs_def sort_strings_def)
  ultimately show ?thesis
    unfolding normalize_refs_def [of "normalize_refs xs"] sort_strings_eq
    by (simp only: normalize_refs_def sort_strings_eq sorted_sort_id [OF sorted_sort])
qed

text \<open>
  The normalised constraints, as a map: independent of the iteration order as long as no two keys
  have the same trimmed form.
\<close>

lemma normalize_constraints_from_None_iff:
  "normalize_constraints_from out m = None \<longleftrightarrow> list_ex (\<lambda>kv. trim_space (fst kv) = []) m"
  by (induction m arbitrary: out) (simp_all add: Let_def split_paired_all)

lemma normalize_constraints_from_map:
  assumes "normalize_constraints_from out m = Some r"
    and "distinct (map (trim_space \<circ> fst) m)"
  shows "map_of r = map_of out ++ map_of (map (\<lambda>(k, v). (trim_space k, trim_space v)) m)"
  using assms
proof (induction m arbitrary: out)
  case (Cons kv m)
  obtain k v where kv: "kv = (k, v)" by (cases kv)
  let ?m = "map_of (map (\<lambda>(k, v). (trim_space k, trim_space v)) m)"
  have fresh: "?m (trim_space k) = None"
    using Cons.prems(2) kv by (force simp: map_of_eq_None_iff)
  have "map_of r = map_of (AList.update (trim_space k) (trim_space v) out) ++ ?m"
    using Cons.IH Cons.prems kv by (auto simp: Let_def split: if_splits)
  also have "\<dots> = map_of out ++ ?m(trim_space k \<mapsto> trim_space v)"
    by (rule ext) (simp add: update_conv' map_add_def fresh split: option.split)
  also have "?m(trim_space k \<mapsto> trim_space v) =
      map_of (map (\<lambda>(k, v). (trim_space k, trim_space v)) (kv # m))"
    by (simp add: kv)
  finally show ?case .
qed simp

lemma normalize_constraints_from_distinct:
  "normalize_constraints_from out m = Some r \<Longrightarrow> distinct (map fst out) \<Longrightarrow> distinct (map fst r)"
  by (induction m arbitrary: out) (auto simp: Let_def distinct_update split: if_splits)

subsection \<open>What a generated manifest says\<close>

lemma account_bytes_exact: "mf_actual (account_bytes m) = int (length (manifest_marshal (account_bytes m)))"
  using measured_bytes_exact [of m] measured_bytes_exact [of "m\<lparr>mf_compacted := True\<rparr>"]
  by (simp add: account_bytes_def Let_def measured_bytes_def)

lemma account_bytes_over_budget:
  "0 < mf_budget m \<Longrightarrow> mf_budget m < mf_actual (account_bytes m) \<Longrightarrow> mf_compacted (account_bytes m)"
  by (simp add: account_bytes_def Let_def split: if_splits)

lemma account_bytes_frame:
  "mf_session (account_bytes m) = mf_session m \<and> mf_branch (account_bytes m) = mf_branch m
   \<and> mf_fingerprint (account_bytes m) = mf_fingerprint m \<and> mf_mode (account_bytes m) = mf_mode m
   \<and> mf_refs (account_bytes m) = mf_refs m \<and> mf_items (account_bytes m) = mf_items m
   \<and> mf_constraints (account_bytes m) = mf_constraints m \<and> mf_budget (account_bytes m) = mf_budget m
   \<and> mf_version (account_bytes m) = mf_version m \<and> mf_selection (account_bytes m) = mf_selection m
   \<and> mf_task (account_bytes m) = mf_task m"
  by (simp add: account_bytes_def Let_def)

lemma generate_Inr:
  assumes "generate inp = Inr m"
  obtains m0 where "m = account_bytes m0" and "mf_budget m0 = ci_budget inp"
    and "mf_version m0 = SerializerVersionV1" and "mf_refs m0 = normalize_refs (ci_refs inp)"
    and "mf_task m0 = trim_space (ci_task inp)"
  using assms by (auto simp: generate_def Let_def split: if_splits option.splits)

text \<open>
  C9. A generated manifest accounts for itself exactly: the number of bytes it states is the number
  of bytes of its own JSON text, although the number is printed inside that text; the repeated
  marshalling of \<open>measuredBytes\<close> always reaches its fixed point within its eight rounds. Only a
  manifest within its budget, or one without a budget, can be left unmarked.
\<close>

theorem generate_accounts_exactly:
  assumes "generate inp = Inr m"
  shows "mf_actual m = int (length (manifest_marshal m))
    \<and> (0 < mf_budget m \<and> mf_budget m < mf_actual m \<longrightarrow> mf_compacted m)"
  using assms
  by (rule generate_Inr) (simp add: account_bytes_exact account_bytes_over_budget account_bytes_frame)

text \<open>
  The manifest is deterministic: it does not depend on the order in which references or selected
  items arrive.
\<close>

theorem generate_order_independent:
  assumes "mset refs = mset refs'" and "mset items = mset items'"
  shows "generate (inp\<lparr>ci_refs := refs, ci_items := items\<rparr>) =
         generate (inp\<lparr>ci_refs := refs', ci_items := items'\<rparr>)"
  using normalize_refs_perm [OF assms(1)] normalize_selected_items_perm [OF assms(2)]
  by (simp add: generate_def Let_def split: option.split)

definition sample_input :: consult_input where
  "sample_input = \<lparr>ci_session = ''s'', ci_branch = ''main'', ci_fingerprint = ''f'',
     ci_mode = ''agent_call'', ci_scope = ''main'', ci_refs = [''b'', ''a''],
     ci_constraints = [(''k'', ''v'')], ci_items = [], ci_budget = 14336, ci_compacted = False,
     ci_truncated = False, ci_task = ''t'', ci_selection = None\<rparr>"

lemma sample_trims:
  "trim_space ''s'' = ''s''" "trim_space ''main'' = ''main''" "trim_space ''f'' = ''f''"
  "trim_space ''agent_call'' = ''agent_call''" "trim_space ''k'' = ''k''"
  "trim_space ''v'' = ''v''" "trim_space ''t'' = ''t''"
  by code_simp+

lemma sample_input_ok: "\<exists>m. generate sample_input = Inr m"
  by (simp add: generate_def sample_input_def sample_trims normalize_constraints_def
      normalize_selected_items_def normalize_selection_def Let_def)

theorem generate_accounts_exactly_witness:
  "\<exists>m. generate sample_input = Inr m \<and> mf_actual m = int (length (manifest_marshal m))"
  using sample_input_ok generate_accounts_exactly by blast

theorem generate_order_independent_witness:
  "generate (sample_input\<lparr>ci_refs := [''b'', ''a''], ci_items := []\<rparr>) =
   generate (sample_input\<lparr>ci_refs := [''a'', ''b''], ci_items := []\<rparr>)"
  by (rule generate_order_independent) (simp_all add: add_mset_commute)

end
