(* ===== verification/Backend.thy ===== *)
theory Backend
  imports Eventlog Consult
begin

text \<open>
  Packages \<open>internal/backend\<close> and \<open>internal/backend/xs\<close>: the storage adapters behind the runtime.
  Both keep the event spine and a store of blobs that are written once; the in-memory backend also
  keeps consult manifests and event summaries. Each operation takes the lock for its whole body.
  Copying (\<open>cloneEvent\<close>, \<open>append([]byte(nil), ...)\<close>) is the identity on values. The manifest
  operations of the \<open>xs\<close> adapter, which store JSON text among the blobs, are in theory \<open>ConsultStore\<close>.
\<close>

subsection \<open>Errors and diagnostics\<close>

definition be_ErrBlobNotFound :: goerr where
  "be_ErrBlobNotFound = Sentinel ''backend.ErrBlobNotFound'' ''blob not found''"
definition be_ErrDuplicateBlobRef :: goerr where
  "be_ErrDuplicateBlobRef = Sentinel ''backend.ErrDuplicateBlobRef'' ''duplicate blob ref''"
definition be_ErrDuplicateEventID :: goerr where
  "be_ErrDuplicateEventID = Sentinel ''backend.ErrDuplicateEventID'' ''duplicate event id in session''"
definition be_ErrEventNotFound :: goerr where
  "be_ErrEventNotFound = Sentinel ''backend.ErrEventNotFound'' ''event not found''"
definition be_ErrInvalidEvent :: goerr where
  "be_ErrInvalidEvent = Sentinel ''backend.ErrInvalidEvent'' ''invalid event''"
definition be_ErrInvalidBranchRead :: goerr where
  "be_ErrInvalidBranchRead = Sentinel ''backend.ErrInvalidBranchRead'' ''invalid branch read''"
definition be_ErrNotFound :: goerr where
  "be_ErrNotFound = Sentinel ''backend.ErrNotFound'' ''not found''"

record diagnostic =
  dg_code :: string
  dg_message :: string
  dg_details :: string_map

record health_status =
  hs_ok :: bool
  hs_diagnostics :: "diagnostic list"

subsection \<open>Pagination\<close>

text \<open>
  \<open>int\<close> has 64 bits and wraps. A slice expression whose bounds are out of order or out of range
  panics, which is \<open>None\<close>.
\<close>

definition wrap64 :: "int \<Rightarrow> int" where
  "wrap64 i = (i + 2 ^ 63) mod 2 ^ 64 - 2 ^ 63"

definition slice :: "'a list \<Rightarrow> int \<Rightarrow> int \<Rightarrow> 'a list option" where
  "slice xs s e =
     (if 0 \<le> s \<and> s \<le> e \<and> e \<le> int (length xs)
      then Some (take (nat e - nat s) (drop (nat s) xs)) else None)"

definition paginate :: "'a list \<Rightarrow> int \<Rightarrow> int \<Rightarrow> 'a list option" where
  "paginate xs limit0 offset0 =
     (let offset = (if offset0 < 0 then 0 else offset0);
          limit = (if limit0 \<le> 0 then int (length xs) else limit0) in
      if offset > int (length xs) then Some []
      else let e0 = wrap64 (offset + limit);
               e = (if e0 > int (length xs) then int (length xs) else e0)
      in slice xs offset e)"

lemma wrap64_id: "- (2 ^ 63) \<le> i \<Longrightarrow> i < 2 ^ 63 \<Longrightarrow> wrap64 i = i"
  by (simp add: wrap64_def)

text \<open>A page within the range of \<open>int\<close>.\<close>

lemma paginate_page:
  assumes "int (length xs) < 2 ^ 62" "0 < limit" "0 \<le> offset" "limit + offset < 2 ^ 63"
  shows "paginate xs limit offset = Some (take (nat limit) (drop (nat offset) xs))"
proof -
  have w: "wrap64 (offset + limit) = offset + limit" using assms by (intro wrap64_id) auto
  show ?thesis
  proof (cases "offset + limit \<le> int (length xs)")
    case True
    with assms w show ?thesis
      by (simp add: paginate_def slice_def Let_def nat_add_distrib)
  next
    case False
    with assms w show ?thesis
      by (auto simp: paginate_def slice_def Let_def)
  qed
qed

fun pages :: "'a list \<Rightarrow> nat \<Rightarrow> nat \<Rightarrow> 'a list" where
  "pages xs limit 0 = []"
| "pages xs limit (Suc k) =
     pages xs limit k @ (case paginate xs (int limit) (int (k * limit)) of None \<Rightarrow> [] | Some p \<Rightarrow> p)"

lemma pages_take:
  assumes "int (length xs) < 2 ^ 62" "0 < limit" "int (k * limit) < 2 ^ 63"
  shows "pages xs limit k = take (k * limit) xs"
  using assms(3)
proof (induction k)
  case (Suc k)
  have "paginate xs (int limit) (int (k * limit)) = Some (take limit (drop (k * limit) xs))"
    using paginate_page [OF assms(1), of "int limit" "int (k * limit)"] assms(2) Suc.prems
    by (simp add: algebra_simps nat_mult_distrib)
  moreover have "int (k * limit) < 2 ^ 63" using Suc.prems by (simp add: algebra_simps)
  ultimately show ?case
    using Suc.IH take_add [of "k * limit" limit xs] by (simp add: add.commute)
qed simp

subsection \<open>The contract of a blob store\<close>

locale blob_store =
  fixes put :: "ctx \<Rightarrow> string \<Rightarrow> string \<Rightarrow> 's \<Rightarrow> goerr option \<times> 's"
    and fetch :: "ctx \<Rightarrow> string \<Rightarrow> 's \<Rightarrow> string result"
    and blobs :: "'s \<Rightarrow> string \<rightharpoonup> string"
  assumes put_ok: "put c r p s = (None, s') \<Longrightarrow> c = None \<and> r \<noteq> [] \<and> blobs s r = None \<and> blobs s' = (blobs s)(r \<mapsto> p)"
    and put_err: "put c r p s = (Some e, s') \<Longrightarrow> blobs s' = blobs s"
    and put_total: "r \<noteq> [] \<Longrightarrow> blobs s r = None \<Longrightarrow> fst (put None r p s) = None"
    and fetch_live: "fetch None r s = Inr p \<longleftrightarrow> blobs s r = Some p"
begin

lemma put_keeps: "blobs s r = Some p \<Longrightarrow> blobs (snd (put c r' p' s)) r = Some p"
proof -
  obtain err s' where e: "put c r' p' s = (err, s')" by fastforce
  show "blobs s r = Some p \<Longrightarrow> ?thesis"
    using put_ok [of c r' p' s s'] put_err [of c r' p' s _ s'] e by (cases err) auto
qed

text \<open>Content that was stored is what is fetched, whatever is put afterwards.\<close>

lemma fetch_stable:
  assumes "put c r p s = (None, s')"
  shows "fetch None r (fold (\<lambda>(c, r, p) s. snd (put c r p s)) ops s') = Inr p"
proof -
  have "blobs t r = Some p \<Longrightarrow> blobs (fold (\<lambda>(c, r, p) s. snd (put c r p s)) ops t) r = Some p" for t
    by (induction ops arbitrary: t) (auto simp: put_keeps)
  moreover have "blobs s' r = Some p" using put_ok [OF assms] by simp
  ultimately show ?thesis by (simp add: fetch_live)
qed

lemma put_again: "blobs s r \<noteq> None \<Longrightarrow> fst (put c r p s) \<noteq> None"
  using put_ok [of c r p s "snd (put c r p s)"] by (metis option.distinct(1) prod.collapse)

end

subsection \<open>The in-memory backend\<close>

record mem_backend =
  mb_sessions :: sessions
  mb_by_id :: by_id
  mb_blobs :: "string \<rightharpoonup> string"
  mb_diag :: "diagnostic list"
  mb_manifests :: "(string \<times> manifest) list"
  mb_events :: "string \<rightharpoonup> event_summary"

definition new_mem_backend :: mem_backend where
  "new_mem_backend = \<lparr>mb_sessions = Map.empty, mb_by_id = Map.empty, mb_blobs = Map.empty,
     mb_diag = [], mb_manifests = [], mb_events = Map.empty\<rparr>"

definition mb_append_event :: "ctx \<Rightarrow> event \<Rightarrow> mem_backend \<Rightarrow> goerr option \<times> mem_backend" where
  "mb_append_event c e s =
     (case c of Some err \<Rightarrow> (Some err, s) | None \<Rightarrow>
      case event_validate e of Some _ \<Rightarrow> (Some be_ErrInvalidEvent, s) | None \<Rightarrow>
      let bi = ensure_session (mb_by_id s) (ev_session e) in
      if lookup_id bi (ev_session e) (ev_id e) \<noteq> None
      then (Some be_ErrDuplicateEventID, s\<lparr>mb_by_id := bi\<rparr>)
      else (None, s\<lparr>mb_sessions := add_session (mb_sessions s) e, mb_by_id := add_by_id bi e\<rparr>))"

definition mb_append_blob :: "ctx \<Rightarrow> string \<Rightarrow> string \<Rightarrow> mem_backend \<Rightarrow> goerr option \<times> mem_backend" where
  "mb_append_blob c ref payload s =
     (case c of Some err \<Rightarrow> (Some err, s) | None \<Rightarrow>
      if ref = [] then (Some be_ErrBlobNotFound, s)
      else if mb_blobs s ref \<noteq> None then (Some be_ErrDuplicateBlobRef, s)
      else (None, s\<lparr>mb_blobs := (mb_blobs s)(ref \<mapsto> payload)\<rparr>))"

definition mb_get_event :: "ctx \<Rightarrow> string \<Rightarrow> string \<Rightarrow> mem_backend \<Rightarrow> event result" where
  "mb_get_event c sid eid s =
     (case c of Some err \<Rightarrow> Inl err | None \<Rightarrow>
      case mb_by_id s sid of None \<Rightarrow> Inl be_ErrEventNotFound | Some events \<Rightarrow>
      case events eid of None \<Rightarrow> Inl be_ErrEventNotFound | Some e \<Rightarrow> Inr e)"

definition mb_list_session :: "ctx \<Rightarrow> string \<Rightarrow> mem_backend \<Rightarrow> event list result" where
  "mb_list_session c sid s =
     (case c of Some err \<Rightarrow> Inl err | None \<Rightarrow> Inr (stored (mb_sessions s) sid))"

definition mb_list_branch :: "ctx \<Rightarrow> string \<Rightarrow> string \<Rightarrow> mem_backend \<Rightarrow> event list result" where
  "mb_list_branch c sid bid s =
     (case c of Some err \<Rightarrow> Inl err | None \<Rightarrow>
      if bid = [] then Inl be_ErrInvalidBranchRead
      else case mb_list_session c sid s of Inl err \<Rightarrow> Inl err
        | Inr es \<Rightarrow> Inr (filter (\<lambda>e. ev_branch e = bid) es))"

definition mb_fetch_blob :: "ctx \<Rightarrow> string \<Rightarrow> mem_backend \<Rightarrow> string result" where
  "mb_fetch_blob c ref s =
     (case c of Some err \<Rightarrow> Inl err | None \<Rightarrow>
      case mb_blobs s ref of None \<Rightarrow> Inl be_ErrBlobNotFound | Some p \<Rightarrow> Inr p)"

definition mb_health_check :: "ctx \<Rightarrow> mem_backend \<Rightarrow> health_status \<times> mem_backend" where
  "mb_health_check c s =
     (case c of
        Some err \<Rightarrow> (\<lparr>hs_ok = False, hs_diagnostics =
          [\<lparr>dg_code = ''context_canceled'', dg_message = err_msg err, dg_details = []\<rparr>]\<rparr>, s)
      | None \<Rightarrow> (\<lparr>hs_ok = True, hs_diagnostics = []\<rparr>, s\<lparr>mb_diag := []\<rparr>))"

definition mb_last_diagnostics :: "mem_backend \<Rightarrow> diagnostic list" where
  "mb_last_diagnostics s = mb_diag s"

definition mb_clear_diagnostics :: "mem_backend \<Rightarrow> mem_backend" where
  "mb_clear_diagnostics s = s\<lparr>mb_diag := []\<rparr>"

definition mb_save_manifest :: "ctx \<Rightarrow> manifest \<Rightarrow> mem_backend \<Rightarrow> goerr option \<times> mem_backend" where
  "mb_save_manifest c m s =
     (case c of Some err \<Rightarrow> (Some err, s)
      | None \<Rightarrow> (None, s\<lparr>mb_manifests := AList.update (mf_event_id m) m (mb_manifests s)\<rparr>))"

definition mb_load_manifest :: "ctx \<Rightarrow> string \<Rightarrow> mem_backend \<Rightarrow> manifest result" where
  "mb_load_manifest c eid s =
     (case c of Some err \<Rightarrow> Inl err | None \<Rightarrow>
      case map_of (mb_manifests s) eid of None \<Rightarrow> Inl be_ErrNotFound | Some m \<Rightarrow> Inr m)"

text \<open>The two nested loops that sort the identifiers, one position after the other.\<close>

fun exchange_pass :: "string \<Rightarrow> string list \<Rightarrow> string \<times> string list" where
  "exchange_pass x [] = (x, [])"
| "exchange_pass x (y # ys) =
     (if x > y then (let (m, r) = exchange_pass y ys in (m, x # r))
      else (let (m, r) = exchange_pass x ys in (m, y # r)))"

lemma exchange_pass_length: "length (snd (exchange_pass x ys)) = length ys"
  by (induction x ys rule: exchange_pass.induct) (auto simp: split_def Let_def)

function exchange_sort :: "string list \<Rightarrow> string list" where
  "exchange_sort [] = []"
| "exchange_sort (x # xs) =
     fst (exchange_pass x xs) # exchange_sort (snd (exchange_pass x xs))"
  by pat_completeness auto
termination by (relation "measure length") (auto simp: exchange_pass_length)

definition mb_sorted_manifests :: "mem_backend \<Rightarrow> manifest list" where
  "mb_sorted_manifests s =
     map (\<lambda>i. the (map_of (mb_manifests s) i)) (exchange_sort (map fst (mb_manifests s)))"

definition mb_list_manifests :: "ctx \<Rightarrow> int \<Rightarrow> int \<Rightarrow> mem_backend \<Rightarrow> manifest list result option" where
  "mb_list_manifests c limit offset s =
     (case c of Some err \<Rightarrow> Some (Inl err)
      | None \<Rightarrow> map_option Inr (paginate (mb_sorted_manifests s) limit offset))"

text \<open>What a reader of the two channels receives while the context stays live.\<close>

definition mb_stream_manifests :: "mem_backend \<Rightarrow> manifest list \<times> goerr option" where
  "mb_stream_manifests s = (map snd (mb_manifests s), None)"

definition mb_save_event :: "ctx \<Rightarrow> event_summary \<Rightarrow> mem_backend \<Rightarrow> goerr option \<times> mem_backend" where
  "mb_save_event c e s =
     (case c of Some err \<Rightarrow> (Some err, s)
      | None \<Rightarrow> (None, s\<lparr>mb_events := (mb_events s)(es_fingerprint e \<mapsto> e)\<rparr>))"

definition mb_load_event :: "ctx \<Rightarrow> string \<Rightarrow> mem_backend \<Rightarrow> event_summary result" where
  "mb_load_event c eid s =
     (case c of Some err \<Rightarrow> Inl err | None \<Rightarrow>
      case mb_events s eid of None \<Rightarrow> Inl be_ErrNotFound | Some e \<Rightarrow> Inr e)"

definition mb_ping :: "ctx \<Rightarrow> goerr option" where
  "mb_ping c = c"

subsection \<open>The xs adapter\<close>

record xs_config =
  xc_command :: string
  xc_health_args :: "string list"

record xs_adapter =
  xa_cfg :: xs_config
  xa_sessions :: sessions
  xa_by_id :: by_id
  xa_blobs :: "string \<rightharpoonup> string"
  xa_diag :: "diagnostic list"

definition new_xs_adapter :: "xs_config \<Rightarrow> xs_adapter" where
  "new_xs_adapter cfg = \<lparr>xa_cfg = cfg, xa_sessions = Map.empty, xa_by_id = Map.empty,
     xa_blobs = Map.empty, xa_diag = []\<rparr>"

definition xs_append_event :: "ctx \<Rightarrow> event \<Rightarrow> xs_adapter \<Rightarrow> goerr option \<times> xs_adapter" where
  "xs_append_event c e s =
     (case c of Some err \<Rightarrow> (Some err, s) | None \<Rightarrow>
      case event_validate e of Some _ \<Rightarrow> (Some be_ErrInvalidEvent, s) | None \<Rightarrow>
      let bi = ensure_session (xa_by_id s) (ev_session e) in
      if lookup_id bi (ev_session e) (ev_id e) \<noteq> None
      then (Some be_ErrDuplicateEventID, s\<lparr>xa_by_id := bi\<rparr>)
      else (None, s\<lparr>xa_sessions := add_session (xa_sessions s) e, xa_by_id := add_by_id bi e\<rparr>))"

definition xs_append_blob :: "ctx \<Rightarrow> string \<Rightarrow> string \<Rightarrow> xs_adapter \<Rightarrow> goerr option \<times> xs_adapter" where
  "xs_append_blob c ref payload s =
     (case c of Some err \<Rightarrow> (Some err, s) | None \<Rightarrow>
      if ref = [] then (Some be_ErrBlobNotFound, s)
      else if xa_blobs s ref \<noteq> None then (Some be_ErrDuplicateBlobRef, s)
      else (None, s\<lparr>xa_blobs := (xa_blobs s)(ref \<mapsto> payload)\<rparr>))"

definition xs_get_event :: "ctx \<Rightarrow> string \<Rightarrow> string \<Rightarrow> xs_adapter \<Rightarrow> event result" where
  "xs_get_event c sid eid s =
     (case c of Some err \<Rightarrow> Inl err | None \<Rightarrow>
      case xa_by_id s sid of None \<Rightarrow> Inl be_ErrEventNotFound | Some events \<Rightarrow>
      case events eid of None \<Rightarrow> Inl be_ErrEventNotFound | Some e \<Rightarrow> Inr e)"

definition xs_list_session :: "ctx \<Rightarrow> string \<Rightarrow> xs_adapter \<Rightarrow> event list result" where
  "xs_list_session c sid s =
     (case c of Some err \<Rightarrow> Inl err | None \<Rightarrow> Inr (stored (xa_sessions s) sid))"

definition xs_list_branch :: "ctx \<Rightarrow> string \<Rightarrow> string \<Rightarrow> xs_adapter \<Rightarrow> event list result" where
  "xs_list_branch c sid bid s =
     (case c of Some err \<Rightarrow> Inl err | None \<Rightarrow>
      if bid = [] then Inl be_ErrInvalidBranchRead
      else case xs_list_session c sid s of Inl err \<Rightarrow> Inl err
        | Inr es \<Rightarrow> Inr (filter (\<lambda>e. ev_branch e = bid) es))"

definition xs_fetch_blob :: "ctx \<Rightarrow> string \<Rightarrow> xs_adapter \<Rightarrow> string result" where
  "xs_fetch_blob c ref s =
     (case c of Some err \<Rightarrow> Inl err | None \<Rightarrow>
      case xa_blobs s ref of None \<Rightarrow> Inl be_ErrBlobNotFound | Some p \<Rightarrow> Inr p)"

text \<open>
  The health check runs an external program: \<open>look_path\<close> is \<open>exec.LookPath\<close>, \<open>run\<close> the command
  runner, which returns the output and an error.
\<close>

definition xs_health_check ::
  "(string \<Rightarrow> goerr option) \<Rightarrow> (ctx \<Rightarrow> string \<Rightarrow> string list \<Rightarrow> string \<times> goerr option)
   \<Rightarrow> ctx \<Rightarrow> xs_adapter \<Rightarrow> health_status \<times> xs_adapter" where
  "xs_health_check look_path run c s =
     (let command = trim_space (xc_command (xa_cfg s));
          finish = (\<lambda>ok d. (\<lparr>hs_ok = ok, hs_diagnostics = [d]\<rparr>, s\<lparr>xa_diag := [d]\<rparr>)) in
      if command = [] then
        finish False \<lparr>dg_code = ''bad_config'', dg_message = ''xs command is not configured'', dg_details = []\<rparr>
      else if look_path command \<noteq> None then
        finish False \<lparr>dg_code = ''xs_unavailable'', dg_message = ''xs command not found in PATH'',
          dg_details = [(''command'', command)]\<rparr>
      else
        let args = (if xc_health_args (xa_cfg s) = [] then [''health''] else xc_health_args (xa_cfg s)) in
        case run c command args of
          (out, Some err) \<Rightarrow> finish False \<lparr>dg_code = ''health_check_failed'',
            dg_message = ''xs health command failed'',
            dg_details = [(''command'', command), (''error'', err_msg err)]\<rparr>
        | (out, None) \<Rightarrow> finish True \<lparr>dg_code = ''healthy'', dg_message = ''xs adapter healthy'',
            dg_details = [(''output'', if trim_space out = [] then ''ok'' else trim_space out)]\<rparr>)"

definition xs_last_diagnostics :: "xs_adapter \<Rightarrow> diagnostic list" where
  "xs_last_diagnostics s = xa_diag s"

definition xs_clear_diagnostics :: "xs_adapter \<Rightarrow> xs_adapter" where
  "xs_clear_diagnostics s = s\<lparr>xa_diag := []\<rparr>"

definition xs_ping :: "ctx \<Rightarrow> goerr option" where
  "xs_ping c = c"

subsection \<open>Both adapters keep the contracts\<close>

definition mb_inv :: "mem_backend \<Rightarrow> bool" where
  "mb_inv s \<longleftrightarrow> store_inv (mb_sessions s) (mb_by_id s)"

definition xs_inv :: "xs_adapter \<Rightarrow> bool" where
  "xs_inv s \<longleftrightarrow> store_inv (xa_sessions s) (xa_by_id s)"

lemma mb_inv_new [simp]: "mb_inv new_mem_backend"
  by (simp add: mb_inv_def new_mem_backend_def)

lemma mb_get_alt:
  "mb_get_event None sid eid s =
     (case lookup_id (mb_by_id s) sid eid of None \<Rightarrow> Inl be_ErrEventNotFound | Some e \<Rightarrow> Inr e)"
  by (simp add: mb_get_event_def lookup_id_def split: option.split)

lemma xs_get_alt:
  "xs_get_event None sid eid s =
     (case lookup_id (xa_by_id s) sid eid of None \<Rightarrow> Inl be_ErrEventNotFound | Some e \<Rightarrow> Inr e)"
  by (simp add: xs_get_event_def lookup_id_def split: option.split)

interpretation mb: event_spine mb_append_event mb_list_session mb_get_event
  "\<lambda>s. stored (mb_sessions s)" mb_inv be_ErrEventNotFound
proof unfold_locales
  fix s c e s'
  assume "mb_inv s" and "mb_append_event c e s = (None, s')"
  then show "mb_inv s' \<and> c = None \<and> event_validate e = None
      \<and> ev_id e \<notin> ev_id ` set (stored (mb_sessions s) (ev_session e))
      \<and> stored (mb_sessions s') =
        (stored (mb_sessions s))(ev_session e := stored (mb_sessions s) (ev_session e) @ [e])"
    by (auto simp: mb_append_event_def mb_inv_def Let_def store_inv_add store_inv_lookup_None
        stored_add_session split: option.splits if_splits)
next
  fix s e
  assume "mb_inv s" and "event_validate e = None"
    and "ev_id e \<notin> ev_id ` set (stored (mb_sessions s) (ev_session e))"
  then show "fst (mb_append_event None e s) = None"
    by (simp add: mb_append_event_def mb_inv_def Let_def store_inv_lookup_None)
qed (auto simp: mb_append_event_def mb_inv_def Let_def mb_list_session_def mb_get_alt store_inv_def
      split: option.splits if_splits)

interpretation xs: event_spine xs_append_event xs_list_session xs_get_event
  "\<lambda>s. stored (xa_sessions s)" xs_inv be_ErrEventNotFound
proof unfold_locales
  fix s c e s'
  assume "xs_inv s" and "xs_append_event c e s = (None, s')"
  then show "xs_inv s' \<and> c = None \<and> event_validate e = None
      \<and> ev_id e \<notin> ev_id ` set (stored (xa_sessions s) (ev_session e))
      \<and> stored (xa_sessions s') =
        (stored (xa_sessions s))(ev_session e := stored (xa_sessions s) (ev_session e) @ [e])"
    by (auto simp: xs_append_event_def xs_inv_def Let_def store_inv_add store_inv_lookup_None
        stored_add_session split: option.splits if_splits)
next
  fix s e
  assume "xs_inv s" and "event_validate e = None"
    and "ev_id e \<notin> ev_id ` set (stored (xa_sessions s) (ev_session e))"
  then show "fst (xs_append_event None e s) = None"
    by (simp add: xs_append_event_def xs_inv_def Let_def store_inv_lookup_None)
qed (auto simp: xs_append_event_def xs_inv_def Let_def xs_list_session_def xs_get_alt store_inv_def
      split: option.splits if_splits)

interpretation mbb: blob_store mb_append_blob mb_fetch_blob mb_blobs
  by unfold_locales
     (auto simp: mb_append_blob_def mb_fetch_blob_def split: option.splits if_splits)

interpretation xsb: blob_store xs_append_blob xs_fetch_blob xa_blobs
  by unfold_locales
     (auto simp: xs_append_blob_def xs_fetch_blob_def split: option.splits if_splits)

text \<open>
  C8. The spine of the in-memory backend is append-only. An appended event can be read back by its
  identifier and stands in its session's listing right after the events that were there, whatever
  is appended later; the identifier can never be appended to that session again.
\<close>

theorem mb_spine_append_only:
  assumes "mb_inv s" and "mb_append_event c e s = (None, s1)"
    and "s2 = fold (\<lambda>(c, e) s. snd (mb_append_event c e s)) later s1"
  shows "mb_get_event None (ev_session e) (ev_id e) s2 = Inr e
    \<and> (\<exists>es zs. mb_list_session None (ev_session e) s = Inr es
         \<and> mb_list_session None (ev_session e) s2 = Inr (es @ e # zs))
    \<and> (\<forall>c' e'. ev_session e' = ev_session e \<and> ev_id e' = ev_id e \<longrightarrow>
         fst (mb_append_event c' e' s2) \<noteq> None)"
proof -
  have inv1: "mb_inv s1" and sp: "stored (mb_sessions s1) (ev_session e) = stored (mb_sessions s) (ev_session e) @ [e]"
    using mb.append_ok [OF assms(1,2)] by auto
  have inv2: "mb_inv s2" unfolding assms(3) by (rule mb.appends_inv [OF inv1])
  have get: "mb_get_event None (ev_session e) (ev_id e) s2 = Inr e"
    unfolding assms(3) by (rule mb.appends_get_stable [OF inv1 mb.get_appended [OF assms(1,2)]])
  obtain zs where zs: "stored (mb_sessions s2) (ev_session e) = stored (mb_sessions s) (ev_session e) @ e # zs"
    using mb.appends_prefix [OF inv1, of "ev_session e" later] sp
    unfolding assms(3) by (auto simp: prefix_def)
  moreover have "fst (mb_append_event c' e' s2) \<noteq> None" if "ev_session e' = ev_session e" "ev_id e' = ev_id e" for c' e'
    using mb.append_duplicate [OF inv2, of e' c'] zs that by auto
  ultimately show ?thesis
    using get mb.listing_live [OF assms(1)] mb.listing_live [OF inv2] by auto
qed

fun run_appends :: "(ctx \<Rightarrow> event \<Rightarrow> 's \<Rightarrow> goerr option \<times> 's) \<Rightarrow> (ctx \<times> event) list \<Rightarrow> 's
    \<Rightarrow> goerr option list \<times> 's" where
  "run_appends app [] s = ([], s)"
| "run_appends app ((c, e) # ces) s =
     (let (err, s1) = app c e s; (errs, s2) = run_appends app ces s1 in (err # errs, s2))"

definition adapters_agree :: "mem_backend \<Rightarrow> xs_adapter \<Rightarrow> bool" where
  "adapters_agree m x \<longleftrightarrow> mb_sessions m = xa_sessions x \<and> mb_by_id m = xa_by_id x \<and> mb_blobs m = xa_blobs x"

lemma adapters_agree_append:
  "adapters_agree m x \<Longrightarrow> fst (mb_append_event c e m) = fst (xs_append_event c e x)
     \<and> adapters_agree (snd (mb_append_event c e m)) (snd (xs_append_event c e x))"
  by (auto simp: adapters_agree_def mb_append_event_def xs_append_event_def Let_def split: option.split)

lemma adapters_agree_run:
  "adapters_agree m x \<Longrightarrow> fst (run_appends mb_append_event ces m) = fst (run_appends xs_append_event ces x)
     \<and> adapters_agree (snd (run_appends mb_append_event ces m)) (snd (run_appends xs_append_event ces x))"
proof (induction ces arbitrary: m x)
  case (Cons ce ces)
  obtain c e where ce: "ce = (c, e)" by (cases ce)
  show ?case
    using Cons.IH [of "snd (mb_append_event c e m)" "snd (xs_append_event c e x)"]
      adapters_agree_append [OF Cons.prems, of c e]
    by (simp add: ce split_def Let_def)
qed simp

lemma adapters_agree_new: "adapters_agree new_mem_backend (new_xs_adapter cfg)"
  by (simp add: adapters_agree_def new_mem_backend_def new_xs_adapter_def)

lemma adapters_agree_reads:
  assumes "adapters_agree m x"
  shows "mb_list_session c sid m = xs_list_session c sid x"
    "mb_list_branch c sid bid m = xs_list_branch c sid bid x"
    "mb_get_event c sid eid m = xs_get_event c sid eid x"
    "mb_fetch_blob c ref m = xs_fetch_blob c ref x"
  using assms
  by (simp_all add: adapters_agree_def mb_list_session_def xs_list_session_def
      mb_list_branch_def xs_list_branch_def mb_get_event_def xs_get_event_def
      mb_fetch_blob_def xs_fetch_blob_def split: option.split)

text \<open>
  The two adapters implement one interface: fed the same sequence of appends from empty stores,
  valid or not, duplicated or not, they return the same errors and list the same events.
\<close>

theorem adapters_simulate:
  "let (errs, m) = run_appends mb_append_event ces new_mem_backend;
       (errs', x) = run_appends xs_append_event ces (new_xs_adapter cfg)
   in errs = errs' \<and> mb_list_session c sid m = xs_list_session c sid x
      \<and> mb_list_branch c sid bid m = xs_list_branch c sid bid x
      \<and> mb_get_event c sid eid m = xs_get_event c sid eid x
      \<and> mb_fetch_blob c ref m = xs_fetch_blob c ref x"
  using adapters_agree_run [OF adapters_agree_new, of ces cfg] by (simp add: split_def adapters_agree_reads)

text \<open>
  Blobs are written once in both adapters: after a successful put, every later sequence of puts,
  successful or not, leaves exactly that payload to be fetched, and a second put under the reference
  fails.
\<close>

theorem blobs_written_once:
  assumes "mb_append_blob c ref p s = (None, s')" and "xs_append_blob c' ref' p' x = (None, x')"
  shows "mb_fetch_blob None ref (fold (\<lambda>(c, r, p) s. snd (mb_append_blob c r p s)) later s') = Inr p
    \<and> xs_fetch_blob None ref' (fold (\<lambda>(c, r, p) s. snd (xs_append_blob c r p s)) later x') = Inr p'
    \<and> fst (mb_append_blob c2 ref q s') \<noteq> None \<and> fst (xs_append_blob c2 ref' q x') \<noteq> None"
  using mbb.fetch_stable [OF assms(1)] xsb.fetch_stable [OF assms(2)]
    mbb.put_again [of s' ref] xsb.put_again [of x' ref'] mbb.put_ok [OF assms(1)] xsb.put_ok [OF assms(2)]
  by simp

subsection \<open>Listing manifests\<close>

lemma exchange_pass_min:
  "mset (snd (exchange_pass x ys)) + {#fst (exchange_pass x ys)#} = mset (x # ys)
   \<and> (\<forall>y \<in> set (snd (exchange_pass x ys)). fst (exchange_pass x ys) \<le> y)
   \<and> fst (exchange_pass x ys) \<le> x"
  by (induction x ys rule: exchange_pass.induct) (auto simp: split_def Let_def)

lemma exchange_sort_eq: "exchange_sort xs = sort xs"
proof -
  have "mset (exchange_sort xs) = mset xs \<and> sorted (exchange_sort xs)"
  proof (induction xs rule: exchange_sort.induct)
    case (2 x xs)
    let ?p = "exchange_pass x xs"
    have "set (exchange_sort (snd ?p)) = set (snd ?p)"
      using 2 by (metis mset_eq_setD)
    with 2 exchange_pass_min [of x xs] show ?case by auto
  qed simp
  then show ?thesis by (metis properties_for_sort)
qed

lemma mset_mb_sorted_manifests:
  assumes "distinct (map fst (mb_manifests s))"
  shows "mset (mb_sorted_manifests s) = mset (map snd (mb_manifests s))"
proof -
  have "mset (mb_sorted_manifests s) =
      image_mset (\<lambda>i. the (map_of (mb_manifests s) i)) (mset (map fst (mb_manifests s)))"
    by (simp add: mb_sorted_manifests_def exchange_sort_eq)
  also have "\<dots> = mset (map snd (mb_manifests s))"
    using assms by (auto simp flip: mset_map intro!: arg_cong [where f = mset] map_cong)
  finally show ?thesis .
qed

text \<open>
  Pagination of consult manifests is complete and stable: reading consecutive pages of any size
  yields every stored manifest exactly once, in the order of the event identifiers, as long as the
  offsets stay within the range of \<open>int\<close>.
\<close>

theorem mb_manifest_pages_complete:
  assumes "0 < limit" and "length (mb_manifests s) \<le> k * limit" and "int (k * limit) < 2 ^ 62"
    and "distinct (map fst (mb_manifests s))"
  shows "concat (map (\<lambda>i. case mb_list_manifests None (int limit) (int (i * limit)) s of
            Some (Inr p) \<Rightarrow> p | _ \<Rightarrow> []) [0..<k]) =
        map (\<lambda>i. the (map_of (mb_manifests s) i)) (sort (map fst (mb_manifests s)))
    \<and> mset (mb_sorted_manifests s) = mset (map snd (mb_manifests s))"
proof -
  let ?xs = "mb_sorted_manifests s"
  have len: "length ?xs = length (mb_manifests s)"
    by (simp add: mb_sorted_manifests_def exchange_sort_eq)
  have step: "(case mb_list_manifests None (int limit) (int (i * limit)) s of Some (Inr p) \<Rightarrow> p | _ \<Rightarrow> []) =
      (case paginate ?xs (int limit) (int (i * limit)) of None \<Rightarrow> [] | Some p \<Rightarrow> p)" for i
    by (simp add: mb_list_manifests_def split: option.split)
  have "concat (map (\<lambda>i. case paginate ?xs (int limit) (int (i * limit)) of None \<Rightarrow> [] | Some p \<Rightarrow> p) [0..<j])
      = pages ?xs limit j" for j
    by (induction j) simp_all
  then have "concat (map (\<lambda>i. case mb_list_manifests None (int limit) (int (i * limit)) s of
      Some (Inr p) \<Rightarrow> p | _ \<Rightarrow> []) [0..<k]) = pages ?xs limit k"
    by (simp only: step)
  also have "\<dots> = ?xs"
  proof -
    have "int (length ?xs) < 2 ^ 62"
      using assms(2,3) unfolding len by (meson of_nat_le_iff order_le_less_trans)
    moreover have "int (k * limit) < 2 ^ 63" using assms(3) by (rule order_less_trans) simp
    ultimately show ?thesis using assms(1,2) len by (simp add: pages_take)
  qed
  finally have 1: "concat (map (\<lambda>i. case mb_list_manifests None (int limit) (int (i * limit)) s of
      Some (Inr p) \<Rightarrow> p | _ \<Rightarrow> []) [0..<k]) = ?xs" .
  with mset_mb_sorted_manifests [OF assms(4)] show ?thesis
    by (simp add: mb_sorted_manifests_def exchange_sort_eq)
qed

text \<open>
  Beyond the range of \<open>int\<close> listing panics: with a non-empty store, an offset of 1 and the
  largest limit, \<open>start + limit\<close> wraps to a negative number, which is not clamped, and the slice
  expression is out of range.
\<close>

theorem paginate_overflow_panics:
  assumes "xs \<noteq> []"
  shows "paginate xs (2 ^ 63 - 1) 1 = None"
proof -
  have "1 \<le> length xs" using assms by (cases xs) auto
  with assms show ?thesis
    by (simp add: paginate_def slice_def wrap64_def Let_def)
qed

subsection \<open>Instances\<close>

definition sample_event :: "string \<Rightarrow> event" where
  "sample_event i = \<lparr>ev_id = i, ev_session = ''s'', ev_ts = 1, ev_kind = KindTurnUser,
     ev_branch = ''main'', ev_parent = [], ev_refs = [], ev_meta = [], ev_blob = []\<rparr>"

theorem mb_spine_append_only_witness:
  "\<exists>s1. mb_append_event None (sample_event ''a'') new_mem_backend = (None, s1)
     \<and> mb_get_event None ''s'' ''a'' (snd (mb_append_event None (sample_event ''b'') s1)) = Inr (sample_event ''a'')"
proof -
  obtain s1 where s1: "mb_append_event None (sample_event ''a'') new_mem_backend = (None, s1)"
    by (simp add: mb_append_event_def sample_event_def event_validate_def KindTurnUser_def Let_def
        lookup_id_def new_mem_backend_def ensure_session_def)
  from mb_spine_append_only [OF mb_inv_new s1, of _ "[(None, sample_event ''b'')]"] s1
  show ?thesis by (auto simp: sample_event_def)
qed

theorem blobs_written_once_witness:
  "\<exists>s'. mb_append_blob None ''r'' ''x'' new_mem_backend = (None, s')
     \<and> mb_fetch_blob None ''r'' (snd (mb_append_blob None ''r'' ''y'' s')) = Inr ''x''"
proof -
  let ?s = "new_mem_backend\<lparr>mb_blobs := [''r'' \<mapsto> ''x'']\<rparr>"
  let ?x = "new_xs_adapter \<lparr>xc_command = [], xc_health_args = []\<rparr>"
  have "mb_append_blob None ''r'' ''x'' new_mem_backend = (None, ?s)"
    by (simp add: mb_append_blob_def new_mem_backend_def)
  moreover have "xs_append_blob None ''r'' ''x'' ?x = (None, ?x\<lparr>xa_blobs := [''r'' \<mapsto> ''x'']\<rparr>)"
    by (simp add: xs_append_blob_def new_xs_adapter_def)
  ultimately show ?thesis
    using blobs_written_once [of None "''r''" "''x''" new_mem_backend ?s, of _ _ _ _ _ "[(None, ''r'', ''y'')]"]
    by auto
qed

theorem mb_manifest_pages_complete_witness:
  "concat (map (\<lambda>i. case mb_list_manifests None (int 1) (int (i * 1)) new_mem_backend of
      Some (Inr p) \<Rightarrow> p | _ \<Rightarrow> []) [0..<2]) = []"
  using mb_manifest_pages_complete [of 1 new_mem_backend 2] by (simp add: new_mem_backend_def)

theorem paginate_overflow_panics_witness: "paginate [1 :: nat] (2 ^ 63 - 1) 1 = None"
  by (rule paginate_overflow_panics) simp

end
