(* ===== verification/ModelCall.thy ===== *)
theory ModelCall
  imports Backend
begin

text \<open>
  Package \<open>internal/model\<close>: requests and responses of the model adapter, the validation of a
  response, and \<open>ExecuteAndPersist\<close>, which calls the adapter and writes the outcome to the spine.

  The adapter is a function on a state of its own; \<open>encoding/json\<close> is a record of decoders. The
  record \<open>backend_ops\<close> is the part of the interface \<open>backend.Backend\<close> that model and runtime call,
  and the locale \<open>session_store\<close> is what they rely on.
\<close>

subsection \<open>The backend interface\<close>

record 'b backend_ops =
  bk_append :: "ctx \<Rightarrow> event \<Rightarrow> 'b \<Rightarrow> goerr option \<times> 'b"
  bk_append_blob :: "ctx \<Rightarrow> string \<Rightarrow> string \<Rightarrow> 'b \<Rightarrow> goerr option \<times> 'b"
  bk_list :: "ctx \<Rightarrow> string \<Rightarrow> 'b \<Rightarrow> event list result"
  bk_list_branch :: "ctx \<Rightarrow> string \<Rightarrow> string \<Rightarrow> 'b \<Rightarrow> event list result"

locale session_store =
  event_spine "bk_append ops" "bk_list ops" get spine inv not_found +
  blob_store "bk_append_blob ops" fetch blobs
  for ops :: "'b backend_ops" and get spine inv not_found fetch blobs +
  assumes blob_frame: "inv s \<Longrightarrow> inv (snd (bk_append_blob ops c r p s)) \<and> spine (snd (bk_append_blob ops c r p s)) = spine s"
    and append_blobs: "blobs (snd (bk_append ops c e s)) = blobs s"
    and list_branch: "bid \<noteq> [] \<Longrightarrow> inv s \<Longrightarrow> bk_list_branch ops None sid bid s = Inr (filter (\<lambda>e. ev_branch e = bid) (spine s sid))"

definition mem_ops :: "mem_backend backend_ops" where
  "mem_ops = \<lparr>bk_append = mb_append_event, bk_append_blob = mb_append_blob,
     bk_list = mb_list_session, bk_list_branch = mb_list_branch\<rparr>"

definition xs_ops :: "xs_adapter backend_ops" where
  "xs_ops = \<lparr>bk_append = xs_append_event, bk_append_blob = xs_append_blob,
     bk_list = xs_list_session, bk_list_branch = xs_list_branch\<rparr>"

lemma mem_ops_sel [simp]:
  "bk_append mem_ops = mb_append_event" "bk_append_blob mem_ops = mb_append_blob"
  "bk_list mem_ops = mb_list_session" "bk_list_branch mem_ops = mb_list_branch"
  by (simp_all add: mem_ops_def)

lemma xs_ops_sel [simp]:
  "bk_append xs_ops = xs_append_event" "bk_append_blob xs_ops = xs_append_blob"
  "bk_list xs_ops = xs_list_session" "bk_list_branch xs_ops = xs_list_branch"
  by (simp_all add: xs_ops_def)

subsection \<open>Types\<close>

definition ErrInvalidModelRequest :: goerr where
  "ErrInvalidModelRequest = Sentinel ''model.ErrInvalidRequest'' ''invalid model request''"
definition ErrMalformedModelResponse :: goerr where
  "ErrMalformedModelResponse = Sentinel ''model.ErrMalformedModelResponse'' ''malformed model response''"
definition ErrBackendPersistFailed :: goerr where
  "ErrBackendPersistFailed = Sentinel ''model.ErrBackendPersistFailed'' ''backend persist failed''"

record model_request =
  mq_session :: string
  mq_branch :: string
  mq_packet :: string

record tool_call =
  tc_tool :: string
  tc_call_id :: string
  tc_args :: gomap

record model_response =
  rs_decision :: string
  rs_answer :: string
  rs_tool_calls :: "tool_call list"
  rs_summary_delta :: string
  rs_branch_ops :: "string list"
  rs_unresolved :: "string list"
  rs_raw :: gomap

record call_result =
  cr_response :: model_response
  cr_raw :: string

text \<open>
  \<open>json.Valid\<close>, the keys of \<open>json.Unmarshal\<close> into a map of raw messages (\<open>None\<close> where that
  fails), and \<open>json.Unmarshal\<close> into a \<open>Response\<close>.
\<close>

record model_decoders =
  md_valid :: "string \<Rightarrow> bool"
  md_keys :: "string \<Rightarrow> string list option"
  md_response :: "string \<Rightarrow> model_response option"

definition model_request_validate :: "model_decoders \<Rightarrow> model_request \<Rightarrow> goerr option" where
  "model_request_validate d r =
     (if mq_session r = [] \<or> mq_branch r = [] then Some ErrInvalidModelRequest
      else if mq_packet r = [] \<or> \<not> md_valid d (mq_packet r) then Some ErrInvalidModelRequest
      else None)"

definition model_response_validate :: "model_response \<Rightarrow> goerr option" where
  "model_response_validate r =
     (if rs_decision r = [] then Some ErrMalformedModelResponse
      else if rs_decision r \<notin> {''answer'', ''tool_calls'', ''continue''} then Some ErrMalformedModelResponse
      else if rs_decision r = ''answer'' \<and> rs_answer r = [] then Some ErrMalformedModelResponse
      else if rs_decision r = ''tool_calls'' \<and> rs_tool_calls r = [] then Some ErrMalformedModelResponse
      else if list_ex (\<lambda>t. tc_tool t = []) (rs_tool_calls r) then Some ErrMalformedModelResponse
      else None)"

definition parse_and_validate_response :: "model_decoders \<Rightarrow> string \<Rightarrow> model_response result" where
  "parse_and_validate_response d raw =
     (case md_keys d raw of
        None \<Rightarrow> Inl (wrap_err ErrMalformedModelResponse ''invalid json'')
      | Some ks \<Rightarrow>
      if ''decision'' \<notin> set ks then Inl (wrap_err ErrMalformedModelResponse ''missing decision'')
      else case md_response d raw of
        None \<Rightarrow> Inl (wrap_err ErrMalformedModelResponse ''schema decode failed'')
      | Some resp \<Rightarrow>
      case model_response_validate resp of Some err \<Rightarrow> Inl err | None \<Rightarrow> Inr resp)"

lemma parse_error_malformed:
  "parse_and_validate_response d raw = Inl err \<Longrightarrow> errors_is err ErrMalformedModelResponse"
  by (auto simp: parse_and_validate_response_def model_response_validate_def
      split: option.splits if_splits)

lemma parse_ok_validated:
  "parse_and_validate_response d raw = Inr resp \<Longrightarrow> model_response_validate resp = None"
  by (auto simp: parse_and_validate_response_def split: option.splits if_splits)

subsection \<open>Calling the adapter\<close>

type_synonym 'm adapter = "ctx \<Rightarrow> model_request \<Rightarrow> 'm \<Rightarrow> string result \<times> 'm"

definition model_execute ::
  "model_decoders \<Rightarrow> 'm adapter \<Rightarrow> ctx \<Rightarrow> model_request \<Rightarrow> 'm \<Rightarrow> call_result result \<times> 'm" where
  "model_execute d call c req m =
     (case model_request_validate d req of Some err \<Rightarrow> (Inl err, m) | None \<Rightarrow>
      case call c req m of
        (Inl err, m1) \<Rightarrow> (Inl err, m1)
      | (Inr raw, m1) \<Rightarrow>
        (case parse_and_validate_response d raw of
           Inl err \<Rightarrow> (Inl err, m1)
         | Inr resp \<Rightarrow> (Inr \<lparr>cr_response = resp, cr_raw = raw\<rparr>, m1)))"

definition invalid_event :: "string \<Rightarrow> string \<Rightarrow> gotime \<Rightarrow> model_request \<Rightarrow> goerr \<Rightarrow> event" where
  "invalid_event nm eid ts req err =
     \<lparr>ev_id = eid @ ''.invalid'', ev_session = mq_session req, ev_ts = ts,
      ev_kind = KindResponseInvalid, ev_branch = mq_branch req, ev_parent = [], ev_refs = [],
      ev_meta = [(''adapter'', VStr nm), (''error'', VStr (err_msg err))], ev_blob = []\<rparr>"

definition model_blob_ref :: "model_request \<Rightarrow> string \<Rightarrow> string" where
  "model_blob_ref req eid = ''blob://model/'' @ mq_session req @ ''/'' @ eid"

definition received_event :: "string \<Rightarrow> string \<Rightarrow> gotime \<Rightarrow> model_request \<Rightarrow> call_result \<Rightarrow> event" where
  "received_event nm eid ts req res =
     \<lparr>ev_id = eid @ ''.received'', ev_session = mq_session req, ev_ts = ts,
      ev_kind = KindResponseReceived, ev_branch = mq_branch req, ev_parent = [], ev_refs = [],
      ev_meta = [(''adapter'', VStr nm), (''decision'', VStr (rs_decision (cr_response res))),
                 (''unresolved_refs'', VInt (int (length (rs_unresolved (cr_response res)))))],
      ev_blob = model_blob_ref req eid\<rparr>"

text \<open>
  \<open>ExecuteAndPersist\<close>: \<open>nm\<close> is the adapter's name. The result, the adapter's state and the backend
  after the call.
\<close>

definition execute_and_persist ::
  "'b backend_ops \<Rightarrow> model_decoders \<Rightarrow> string \<Rightarrow> 'm adapter \<Rightarrow> ctx \<Rightarrow> model_request \<Rightarrow> string \<Rightarrow> gotime
   \<Rightarrow> 'm \<Rightarrow> 'b \<Rightarrow> call_result result \<times> 'm \<times> 'b" where
  "execute_and_persist ops d nm call c req eid ts m b =
     (case model_execute d call c req m of
        (Inl err, m1) \<Rightarrow>
          if errors_is err ErrMalformedModelResponse then
            (case bk_append ops c (invalid_event nm eid ts req err) b of
               (Some aerr, b1) \<Rightarrow> (Inl (wrap_err ErrBackendPersistFailed (err_msg aerr)), m1, b1)
             | (None, b1) \<Rightarrow> (Inl err, m1, b1))
          else (Inl err, m1, b)
      | (Inr res, m1) \<Rightarrow>
        (case bk_append_blob ops c (model_blob_ref req eid) (cr_raw res) b of
           (Some berr, b1) \<Rightarrow> (Inl (wrap_err ErrBackendPersistFailed (err_msg berr)), m1, b1)
         | (None, b1) \<Rightarrow>
           (case bk_append ops c (received_event nm eid ts req res) b1 of
              (Some aerr, b2) \<Rightarrow> (Inl (wrap_err ErrBackendPersistFailed (err_msg aerr)), m1, b2)
            | (None, b2) \<Rightarrow> (Inr res, m1, b2))))"

subsection \<open>What a call leaves on the spine\<close>

context session_store begin

text \<open>An append that succeeds adds its valid event, one that fails nothing.\<close>

lemma append_outcome:
  assumes "inv b" and "bk_append ops c e b = (ae, b1)"
  shows "inv b1" and "spine b1 = (spine b)(ev_session e := spine b (ev_session e) @ (if ae = None then [e] else []))"
    and "ae = None \<Longrightarrow> event_validate e = None \<and> c = None"
  using append_ok [OF assms(1), of c e b1] append_err [OF assms(1), of c e _ b1] assms(2)
  by (cases ae; simp)+

text \<open>A reply is persisted: blob first, then the event that refers to it.\<close>

lemma persist_reply_spine:
  assumes "inv b" and "bk_append_blob ops c (model_blob_ref req eid) (cr_raw res) b = (None, b1)"
    and "bk_append ops c (received_event nm eid ts req res) b1 = (ae, b2)"
  shows "inv b2"
    and "spine b2 = (spine b)(mq_session req := spine b (mq_session req)
           @ (if ae = None then [received_event nm eid ts req res] else []))"
    and "ae = None \<Longrightarrow> event_validate (received_event nm eid ts req res) = None \<and> c = None
           \<and> fetch None (model_blob_ref req eid) b2 = Inr (cr_raw res)"
proof -
  have b1: "inv b1" "spine b1 = spine b" using blob_frame [OF assms(1)] assms(2) by (metis snd_conv)+
  note app = append_outcome [OF b1(1) assms(3)]
  show "inv b2" by (rule app(1))
  show "spine b2 = (spine b)(mq_session req := spine b (mq_session req)
      @ (if ae = None then [received_event nm eid ts req res] else []))"
    using app(2) b1(2) by (simp add: received_event_def)
  have "blobs b2 (model_blob_ref req eid) = Some (cr_raw res)"
    using put_ok [of c "model_blob_ref req eid" "cr_raw res" b b1] assms(2)
      append_blobs [of c "received_event nm eid ts req res" b1] assms(3) by simp
  then show "ae = None \<Longrightarrow> event_validate (received_event nm eid ts req res) = None \<and> c = None
      \<and> fetch None (model_blob_ref req eid) b2 = Inr (cr_raw res)"
    using app(3) by (simp add: fetch_live)
qed

lemma persist_spine:
  assumes "inv b" and "execute_and_persist ops d nm call c req eid ts m b = (r, m', b')"
  shows "inv b' \<and> (\<exists>es. spine b' = (spine b)(mq_session req := spine b (mq_session req) @ es)
    \<and> (\<forall>e \<in> set es. ev_id e \<in> {eid @ ''.invalid'', eid @ ''.received''} \<and> event_validate e = None
         \<and> ev_kind e \<in> {KindResponseInvalid, KindResponseReceived})
    \<and> (\<forall>res. r = Inr res \<longrightarrow> es = [received_event nm eid ts req res]
         \<and> fetch None (model_blob_ref req eid) b' = Inr (cr_raw res)
         \<and> model_response_validate (cr_response res) = None \<and> c = None)
    \<and> length es \<le> 1)"
proof -
  obtain x m1 where ex: "model_execute d call c req m = (x, m1)" by fastforce
  show ?thesis
  proof (cases x)
    case (Inl err)
    let ?e = "invalid_event nm eid ts req err"
    obtain ae b1 where ap: "bk_append ops c ?e b = (ae, b1)" by fastforce
    have e: "ev_session ?e = mq_session req" "ev_id ?e = eid @ ''.invalid''" "ev_kind ?e = KindResponseInvalid"
      by (simp_all add: invalid_event_def)
    show ?thesis
    proof (cases "errors_is err ErrMalformedModelResponse")
      case True
      then have "b' = b1" "\<forall>res. r \<noteq> Inr res"
        using assms(2) ex Inl ap by (auto simp: execute_and_persist_def split: option.splits)
      with append_outcome [OF assms(1) ap] e show ?thesis
        by (intro conjI exI [of _ "if ae = None then [?e] else []"]) auto
    next
      case False
      then show ?thesis using assms ex Inl
        by (intro conjI exI [of _ "[]"]) (auto simp: execute_and_persist_def)
    qed
  next
    case (Inr res)
    have valid: "model_response_validate (cr_response res) = None"
      using ex Inr parse_ok_validated
      by (auto simp: model_execute_def split: option.splits prod.splits sum.splits)
    let ?e = "received_event nm eid ts req res"
    obtain be b1 where bl: "bk_append_blob ops c (model_blob_ref req eid) (cr_raw res) b = (be, b1)" by fastforce
    obtain ae b2 where ap: "bk_append ops c ?e b1 = (ae, b2)" by fastforce
    have e: "ev_id ?e = eid @ ''.received''" "ev_kind ?e = KindResponseReceived"
      by (simp_all add: received_event_def)
    show ?thesis
    proof (cases be)
      case (Some berr)
      have "inv b1" "spine b1 = spine b" using blob_frame [OF assms(1)] bl by (metis snd_conv)+
      then show ?thesis using assms(2) ex Inr bl Some
        by (intro conjI exI [of _ "[]"]) (auto simp: execute_and_persist_def)
    next
      case None
      then have "b' = b2" "r = (case ae of None \<Rightarrow> Inr res | Some aerr \<Rightarrow> Inl (wrap_err ErrBackendPersistFailed (err_msg aerr)))"
        using assms(2) ex Inr bl ap by (auto simp: execute_and_persist_def split: option.splits)
      with persist_reply_spine [OF assms(1) bl [unfolded None] ap] valid e show ?thesis
        by (intro conjI exI [of _ "if ae = None then [?e] else []"]) (auto split: option.splits)
    qed
  qed
qed

end

lemma mb_blob_frame:
  "mb_inv s \<Longrightarrow> mb_inv (snd (mb_append_blob c r p s))
     \<and> (\<lambda>sid. stored (mb_sessions (snd (mb_append_blob c r p s))) sid) = (\<lambda>sid. stored (mb_sessions s) sid)"
  by (simp add: mb_append_blob_def mb_inv_def split: option.split)

lemma mb_append_blobs: "mb_blobs (snd (mb_append_event c e s)) = mb_blobs s"
  by (simp add: mb_append_event_def Let_def split: option.split)

lemma xs_blob_frame:
  "xs_inv s \<Longrightarrow> xs_inv (snd (xs_append_blob c r p s))
     \<and> (\<lambda>sid. stored (xa_sessions (snd (xs_append_blob c r p s))) sid) = (\<lambda>sid. stored (xa_sessions s) sid)"
  by (simp add: xs_append_blob_def xs_inv_def split: option.split)

lemma xs_append_blobs: "xa_blobs (snd (xs_append_event c e s)) = xa_blobs s"
  by (simp add: xs_append_event_def Let_def split: option.split)

interpretation ms: session_store mem_ops mb_get_event "\<lambda>s. stored (mb_sessions s)" mb_inv
  be_ErrEventNotFound mb_fetch_blob mb_blobs
proof (rule session_store.intro)
  show "event_spine (bk_append mem_ops) (bk_list mem_ops) mb_get_event
      (\<lambda>s. stored (mb_sessions s)) mb_inv be_ErrEventNotFound"
    unfolding mem_ops_sel by (rule mb.event_spine_axioms)
  show "blob_store (bk_append_blob mem_ops) mb_fetch_blob mb_blobs"
    unfolding mem_ops_sel by (rule mbb.blob_store_axioms)
  show "session_store_axioms mem_ops (\<lambda>s. stored (mb_sessions s)) mb_inv mb_blobs"
    by (rule session_store_axioms.intro)
       (simp_all add: mb_blob_frame mb_append_blobs mb_list_branch_def mb_list_session_def)
qed

interpretation xss: session_store xs_ops xs_get_event "\<lambda>s. stored (xa_sessions s)" xs_inv
  be_ErrEventNotFound xs_fetch_blob xa_blobs
proof (rule session_store.intro)
  show "event_spine (bk_append xs_ops) (bk_list xs_ops) xs_get_event
      (\<lambda>s. stored (xa_sessions s)) xs_inv be_ErrEventNotFound"
    unfolding xs_ops_sel by (rule xs.event_spine_axioms)
  show "blob_store (bk_append_blob xs_ops) xs_fetch_blob xa_blobs"
    unfolding xs_ops_sel by (rule xsb.blob_store_axioms)
  show "session_store_axioms xs_ops (\<lambda>s. stored (xa_sessions s)) xs_inv xa_blobs"
    by (rule session_store_axioms.intro)
       (simp_all add: xs_blob_frame xs_append_blobs xs_list_branch_def xs_list_session_def)
qed

text \<open>
  C7. A model call writes exactly what happened: a successful call appends one \<open>response.received\<close>
  event whose blob is the raw reply, byte for byte, and returns a response that passed validation;
  a failed call appends at most one event; nothing else on any session's spine changes.
\<close>

theorem model_call_persists_reply:
  assumes "mb_inv b" and "execute_and_persist mem_ops d nm call c req eid ts m b = (r, m', b')"
  shows "(\<forall>res. r = Inr res \<longrightarrow>
       model_response_validate (cr_response res) = None
     \<and> mb_list_session None (mq_session req) b' =
         Inr (stored (mb_sessions b) (mq_session req) @ [received_event nm eid ts req res])
     \<and> mb_fetch_blob None (model_blob_ref req eid) b' = Inr (cr_raw res))
   \<and> (\<exists>es. length es \<le> 1 \<and> mb_list_session None (mq_session req) b' =
         Inr (stored (mb_sessions b) (mq_session req) @ es))
   \<and> (sid \<noteq> mq_session req \<longrightarrow> stored (mb_sessions b') sid = stored (mb_sessions b) sid)"
  using ms.persist_spine [OF assms] by (auto simp: mb_list_session_def)

definition answer_response :: "string \<Rightarrow> model_response" where
  "answer_response a = \<lparr>rs_decision = ''answer'', rs_answer = a, rs_tool_calls = [],
     rs_summary_delta = [], rs_branch_ops = [], rs_unresolved = [], rs_raw = []\<rparr>"

text \<open>Decoders and an adapter for instances: every reply is an answer with the reply as its text.\<close>

definition echo_decoders :: model_decoders where
  "echo_decoders = \<lparr>md_valid = \<lambda>s. True, md_keys = \<lambda>s. Some [''decision''],
     md_response = \<lambda>s. Some (answer_response s)\<rparr>"

definition echo_adapter :: "nat adapter" where
  "echo_adapter c req n = (Inr ''hi'', Suc n)"

lemma echo_call:
  "execute_and_persist mem_ops echo_decoders ''mock'' echo_adapter None
     \<lparr>mq_session = ''s'', mq_branch = ''main'', mq_packet = ''{}''\<rparr> ''s.000001.response'' 1 0 new_mem_backend =
   (Inr \<lparr>cr_response = answer_response ''hi'', cr_raw = ''hi''\<rparr>, 1,
    snd (snd (execute_and_persist mem_ops echo_decoders ''mock'' echo_adapter None
     \<lparr>mq_session = ''s'', mq_branch = ''main'', mq_packet = ''{}''\<rparr> ''s.000001.response'' 1 0 new_mem_backend)))"
  by (simp add: execute_and_persist_def model_execute_def echo_decoders_def echo_adapter_def
      model_request_validate_def parse_and_validate_response_def model_response_validate_def
      answer_response_def mb_append_blob_def new_mem_backend_def model_blob_ref_def
      mb_append_event_def received_event_def event_validate_def KindResponseReceived_def Let_def
      lookup_id_def ensure_session_def)

theorem model_call_persists_reply_witness:
  "mb_fetch_blob None ''blob://model/s/s.000001.response''
     (snd (snd (execute_and_persist mem_ops echo_decoders ''mock'' echo_adapter None
       \<lparr>mq_session = ''s'', mq_branch = ''main'', mq_packet = ''{}''\<rparr> ''s.000001.response'' 1 0
       new_mem_backend))) = Inr ''hi''"
  using model_call_persists_reply [OF mb_inv_new echo_call] by (simp add: model_blob_ref_def)

end
