(* ===== verification/Tools.thy ===== *)
theory Tools
  imports Eventlog
begin

text \<open>
  Package \<open>internal/tools\<close>: tool requests and responses, the capped output buffer, the runner that
  turns whatever a subprocess does into a valid response, and the three tool events.

  Outside the model: the subprocess (a function from the command and its input to what it wrote and
  how it ended) and \<open>encoding/json\<close> on dynamic values (a record of decoders and an encoder).
\<close>

subsection \<open>Types\<close>

definition tools_ErrInvalidRequest :: goerr where
  "tools_ErrInvalidRequest = Sentinel ''tools.ErrInvalidRequest'' ''invalid tool request''"
definition tools_ErrInvalidResponse :: goerr where
  "tools_ErrInvalidResponse = Sentinel ''tools.ErrInvalidResponse'' ''invalid tool response schema''"

definition ErrorTypeTimeout :: string where "ErrorTypeTimeout = ''timeout''"
definition ErrorTypeExec :: string where "ErrorTypeExec = ''exec''"
definition ErrorTypeSchema :: string where "ErrorTypeSchema = ''schema''"
definition ErrorTypeTool :: string where "ErrorTypeTool = ''tool''"

lemmas error_types = ErrorTypeTimeout_def ErrorTypeExec_def ErrorTypeSchema_def ErrorTypeTool_def

record tool_request =
  tq_tool :: string
  tq_call_id :: string
  tq_args :: gomap
  tq_timeout :: int

definition tool_request_validate :: "tool_request \<Rightarrow> goerr option" where
  "tool_request_validate r =
     (if tq_tool r = [] \<or> tq_call_id r = [] then Some tools_ErrInvalidRequest
      else if tq_timeout r < 0 then Some tools_ErrInvalidRequest else None)"

record artifact =
  ar_name :: string
  ar_blob :: string

record normalized_error =
  ne_type :: string
  ne_message :: string

definition known_error_type :: "string \<Rightarrow> bool" where
  "known_error_type t \<longleftrightarrow> t = ErrorTypeTimeout \<or> t = ErrorTypeExec \<or> t = ErrorTypeSchema \<or> t = ErrorTypeTool"

definition normalized_error_validate :: "normalized_error \<Rightarrow> goerr option" where
  "normalized_error_validate e =
     (if \<not> known_error_type (ne_type e) then Some tools_ErrInvalidResponse
      else if ne_message e = [] then Some tools_ErrInvalidResponse else None)"

record tool_response =
  tr_ok :: bool
  tr_call_id :: string
  tr_result :: gomap
  tr_summary :: string
  tr_artifacts :: "artifact list"
  tr_error :: "normalized_error option"

definition empty_tool_response :: tool_response where
  "empty_tool_response = \<lparr>tr_ok = False, tr_call_id = [], tr_result = [], tr_summary = [],
     tr_artifacts = [], tr_error = None\<rparr>"

definition validate_against_request :: "tool_response \<Rightarrow> tool_request \<Rightarrow> goerr option" where
  "validate_against_request r req =
     (if tq_call_id req = [] then Some tools_ErrInvalidRequest
      else if tr_call_id r \<noteq> tq_call_id req
        then Some (wrap_err tools_ErrInvalidResponse ''call_id mismatch'')
      else if tr_ok r then
        (if tr_error r \<noteq> None
         then Some (wrap_err tools_ErrInvalidResponse ''success response must not include error'')
         else None)
      else case tr_error r of
        None \<Rightarrow> Some (wrap_err tools_ErrInvalidResponse ''failure response must include error'')
      | Some e \<Rightarrow> normalized_error_validate e)"

subsection \<open>The capped buffer\<close>

record capped_buffer =
  cb_max :: int
  cb_buf :: string
  cb_truncated :: bool

definition new_capped_buffer :: "int \<Rightarrow> capped_buffer" where
  "new_capped_buffer m = \<lparr>cb_max = (if m < 0 then 0 else m), cb_buf = [], cb_truncated = False\<rparr>"

definition cb_write :: "string \<Rightarrow> capped_buffer \<Rightarrow> int \<times> capped_buffer" where
  "cb_write p b =
     (if p = [] then (0, b)
      else let remaining = cb_max b - int (length (cb_buf b)) in
      if remaining \<le> 0 then (int (length p), b\<lparr>cb_truncated := True\<rparr>)
      else if int (length p) > remaining
        then (int (length p), b\<lparr>cb_buf := cb_buf b @ take (nat remaining) p, cb_truncated := True\<rparr>)
      else (int (length p), b\<lparr>cb_buf := cb_buf b @ p\<rparr>))"

definition cb_write_all :: "string list \<Rightarrow> capped_buffer \<Rightarrow> capped_buffer" where
  "cb_write_all ps b = fold (\<lambda>p b. snd (cb_write p b)) ps b"

lemma cb_write_state:
  assumes "cb_buf b = take (nat (cb_max b)) s" "0 \<le> cb_max b"
    and "cb_truncated b \<longleftrightarrow> cb_max b < int (length s)"
  shows "cb_buf (snd (cb_write p b)) = take (nat (cb_max b)) (s @ p)
    \<and> (cb_truncated (snd (cb_write p b)) \<longleftrightarrow> cb_max b < int (length (s @ p)))
    \<and> cb_max (snd (cb_write p b)) = cb_max b \<and> fst (cb_write p b) = int (length p)"
  using assms by (auto simp: cb_write_def Let_def nat_diff_distrib')

text \<open>
  The buffer keeps exactly the first \<open>max\<close> bytes of all that is written, reports every write as
  complete (so the subprocess never sees a short write), and is marked truncated exactly when more
  than \<open>max\<close> bytes were written in total.
\<close>

theorem capped_buffer_keeps_prefix:
  "let b = cb_write_all ps (new_capped_buffer m); cap = max 0 m
   in cb_buf b = take (nat cap) (concat ps)
      \<and> (cb_truncated b \<longleftrightarrow> cap < int (length (concat ps)))
      \<and> fst (cb_write p b) = int (length p)"
proof -
  have "cb_buf (cb_write_all ps b) = take (nat (cb_max b)) (s @ concat ps)
      \<and> (cb_truncated (cb_write_all ps b) \<longleftrightarrow> cb_max b < int (length (s @ concat ps)))
      \<and> cb_max (cb_write_all ps b) = cb_max b"
    if "cb_buf b = take (nat (cb_max b)) s" "0 \<le> cb_max b" "cb_truncated b \<longleftrightarrow> cb_max b < int (length s)"
    for s b
    using that
  proof (induction ps arbitrary: b s)
    case (Cons p ps)
    show ?case
      using cb_write_state [OF Cons.prems, of p] Cons.IH [of "snd (cb_write p b)" "s @ p"] Cons.prems(2)
      by (simp add: cb_write_all_def)
  qed (simp add: cb_write_all_def)
  from this [of "new_capped_buffer m" "[]"]
  show ?thesis
    by (simp add: new_capped_buffer_def Let_def max_def cb_write_def)
qed

subsection \<open>Failures\<close>

definition failure_from_error :: "string \<Rightarrow> string \<Rightarrow> string \<Rightarrow> tool_response" where
  "failure_from_error call_id typ msg =
     empty_tool_response
       \<lparr>tr_ok := False, tr_call_id := (if call_id = [] then ''unknown'' else call_id),
        tr_error := Some \<lparr>ne_type = (if known_error_type typ then typ else ErrorTypeTool),
                         ne_message = (if msg = [] then ''tool execution failed'' else msg)\<rparr>\<rparr>"

subsection \<open>Decoding a response\<close>

text \<open>
  The calls of \<open>json.Unmarshal\<close>: into a map of raw messages, a boolean, a string, an object, a list
  of artifacts and an error.
\<close>

record tool_decoders =
  td_top :: "string \<Rightarrow> (string \<times> string) list result"
  td_bool :: "string \<Rightarrow> bool option"
  td_string :: "string \<Rightarrow> string option"
  td_object :: "string \<Rightarrow> gomap option"
  td_artifacts :: "string \<Rightarrow> artifact list option"
  td_error :: "string \<Rightarrow> normalized_error option"

definition invalid_response :: "string \<Rightarrow> 'a result" where
  "invalid_response msg = Inl (wrap_err tools_ErrInvalidResponse msg)"

definition decode_success :: "tool_decoders \<Rightarrow> (string \<times> string) list \<Rightarrow> tool_response \<Rightarrow> tool_response result" where
  "decode_success d top_fields resp =
     (case map_of top_fields ''result'' of None \<Rightarrow> invalid_response ''success response missing result'' | Some res \<Rightarrow>
      case map_of top_fields ''summary'' of None \<Rightarrow> invalid_response ''success response missing summary'' | Some sm \<Rightarrow>
      case map_of top_fields ''artifacts'' of None \<Rightarrow> invalid_response ''success response missing artifacts'' | Some arts \<Rightarrow>
      case td_object d res of None \<Rightarrow> invalid_response ''invalid result'' | Some r \<Rightarrow>
      case td_string d sm of None \<Rightarrow> invalid_response ''invalid summary'' | Some s \<Rightarrow>
      case td_artifacts d arts of None \<Rightarrow> invalid_response ''invalid artifacts'' | Some a \<Rightarrow>
      Inr (resp\<lparr>tr_result := r, tr_summary := s, tr_artifacts := a\<rparr>))"

definition decode_failure :: "tool_decoders \<Rightarrow> (string \<times> string) list \<Rightarrow> tool_response \<Rightarrow> tool_response result" where
  "decode_failure d top_fields resp =
     (case map_of top_fields ''error'' of None \<Rightarrow> invalid_response ''failure response missing error'' | Some f \<Rightarrow>
      case td_error d f of None \<Rightarrow> invalid_response ''invalid error field'' | Some te \<Rightarrow>
      let te' = (if normalized_error_validate te \<noteq> None
                 then te\<lparr>ne_type := ErrorTypeTool,
                        ne_message := (if ne_message te = [] then ''tool reported failure'' else ne_message te)\<rparr>
                 else te)
      in Inr (resp\<lparr>tr_error := Some te'\<rparr>))"

definition decode_and_normalize :: "tool_decoders \<Rightarrow> string \<Rightarrow> tool_request \<Rightarrow> tool_response result" where
  "decode_and_normalize d raw req =
     (case td_top d raw of
        Inl err \<Rightarrow> invalid_response (''invalid json: '' @ err_msg err)
      | Inr top_fields \<Rightarrow>
      case map_of top_fields ''ok'' of None \<Rightarrow> invalid_response ''missing ok'' | Some okf \<Rightarrow>
      case td_bool d okf of None \<Rightarrow> invalid_response ''ok must be boolean'' | Some isok \<Rightarrow>
      case map_of top_fields ''call_id'' of None \<Rightarrow> invalid_response ''missing call_id'' | Some cf \<Rightarrow>
      case td_string d cf of None \<Rightarrow> invalid_response ''invalid call_id'' | Some cid \<Rightarrow>
      if cid = [] then invalid_response ''invalid call_id''
      else
        let resp = empty_tool_response\<lparr>tr_ok := isok, tr_call_id := cid\<rparr> in
        case (if isok then decode_success d top_fields resp else decode_failure d top_fields resp) of
          Inl err \<Rightarrow> Inl err
        | Inr resp' \<Rightarrow>
          (case validate_against_request resp' req of Some err \<Rightarrow> Inl err | None \<Rightarrow> Inr resp'))"

subsection \<open>Running a tool\<close>

record command_spec =
  cs_path :: string
  cs_args :: "string list"

record proc_result =
  pc_stdout :: "string list"
  pc_stderr :: "string list"
  pc_error :: "goerr option"
  pc_deadline :: bool

record tool_runner =
  rn_commands :: "string \<rightharpoonup> command_spec"
  rn_max_stdout :: int
  rn_max_stderr :: int

definition new_runner_with_limits :: "(string \<rightharpoonup> command_spec) \<Rightarrow> int \<Rightarrow> int \<Rightarrow> tool_runner" where
  "new_runner_with_limits cmds mo me =
     \<lparr>rn_commands = cmds, rn_max_stdout = (if mo \<le> 0 then 1024 * 1024 else mo),
      rn_max_stderr = (if me \<le> 0 then 256 * 1024 else me)\<rparr>"

definition exec_failure_message :: "int \<Rightarrow> capped_buffer \<Rightarrow> string" where
  "exec_failure_message limit er =
     (let msg0 = ''tool subprocess failed''; trimmed = trim_space (cb_buf er);
          msg1 = (if trimmed \<noteq> [] then msg0 @ '': '' @ trimmed else msg0)
      in if cb_truncated er
         then msg1 @ '' [stderr truncated at '' @ int_str limit @ '' bytes]'' else msg1)"

text \<open>What \<open>Run\<close> makes of the end of the subprocess.\<close>

definition finish_run :: "tool_decoders \<Rightarrow> tool_runner \<Rightarrow> tool_request \<Rightarrow> proc_result \<Rightarrow> tool_response" where
  "finish_run d r req res =
     (let out = cb_write_all (pc_stdout res) (new_capped_buffer (rn_max_stdout r));
          er = cb_write_all (pc_stderr res) (new_capped_buffer (rn_max_stderr r)) in
      if pc_deadline res
      then failure_from_error (tq_call_id req) ErrorTypeTimeout ''tool execution timed out''
      else if cb_truncated out
      then failure_from_error (tq_call_id req) ErrorTypeSchema
             (''tool stdout exceeded '' @ int_str (rn_max_stdout r) @ '' bytes limit'')
      else if pc_error res \<noteq> None
      then failure_from_error (tq_call_id req) ErrorTypeExec (exec_failure_message (rn_max_stderr r) er)
      else case decode_and_normalize d (cb_buf out) req of
        Inl err \<Rightarrow> failure_from_error (tq_call_id req) ErrorTypeSchema (err_msg err)
      | Inr resp \<Rightarrow> resp)"

text \<open>\<open>proc\<close> runs a command with a time limit in milliseconds on the given standard input.\<close>

definition run_tool ::
  "tool_decoders \<Rightarrow> (tool_request \<Rightarrow> string result) \<Rightarrow> (command_spec \<Rightarrow> int \<Rightarrow> string \<Rightarrow> proc_result)
   \<Rightarrow> tool_runner \<Rightarrow> tool_request \<Rightarrow> tool_response" where
  "run_tool d encode proc r req =
     (case tool_request_validate req of
        Some err \<Rightarrow> failure_from_error (tq_call_id req) ErrorTypeSchema (err_msg err)
      | None \<Rightarrow>
      case rn_commands r (tq_tool req) of
        None \<Rightarrow> failure_from_error (tq_call_id req) ErrorTypeExec ''tool executable not configured''
      | Some spec \<Rightarrow>
      if cs_path spec = []
      then failure_from_error (tq_call_id req) ErrorTypeExec ''tool executable not configured''
      else
        let timeout = (if tq_timeout req \<le> 0 then 15000 else tq_timeout req) in
        case encode req of
          Inl err \<Rightarrow> failure_from_error (tq_call_id req) ErrorTypeSchema
                       (''request json encode failed: '' @ err_msg err)
        | Inr input \<Rightarrow> finish_run d r req (proc spec timeout input))"

text \<open>What a failure carries: the identifier of the call, or \<open>unknown\<close> for want of one.\<close>

definition failure_for :: "tool_request \<Rightarrow> tool_response \<Rightarrow> bool" where
  "failure_for req resp \<longleftrightarrow> \<not> tr_ok resp
     \<and> tr_call_id resp = (if tq_call_id req = [] then ''unknown'' else tq_call_id req)
     \<and> (\<exists>e. tr_error resp = Some e \<and> known_error_type (ne_type e) \<and> ne_message e \<noteq> [])"

lemma failure_from_error_for: "failure_for req (failure_from_error (tq_call_id req) t m)"
  by (simp add: failure_for_def failure_from_error_def empty_tool_response_def known_error_type_def)

lemma failure_for_valid:
  "failure_for req resp \<Longrightarrow> validate_against_request resp req = None \<longleftrightarrow> tq_call_id req \<noteq> []"
  by (auto simp: failure_for_def validate_against_request_def normalized_error_validate_def)

lemma valid_response:
  assumes "validate_against_request resp req = None"
  shows "tr_call_id resp = tq_call_id req \<and> (\<not> tr_ok resp \<longrightarrow> failure_for req resp)"
  using assms by (auto simp: validate_against_request_def normalized_error_validate_def failure_for_def
      split: if_splits option.splits)

lemma decode_and_normalize_valid:
  "decode_and_normalize d raw req = Inr resp \<Longrightarrow> validate_against_request resp req = None"
  by (auto simp: decode_and_normalize_def invalid_response_def Let_def
      split: sum.splits option.splits if_splits)

lemma run_tool_cases:
  "failure_for req (run_tool d encode proc r req)
   \<or> tq_call_id req \<noteq> [] \<and> validate_against_request (run_tool d encode proc r req) req = None"
proof -
  have finish: "failure_for req (finish_run d r req res) \<or> validate_against_request (finish_run d r req res) req = None" for res
    by (simp add: finish_run_def Let_def failure_from_error_for decode_and_normalize_valid split: sum.split)
  show ?thesis
  proof (cases "tool_request_validate req")
    case None
    then have "tq_call_id req \<noteq> []" by (auto simp: tool_request_validate_def split: if_splits)
    then show ?thesis
      using finish by (simp add: run_tool_def Let_def failure_from_error_for None split: sum.split option.split)
  qed (simp add: run_tool_def failure_from_error_for)
qed

text \<open>
  C27. Whatever the subprocess does, prints or fails to print, and however the JSON decoder answers,
  running a tool returns either a success with the identifier of the call and no error, or a failure with
  that identifier and an error of a known type with a message. The response is valid for its
  request exactly if the request has a call identifier; without one it is a failure of the call
  \<open>unknown\<close>, which its own validation refuses.
\<close>

theorem run_tool_response_valid:
  "let resp = run_tool d encode proc r req in
     (validate_against_request resp req = None \<longleftrightarrow> tq_call_id req \<noteq> [])
     \<and> tr_call_id resp = (if tq_call_id req = [] then ''unknown'' else tq_call_id req)
     \<and> (if tr_ok resp then tq_call_id req \<noteq> [] \<and> tr_error resp = None
        else \<exists>e. tr_error resp = Some e \<and> known_error_type (ne_type e) \<and> ne_message e \<noteq> [])"
proof -
  have ok: "tr_error resp = None" if "validate_against_request resp req = None" "tr_ok resp" for resp
    using that by (auto simp: validate_against_request_def split: if_splits option.splits)
  let ?resp = "run_tool d encode proc r req"
  show ?thesis
    using run_tool_cases [of req d encode proc r]
  proof (elim disjE conjE)
    assume "failure_for req ?resp"
    with failure_for_valid [OF this] show ?thesis by (simp add: failure_for_def Let_def)
  next
    assume "tq_call_id req \<noteq> []" and valid: "validate_against_request ?resp req = None"
    with valid_response [OF valid] ok [OF valid] show ?thesis by (auto simp: failure_for_def Let_def)
  qed
qed

subsection \<open>Tool events\<close>

text \<open>\<open>encode\<close> is \<open>json.Marshal\<close> of a map of dynamic values.\<close>

definition must_json :: "(gomap \<Rightarrow> string result) \<Rightarrow> gomap \<Rightarrow> string" where
  "must_json encode m = (case encode m of Inl _ \<Rightarrow> ''{}'' | Inr s \<Rightarrow> s)"

definition tool_request_event ::
  "(gomap \<Rightarrow> string result) \<Rightarrow> string \<Rightarrow> string \<Rightarrow> string \<Rightarrow> gotime \<Rightarrow> tool_request \<Rightarrow> event" where
  "tool_request_event encode eid sid bid ts req =
     \<lparr>ev_id = eid, ev_session = sid, ev_ts = ts, ev_kind = KindToolRequest, ev_branch = bid,
      ev_parent = [], ev_refs = [],
      ev_meta = [(''tool'', VStr (tq_tool req)), (''call_id'', VStr (tq_call_id req)),
                 (''timeout_ms'', VInt (tq_timeout req)),
                 (''args_json'', VStr (must_json encode (tq_args req)))],
      ev_blob = []\<rparr>"

definition artifact_refs :: "artifact list \<Rightarrow> string list" where
  "artifact_refs arts = filter (\<lambda>r. r \<noteq> []) (map ar_blob arts)"

definition tool_result_event ::
  "(gomap \<Rightarrow> string result) \<Rightarrow> string \<Rightarrow> string \<Rightarrow> string \<Rightarrow> gotime \<Rightarrow> tool_request \<Rightarrow> tool_response \<Rightarrow> event" where
  "tool_result_event encode eid sid bid ts req resp =
     (let refs = artifact_refs (tr_artifacts resp) in
      \<lparr>ev_id = eid, ev_session = sid, ev_ts = ts, ev_kind = KindToolResult, ev_branch = bid,
       ev_parent = [], ev_refs = sort_strings refs,
       ev_meta = [(''tool'', VStr (tq_tool req)), (''call_id'', VStr (tq_call_id req)),
                  (''summary'', VStr (tr_summary resp)),
                  (''result_json'', VStr (must_json encode (tr_result resp))),
                  (''artifact_count'', VStr (int_str (int (length (tr_artifacts resp)))))],
       ev_blob = (if refs = [] then [] else hd refs)\<rparr>)"

definition tool_failure_event ::
  "string \<Rightarrow> string \<Rightarrow> string \<Rightarrow> gotime \<Rightarrow> tool_request \<Rightarrow> tool_response \<Rightarrow> event" where
  "tool_failure_event eid sid bid ts req resp =
     \<lparr>ev_id = eid, ev_session = sid, ev_ts = ts, ev_kind = KindToolFailure, ev_branch = bid,
      ev_parent = [], ev_refs = [],
      ev_meta = [(''tool'', VStr (tq_tool req)), (''call_id'', VStr (tq_call_id req)),
                 (''error_type'', VStr (case tr_error resp of None \<Rightarrow> ErrorTypeTool | Some e \<Rightarrow> ne_type e)),
                 (''error_message'', VStr (case tr_error resp of None \<Rightarrow> ''tool failure''
                                            | Some e \<Rightarrow> ne_message e))],
      ev_blob = []\<rparr>"

end
