(* ===== verification/SelfAudit.thy ===== *)
theory SelfAudit
  imports Eventlog
begin

text \<open>
  Package \<open>internal/audit\<close>: the tracker that accumulates tokens and cost of one consult and decides
  after every turn whether enough is known. The ratio of two token counts is kept exact; the code's
  \<open>float64\<close> quotient compares with 0.75 in the same way as long as the limit is below \<open>2^52\<close>.
\<close>

subsection \<open>Types\<close>

datatype audit_decision = DecisionComplete | DecisionContinue

fun audit_decision_str :: "audit_decision \<Rightarrow> string" where
  "audit_decision_str DecisionComplete = ''complete''"
| "audit_decision_str DecisionContinue = ''continue''"

definition DefaultAuditPrompt :: string where
  "DefaultAuditPrompt =
     ''Do I have enough information to answer the user query, or should I continue?''"

record audit_config =
  ac_max_tokens :: int
  ac_auto :: bool
  ac_prompt :: string

definition audit_default_config :: audit_config where
  "audit_default_config = \<lparr>ac_max_tokens = 16000, ac_auto = False, ac_prompt = DefaultAuditPrompt\<rparr>"

record audit_result =
  au_decision :: audit_decision
  au_reason :: string
  au_tokens :: int
  au_limit :: int
  au_cost :: rat
  au_cost_limit :: rat
  au_ts :: gotime
  au_turn :: int

record audit_tracker =
  at_cfg :: audit_config
  at_consult :: string
  at_session :: string
  at_branch :: string
  at_tokens :: int
  at_cost :: rat
  at_turns :: int
  at_decisions :: "audit_result list"

definition new_audit_tracker :: "audit_config \<Rightarrow> string \<Rightarrow> string \<Rightarrow> string \<Rightarrow> audit_tracker" where
  "new_audit_tracker cfg consult sid bid =
     (let c1 = (if ac_max_tokens cfg \<le> 0
                then cfg\<lparr>ac_max_tokens := ac_max_tokens audit_default_config\<rparr> else cfg);
          c2 = (if ac_prompt c1 = [] then c1\<lparr>ac_prompt := DefaultAuditPrompt\<rparr> else c1)
      in \<lparr>at_cfg = c2, at_consult = consult, at_session = sid, at_branch = bid, at_tokens = 0,
          at_cost = 0, at_turns = 0, at_decisions = []\<rparr>)"

subsection \<open>Operations\<close>

definition run_self_audit :: "audit_tracker \<Rightarrow> audit_decision" where
  "run_self_audit t =
     (let ratio = (of_int (at_tokens t) :: rat) / of_int (ac_max_tokens (at_cfg t)) in
      if ratio \<ge> 3 / 4 then DecisionComplete
      else if at_turns t \<ge> 3 then DecisionComplete
      else DecisionContinue)"

definition audit_event :: "audit_tracker \<Rightarrow> audit_result \<Rightarrow> event" where
  "audit_event t r =
     \<lparr>ev_id = ''audit.'' @ at_session t @ ''.'' @ int_str (at_turns t) @ ''.'' @ int_str (unix_nano (au_ts r)),
      ev_session = at_session t, ev_ts = au_ts r, ev_kind = KindAuditDecision,
      ev_branch = at_branch t, ev_parent = [], ev_refs = [],
      ev_meta = [(''decision'', VStr (audit_decision_str (au_decision r))),
                 (''reason'', VStr (au_reason r)), (''tokens_used'', VInt (au_tokens r)),
                 (''tokens_limit'', VInt (au_limit r)), (''cost_cents'', VFloat (au_cost r)),
                 (''turn_number'', VInt (au_turn r)),
                 (''audit_prompt_used'', VBool (trim_space (ac_prompt (at_cfg t)) \<noteq> [])),
                 (''auto_terminate'', VBool (ac_auto (at_cfg t)))],
      ev_blob = []\<rparr>"

text \<open>
  \<open>RecordTurn\<close> at time \<open>ts\<close>. \<open>app\<close> is the callback (\<open>None\<close> for nil); its error is dropped.
\<close>

definition audit_record_turn ::
  "gotime \<Rightarrow> int \<Rightarrow> rat \<Rightarrow> (event \<Rightarrow> 'b \<Rightarrow> goerr option \<times> 'b) option \<Rightarrow> audit_tracker \<Rightarrow> 'b
   \<Rightarrow> audit_result \<times> audit_tracker \<times> 'b" where
  "audit_record_turn ts tokens cost app t b =
     (let t1 = t\<lparr>at_turns := at_turns t + 1, at_tokens := at_tokens t + tokens, at_cost := at_cost t + cost\<rparr>;
          limit = ac_max_tokens (at_cfg t1);
          r0 = \<lparr>au_decision = DecisionContinue, au_reason = [], au_tokens = at_tokens t1, au_limit = limit,
                au_cost = at_cost t1, au_cost_limit = 0, au_ts = ts, au_turn = at_turns t1\<rparr>;
          r = (if limit > 0 \<and> at_tokens t1 \<ge> limit then
                 r0\<lparr>au_decision := DecisionComplete,
                    au_reason := ''token budget exhausted ('' @ int_str (at_tokens t1) @ ''/'' @ int_str limit @ '')''\<rparr>
               else
                 let d = run_self_audit t1 in
                 r0\<lparr>au_decision := d,
                    au_reason := (if d = DecisionComplete
                                  then ''self-audit determined enough information''
                                  else ''self-audit indicates more turns needed'')\<rparr>);
          t2 = t1\<lparr>at_decisions := at_decisions t1 @ [r]\<rparr>;
          b' = (case app of None \<Rightarrow> b | Some f \<Rightarrow> snd (f (audit_event t2 r) b))
      in (r, t2, b'))"

definition audit_should_terminate :: "audit_tracker \<Rightarrow> bool" where
  "audit_should_terminate t =
     (if at_decisions t = [] then False
      else if \<not> ac_auto (at_cfg t) then False
      else au_decision (last (at_decisions t)) = DecisionComplete)"

record consult_stats =
  cst_tokens :: int
  cst_limit :: int
  cst_cost :: rat
  cst_turns :: int
  cst_decisions :: int

definition audit_stats :: "audit_tracker \<Rightarrow> consult_stats" where
  "audit_stats t = \<lparr>cst_tokens = at_tokens t, cst_limit = ac_max_tokens (at_cfg t), cst_cost = at_cost t,
     cst_turns = at_turns t, cst_decisions = int (length (at_decisions t))\<rparr>"

definition audit_history :: "audit_tracker \<Rightarrow> audit_result list" where
  "audit_history t = at_decisions t"

subsection \<open>Properties\<close>

text \<open>A consult: one turn after the other, each with its time and its tokens.\<close>

fun audit_turns :: "(gotime \<times> int) list \<Rightarrow> audit_tracker \<Rightarrow> audit_tracker" where
  "audit_turns [] t = t"
| "audit_turns ((ts, n) # xs) t = audit_turns xs (fst (snd (audit_record_turn ts n 0 None t ())))"

lemma audit_turns_snoc:
  "audit_turns (xs @ [(ts, n)]) t = fst (snd (audit_record_turn ts n 0 None (audit_turns xs t) ()))"
  by (induction xs t rule: audit_turns.induct) simp_all

lemma audit_record_turn_fields:
  "at_cfg (fst (snd (audit_record_turn ts n c app t b))) = at_cfg t"
  "at_turns (fst (snd (audit_record_turn ts n c app t b))) = at_turns t + 1"
  "at_tokens (fst (snd (audit_record_turn ts n c app t b))) = at_tokens t + n"
  "at_decisions (fst (snd (audit_record_turn ts n c app t b))) =
     at_decisions t @ [fst (audit_record_turn ts n c app t b)]"
  by (simp_all add: audit_record_turn_def Let_def)

lemma three_quarters: "0 < l \<Longrightarrow> (3 / 4 :: rat) \<le> of_int k / of_int l \<longleftrightarrow> 3 * l \<le> 4 * k"
proof -
  assume "0 < l"
  then have "(3 / 4 :: rat) \<le> of_int k / of_int l \<longleftrightarrow> (of_int (3 * l) :: rat) \<le> of_int (4 * k)"
    by (simp add: field_simps)
  then show ?thesis by (simp only: of_int_le_iff)
qed

lemma run_self_audit_iff:
  "0 < ac_max_tokens (at_cfg t) \<Longrightarrow> run_self_audit t = DecisionComplete \<longleftrightarrow>
     3 * ac_max_tokens (at_cfg t) \<le> 4 * at_tokens t \<or> 3 \<le> at_turns t"
  unfolding run_self_audit_def Let_def by (simp only: three_quarters) simp

lemma audit_decision_complete_iff:
  assumes "0 < ac_max_tokens (at_cfg t)" and "0 \<le> at_tokens t + n"
  shows "au_decision (fst (audit_record_turn ts n c app t b)) = DecisionComplete \<longleftrightarrow>
    3 \<le> at_turns t + 1 \<or> 3 * ac_max_tokens (at_cfg t) \<le> 4 * (at_tokens t + n)"
  using assms by (auto simp: audit_record_turn_def run_self_audit_iff Let_def)

lemma audit_turns_state:
  "at_cfg (audit_turns xs t) = at_cfg t
   \<and> at_turns (audit_turns xs t) = at_turns t + int (length xs)
   \<and> at_tokens (audit_turns xs t) = at_tokens t + sum_list (map snd xs)
   \<and> length (at_decisions (audit_turns xs t)) = length (at_decisions t) + length xs"
proof (induction xs arbitrary: t)
  case (Cons x xs)
  obtain ts n where x: "x = (ts, n)" by (cases x)
  have "at_decisions (fst (snd (audit_record_turn ts n 0 None t ()))) =
      at_decisions t @ [fst (audit_record_turn ts n 0 None t ())]"
    by (rule audit_record_turn_fields(4))
  with Cons.IH [of "fst (snd (audit_record_turn ts n 0 None t ()))"]
  show ?case by (simp add: x audit_record_turn_fields)
qed simp

text \<open>
  The self-audit has a definite verdict: after the turns of a consult, with token counts that are
  not negative, it says \<open>complete\<close> exactly from the third turn on or once three quarters of the token
  limit are used; so a verdict of \<open>complete\<close> is never taken back, a consult is over after three
  turns at the latest, and early termination happens only where the configuration asks for it.
\<close>

theorem audit_verdict:
  assumes "xs \<noteq> []" and "\<forall>x \<in> set xs. 0 \<le> snd x"
  shows "let t = audit_turns xs (new_audit_tracker cfg consult sid bid);
             limit = (if ac_max_tokens cfg \<le> 0 then 16000 else ac_max_tokens cfg)
         in (au_decision (last (at_decisions t)) = DecisionComplete \<longleftrightarrow>
               3 \<le> length xs \<or> 3 * limit \<le> 4 * sum_list (map snd xs))
            \<and> audit_should_terminate t =
               (ac_auto cfg \<and> (3 \<le> length xs \<or> 3 * limit \<le> 4 * sum_list (map snd xs)))"
proof -
  define ys where "ys = butlast xs"
  obtain ts n where x: "last xs = (ts, n)" by (cases "last xs")
  have xs: "xs = ys @ [(ts, n)]" using assms(1) x by (metis append_butlast_last_id ys_def)
  let ?start = "new_audit_tracker cfg consult sid bid"
  let ?t = "audit_turns ys ?start"
  define limit where "limit = (if ac_max_tokens cfg \<le> 0 then 16000 else ac_max_tokens cfg)"
  have t0: "ac_max_tokens (at_cfg ?start) = limit" "at_turns ?start = 0" "at_tokens ?start = 0"
    "ac_auto (at_cfg ?start) = ac_auto cfg"
    by (simp_all add: new_audit_tracker_def Let_def limit_def audit_default_config_def)
  have "0 \<le> sum_list (map snd ys)" "0 \<le> n"
    using assms(2) xs by (auto intro!: sum_list_nonneg)
  then have "au_decision (fst (audit_record_turn ts n 0 None ?t ())) = DecisionComplete \<longleftrightarrow>
      3 \<le> at_turns ?t + 1 \<or> 3 * ac_max_tokens (at_cfg ?t) \<le> 4 * (at_tokens ?t + n)"
    using audit_turns_state [of ys ?start] t0
    by (intro audit_decision_complete_iff) (auto simp: limit_def)
  then have d: "au_decision (fst (audit_record_turn ts n 0 None ?t ())) = DecisionComplete \<longleftrightarrow>
      3 \<le> length xs \<or> 3 * limit \<le> 4 * sum_list (map snd xs)"
    using audit_turns_state [of ys ?start] t0 by (auto simp: xs)
  show ?thesis
    using d audit_turns_state [of ys ?start] t0
    by (simp add: xs audit_turns_snoc audit_should_terminate_def audit_record_turn_fields
        Let_def limit_def [symmetric])
qed

theorem audit_verdict_witness:
  "au_decision (last (at_decisions (audit_turns [(1, 8000), (2, 5000)]
     (new_audit_tracker audit_default_config ''c'' ''s'' ''main'')))) = DecisionComplete"
  using audit_verdict [of "[(1, 8000), (2, 5000)]" audit_default_config "''c''" "''s''" "''main''"]
  by (simp add: audit_default_config_def Let_def)

end
