(* ===== verification/Scheduler.thy ===== *)
theory Scheduler
  imports Prelude
begin

text \<open>
  \<open>internal/compactor/scheduler.go\<close>: when an automatic compaction pass fires. Budget ratios are exact
  rationals. Each method holds the mutex for its whole body.
\<close>

record schedule_config =
  sg_trigger_turns :: int
  sg_ratio :: rat
  sg_min_events :: int
  sg_cooldown :: int

definition default_schedule_config :: schedule_config where
  "default_schedule_config = \<lparr>sg_trigger_turns = 10, sg_ratio = 4 / 5, sg_min_events = 20, sg_cooldown = 3\<rparr>"

record scheduler =
  sh_cfg :: schedule_config
  sh_total_turns :: int
  sh_since_compact :: int
  sh_since_fire :: int
  sh_events :: int
  sh_ratio :: rat
  sh_last_time :: gotime
  sh_firings :: int
  sh_suppressed :: int

definition new_scheduler :: "schedule_config \<Rightarrow> scheduler" where
  "new_scheduler cfg =
     \<lparr>sh_cfg = (if sg_min_events cfg \<le> 0 then cfg\<lparr>sg_min_events := 20\<rparr> else cfg),
      sh_total_turns = 0, sh_since_compact = 0, sh_since_fire = 0, sh_events = 0, sh_ratio = 0,
      sh_last_time = 0, sh_firings = 0, sh_suppressed = 0\<rparr>"

definition sched_record_turn :: "scheduler \<Rightarrow> scheduler" where
  "sched_record_turn s = s\<lparr>sh_total_turns := sh_total_turns s + 1,
     sh_since_compact := sh_since_compact s + 1, sh_since_fire := sh_since_fire s + 1\<rparr>"

definition sched_record_pressure :: "rat \<Rightarrow> scheduler \<Rightarrow> scheduler" where
  "sched_record_pressure r s = s\<lparr>sh_ratio := r\<rparr>"

definition sched_set_event_count :: "int \<Rightarrow> scheduler \<Rightarrow> scheduler" where
  "sched_set_event_count n s = s\<lparr>sh_events := n\<rparr>"

definition should_compact :: "scheduler \<Rightarrow> (bool \<times> string) \<times> scheduler" where
  "should_compact s =
     (if sh_events s < sg_min_events (sh_cfg s) then ((False, []), s)
      else if sh_firings s > 0 \<and> sg_cooldown (sh_cfg s) > 0 \<and> sh_since_fire s < sg_cooldown (sh_cfg s)
        then ((False, []), s\<lparr>sh_suppressed := sh_suppressed s + 1\<rparr>)
      else if sg_trigger_turns (sh_cfg s) > 0 \<and> sh_since_compact s \<ge> sg_trigger_turns (sh_cfg s)
        then ((True, ''turn_count''), s)
      else if sg_ratio (sh_cfg s) > 0 \<and> sh_ratio s \<ge> sg_ratio (sh_cfg s)
        then ((True, ''budget_pressure''), s)
      else ((False, []), s))"

definition mark_compacted :: "gotime \<Rightarrow> scheduler \<Rightarrow> scheduler" where
  "mark_compacted now s = s\<lparr>sh_since_compact := 0, sh_since_fire := 0, sh_last_time := now,
     sh_firings := sh_firings s + 1\<rparr>"

definition mark_compaction_failed :: "scheduler \<Rightarrow> scheduler" where
  "mark_compaction_failed s = s\<lparr>sh_since_fire := sg_cooldown (sh_cfg s)\<rparr>"

text \<open>\<open>fmt\<close> is \<open>time.Format\<close> with RFC 3339.\<close>

record schedule_stats =
  ct_total_turns :: int
  ct_since_compact :: int
  ct_events :: int
  ct_ratio :: rat
  ct_last_time :: string
  ct_firings :: int
  ct_suppressed :: int

definition sched_stats :: "(gotime \<Rightarrow> string) \<Rightarrow> scheduler \<Rightarrow> schedule_stats" where
  "sched_stats fmt s =
     \<lparr>ct_total_turns = sh_total_turns s, ct_since_compact = sh_since_compact s, ct_events = sh_events s,
      ct_ratio = sh_ratio s, ct_last_time = (if sh_last_time s = 0 then [] else fmt (sh_last_time s)),
      ct_firings = sh_firings s, ct_suppressed = sh_suppressed s\<rparr>"

subsection \<open>No compaction storms\<close>

text \<open>The operations that the runtime may run between two passes.\<close>

datatype sched_op = OpTurn | OpPressure rat | OpEvents int | OpCheck

fun sched_run :: "sched_op \<Rightarrow> scheduler \<Rightarrow> scheduler" where
  "sched_run OpTurn s = sched_record_turn s"
| "sched_run (OpPressure r) s = sched_record_pressure r s"
| "sched_run (OpEvents n) s = sched_set_event_count n s"
| "sched_run OpCheck s = snd (should_compact s)"

lemmas sched_defs =
  sched_record_turn_def sched_record_pressure_def sched_set_event_count_def should_compact_def
  mark_compacted_def mark_compaction_failed_def

definition turns_of :: "sched_op list \<Rightarrow> nat" where
  "turns_of ops = length (filter (\<lambda>x. x = OpTurn) ops)"

lemma sched_run_frame:
  "sh_cfg (fold sched_run ops s) = sh_cfg s \<and> sh_firings (fold sched_run ops s) = sh_firings s
   \<and> sh_since_fire (fold sched_run ops s) = sh_since_fire s + int (turns_of ops)
   \<and> sh_since_compact (fold sched_run ops s) = sh_since_compact s + int (turns_of ops)"
proof (induction ops arbitrary: s)
  case (Cons op' ops)
  show ?case
    by (cases op') (simp_all add: Cons sched_defs turns_of_def)
qed (simp add: turns_of_def)

text \<open>
  After a successful pass no pass fires, whatever the pressure, until as many turns as the
  cooldown have been recorded; and no pass ever fires below the minimum number of events.
\<close>

theorem scheduler_cooldown:
  assumes "0 \<le> sh_firings s" and "turns_of ops < nat (sg_cooldown (sh_cfg s))"
  shows "fst (should_compact (fold sched_run ops (mark_compacted now s))) = (False, [])
    \<and> (sh_events s' < sg_min_events (sh_cfg s') \<longrightarrow> fst (should_compact s') = (False, []))"
proof -
  let ?s = "fold sched_run ops (mark_compacted now s)"
  have "sh_cfg ?s = sh_cfg s" "sh_firings ?s = sh_firings s + 1" "sh_since_fire ?s = int (turns_of ops)"
    using sched_run_frame [of ops "mark_compacted now s"] by (simp_all add: mark_compacted_def)
  moreover have "0 < sg_cooldown (sh_cfg s)" "int (turns_of ops) < sg_cooldown (sh_cfg s)"
    using assms(2) by linarith+
  ultimately show ?thesis using assms(1) by (simp add: should_compact_def)
qed

text \<open>
  A failed pass is retried at once: after \<open>MarkCompactionFailed\<close> the very next check fires again,
  for the same reason, without another turn in between.
\<close>

theorem scheduler_retries_failure:
  assumes "should_compact s = ((True, reason), s1)"
  shows "fst (should_compact (mark_compaction_failed s1)) = (True, reason)"
  using assms by (auto simp: should_compact_def mark_compaction_failed_def split: if_splits)

definition busy_scheduler :: scheduler where
  "busy_scheduler = (new_scheduler default_schedule_config)\<lparr>sh_events := 50, sh_ratio := 9 / 10\<rparr>"

theorem scheduler_cooldown_witness:
  "fst (should_compact (fold sched_run [OpTurn, OpPressure 1, OpTurn] (mark_compacted 5 busy_scheduler))) = (False, [])"
  by (rule scheduler_cooldown [THEN conjunct1])
     (simp_all add: busy_scheduler_def new_scheduler_def default_schedule_config_def turns_of_def)

theorem scheduler_retries_failure_witness:
  "fst (should_compact (mark_compaction_failed busy_scheduler)) = (True, ''budget_pressure'')"
  by (rule scheduler_retries_failure [of busy_scheduler])
     (simp add: busy_scheduler_def new_scheduler_def default_schedule_config_def should_compact_def)

end
