(* ===== verification/GoStrings.thy ===== *)
theory GoStrings
  imports Prelude
begin

text \<open>
  More of packages \<open>strings\<close> and \<open>path\<close>, for the components that take paths and texts apart:
  \<open>strings.Contains\<close>, \<open>Index\<close>, \<open>Split\<close>, \<open>Fields\<close> and \<open>Trim\<close>, \<open>path.Clean\<close> and \<open>path.Dir\<close>.
  Paths are slash-separated, so \<open>filepath.ToSlash\<close> is the identity.
\<close>

text \<open>Characters of prompts and messages: a line feed, and two dashes in UTF-8.\<close>

definition newline :: string where "newline = [CHR 0x0A]"
definition en_dash :: string where "en_dash = [CHR 0xE2, CHR 0x80, CHR 0x93]"
definition em_dash :: string where "em_dash = [CHR 0xE2, CHR 0x80, CHR 0x94]"

subsection \<open>Searching\<close>

definition str_contains :: "string \<Rightarrow> string \<Rightarrow> bool" where
  "str_contains s t = sublist t s"

text \<open>\<open>strings.Index\<close>, with \<open>None\<close> for -1.\<close>

fun str_index :: "string \<Rightarrow> string \<Rightarrow> nat option" where
  "str_index [] t = (if t = [] then Some 0 else None)"
| "str_index (c # cs) t = (if prefix t (c # cs) then Some 0 else map_option Suc (str_index cs t))"

lemma str_index_None: "str_index s t = None \<longleftrightarrow> \<not> str_contains s t"
  by (induction s) (auto simp: str_contains_def sublist_Cons_right)

lemma str_index_Some: "str_index s t = Some n \<Longrightarrow> n + length t \<le> length s \<and> take (length t) (drop n s) = t"
proof (induction s arbitrary: n)
  case Nil
  then show ?case by (simp split: if_splits)
next
  case (Cons c cs)
  show ?case
  proof (cases "prefix t (c # cs)")
    case True
    with Cons.prems show ?thesis
      using prefix_length_le [OF True] by (auto simp: prefix_def)
  next
    case False
    with Cons show ?thesis by (auto split: if_splits)
  qed
qed

subsection \<open>Splitting\<close>

text \<open>\<open>strings.Split\<close> by one byte.\<close>

fun split_on :: "char \<Rightarrow> string \<Rightarrow> string list" where
  "split_on c [] = [[]]"
| "split_on c (x # xs) =
     (if x = c then [] # split_on c xs
      else case split_on c xs of [] \<Rightarrow> [[x]] | p # ps \<Rightarrow> (x # p) # ps)"

lemma split_on_nonempty [simp]: "split_on c s \<noteq> []"
  by (cases s) (auto split: list.splits)

lemma split_on_part: "c \<notin> set p \<Longrightarrow> split_on c p = [p]"
  by (induction p) auto

lemma split_on_append: "c \<notin> set p \<Longrightarrow> split_on c (p @ c # s) = p # split_on c s"
  by (induction p) (auto split: list.splits)

lemma split_on_join:
  "ps \<noteq> [] \<Longrightarrow> list_all (\<lambda>p. c \<notin> set p) ps \<Longrightarrow> split_on c (str_join [c] ps) = ps"
  by (induction "[c]" ps rule: str_join.induct) (auto simp: split_on_part split_on_append)

lemma split_on_free: "p \<in> set (split_on c s) \<Longrightarrow> c \<notin> set p"
  by (induction s arbitrary: p) (auto split: list.splits if_splits)

lemma join_split_on: "str_join [c] (split_on c s) = s"
proof (induction s)
  case (Cons x xs)
  obtain p ps where "split_on c xs = p # ps"
    by (cases "split_on c xs") auto
  with Cons show ?case
    by (cases ps) auto
qed simp

text \<open>\<open>strings.Fields\<close>: the maximal runs between white space.\<close>

fun take_word :: "string \<Rightarrow> string \<times> string" where
  "take_word [] = ([], [])"
| "take_word (c # cs) =
     (if strip_one space_runes (c # cs) \<noteq> None then ([], c # cs)
      else let (w, r) = take_word cs in (c # w, r))"

lemma take_word_append: "take_word s = (w, r) \<Longrightarrow> s = w @ r"
  by (induction s arbitrary: w r) (auto split: if_splits prod.splits)

lemma take_word_progress: "strip_one space_runes s = None \<Longrightarrow> s \<noteq> [] \<Longrightarrow> fst (take_word s) \<noteq> []"
  by (cases s) (auto split: prod.splits)

lemma take_word_trim_left:
  assumes "trim_left s \<noteq> []"
  shows "length (snd (take_word (trim_left s))) < length s"
proof -
  obtain w r where wr: "take_word (trim_left s) = (w, r)" by fastforce
  have "w \<noteq> []"
    using take_word_progress [of "trim_left s"] assms wr by (simp add: trim_left_def)
  moreover have "length (trim_left s) \<le> length s"
    unfolding trim_left_def by (rule suffix_length_le) (rule suffix_trim_with)
  ultimately show ?thesis
    using take_word_append [OF wr] wr by (cases w) auto
qed

function str_fields :: "string \<Rightarrow> string list" where
  "str_fields s =
     (let t = trim_left s in
      if t = [] then [] else fst (take_word t) # str_fields (snd (take_word t)))"
  by pat_completeness auto
termination
  by (relation "measure length") (auto intro: take_word_trim_left)

declare str_fields.simps [simp del]

text \<open>\<open>strings.Trim\<close> with a set of ASCII characters.\<close>

definition trim_chars :: "string \<Rightarrow> string \<Rightarrow> string" where
  "trim_chars cs s =
     rev (dropWhile (\<lambda>c. c \<in> set cs) (rev (dropWhile (\<lambda>c. c \<in> set cs) s)))"

subsection \<open>Package path\<close>

text \<open>
  \<open>path.Clean\<close>: the elements are pushed on a stack (last first); empty elements and dots are
  dropped, and a double dot takes back the element before it, if there is one to take back.
\<close>

definition dot :: string where "dot = ''.''"
definition dotdot :: string where "dotdot = ''..''"

fun clean_elems :: "bool \<Rightarrow> string list \<Rightarrow> string list \<Rightarrow> string list" where
  "clean_elems rooted st [] = rev st"
| "clean_elems rooted st (p # ps) =
     (if p = [] \<or> p = dot then clean_elems rooted st ps
      else if p = dotdot then
        (case st of
           [] \<Rightarrow> clean_elems rooted (if rooted then [] else [dotdot]) ps
         | q # qs \<Rightarrow> clean_elems rooted (if q = dotdot then dotdot # st else qs) ps)
      else clean_elems rooted (p # st) ps)"

definition path_clean :: "string \<Rightarrow> string" where
  "path_clean p =
     (if p = [] then dot
      else let rooted = hd p = CHR ''/'';
               es = clean_elems rooted [] (split_on (CHR ''/'') p)
           in if rooted then CHR ''/'' # str_join ''/'' es
              else if es = [] then dot else str_join ''/'' es)"

text \<open>\<open>path.Dir\<close>: everything up to the last slash, cleaned.\<close>

definition path_dir :: "string \<Rightarrow> string" where
  "path_dir p = path_clean (rev (dropWhile (\<lambda>c. c \<noteq> CHR ''/'') (rev p)))"

text \<open>A name that an entry of a directory can have.\<close>

definition entry_name :: "string \<Rightarrow> bool" where
  "entry_name n \<longleftrightarrow> n \<noteq> [] \<and> n \<noteq> dot \<and> n \<noteq> dotdot \<and> CHR ''/'' \<notin> set n"

lemma clean_elems_names: "list_all entry_name ps \<Longrightarrow> clean_elems rooted st ps = rev st @ ps"
  by (induction ps arbitrary: st) (auto simp: entry_name_def)

lemma str_join_Cons: "str_join sep (p # ps) = p @ (if ps = [] then [] else sep @ str_join sep ps)"
  by (cases ps) auto

lemma path_clean_names:
  assumes "ns \<noteq> []" and names: "list_all entry_name ns"
  shows "path_clean (str_join ''/'' ns) = str_join ''/'' ns"
proof -
  obtain n ms where ns: "ns = n # ms" using assms(1) by (cases ns) auto
  with names have "n \<noteq> []" "hd n \<noteq> CHR ''/''"
    by (auto simp: entry_name_def) (metis hd_in_set)
  then have hd: "str_join ''/'' ns \<noteq> []" "hd (str_join ''/'' ns) \<noteq> CHR ''/''"
    by (auto simp: ns str_join_Cons)
  have "split_on (CHR ''/'') (str_join ''/'' ns) = ns"
    using names assms(1) by (intro split_on_join) (auto simp: entry_name_def list_all_iff)
  with hd assms show ?thesis
    by (simp add: path_clean_def Let_def clean_elems_names)
qed

lemma path_dir_names:
  assumes "ns \<noteq> []" "list_all entry_name ns" "CHR ''/'' \<notin> set n"
  shows "path_dir (str_join ''/'' ns @ ''/'' @ n) = str_join ''/'' ns"
proof -
  have "rev (dropWhile (\<lambda>c. c \<noteq> CHR ''/'') (rev (str_join ''/'' ns @ ''/'' @ n)))
      = str_join ''/'' ns @ ''/''"
    using assms(3) by (auto simp: dropWhile_append)
  moreover have "path_clean (str_join ''/'' ns @ ''/'') = str_join ''/'' ns"
  proof -
    obtain m ms where ns: "ns = m # ms" using assms(1) by (cases ns) auto
    with assms(2) have "m \<noteq> []" "hd m \<noteq> CHR ''/''"
      by (auto simp: entry_name_def) (metis hd_in_set)
    then have hd: "hd (str_join ''/'' ns @ ''/'') \<noteq> CHR ''/''"
      by (auto simp: ns str_join_Cons)
    have "str_join ''/'' (ns @ [[]]) = str_join ''/'' ns @ ''/''"
      using assms(1) by (induction ns) (auto simp: str_join_Cons)
    then have "split_on (CHR ''/'') (str_join ''/'' ns @ ''/'') = ns @ [[]]"
      using split_on_join [of "ns @ [[]]" "CHR ''/''"] assms(2)
      by (auto simp: entry_name_def list_all_iff)
    moreover have "clean_elems b st (qs @ [[]]) = clean_elems b st qs" for b st qs
      by (induction b st qs rule: clean_elems.induct) (auto split: list.splits)
    ultimately show ?thesis
      using hd assms(1,2) by (simp add: path_clean_def Let_def clean_elems_names)
  qed
  ultimately show ?thesis by (simp add: path_dir_def)
qed

subsection \<open>Reading lines\<close>

text \<open>
  The lines a \<open>bufio.Scanner\<close> delivers, and whether it gives up on one of \<open>limit\<close> bytes or more: a line
  ends before a newline, without a carriage return at its end; the last one may lack the newline.
\<close>

definition drop_cr :: "string \<Rightarrow> string" where
  "drop_cr s = (if s \<noteq> [] \<and> last s = CHR 0x0D then butlast s else s)"

fun scan_lines :: "nat \<Rightarrow> string list \<Rightarrow> string list \<times> bool" where
  "scan_lines limit [] = ([], False)"
| "scan_lines limit (l # ls) =
     (if limit \<le> length l then ([], True)
      else if ls = [] \<and> l = [] then ([], False)
      else let (rest, long) = scan_lines limit ls in (drop_cr l # rest, long))"

definition ErrTooLong :: goerr where
  "ErrTooLong = Sentinel ''bufio.ErrTooLong'' ''bufio.Scanner: token too long''"

end
