(* ===== verification/Egress.thy ===== *)
theory Egress
  imports GoStrings
begin

text \<open>
  Package \<open>internal/egress\<close>: which local events may leave the machine in a packet, in which form,
  and the explanation of the choice.
\<close>

subsection \<open>Types\<close>

datatype eligibility_class =
    ClassPassthrough | ClassSummaryOnly | ClassRefOnly | ClassDropUnlessAsked | ClassDebugNever

fun class_str :: "eligibility_class \<Rightarrow> string" where
  "class_str ClassPassthrough = ''passthrough''"
| "class_str ClassSummaryOnly = ''summary_only''"
| "class_str ClassRefOnly = ''ref_only''"
| "class_str ClassDropUnlessAsked = ''drop_unless_asked''"
| "class_str ClassDebugNever = ''debug_never''"

datatype reason_code =
    ReasonBranchLocality | ReasonRecentTurn | ReasonToolResult | ReasonSummaryCheckpoint
  | ReasonCheckpointRef | ReasonGlobalRelevant | ReasonBudgetFit | ReasonDebugNever
  | ReasonNonLocal | ReasonSensitiveLocal | ReasonRefUnavailable

fun reason_str :: "reason_code \<Rightarrow> string" where
  "reason_str ReasonBranchLocality = ''branch_locality''"
| "reason_str ReasonRecentTurn = ''recent_turn''"
| "reason_str ReasonToolResult = ''tool_result''"
| "reason_str ReasonSummaryCheckpoint = ''summary_checkpoint''"
| "reason_str ReasonCheckpointRef = ''checkpoint_ref''"
| "reason_str ReasonGlobalRelevant = ''global_relevant''"
| "reason_str ReasonBudgetFit = ''budget_fit''"
| "reason_str ReasonDebugNever = ''debug_never''"
| "reason_str ReasonNonLocal = ''non_local''"
| "reason_str ReasonSensitiveLocal = ''sensitive_local''"
| "reason_str ReasonRefUnavailable = ''ref_unavailable''"

record candidate =
  cd_id :: string
  cd_kind :: string
  cd_branch :: string
  cd_active_branch :: string
  cd_text :: string
  cd_summary_ref :: string
  cd_blob_ref :: string
  cd_ordinal :: int
  cd_is_active :: bool
  cd_is_global :: bool
  cd_is_current_user :: bool
  cd_is_latest_tool :: bool
  cd_is_checkpoint :: bool
  cd_is_nearest_summary :: bool
  cd_is_sensitive :: bool

record selected =
  sel_id :: string
  sel_kind :: string
  sel_class :: eligibility_class
  sel_reason :: reason_code
  sel_include :: bool
  sel_text :: string
  sel_summary_ref :: string
  sel_blob_ref :: string
  sel_ordinal :: int

record item_reason =
  ir_id :: string
  ir_kind :: string
  ir_reason :: reason_code
  ir_class :: eligibility_class
  ir_ordinal :: int

type_synonym reason_counts = "(reason_code \<times> int) list"

record explanation =
  ex_included :: "item_reason list"
  ex_excluded :: "item_reason list"
  ex_dom_included :: reason_counts
  ex_dom_excluded :: reason_counts
  ex_pressure :: bool

definition empty_explanation :: explanation where
  "empty_explanation = \<lparr>ex_included = [], ex_excluded = [], ex_dom_included = [],
     ex_dom_excluded = [], ex_pressure = False\<rparr>"

definition largeTextBytes :: nat where "largeTextBytes = 1024"
definition staleDistance :: int where "staleDistance = 8"
definition maxExcluded :: nat where "maxExcluded = 8"

subsection \<open>Kinds\<close>

definition is_debug_never_kind :: "string \<Rightarrow> bool" where
  "is_debug_never_kind kind =
     (let k = trim_space (to_lower kind) in
      prefix ''packet.'' k \<or> prefix ''response.'' k
      \<or> str_contains k ''debug'' \<or> str_contains k ''metrics'' \<or> str_contains k ''trace'')"

definition is_never_egress_kind :: "string \<Rightarrow> bool" where
  "is_never_egress_kind kind =
     (let k = trim_space (to_lower kind) in
      prefix ''branch.fork'' k \<or> prefix ''consult.'' k \<or> prefix ''summary.rebuild'' k
      \<or> prefix ''replay.'' k \<or> prefix ''recovery.'' k \<or> prefix ''context.compact'' k
      \<or> prefix ''dream.'' k \<or> prefix ''audit.'' k)"

definition is_large_and_stale :: "candidate \<Rightarrow> int \<Rightarrow> bool" where
  "is_large_and_stale c latest =
     (if length (cd_text c) \<le> largeTextBytes then False
      else if latest - cd_ordinal c \<le> staleDistance then False
      else True)"

subsection \<open>Selection\<close>

text \<open>The body of the loop: the initial value and the \<open>switch\<close>, in the order of its cases.\<close>

definition initial_selected :: "candidate \<Rightarrow> selected" where
  "initial_selected c =
     \<lparr>sel_id = cd_id c, sel_kind = cd_kind c, sel_class = ClassPassthrough,
      sel_reason = ReasonBranchLocality, sel_include = True, sel_text = cd_text c,
      sel_summary_ref = cd_summary_ref c, sel_blob_ref = cd_blob_ref c, sel_ordinal = cd_ordinal c\<rparr>"

definition drop_with :: "eligibility_class \<Rightarrow> reason_code \<Rightarrow> selected \<Rightarrow> selected" where
  "drop_with cl r s =
     s\<lparr>sel_class := cl, sel_include := False, sel_reason := r, sel_text := [], sel_summary_ref := []\<rparr>"

definition classify :: "int \<Rightarrow> candidate \<Rightarrow> selected" where
  "classify latest c =
     (let s = initial_selected c in
      if is_never_egress_kind (cd_kind c) then drop_with ClassDebugNever ReasonDebugNever s
      else if \<not> cd_is_active c then
        (if cd_is_global c then
           let s1 = s\<lparr>sel_class := ClassRefOnly, sel_reason := ReasonGlobalRelevant, sel_text := []\<rparr> in
           if sel_blob_ref s1 = []
           then s1\<lparr>sel_include := False, sel_class := ClassDropUnlessAsked, sel_reason := ReasonRefUnavailable\<rparr>
           else s1
         else drop_with ClassDropUnlessAsked ReasonNonLocal s)
      else if is_debug_never_kind (cd_kind c) then drop_with ClassDebugNever ReasonDebugNever s
      else if cd_is_sensitive c then drop_with ClassDropUnlessAsked ReasonSensitiveLocal s
      else if cd_is_current_user c then
        s\<lparr>sel_class := ClassPassthrough, sel_reason := ReasonRecentTurn\<rparr>
      else if cd_is_latest_tool c then
        s\<lparr>sel_class := ClassSummaryOnly, sel_reason := ReasonToolResult, sel_text := [],
          sel_summary_ref := (if sel_summary_ref s = [] then cd_summary_ref c else sel_summary_ref s)\<rparr>
      else if cd_is_nearest_summary c then
        s\<lparr>sel_class := ClassSummaryOnly, sel_reason := ReasonSummaryCheckpoint, sel_text := [],
          sel_summary_ref := (if sel_summary_ref s = [] then cd_summary_ref c else sel_summary_ref s)\<rparr>
      else if cd_is_checkpoint c then
        s\<lparr>sel_class := ClassRefOnly, sel_reason := ReasonCheckpointRef, sel_text := []\<rparr>
      else if is_large_and_stale c latest then
        s\<lparr>sel_class := ClassRefOnly, sel_reason := ReasonBudgetFit, sel_text := [],
          sel_summary_ref := (if sel_summary_ref s = [] \<and> sel_blob_ref s \<noteq> [] then []
                              else sel_summary_ref s)\<rparr>
      else s\<lparr>sel_class := ClassPassthrough, sel_reason := ReasonBranchLocality\<rparr>)"

definition item_of :: "selected \<Rightarrow> item_reason" where
  "item_of s = \<lparr>ir_id = sel_id s, ir_kind = sel_kind s, ir_reason = sel_reason s,
     ir_class = sel_class s, ir_ordinal = sel_ordinal s\<rparr>"

text \<open>\<open>counts[r]++\<close> on a \<open>map[ReasonCode]int\<close>.\<close>

fun bump :: "reason_code \<Rightarrow> reason_counts \<Rightarrow> reason_counts" where
  "bump r [] = [(r, 1)]"
| "bump r ((q, n) # m) = (if q = r then (q, n + 1) # m else (q, n) # bump r m)"

record select_state =
  ss_out :: "selected list"
  ss_included :: "item_reason list"
  ss_excluded :: "item_reason list"
  ss_inc_counts :: reason_counts
  ss_exc_counts :: reason_counts

definition select_step :: "int \<Rightarrow> select_state \<Rightarrow> candidate \<Rightarrow> select_state" where
  "select_step latest st c =
     (let sel = classify latest c; item = item_of sel;
          st1 = st\<lparr>ss_out := ss_out st @ [sel]\<rparr> in
      if sel_include sel then
        st1\<lparr>ss_included := ss_included st1 @ [item],
            ss_inc_counts := bump (sel_reason sel) (ss_inc_counts st1)\<rparr>
      else
        st1\<lparr>ss_excluded := (if length (ss_excluded st1) < maxExcluded
                            then ss_excluded st1 @ [item] else ss_excluded st1),
            ss_exc_counts := bump (sel_reason sel) (ss_exc_counts st1)\<rparr>)"

definition count_less :: "reason_code \<times> int \<Rightarrow> reason_code \<times> int \<Rightarrow> bool" where
  "count_less a b =
     (if snd a \<noteq> snd b then snd a > snd b else reason_str (fst a) < reason_str (fst b))"

definition dominant_reasons :: "reason_counts \<Rightarrow> reason_counts" where
  "dominant_reasons counts = go_sort count_less (filter (\<lambda>(r, n). \<not> n \<le> 0) counts)"

definition empty_select_state :: select_state where
  "empty_select_state = \<lparr>ss_out = [], ss_included = [], ss_excluded = [],
     ss_inc_counts = [], ss_exc_counts = []\<rparr>"

definition select_with_explanation :: "candidate list \<Rightarrow> selected list \<times> explanation" where
  "select_with_explanation cs =
     (if cs = [] then ([], empty_explanation)
      else let latest = cd_ordinal (last cs);
               st = foldl (select_step latest) empty_select_state cs in
        (ss_out st,
         empty_explanation\<lparr>ex_included := ss_included st, ex_excluded := ss_excluded st,
           ex_dom_included := dominant_reasons (ss_inc_counts st),
           ex_dom_excluded := dominant_reasons (ss_exc_counts st)\<rparr>))"

definition select :: "candidate list \<Rightarrow> selected list" where
  "select cs = fst (select_with_explanation cs)"

subsection \<open>The loop is a map, two filters and two tallies\<close>

definition tally :: "reason_code list \<Rightarrow> reason_counts" where
  "tally rs = foldl (\<lambda>m r. bump r m) [] rs"

lemma select_loop:
  "foldl (select_step latest) st cs =
     (let sels = map (classify latest) cs; inc = filter sel_include sels;
          exc = filter (\<lambda>s. \<not> sel_include s) sels in
      \<lparr>ss_out = ss_out st @ sels, ss_included = ss_included st @ map item_of inc,
       ss_excluded = ss_excluded st @ take (maxExcluded - length (ss_excluded st)) (map item_of exc),
       ss_inc_counts = foldl (\<lambda>m r. bump r m) (ss_inc_counts st) (map sel_reason inc),
       ss_exc_counts = foldl (\<lambda>m r. bump r m) (ss_exc_counts st) (map sel_reason exc)\<rparr>)"
proof (induction cs arbitrary: st)
  case (Cons c cs)
  have "take (maxExcluded - n) (x # xs) =
      (if n < maxExcluded then x # take (maxExcluded - Suc n) xs else [])" for n and x :: item_reason and xs
    by (cases "n < maxExcluded") (simp_all flip: Suc_diff_Suc)
  then show ?case
    unfolding foldl_Cons Cons.IH by (simp add: select_step_def Let_def)
qed (simp add: Let_def)

lemma map_of_bump: "map_of (bump r m) q = (if q = r then Some ((case map_of m r of None \<Rightarrow> 0 | Some n \<Rightarrow> n) + 1) else map_of m q)"
  by (induction r m rule: bump.induct) auto

lemma fst_bump: "fst ` set (bump r m) = insert r (fst ` set m)"
  by (induction r m rule: bump.induct) auto

lemma distinct_bump: "distinct (map fst m) \<Longrightarrow> distinct (map fst (bump r m))"
proof (induction r m rule: bump.induct)
  case (2 r q n m)
  then show ?case using fst_bump [of r m] by (auto simp: image_iff)
qed simp

lemma tally_snoc: "tally (rs @ [r]) = bump r (tally rs)"
  by (simp add: tally_def)

lemma tally_counts:
  "distinct (map fst (tally rs)) \<and>
   map_of (tally rs) q = (if q \<in> set rs then Some (int (count_list rs q)) else None)"
proof (induction rs rule: rev_induct)
  case Nil
  then show ?case by (simp add: tally_def)
next
  case (snoc r rs)
  then show ?case
    by (auto simp: tally_snoc map_of_bump distinct_bump)
qed

lemma count_less_key:
  "count_less = (\<lambda>a b. (- snd a, reason_str (fst a)) < (- snd b, reason_str (fst b)))"
  by (intro ext) (auto simp: count_less_def less_prod_def)

lemma tally_pos: "(r, n) \<in> set (tally rs) \<Longrightarrow> 0 < n \<and> n = int (count_list rs r)"
proof -
  assume "(r, n) \<in> set (tally rs)"
  then have "map_of (tally rs) r = Some n"
    using tally_counts [of rs, THEN conjunct1] by (simp add: map_of_eq_Some_iff)
  with tally_counts [of rs r] have "r \<in> set rs" "n = int (count_list rs r)"
    by (auto split: if_splits)
  then show ?thesis by (metis count_list_0_iff of_nat_0_less_iff neq0_conv)
qed

lemma dominant_tally: "dominant_reasons (tally rs) = sort_key (\<lambda>a. (- snd a, reason_str (fst a))) (tally rs)"
proof -
  have "filter (\<lambda>(r, n). \<not> n \<le> 0) (tally rs) = tally rs"
    by (rule filter_True) (auto dest: tally_pos)
  then show ?thesis
    unfolding dominant_reasons_def count_less_key by (simp only: go_sort_key_eq)
qed

lemma select_unfold:
  "select_with_explanation cs =
     (let sels = map (classify (cd_ordinal (last cs))) cs; inc = filter sel_include sels;
          exc = filter (\<lambda>s. \<not> sel_include s) sels in
      (sels, \<lparr>ex_included = map item_of inc, ex_excluded = take maxExcluded (map item_of exc),
              ex_dom_included = dominant_reasons (tally (map sel_reason inc)),
              ex_dom_excluded = dominant_reasons (tally (map sel_reason exc)), ex_pressure = False\<rparr>))"
  by (auto simp: select_with_explanation_def select_loop empty_explanation_def Let_def
      empty_select_state_def tally_def dominant_reasons_def)

subsection \<open>Properties\<close>

lemma classify_cases:
  "(sel_include (classify l c) \<longrightarrow> \<not> is_never_egress_kind (cd_kind c)
      \<and> (cd_is_active c \<longrightarrow> \<not> is_debug_never_kind (cd_kind c) \<and> \<not> cd_is_sensitive c)
      \<and> (\<not> cd_is_active c \<longrightarrow> cd_is_global c \<and> cd_blob_ref c \<noteq> [] \<and> sel_text (classify l c) = []))
   \<and> (sel_text (classify l c) \<noteq> [] \<longrightarrow> sel_include (classify l c) \<and> cd_is_active c
      \<and> sel_class (classify l c) = ClassPassthrough \<and> sel_text (classify l c) = cd_text c)
   \<and> (\<not> sel_include (classify l c) \<longrightarrow>
        sel_text (classify l c) = [] \<and> sel_class (classify l c) \<in> {ClassDropUnlessAsked, ClassDebugNever})
   \<and> (\<not> sel_include (classify l c) \<longrightarrow> sel_blob_ref (classify l c) = cd_blob_ref c
        \<and> (sel_summary_ref (classify l c) \<noteq> [] \<longrightarrow> sel_summary_ref (classify l c) = cd_summary_ref c
             \<and> \<not> cd_is_active c \<and> cd_is_global c \<and> cd_blob_ref c = [] \<and> \<not> is_never_egress_kind (cd_kind c)))"
  by (simp add: classify_def initial_selected_def drop_with_def Let_def)

text \<open>
  C5. Nothing private leaves: a selected entry carries text only if its candidate is on the active
  branch, is of no spine-only or debug kind and is not marked sensitive; and it is included without
  text only if its kind may leave at all, from another branch only as a reference to a stored blob
  of a globally relevant entry. Entries that are left out carry no text; they keep the reference to their
  blob, and a reference to their summary only if they are globally relevant, of another branch and
  without a blob.
\<close>

theorem select_keeps_private_data_local:
  assumes "i < length cs" and "s = select cs ! i" and "c = cs ! i"
  shows "(sel_text s \<noteq> [] \<longrightarrow>
            sel_include s \<and> cd_is_active c \<and> \<not> cd_is_sensitive c \<and> sel_text s = cd_text c
            \<and> \<not> is_never_egress_kind (cd_kind c) \<and> \<not> is_debug_never_kind (cd_kind c))
       \<and> (sel_include s \<longrightarrow> \<not> is_never_egress_kind (cd_kind c)
            \<and> (\<not> cd_is_active c \<longrightarrow> cd_is_global c \<and> cd_blob_ref c \<noteq> [] \<and> sel_text s = []))
       \<and> (\<not> sel_include s \<longrightarrow> sel_text s = [] \<and> sel_blob_ref s = cd_blob_ref c
            \<and> (sel_summary_ref s \<noteq> [] \<longrightarrow> sel_summary_ref s = cd_summary_ref c
                 \<and> \<not> cd_is_active c \<and> cd_is_global c \<and> cd_blob_ref c = [] \<and> \<not> is_never_egress_kind (cd_kind c)))"
proof -
  have "s = classify (cd_ordinal (last cs)) c"
    using assms by (simp add: select_def select_unfold Let_def)
  then show ?thesis using classify_cases [of "cd_ordinal (last cs)" c] by blast
qed

definition secret_candidate :: candidate where
  "secret_candidate = \<lparr>cd_id = ''e1'', cd_kind = ''turn.user'', cd_branch = ''main'',
     cd_active_branch = ''main'', cd_text = ''secret'', cd_summary_ref = [], cd_blob_ref = ''blob://1'',
     cd_ordinal = 3, cd_is_active = True, cd_is_global = False, cd_is_current_user = True,
     cd_is_latest_tool = False, cd_is_checkpoint = False, cd_is_nearest_summary = False,
     cd_is_sensitive = True\<rparr>"

theorem select_keeps_private_data_local_witness:
  "sel_text (select [secret_candidate] ! 0) = []"
  using select_keeps_private_data_local [of 0 "[secret_candidate]" _ secret_candidate, OF _ refl]
  by (auto simp: secret_candidate_def)

text \<open>
  The explanation accounts for every candidate: the included list is complete and in order, the
  excluded list is the first eight of the exclusions, and the dominant reasons are a tally of all
  candidates, the ones beyond those eight included, sorted by falling count.
\<close>

theorem select_explanation_accounts:
  "select_with_explanation cs = (sels, ex) \<Longrightarrow>
     length sels = length cs
   \<and> ex_included ex = map item_of (filter sel_include sels)
   \<and> ex_excluded ex = take 8 (map item_of (filter (\<lambda>s. \<not> sel_include s) sels))
   \<and> (\<forall>r. map_of (ex_dom_included ex) r =
        (let n = count_list (map sel_reason (filter sel_include sels)) r in
         if n = 0 then None else Some (int n)))
   \<and> (\<forall>r. map_of (ex_dom_excluded ex) r =
        (let n = count_list (map sel_reason (filter (\<lambda>s. \<not> sel_include s) sels)) r in
         if n = 0 then None else Some (int n)))
   \<and> sorted (map (\<lambda>a. - snd a) (ex_dom_included ex))
   \<and> sorted (map (\<lambda>a. - snd a) (ex_dom_excluded ex))"
proof -
  assume a: "select_with_explanation cs = (sels, ex)"
  have m: "map_of (dominant_reasons (tally rs)) r =
      (let n = count_list rs r in if n = 0 then None else Some (int n))" for rs r
  proof -
    have d: "distinct (map fst (tally rs))" using tally_counts by blast
    have "map_of (dominant_reasons (tally rs)) = map_of (tally rs)"
      unfolding dominant_tally
      by (rule map_of_inject_set [THEN iffD2])
         (use d in \<open>simp_all add: distinct_map\<close>)
    then show ?thesis using tally_counts [of rs r] by (auto simp: Let_def count_list_0_iff)
  qed
  have "sorted (map (\<lambda>a. (- snd a, reason_str (fst a))) (dominant_reasons (tally rs)))" for rs
    unfolding dominant_tally by (rule sorted_sort_key)
  then have s: "sorted (map (\<lambda>a. - snd a) (dominant_reasons (tally rs)))" for rs
    by (auto simp: sorted_iff_nth_mono less_eq_prod_def) (metis order_less_imp_le order_refl)
  show ?thesis
    using a by (auto simp: select_unfold Let_def m s maxExcluded_def simp del: map_of_map)
qed

theorem select_explanation_accounts_witness:
  "ex_included (snd (select_with_explanation [secret_candidate])) =
     map item_of (filter sel_include (fst (select_with_explanation [secret_candidate])))
   \<and> length (fst (select_with_explanation [secret_candidate])) = 1"
  using select_explanation_accounts [OF prod.collapse [symmetric], of "[secret_candidate]"]
  by simp

end
