(* ===== verification/Assembler.thy ===== *)
theory Assembler
  imports GoJson Egress
begin

text \<open>
  Package \<open>internal/assembler\<close>: building the outgoing packet within its byte envelope, with the
  deterministic compaction stages, and rejecting it when nothing helps. \<open>json.Marshal\<close> of these
  structs cannot fail, so the error branches behind it have no counterpart.
\<close>

subsection \<open>Types\<close>

definition MaxEnvelopeBytes :: int where "MaxEnvelopeBytes = 14336"
definition SafetyMarginBytes :: int where "SafetyMarginBytes = 768"
definition LargeTextInlineThresholdBytes :: nat where "LargeTextInlineThresholdBytes = 1024"
definition ToolResultExcerptBytes :: nat where "ToolResultExcerptBytes = 256"

lemmas assembler_limits =
  MaxEnvelopeBytes_def SafetyMarginBytes_def LargeTextInlineThresholdBytes_def
  ToolResultExcerptBytes_def

definition ErrPacketRejectedBudget :: goerr where
  "ErrPacketRejectedBudget =
     Sentinel ''assembler.ErrPacketRejectedBudget'' ''packet rejected by budget''"

record http_header =
  hd_name :: string
  hd_value :: string

record packet_constraint =
  co_name :: string
  co_value :: string

record working_item =
  wi_id :: string
  wi_kind :: string
  wi_text :: string
  wi_summary_ref :: string
  wi_blob_ref :: string
  wi_ordinal :: int
  wi_provenance :: string
  wi_prov_required :: bool

text \<open>
  \<open>WorkingSet\<close> is the one slice without \<open>omitempty\<close>: a nil slice prints as \<open>null\<close> and an empty
  one as \<open>[]\<close>, so the two are kept apart.
\<close>

record packet_body =
  pb_session :: string
  pb_branch :: string
  pb_working :: "working_item list option"
  pb_external :: string
  pb_frontier :: "string list"
  pb_constraints :: "packet_constraint list"
  pb_debug :: "string list"
  pb_provenance :: "string list"
  pb_checkpoint_ref :: string
  pb_stage :: int

record packet_request =
  rq_method :: string
  rq_path :: string
  rq_headers :: "http_header list"
  rq_body :: packet_body

record measurement =
  me_request_line :: int
  me_header :: int
  me_budget :: int
  me_body :: int
  me_envelope :: int

record assembly =
  as_json :: string
  as_stage :: int
  as_measurement :: measurement
  as_body :: packet_body
  as_ext_status :: string
  as_ext_bytes :: int

definition working :: "packet_body \<Rightarrow> working_item list" where
  "working b = (case pb_working b of None \<Rightarrow> [] | Some ws \<Rightarrow> ws)"

subsection \<open>JSON\<close>

definition working_item_json :: "working_item \<Rightarrow> json" where
  "working_item_json w = JObject
     (fld ''id'' (JString (wi_id w)) @ fld ''kind'' (JString (wi_kind w))
      @ opt_str ''text'' (wi_text w) @ opt_str ''summary_ref'' (wi_summary_ref w)
      @ opt_str ''blob_ref'' (wi_blob_ref w)
      @ opt_fld (wi_ordinal w \<noteq> 0) ''frontier_ordinal'' (JInt (wi_ordinal w))
      @ opt_str ''provenance'' (wi_provenance w))"

definition packet_constraint_json :: "packet_constraint \<Rightarrow> json" where
  "packet_constraint_json c = JObject
     (fld ''name'' (JString (co_name c)) @ fld ''value'' (JString (co_value c)))"

definition packet_body_json :: "packet_body \<Rightarrow> json" where
  "packet_body_json b = JObject
     (fld ''session_id'' (JString (pb_session b)) @ fld ''branch_handle'' (JString (pb_branch b))
      @ fld ''working_set'' (case pb_working b of None \<Rightarrow> JNull
                             | Some ws \<Rightarrow> JArray (map working_item_json ws))
      @ opt_str ''external_context'' (pb_external b) @ opt_strs ''frontier'' (pb_frontier b)
      @ opt_fld (pb_constraints b \<noteq> []) ''constraints''
          (JArray (map packet_constraint_json (pb_constraints b)))
      @ opt_strs ''debug'' (pb_debug b) @ opt_strs ''provenance'' (pb_provenance b)
      @ opt_str ''checkpoint_summary_ref'' (pb_checkpoint_ref b)
      @ fld ''compact_stage'' (JInt (pb_stage b)))"

definition marshal_body :: "packet_body \<Rightarrow> string" where
  "marshal_body b = json_print (packet_body_json b)"

definition body_size :: "packet_body \<Rightarrow> int" where
  "body_size b = int (length (marshal_body b))"

subsection \<open>Normalising a request\<close>

text \<open>\<open>append([]T(nil), in...)\<close> of an empty slice is nil.\<close>

definition clone_body :: "packet_body \<Rightarrow> packet_body" where
  "clone_body b = b\<lparr>pb_working := (if working b = [] then None else Some (working b))\<rparr>"

definition map_working :: "(working_item \<Rightarrow> working_item) \<Rightarrow> packet_body \<Rightarrow> packet_body" where
  "map_working f b = b\<lparr>pb_working := map_option (map f) (pb_working b)\<rparr>"

definition header_less :: "http_header \<Rightarrow> http_header \<Rightarrow> bool" where
  "header_less a b = (if hd_name a = hd_name b then hd_value a < hd_value b else hd_name a < hd_name b)"

definition working_less :: "working_item \<Rightarrow> working_item \<Rightarrow> bool" where
  "working_less a b = (if wi_ordinal a = wi_ordinal b then wi_id a < wi_id b else wi_ordinal a < wi_ordinal b)"

definition packet_constraint_less :: "packet_constraint \<Rightarrow> packet_constraint \<Rightarrow> bool" where
  "packet_constraint_less a b =
     (if co_name a = co_name b then co_value a < co_value b else co_name a < co_name b)"

definition normalize_tool_result :: "working_item \<Rightarrow> working_item" where
  "normalize_tool_result w =
     (if wi_summary_ref w \<noteq> [] then w\<lparr>wi_text := []\<rparr>
      else if length (wi_text w) > ToolResultExcerptBytes
        then w\<lparr>wi_text := take ToolResultExcerptBytes (wi_text w)\<rparr>
      else w)"

definition normalize_item :: "working_item \<Rightarrow> working_item" where
  "normalize_item w =
     (let w1 = (if wi_kind w = ''tool.result'' then normalize_tool_result w else w) in
      if wi_blob_ref w1 \<noteq> [] \<and> length (wi_text w1) > LargeTextInlineThresholdBytes
      then w1\<lparr>wi_text := []\<rparr> else w1)"

text \<open>\<open>strings.ToUpper\<close> of the method, which is ASCII.\<close>

definition normalize_request :: "packet_request \<Rightarrow> packet_request" where
  "normalize_request req =
     (let m = map upper_char (trim_space (rq_method req)); p = trim_space (rq_path req);
          b0 = clone_body (rq_body req);
          b1 = b0\<lparr>pb_external := trim_space (pb_external b0)\<rparr>;
          b2 = b1\<lparr>pb_working := map_option (go_sort working_less) (pb_working b1),
                  pb_frontier := sort_strings (pb_frontier b1),
                  pb_debug := sort_strings (pb_debug b1),
                  pb_provenance := sort_strings (pb_provenance b1),
                  pb_constraints := go_sort packet_constraint_less (pb_constraints b1)\<rparr>
      in \<lparr>rq_method = (if m = [] then ''POST'' else m),
          rq_path = (if p = [] then ''/v1/responses'' else p),
          rq_headers = go_sort header_less (rq_headers req),
          rq_body = map_working normalize_item b2\<rparr>)"

definition measure_headers :: "http_header list \<Rightarrow> int" where
  "measure_headers hs =
     foldl (\<lambda>total h. total + int (length (hd_name h)) + 2 + int (length (hd_value h)) + 2) 0 hs + 2"

definition request_line_bytes :: "packet_request \<Rightarrow> int" where
  "request_line_bytes r = int (length (rq_method r)) + 1 + int (length (rq_path r)) + 11"

subsection \<open>Compaction stages\<close>

text \<open>The index of the first item with the largest ordinal.\<close>

definition newest_item :: "working_item list \<Rightarrow> working_item" where
  "newest_item ws = foldl (\<lambda>n w. if wi_ordinal w > wi_ordinal n then w else n) (hd ws) (tl ws)"

definition checkpoint_item :: "string \<Rightarrow> working_item" where
  "checkpoint_item r = \<lparr>wi_id = ''checkpoint'', wi_kind = ''summary.checkpoint'', wi_text = [],
     wi_summary_ref = r, wi_blob_ref = [], wi_ordinal = 0, wi_provenance = [],
     wi_prov_required = False\<rparr>"

definition apply_compaction_stage :: "packet_body \<Rightarrow> nat \<Rightarrow> packet_body" where
  "apply_compaction_stage body stage =
     (let out = clone_body body in
      if stage = 1 then out\<lparr>pb_debug := []\<rparr>
      else if stage = 2 then
        out\<lparr>pb_working := Some (map (\<lambda>w. if \<not> wi_prov_required w then w\<lparr>wi_provenance := []\<rparr> else w)
                                  (working out)),
            pb_provenance := []\<rparr>
      else if stage = 3 then
        map_working (\<lambda>w. if wi_summary_ref w \<noteq> [] then w\<lparr>wi_text := []\<rparr> else w) out
      else if stage = 4 then
        (if pb_checkpoint_ref out \<noteq> [] \<and> length (working out) > 1
         then out\<lparr>pb_working := Some [checkpoint_item (pb_checkpoint_ref out)]\<rparr> else out)
      else if stage = 5 then
        (if length (working out) > 1 then out\<lparr>pb_working := Some [newest_item (working out)]\<rparr> else out)
      else if stage = 6 then
        map_working (\<lambda>w. if wi_blob_ref w \<noteq> [] then w\<lparr>wi_text := []\<rparr> else w) out
      else out)"

subsection \<open>Assembling\<close>

record envelope =
  en_request_line :: int
  en_header :: int
  en_budget :: int
  en_ext_bytes :: int

definition fits :: "envelope \<Rightarrow> packet_body \<Rightarrow> bool" where
  "fits en b \<longleftrightarrow> body_size b \<le> en_budget en
     \<and> en_request_line en + en_header en + body_size b \<le> MaxEnvelopeBytes"

definition assembly_of :: "envelope \<Rightarrow> nat \<Rightarrow> packet_body \<Rightarrow> string \<Rightarrow> assembly" where
  "assembly_of en stage b status =
     \<lparr>as_json = marshal_body b, as_stage = int stage,
      as_measurement = \<lparr>me_request_line = en_request_line en, me_header = en_header en,
         me_budget = en_budget en, me_body = body_size b,
         me_envelope = en_request_line en + en_header en + body_size b\<rparr>,
      as_body = b, as_ext_status = status, as_ext_bytes = en_ext_bytes en\<rparr>"

definition empty_body :: packet_body where
  "empty_body = \<lparr>pb_session = [], pb_branch = [], pb_working = None, pb_external = [],
     pb_frontier = [], pb_constraints = [], pb_debug = [], pb_provenance = [],
     pb_checkpoint_ref = [], pb_stage = 0\<rparr>"

definition empty_assembly :: assembly where
  "empty_assembly = \<lparr>as_json = [], as_stage = 0,
     as_measurement = \<lparr>me_request_line = 0, me_header = 0, me_budget = 0, me_body = 0, me_envelope = 0\<rparr>,
     as_body = empty_body, as_ext_status = [], as_ext_bytes = 0\<rparr>"

text \<open>The loop over the stages; \<open>dropped\<close> is \<open>externalContextDropped\<close>.\<close>

function assemble_loop ::
  "envelope \<Rightarrow> nat \<Rightarrow> packet_body \<Rightarrow> string \<Rightarrow> bool \<Rightarrow> assembly \<times> goerr option" where
  "assemble_loop en stage body0 status dropped =
     (if stage > 7 then (empty_assembly, Some ErrPacketRejectedBudget)
      else let body = body0\<lparr>pb_stage := int stage\<rparr> in
      if fits en body then (assembly_of en stage body status, None)
      else
        let without = (clone_body body)\<lparr>pb_external := [], pb_stage := int stage\<rparr>;
            try_drop = (pb_external body \<noteq> [] \<and> \<not> dropped) in
        if try_drop \<and> fits en without then (assembly_of en stage without ''dropped_budget'', None)
        else
          let body' = (if try_drop then without else body);
              status' = (if try_drop then ''dropped_budget'' else status);
              dropped' = (dropped \<or> try_drop) in
          if stage = 7 then (assembly_of en stage body' status', Some ErrPacketRejectedBudget)
          else assemble_loop en (stage + 1) (apply_compaction_stage body' (stage + 1)) status' dropped')"
  by pat_completeness auto
termination
  by (relation "measure (\<lambda>(en, stage, _). 8 - stage)") auto

declare assemble_loop.simps [simp del]

definition envelope_of :: "packet_request \<Rightarrow> envelope" where
  "envelope_of r =
     (let hb = measure_headers (rq_headers r); rl = request_line_bytes r;
          budget = MaxEnvelopeBytes - SafetyMarginBytes - rl - hb in
      \<lparr>en_request_line = rl, en_header = hb, en_budget = (if budget < 0 then 0 else budget),
       en_ext_bytes = int (length (pb_external (rq_body r)))\<rparr>)"

definition assemble :: "packet_request \<Rightarrow> assembly \<times> goerr option" where
  "assemble req =
     (let r = normalize_request req in
      assemble_loop (envelope_of r) 0 (rq_body r)
        (if pb_external (rq_body r) \<noteq> [] then ''included'' else ''omitted'') False)"

definition BodyContainsText :: "string \<Rightarrow> string \<Rightarrow> bool" where
  "BodyContainsText payload text = sublist text payload"

subsection \<open>The loop keeps invariants and ends\<close>

lemma assemble_loop_inv:
  assumes "assemble_loop en stage b st d = (a, err)" and "stage \<le> 7" and "R stage b st d"
    and mark: "\<And>k i b st d. R k b st d \<Longrightarrow> R k (b\<lparr>pb_stage := i\<rparr>) st d"
    and drop: "\<And>k i b st d. R k b st d \<Longrightarrow> pb_external b \<noteq> [] \<Longrightarrow>
                 R k ((clone_body b)\<lparr>pb_external := [], pb_stage := i\<rparr>) ''dropped_budget'' True"
    and compact: "\<And>k b st d. R k b st d \<Longrightarrow> R (Suc k) (apply_compaction_stage b (Suc k)) st d"
  shows "\<exists>k b' st' d'. k \<le> 7 \<and> a = assembly_of en k b' st' \<and> pb_stage b' = int k
    \<and> R k b' st' d'
    \<and> (err = None \<and> fits en b'
       \<or> err = Some ErrPacketRejectedBudget \<and> k = 7 \<and> \<not> fits en b' \<and> (pb_external b' \<noteq> [] \<longrightarrow> d'))"
  using assms(1-3)
proof (induction en stage b st d rule: assemble_loop.induct)
  case (1 en stage b st d)
  define body where "body = b\<lparr>pb_stage := int stage\<rparr>"
  define without where "without = (clone_body body)\<lparr>pb_external := [], pb_stage := int stage\<rparr>"
  define try_drop where "try_drop = (pb_external body \<noteq> [] \<and> \<not> d)"
  define body' where "body' = (if try_drop then without else body)"
  define st' where "st' = (if try_drop then ''dropped_budget'' else st)"
  have Rb: "R stage body st d" unfolding body_def using 1(4) by (rule mark)
  have Rw: "R stage without ''dropped_budget'' True" if try_drop
    unfolding without_def using that by (intro drop [OF Rb]) (simp add: try_drop_def)
  have R': "R stage body' st' (d \<or> try_drop)"
    using Rb Rw by (cases try_drop) (simp_all add: body'_def st'_def)
  have stages: "pb_stage body = int stage" "pb_stage without = int stage" "pb_stage body' = int stage"
    by (simp_all add: body_def without_def body'_def)
  have eq: "assemble_loop en stage b st d =
      (if fits en body then (assembly_of en stage body st, None)
       else if try_drop \<and> fits en without then (assembly_of en stage without ''dropped_budget'', None)
       else if stage = 7 then (assembly_of en stage body' st', Some ErrPacketRejectedBudget)
       else assemble_loop en (stage + 1) (apply_compaction_stage body' (stage + 1)) st' (d \<or> try_drop))"
    using 1(3) unfolding assemble_loop.simps [of en stage] Let_def body_def [symmetric]
      without_def [symmetric] try_drop_def [symmetric] body'_def [symmetric] st'_def [symmetric]
    by simp
  consider (fit) "fits en body" | (dropped) "\<not> fits en body" "try_drop" "fits en without"
    | (reject) "\<not> fits en body" "\<not> (try_drop \<and> fits en without)" "stage = 7"
    | (more) "\<not> fits en body" "\<not> (try_drop \<and> fits en without)" "stage < 7"
    using 1(3) by linarith
  then show ?case
  proof cases
    case fit
    with eq 1(2,3) Rb stages show ?thesis by auto
  next
    case dropped
    with eq 1(2,3) Rw stages show ?thesis by auto
  next
    case reject
    then have "\<not> fits en body'" "pb_external body' \<noteq> [] \<longrightarrow> d \<or> try_drop"
      by (auto simp: body'_def try_drop_def)
    with reject eq 1(2) R' stages show ?thesis
      by (intro exI [of _ stage] exI [of _ body'] exI [of _ st'] exI [of _ "d \<or> try_drop"]) auto
  next
    case more
    have call: "assemble_loop en (stage + 1) (apply_compaction_stage body' (stage + 1)) st' (d \<or> try_drop) = (a, err)"
      using 1(2) eq more by simp
    show ?thesis
      using more compact [OF R']
      by (intro 1(1) [OF _ body_def more(1) without_def try_drop_def more(2) body'_def st'_def refl _ call])
         simp_all
  qed
qed

lemma body_size_pos: "2 \<le> body_size b"
proof -
  have "2 \<le> length (json_print (JObject fs))" for fs
    unfolding length_print_object by simp
  then have "2 \<le> length (marshal_body b)"
    unfolding marshal_body_def packet_body_json_def .
  then show ?thesis by (simp add: body_size_def)
qed

lemma envelope_of_simps [simp]:
  "en_request_line (envelope_of r) = request_line_bytes r"
  "en_header (envelope_of r) = measure_headers (rq_headers r)"
  "en_ext_bytes (envelope_of r) = int (length (pb_external (rq_body r)))"
  by (simp_all add: envelope_of_def Let_def)

lemma envelope_budget:
  "en_budget (envelope_of r) = max 0 (MaxEnvelopeBytes - SafetyMarginBytes
     - en_request_line (envelope_of r) - en_header (envelope_of r))"
  by (simp add: envelope_of_def Let_def max_def)

text \<open>A body that fits leaves the whole safety margin free, since no body is empty.\<close>

lemma fits_margin:
  "fits (envelope_of r) b \<longleftrightarrow>
     en_request_line (envelope_of r) + en_header (envelope_of r) + body_size b
       \<le> MaxEnvelopeBytes - SafetyMarginBytes"
  using body_size_pos [of b] envelope_budget [of r]
  by (auto simp: fits_def assembler_limits max_def split: if_splits)

text \<open>
  C4. An accepted packet never exceeds its envelope: request line, headers and body together leave
  the safety margin of 768 bytes free below 14336, and the reported measurement is the length of
  the very bytes that are sent. A packet is rejected only after the last stage, with the body that
  was measured then, and that body really does not fit.
\<close>

theorem assemble_within_envelope:
  assumes "assemble req = (a, err)"
  shows "as_json a = marshal_body (as_body a)
    \<and> me_body (as_measurement a) = int (length (as_json a))
    \<and> me_envelope (as_measurement a) =
        request_line_bytes (normalize_request req) + measure_headers (rq_headers (normalize_request req))
        + int (length (as_json a))
    \<and> as_stage a = pb_stage (as_body a) \<and> 0 \<le> as_stage a \<and> as_stage a \<le> 7
    \<and> (err = None \<longrightarrow> me_envelope (as_measurement a) \<le> 14336 - 768)
    \<and> (err \<noteq> None \<longrightarrow> err = Some ErrPacketRejectedBudget \<and> as_stage a = 7
         \<and> me_envelope (as_measurement a) > 14336 - 768)"
proof -
  let ?r = "normalize_request req"
  obtain st where "assemble_loop (envelope_of ?r) 0 (rq_body ?r) st False = (a, err)"
    using assms by (auto simp: assemble_def Let_def)
  from assemble_loop_inv [OF this, of "\<lambda>_ _ _ _. True"]
  obtain k b' st' where k: "k \<le> 7" "a = assembly_of (envelope_of ?r) k b' st'" "pb_stage b' = int k"
      "err = None \<and> fits (envelope_of ?r) b'
       \<or> err = Some ErrPacketRejectedBudget \<and> k = 7 \<and> \<not> fits (envelope_of ?r) b'"
    by auto
  then show ?thesis
    by (auto simp: assembly_of_def body_size_def fits_margin assembler_limits)
qed

subsection \<open>What stays out of a packet\<close>

text \<open>The limits on inlined data that \<open>normalizeRequest\<close> sets up.\<close>

definition item_limited :: "working_item \<Rightarrow> bool" where
  "item_limited w \<longleftrightarrow> (wi_blob_ref w \<noteq> [] \<longrightarrow> length (wi_text w) \<le> LargeTextInlineThresholdBytes)
     \<and> (wi_kind w = ''tool.result'' \<longrightarrow>
          length (wi_text w) \<le> ToolResultExcerptBytes \<and> (wi_summary_ref w \<noteq> [] \<longrightarrow> wi_text w = []))"

definition body_limited :: "packet_body \<Rightarrow> bool" where
  "body_limited b \<longleftrightarrow> list_all item_limited (working b)"

lemma item_limited_normalize [simp]: "item_limited (normalize_item w)"
  by (simp add: item_limited_def normalize_item_def normalize_tool_result_def assembler_limits Let_def)

lemma item_limited_shorter:
  "item_limited w \<Longrightarrow> item_limited (w\<lparr>wi_text := []\<rparr>)" "item_limited (w\<lparr>wi_provenance := p\<rparr>) = item_limited w"
  by (simp_all add: item_limited_def)

lemma working_simps [simp]:
  "working (clone_body b) = working b"
  "working (map_working f b) = map f (working b)"
  "working (b\<lparr>pb_working := Some ws\<rparr>) = ws"
  "working (b\<lparr>pb_stage := i\<rparr>) = working b"
  "working (b\<lparr>pb_external := x\<rparr>) = working b"
  "working (b\<lparr>pb_debug := xs\<rparr>) = working b"
  "working (b\<lparr>pb_provenance := xs\<rparr>) = working b"
  by (auto simp: working_def clone_body_def map_working_def split: option.splits)

lemma body_fields_simps [simp]:
  "pb_external (clone_body b) = pb_external b" "pb_external (map_working f b) = pb_external b"
  "pb_debug (clone_body b) = pb_debug b" "pb_debug (map_working f b) = pb_debug b"
  "pb_provenance (clone_body b) = pb_provenance b" "pb_provenance (map_working f b) = pb_provenance b"
  by (simp_all add: clone_body_def map_working_def)

lemma newest_item_mem: "ws \<noteq> [] \<Longrightarrow> newest_item ws \<in> set ws"
proof -
  have "foldl (\<lambda>n w. if wi_ordinal w > wi_ordinal n then w else n) n ws \<in> insert n (set ws)" for n ws
  proof (induction ws arbitrary: n)
    case (Cons v ws)
    show ?case using Cons.IH [of v] Cons.IH [of n] by auto
  qed simp
  from this [of "hd ws" "tl ws"] show "ws \<noteq> [] \<Longrightarrow> ?thesis"
    unfolding newest_item_def by (cases ws) simp_all
qed

lemma newest_item_mem_long: "Suc 0 < length ws \<Longrightarrow> newest_item ws \<in> set ws"
  by (rule newest_item_mem) auto

lemma newest_item_max: "w \<in> set ws \<Longrightarrow> wi_ordinal w \<le> wi_ordinal (newest_item ws)"
proof -
  have "\<forall>w \<in> insert n (set ws). wi_ordinal w \<le>
      wi_ordinal (foldl (\<lambda>n w. if wi_ordinal w > wi_ordinal n then w else n) n ws)" for n ws
  proof (induction ws arbitrary: n)
    case (Cons v ws)
    let ?m = "if wi_ordinal v > wi_ordinal n then v else n"
    have "wi_ordinal n \<le> wi_ordinal ?m" "wi_ordinal v \<le> wi_ordinal ?m" by simp_all
    with Cons.IH [of ?m] show ?case by (auto simp only: foldl_Cons list.set ball_simps intro: order_trans)
  qed simp
  from this [of "hd ws" "tl ws"] show "w \<in> set ws \<Longrightarrow> ?thesis"
    unfolding newest_item_def by (cases ws) auto
qed

lemma body_limited_compact: "body_limited b \<Longrightarrow> body_limited (apply_compaction_stage b k)"
  using newest_item_mem_long [of "working b"]
  by (auto simp: body_limited_def apply_compaction_stage_def Let_def list_all_iff item_limited_shorter)
     (auto simp: item_limited_def checkpoint_item_def)

lemma external_compact [simp]: "pb_external (apply_compaction_stage b k) = pb_external b"
  by (simp add: apply_compaction_stage_def Let_def)

lemma body_limited_normalize: "body_limited (rq_body (normalize_request req))"
  by (simp add: normalize_request_def Let_def body_limited_def list_all_iff)

text \<open>
  Whatever the stage at which assembly stops, accepted or rejected, the packet inlines no large
  text that has a blob reference, at most 256 bytes of a tool result, and nothing of a tool result
  that has a summary reference.
\<close>

theorem assemble_limits_inlined_text:
  "list_all item_limited (working (as_body (fst (assemble req))))"
proof -
  obtain a err where a: "assemble req = (a, err)" by fastforce
  let ?r = "normalize_request req"
  obtain st where "assemble_loop (envelope_of ?r) 0 (rq_body ?r) st False = (a, err)"
    using a by (auto simp: assemble_def Let_def)
  from assemble_loop_inv [OF this, of "\<lambda>_ b _ _. body_limited b"]
  obtain k b' st' where "a = assembly_of (envelope_of ?r) k b' st'" "body_limited b'"
    using body_limited_normalize body_limited_compact by (auto simp: body_limited_def)
  with a show ?thesis by (simp add: assembly_of_def body_limited_def)
qed

subsection \<open>The external context\<close>

text \<open>
  The external context is sent whole, left out, or dropped, as the status says: it is dropped
  exactly when the normalised packet does not fit together with it, and it is never cut.
\<close>

theorem assemble_external_context:
  fixes req :: packet_request
  defines "ext \<equiv> trim_space (pb_external (rq_body req))"
  defines "r \<equiv> normalize_request req"
  shows "as_ext_status (fst (assemble req)) =
      (if ext = [] then ''omitted''
       else if fits (envelope_of r) ((rq_body r)\<lparr>pb_stage := 0\<rparr>) then ''included'' else ''dropped_budget'')
    \<and> pb_external (as_body (fst (assemble req))) =
      (if as_ext_status (fst (assemble req)) = ''included'' then ext else [])
    \<and> as_ext_bytes (fst (assemble req)) = int (length ext)"
proof -
  let ?en = "envelope_of r" and ?b = "(rq_body r)\<lparr>pb_stage := 0\<rparr>"
  have ext: "pb_external (rq_body r) = ext"
    by (simp add: r_def ext_def normalize_request_def Let_def)
  show ?thesis
  proof (cases "fits ?en ?b")
    case True
    then have "assemble req = (assembly_of ?en 0 ?b (if ext \<noteq> [] then ''included'' else ''omitted''), None)"
      by (simp add: assemble_def Let_def ext assemble_loop.simps [of _ 0] flip: r_def)
    with True show ?thesis by (simp add: assembly_of_def ext)
  next
    case False
    obtain a err where a: "assemble req = (a, err)" by fastforce
    show ?thesis
    proof (cases "ext = []")
      case True
      have "assemble_loop ?en 0 (rq_body r) ''omitted'' False = (a, err)"
        using a True by (simp add: assemble_def Let_def ext flip: r_def)
      from assemble_loop_inv [OF this, of "\<lambda>_ b st _. st = ''omitted'' \<and> pb_external b = []"]
      obtain k b' where "a = assembly_of ?en k b' ''omitted''" "pb_external b' = []"
        using True by (auto simp: ext)
      with a True ext show ?thesis by (simp add: assembly_of_def)
    next
      case ne: False
      let ?w = "(clone_body ?b)\<lparr>pb_external := [], pb_stage := 0\<rparr>"
      have step: "assemble req = (if fits ?en ?w then (assembly_of ?en 0 ?w ''dropped_budget'', None)
          else assemble_loop ?en 1 (apply_compaction_stage ?w 1) ''dropped_budget'' True)"
        using False ne by (simp add: assemble_def Let_def ext assemble_loop.simps [of _ 0] flip: r_def)
      have "\<exists>k b'. a = assembly_of ?en k b' ''dropped_budget'' \<and> pb_external b' = []"
      proof (cases "fits ?en ?w")
        case True
        with step a show ?thesis by (intro exI [of _ 0] exI [of _ ?w]) simp
      next
        case no: False
        then have "assemble_loop ?en 1 (apply_compaction_stage ?w 1) ''dropped_budget'' True = (a, err)"
          using step a by simp
        from assemble_loop_inv [OF this, of "\<lambda>_ b st _. st = ''dropped_budget'' \<and> pb_external b = []"]
        show ?thesis by auto
      qed
      with a False ne ext show ?thesis by (auto simp: assembly_of_def)
    qed
  qed
qed

subsection \<open>Every stage is tried before a packet is rejected\<close>

definition stage_done :: "nat \<Rightarrow> packet_body \<Rightarrow> bool" where
  "stage_done k b \<longleftrightarrow>
     (1 \<le> k \<longrightarrow> pb_debug b = []) \<and> (2 \<le> k \<longrightarrow> pb_provenance b = [])
     \<and> (3 \<le> k \<longrightarrow> list_all (\<lambda>w. wi_summary_ref w \<noteq> [] \<longrightarrow> wi_text w = []) (working b))
     \<and> (5 \<le> k \<longrightarrow> length (working b) \<le> 1)
     \<and> (6 \<le> k \<longrightarrow> list_all (\<lambda>w. wi_blob_ref w \<noteq> [] \<longrightarrow> wi_text w = []) (working b))"

lemma stage_done_compact: "stage_done k b \<Longrightarrow> stage_done (Suc k) (apply_compaction_stage b (Suc k))"
proof -
  assume d: "stage_done k b"
  consider "k = 0" | "k = 1" | "k = 2" | "k = 3" | "k = 4" | "k = 5" | "k \<ge> 6" by linarith
  then show ?thesis
    using d newest_item_mem_long [of "working b"]
    by cases (auto simp: stage_done_def apply_compaction_stage_def Let_def list_all_iff checkpoint_item_def)
qed

text \<open>
  A packet is rejected only when nothing of the compaction is left to do: the rejected body has
  no debug lines, no provenance list and no external context, at most one working item, and no text
  in it that a summary or a blob reference could stand for.
\<close>

theorem assemble_rejects_only_compacted:
  assumes "assemble req = (a, Some err)"
  shows "pb_debug (as_body a) = [] \<and> pb_provenance (as_body a) = [] \<and> pb_external (as_body a) = []
    \<and> length (working (as_body a)) \<le> 1
    \<and> list_all (\<lambda>w. wi_summary_ref w \<noteq> [] \<or> wi_blob_ref w \<noteq> [] \<longrightarrow> wi_text w = []) (working (as_body a))"
proof -
  let ?r = "normalize_request req"
  obtain st where "assemble_loop (envelope_of ?r) 0 (rq_body ?r) st False = (a, Some err)"
    using assms by (auto simp: assemble_def Let_def)
  from assemble_loop_inv [OF this, of "\<lambda>k b _ d. stage_done k b \<and> (d \<longrightarrow> pb_external b = [])"]
  obtain b' st' where "a = assembly_of (envelope_of ?r) 7 b' st'" "stage_done 7 b'"
      "pb_external b' = []"
    using stage_done_compact by (auto simp: stage_done_def)
  then show ?thesis by (auto simp: assembly_of_def stage_done_def list_all_iff)
qed

subsection \<open>The packet does not depend on the order of its parts\<close>

lemma header_less_key: "header_less = (\<lambda>a b. (hd_name a, hd_value a) < (hd_name b, hd_value b))"
  by (intro ext) (auto simp: header_less_def less_prod_def)

lemma packet_constraint_less_key:
  "packet_constraint_less = (\<lambda>a b. (co_name a, co_value a) < (co_name b, co_value b))"
  by (intro ext) (auto simp: packet_constraint_less_def less_prod_def)

lemma working_less_key: "working_less = (\<lambda>a b. (wi_ordinal a, wi_id a) < (wi_ordinal b, wi_id b))"
  by (intro ext) (auto simp: working_less_def less_prod_def)

lemma go_sort_header_perm: "mset xs = mset ys \<Longrightarrow> go_sort header_less xs = go_sort header_less ys"
  unfolding header_less_key go_sort_key_eq by (rule sort_key_unique) (auto simp: inj_on_def)

lemma go_sort_constraint_perm:
  "mset xs = mset ys \<Longrightarrow> go_sort packet_constraint_less xs = go_sort packet_constraint_less ys"
  unfolding packet_constraint_less_key go_sort_key_eq by (rule sort_key_unique) (auto simp: inj_on_def)

lemma go_sort_working_perm:
  "mset xs = mset ys \<Longrightarrow> inj_on (\<lambda>w. (wi_ordinal w, wi_id w)) (set xs) \<Longrightarrow>
     go_sort working_less xs = go_sort working_less ys"
  unfolding working_less_key go_sort_key_eq by (rule sort_key_unique)

text \<open>
  Assembly is deterministic: the order in which headers, working items, frontier entries,
  constraints, debug lines and provenance entries arrive changes neither the bytes sent nor the
  verdict, as long as no two working items share both ordinal and identifier.
\<close>

theorem assemble_order_independent:
  assumes "mset hs = mset hs'" and "mset ws = mset ws'" and "mset fr = mset fr'"
    and "mset cs = mset cs'" and "mset ds = mset ds'" and "mset ps = mset ps'"
    and "inj_on (\<lambda>w. (wi_ordinal w, wi_id w)) (set ws)"
  shows "assemble (req\<lparr>rq_headers := hs, rq_body := (rq_body req)\<lparr>pb_working := Some ws,
      pb_frontier := fr, pb_constraints := cs, pb_debug := ds, pb_provenance := ps\<rparr>\<rparr>) =
    assemble (req\<lparr>rq_headers := hs', rq_body := (rq_body req)\<lparr>pb_working := Some ws',
      pb_frontier := fr', pb_constraints := cs', pb_debug := ds', pb_provenance := ps'\<rparr>\<rparr>)"
proof -
  have "ws = [] \<longleftrightarrow> ws' = []" using assms(2) by (metis mset_zero_iff)
  then show ?thesis
    using go_sort_header_perm [OF assms(1)] go_sort_working_perm [OF assms(2,7)]
      sort_strings_perm [OF assms(3)] go_sort_constraint_perm [OF assms(4)]
      sort_strings_perm [OF assms(5)] sort_strings_perm [OF assms(6)]
    by (simp add: assemble_def normalize_request_def clone_body_def working_def Let_def)
qed

subsection \<open>Instances\<close>

definition sample_item :: "string \<Rightarrow> int \<Rightarrow> working_item" where
  "sample_item i n = \<lparr>wi_id = i, wi_kind = ''turn.user'', wi_text = ''hello'', wi_summary_ref = [],
     wi_blob_ref = [], wi_ordinal = n, wi_provenance = [], wi_prov_required = False\<rparr>"

definition sample_request :: packet_request where
  "sample_request = \<lparr>rq_method = ''POST'', rq_path = ''/v1/responses'', rq_headers = [],
     rq_body = empty_body\<rparr>"

definition huge_request :: packet_request where
  "huge_request = sample_request\<lparr>rq_headers := [\<lparr>hd_name = ''X'', hd_value = replicate 14000 (CHR ''a'')\<rparr>]\<rparr>"

lemma huge_request_rejected: "\<exists>a err. assemble huge_request = (a, Some err)"
proof -
  obtain a err where a: "assemble huge_request = (a, err)" by fastforce
  let ?r = "normalize_request huge_request"
  have "measure_headers (rq_headers ?r) = 14007"
    by (simp add: normalize_request_def huge_request_def go_sort_def measure_headers_def Let_def)
  moreover have "0 \<le> request_line_bytes ?r" by (simp add: request_line_bytes_def)
  ultimately have no: "\<not> fits (envelope_of ?r) b" for b
    using body_size_pos [of b] by (simp add: fits_margin assembler_limits)
  obtain st where "assemble_loop (envelope_of ?r) 0 (rq_body ?r) st False = (a, err)"
    using a by (auto simp: assemble_def Let_def)
  from assemble_loop_inv [OF this, of "\<lambda>_ _ _ _. True"] no a show ?thesis by auto
qed

theorem assemble_rejects_only_compacted_witness:
  "\<exists>a err. assemble huge_request = (a, Some err) \<and> pb_external (as_body a) = []
     \<and> length (working (as_body a)) \<le> 1"
  using huge_request_rejected assemble_rejects_only_compacted by blast

theorem assemble_within_envelope_witness:
  "\<exists>a err. assemble huge_request = (a, err) \<and> me_body (as_measurement a) = int (length (as_json a))"
  using huge_request_rejected assemble_within_envelope by blast

theorem assemble_order_independent_witness:
  "assemble (sample_request\<lparr>rq_headers := [], rq_body := (rq_body sample_request)\<lparr>
      pb_working := Some [sample_item ''a'' 1, sample_item ''b'' 2], pb_frontier := [''x'', ''y''],
      pb_constraints := [], pb_debug := [], pb_provenance := []\<rparr>\<rparr>) =
   assemble (sample_request\<lparr>rq_headers := [], rq_body := (rq_body sample_request)\<lparr>
      pb_working := Some [sample_item ''b'' 2, sample_item ''a'' 1], pb_frontier := [''y'', ''x''],
      pb_constraints := [], pb_debug := [], pb_provenance := []\<rparr>\<rparr>)"
  by (rule assemble_order_independent) (simp_all add: add_mset_commute sample_item_def)

end
