(* ===== verification/Branchdag.thy ===== *)
theory Branchdag
  imports Prelude "HOL-Library.AList"
begin

text \<open>
  Packages \<open>internal/branchdag\<close> and \<open>internal/summaries\<close>: branches are pointers (a head event, a
  summary basis and the dirty range since then), never copies of a transcript. A graph is the Go
  map from branch identifiers to branches, as an association list. Every operation returns its
  result and the graph it leaves.
\<close>

subsection \<open>Branches\<close>

record dirty_range =
  dr_start :: string
  dr_end :: string

record branch =
  br_id :: string
  br_parent :: string
  br_fork_event :: string
  br_head :: string
  br_base_summary :: string
  br_dirty :: "dirty_range list"
  br_score :: rat
  br_hint :: string

definition ErrInvalidBranch :: goerr where
  "ErrInvalidBranch = Sentinel ''branchdag.ErrInvalidBranch'' ''invalid branch''"
definition ErrBranchExists :: goerr where
  "ErrBranchExists = Sentinel ''branchdag.ErrBranchExists'' ''branch already exists''"
definition ErrBranchNotFound :: goerr where
  "ErrBranchNotFound = Sentinel ''branchdag.ErrBranchNotFound'' ''branch not found''"
definition ErrInvalidEventID :: goerr where
  "ErrInvalidEventID = Sentinel ''branchdag.ErrInvalidEventID'' ''invalid event id''"
definition ErrInvalidParentRef :: goerr where
  "ErrInvalidParentRef =
     Sentinel ''branchdag.ErrInvalidParentRef'' ''invalid parent branch reference''"

lemmas branch_errs =
  ErrInvalidBranch_def ErrBranchExists_def ErrBranchNotFound_def ErrInvalidEventID_def
  ErrInvalidParentRef_def

definition empty_branch :: branch where
  "empty_branch = \<lparr>br_id = [], br_parent = [], br_fork_event = [], br_head = [],
     br_base_summary = [], br_dirty = [], br_score = 0, br_hint = []\<rparr>"

definition branch_validate :: "branch \<Rightarrow> goerr option" where
  "branch_validate b =
     (if br_id b = [] then Some ErrInvalidBranch
      else if list_ex (\<lambda>r. dr_start r = [] \<or> dr_end r = []) (br_dirty b)
        then Some ErrInvalidBranch
      else None)"

definition append_to_branch :: "branch \<Rightarrow> string \<Rightarrow> branch result" where
  "append_to_branch b eid =
     (if eid = [] then Inl ErrInvalidEventID
      else case branch_validate b of Some err \<Rightarrow> Inl err | None \<Rightarrow>
      let dirty = (if br_dirty b = [] then [\<lparr>dr_start = eid, dr_end = eid\<rparr>]
                   else (br_dirty b)[length (br_dirty b) - 1 := (last (br_dirty b))\<lparr>dr_end := eid\<rparr>])
      in Inr (b\<lparr>br_dirty := dirty, br_head := eid\<rparr>))"

subsection \<open>The graph\<close>

type_synonym graph = "(string \<times> branch) list"

definition new_graph :: graph where
  "new_graph = []"

definition create_branch :: "branch \<Rightarrow> graph \<Rightarrow> branch result \<times> graph" where
  "create_branch b g =
     (case branch_validate b of Some err \<Rightarrow> (Inl err, g) | None \<Rightarrow>
      if map_of g (br_id b) \<noteq> None then (Inl ErrBranchExists, g)
      else (Inr b, AList.update (br_id b) b g))"

definition fork_branch :: "string \<Rightarrow> string \<Rightarrow> string \<Rightarrow> graph \<Rightarrow> branch result \<times> graph" where
  "fork_branch child parent fork_event g =
     (if child = [] \<or> parent = [] then (Inl ErrInvalidBranch, g)
      else if map_of g child \<noteq> None then (Inl ErrBranchExists, g)
      else case map_of g parent of None \<Rightarrow> (Inl ErrInvalidParentRef, g) | Some p \<Rightarrow>
      let c = empty_branch\<lparr>br_id := child, br_parent := parent, br_fork_event := fork_event,
                br_head := br_head p, br_base_summary := br_base_summary p,
                br_dirty := br_dirty p, br_score := br_score p\<rparr>
      in (Inr c, AList.update child c g))"

definition append_event :: "string \<Rightarrow> string \<Rightarrow> graph \<Rightarrow> branch result \<times> graph" where
  "append_event bid eid g =
     (case map_of g bid of None \<Rightarrow> (Inl ErrBranchNotFound, g) | Some b \<Rightarrow>
      case append_to_branch b eid of Inl err \<Rightarrow> (Inl err, g) | Inr b' \<Rightarrow>
      (Inr b', AList.update bid b' g))"

definition set_base_summary :: "string \<Rightarrow> string \<Rightarrow> graph \<Rightarrow> branch result \<times> graph" where
  "set_base_summary bid sid g =
     (case map_of g bid of None \<Rightarrow> (Inl ErrBranchNotFound, g) | Some b \<Rightarrow>
      let b' = b\<lparr>br_base_summary := sid\<rparr> in (Inr b', AList.update bid b' g))"

definition rebase_on_summary :: "string \<Rightarrow> string \<Rightarrow> string \<Rightarrow> graph \<Rightarrow> branch result \<times> graph" where
  "rebase_on_summary bid sid basis g =
     (case map_of g bid of None \<Rightarrow> (Inl ErrBranchNotFound, g) | Some b \<Rightarrow>
      let b1 = b\<lparr>br_base_summary := sid\<rparr>;
          b2 = (if basis \<noteq> [] then b1\<lparr>br_head := basis\<rparr> else b1);
          b3 = b2\<lparr>br_dirty := []\<rparr>
      in (Inr b3, AList.update bid b3 g))"

definition get_branch :: "string \<Rightarrow> graph \<Rightarrow> branch result" where
  "get_branch bid g = (case map_of g bid of None \<Rightarrow> Inl ErrBranchNotFound | Some b \<Rightarrow> Inr b)"

definition list_branches :: "graph \<Rightarrow> branch list" where
  "list_branches g = map (\<lambda>k. the (map_of g k)) (sort_strings (map fst g))"

lemmas graph_ops_defs =
  create_branch_def fork_branch_def append_event_def set_base_summary_def rebase_on_summary_def
  get_branch_def Let_def

subsection \<open>The invariant of a graph\<close>

text \<open>
  Keys are distinct and are the identifiers of their branches, and every branch has a valid shape:
  a non-empty identifier and at most one dirty range, which ends at the branch's head.
\<close>

definition branch_ok :: "branch \<Rightarrow> bool" where
  "branch_ok b \<longleftrightarrow> br_id b \<noteq> [] \<and>
     (br_dirty b = [] \<or>
      (\<exists>r. br_dirty b = [r] \<and> dr_start r \<noteq> [] \<and> dr_end r \<noteq> [] \<and> dr_end r = br_head b))"

definition graph_ok :: "graph \<Rightarrow> bool" where
  "graph_ok g \<longleftrightarrow> distinct (map fst g) \<and>
     (\<forall>k b. map_of g k = Some b \<longrightarrow> br_id b = k \<and> branch_ok b)"

lemma branch_ok_validate: "branch_ok b \<Longrightarrow> branch_validate b = None"
  by (auto simp: branch_ok_def branch_validate_def)

lemma graph_ok_new [simp]: "graph_ok new_graph"
  by (simp add: graph_ok_def new_graph_def)

lemma graph_ok_update:
  "graph_ok g \<Longrightarrow> branch_ok b \<Longrightarrow> br_id b = k \<Longrightarrow> graph_ok (AList.update k b g)"
  by (auto simp: graph_ok_def update_conv' distinct_update)

lemma graph_okD: "graph_ok g \<Longrightarrow> map_of g k = Some b \<Longrightarrow> br_id b = k \<and> branch_ok b"
  by (simp add: graph_ok_def)

lemma append_to_branch_ok:
  assumes "branch_ok b" and "eid \<noteq> []"
  obtains b' where "append_to_branch b eid = Inr b'" "branch_ok b'" "br_id b' = br_id b"
    "br_head b' = eid" "br_base_summary b' = br_base_summary b" "br_parent b' = br_parent b"
    "br_dirty b' = [\<lparr>dr_start = (if br_dirty b = [] then eid else dr_start (hd (br_dirty b))),
                     dr_end = eid\<rparr>]"
proof -
  have v: "branch_validate b = None" using assms(1) by (rule branch_ok_validate)
  show thesis
  proof (cases "br_dirty b")
    case Nil
    with v assms show thesis
      by (intro that [of "b\<lparr>br_dirty := [\<lparr>dr_start = eid, dr_end = eid\<rparr>], br_head := eid\<rparr>"])
         (simp_all add: append_to_branch_def branch_ok_def)
  next
    case (Cons r rs)
    with assms(1) have "rs = []" by (auto simp: branch_ok_def)
    with Cons v assms show thesis
      by (intro that [of "b\<lparr>br_dirty := [r\<lparr>dr_end := eid\<rparr>], br_head := eid\<rparr>"])
         (auto simp: append_to_branch_def branch_ok_def)
  qed
qed

lemma create_branch_ok [go_inv]:
  "graph_ok g \<Longrightarrow> branch_ok b \<Longrightarrow> graph_ok (snd (create_branch b g))"
  by (auto simp: create_branch_def intro: graph_ok_update split: option.splits)

lemma fork_branch_ok [go_inv]: "graph_ok g \<Longrightarrow> graph_ok (snd (fork_branch c p e g))"
  by (auto simp: fork_branch_def Let_def branch_ok_def empty_branch_def dest: graph_okD
      intro!: graph_ok_update split: option.splits)

lemma append_event_ok [go_inv]:
  assumes "graph_ok g"
  shows "graph_ok (snd (append_event bid eid g))"
proof (cases "map_of g bid")
  case (Some b)
  with assms have b: "branch_ok b" "br_id b = bid" by (auto dest: graph_okD)
  show ?thesis
  proof (cases "eid = []")
    case True
    with Some assms show ?thesis by (simp add: append_event_def append_to_branch_def)
  next
    case False
    then obtain b' where "append_to_branch b eid = Inr b'" "branch_ok b'" "br_id b' = br_id b"
      using append_to_branch_ok [OF b(1)] by metis
    with Some b(2) assms show ?thesis by (simp add: append_event_def graph_ok_update)
  qed
qed (simp add: append_event_def assms)

lemma set_base_summary_ok [go_inv]:
  assumes "graph_ok g"
  shows "graph_ok (snd (set_base_summary bid sid g))"
proof (cases "map_of g bid")
  case (Some b)
  with graph_okD [OF assms Some] assms show ?thesis
    by (auto simp: set_base_summary_def Let_def branch_ok_def intro!: graph_ok_update)
qed (simp add: set_base_summary_def assms)

lemma rebase_on_summary_ok [go_inv]:
  assumes "graph_ok g"
  shows "graph_ok (snd (rebase_on_summary bid sid e g))"
proof (cases "map_of g bid")
  case (Some b)
  with graph_okD [OF assms Some] assms show ?thesis
    by (auto simp: rebase_on_summary_def Let_def branch_ok_def intro!: graph_ok_update)
qed (simp add: rebase_on_summary_def assms)

text \<open>A fork changes no existing branch and starts at the parent's head.\<close>

lemma fork_branch_spec:
  assumes "child \<noteq> []" "parent \<noteq> []" "map_of g child = None" "map_of g parent = Some p"
  shows "\<exists>c. fst (fork_branch child parent e g) = Inr c
    \<and> map_of (snd (fork_branch child parent e g)) = (map_of g)(child \<mapsto> c)
    \<and> br_id c = child \<and> br_parent c = parent \<and> br_fork_event c = e \<and> br_head c = br_head p
    \<and> br_base_summary c = br_base_summary p \<and> br_dirty c = br_dirty p"
  using assms by (simp add: fork_branch_def Let_def update_conv' empty_branch_def)

lemma list_branches_set:
  "graph_ok g \<Longrightarrow> set (list_branches g) = {b. \<exists>k. map_of g k = Some b}"
proof -
  have "set (list_branches g) = (\<lambda>k. the (map_of g k)) ` dom (map_of g)"
    by (simp add: list_branches_def sort_strings_def dom_map_of_conv_image_fst)
  then show ?thesis by (force simp: dom_def)
qed

lemma list_branches_ids:
  "graph_ok g \<Longrightarrow> map br_id (list_branches g) = sort (map fst g)"
proof -
  assume ok: "graph_ok g"
  have "map br_id (list_branches g) = map (\<lambda>k. br_id (the (map_of g k))) (sort (map fst g))"
    by (simp add: list_branches_def sort_strings_eq comp_def)
  also have "\<dots> = map (\<lambda>k. k) (sort (map fst g))"
  proof (rule map_cong [OF refl])
    fix k assume "k \<in> set (sort (map fst g))"
    then obtain b where "map_of g k = Some b"
      by (metis map_of_eq_None_iff not_None_eq set_sort list.set_map)
    with ok show "br_id (the (map_of g k)) = k" by (simp add: graph_ok_def)
  qed
  finally show ?thesis by simp
qed

subsection \<open>Summary checkpoints\<close>

record covered_range =
  cr_start :: string
  cr_end :: string

record checkpoint =
  cp_summary_id :: string
  cp_branch :: string
  cp_basis :: string
  cp_covered :: covered_range
  cp_text_ref :: string
  cp_blob_ref :: string
  cp_bytes :: int
  cp_tokens :: int
  cp_freshness :: int

definition ErrInvalidCheckpoint :: goerr where
  "ErrInvalidCheckpoint =
     Sentinel ''summaries.ErrInvalidCheckpoint'' ''invalid summary checkpoint''"

definition checkpoint_validate :: "checkpoint \<Rightarrow> goerr option" where
  "checkpoint_validate c =
     (if cp_summary_id c = [] \<or> cp_branch c = [] \<or> cp_basis c = [] then Some ErrInvalidCheckpoint
      else if cr_start (cp_covered c) = [] \<or> cr_end (cp_covered c) = []
        then Some ErrInvalidCheckpoint
      else if cp_text_ref c = [] \<and> cp_blob_ref c = [] then Some ErrInvalidCheckpoint
      else if cp_bytes c < 0 \<or> cp_tokens c < 0 \<or> cp_freshness c < 0 then Some ErrInvalidCheckpoint
      else None)"

end
