(* ===== verification/Replay.thy ===== *)
theory Replay
  imports Eventlog Branchdag Consult
begin

text \<open>
  Package \<open>internal/replay\<close>: folding a session's events back into its state, its branches and its
  consult history. Nothing here writes; everything is a function of the event list.
\<close>

subsection \<open>Session state\<close>

definition ErrMixedSessionReplay :: goerr where
  "ErrMixedSessionReplay =
     Sentinel ''replay.ErrMixedSessionReplay'' ''replay input contains multiple sessions''"

definition ErrSummaryBasisNotFound :: goerr where
  "ErrSummaryBasisNotFound =
     Sentinel ''replay.ErrSummaryBasisNotFound'' ''summary basis event not found in replay input''"

record session_state =
  st_session :: string
  st_heads :: "string \<rightharpoonup> string"
  st_last :: string
  st_count :: int

definition empty_session_state :: session_state where
  "empty_session_state = \<lparr>st_session = [], st_heads = Map.empty, st_last = [], st_count = 0\<rparr>"

fun rebuild_session_loop :: "session_state \<Rightarrow> event list \<Rightarrow> session_state result" where
  "rebuild_session_loop st [] = Inr st"
| "rebuild_session_loop st (e # es) =
     (if ev_session e \<noteq> st_session st then Inl ErrMixedSessionReplay
      else case event_validate e of Some err \<Rightarrow> Inl err | None \<Rightarrow>
      rebuild_session_loop
        (st\<lparr>st_heads := (st_heads st)(ev_branch e \<mapsto> ev_id e), st_last := ev_id e,
            st_count := st_count st + 1\<rparr>) es)"

definition rebuild_session :: "event list \<Rightarrow> session_state result" where
  "rebuild_session events =
     (case events of
        [] \<Rightarrow> Inr empty_session_state
      | e # _ \<Rightarrow> rebuild_session_loop (empty_session_state\<lparr>st_session := ev_session e\<rparr>) events)"

subsection \<open>Branch state\<close>

definition ensure_branch :: "string \<Rightarrow> graph \<Rightarrow> branch result \<times> graph" where
  "ensure_branch bid g =
     (case get_branch bid g of
        Inr b \<Rightarrow> (Inr b, g)
      | Inl _ \<Rightarrow> create_branch (empty_branch\<lparr>br_id := bid\<rparr>) g)"

text \<open>The first half of the loop body: make sure the event's branch is there.\<close>

definition place_branch :: "event \<Rightarrow> graph \<Rightarrow> goerr option \<times> graph" where
  "place_branch e g =
     (if ev_kind e = KindBranchFork then
        let parent = meta_string (ev_meta e) ''parent_branch_id'' in
        if parent \<noteq> [] then
          (case ensure_branch parent g of
             (Inl err, g1) \<Rightarrow> (Some err, g1)
           | (Inr _, g1) \<Rightarrow>
             (case fork_branch (ev_branch e) parent (ev_parent e) g1 of
                (Inl err, g2) \<Rightarrow>
                  (if \<not> errors_is err ErrBranchExists then (Some err, g2) else (None, g2))
              | (Inr _, g2) \<Rightarrow> (None, g2)))
        else
          (case ensure_branch (ev_branch e) g of (Inl err, g1) \<Rightarrow> (Some err, g1) | (Inr _, g1) \<Rightarrow> (None, g1))
      else
        (case ensure_branch (ev_branch e) g of (Inl err, g1) \<Rightarrow> (Some err, g1) | (Inr _, g1) \<Rightarrow> (None, g1)))"

text \<open>The second half: checkpoint, append, rebase.\<close>

definition record_event :: "event \<Rightarrow> graph \<Rightarrow> goerr option \<times> graph" where
  "record_event e g =
     (if ev_kind e = KindSummaryCheckpoint then
        let sid = meta_string (ev_meta e) ''summary_id'' in
        if sid \<noteq> [] then
          (case set_base_summary (ev_branch e) sid g of
             (Inl err, g1) \<Rightarrow> (Some err, g1) | (Inr _, g1) \<Rightarrow> (None, g1))
        else (None, g)
      else
        (case append_event (ev_branch e) (ev_id e) g of
           (Inl err, g1) \<Rightarrow> (Some err, g1)
         | (Inr _, g1) \<Rightarrow>
           if ev_kind e = KindSummaryRebuild then
             let sid = meta_string (ev_meta e) ''summary_id'' in
             if sid \<noteq> [] then
               let basis = meta_string (ev_meta e) ''basis_event_id'' in
               (case rebase_on_summary (ev_branch e) sid basis g1 of
                  (Inl err, g2) \<Rightarrow> (Some err, g2) | (Inr _, g2) \<Rightarrow> (None, g2))
             else (None, g1)
           else (None, g1)))"

definition replay_event :: "event \<Rightarrow> graph \<Rightarrow> graph result" where
  "replay_event e g =
     (case event_validate e of Some err \<Rightarrow> Inl err | None \<Rightarrow>
      case place_branch e g of
        (Some err, _) \<Rightarrow> Inl err
      | (None, g1) \<Rightarrow> (case record_event e g1 of (Some err, _) \<Rightarrow> Inl err | (None, g2) \<Rightarrow> Inr g2))"

fun replay_events :: "graph \<Rightarrow> event list \<Rightarrow> graph result" where
  "replay_events g [] = Inr g"
| "replay_events g (e # es) =
     (case replay_event e g of Inl err \<Rightarrow> Inl err | Inr g' \<Rightarrow> replay_events g' es)"

definition rebuild_branches :: "event list \<Rightarrow> (string \<rightharpoonup> branch) result" where
  "rebuild_branches events =
     (case replay_events new_graph events of
        Inl err \<Rightarrow> Inl err
      | Inr g \<Rightarrow> Inr (fold (\<lambda>b m. m(br_id b \<mapsto> b)) (list_branches g) Map.empty))"

subsection \<open>Rebuilding one branch from a summary\<close>

fun delta_loop :: "string \<Rightarrow> branch \<Rightarrow> event list \<Rightarrow> branch result" where
  "delta_loop bid out [] = Inr out"
| "delta_loop bid out (e # es) =
     (case event_validate e of Some err \<Rightarrow> Inl err | None \<Rightarrow>
      if ev_branch e \<noteq> bid then delta_loop bid out es
      else case append_to_branch out (ev_id e) of Inl err \<Rightarrow> Inl err
           | Inr next_branch \<Rightarrow> delta_loop bid next_branch es)"

definition rebuild_from_delta :: "branch \<Rightarrow> checkpoint \<Rightarrow> event list \<Rightarrow> branch result" where
  "rebuild_from_delta b cp delta =
     (case branch_validate b of Some err \<Rightarrow> Inl err | None \<Rightarrow>
      case checkpoint_validate cp of Some err \<Rightarrow> Inl err | None \<Rightarrow>
      if cp_branch cp \<noteq> br_id b
      then Inl (Adhoc (''summary branch '' @ go_quote (cp_branch cp) @
                  '' does not match branch '' @ go_quote (br_id b)))
      else delta_loop (br_id b)
             (b\<lparr>br_base_summary := cp_summary_id cp, br_head := cp_basis cp, br_dirty := []\<rparr>) delta)"

fun events_after :: "string \<Rightarrow> event list \<Rightarrow> event list option" where
  "events_after basis [] = None"
| "events_after basis (e # es) = (if ev_id e = basis then Some es else events_after basis es)"

definition rebuild_from_summary :: "branch \<Rightarrow> checkpoint \<Rightarrow> event list \<Rightarrow> branch result" where
  "rebuild_from_summary b cp events =
     (case checkpoint_validate cp of Some err \<Rightarrow> Inl err | None \<Rightarrow>
      case events_after (cp_basis cp) events of
        None \<Rightarrow> Inl ErrSummaryBasisNotFound
      | Some rest \<Rightarrow> rebuild_from_delta b cp (filter (\<lambda>e. ev_branch e = br_id b) rest))"

subsection \<open>Consult history\<close>

record consult_event =
  ce_id :: string
  ce_session :: string
  ce_branch :: string
  ce_kind :: string
  ce_schema :: string
  ce_outcome :: string
  ce_role :: string
  ce_fingerprint :: string
  ce_contract :: string
  ce_serializer :: string
  ce_leader_event :: string
  ce_refs :: "string list"
  ce_missing :: "string list"
  ce_budget :: int
  ce_actual :: int
  ce_task :: string
  ce_selection :: "selection_explanation option"

definition read_meta_strings :: "gomap \<Rightarrow> string \<Rightarrow> string list" where
  "read_meta_strings m k =
     (case map_of m k of
        Some (VStrs ss) \<Rightarrow> ss
      | Some (VList vs) \<Rightarrow> List.map_filter (\<lambda>v. case v of VStr s \<Rightarrow> Some s | _ \<Rightarrow> None) vs
      | Some (VStr s) \<Rightarrow> (let t = trim_space s in if t = [] then [] else [t])
      | _ \<Rightarrow> [])"

text \<open>\<open>strconv.Atoi\<close>: an optional sign, at least one digit, nothing else, and the range of \<open>int\<close>.\<close>

definition all_digits :: "string \<Rightarrow> bool" where
  "all_digits s \<longleftrightarrow> s \<noteq> [] \<and> list_all (\<lambda>c. 48 \<le> (of_char c :: nat) \<and> (of_char c :: nat) \<le> 57) s"

definition in_int64 :: "int \<Rightarrow> bool" where
  "in_int64 i \<longleftrightarrow> - (2 ^ 63) \<le> i \<and> i < 2 ^ 63"

definition atoi :: "string \<Rightarrow> int option" where
  "atoi s =
     (let (neg, ds) = (case s of c # cs \<Rightarrow> if c = CHR ''-'' then (True, cs)
                                           else if c = CHR ''+'' then (False, cs) else (False, s)
                              | [] \<Rightarrow> (False, []));
          n = int (dec_value 0 ds); i = (if neg then - n else n)
      in if all_digits ds \<and> in_int64 i then Some i else None)"

text \<open>
  \<open>int(v)\<close> of a \<open>float64\<close> drops the fraction. (Outside the range of \<open>int\<close> Go leaves the result to
  the implementation; the model keeps the truncated value there.)
\<close>

definition trunc_rat :: "rat \<Rightarrow> int" where
  "trunc_rat q = (if 0 \<le> q then \<lfloor>q\<rfloor> else - \<lfloor>- q\<rfloor>)"

definition read_meta_int :: "gomap \<Rightarrow> string \<Rightarrow> int" where
  "read_meta_int m k =
     (case map_of m k of
        Some (VInt i) \<Rightarrow> i
      | Some (VInt64 i) \<Rightarrow> i
      | Some (VFloat q) \<Rightarrow> trunc_rat q
      | Some (VStr s) \<Rightarrow> (case atoi (trim_space s) of None \<Rightarrow> 0 | Some i \<Rightarrow> i)
      | _ \<Rightarrow> 0)"

definition selection_item_from_meta :: "gomap \<Rightarrow> selection_item option" where
  "selection_item_from_meta m =
     (let i = meta_string m ''id''; k = meta_string m ''kind''; r = meta_string m ''reason'' in
      if i = [] \<or> k = [] \<or> r = [] then None
      else Some \<lparr>sx_id = i, sx_kind = k, sx_reason = r, sx_class = meta_string m ''class''\<rparr>)"

definition maps_of_list :: "goval list \<Rightarrow> gomap list" where
  "maps_of_list vs = List.map_filter (\<lambda>v. case v of VMap m \<Rightarrow> Some m | _ \<Rightarrow> None) vs"

definition read_selection_items :: "gomap \<Rightarrow> string \<Rightarrow> selection_item list" where
  "read_selection_items m k =
     (case map_of m k of
        Some (VMaps ms) \<Rightarrow> List.map_filter selection_item_from_meta ms
      | Some (VList vs) \<Rightarrow> List.map_filter selection_item_from_meta (maps_of_list vs)
      | _ \<Rightarrow> [])"

definition reason_count_from_meta :: "gomap \<Rightarrow> reason_count option" where
  "reason_count_from_meta m =
     (let r = meta_string m ''reason''; n = read_meta_int m ''count'' in
      if r = [] \<or> n \<le> 0 then None else Some \<lparr>rc_reason = r, rc_count = n\<rparr>)"

definition read_reason_counts :: "gomap \<Rightarrow> string \<Rightarrow> reason_count list" where
  "read_reason_counts m k =
     (case map_of m k of
        Some (VMaps ms) \<Rightarrow> List.map_filter reason_count_from_meta ms
      | Some (VList vs) \<Rightarrow> List.map_filter reason_count_from_meta (maps_of_list vs)
      | _ \<Rightarrow> [])"

definition read_meta_selection :: "gomap \<Rightarrow> string \<Rightarrow> selection_explanation option" where
  "read_meta_selection m k =
     (case map_of m k of
        Some (VMap body) \<Rightarrow>
          let out = \<lparr>se_included = read_selection_items body ''included'',
                     se_excluded = read_selection_items body ''excluded'',
                     se_dom_included = read_reason_counts body ''dominant_inclusion_reasons'',
                     se_dom_excluded = read_reason_counts body ''dominant_exclusion_reasons'',
                     se_pressure = (case map_of body ''budget_pressure'' of Some (VBool b) \<Rightarrow> b | _ \<Rightarrow> False)\<rparr>
          in if se_included out = [] \<and> se_excluded out = [] \<and> se_dom_included out = []
                \<and> se_dom_excluded out = [] \<and> \<not> se_pressure out then None else Some out
      | _ \<Rightarrow> None)"

definition consult_outcome_for_kind :: "string \<Rightarrow> string" where
  "consult_outcome_for_kind kind =
     (if kind = KindConsultResolved then OutcomeResolved
      else if kind = KindConsultUnresolved then OutcomeUnresolved else [])"

definition is_consult_kind :: "string \<Rightarrow> bool" where
  "is_consult_kind k \<longleftrightarrow> k = KindConsultResolved \<or> k = KindConsultUnresolved"

definition consult_event_of :: "event \<Rightarrow> consult_event" where
  "consult_event_of e =
     (let m = ev_meta e; outcome = meta_string m ''outcome'' in
      \<lparr>ce_id = ev_id e, ce_session = ev_session e, ce_branch = ev_branch e, ce_kind = ev_kind e,
       ce_schema = meta_string m ''schema_version'',
       ce_outcome = (if outcome \<noteq> [] then outcome else consult_outcome_for_kind (ev_kind e)),
       ce_role = meta_string m ''role'', ce_fingerprint = meta_string m ''fingerprint'',
       ce_contract = meta_string m ''contract_version'',
       ce_serializer = meta_string m ''manifest_serializer_version'',
       ce_leader_event = meta_string m ''leader_consult_event_id'',
       ce_refs = ev_refs e, ce_missing = read_meta_strings m ''missing'',
       ce_budget = read_meta_int m ''byte_budget'', ce_actual = read_meta_int m ''actual_bytes'',
       ce_task = meta_string m ''task_summary'', ce_selection = read_meta_selection m ''selection''\<rparr>)"

fun list_consult_loop :: "string \<Rightarrow> event list \<Rightarrow> consult_event list result" where
  "list_consult_loop sid [] = Inr []"
| "list_consult_loop sid (e # es) =
     (if ev_session e \<noteq> sid then Inl ErrMixedSessionReplay
      else case list_consult_loop sid es of Inl err \<Rightarrow> Inl err
        | Inr out \<Rightarrow> Inr (if is_consult_kind (ev_kind e) then consult_event_of e # out else out))"

definition list_consult_events :: "event list \<Rightarrow> consult_event list result" where
  "list_consult_events events =
     (case events of [] \<Rightarrow> Inr [] | e # _ \<Rightarrow> list_consult_loop (ev_session e) events)"

subsection \<open>Replaying events refines moving head pointers\<close>

text \<open>
  The abstract value of a graph is its head pointers, one for each branch. One event moves them as
  \<open>head_step\<close> says: a fork makes the child start at the parent's head, a checkpoint leaves the
  heads alone, a rebuild may rewind to its basis, everything else becomes the new head.
\<close>

type_synonym heads = "string \<rightharpoonup> string"

definition heads_of :: "graph \<Rightarrow> heads" where
  "heads_of g = map_option br_head \<circ> map_of g"

definition ensure_head :: "string \<Rightarrow> string \<Rightarrow> heads \<Rightarrow> heads" where
  "ensure_head b start h = (if h b = None then h(b \<mapsto> start) else h)"

definition place_heads :: "event \<Rightarrow> heads \<Rightarrow> heads" where
  "place_heads e h =
     (let parent = meta_string (ev_meta e) ''parent_branch_id'' in
      if ev_kind e = KindBranchFork \<and> parent \<noteq> []
      then let h1 = ensure_head parent [] h in ensure_head (ev_branch e) (the (h1 parent)) h1
      else ensure_head (ev_branch e) [] h)"

definition move_heads :: "event \<Rightarrow> heads \<Rightarrow> heads" where
  "move_heads e h =
     (let basis = meta_string (ev_meta e) ''basis_event_id'' in
      if ev_kind e = KindSummaryCheckpoint then h
      else if ev_kind e = KindSummaryRebuild \<and> meta_string (ev_meta e) ''summary_id'' \<noteq> []
              \<and> basis \<noteq> []
        then h(ev_branch e \<mapsto> basis)
      else h(ev_branch e \<mapsto> ev_id e))"

definition head_step :: "event \<Rightarrow> heads \<Rightarrow> heads" where
  "head_step e h = move_heads e (place_heads e h)"

lemma heads_of_None [simp]: "heads_of g b = None \<longleftrightarrow> map_of g b = None"
  by (simp add: heads_of_def)

lemma heads_of_update: "heads_of (AList.update k b g) = (heads_of g)(k \<mapsto> br_head b)"
  by (auto simp: heads_of_def update_conv')

lemma ensure_branch_refines:
  assumes "graph_ok g" and "b \<noteq> []"
  shows "\<exists>x g'. ensure_branch b g = (Inr x, g') \<and> graph_ok g' \<and> heads_of g' = ensure_head b [] (heads_of g)"
proof (cases "map_of g b")
  case None
  have ok: "branch_ok (empty_branch\<lparr>br_id := b\<rparr>)"
    using assms(2) by (simp add: branch_ok_def empty_branch_def)
  with None assms(1) show ?thesis
    by (simp add: ensure_branch_def get_branch_def create_branch_def branch_ok_validate
        graph_ok_update heads_of_update ensure_head_def) (simp add: empty_branch_def)
next
  case (Some x)
  with assms(1) show ?thesis
    by (simp add: ensure_branch_def get_branch_def ensure_head_def)
qed

lemma fork_branch_refines:
  assumes "graph_ok g" "child \<noteq> []" "parent \<noteq> []" "map_of g parent \<noteq> None"
  shows "\<exists>r g'. fork_branch child parent e g = (r, g') \<and> graph_ok g'
    \<and> heads_of g' = ensure_head child (the (heads_of g parent)) (heads_of g)
    \<and> (\<forall>err. r = Inl err \<longrightarrow> err = ErrBranchExists)"
proof -
  obtain r g' where rg: "fork_branch child parent e g = (r, g')" by fastforce
  have "graph_ok g'" using fork_branch_ok [OF assms(1)] rg by (metis snd_conv)
  moreover have "heads_of g' = ensure_head child (the (heads_of g parent)) (heads_of g)
    \<and> (\<forall>err. r = Inl err \<longrightarrow> err = ErrBranchExists)"
    using rg assms(2-4)
    by (auto simp: fork_branch_def Let_def ensure_head_def heads_of_update empty_branch_def
        split: if_splits) (auto simp: heads_of_def)
  ultimately show ?thesis using rg by blast
qed

lemma place_branch_refines:
  assumes "graph_ok g" and "event_validate e = None"
  shows "\<exists>g'. place_branch e g = (None, g') \<and> graph_ok g' \<and> heads_of g' = place_heads e (heads_of g)"
proof -
  let ?p = "meta_string (ev_meta e) ''parent_branch_id''"
  have b: "ev_branch e \<noteq> []" using assms(2) by (simp add: event_validate_None_iff)
  show ?thesis
  proof (cases "ev_kind e = KindBranchFork \<and> ?p \<noteq> []")
    case True
    then obtain x g1 where g1: "ensure_branch ?p g = (Inr x, g1)" "graph_ok g1"
      "heads_of g1 = ensure_head ?p [] (heads_of g)"
      using ensure_branch_refines [OF assms(1)] by blast
    then have p: "map_of g1 ?p \<noteq> None"
      by (metis ensure_head_def fun_upd_same heads_of_None option.distinct(1))
    obtain r g2 where g2: "fork_branch (ev_branch e) ?p (ev_parent e) g1 = (r, g2)" "graph_ok g2"
      "heads_of g2 = ensure_head (ev_branch e) (the (heads_of g1 ?p)) (heads_of g1)"
      "\<forall>err. r = Inl err \<longrightarrow> err = ErrBranchExists"
      using fork_branch_refines [OF g1(2) b _ p] True by blast
    with True g1 show ?thesis
      by (cases r) (auto simp: place_branch_def place_heads_def Let_def)
  next
    case False
    obtain x g1 where "ensure_branch (ev_branch e) g = (Inr x, g1)" "graph_ok g1"
      "heads_of g1 = ensure_head (ev_branch e) [] (heads_of g)"
      using ensure_branch_refines [OF assms(1) b] by blast
    with False show ?thesis
      by (auto simp: place_branch_def place_heads_def Let_def)
  qed
qed

lemma place_heads_has_branch: "place_heads e h (ev_branch e) \<noteq> None"
  by (simp add: place_heads_def ensure_head_def Let_def)

lemma append_event_refines:
  assumes ok: "graph_ok g" and b: "map_of g b \<noteq> None" and e: "eid \<noteq> []"
  shows "\<exists>x g'. append_event b eid g = (Inr x, g') \<and> graph_ok g' \<and> map_of g' b \<noteq> None
    \<and> heads_of g' = (heads_of g)(b \<mapsto> eid)"
proof -
  obtain y where y: "map_of g b = Some y" using b by blast
  obtain x where "append_to_branch y eid = Inr x" "br_head x = eid"
    using append_to_branch_ok [of y eid] graph_okD [OF ok y] e by metis
  moreover from this y have "append_event b eid g = (Inr x, AList.update b x g)"
    by (simp add: append_event_def)
  ultimately show ?thesis
    using append_event_ok [OF ok, of b eid] by (simp add: heads_of_update update_conv')
qed

lemma set_base_summary_refines:
  assumes ok: "graph_ok g" and b: "map_of g b \<noteq> None"
  shows "\<exists>x g'. set_base_summary b sid g = (Inr x, g') \<and> graph_ok g' \<and> heads_of g' = heads_of g"
proof -
  obtain y where y: "map_of g b = Some y" using b by blast
  then have "heads_of (AList.update b (y\<lparr>br_base_summary := sid\<rparr>) g) = heads_of g"
    by (auto simp: heads_of_update) (simp add: heads_of_def fun_eq_iff)
  with y show ?thesis
    using set_base_summary_ok [OF ok, of b sid] by (simp add: set_base_summary_def Let_def)
qed

lemma rebase_refines:
  assumes ok: "graph_ok g" and b: "map_of g b \<noteq> None"
  shows "\<exists>x g'. rebase_on_summary b sid basis g = (Inr x, g') \<and> graph_ok g'
    \<and> heads_of g' = (if basis = [] then heads_of g else (heads_of g)(b \<mapsto> basis))"
proof -
  obtain y where y: "map_of g b = Some y" using b by blast
  then have "heads_of g b = Some (br_head y)" by (simp add: heads_of_def)
  with y show ?thesis
    using rebase_on_summary_ok [OF ok, of b sid basis]
    by (auto simp: rebase_on_summary_def Let_def heads_of_update fun_eq_iff)
qed

lemma record_event_refines:
  assumes ok: "graph_ok g" and v: "event_validate e = None" and b: "map_of g (ev_branch e) \<noteq> None"
  shows "\<exists>g'. record_event e g = (None, g') \<and> graph_ok g' \<and> heads_of g' = move_heads e (heads_of g)"
proof -
  have id: "ev_id e \<noteq> []" using v by (simp add: event_validate_None_iff)
  have kinds: "KindSummaryRebuild \<noteq> KindSummaryCheckpoint" by (simp add: go_defs)
  let ?sid = "meta_string (ev_meta e) ''summary_id''"
  let ?basis = "meta_string (ev_meta e) ''basis_event_id''"
  obtain x g1 where sb: "set_base_summary (ev_branch e) ?sid g = (Inr x, g1)" "graph_ok g1"
      "heads_of g1 = heads_of g"
    using set_base_summary_refines [OF ok b] by blast
  obtain y g2 where ap: "append_event (ev_branch e) (ev_id e) g = (Inr y, g2)" "graph_ok g2"
      "map_of g2 (ev_branch e) \<noteq> None" "heads_of g2 = (heads_of g)(ev_branch e \<mapsto> ev_id e)"
    using append_event_refines [OF ok b id] by blast
  obtain z g3 where rb: "rebase_on_summary (ev_branch e) ?sid ?basis g2 = (Inr z, g3)" "graph_ok g3"
      "heads_of g3 = (if ?basis = [] then heads_of g2 else (heads_of g2)(ev_branch e \<mapsto> ?basis))"
    using rebase_refines [OF ap(2,3)] by blast
  show ?thesis
    using sb ap rb ok kinds by (auto simp: record_event_def move_heads_def Let_def)
qed

lemma replay_event_refines:
  assumes "graph_ok g" and "event_validate e = None"
  shows "\<exists>g'. replay_event e g = Inr g' \<and> graph_ok g' \<and> heads_of g' = head_step e (heads_of g)"
proof -
  obtain g1 where g1: "place_branch e g = (None, g1)" "graph_ok g1"
      "heads_of g1 = place_heads e (heads_of g)"
    using place_branch_refines [OF assms] by blast
  have "map_of g1 (ev_branch e) \<noteq> None"
    using place_heads_has_branch [of e "heads_of g"] g1(3) by (metis heads_of_None)
  then show ?thesis
    using record_event_refines [OF g1(2) assms(2)] g1 assms(2)
    by (auto simp: replay_event_def head_step_def)
qed

lemma replay_events_refines:
  "graph_ok g \<Longrightarrow> \<forall>e \<in> set es. event_validate e = None \<Longrightarrow>
     \<exists>g'. replay_events g es = Inr g' \<and> graph_ok g' \<and> heads_of g' = fold head_step es (heads_of g)"
proof (induction es arbitrary: g)
  case (Cons e es)
  obtain g1 where g1: "replay_event e g = Inr g1" "graph_ok g1"
      "heads_of g1 = head_step e (heads_of g)"
    using replay_event_refines [OF Cons.prems(1)] Cons.prems(2) by auto
  then show ?case using Cons.IH [OF g1(2)] Cons.prems(2) by auto
qed simp

lemma replay_events_invalid:
  "graph_ok g \<Longrightarrow> \<exists>e \<in> set es. event_validate e \<noteq> None \<Longrightarrow>
     replay_events g es = Inl ErrInvalidEvent"
proof (induction es arbitrary: g)
  case (Cons e es)
  show ?case
  proof (cases "event_validate e")
    case None
    with Cons.prems replay_event_refines [OF Cons.prems(1) None] show ?thesis
      using Cons.IH by auto
  next
    case (Some err)
    then show ?thesis by (auto simp: replay_event_def dest: event_validate_Some)
  qed
qed simp

lemma fold_by_id:
  "distinct (map f bs) \<Longrightarrow>
     fold (\<lambda>b m. m(f b \<mapsto> b)) bs m0 k = (case find (\<lambda>b. f b = k) bs of None \<Rightarrow> m0 k | Some b \<Rightarrow> Some b)"
proof (induction bs arbitrary: m0)
  case (Cons b bs)
  then have "find (\<lambda>c. f c = f b) bs = None" by (auto simp: find_None_iff image_iff)
  with Cons show ?case by (auto split: option.split)
qed simp

lemma list_branches_map:
  assumes "graph_ok g"
  shows "fold (\<lambda>b m. m(br_id b \<mapsto> b)) (list_branches g) Map.empty = map_of g"
proof (rule ext)
  fix k
  have d: "distinct (map br_id (list_branches g))"
    using assms by (simp add: list_branches_ids graph_ok_def)
  show "fold (\<lambda>b m. m(br_id b \<mapsto> b)) (list_branches g) Map.empty k = map_of g k"
  proof (cases "find (\<lambda>b. br_id b = k) (list_branches g)")
    case None
    then have no: "b \<in> set (list_branches g) \<Longrightarrow> br_id b \<noteq> k" for b
      by (auto simp: find_None_iff)
    have "map_of g k = None"
    proof (rule ccontr)
      assume "map_of g k \<noteq> None"
      then obtain b where b: "map_of g k = Some b" by blast
      with assms have "b \<in> set (list_branches g)" by (auto simp: list_branches_set)
      with no graph_okD [OF assms b] show False by blast
    qed
    with None show ?thesis by (simp add: fold_by_id [OF d])
  next
    case (Some b)
    then have "b \<in> set (list_branches g)" "br_id b = k"
      by (auto simp: find_Some_iff)
    then have "map_of g k = Some b"
      using assms by (auto simp: list_branches_set dest: graph_okD)
    with Some show ?thesis by (simp add: fold_by_id [OF d])
  qed
qed

text \<open>
  C6. Rebuilding branch state from an event list fails exactly when some event is invalid, and then
  with \<open>ErrInvalidEvent\<close>; otherwise it produces a map whose every branch is well-formed under its
  own identifier and whose head pointers are those of the abstract machine \<open>head_step\<close> run over
  the events in order: no event of the log is lost and no branch is invented.
\<close>

theorem rebuild_branches_refines_heads:
  "rebuild_branches es =
     (if list_all (\<lambda>e. event_validate e = None) es
      then Inr (map_of (projr (replay_events new_graph es)))
      else Inl ErrInvalidEvent)
   \<and> (list_all (\<lambda>e. event_validate e = None) es \<longrightarrow>
      (\<exists>bs. rebuild_branches es = Inr bs
         \<and> map_option br_head \<circ> bs = fold head_step es Map.empty
         \<and> (\<forall>k b. bs k = Some b \<longrightarrow> br_id b = k \<and> branch_ok b)))"
proof (cases "list_all (\<lambda>e. event_validate e = None) es")
  case True
  then have v: "\<forall>e \<in> set es. event_validate e = None" by (simp add: list_all_iff)
  obtain g where g: "replay_events new_graph es = Inr g" "graph_ok g"
      "heads_of g = fold head_step es (heads_of new_graph)"
    using replay_events_refines [OF graph_ok_new v] by blast
  moreover have "heads_of new_graph = Map.empty" by (simp add: heads_of_def new_graph_def)
  ultimately show ?thesis
    using True by (auto simp: rebuild_branches_def list_branches_map heads_of_def dest: graph_okD)
next
  case False
  then have "\<exists>e \<in> set es. event_validate e \<noteq> None" by (simp add: list_all_iff)
  then have "replay_events new_graph es = Inl ErrInvalidEvent"
    by (rule replay_events_invalid [OF graph_ok_new])
  with False show ?thesis by (auto simp: rebuild_branches_def)
qed

subsection \<open>What a consult event says survives the event log\<close>

lemma list_consult_loop_exact:
  "list_consult_loop sid es =
     (if list_all (\<lambda>e. ev_session e = sid) es
      then Inr (map consult_event_of (filter (\<lambda>e. is_consult_kind (ev_kind e)) es))
      else Inl ErrMixedSessionReplay)"
  by (induction es) auto

text \<open>
  The consult history of a session is exactly the consult outcomes of its log, resolved and
  unresolved, in log order, none dropped and none repeated; the listing fails only on a log that
  mixes sessions.
\<close>

theorem list_consult_events_exact:
  "list_consult_events es =
     (if list_all (\<lambda>e. ev_session e = ev_session (hd es)) es
      then Inr (map consult_event_of (filter (\<lambda>e. is_consult_kind (ev_kind e)) es))
      else Inl ErrMixedSessionReplay)"
  by (cases es) (simp_all add: list_consult_events_def list_consult_loop_exact
      del: list_consult_loop.simps)

text \<open>
  What a durable store gives back: the metadata after \<open>json.Marshal\<close> and \<open>json.Unmarshal\<close> into
  \<open>map[string]any\<close>. Numbers are \<open>float64\<close>, slices \<open>[]any\<close> and maps \<open>map[string]any\<close>; each byte of a
  string that is not part of a valid rune has become the replacement rune, and an integer the nearest
  \<open>float64\<close>, that is one with 53 significant bits, of two equally near the even one. (A \<open>float64\<close> itself is
  printed so that it reads back.)
\<close>

fun coerce_utf8_fuel :: "nat \<Rightarrow> string \<Rightarrow> string" where
  "coerce_utf8_fuel k [] = []"
| "coerce_utf8_fuel 0 (c # cs) = []"
| "coerce_utf8_fuel (Suc k) (c # cs) =
     (if (of_char c :: nat) < 128 then c # coerce_utf8_fuel k cs
      else case rune_size (c # cs) of
        None \<Rightarrow> [CHR 0xEF, CHR 0xBF, CHR 0xBD] @ coerce_utf8_fuel k cs
      | Some n \<Rightarrow> take n (c # cs) @ coerce_utf8_fuel k (drop n (c # cs)))"

definition coerce_utf8 :: "string \<Rightarrow> string" where
  "coerce_utf8 s = coerce_utf8_fuel (length s) s"

lemma coerce_utf8_valid: "valid_utf8 s \<Longrightarrow> coerce_utf8 s = s"
proof -
  have "valid_utf8_fuel k s \<Longrightarrow> coerce_utf8_fuel k s = s" for k
  proof (induction k s rule: coerce_utf8_fuel.induct)
    case (3 k c cs)
    then show ?case by (auto split: option.splits if_splits)
  qed simp_all
  then show "valid_utf8 s \<Longrightarrow> ?thesis" by (simp add: valid_utf8_def coerce_utf8_def)
qed

fun bit_count :: "nat \<Rightarrow> nat" where
  "bit_count n = (if n = 0 then 0 else Suc (bit_count (n div 2)))"

declare bit_count.simps [simp del]

definition round_bits :: "nat \<Rightarrow> nat" where
  "round_bits n =
     (let step = 2 ^ (bit_count n - 53); q = n div step; r = n mod step in
      (if step < 2 * r \<or> step = 2 * r \<and> odd q then Suc q else q) * step)"

definition float64_of_int :: "int \<Rightarrow> int" where
  "float64_of_int i = sgn i * int (round_bits (nat \<bar>i\<bar>))"

lemma bit_count_le: "n < 2 ^ k \<Longrightarrow> bit_count n \<le> k"
proof (induction k arbitrary: n)
  case (Suc k)
  then have "n div 2 < 2 ^ k" by simp
  then show ?case using Suc.IH by (subst bit_count.simps) simp
qed (simp add: bit_count.simps)

lemma bit_count_power: "bit_count (2 ^ k) = Suc k"
proof (induction k)
  case 0
  show ?case by code_simp
next
  case (Suc k)
  then show ?case by (subst bit_count.simps) simp
qed

lemma float64_of_int_exact:
  assumes "\<bar>i\<bar> \<le> 2 ^ 53"
  shows "float64_of_int i = i"
proof -
  have "round_bits n = n" if n: "n \<le> 2 ^ 53" for n
  proof (cases "n = 2 ^ 53")
    case True
    have "bit_count (2 ^ 53) - 53 = 1" by (simp only: bit_count_power)
    then show ?thesis unfolding True round_bits_def Let_def by simp
  next
    case False
    with n have "bit_count n - 53 = 0" using bit_count_le [of n 53] by simp
    then show ?thesis by (simp add: round_bits_def Let_def)
  qed
  moreover have "nat \<bar>i\<bar> \<le> 2 ^ 53" using assms by (simp add: nat_le_iff)
  ultimately show ?thesis by (simp add: float64_of_int_def sgn_if)
qed

fun decoded :: "goval \<Rightarrow> goval" where
  "decoded VNil = VNil"
| "decoded (VStr s) = VStr (coerce_utf8 s)"
| "decoded (VInt i) = VFloat (of_int (float64_of_int i))"
| "decoded (VInt64 i) = VFloat (of_int (float64_of_int i))"
| "decoded (VFloat q) = VFloat q"
| "decoded (VBool b) = VBool b"
| "decoded (VStrs ss) = VList (map (\<lambda>s. VStr (coerce_utf8 s)) ss)"
| "decoded (VList vs) = VList (map decoded vs)"
| "decoded (VMap m) = VMap (map (\<lambda>(k, v). (coerce_utf8 k, decoded v)) m)"
| "decoded (VMaps ms) = VList (map (\<lambda>m. VMap (map (\<lambda>(k, v). (coerce_utf8 k, decoded v)) m)) ms)"

definition decoded_map :: "gomap \<Rightarrow> gomap" where
  "decoded_map m = map (\<lambda>(k, v). (coerce_utf8 k, decoded v)) m"

text \<open>The values that lose nothing but their static type, and what they become.\<close>

fun json_exact :: "goval \<Rightarrow> bool" where
  "json_exact (VStr s) = valid_utf8 s"
| "json_exact (VInt i) = (\<bar>i\<bar> \<le> 2 ^ 53)"
| "json_exact (VInt64 i) = (\<bar>i\<bar> \<le> 2 ^ 53)"
| "json_exact (VStrs ss) = list_all valid_utf8 ss"
| "json_exact (VList vs) = list_all json_exact vs"
| "json_exact (VMap m) = list_all (\<lambda>(k, v). valid_utf8 k \<and> json_exact v) m"
| "json_exact (VMaps ms) = list_all (list_all (\<lambda>(k, v). valid_utf8 k \<and> json_exact v)) ms"
| "json_exact v = True"

fun widened :: "goval \<Rightarrow> goval" where
  "widened (VInt i) = VFloat (of_int i)"
| "widened (VInt64 i) = VFloat (of_int i)"
| "widened (VStrs ss) = VList (map VStr ss)"
| "widened (VList vs) = VList (map widened vs)"
| "widened (VMap m) = VMap (map (\<lambda>(k, v). (k, widened v)) m)"
| "widened (VMaps ms) = VList (map (\<lambda>m. VMap (map (\<lambda>(k, v). (k, widened v)) m)) ms)"
| "widened v = v"

definition widened_map :: "gomap \<Rightarrow> gomap" where
  "widened_map m = map (\<lambda>(k, v). (k, widened v)) m"

lemma decoded_exact: "json_exact v \<Longrightarrow> decoded v = widened v"
  by (induction v rule: decoded.induct)
     (fastforce simp: coerce_utf8_valid float64_of_int_exact list_all_iff split: prod.splits)+

lemma decoded_map_exact: "json_exact (VMap m) \<Longrightarrow> decoded_map m = widened_map m"
  using decoded_exact [of "VMap m"] by (simp add: decoded_map_def widened_map_def)

lemma map_of_widened_map: "map_of (widened_map m) k = map_option widened (map_of m k)"
  by (simp add: widened_map_def map_of_map)

lemma trunc_rat_of_int [simp]: "trunc_rat (of_int i) = i"
  by (simp add: trunc_rat_def flip: of_int_minus)

lemma meta_string_widened [simp]: "meta_string (widened_map m) k = meta_string m k"
proof (cases "map_of m k")
  case (Some v)
  then show ?thesis by (cases v) (simp_all add: meta_string_def map_of_widened_map)
qed (simp add: map_of_widened_map)

lemma read_meta_int_widened [simp]: "read_meta_int (widened_map m) k = read_meta_int m k"
proof (cases "map_of m k")
  case (Some v)
  then show ?thesis by (cases v) (simp_all add: read_meta_int_def map_of_widened_map)
qed (simp add: read_meta_int_def map_of_widened_map)

lemma map_filter_VStr [simp]:
  "List.map_filter (\<lambda>v. case v of VStr s \<Rightarrow> Some s | _ \<Rightarrow> None) (map VStr ss) = ss"
  by (induction ss) (simp_all add: map_filter_simps)

lemma read_meta_strings_widened:
  "map_of m k = None \<or> (\<exists>ss. map_of m k = Some (VStrs ss)) \<Longrightarrow>
     read_meta_strings (widened_map m) k = read_meta_strings m k"
  by (auto simp: read_meta_strings_def map_of_widened_map)

text \<open>Selections written by \<open>selection_meta\<close> read back as they were.\<close>

definition sx_readable :: "selection_item \<Rightarrow> bool" where
  "sx_readable i \<longleftrightarrow> sx_id i \<noteq> [] \<and> sx_kind i \<noteq> [] \<and> sx_reason i \<noteq> []"

definition rc_readable :: "reason_count \<Rightarrow> bool" where
  "rc_readable r \<longleftrightarrow> rc_reason r \<noteq> [] \<and> 0 < rc_count r"

definition selection_readable :: "selection_explanation \<Rightarrow> bool" where
  "selection_readable s \<longleftrightarrow>
     list_all sx_readable (se_included s) \<and> list_all sx_readable (se_excluded s)
     \<and> list_all rc_readable (se_dom_included s) \<and> list_all rc_readable (se_dom_excluded s)
     \<and> (se_included s \<noteq> [] \<or> se_excluded s \<noteq> [] \<or> se_dom_included s \<noteq> []
        \<or> se_dom_excluded s \<noteq> [] \<or> se_pressure s)"

lemma selection_item_from_meta_written:
  "sx_readable i \<Longrightarrow> selection_item_from_meta (selection_item_meta i) = Some i"
  by (simp add: sx_readable_def selection_item_from_meta_def selection_item_meta_def meta_string_def Let_def)

lemma selection_item_from_widened [simp]:
  "selection_item_from_meta (widened_map m) = selection_item_from_meta m"
  by (simp add: selection_item_from_meta_def Let_def)

lemma reason_count_from_widened [simp]:
  "reason_count_from_meta (widened_map m) = reason_count_from_meta m"
  by (simp add: reason_count_from_meta_def Let_def)

lemma read_items_written:
  "list_all sx_readable is \<Longrightarrow>
     List.map_filter selection_item_from_meta (map selection_item_meta is) = is"
  by (induction "is") (simp_all add: map_filter_simps selection_item_from_meta_written)

lemma read_counts_written:
  "list_all rc_readable rs \<Longrightarrow>
     List.map_filter reason_count_from_meta (selection_reason_meta rs) = rs"
  by (induction rs)
     (simp_all add: map_filter_simps selection_reason_meta_def reason_count_from_meta_def
        rc_readable_def meta_string_def read_meta_int_def Let_def)

lemma maps_of_list_widened:
  "maps_of_list (map (\<lambda>m. VMap (map (\<lambda>(k, v). (k, widened v)) m)) ms) = map widened_map ms"
  by (induction ms) (simp_all add: maps_of_list_def map_filter_simps widened_map_def)

lemma map_filter_map: "List.map_filter f (map g xs) = List.map_filter (f \<circ> g) xs"
  by (induction xs) (simp_all add: map_filter_simps split: option.split)

lemma read_selection_items_widened:
  "map_of m k = None \<or> (\<exists>ms. map_of m k = Some (VMaps ms)) \<Longrightarrow>
     read_selection_items (widened_map m) k = read_selection_items m k"
  by (auto simp: read_selection_items_def map_of_widened_map maps_of_list_widened map_filter_map comp_def)

lemma read_reason_counts_widened:
  "map_of m k = None \<or> (\<exists>ms. map_of m k = Some (VMaps ms)) \<Longrightarrow>
     read_reason_counts (widened_map m) k = read_reason_counts m k"
  by (auto simp: read_reason_counts_def map_of_widened_map maps_of_list_widened map_filter_map comp_def)

lemma map_of_selection_meta:
  "map_of (selection_meta s) ''included'' =
     (if se_included s = [] then None else Some (VMaps (map selection_item_meta (se_included s))))"
  "map_of (selection_meta s) ''excluded'' =
     (if se_excluded s = [] then None else Some (VMaps (map selection_item_meta (se_excluded s))))"
  "map_of (selection_meta s) ''dominant_inclusion_reasons'' =
     (if se_dom_included s = [] then None
      else Some (VMaps (selection_reason_meta (se_dom_included s))))"
  "map_of (selection_meta s) ''dominant_exclusion_reasons'' =
     (if se_dom_excluded s = [] then None
      else Some (VMaps (selection_reason_meta (se_dom_excluded s))))"
  "map_of (selection_meta s) ''budget_pressure'' =
     (if se_pressure s then Some (VBool True) else None)"
  by (simp_all add: selection_meta_def map_add_def)

lemma read_selection_written:
  assumes s: "selection_readable s" and m: "m = selection_meta s \<or> m = widened_map (selection_meta s)"
    and k: "map_of body k = Some (VMap m)"
  shows "read_meta_selection body k = Some s"
proof -
  have "read_selection_items m ''included'' = se_included s"
    "read_selection_items m ''excluded'' = se_excluded s"
    "read_reason_counts m ''dominant_inclusion_reasons'' = se_dom_included s"
    "read_reason_counts m ''dominant_exclusion_reasons'' = se_dom_excluded s"
    "(case map_of m ''budget_pressure'' of Some (VBool b) \<Rightarrow> b | _ \<Rightarrow> False) = se_pressure s"
    using m s
    by (auto simp: read_selection_items_widened read_reason_counts_widened map_of_selection_meta
        map_of_widened_map selection_readable_def split: if_splits)
       (auto simp: read_selection_items_def read_reason_counts_def map_of_selection_meta
        read_items_written read_counts_written split: if_splits)
  with s k show ?thesis
    by (auto simp: read_meta_selection_def Let_def selection_readable_def)
qed

lemma map_of_event_summary_meta:
  "map_of (event_summary_meta s) ''missing'' =
     (if es_missing s = [] then None else Some (VStrs (es_missing s)))"
  "map_of (event_summary_meta s) ''selection'' =
     (case es_selection s of None \<Rightarrow> None | Some x \<Rightarrow> Some (VMap (selection_meta x)))"
  by (simp_all add: event_summary_meta_def map_add_def split: option.split)

lemma read_event_summary_meta:
  "meta_string (event_summary_meta s) ''schema_version'' = es_schema s"
  "meta_string (event_summary_meta s) ''outcome'' = es_outcome s"
  "meta_string (event_summary_meta s) ''role'' = es_role s"
  "meta_string (event_summary_meta s) ''fingerprint'' = es_fingerprint s"
  "meta_string (event_summary_meta s) ''contract_version'' = es_contract s"
  "meta_string (event_summary_meta s) ''manifest_serializer_version'' = es_serializer s"
  "meta_string (event_summary_meta s) ''leader_consult_event_id'' = es_leader_event s"
  "meta_string (event_summary_meta s) ''task_summary'' = es_task s"
  "read_meta_int (event_summary_meta s) ''byte_budget'' = es_budget s"
  "read_meta_int (event_summary_meta s) ''actual_bytes'' = es_actual s"
  by (simp_all add: event_summary_meta_def meta_string_def read_meta_int_def map_add_def
      split: option.split)

text \<open>What of a summary JSON keeps: valid UTF-8, and integers that a \<open>float64\<close> can hold.\<close>

definition item_exact :: "selection_item \<Rightarrow> bool" where
  "item_exact i \<longleftrightarrow> list_all valid_utf8 [sx_id i, sx_kind i, sx_reason i, sx_class i]"

definition count_exact :: "reason_count \<Rightarrow> bool" where
  "count_exact r \<longleftrightarrow> valid_utf8 (rc_reason r) \<and> \<bar>rc_count r\<bar> \<le> 2 ^ 53"

definition summary_exact :: "event_summary \<Rightarrow> bool" where
  "summary_exact s \<longleftrightarrow>
     list_all valid_utf8 [es_schema s, es_fingerprint s, es_contract s, es_serializer s, es_outcome s, es_role s,
       es_leader_event s, es_task s]
     \<and> list_all valid_utf8 (es_missing s) \<and> \<bar>es_budget s\<bar> \<le> 2 ^ 53 \<and> \<bar>es_actual s\<bar> \<le> 2 ^ 53
     \<and> (case es_selection s of None \<Rightarrow> True
        | Some x \<Rightarrow> list_all item_exact (se_included x) \<and> list_all item_exact (se_excluded x)
            \<and> list_all count_exact (se_dom_included x) \<and> list_all count_exact (se_dom_excluded x))"

lemma summary_keys_valid [simp]:
  "valid_utf8 ''schema_version''" "valid_utf8 ''fingerprint''" "valid_utf8 ''contract_version''"
  "valid_utf8 ''outcome''" "valid_utf8 ''role''" "valid_utf8 ''byte_budget''" "valid_utf8 ''actual_bytes''"
  "valid_utf8 ''manifest_serializer_version''" "valid_utf8 ''leader_consult_event_id''"
  "valid_utf8 ''task_summary''" "valid_utf8 ''missing''" "valid_utf8 ''selection''" "valid_utf8 ''id''"
  "valid_utf8 ''kind''" "valid_utf8 ''reason''" "valid_utf8 ''class''" "valid_utf8 ''count''"
  "valid_utf8 ''included''" "valid_utf8 ''excluded''" "valid_utf8 ''dominant_inclusion_reasons''"
  "valid_utf8 ''dominant_exclusion_reasons''" "valid_utf8 ''budget_pressure''"
  by code_simp+

lemma selection_meta_exact:
  assumes "list_all item_exact (se_included x)" "list_all item_exact (se_excluded x)"
    and "list_all count_exact (se_dom_included x)" "list_all count_exact (se_dom_excluded x)"
  shows "json_exact (VMap (selection_meta x))"
proof -
  have "list_all item_exact is \<Longrightarrow>
      list_all (list_all (\<lambda>(k, v). valid_utf8 k \<and> json_exact v)) (map selection_item_meta is)" for "is"
    by (induction "is") (simp_all add: item_exact_def selection_item_meta_def)
  moreover have "list_all count_exact rs \<Longrightarrow>
      list_all (list_all (\<lambda>(k, v). valid_utf8 k \<and> json_exact v)) (selection_reason_meta rs)" for rs
    by (induction rs) (simp_all add: selection_reason_meta_def count_exact_def)
  ultimately show ?thesis
    using assms by (simp add: selection_meta_def list.pred_map comp_def)
qed

lemma summary_meta_exact: "summary_exact s \<Longrightarrow> json_exact (VMap (event_summary_meta s))"
  using selection_meta_exact [of "the (es_selection s)"]
  by (cases "es_selection s") (simp_all add: summary_exact_def event_summary_meta_def)

text \<open>
  C10. A consult summary that has an outcome, and whose selection, if it has one, says something and only
  has items and reasons that are not blank, reads back unchanged, field by field, from the event's
  metadata as the in-memory stores keep it. It also does from the metadata as a durable store returns it
  after JSON decoding, where every integer has become a float and every list a generic one, if
  its strings are valid UTF-8 and its integers at most \<open>2^53\<close> in size.
\<close>

theorem consult_event_roundtrip:
  assumes "es_outcome s \<noteq> []" and "\<forall>x. es_selection s = Some x \<longrightarrow> selection_readable x"
    and "ev_meta e = event_summary_meta s
      \<or> summary_exact s \<and> ev_meta e = decoded_map (event_summary_meta s)"
  shows "consult_event_of e =
    \<lparr>ce_id = ev_id e, ce_session = ev_session e, ce_branch = ev_branch e, ce_kind = ev_kind e,
     ce_schema = es_schema s, ce_outcome = es_outcome s, ce_role = es_role s,
     ce_fingerprint = es_fingerprint s, ce_contract = es_contract s, ce_serializer = es_serializer s,
     ce_leader_event = es_leader_event s, ce_refs = ev_refs e, ce_missing = es_missing s,
     ce_budget = es_budget s, ce_actual = es_actual s, ce_task = es_task s,
     ce_selection = es_selection s\<rparr>"
proof -
  have meta: "ev_meta e = event_summary_meta s \<or> ev_meta e = widened_map (event_summary_meta s)"
    using assms(3) decoded_map_exact [OF summary_meta_exact] by auto
  have strs: "meta_string (ev_meta e) k = meta_string (event_summary_meta s) k"
    and ints: "read_meta_int (ev_meta e) k = read_meta_int (event_summary_meta s) k" for k
    using meta by auto
  have miss: "read_meta_strings (ev_meta e) ''missing'' = es_missing s"
    using meta
    by (auto simp: read_meta_strings_widened map_of_event_summary_meta)
       (auto simp: read_meta_strings_def map_of_event_summary_meta)
  have sel: "read_meta_selection (ev_meta e) ''selection'' = es_selection s"
  proof (cases "es_selection s")
    case None
    with meta show ?thesis
      by (auto simp: read_meta_selection_def map_of_event_summary_meta map_of_widened_map)
  next
    case (Some x)
    have "\<exists>m. (m = selection_meta x \<or> m = widened_map (selection_meta x))
        \<and> map_of (ev_meta e) ''selection'' = Some (VMap m)"
      using meta Some
      by (auto simp: map_of_event_summary_meta map_of_widened_map) (simp add: widened_map_def)
    with Some assms(2) show ?thesis using read_selection_written by metis
  qed
  show ?thesis
    using assms(1)
    by (simp add: consult_event_of_def Let_def strs ints miss sel read_event_summary_meta)
qed

definition sample_summary :: event_summary where
  "sample_summary = \<lparr>es_schema = ''consult.v1'', es_fingerprint = ''f'', es_contract = ''c'',
     es_serializer = ''consult.v1'', es_outcome = ''resolved'', es_role = ''leader'',
     es_leader_event = [], es_budget = 14336, es_actual = 321, es_task = ''t'',
     es_missing = [''scope''],
     es_selection = Some \<lparr>se_included = [\<lparr>sx_id = ''a'', sx_kind = ''k'', sx_reason = ''r'', sx_class = []\<rparr>],
       se_excluded = [], se_dom_included = [\<lparr>rc_reason = ''r'', rc_count = 1\<rparr>],
       se_dom_excluded = [], se_pressure = False\<rparr>\<rparr>"

lemma sample_texts:
  "valid_utf8 ''consult.v1''" "valid_utf8 ''f''" "valid_utf8 ''c''" "valid_utf8 ''resolved''" "valid_utf8 ''leader''"
  "valid_utf8 []" "valid_utf8 ''t''" "valid_utf8 ''scope''" "valid_utf8 ''a''" "valid_utf8 ''k''" "valid_utf8 ''r''"
  by code_simp+

theorem consult_event_roundtrip_witness:
  "ce_actual (consult_event_of \<lparr>ev_id = ''e'', ev_session = ''s'', ev_ts = 1,
     ev_kind = KindConsultResolved, ev_branch = ''main'', ev_parent = [], ev_refs = [],
     ev_meta = decoded_map (event_summary_meta sample_summary), ev_blob = []\<rparr>) = 321"
  by (subst consult_event_roundtrip [of sample_summary])
     (simp_all add: sample_summary_def selection_readable_def sx_readable_def rc_readable_def sample_texts
        summary_exact_def item_exact_def count_exact_def)

text \<open>A log with a fork and a rebuilt summary.\<close>

definition log_event :: "string \<Rightarrow> string \<Rightarrow> string \<Rightarrow> gomap \<Rightarrow> event" where
  "log_event eid kind bid meta = \<lparr>ev_id = eid, ev_session = ''s'', ev_ts = 1, ev_kind = kind,
     ev_branch = bid, ev_parent = [], ev_refs = [], ev_meta = meta, ev_blob = []\<rparr>"

definition sample_log :: "event list" where
  "sample_log =
     [log_event ''a'' KindTurnUser ''main'' [],
      log_event ''b'' KindBranchFork ''alt'' [(''parent_branch_id'', VStr ''main'')],
      log_event ''c'' KindTurnAgent ''main'' [],
      log_event ''d'' KindSummaryRebuild ''main'' [(''summary_id'', VStr ''x''), (''basis_event_id'', VStr ''a'')]]"

theorem rebuild_branches_refines_heads_witness:
  "\<exists>bs. rebuild_branches sample_log = Inr bs \<and> map_option br_head (bs ''main'') = Some ''a''
     \<and> map_option br_head (bs ''alt'') = Some ''b'' \<and> bs ''other'' = None"
proof -
  have "list_all (\<lambda>e. event_validate e = None) sample_log"
    by (simp add: sample_log_def log_event_def event_validate_def KindTurnUser_def KindBranchFork_def
        KindTurnAgent_def KindSummaryRebuild_def)
  with rebuild_branches_refines_heads [of sample_log]
  obtain bs where bs: "rebuild_branches sample_log = Inr bs"
      "map_option br_head \<circ> bs = fold head_step sample_log Map.empty" by blast
  have "fold head_step sample_log Map.empty = [''main'' \<mapsto> ''a'', ''alt'' \<mapsto> ''b'']"
    by (simp add: sample_log_def log_event_def head_step_def place_heads_def move_heads_def ensure_head_def
        meta_string_def KindTurnUser_def KindBranchFork_def KindTurnAgent_def KindSummaryRebuild_def
        KindSummaryCheckpoint_def Let_def fun_eq_iff)
  with bs(2) have "map_option br_head (bs k) = [''main'' \<mapsto> ''a'', ''alt'' \<mapsto> ''b''] k" for k
    by (metis comp_apply)
  from this [of "''main''"] this [of "''alt''"] this [of "''other''"] bs(1) show ?thesis by simp
qed

end
