(* ===== verification/CompactAst.thy ===== *)
theory CompactAst
  imports GoStrings Eventlog "HOL-Library.AList"
begin

text \<open>
  \<open>internal/compactor/schema.go\<close>: the tree of memory leaves that a compaction produces, its validation,
  the parsing of the model's structured answer into it, and the prompt. With it comes
  \<open>SerializeForCompaction\<close> of \<open>internal/eventlog\<close>.

  Importances are exact rationals. The map of leaves is an association list in the order of a
  \<open>range\<close> over it. \<open>json.Unmarshal\<close> into the response type, and the formatting of times, are
  parameters.
\<close>

subsection \<open>Leaves\<close>

definition ErrEmptyLeaf :: goerr where
  "ErrEmptyLeaf = Sentinel ''compactor.ErrEmptyLeaf'' ''memory leaf has no content''"
definition ErrInvalidDepth :: goerr where
  "ErrInvalidDepth = Sentinel ''compactor.ErrInvalidDepth'' ''invalid leaf depth''"
definition ErrInvalidImportance :: goerr where
  "ErrInvalidImportance =
     Sentinel ''compactor.ErrInvalidImportance'' (''importance must be 0.0'' @ en_dash @ ''1.0'')"
definition ErrASTTooDeep :: goerr where
  "ErrASTTooDeep = Sentinel ''compactor.ErrASTTooDeep'' ''AST exceeds max depth''"
definition ErrCircularRef :: goerr where
  "ErrCircularRef = Sentinel ''compactor.ErrCircularRef'' ''circular leaf reference''"
definition ErrSchemaValidation :: goerr where
  "ErrSchemaValidation = Sentinel ''compactor.ErrSchemaValidation'' ''schema validation failed''"
definition ErrEmptyRoot :: goerr where
  "ErrEmptyRoot = Sentinel ''compactor.ErrEmptyRoot'' ''AST must have exactly one root''"

definition MaxASTDepth :: int where "MaxASTDepth = 4"
definition MaxLeavesPerCluster :: int where "MaxLeavesPerCluster = 8"
definition MinLeavesPerCluster :: int where "MinLeavesPerCluster = 2"
definition MaxClustersPerSection :: int where "MaxClustersPerSection = 5"
definition MaxSections :: int where "MaxSections = 3"

definition LeafKindEvent :: string where "LeafKindEvent = ''event''"
definition LeafKindCluster :: string where "LeafKindCluster = ''cluster''"
definition LeafKindSection :: string where "LeafKindSection = ''section''"
definition LeafKindRoot :: string where "LeafKindRoot = ''root''"

lemmas leaf_kinds = LeafKindEvent_def LeafKindCluster_def LeafKindSection_def LeafKindRoot_def

record memory_leaf =
  lf_id :: string
  lf_kind :: string
  lf_depth :: int
  lf_parent :: string
  lf_children :: "string list"
  lf_summary :: string
  lf_full :: string
  lf_refs :: "string list"
  lf_importance :: rat
  lf_timestamp :: string
  lf_tags :: "string list"
  lf_bytes :: int

definition empty_leaf :: memory_leaf where
  "empty_leaf = \<lparr>lf_id = [], lf_kind = [], lf_depth = 0, lf_parent = [], lf_children = [], lf_summary = [],
     lf_full = [], lf_refs = [], lf_importance = 0, lf_timestamp = [], lf_tags = [], lf_bytes = 0\<rparr>"

definition leaf_validate :: "memory_leaf \<Rightarrow> goerr option" where
  "leaf_validate l =
     (if lf_id l = [] then Some ErrEmptyLeaf
      else if lf_summary l = [] \<and> lf_full l = [] \<and> lf_refs l = [] then Some ErrEmptyLeaf
      else if lf_depth l < 0 \<or> MaxASTDepth \<le> lf_depth l then Some ErrInvalidDepth
      else if lf_importance l < 0 \<or> 1 < lf_importance l then Some ErrInvalidImportance
      else if lf_kind l = LeafKindEvent then (if lf_depth l \<noteq> 0 then Some ErrSchemaValidation else None)
      else if lf_kind l = LeafKindCluster then (if lf_depth l \<noteq> 1 then Some ErrSchemaValidation else None)
      else if lf_kind l = LeafKindSection then (if lf_depth l \<noteq> 2 then Some ErrSchemaValidation else None)
      else if lf_kind l = LeafKindRoot then (if lf_depth l \<noteq> 3 then Some ErrSchemaValidation else None)
      else Some ErrSchemaValidation)"

subsection \<open>The tree\<close>

type_synonym leaf_map = "(string \<times> memory_leaf) list"

record token_ast =
  ta_session :: string
  ta_branch :: string
  ta_compacted_at :: string
  ta_model :: string
  ta_input_tokens :: int
  ta_output_tokens :: int
  ta_root :: string
  ta_leaves :: leaf_map
  ta_coverage :: "string list"
  ta_reduction :: int

text \<open>The checks of \<open>validateSubtree\<close> on one leaf, before it turns to the children.\<close>

definition leaf_in_tree :: "leaf_map \<Rightarrow> string \<Rightarrow> memory_leaf result" where
  "leaf_in_tree leaves lid =
     (case map_of leaves lid of
        None \<Rightarrow> Inl (Adhoc (''leaf '' @ go_quote lid @ '' referenced but not defined''))
      | Some leaf \<Rightarrow>
        (case leaf_validate leaf of
           Some e \<Rightarrow> Inl (Wrapped (''leaf '' @ go_quote lid @ '': '' @ err_msg e) e)
         | None \<Rightarrow>
           if lf_parent leaf = [] then Inr leaf
           else case map_of leaves (lf_parent leaf) of
             None \<Rightarrow> Inl (Adhoc (''leaf '' @ go_quote lid @ '' parent '' @ go_quote (lf_parent leaf) @ '' not found''))
           | Some parent \<Rightarrow>
             if lf_depth parent \<noteq> lf_depth leaf + 1
             then Inl (Adhoc (''leaf '' @ go_quote lid @ '' depth '' @ int_str (lf_depth leaf) @ '', parent ''
                    @ go_quote (lf_parent leaf) @ '' depth '' @ int_str (lf_depth parent)
                    @ '' (want '' @ int_str (lf_depth leaf + 1) @ '')''))
             else Inr leaf))"

lemma leaf_in_tree_defined: "leaf_in_tree leaves lid = Inr leaf \<Longrightarrow> map_of leaves lid = Some leaf"
  by (auto simp: leaf_in_tree_def Let_def split: option.splits if_splits)

text \<open>
  \<open>validateSubtree\<close> over the ids that are still to be visited: the children of a leaf come before the
  siblings that its callers have pending. \<open>visited\<close> is the shared map, its result the map afterwards.
  It terminates on every map of leaves, also a cyclic one, since each visited leaf is a new one.
\<close>

function validate_ids :: "leaf_map \<Rightarrow> string list \<Rightarrow> string list \<Rightarrow> string list result" where
  "validate_ids leaves visited [] = Inr visited"
| "validate_ids leaves visited (lid # pending) =
     (if lid \<in> set visited then Inl ErrCircularRef
      else case leaf_in_tree leaves lid of
        Inl e \<Rightarrow> Inl e
      | Inr leaf \<Rightarrow> validate_ids leaves (lid # visited) (lf_children leaf @ pending))"
  by pat_completeness auto

termination
proof (relation "measures [\<lambda>(leaves, visited, ids). card (fst ` set leaves - set visited), \<lambda>(leaves, visited, ids). length ids]")
  fix leaves :: leaf_map and visited pending :: "string list" and lid leaf
  assume "lid \<notin> set visited" "leaf_in_tree leaves lid = Inr leaf"
  then have "lid \<in> fst ` set leaves - set visited"
    by (auto dest!: leaf_in_tree_defined map_of_SomeD intro: rev_image_eqI)
  then have "card (fst ` set leaves - set (lid # visited)) < card (fst ` set leaves - set visited)"
    by (intro psubset_card_mono) auto
  then show "((leaves, lid # visited, lf_children leaf @ pending), (leaves, visited, lid # pending))
      \<in> measures [\<lambda>(leaves, visited, ids). card (fst ` set leaves - set visited), \<lambda>(leaves, visited, ids). length ids]"
    by simp
qed simp

text \<open>The loop over children is the recursion of the code: one subtree after the other.\<close>

definition validate_subtree :: "leaf_map \<Rightarrow> string list \<Rightarrow> string \<Rightarrow> string list result" where
  "validate_subtree leaves visited lid = validate_ids leaves visited [lid]"

lemma validate_ids_append:
  "validate_ids leaves visited (xs @ ys) =
     result_bind (validate_ids leaves visited xs) (\<lambda>v. validate_ids leaves v ys)"
  by (induction leaves visited xs rule: validate_ids.induct) (auto split: sum.split)

lemma validate_subtree_rec:
  "validate_subtree leaves visited lid =
     (if lid \<in> set visited then Inl ErrCircularRef
      else result_bind (leaf_in_tree leaves lid)
        (\<lambda>leaf. validate_ids leaves (lid # visited) (lf_children leaf)))"
  "validate_ids leaves visited (child # rest) =
     result_bind (validate_subtree leaves visited child) (\<lambda>v. validate_ids leaves v rest)"
  using validate_ids_append [of leaves visited "[child]" rest]
  by (auto simp: validate_subtree_def split: sum.split)

definition ast_validate :: "token_ast \<Rightarrow> goerr option" where
  "ast_validate ast =
     (if ta_root ast = [] then Some ErrEmptyRoot
      else case map_of (ta_leaves ast) (ta_root ast) of
        None \<Rightarrow> Some ErrEmptyRoot
      | Some rt \<Rightarrow>
        (case leaf_validate rt of
           Some e \<Rightarrow> Some (Wrapped (''root leaf: '' @ err_msg e) e)
         | None \<Rightarrow>
           if lf_kind rt \<noteq> LeafKindRoot then Some ErrEmptyRoot
           else (case validate_subtree (ta_leaves ast) [] (ta_root ast) of
             Inl e \<Rightarrow> Some e
           | Inr _ \<Rightarrow> None)))"

definition leaves_by_depth :: "token_ast \<Rightarrow> int \<Rightarrow> memory_leaf list" where
  "leaves_by_depth ast depth =
     go_sort (\<lambda>a b. lf_importance b < lf_importance a)
       (filter (\<lambda>l. lf_depth l = depth) (map snd (ta_leaves ast)))"

record tier_stat =
  ti_depth :: int
  ti_count :: int
  ti_target :: int
  ti_deviation :: rat

definition tier_targets :: "int list" where
  "tier_targets = [13, 5, 2, 1]"

definition fibonacci_tier_stats :: "token_ast \<Rightarrow> tier_stat list" where
  "fibonacci_tier_stats ast =
     map (\<lambda>d. let count = int (length (filter (\<lambda>l. lf_depth l = int d) (map snd (ta_leaves ast))));
                  target = (if d < length tier_targets then tier_targets ! d else 1)
              in \<lparr>ti_depth = int d, ti_count = count, ti_target = target,
                  ti_deviation = rat_of_int count - rat_of_int target\<rparr>)
       [0..<nat MaxASTDepth]"

subsection \<open>The structured answer\<close>

datatype gemini_leaf =
  GeminiLeaf (gn_id: string) (gn_kind: string) (gn_summary: string) (gn_refs: "string list")
    (gn_tags: "string list") (gn_importance: rat) (gn_children: "gemini_leaf list")

record gemini_metrics =
  gs_themes :: int
  gs_events :: int
  gs_ratio :: rat
  gs_confidence :: rat

record gemini_response =
  gz_root :: gemini_leaf
  gz_summary :: string
  gz_metrics :: gemini_metrics

definition schema_type :: "string \<Rightarrow> goval" where
  "schema_type t = VMap [(''type'', VStr t)]"

definition schema_desc :: "string \<Rightarrow> string \<Rightarrow> goval" where
  "schema_desc t d = VMap [(''type'', VStr t), (''description'', VStr d)]"

definition string_array :: goval where
  "string_array = VMap [(''type'', VStr ''array''), (''items'', schema_type ''string'')]"

function leaf_node_schema :: "int \<Rightarrow> goval" where
  "leaf_node_schema depth =
     (let properties =
        [(''id'', schema_desc ''string'' ''Unique leaf identifier''),
         (''kind'', VMap [(''type'', VStr ''string''),
            (''enum'', VStrs [''event'', ''cluster'', ''section'', ''root''])]),
         (''summary'', schema_desc ''string'' ''Essence, not word reduction''),
         (''event_refs'', string_array), (''tags'', string_array),
         (''importance'', schema_desc ''number'' (''0.0'' @ en_dash @ ''1.0 within this tier''))]
      in VMap
        [(''type'', VStr ''object''),
         (''required'', VStrs [''id'', ''kind'', ''summary'', ''importance'']),
         (''properties'', VMap (properties @
            (if depth < MaxASTDepth - 1
             then [(''children'', VMap [(''type'', VStr ''array''), (''items'', leaf_node_schema (depth + 1))])]
             else [])))])"
  by pat_completeness auto
termination
  by (relation "measure (\<lambda>depth. nat (MaxASTDepth - 1 - depth))") auto

declare leaf_node_schema.simps [simp del]

definition response_schema :: goval where
  "response_schema =
     VMap [(''type'', VStr ''object''),
       (''required'', VStrs [''root'', ''summary'', ''metrics'']),
       (''properties'', VMap
         [(''root'', leaf_node_schema 0),
          (''summary'', schema_desc ''string'' ''One-paragraph distillation of the conversation essence''),
          (''metrics'', VMap
            [(''type'', VStr ''object''),
             (''required'', VStrs [''themes_identified'', ''events_processed'', ''compression_ratio'',
                ''confidence_score'']),
             (''properties'', VMap
               [(''themes_identified'', schema_type ''integer''), (''events_processed'', schema_type ''integer''),
                (''compression_ratio'', schema_type ''number''),
                (''confidence_score'', schema_type ''number'')])])])]"

definition parse_leaf_kind :: "string \<Rightarrow> string result" where
  "parse_leaf_kind s =
     (if s \<in> {LeafKindEvent, LeafKindCluster, LeafKindSection, LeafKindRoot} then Inr s
      else Inl (Adhoc (''unknown leaf kind: '' @ go_quote s)))"

definition fib_depth :: "int \<Rightarrow> int" where
  "fib_depth tree_depth = (let d = MaxASTDepth - 1 - tree_depth in if d < 0 then 0 else d)"

definition leaf_of_node :: "gemini_leaf \<Rightarrow> string \<Rightarrow> string \<Rightarrow> int \<Rightarrow> memory_leaf" where
  "leaf_of_node node kind parent tree_depth =
     empty_leaf\<lparr>lf_id := gn_id node, lf_kind := kind, lf_depth := fib_depth tree_depth, lf_parent := parent,
       lf_children := map gn_id (gn_children node), lf_summary := gn_summary node,
       lf_refs := gn_refs node, lf_importance := gn_importance node, lf_tags := gn_tags node\<rparr>"

text \<open>\<open>flattenGeminiNode\<close>: the kind is checked first, the children are stored before the node.\<close>

fun flatten_node :: "gemini_leaf \<Rightarrow> string \<Rightarrow> int \<Rightarrow> leaf_map \<Rightarrow> leaf_map result"
and flatten_nodes :: "gemini_leaf list \<Rightarrow> string \<Rightarrow> int \<Rightarrow> leaf_map \<Rightarrow> leaf_map result" where
  "flatten_node (GeminiLeaf nid kind0 sm refs tags imp children) parent tree_depth leaves =
     (case parse_leaf_kind kind0 of
        Inl e \<Rightarrow> Inl e
      | Inr kind \<Rightarrow>
        (case flatten_nodes children nid (tree_depth + 1) leaves of
           Inl e \<Rightarrow> Inl e
         | Inr leaves1 \<Rightarrow>
           Inr (AList.update nid
             (leaf_of_node (GeminiLeaf nid kind0 sm refs tags imp children) kind parent tree_depth) leaves1)))"
| "flatten_nodes [] parent tree_depth leaves = Inr leaves"
| "flatten_nodes (n # ns) parent tree_depth leaves =
     (case flatten_node n parent tree_depth leaves of
        Inl e \<Rightarrow> Inl e
      | Inr leaves1 \<Rightarrow> flatten_nodes ns parent tree_depth leaves1)"

fun dedup_seen :: "string list \<Rightarrow> string list \<Rightarrow> string list" where
  "dedup_seen seen [] = []"
| "dedup_seen seen (s # ss) = (if s \<in> set seen then dedup_seen seen ss else s # dedup_seen (s # seen) ss)"

definition deduplicate_strings :: "string list \<Rightarrow> string list" where
  "deduplicate_strings xs = dedup_seen [] xs"

lemma set_dedup_seen: "set (dedup_seen seen xs) = set xs - set seen"
  by (induction seen xs rule: dedup_seen.induct) auto

lemma set_deduplicate_strings: "set (deduplicate_strings xs) = set xs"
  by (simp add: deduplicate_strings_def set_dedup_seen)

text \<open>
  \<open>ParseGeminiResponse\<close>: \<open>decode\<close> is \<open>json.Unmarshal\<close>, \<open>range_order\<close> the order in which the loop over
  the map of leaves happens to run, \<open>now\<close> the formatted time.
\<close>

definition parse_gemini_response ::
  "(string \<Rightarrow> gemini_response result) \<Rightarrow> (leaf_map \<Rightarrow> leaf_map) \<Rightarrow> string \<Rightarrow> string \<Rightarrow> string \<Rightarrow> string
   \<Rightarrow> token_ast result" where
  "parse_gemini_response decode range_order now raw session branch =
     (case decode raw of
        Inl e \<Rightarrow> Inl (Wrapped (''parse gemini response: '' @ err_msg e) e)
      | Inr resp \<Rightarrow>
        (case flatten_node (gz_root resp) [] 0 [] of
           Inl e \<Rightarrow> Inl e
         | Inr leaves \<Rightarrow>
           Inr \<lparr>ta_session = session, ta_branch = branch, ta_compacted_at = now,
                ta_model = ''gemini-2.5-flash'', ta_input_tokens = 0, ta_output_tokens = 0,
                ta_root = gn_id (gz_root resp), ta_leaves = range_order leaves,
                ta_coverage = deduplicate_strings (concat (map (\<lambda>l. lf_refs (snd l)) (range_order leaves))),
                ta_reduction = 0\<rparr>))"

subsection \<open>The prompt\<close>

record serialized_event =
  se_id :: string
  se_kind :: string
  se_branch :: string
  se_ts :: string
  se_text :: string
  se_summary :: string
  se_blob :: string

definition serialize_for_compaction :: "(gotime \<Rightarrow> string) \<Rightarrow> event \<Rightarrow> serialized_event" where
  "serialize_for_compaction format_time e =
     \<lparr>se_id = ev_id e, se_kind = ev_kind e, se_branch = ev_branch e, se_ts = format_time (ev_ts e),
      se_text = meta_string (ev_meta e) ''text'', se_summary = meta_string (ev_meta e) ''summary'',
      se_blob = ev_blob e\<rparr>"

definition truncate_str :: "string \<Rightarrow> int \<Rightarrow> string" where
  "truncate_str s max_len =
     (if int (length s) \<le> max_len then s else take (nat (max_len - 3)) s @ ''...'')"

definition format_event_for_prompt :: "serialized_event \<Rightarrow> string" where
  "format_event_for_prompt ev =
     ''['' @ se_id ev @ ''] '' @ se_kind ev @ '' (branch: '' @ se_branch ev @ '')''
     @ (if se_text ev = [] then [] else newline @ ''Content: '' @ truncate_str (se_text ev) 512)
     @ (if se_summary ev = [] then [] else newline @ ''Summary: '' @ se_summary ev)"

definition compaction_system_prompt :: string where
  "compaction_system_prompt = str_join newline
     [''You are a conversation compactor. Your job is to distill the essence of a conversation'',
      ''history into a structured memory leaflet AST. This is NOT a summary that reduces words '' @ em_dash,
      ''it is a distillation that extracts what matters.'',
      [],
      ''Rules:'',
      ''1. Group related events into thematic clusters (2'' @ en_dash @ ''8 events each)'',
      ''2. Group clusters into major sections (2'' @ en_dash @ ''5 clusters each)'',
      ''3. Create exactly one root node covering all sections'',
      ''4. Every leaf must have an importance score (0.0'' @ en_dash @ ''1.0) within its tier'',
      ''5. Tags should be 1'' @ en_dash @ ''3 word descriptors of the theme'',
      ''6. Summaries must capture WHY something matters, not just WHAT happened'',
      ''7. Event refs must use the original event IDs from the input'',
      ''8. The tree depth must not exceed 4 levels'',
      [],
      ''The output must be valid JSON matching the schema exactly.'']"

definition compaction_format :: string where
  "compaction_format = str_join newline
     [[],
      ''---'',
      [],
      ''OUTPUT FORMAT (MANDATORY):'',
      ''Return JSON matching this structure exactly:'',
      ''{'',
      ''  \"root\": {'',
      ''    \"id\": \"root-0\",'',
      ''    \"kind\": \"root\",'',
      ''    \"summary\": \"...\",'',
      ''    \"importance\": 1.0,'',
      ''    \"children\": ['',
      ''      {'',
      ''        \"id\": \"section-0\",'',
      ''        \"kind\": \"section\",'',
      ''        \"summary\": \"...\",'',
      ''        \"importance\": 0.8,'',
      ''        \"children\": ['',
      ''          {'',
      ''            \"id\": \"cluster-0\",'',
      ''            \"kind\": \"cluster\",'',
      ''            \"summary\": \"...\",'',
      ''            \"importance\": 0.7,'',
      ''            \"event_refs\": [\"evt-1\"],'',
      ''            \"tags\": [\"topic\"],'',
      ''            \"children\": ['',
      ''              {'',
      ''                \"id\": \"leaf-0\",'',
      ''                \"kind\": \"event\",'',
      ''                \"summary\": \"...\",'',
      ''                \"importance\": 0.5,'',
      ''                \"event_refs\": [\"evt-1\"]'',
      ''              }'',
      ''            ]'',
      ''          }'',
      ''        ]'',
      ''      }'',
      ''    ]'',
      ''  },'',
      ''  \"summary\": \"One paragraph distillation\",'',
      ''  \"metrics\": {'',
      ''    \"themes_identified\": N,'',
      ''    \"events_processed\": N,'',
      ''    \"compression_ratio\": 0.N,'',
      ''    \"confidence_score\": 0.N'',
      ''  }'',
      ''}'',
      [],
      ''Remember: Close with }'']"

definition build_compaction_prompt :: "serialized_event list \<Rightarrow> string \<Rightarrow> string \<times> string" where
  "build_compaction_prompt events branch =
     (compaction_system_prompt,
      ''Branch: '' @ branch @ newline @ ''Events to compact ('' @ int_str (int (length events)) @ '' total):''
      @ newline @ newline
      @ str_join (newline @ ''---'' @ newline) (map format_event_for_prompt events)
      @ newline @ compaction_format)"

subsection \<open>Sizes\<close>

definition estimate_ast_bytes :: "token_ast \<Rightarrow> int" where
  "estimate_ast_bytes ast =
     (\<Sum>l \<leftarrow> map snd (ta_leaves ast).
        int (length (lf_summary l)) + int (length (lf_full l)) + (\<Sum>t \<leftarrow> lf_tags l. int (length t))
        + (int (length (lf_id l)) + 64))"

text \<open>\<open>math.Round\<close> of a number that is not negative.\<close>

definition round_half_up :: "rat \<Rightarrow> rat" where
  "round_half_up q = rat_of_int \<lfloor>q + 1 / 2\<rfloor>"

definition approximate_compression_ratio :: "int \<Rightarrow> token_ast \<Rightarrow> rat" where
  "approximate_compression_ratio raw_bytes ast =
     (if raw_bytes = 0 then 0
      else let ast_bytes = estimate_ast_bytes ast in
      if raw_bytes \<le> ast_bytes then 1
      else round_half_up ((1 - rat_of_int ast_bytes / rat_of_int raw_bytes) * 100) / 100)"

end
