(* ===== verification/AstShape.thy ===== *)
theory AstShape
  imports CompactAst "HOL-Library.Multiset"
begin

text \<open>
  Which answers of the compaction model survive parsing and validation: exactly the trees of at most four
  levels whose identifiers are all different and whose nodes fit their level. Flattening stores nodes by
  identifier and a later node silently replaces an earlier one, so that validation notices every such
  replacement is not obvious; the argument counts the visits of the traversal.
\<close>

subsection \<open>The shape of an answer\<close>

definition level_kind :: "int \<Rightarrow> string" where
  "level_kind d = (if d = 0 then LeafKindRoot else if d = 1 then LeafKindSection
                   else if d = 2 then LeafKindCluster else LeafKindEvent)"

fun node_ok :: "int \<Rightarrow> gemini_leaf \<Rightarrow> bool" where
  "node_ok d (GeminiLeaf nid kind sm refs tags imp children) \<longleftrightarrow>
     d \<le> 3 \<and> nid \<noteq> [] \<and> (sm \<noteq> [] \<or> refs \<noteq> []) \<and> 0 \<le> imp \<and> imp \<le> 1 \<and> kind = level_kind d
     \<and> list_all (node_ok (d + 1)) children"

fun node_ids :: "gemini_leaf \<Rightarrow> string list" where
  "node_ids (GeminiLeaf nid kind sm refs tags imp children) = nid # concat (map node_ids children)"

fun kinds_known :: "gemini_leaf \<Rightarrow> bool" where
  "kinds_known (GeminiLeaf nid kind sm refs tags imp children) \<longleftrightarrow>
     is_ok (parse_leaf_kind kind) \<and> list_all kinds_known children"

text \<open>The leaves in the order in which they are stored.\<close>

fun node_leaves :: "gemini_leaf \<Rightarrow> string \<Rightarrow> int \<Rightarrow> memory_leaf list" where
  "node_leaves (GeminiLeaf nid kind sm refs tags imp children) parent d =
     concat (map (\<lambda>c. node_leaves c nid (d + 1)) children)
     @ [leaf_of_node (GeminiLeaf nid kind sm refs tags imp children) kind parent d]"

definition forest_leaves :: "gemini_leaf list \<Rightarrow> string \<Rightarrow> int \<Rightarrow> memory_leaf list" where
  "forest_leaves ns parent d = concat (map (\<lambda>c. node_leaves c parent d) ns)"

lemma forest_leaves_simps [simp]:
  "forest_leaves [] parent d = []"
  "forest_leaves (n # ns) parent d = node_leaves n parent d @ forest_leaves ns parent d"
  by (simp_all add: forest_leaves_def)

lemma node_leaves_eq:
  "node_leaves n parent d = forest_leaves (gn_children n) (gn_id n) (d + 1) @ [leaf_of_node n (gn_kind n) parent d]"
  by (cases n) (simp add: forest_leaves_def)

declare node_leaves.simps [simp del]

lemma leaf_of_node_simps [simp]:
  "lf_id (leaf_of_node n k parent d) = gn_id n"
  "lf_children (leaf_of_node n k parent d) = map gn_id (gn_children n)"
  "lf_parent (leaf_of_node n k parent d) = parent"
  "lf_depth (leaf_of_node n k parent d) = fib_depth d"
  "lf_kind (leaf_of_node n k parent d) = k"
  by (simp_all add: leaf_of_node_def)

definition store_leaf :: "memory_leaf \<Rightarrow> leaf_map \<Rightarrow> leaf_map" where
  "store_leaf l leaves = AList.update (lf_id l) l leaves"

lemma parse_leaf_kind_Inr: "parse_leaf_kind k = Inr k' \<Longrightarrow> k' = k"
  by (auto simp: parse_leaf_kind_def split: if_splits)

lemma flatten_ok:
  shows "is_ok (flatten_node n parent d leaves) \<longleftrightarrow> kinds_known n"
    and "is_ok (flatten_nodes ns parent d leaves) \<longleftrightarrow> list_all kinds_known ns"
  by (induction n parent d leaves and ns parent d leaves rule: flatten_node_flatten_nodes.induct)
    (auto split: sum.split)

lemma flatten_result:
  shows "flatten_node n parent d leaves = Inr r \<Longrightarrow> r = fold store_leaf (node_leaves n parent d) leaves"
    and "flatten_nodes ns parent d leaves = Inr r \<Longrightarrow> r = fold store_leaf (forest_leaves ns parent d) leaves"
  by (induction n parent d leaves and ns parent d leaves arbitrary: r and r
      rule: flatten_node_flatten_nodes.induct)
    (auto simp: node_leaves_eq store_leaf_def [abs_def] dest!: parse_leaf_kind_Inr split: sum.splits)

text \<open>What is stored under an identifier is the last leaf that has it.\<close>

lemma map_of_fold_store:
  "map_of (fold store_leaf E leaves) k =
     (case find (\<lambda>l. lf_id l = k) (rev E) of None \<Rightarrow> map_of leaves k | Some l \<Rightarrow> Some l)"
proof (induction E arbitrary: leaves)
  case (Cons l E)
  then show ?case
    by (auto simp: store_leaf_def update_conv' find_snoc split: option.splits)
qed simp

lemma distinct_fold_store: "distinct (map fst leaves) \<Longrightarrow> distinct (map fst (fold store_leaf E leaves))"
  by (induction E arbitrary: leaves) (simp_all add: store_leaf_def AList.distinct_update)

lemma find_append_here: "find P xs = None \<Longrightarrow> P y \<Longrightarrow> find P (xs @ y # ys) = Some y"
  by (induction xs) (auto split: if_splits)

lemma find_rev_last:
  assumes "distinct (map lf_id U)" "u \<in> set U"
  shows "find (\<lambda>l. lf_id l = lf_id u) (rev (A @ U)) = Some u"
proof -
  obtain B C where U: "U = B @ u # C" using assms(2) by (auto dest: split_list)
  have "lf_id u \<notin> lf_id ` set C"
    using assms(1) by (simp add: U)
  then have "find (\<lambda>l. lf_id l = lf_id u) (rev C) = None"
    unfolding find_None_iff by (metis image_eqI set_rev)
  moreover have "rev (A @ U) = rev C @ u # rev (A @ B)"
    by (simp add: U)
  ultimately show ?thesis by (simp add: find_append_here)
qed

subsection \<open>Counting the visits\<close>

abbreviation children_at :: "leaf_map \<Rightarrow> string \<Rightarrow> string multiset" where
  "children_at leaves k \<equiv> mset (lf_children (the (map_of leaves k)))"

lemma validate_ids_account:
  assumes "validate_ids leaves visited ids = Inr after"
  shows "\<exists>W. after = rev W @ visited \<and> distinct W \<and> set W \<inter> set visited = {}
     \<and> (\<forall>w \<in> set W. leaf_in_tree leaves w = Inr (the (map_of leaves w)))
     \<and> mset W = mset ids + (\<Sum>w \<leftarrow> W. children_at leaves w)"
  using assms
proof (induction leaves visited ids rule: validate_ids.induct)
  case (1 leaves visited)
  then show ?case by simp
next
  case (2 leaves visited lid pending)
  then obtain leaf where new: "lid \<notin> set visited" and leaf: "leaf_in_tree leaves lid = Inr leaf"
    and run: "validate_ids leaves (lid # visited) (lf_children leaf @ pending) = Inr after"
    by (auto split: if_splits sum.splits)
  from 2(1) [OF new leaf run] obtain W where W: "after = rev W @ lid # visited" "distinct W"
    "set W \<inter> set (lid # visited) = {}" "\<forall>w \<in> set W. leaf_in_tree leaves w = Inr (the (map_of leaves w))"
    "mset W = mset (lf_children leaf @ pending) + (\<Sum>w \<leftarrow> W. children_at leaves w)"
    by blast
  have "the (map_of leaves lid) = leaf"
    using leaf_in_tree_defined [OF leaf] by simp
  with W new leaf show ?case
    by (intro exI [of _ "lid # W"]) auto
qed

text \<open>
  Every leaf but the root is listed as a child by a leaf that is stored after it. Counted from any point
  of the order on, the leaves are among the root and the children of what comes strictly later.
\<close>

lemma forest_listed:
  assumes "\<And>n parent d. n \<in> set ns \<Longrightarrow> mset (map lf_id (node_leaves n parent d))
      = {#gn_id n#} + (\<Sum>u \<leftarrow> node_leaves n parent d. mset (lf_children u))"
  shows "mset (map lf_id (forest_leaves ns parent d))
      = mset (map gn_id ns) + (\<Sum>u \<leftarrow> forest_leaves ns parent d. mset (lf_children u))"
  using assms by (induction ns) (simp_all add: ac_simps)

lemma all_listed:
  "mset (map lf_id (node_leaves n parent d))
     = {#gn_id n#} + (\<Sum>u \<leftarrow> node_leaves n parent d. mset (lf_children u))"
proof (induction n arbitrary: parent d)
  case (GeminiLeaf nid kind sm refs tags imp children)
  show ?case
    unfolding node_leaves_eq gemini_leaf.sel
    using forest_listed [of children nid "d + 1", OF GeminiLeaf] by (simp add: ac_simps)
qed

lemma suffix_listed:
  "node_leaves n parent d = A @ x # U \<Longrightarrow>
     mset (map lf_id (x # U)) \<subseteq># {#gn_id n#} + (\<Sum>u \<leftarrow> U. mset (lf_children u))"
proof (induction n arbitrary: parent d A U)
  case (GeminiLeaf nid kind sm refs tags imp children)
  have forest: "mset (map lf_id (x # V)) \<subseteq># mset (map gn_id ns) + (\<Sum>u \<leftarrow> V. mset (lf_children u))"
    if "forest_leaves ns nid (d + 1) = B @ x # V" "set ns \<subseteq> set children" for ns B V
    using that
  proof (induction ns arbitrary: B)
    case (Cons n ns)
    consider (left) V1 where "node_leaves n nid (d + 1) = B @ x # V1" "V = V1 @ forest_leaves ns nid (d + 1)"
      | (right) B1 where "forest_leaves ns nid (d + 1) = B1 @ x # V"
      using Cons.prems(1) by (auto simp: append_eq_append_conv2 append_eq_Cons_conv Cons_eq_append_conv)
    then show ?case
    proof cases
      case left
      have "mset (map lf_id (x # V1)) \<subseteq># {#gn_id n#} + (\<Sum>u \<leftarrow> V1. mset (lf_children u))"
        using GeminiLeaf.IH left(1) Cons.prems(2) by simp
      then have "mset (map lf_id (x # V1)) + mset (map lf_id (forest_leaves ns nid (d + 1)))
          \<subseteq># {#gn_id n#} + (\<Sum>u \<leftarrow> V1. mset (lf_children u))
            + (mset (map gn_id ns) + (\<Sum>u \<leftarrow> forest_leaves ns nid (d + 1). mset (lf_children u)))"
        using forest_listed [of ns nid "d + 1", OF all_listed] by (intro subset_mset.add_mono) simp_all
      then show ?thesis by (simp add: left(2) ac_simps)
    next
      case right
      have "mset (map lf_id (x # V)) \<subseteq># mset (map gn_id ns) + (\<Sum>u \<leftarrow> V. mset (lf_children u))"
        using Cons.IH [OF right] Cons.prems(2) by simp
      also have "\<dots> \<subseteq># mset (map gn_id (n # ns)) + (\<Sum>u \<leftarrow> V. mset (lf_children u))"
        by simp
      finally show ?thesis .
    qed
  qed simp
  let ?n = "GeminiLeaf nid kind sm refs tags imp children"
  let ?leaf = "leaf_of_node ?n kind parent d"
  consider "x = ?leaf" "U = []"
    | V where "forest_leaves children nid (d + 1) = A @ x # V" "U = V @ [?leaf]"
    using GeminiLeaf.prems
    by (cases U rule: rev_cases) (auto simp: node_leaves_eq [of ?n])
  then show ?case
  proof cases
    case 1
    then show ?thesis by simp
  next
    case 2
    with forest [of children A V] show ?thesis by (simp add: ac_simps)
  qed
qed

lemma not_distinct_last:
  "\<not> distinct xs \<Longrightarrow> \<exists>A x U. xs = A @ x # U \<and> distinct U \<and> x \<in> set U"
proof (induction xs)
  case (Cons x xs)
  then show ?case
  proof (cases "distinct xs")
    case True
    with Cons.prems show ?thesis by (intro exI [of _ "[]"]) auto
  next
    case False
    with Cons.IH show ?thesis by (metis append_Cons)
  qed
qed simp

subsection \<open>An answer that validates has different identifiers everywhere\<close>

lemma sum_list_mono_mset:
  fixes f :: "string \<Rightarrow> string multiset"
  assumes "distinct xs" "distinct ys" "set xs \<subseteq> set ys"
  shows "(\<Sum>x \<leftarrow> xs. f x) \<subseteq># (\<Sum>y \<leftarrow> ys. f y)"
proof -
  have "(\<Sum>y \<leftarrow> ys. f y) = sum f (set ys - set xs) + sum f (set xs)"
    using assms by (simp add: sum_list_distinct_conv_sum_set sum.subset_diff)
  then show ?thesis
    using assms(1) by (simp add: sum_list_distinct_conv_sum_set)
qed

lemma in_sum_list_mset: "x \<in># (\<Sum>u \<leftarrow> us. mset (f u)) \<longleftrightarrow> (\<exists>u \<in> set us. x \<in> set (f u))"
  by (induction us) auto

lemma member_le_sum_list_mset: "w \<in> set W \<Longrightarrow> children_at leaves w \<subseteq># (\<Sum>w \<leftarrow> W. children_at leaves w)"
  by (induction W) (auto intro: subset_mset.order_trans)

text \<open>\<open>leaves\<close> as the map of a flattened tree, in any order.\<close>

definition flattened :: "memory_leaf list \<Rightarrow> leaf_map \<Rightarrow> bool" where
  "flattened E leaves \<longleftrightarrow> (\<forall>k. map_of leaves k = find (\<lambda>l. lf_id l = k) (rev E))"

lemma flattened_last:
  "flattened E leaves \<Longrightarrow> E = A @ U \<Longrightarrow> distinct (map lf_id U) \<Longrightarrow> u \<in> set U
    \<Longrightarrow> map_of leaves (lf_id u) = Some u"
  by (simp only: flattened_def find_rev_last)

lemma suffix_visited:
  assumes "flattened (node_leaves n parent d) leaves"
    and W: "mset W = {#gn_id n#} + (\<Sum>w \<leftarrow> W. children_at leaves w)"
    and "node_leaves n parent d = A @ U" "distinct (map lf_id U)"
  shows "lf_id ` set U \<subseteq> set W"
  using assms(3,4)
proof (induction U arbitrary: A)
  case (Cons x U)
  have IH: "lf_id ` set U \<subseteq> set W"
    using Cons.IH [of "A @ [x]"] Cons.prems by simp
  have "set (lf_children u) \<subseteq> set W" if "u \<in> set U" for u
  proof -
    have "map_of leaves (lf_id u) = Some u"
      using flattened_last [OF assms(1) Cons.prems(1) Cons.prems(2)] that by simp
    moreover have "lf_id u \<in> set W" using IH that by blast
    ultimately have "mset (lf_children u) \<subseteq># (\<Sum>w \<leftarrow> W. children_at leaves w)"
      using member_le_sum_list_mset [of "lf_id u" W leaves] by simp
    then have "mset (lf_children u) \<subseteq># mset W"
      unfolding W by (rule subset_mset.order_trans) simp
    then show ?thesis
      using set_mset_mono by fastforce
  qed
  moreover have "lf_id x = gn_id n \<or> (\<exists>u \<in> set U. lf_id x \<in> set (lf_children u))"
  proof -
    have "lf_id x \<in># {#gn_id n#} + (\<Sum>u \<leftarrow> U. mset (lf_children u))"
      by (rule mset_subset_eqD [OF suffix_listed [OF Cons.prems(1)]]) simp
    then show ?thesis
      unfolding union_iff in_sum_list_mset by (simp only: set_mset_single singleton_iff set_mset_add_mset_insert insert_iff set_mset_empty empty_iff simp_thms)
  qed
  moreover have "gn_id n \<in># mset W"
    unfolding W by simp
  ultimately show ?case using IH by auto
qed simp

lemma validated_distinct:
  assumes flat: "flattened (node_leaves n parent d) leaves"
    and run: "validate_ids leaves [] [gn_id n] = Inr after"
  shows "distinct (map lf_id (node_leaves n parent d))"
    and "u \<in> set (node_leaves n parent d) \<Longrightarrow> leaf_in_tree leaves (lf_id u) = Inr u"
proof -
  from validate_ids_account [OF run] obtain W where W: "distinct W"
    "\<And>w. w \<in> set W \<Longrightarrow> leaf_in_tree leaves w = Inr (the (map_of leaves w))"
    "mset W = {#gn_id n#} + (\<Sum>w \<leftarrow> W. children_at leaves w)"
    by auto
  let ?E = "node_leaves n parent d"
  show dist: "distinct (map lf_id ?E)"
  proof (rule ccontr)
    assume "\<not> distinct (map lf_id ?E)"
    then obtain A0 k U0 where split: "map lf_id ?E = A0 @ k # U0" "distinct U0" "k \<in> set U0"
      by (blast dest: not_distinct_last)
    then obtain A x U where E: "?E = A @ x # U" "U0 = map lf_id U" "k = lf_id x"
      by (auto simp: map_eq_append_conv map_eq_Cons_conv)
    with split have U: "distinct (map lf_id U)" "lf_id x \<in> set (map lf_id U)" by simp_all
    have E': "?E = (A @ [x]) @ U" by (simp add: E)
    have visited: "lf_id ` set U \<subseteq> set W"
      by (rule suffix_visited [OF flat W(3) E' U(1)])
    have "mset (lf_children u) = children_at leaves (lf_id u)" if "u \<in> set U" for u
      using flattened_last [OF flat E' U(1) that] by simp
    then have "(\<Sum>u \<leftarrow> U. mset (lf_children u)) = (\<Sum>w \<leftarrow> map lf_id U. children_at leaves w)"
      by (simp add: o_def cong: map_cong)
    also have "\<dots> \<subseteq># (\<Sum>w \<leftarrow> W. children_at leaves w)"
      using U(1) W(1) visited by (intro sum_list_mono_mset) auto
    finally have "{#gn_id n#} + (\<Sum>u \<leftarrow> U. mset (lf_children u)) \<subseteq># mset W"
      unfolding W(3) by (rule subset_mset.add_left_mono)
    with suffix_listed [OF E(1)] have "mset (map lf_id (x # U)) \<subseteq># mset W"
      by (rule subset_mset.order_trans)
    then have "count (mset (map lf_id (x # U))) (lf_id x) \<le> count (mset W) (lf_id x)"
      by (simp only: mset_subset_eq_count)
    moreover have "count (mset (map lf_id U)) (lf_id x) = 1" "count (mset W) (lf_id x) \<le> 1"
      using U W(1) by (simp_all add: distinct_count_atmost_1)
    ultimately show False by simp
  qed
  show "leaf_in_tree leaves (lf_id u) = Inr u" if u: "u \<in> set ?E"
  proof -
    have "lf_id u \<in> set W"
      using suffix_visited [OF flat W(3), of "[]" ?E] dist u by auto
    moreover have "map_of leaves (lf_id u) = Some u"
      using flattened_last [OF flat, of "[]" ?E] dist u by simp
    ultimately show ?thesis using W(2) by fastforce
  qed
qed

subsection \<open>A validated answer fits its levels\<close>

lemma fib_depth_level: "0 \<le> d \<Longrightarrow> fib_depth d = (if d \<le> 3 then 3 - d else 0)"
  by (simp add: fib_depth_def MaxASTDepth_def Let_def)

lemma leaf_validate_level:
  assumes "0 \<le> d" "d \<le> 3"
  shows "leaf_validate (leaf_of_node n (gn_kind n) parent d) = None \<longleftrightarrow>
    gn_id n \<noteq> [] \<and> (gn_summary n \<noteq> [] \<or> gn_refs n \<noteq> []) \<and> 0 \<le> gn_importance n \<and> gn_importance n \<le> 1
    \<and> gn_kind n = level_kind d"
proof -
  have d: "d = 0 \<or> d = 1 \<or> d = 2 \<or> d = 3" using assms by presburger
  have "lf_summary (leaf_of_node n (gn_kind n) parent d) = gn_summary n"
    "lf_full (leaf_of_node n (gn_kind n) parent d) = []"
    "lf_refs (leaf_of_node n (gn_kind n) parent d) = gn_refs n"
    "lf_importance (leaf_of_node n (gn_kind n) parent d) = gn_importance n"
    by (simp_all add: leaf_of_node_def empty_leaf_def)
  with d show ?thesis
    by (auto simp: leaf_validate_def leaf_kinds level_kind_def fib_depth_level MaxASTDepth_def)
qed

text \<open>A node fits its level if its leaves, and those below it, pass the checks of the traversal.\<close>

lemma node_ok_if_checked:
  assumes "\<And>u. u \<in> set (node_leaves n parent d) \<Longrightarrow> leaf_in_tree leaves (lf_id u) = Inr u"
    and "0 \<le> d" "d \<le> 3"
  shows "node_ok d n"
  using assms
proof (induction n arbitrary: parent d)
  case (GeminiLeaf nid kind sm refs tags imp children)
  let ?n = "GeminiLeaf nid kind sm refs tags imp children"
  let ?leaf = "leaf_of_node ?n kind parent d"
  have self: "leaf_in_tree leaves nid = Inr ?leaf"
    using GeminiLeaf.prems(1) [of ?leaf] by (simp add: node_leaves_eq [of ?n])
  then have "leaf_validate ?leaf = None"
    by (auto simp: leaf_in_tree_def Let_def split: option.splits if_splits)
  then have here: "nid \<noteq> [] \<and> (sm \<noteq> [] \<or> refs \<noteq> []) \<and> 0 \<le> imp \<and> imp \<le> 1 \<and> kind = level_kind d"
    using leaf_validate_level [OF GeminiLeaf.prems(2,3), of ?n parent] by simp
  have "node_ok (d + 1) c" if c: "c \<in> set children" for c
  proof (rule GeminiLeaf.IH [OF c, of nid])
    show below: "leaf_in_tree leaves (lf_id u) = Inr u" if "u \<in> set (node_leaves c nid (d + 1))" for u
      using GeminiLeaf.prems(1) [of u] that c by (auto simp: node_leaves_eq [of ?n] forest_leaves_def)
    have "leaf_in_tree leaves (gn_id c) = Inr (leaf_of_node c (gn_kind c) nid (d + 1))"
      using below [of "leaf_of_node c (gn_kind c) nid (d + 1)"] by (simp add: node_leaves_eq [of c])
    moreover have "map_of leaves nid = Some ?leaf"
      using leaf_in_tree_defined [OF self] .
    ultimately have "fib_depth d = fib_depth (d + 1) + 1"
      using here by (auto simp: leaf_in_tree_def Let_def split: option.splits if_splits)
    then show "d + 1 \<le> 3"
      using GeminiLeaf.prems(2,3) by (auto simp: fib_depth_level split: if_splits)
    show "0 \<le> d + 1" using GeminiLeaf.prems(2) by simp
  qed
  with here GeminiLeaf.prems(3) show ?case
    by (simp add: list_all_iff)
qed

subsection \<open>A fitting answer with different identifiers validates\<close>

lemma node_ids_leaves: "mset (node_ids n) = mset (map lf_id (node_leaves n parent d))"
proof (induction n arbitrary: parent d)
  case (GeminiLeaf nid kind sm refs tags imp children)
  have "mset (concat (map node_ids ns)) = mset (map lf_id (forest_leaves ns p e))"
    if "set ns \<subseteq> set children" for ns p e
    using that GeminiLeaf [of _ p e] by (induction ns) simp_all
  then show ?case
    by (simp add: node_leaves_eq [of "GeminiLeaf nid kind sm refs tags imp children"])
qed

lemma validate_node:
  assumes "node_ok d n" "0 \<le> d" "distinct (node_ids n)" "set (node_ids n) \<inter> set visited = {}"
    and "\<And>u. u \<in> set (node_leaves n parent d) \<Longrightarrow> map_of leaves (lf_id u) = Some u"
    and "parent \<noteq> [] \<Longrightarrow> \<exists>p. map_of leaves parent = Some p \<and> lf_depth p = fib_depth d + 1"
  shows "validate_ids leaves visited (gn_id n # pending) = validate_ids leaves (rev (node_ids n) @ visited) pending"
  using assms
proof (induction n arbitrary: parent d visited pending)
  case (GeminiLeaf nid kind sm refs tags imp children)
  let ?n = "GeminiLeaf nid kind sm refs tags imp children"
  let ?leaf = "leaf_of_node ?n kind parent d"
  have level: "d \<le> 3" and children_ok: "list_all (node_ok (d + 1)) children"
    using GeminiLeaf.prems(1) by simp_all
  have stored: "map_of leaves nid = Some ?leaf"
    using GeminiLeaf.prems(5) [of ?leaf] by (simp add: node_leaves_eq [of ?n])
  have "leaf_validate ?leaf = None"
    using leaf_validate_level [OF GeminiLeaf.prems(2) level, of ?n parent] GeminiLeaf.prems(1) by simp
  then have "leaf_in_tree leaves nid = Inr ?leaf"
    using stored GeminiLeaf.prems(6) by (auto simp: leaf_in_tree_def)
  then have step: "validate_ids leaves visited (nid # pending)
      = validate_ids leaves (nid # visited) (map gn_id children @ pending)"
    using GeminiLeaf.prems(4) by simp
  have down: "\<exists>p. map_of leaves nid = Some p \<and> lf_depth p = fib_depth (d + 1) + 1" if "d + 1 \<le> 3"
    using stored that GeminiLeaf.prems(2) by (simp add: fib_depth_level)
  have "validate_ids leaves seen (map gn_id ns @ pending)
      = validate_ids leaves (rev (concat (map node_ids ns)) @ seen) pending"
    if "set ns \<subseteq> set children" "distinct (concat (map node_ids ns))"
      "set (concat (map node_ids ns)) \<inter> set seen = {}" for ns seen
    using that
  proof (induction ns arbitrary: seen)
    case (Cons c ns)
    have "node_ok (d + 1) c" using children_ok Cons.prems(1) by (simp add: list_all_iff)
    then have d3: "d + 1 \<le> 3" by (cases c) simp
    have "validate_ids leaves seen (gn_id c # map gn_id ns @ pending)
        = validate_ids leaves (rev (node_ids c) @ seen) (map gn_id ns @ pending)"
    proof (rule GeminiLeaf.IH [where parent = nid and d = "d + 1"])
      show "c \<in> set children" "node_ok (d + 1) c" "0 \<le> d + 1" "distinct (node_ids c)"
        "set (node_ids c) \<inter> set seen = {}"
        using Cons.prems \<open>node_ok (d + 1) c\<close> GeminiLeaf.prems(2) by auto
      show "map_of leaves (lf_id u) = Some u" if "u \<in> set (node_leaves c nid (d + 1))" for u
        using GeminiLeaf.prems(5) [of u] that Cons.prems(1)
        by (auto simp: node_leaves_eq [of ?n] forest_leaves_def)
      show "\<exists>p. map_of leaves nid = Some p \<and> lf_depth p = fib_depth (d + 1) + 1"
        by (rule down [OF d3])
    qed
    also have "\<dots> = validate_ids leaves (rev (concat (map node_ids ns)) @ rev (node_ids c) @ seen) pending"
      using Cons.prems by (intro Cons.IH) auto
    finally show ?case by simp
  qed simp
  from this [of children "nid # visited"] step GeminiLeaf.prems(3,4) show ?case
    by auto
qed

subsection \<open>Parsing and validation\<close>

definition range_of_map :: "(leaf_map \<Rightarrow> leaf_map) \<Rightarrow> bool" where
  "range_of_map range_order \<longleftrightarrow> (\<forall>m. mset (range_order m) = mset m)"

lemma flattened_range:
  assumes "range_of_map range_order"
  shows "flattened E (range_order (fold store_leaf E []))"
proof -
  let ?m = "fold store_leaf E []"
  have keys: "distinct (map fst ?m)" by (rule distinct_fold_store) simp
  have perm: "mset (range_order ?m) = mset ?m"
    using assms by (simp add: range_of_map_def)
  then have "mset (map fst (range_order ?m)) = mset (map fst ?m)"
    by simp
  then have "distinct (map fst (range_order ?m))"
    using keys mset_eq_imp_distinct_iff by blast
  then have "map_of (range_order ?m) = map_of ?m"
    using keys mset_eq_setD [OF perm] by (simp add: map_of_inject_set)
  then show ?thesis
    by (simp add: flattened_def map_of_fold_store split: option.split)
qed

text \<open>The two directions together, for the tree that was flattened.\<close>

lemma validate_flattened:
  assumes "range_of_map range_order" "flatten_node n [] 0 [] = Inr leaves0"
    and ast: "ta_root ast = gn_id n" "ta_leaves ast = range_order leaves0"
  shows "ast_validate ast = None \<longleftrightarrow> node_ok 0 n \<and> distinct (node_ids n)"
proof -
  let ?E = "node_leaves n [] 0"
  define leaves where "leaves = range_order leaves0"
  have flattened: "flattened ?E leaves"
    using flatten_result(1) [OF assms(2)] flattened_range [OF assms(1)] by (simp add: leaves_def)
  have E: "?E = forest_leaves (gn_children n) (gn_id n) 1 @ [leaf_of_node n (gn_kind n) [] 0]"
    by (simp add: node_leaves_eq)
  have root: "map_of leaves (gn_id n) = Some (leaf_of_node n (gn_kind n) [] 0)"
    using flattened_last [OF flattened E, of "leaf_of_node n (gn_kind n) [] 0"] by simp
  have valid: "ast_validate ast = None
      \<longleftrightarrow> leaf_validate (leaf_of_node n (gn_kind n) [] 0) = None \<and> gn_id n \<noteq> []
        \<and> gn_kind n = LeafKindRoot \<and> is_ok (validate_ids leaves [] [gn_id n])"
    using root ast
    by (auto simp: ast_validate_def validate_subtree_def split: option.split sum.split simp flip: leaves_def)
  have "is_ok (validate_ids leaves [] [gn_id n])" if ok: "node_ok 0 n" and dist: "distinct (node_ids n)"
  proof -
    have "distinct (map lf_id ?E)"
      using dist node_ids_leaves [of n "[]" 0] by (metis mset_eq_imp_distinct_iff)
    then have "map_of leaves (lf_id u) = Some u" if "u \<in> set ?E" for u
      using flattened_last [OF flattened, of "[]" ?E] that by simp
    with validate_node [OF ok _ dist, of "[]" "[]" leaves "[]"] show ?thesis by simp
  qed
  moreover have "node_ok 0 n \<and> distinct (node_ids n)" if "is_ok (validate_ids leaves [] [gn_id n])"
  proof -
    from that obtain after where run: "validate_ids leaves [] [gn_id n] = Inr after"
      by (cases "validate_ids leaves [] [gn_id n]") auto
    have "node_ok 0 n"
      by (rule node_ok_if_checked [OF validated_distinct(2) [OF flattened run]]) simp_all
    moreover have "distinct (node_ids n)"
      using validated_distinct(1) [OF flattened run] node_ids_leaves [of n "[]" 0]
      by (metis mset_eq_imp_distinct_iff)
    ultimately show ?thesis by blast
  qed
  moreover have "leaf_validate (leaf_of_node n (gn_kind n) [] 0) = None \<and> gn_id n \<noteq> []
      \<and> gn_kind n = LeafKindRoot" if "node_ok 0 n"
    using that leaf_validate_level [of 0 n "[]"] by (cases n) (simp add: level_kind_def)
  ultimately show ?thesis using valid by blast
qed

lemma parse_validates:
  assumes "range_of_map range_order" "decode raw = Inr resp"
  shows "case parse_gemini_response decode range_order now raw session branch of
      Inl e \<Rightarrow> \<not> kinds_known (gz_root resp)
    | Inr ast \<Rightarrow> kinds_known (gz_root resp)
        \<and> (ast_validate ast = None \<longleftrightarrow> node_ok 0 (gz_root resp) \<and> distinct (node_ids (gz_root resp)))"
proof (cases "flatten_node (gz_root resp) [] 0 []")
  case (Inl e)
  then show ?thesis
    using flatten_ok(1) [of "gz_root resp" "[]" 0 "[]"] assms(2) by (simp add: parse_gemini_response_def)
next
  case (Inr leaves)
  then show ?thesis
    using flatten_ok(1) [of "gz_root resp" "[]" 0 "[]"] assms(2) validate_flattened [OF assms(1) Inr]
    by (simp add: parse_gemini_response_def)
qed

text \<open>
  C15. An answer parses exactly when it decodes and has only known kinds of nodes; and what was parsed
  validates exactly when the answer is a tree of at most four levels (root, sections, clusters, events)
  whose nodes all have a kind that fits their level, content, an importance between 0 and 1, and
  identifiers that are not empty and different from each other. So no leaf is lost although
  flattening lets a later node replace an earlier one.
\<close>

theorem parsed_ast_validates_exactly:
  assumes "range_of_map range_order"
  shows "case parse_gemini_response decode range_order now raw session branch of
      Inl e \<Rightarrow> (case decode raw of Inl e' \<Rightarrow> errors_is e e' | Inr resp \<Rightarrow> \<not> kinds_known (gz_root resp))
    | Inr ast \<Rightarrow> (case decode raw of
        Inl e' \<Rightarrow> False
      | Inr resp \<Rightarrow> kinds_known (gz_root resp)
          \<and> (ast_validate ast = None \<longleftrightarrow> node_ok 0 (gz_root resp) \<and> distinct (node_ids (gz_root resp))))"
proof (cases "decode raw")
  case (Inl e)
  then show ?thesis by (simp add: parse_gemini_response_def)
next
  case (Inr resp)
  from parse_validates [where decode = decode and raw = raw, OF assms Inr, of now session branch] Inr show ?thesis
    by (simp split: sum.splits)
qed

definition demo_answer :: gemini_leaf where
  "demo_answer =
     GeminiLeaf ''r'' ''root'' ''all'' [] [] 1
       [GeminiLeaf ''s'' ''section'' ''part'' [] [] (8 / 10)
         [GeminiLeaf ''c'' ''cluster'' ''topic'' [''e1''] [''greeting''] (7 / 10)
           [GeminiLeaf ''l1'' ''event'' [] [''e1''] [] (1 / 2) [],
            GeminiLeaf ''l2'' ''event'' ''answer'' [''e2''] [] (1 / 2) []]]]"

text \<open>The same answer with a second cluster that has the identifier of the first.\<close>

definition demo_clash :: gemini_leaf where
  "demo_clash =
     GeminiLeaf ''r'' ''root'' ''all'' [] [] 1
       [GeminiLeaf ''s'' ''section'' ''part'' [] [] (8 / 10)
         [GeminiLeaf ''c'' ''cluster'' ''topic'' [''e1''] [] (7 / 10) [GeminiLeaf ''l1'' ''event'' [] [''e1''] [] (1 / 2) []],
          GeminiLeaf ''c'' ''cluster'' ''other'' [''e2''] [] (7 / 10) []]]"

definition demo_decode :: "gemini_leaf \<Rightarrow> string \<Rightarrow> gemini_response result" where
  "demo_decode n raw =
     Inr \<lparr>gz_root = n, gz_summary = [],
          gz_metrics = \<lparr>gs_themes = 1, gs_events = 2, gs_ratio = 0, gs_confidence = 1\<rparr>\<rparr>"

theorem parsed_ast_validates_exactly_witness:
  "range_of_map rev
   \<and> (case parse_gemini_response (demo_decode demo_answer) rev ''t'' ''raw'' ''s'' ''main'' of
        Inl e \<Rightarrow> False | Inr ast \<Rightarrow> ast_validate ast = None)
   \<and> (case parse_gemini_response (demo_decode demo_clash) rev ''t'' ''raw'' ''s'' ''main'' of
        Inl e \<Rightarrow> False | Inr ast \<Rightarrow> ast_validate ast \<noteq> None)"
proof -
  have range: "range_of_map rev" by (simp add: range_of_map_def)
  have known: "kinds_known demo_answer" "kinds_known demo_clash" by code_simp+
  have ok: "node_ok 0 demo_answer" "distinct (node_ids demo_answer)" "\<not> distinct (node_ids demo_clash)"
    by code_simp+
  have "case parse_gemini_response (demo_decode n) rev ''t'' ''raw'' ''s'' ''main'' of
      Inl e \<Rightarrow> False | Inr ast \<Rightarrow> (ast_validate ast = None \<longleftrightarrow> node_ok 0 n \<and> distinct (node_ids n))"
    if "kinds_known n" for n
    using parsed_ast_validates_exactly [OF range, where decode = "demo_decode n" and now = "''t''"
        and raw = "''raw''" and session = "''s''" and branch = "''main''"] that
    by (simp add: demo_decode_def split: sum.splits)
  from this [of demo_answer] this [of demo_clash] range known ok show ?thesis
    by (simp split: sum.splits)
qed

end
