(* ===== verification/Compactor.thy ===== *)
theory Compactor
  imports AstShape Branchdag
begin

text \<open>
  \<open>internal/compactor/compactor.go\<close> and \<open>gemini.go\<close>: the compaction pipeline (serialise, one call or one
  call per chunk and a merge, validate, checkpoint), the client of the Gemini API, and the mock.

  Outside the model, in \<open>gemini_env\<close>: what \<open>http.NewRequest\<close> and \<open>client.Do\<close> (with the reading of the
  body) answer, \<open>encoding/json\<close> both ways, time formatting, the verb \<open>%.1f\<close>, the orders in which the loops
  over two maps happen to run, and the clock, a function of the number of its readings. The network is a
  state of its own.
\<close>

subsection \<open>Types\<close>

record compact_request =
  cj_session :: string
  cj_branch :: string
  cj_events :: "event list"
  cj_budget :: int

record compact_metrics =
  cm_input_events :: int
  cm_input_bytes :: int
  cm_output_bytes :: int
  cm_compression :: rat
  cm_input_tokens :: int
  cm_output_tokens :: int
  cm_gemini_latency :: int
  cm_total_latency :: int
  cm_chunks :: int
  cm_merge :: bool

definition zero_metrics :: compact_metrics where
  "zero_metrics = \<lparr>cm_input_events = 0, cm_input_bytes = 0, cm_output_bytes = 0, cm_compression = 0,
     cm_input_tokens = 0, cm_output_tokens = 0, cm_gemini_latency = 0, cm_total_latency = 0, cm_chunks = 0,
     cm_merge = False\<rparr>"

record compact_response =
  cx_ast :: token_ast
  cx_checkpoint :: checkpoint
  cx_raw :: string
  cx_metrics :: compact_metrics

text \<open>The interface \<open>Compactor\<close>.\<close>

record compactor =
  cq_name :: string
  cq_compact :: "ctx \<Rightarrow> compact_request \<Rightarrow> compact_response result"

definition ChunkThresholdBytes :: int where "ChunkThresholdBytes = 400000"
definition MaxChunkEvents :: int where "MaxChunkEvents = 200"

subsection \<open>The client of the Gemini API\<close>

record gemini_config =
  gf_endpoint :: string
  gf_api_key :: string
  gf_bearer :: string
  gf_model :: string
  gf_thinking :: int
  gf_temperature :: rat
  gf_timeout :: int

definition gemini_defaults :: "gemini_config \<Rightarrow> gemini_config" where
  "gemini_defaults c =
     c\<lparr>gf_endpoint := (if gf_endpoint c = []
                       then ''https://generativelanguage.googleapis.com/v1beta'' else gf_endpoint c),
       gf_model := (if gf_model c = [] then ''gemini-2.5-flash'' else gf_model c),
       gf_thinking := (if gf_thinking c = 0 then 2048 else gf_thinking c),
       gf_temperature := (if gf_temperature c = 0 then 7 / 10 else gf_temperature c),
       gf_timeout := (if gf_timeout c = 0 then 120 * 10 ^ 9 else gf_timeout c)\<rparr>"

record http_call =
  hc_url :: string
  hc_headers :: "(string \<times> string) list"
  hc_body :: string

text \<open>An answer of the server: its status, and the body or the error of reading it.\<close>

record http_answer =
  ha_status :: int
  ha_body :: "string result"

record gemini_candidate =
  gd_parts :: "string list"
  gd_finish :: string

record gemini_envelope =
  gv_candidates :: "gemini_candidate list"
  gv_prompt_tokens :: int
  gv_candidate_tokens :: int

record 'g gemini_env =
  ge_new_request :: "string \<Rightarrow> goerr option"
  ge_do :: "ctx \<Rightarrow> http_call \<Rightarrow> 'g \<Rightarrow> http_answer result \<times> 'g"
  ge_marshal :: "goval \<Rightarrow> string result"
  ge_envelope :: "string \<Rightarrow> gemini_envelope result"
  ge_decode :: "string \<Rightarrow> gemini_response result"
  ge_marshal_ast :: "token_ast \<Rightarrow> string result"
  ge_range :: "leaf_map \<Rightarrow> leaf_map"
  ge_range_ids :: "string list \<Rightarrow> string list"
  ge_rfc3339 :: "gotime \<Rightarrow> string"
  ge_stamp :: "gotime \<Rightarrow> string"
  ge_fmt1 :: "rat \<Rightarrow> string"
  ge_clock :: "nat \<Rightarrow> gotime"

record 'g gemini_state =
  gg_net :: 'g
  gg_ticks :: nat

definition gemini_now :: "'g gemini_env \<Rightarrow> 'g gemini_state \<Rightarrow> gotime \<times> 'g gemini_state" where
  "gemini_now env st = (ge_clock env (gg_ticks st), st\<lparr>gg_ticks := Suc (gg_ticks st)\<rparr>)"

record gemini_result =
  gr_raw :: string
  gr_input_tokens :: int
  gr_output_tokens :: int
  gr_latency :: int

definition build_request :: "gemini_config \<Rightarrow> string \<Rightarrow> string \<Rightarrow> goval" where
  "build_request cfg system_prompt user_prompt =
     VMap
       [(''system_instruction'', VMap [(''parts'', VMaps [[(''text'', VStr system_prompt)]])]),
        (''contents'', VMaps [[(''role'', VStr ''user''), (''parts'', VMaps [[(''text'', VStr user_prompt)]])]]),
        (''generation_config'', VMap
          ([(''temperature'', VFloat (gf_temperature cfg)),
            (''response_mime_type'', VStr ''application/json''),
            (''response_schema'', response_schema)]
           @ (if 0 < gf_thinking cfg
              then [(''thinking_config'', VMap [(''thinking_budget'', VInt (gf_thinking cfg))])] else [])))]"

definition gemini_http_call :: "gemini_config \<Rightarrow> string \<Rightarrow> http_call" where
  "gemini_http_call cfg body =
     \<lparr>hc_url = gf_endpoint cfg @ ''/models/'' @ gf_model cfg @ '':generateContent'',
      hc_headers = (''Content-Type'', ''application/json'') #
        (if gf_bearer cfg \<noteq> [] then [(''Authorization'', ''Bearer '' @ gf_bearer cfg)]
         else if gf_api_key cfg \<noteq> [] then [(''x-goog-api-key'', gf_api_key cfg)] else []),
      hc_body = body\<rparr>"

definition extract_gemini_content :: "'g gemini_env \<Rightarrow> string \<Rightarrow> (string \<times> int \<times> int) result" where
  "extract_gemini_content env body =
     (case ge_envelope env body of
        Inl e \<Rightarrow> Inl (Wrapped (''parse gemini envelope: '' @ err_msg e) e)
      | Inr envelope \<Rightarrow>
        (case gv_candidates envelope of
           [] \<Rightarrow> Inl (Adhoc ''gemini returned no candidates'')
         | candidate # _ \<Rightarrow>
           if gd_finish candidate \<noteq> ''STOP'' \<and> gd_finish candidate \<noteq> []
           then Inl (Adhoc (''gemini finish reason: '' @ gd_finish candidate))
           else let full = concat (gd_parts candidate) in
           if full = [] then Inl (Adhoc ''gemini returned empty text content'')
           else Inr (full, gv_prompt_tokens envelope, gv_candidate_tokens envelope)))"

text \<open>
  \<open>Compact\<close> and \<open>CompactWithCustomPrompts\<close> after their prompts: \<open>what\<close> and \<open>who\<close> are the words in which
  their error messages differ.
\<close>

definition call_gemini ::
  "string \<Rightarrow> string \<Rightarrow> 'g gemini_env \<Rightarrow> gemini_config \<Rightarrow> ctx \<Rightarrow> string \<Rightarrow> string \<Rightarrow> 'g gemini_state
   \<Rightarrow> gemini_result result \<times> 'g gemini_state" where
  "call_gemini what who env cfg c system_prompt user_prompt st0 =
     (let (started, st) = gemini_now env st0;
          fail = (\<lambda>msg e. Inl (Wrapped (msg @ '': '' @ err_msg e) e)) in
      case ge_marshal env (build_request cfg system_prompt user_prompt) of
        Inl e \<Rightarrow> (fail (''marshal '' @ who @ '' request'') e, st)
      | Inr body \<Rightarrow>
        let call = gemini_http_call cfg body in
        (case ge_new_request env (hc_url call) of
           Some e \<Rightarrow> (fail (''create '' @ what @ '' request'') e, st)
         | None \<Rightarrow>
           let (answer, net) = ge_do env c call (gg_net st); st1 = st\<lparr>gg_net := net\<rparr> in
           (case answer of
              Inl e \<Rightarrow> (fail (who @ '' request failed'') e, st1)
            | Inr resp \<Rightarrow>
              (case ha_body resp of
                 Inl e \<Rightarrow> (fail (''read '' @ who @ '' response'') e, st1)
               | Inr text \<Rightarrow>
                 if ha_status resp < 200 \<or> 300 \<le> ha_status resp
                 then (Inl (Adhoc (who @ '' API error (status '' @ int_str (ha_status resp) @ ''): ''
                         @ truncate_str text 500)), st1)
                 else (case extract_gemini_content env text of
                   Inl e \<Rightarrow> (Inl e, st1)
                 | Inr (raw, input_tokens, output_tokens) \<Rightarrow>
                   let (ended, st2) = gemini_now env st1 in
                   (Inr \<lparr>gr_raw = raw, gr_input_tokens = input_tokens, gr_output_tokens = output_tokens,
                         gr_latency = ended - started\<rparr>, st2))))))"

definition adapter_compact ::
  "'g gemini_env \<Rightarrow> gemini_config \<Rightarrow> ctx \<Rightarrow> serialized_event list \<Rightarrow> string \<Rightarrow> 'g gemini_state
   \<Rightarrow> gemini_result result \<times> 'g gemini_state" where
  "adapter_compact env cfg c events branch st =
     (let (system_prompt, user_prompt) = build_compaction_prompt events branch
      in call_gemini ''http'' ''gemini'' env cfg c system_prompt user_prompt st)"

definition compact_with_prompts ::
  "'g gemini_env \<Rightarrow> gemini_config \<Rightarrow> ctx \<Rightarrow> string \<Rightarrow> string \<Rightarrow> 'g gemini_state
   \<Rightarrow> gemini_result result \<times> 'g gemini_state" where
  "compact_with_prompts env cfg c system_prompt user_prompt st =
     call_gemini ''merge'' ''merge'' env cfg c system_prompt user_prompt st"

subsection \<open>One pass\<close>

record pass_result =
  pr_ast :: token_ast
  pr_input_tokens :: int
  pr_output_tokens :: int
  pr_latency :: int

definition parse_now ::
  "'g gemini_env \<Rightarrow> string \<Rightarrow> string \<Rightarrow> string \<Rightarrow> 'g gemini_state \<Rightarrow> token_ast result \<times> 'g gemini_state" where
  "parse_now env raw session branch st =
     (case ge_decode env raw of
        Inl e \<Rightarrow> (parse_gemini_response (ge_decode env) (ge_range env) [] raw session branch, st)
      | Inr _ \<Rightarrow>
        let (now, st1) = gemini_now env st
        in (parse_gemini_response (ge_decode env) (ge_range env) (ge_rfc3339 env now) raw session branch, st1))"

definition compact_single_pass ::
  "'g gemini_env \<Rightarrow> gemini_config \<Rightarrow> ctx \<Rightarrow> serialized_event list \<Rightarrow> string \<Rightarrow> string \<Rightarrow> 'g gemini_state
   \<Rightarrow> pass_result result \<times> 'g gemini_state" where
  "compact_single_pass env cfg c events session branch st =
     (case adapter_compact env cfg c events branch st of
        (Inl e, st1) \<Rightarrow> (Inl (Wrapped (''gemini compact: '' @ err_msg e) e), st1)
      | (Inr r, st1) \<Rightarrow>
        (case parse_now env (gr_raw r) session branch st1 of
           (Inl e, st2) \<Rightarrow> (Inl (Wrapped (''parse AST: '' @ err_msg e) e), st2)
         | (Inr ast, st2) \<Rightarrow>
           (Inr \<lparr>pr_ast = ast, pr_input_tokens = gr_input_tokens r, pr_output_tokens = gr_output_tokens r,
                 pr_latency = gr_latency r\<rparr>, st2)))"

subsection \<open>Chunks and their merge\<close>

text \<open>\<open>splitIntoChunks\<close>, whose loop advances by \<open>m\<close>; the callers pass a positive number.\<close>

fun chunk_loop :: "nat \<Rightarrow> 'a list \<Rightarrow> 'a list list" where
  "chunk_loop m [] = []"
| "chunk_loop m (x # xs) = (x # take (m - 1) xs) # chunk_loop m (drop (m - 1) xs)"

definition split_into_chunks :: "'a list \<Rightarrow> int \<Rightarrow> 'a list list" where
  "split_into_chunks events m =
     (if events = [] then []
      else if int (length events) \<le> m then [events]
      else chunk_loop (nat m) events)"

record section_summary =
  sy_id :: string
  sy_summary :: string
  sy_importance :: rat
  sy_tags :: "string list"

record chunk_summary =
  cs_index :: int
  cs_events :: int
  cs_root :: string
  cs_tags :: "string list"
  cs_importance :: rat
  cs_coverage :: "string list"
  cs_sections :: "section_summary list"

definition section_summary_of :: "memory_leaf \<Rightarrow> section_summary" where
  "section_summary_of leaf =
     \<lparr>sy_id = lf_id leaf, sy_summary = lf_summary leaf, sy_importance = lf_importance leaf, sy_tags = lf_tags leaf\<rparr>"

definition chunk_summary_of :: "int \<Rightarrow> int \<Rightarrow> token_ast \<Rightarrow> memory_leaf \<Rightarrow> chunk_summary" where
  "chunk_summary_of i events ast rt =
     \<lparr>cs_index = i, cs_events = events, cs_root = lf_summary rt, cs_tags = lf_tags rt,
      cs_importance = lf_importance rt, cs_coverage = ta_coverage ast,
      cs_sections = map section_summary_of (leaves_by_depth ast 2)\<rparr>"

text \<open>\<open>fmt.Sprintf("%v")\<close> of a slice of strings.\<close>

definition print_strings :: "string list \<Rightarrow> string" where
  "print_strings xs = ''['' @ str_join '' '' xs @ '']''"

definition chunk_line :: "(rat \<Rightarrow> string) \<Rightarrow> chunk_summary \<Rightarrow> string" where
  "chunk_line fmt1 cs =
     ''Chunk '' @ int_str (cs_index cs) @ '' ('' @ int_str (cs_events cs) @ '' events): '' @ cs_root cs
     @ (if cs_sections cs = [] then []
        else newline @ ''Sections:'' @
          concat (map (\<lambda>sec. newline @ ''  - '' @ sy_id sec @ '' (importance: '' @ fmt1 (sy_importance sec)
                        @ ''): '' @ sy_summary sec) (cs_sections cs)))
     @ (if cs_tags cs = [] then [] else newline @ ''Tags: '' @ print_strings (cs_tags cs))"

definition join_lines :: "string list \<Rightarrow> string" where
  "join_lines ls = str_join (newline @ newline) ls"

definition merge_system_prompt :: string where
  "merge_system_prompt = str_join newline
     [''You are a conversation merge compactor. You receive summaries from multiple'',
      ''compaction chunks of a single conversation. Your job is to synthesize them into'',
      ''one unified MemoryLeaflet AST.'',
      [],
      ''Rules:'',
      ''1. Merge thematic clusters across chunks where topics overlap'',
      ''2. Preserve chronological ordering'',
      ''3. Deduplicate repeated themes'',
      ''4. The root must cover ALL chunks '' @ em_dash @ '' nothing can be lost'',
      ''5. Summaries must capture essence, not just concatenate'',
      ''6. Every leaf needs an importance score (0.0'' @ en_dash @ ''1.0)'',
      ''7. Tags should be 1'' @ en_dash @ ''3 word descriptors'',
      ''8. The output must be valid JSON matching the schema exactly.'']"

definition merge_format :: string where
  "merge_format = str_join newline
     [[],
      ''---'',
      [],
      ''OUTPUT FORMAT (MANDATORY):'',
      ''Return JSON matching this structure:'',
      ''{'',
      ''  \"root\": {'',
      ''    \"id\": \"root-0\",'',
      ''    \"kind\": \"root\",'',
      ''    \"summary\": \"...\",'',
      ''    \"importance\": 1.0,'',
      ''    \"children\": [...]'',
      ''  },'',
      ''  \"summary\": \"Unified distillation across all chunks\",'',
      ''  \"metrics\": {'',
      ''    \"themes_identified\": N,'',
      ''    \"events_processed\": N,'',
      ''    \"compression_ratio\": 0.N,'',
      ''    \"confidence_score\": 0.N'',
      ''  }'',
      ''}'',
      [],
      ''Remember: Close with }'']"

definition build_merge_prompt :: "(rat \<Rightarrow> string) \<Rightarrow> chunk_summary list \<Rightarrow> string \<Rightarrow> string \<times> string" where
  "build_merge_prompt fmt1 summaries branch =
     (let block = join_lines (map (chunk_line fmt1) summaries) @ newline @ ''---'' @ newline in
      (merge_system_prompt,
       ''Branch: '' @ branch @ newline
       @ ''Chunk summaries to merge ('' @ int_str (int (length summaries)) @ '' chunks):''
       @ newline @ newline @ block @ newline @ merge_format))"

definition merge_chunks ::
  "'g gemini_env \<Rightarrow> gemini_config \<Rightarrow> ctx \<Rightarrow> token_ast list \<Rightarrow> chunk_summary list \<Rightarrow> string \<Rightarrow> string
   \<Rightarrow> 'g gemini_state \<Rightarrow> token_ast result \<times> 'g gemini_state" where
  "merge_chunks env cfg c chunk_asts summaries session branch st =
     (if summaries = [] then (Inl (Adhoc ''no chunk summaries to merge''), st)
      else if length summaries = 1 then (Inr (hd chunk_asts), st)
      else let (system_prompt, user_prompt) = build_merge_prompt (ge_fmt1 env) summaries branch in
      case compact_with_prompts env cfg c system_prompt user_prompt st of
        (Inl e, st1) \<Rightarrow> (Inl e, st1)
      | (Inr r, st1) \<Rightarrow>
        (case parse_now env (gr_raw r) session branch st1 of
           (Inl e, st2) \<Rightarrow> (Inl (Wrapped (''parse merge AST: '' @ err_msg e) e), st2)
         | (Inr merged, st2) \<Rightarrow>
           let ids = ge_range_ids env (remdups (concat (map ta_coverage chunk_asts))) in
           (Inr (merged\<lparr>ta_coverage := ta_coverage merged @ ids, ta_input_tokens := gr_input_tokens r,
                        ta_output_tokens := gr_output_tokens r\<rparr>), st2)))"

record merge_acc =
  ma_asts :: "token_ast list"
  ma_summaries :: "chunk_summary list"
  ma_input_tokens :: int
  ma_output_tokens :: int
  ma_latency :: int

text \<open>The loop over the chunks; \<open>i\<close> is the index of the next one.\<close>

fun chunk_passes ::
  "'g gemini_env \<Rightarrow> gemini_config \<Rightarrow> ctx \<Rightarrow> string \<Rightarrow> string \<Rightarrow> nat \<Rightarrow> serialized_event list list \<Rightarrow> merge_acc
   \<Rightarrow> 'g gemini_state \<Rightarrow> merge_acc result \<times> 'g gemini_state" where
  "chunk_passes env cfg c session branch i [] acc st = (Inr acc, st)"
| "chunk_passes env cfg c session branch i (chunk # chunks) acc st =
     (case compact_single_pass env cfg c chunk session branch st of
        (Inl e, st1) \<Rightarrow> (Inl (Wrapped (''chunk '' @ int_str (int i) @ '' compaction: '' @ err_msg e) e), st1)
      | (Inr r, st1) \<Rightarrow>
        let ast = pr_ast r;
            acc1 = \<lparr>ma_asts = ma_asts acc @ [ast],
              ma_summaries = ma_summaries acc @
                (case map_of (ta_leaves ast) (ta_root ast) of
                   None \<Rightarrow> [] | Some rt \<Rightarrow> [chunk_summary_of (int i) (int (length chunk)) ast rt]),
              ma_input_tokens = ma_input_tokens acc + pr_input_tokens r,
              ma_output_tokens = ma_output_tokens acc + pr_output_tokens r,
              ma_latency = ma_latency acc + pr_latency r\<rparr>
        in chunk_passes env cfg c session branch (Suc i) chunks acc1 st1)"

definition compact_chunk_and_merge ::
  "'g gemini_env \<Rightarrow> gemini_config \<Rightarrow> ctx \<Rightarrow> serialized_event list list \<Rightarrow> string \<Rightarrow> string \<Rightarrow> 'g gemini_state
   \<Rightarrow> pass_result result \<times> 'g gemini_state" where
  "compact_chunk_and_merge env cfg c chunks session branch st =
     (case chunk_passes env cfg c session branch 0 chunks
             \<lparr>ma_asts = [], ma_summaries = [], ma_input_tokens = 0, ma_output_tokens = 0, ma_latency = 0\<rparr> st of
        (Inl e, st1) \<Rightarrow> (Inl e, st1)
      | (Inr acc, st1) \<Rightarrow>
        (case merge_chunks env cfg c (ma_asts acc) (ma_summaries acc) session branch st1 of
           (Inl e, st2) \<Rightarrow> (Inl (Wrapped (''merge pass: '' @ err_msg e) e), st2)
         | (Inr ast, st2) \<Rightarrow>
           (Inr \<lparr>pr_ast = ast, pr_input_tokens = ma_input_tokens acc, pr_output_tokens = ma_output_tokens acc,
                 pr_latency = ma_latency acc\<rparr>, st2)))"

subsection \<open>The pipeline\<close>

definition serialized_bytes :: "serialized_event list \<Rightarrow> int" where
  "serialized_bytes ses = (\<Sum>se \<leftarrow> ses. int (length (se_text se)) + int (length (se_summary se)))"

text \<open>Step 2 of \<open>CompactContext\<close>: the result of the pass, the number of chunks and the mark of a merge.\<close>

definition compact_events ::
  "'g gemini_env \<Rightarrow> gemini_config \<Rightarrow> ctx \<Rightarrow> serialized_event list \<Rightarrow> string \<Rightarrow> string \<Rightarrow> 'g gemini_state
   \<Rightarrow> (pass_result result \<times> 'g gemini_state) \<times> int \<times> bool" where
  "compact_events env cfg c serialized session branch st =
     (if serialized_bytes serialized \<le> ChunkThresholdBytes \<and> int (length serialized) \<le> MaxChunkEvents
      then (compact_single_pass env cfg c serialized session branch st, 1, False)
      else let chunks = split_into_chunks serialized MaxChunkEvents in
      if length chunks = 1
      then (compact_single_pass env cfg c (hd chunks) session branch st, 1, False)
      else (compact_chunk_and_merge env cfg c chunks session branch st, int (length chunks), True))"

definition compact_context ::
  "'g gemini_env \<Rightarrow> gemini_config \<Rightarrow> ctx \<Rightarrow> compact_request \<Rightarrow> 'g gemini_state
   \<Rightarrow> compact_response result \<times> 'g gemini_state" where
  "compact_context env cfg c req st0 =
     (let (total_start, st) = gemini_now env st0 in
      if cj_events req = [] then (Inl ErrEmptyLeaf, st)
      else
      let serialized = map (serialize_for_compaction (ge_stamp env)) (cj_events req);
          input_bytes = serialized_bytes serialized;
          (run, chunk_count, merge_pass) =
            compact_events env cfg c serialized (cj_session req) (cj_branch req) st in
      case run of
        (Inl e, st1) \<Rightarrow> (Inl e, st1)
      | (Inr pass, st1) \<Rightarrow>
        (case ast_validate (pr_ast pass) of
           Some e \<Rightarrow> (Inl (Wrapped (''validate AST: '' @ err_msg e) e), st1)
         | None \<Rightarrow>
           let ast = (pr_ast pass)\<lparr>ta_input_tokens := pr_input_tokens pass,
                                   ta_output_tokens := pr_output_tokens pass\<rparr> in
           (case ge_marshal_ast env ast of
              Inl e \<Rightarrow> (Inl (Wrapped (''marshal AST: '' @ err_msg e) e), st1)
            | Inr raw \<Rightarrow>
              let out_bytes = int (length raw);
                  ast1 = ast\<lparr>ta_reduction := input_bytes - out_bytes\<rparr>;
                  (t, st2) = gemini_now env st1;
                  summary_id = ''gemini-compact-'' @ cj_branch req @ ''-'' @ int_str (unix_nano t);
                  first_id = ev_id (hd (cj_events req)); last_id = ev_id (last (cj_events req));
                  cp = \<lparr>cp_summary_id = summary_id, cp_branch = cj_branch req, cp_basis = last_id,
                        cp_covered = \<lparr>cr_start = first_id, cr_end = last_id\<rparr>, cp_text_ref = [],
                        cp_blob_ref = ''blob://compact/'' @ cj_session req @ ''/'' @ summary_id,
                        cp_bytes = out_bytes, cp_tokens = ta_output_tokens ast1, cp_freshness = 1\<rparr>;
                  (ended, st3) = gemini_now env st2;
                  pct = (if 0 < input_bytes \<and> out_bytes < input_bytes
                         then (1 - rat_of_int out_bytes / rat_of_int input_bytes) * 100 else 0)
              in (Inr \<lparr>cx_ast = ast1, cx_checkpoint = cp, cx_raw = raw,
                    cx_metrics = \<lparr>cm_input_events = int (length (cj_events req)), cm_input_bytes = input_bytes,
                      cm_output_bytes = out_bytes, cm_compression = pct,
                      cm_input_tokens = pr_input_tokens pass, cm_output_tokens = pr_output_tokens pass,
                      cm_gemini_latency = pr_latency pass, cm_total_latency = ended - total_start,
                      cm_chunks = chunk_count, cm_merge = merge_pass\<rparr>\<rparr>, st3))))"

text \<open>As the interface sees it: the Gemini compactor at one state of the network and the clock.\<close>

definition gemini_compactor :: "'g gemini_env \<Rightarrow> gemini_config \<Rightarrow> 'g gemini_state \<Rightarrow> compactor" where
  "gemini_compactor env cfg st =
     \<lparr>cq_name = ''gemini-flash'',
      cq_compact = (\<lambda>c req. fst (compact_context env (gemini_defaults cfg) c req st))\<rparr>"

subsection \<open>The mock\<close>

definition mock_leaf :: "(gotime \<Rightarrow> string) \<Rightarrow> nat \<Rightarrow> event \<Rightarrow> memory_leaf" where
  "mock_leaf rfc3339 i e =
     empty_leaf\<lparr>lf_id := ''leaf-'' @ int_str (int i), lf_kind := LeafKindEvent, lf_depth := 0,
       lf_parent := ''cluster-0'', lf_summary := truncate_str (meta_string (ev_meta e) ''text'') 128,
       lf_refs := [ev_id e], lf_importance := 1 / 2, lf_timestamp := rfc3339 (ev_ts e)\<rparr>"

definition mock_leaves :: "(gotime \<Rightarrow> string) \<Rightarrow> event list \<Rightarrow> memory_leaf list" where
  "mock_leaves rfc3339 events =
     (let ls = map (\<lambda>(i, e). mock_leaf rfc3339 i e) (enumerate 0 events) in
      ls @
      [empty_leaf\<lparr>lf_id := ''cluster-0'', lf_kind := LeafKindCluster, lf_depth := 1, lf_parent := ''section-0'',
         lf_children := map lf_id ls, lf_summary := int_str (int (length events)) @ '' events grouped'',
         lf_importance := 7 / 10\<rparr>,
       empty_leaf\<lparr>lf_id := ''section-0'', lf_kind := LeafKindSection, lf_depth := 2, lf_parent := ''root-0'',
         lf_children := [''cluster-0''], lf_summary := ''Main conversation section'', lf_importance := 8 / 10\<rparr>,
       empty_leaf\<lparr>lf_id := ''root-0'', lf_kind := LeafKindRoot, lf_depth := 3,
         lf_children := [''section-0''], lf_summary := ''Conversation root'', lf_importance := 1\<rparr>])"

definition mock_ast :: "(gotime \<Rightarrow> string) \<Rightarrow> gotime \<Rightarrow> compact_request \<Rightarrow> token_ast" where
  "mock_ast rfc3339 now req =
     \<lparr>ta_session = cj_session req, ta_branch = cj_branch req, ta_compacted_at = rfc3339 now, ta_model = ''mock'',
      ta_input_tokens = 0, ta_output_tokens = 0, ta_root = ''root-0'',
      ta_leaves = map (\<lambda>l. (lf_id l, l)) (mock_leaves rfc3339 (cj_events req)),
      ta_coverage = map ev_id (cj_events req), ta_reduction = 0\<rparr>"

definition empty_checkpoint :: checkpoint where
  "empty_checkpoint = \<lparr>cp_summary_id = [], cp_branch = [], cp_basis = [],
     cp_covered = \<lparr>cr_start = [], cr_end = []\<rparr>, cp_text_ref = [], cp_blob_ref = [], cp_bytes = 0,
     cp_tokens = 0, cp_freshness = 0\<rparr>"

text \<open>The mock ignores the error of marshalling, which leaves it with no bytes.\<close>

definition marshal_or_nothing :: "(token_ast \<Rightarrow> string result) \<Rightarrow> token_ast \<Rightarrow> string" where
  "marshal_or_nothing marshal ast = (case marshal ast of Inl _ \<Rightarrow> [] | Inr raw \<Rightarrow> raw)"

definition mock_compact_context ::
  "(token_ast \<Rightarrow> string result) \<Rightarrow> (gotime \<Rightarrow> string) \<Rightarrow> gotime \<Rightarrow> token_ast option \<Rightarrow> compact_request
   \<Rightarrow> compact_response result" where
  "mock_compact_context marshal rfc3339 now fixed req =
     (if cj_events req = [] then Inl ErrEmptyLeaf
      else case fixed of
        Some ast \<Rightarrow>
          Inr \<lparr>cx_ast = ast, cx_checkpoint = empty_checkpoint, cx_raw = marshal_or_nothing marshal ast,
               cx_metrics = zero_metrics\<lparr>cm_input_events := int (length (cj_events req))\<rparr>\<rparr>
      | None \<Rightarrow>
          let ast = mock_ast rfc3339 now req; raw = marshal_or_nothing marshal ast in
          Inr \<lparr>cx_ast = ast, cx_checkpoint = empty_checkpoint, cx_raw = raw,
               cx_metrics = zero_metrics\<lparr>cm_input_events := int (length (cj_events req)),
                              cm_output_bytes := int (length raw)\<rparr>\<rparr>)"

subsection \<open>Chunks\<close>

lemma concat_chunk_loop: "0 < m \<Longrightarrow> concat (chunk_loop m xs) = xs"
  by (induction m xs rule: chunk_loop.induct) simp_all

lemma chunk_loop_sizes: "0 < m \<Longrightarrow> list_all (\<lambda>ch. 0 < length ch \<and> length ch \<le> m) (chunk_loop m xs)"
  by (induction m xs rule: chunk_loop.induct) auto

lemma length_chunk_loop: "0 < m \<Longrightarrow> length (chunk_loop m xs) = (length xs + m - 1) div m"
proof (induction m xs rule: chunk_loop.induct)
  case (2 m x xs)
  then have IH: "length (chunk_loop m (drop (m - 1) xs)) = (length xs - (m - 1) + m - 1) div m"
    by simp
  show ?case
  proof (cases "length xs < m")
    case True
    then have "length xs - (m - 1) = 0" by simp
    with IH 2(2) have "length (chunk_loop m (drop (m - 1) xs)) = 0"
      by simp
    moreover have "(Suc (length xs) + m - 1) div m = 1"
      using True 2(2) by (intro div_nat_eqI) simp_all
    ultimately show ?thesis by simp
  next
    case False
    then have "length xs + m = (length xs - (m - 1) + m - 1) + m"
      using 2(2) by simp
    then have "(length xs + m) div m = Suc ((length xs - (m - 1) + m - 1) div m)"
      using 2(2) by (metis div_add_self2 not_gr_zero add.commute plus_1_eq_Suc)
    with IH show ?thesis by simp
  qed
qed simp

lemma split_into_chunks_size:
  assumes "0 < m"
  shows "int (length (split_into_chunks events m)) = (int (length events) + m - 1) div m"
proof -
  obtain k where k: "m = int k" "0 < k"
    using assms by (metis zero_less_imp_eq_int)
  consider "events = []" | "events \<noteq> []" "int (length events) \<le> m" | "m < int (length events)" by force
  then show ?thesis
  proof cases
    case 1
    then show ?thesis using assms by (simp add: split_into_chunks_def div_pos_pos_trivial)
  next
    case 2
    then have "(int (length events) + m - 1) div m = 1"
      by (intro int_div_pos_eq [where r = "int (length events) - 1"]) auto
    with 2 show ?thesis by (simp add: split_into_chunks_def)
  next
    case 3
    then have "events \<noteq> []" using assms by auto
    then show ?thesis
      using 3 k length_chunk_loop [of k events] by (simp add: split_into_chunks_def zdiv_int of_nat_diff)
  qed
qed

text \<open>
  Splitting keeps every event, in order, in chunks that are neither empty nor longer than the limit, and
  makes as few of them as the limit allows.
\<close>

theorem split_into_chunks_partition:
  assumes "0 < m"
  shows "concat (split_into_chunks events m) = events
    \<and> list_all (\<lambda>ch. ch \<noteq> [] \<and> int (length ch) \<le> m) (split_into_chunks events m)
    \<and> int (length (split_into_chunks events m)) = (int (length events) + m - 1) div m"
proof -
  have "0 < nat m" using assms by simp
  from concat_chunk_loop [OF this, of events] chunk_loop_sizes [OF this, of events] assms
  show ?thesis
    using split_into_chunks_size [OF assms, of events]
    by (auto simp: split_into_chunks_def list_all_iff le_nat_iff)
qed

theorem split_into_chunks_partition_witness:
  "concat (split_into_chunks [1, 2, 3, 4, 5 :: nat] 2) = [1, 2, 3, 4, 5]
   \<and> length (split_into_chunks [1, 2, 3, 4, 5 :: nat] 2) = 3"
  using split_into_chunks_partition [of 2 "[1, 2, 3, 4, 5 :: nat]"] by simp

subsection \<open>What the pipeline accounts for\<close>

lemma parse_root_present:
  assumes "range_of_map range_order" "parse_gemini_response decode range_order now raw session branch = Inr ast"
  shows "map_of (ta_leaves ast) (ta_root ast) \<noteq> None" and "ta_reduction ast = 0"
proof -
  from assms(2) obtain resp leaves where "decode raw = Inr resp"
    and flat: "flatten_node (gz_root resp) [] 0 [] = Inr leaves"
    and ast: "ta_leaves ast = range_order leaves" "ta_root ast = gn_id (gz_root resp)" "ta_reduction ast = 0"
    by (auto simp: parse_gemini_response_def split: sum.splits)
  let ?n = "gz_root resp"
  have "flattened (node_leaves ?n [] 0) (range_order leaves)"
    using flatten_result(1) [OF flat] flattened_range [OF assms(1)] by simp
  then have "map_of (range_order leaves) (gn_id ?n) = Some (leaf_of_node ?n (gn_kind ?n) [] 0)"
    using flattened_last [OF _ node_leaves_eq, of _ _ _ _ "leaf_of_node ?n (gn_kind ?n) [] 0"] by simp
  with ast show "map_of (ta_leaves ast) (ta_root ast) \<noteq> None" "ta_reduction ast = 0" by simp_all
qed

text \<open>The calls of the network are counted by any function that every exchange raises by one.\<close>

definition counts_calls :: "'g gemini_env \<Rightarrow> ('g \<Rightarrow> nat) \<Rightarrow> bool" where
  "counts_calls env calls \<longleftrightarrow> (\<forall>c call g. calls (snd (ge_do env c call g)) = Suc (calls g))"

lemma gemini_now_simps [simp]:
  "fst (gemini_now env st) = ge_clock env (gg_ticks st)"
  "gg_net (snd (gemini_now env st)) = gg_net st"
  by (simp_all add: gemini_now_def)

lemma call_gemini_calls:
  assumes "counts_calls env calls" "call_gemini what who env cfg c sp up st = (Inr r, st')"
  shows "calls (gg_net st') = Suc (calls (gg_net st))"
proof -
  have "calls net = Suc (calls g)" if "ge_do env c call g = (answer, net)" for call g answer net
    using assms(1) that unfolding counts_calls_def by (metis snd_conv)
  with assms(2) show ?thesis
    by (auto simp: call_gemini_def gemini_now_def Let_def split: sum.splits option.splits prod.splits if_splits)
qed

lemma parse_now_net: "parse_now env raw session branch st = (r, st') \<Longrightarrow> gg_net st' = gg_net st"
  by (auto simp: parse_now_def gemini_now_def split: sum.splits)

lemma parse_now_ast:
  assumes "range_of_map (ge_range env)" "parse_now env raw session branch st = (Inr ast, st')"
  shows "map_of (ta_leaves ast) (ta_root ast) \<noteq> None" "ta_reduction ast = 0"
  using assms(2) parse_root_present [OF assms(1)]
  by (auto simp: parse_now_def gemini_now_def split: sum.splits)

lemma single_pass_calls:
  assumes "range_of_map (ge_range env)" "counts_calls env calls"
    and "compact_single_pass env cfg c events session branch st = (Inr r, st')"
  shows "calls (gg_net st') = Suc (calls (gg_net st))" "ta_reduction (pr_ast r) = 0"
    "map_of (ta_leaves (pr_ast r)) (ta_root (pr_ast r)) \<noteq> None"
proof -
  from assms(3) obtain g st1 where g: "adapter_compact env cfg c events branch st = (Inr g, st1)"
    and p: "parse_now env (gr_raw g) session branch st1 = (Inr (pr_ast r), st')"
    by (auto simp: compact_single_pass_def split: sum.splits prod.splits)
  have "calls (gg_net st1) = Suc (calls (gg_net st))"
    using g by (auto simp: adapter_compact_def split: prod.splits intro: call_gemini_calls [OF assms(2)])
  with parse_now_net [OF p] show "calls (gg_net st') = Suc (calls (gg_net st))" by simp
  show "ta_reduction (pr_ast r) = 0" "map_of (ta_leaves (pr_ast r)) (ta_root (pr_ast r)) \<noteq> None"
    using parse_now_ast [OF assms(1) p] by simp_all
qed

lemma chunk_passes_calls:
  assumes "range_of_map (ge_range env)" "counts_calls env calls"
    and "chunk_passes env cfg c session branch i chunks acc st = (Inr acc', st')"
  shows "calls (gg_net st') = calls (gg_net st) + length chunks"
    "length (ma_summaries acc') = length (ma_summaries acc) + length chunks"
    "length (ma_asts acc') = length (ma_asts acc) + length chunks"
proof -
  have "calls (gg_net st') = calls (gg_net st) + length chunks
      \<and> length (ma_summaries acc') = length (ma_summaries acc) + length chunks
      \<and> length (ma_asts acc') = length (ma_asts acc) + length chunks"
    using assms(3)
  proof (induction chunks arbitrary: i acc st)
    case (Cons chunk chunks)
    then obtain r st1 where pass: "compact_single_pass env cfg c chunk session branch st = (Inr r, st1)"
      by (auto split: sum.splits prod.splits)
    from Cons.prems pass Cons.IH show ?case
      using single_pass_calls [OF assms(1,2) pass] by (fastforce simp: Let_def)
  qed simp
  then show "calls (gg_net st') = calls (gg_net st) + length chunks"
    "length (ma_summaries acc') = length (ma_summaries acc) + length chunks"
    "length (ma_asts acc') = length (ma_asts acc) + length chunks" by simp_all
qed

lemma merge_chunks_calls:
  assumes "range_of_map (ge_range env)" "counts_calls env calls" "2 \<le> length summaries"
    and "merge_chunks env cfg c asts summaries session branch st = (Inr ast, st')"
  shows "calls (gg_net st') = Suc (calls (gg_net st))" "ta_reduction ast = 0"
proof -
  obtain sp up where prompts: "build_merge_prompt (ge_fmt1 env) summaries branch = (sp, up)" by fastforce
  from assms(3) have "summaries \<noteq> []" "length summaries \<noteq> 1" by auto
  with assms(4) prompts obtain r st1 merged where
    call: "compact_with_prompts env cfg c sp up st = (Inr r, st1)"
    and parse: "parse_now env (gr_raw r) session branch st1 = (Inr merged, st')"
    and ast: "ta_reduction ast = ta_reduction merged"
    by (auto simp: merge_chunks_def Let_def split: sum.splits prod.splits)
  show "calls (gg_net st') = Suc (calls (gg_net st))"
    using call_gemini_calls [OF assms(2) call [unfolded compact_with_prompts_def]] parse_now_net [OF parse]
    by simp
  show "ta_reduction ast = 0"
    using parse_now_ast(2) [OF assms(1) parse] ast by simp
qed

text \<open>
  The merged tree covers whatever a chunk covers: no event of a chunk is missing from the coverage of a
  merge that succeeds, and nothing is added to it but what the merge itself refers to.
\<close>

theorem merge_covers_chunks:
  assumes "\<And>ids. mset (ge_range_ids env ids) = mset ids"
  shows "case merge_chunks env cfg c asts summaries session branch st of
      (Inl e, st') \<Rightarrow> True
    | (Inr ast, st') \<Rightarrow>
        if length summaries = 1 then ast = hd asts
        else list_all (\<lambda>a. set (ta_coverage a) \<subseteq> set (ta_coverage ast)) asts
          \<and> set (ta_coverage ast) = (\<Union>l \<in> snd ` set (ta_leaves ast). set (lf_refs l))
              \<union> (\<Union>a \<in> set asts. set (ta_coverage a))"
proof -
  have ids: "set (ge_range_ids env ids) = set ids" for ids
    by (metis assms set_mset_mset)
  have own: "set (ta_coverage a) = (\<Union>l \<in> snd ` set (ta_leaves a). set (lf_refs l))"
    if "parse_now env raw session branch st = (Inr a, st')" for raw a st st'
    using that
    by (auto simp: parse_now_def parse_gemini_response_def set_deduplicate_strings split: sum.splits prod.splits)
      force
  show ?thesis
  proof (cases "summaries = [] \<or> length summaries = 1")
    case True
    then show ?thesis by (auto simp: merge_chunks_def)
  next
    case False
    then show ?thesis
      by (auto simp: merge_chunks_def Let_def ids own list_all_iff split: sum.split prod.split)
  qed
qed

lemma compact_events_calls:
  assumes "range_of_map (ge_range env)" "counts_calls env calls" "ses \<noteq> []"
    and "compact_events env cfg c ses session branch st = ((Inr r, st'), chunks, merge)"
  shows "chunks = (int (length ses) + 199) div 200" "merge \<longleftrightarrow> 200 < length ses" "ta_reduction (pr_ast r) = 0"
    "calls (gg_net st') = calls (gg_net st) + nat chunks + (if merge then 1 else 0)"
proof -
  let ?chunks = "split_into_chunks ses 200"
  have len: "int (length ?chunks) = (int (length ses) + 199) div 200"
    using split_into_chunks_size [of 200 ses] by simp
  have few: "(int (length ses) + 199) div 200 = 1 \<longleftrightarrow> length ses \<le> 200"
    using assms(3) by (cases ses) auto
  have one: "length ?chunks = 1 \<longleftrightarrow> length ses \<le> 200"
    using len few by linarith
  have "chunks = (int (length ses) + 199) div 200 \<and> (merge \<longleftrightarrow> 200 < length ses) \<and> ta_reduction (pr_ast r) = 0
      \<and> calls (gg_net st') = calls (gg_net st) + nat chunks + (if merge then 1 else 0)"
  proof (cases "length ses \<le> 200")
    case True
    with one have "compact_events env cfg c ses session branch st
        = (compact_single_pass env cfg c ses session branch st, 1, False)"
      by (auto simp: compact_events_def MaxChunkEvents_def Let_def split_into_chunks_def assms(3))
    with assms(4) have run: "compact_single_pass env cfg c ses session branch st = (Inr r, st')"
      and "chunks = 1" "\<not> merge" by simp_all
    with single_pass_calls [OF assms(1,2) run] True few show ?thesis by simp
  next
    case False
    with one have "compact_events env cfg c ses session branch st
        = (compact_chunk_and_merge env cfg c ?chunks session branch st, int (length ?chunks), True)"
      by (simp add: compact_events_def MaxChunkEvents_def Let_def)
    with assms(4) have run: "compact_chunk_and_merge env cfg c ?chunks session branch st = (Inr r, st')"
      and eqs: "chunks = int (length ?chunks)" merge by simp_all
    from run obtain acc st1 where
      loop: "chunk_passes env cfg c session branch 0 ?chunks
          \<lparr>ma_asts = [], ma_summaries = [], ma_input_tokens = 0, ma_output_tokens = 0, ma_latency = 0\<rparr> st = (Inr acc, st1)"
      and mrg: "merge_chunks env cfg c (ma_asts acc) (ma_summaries acc) session branch st1 = (Inr (pr_ast r), st')"
      by (auto simp: compact_chunk_and_merge_def split: sum.splits prod.splits)
    have "2 \<le> length ?chunks"
      using len False by linarith
    then have "2 \<le> length (ma_summaries acc)"
      using chunk_passes_calls(2) [OF assms(1,2) loop] by simp
    from merge_chunks_calls [OF assms(1,2) this mrg] chunk_passes_calls(1) [OF assms(1,2) loop] eqs len False
    show ?thesis by simp
  qed
  then show "chunks = (int (length ses) + 199) div 200" "merge \<longleftrightarrow> 200 < length ses" "ta_reduction (pr_ast r) = 0"
    "calls (gg_net st') = calls (gg_net st) + nat chunks + (if merge then 1 else 0)" by simp_all
qed

text \<open>The passes that succeed over the chunks, one after the other.\<close>

fun pass_runs ::
  "'g gemini_env \<Rightarrow> gemini_config \<Rightarrow> ctx \<Rightarrow> string \<Rightarrow> string \<Rightarrow> serialized_event list list \<Rightarrow> 'g gemini_state
   \<Rightarrow> pass_result list" where
  "pass_runs env cfg c session branch [] st = []"
| "pass_runs env cfg c session branch (chunk # chunks) st =
     (case compact_single_pass env cfg c chunk session branch st of
        (Inl e, st1) \<Rightarrow> []
      | (Inr r, st1) \<Rightarrow> r # pass_runs env cfg c session branch chunks st1)"

definition totals_of :: "pass_result list \<Rightarrow> int \<times> int \<times> int" where
  "totals_of rs = (sum_list (map pr_input_tokens rs), sum_list (map pr_output_tokens rs), sum_list (map pr_latency rs))"

lemma chunk_passes_totals:
  "chunk_passes env cfg c session branch i chunks acc st = (Inr acc', st')
   \<Longrightarrow> length (pass_runs env cfg c session branch chunks st) = length chunks
     \<and> (case totals_of (pass_runs env cfg c session branch chunks st) of (a, b, l) \<Rightarrow>
          ma_input_tokens acc' = ma_input_tokens acc + a \<and> ma_output_tokens acc' = ma_output_tokens acc + b
          \<and> ma_latency acc' = ma_latency acc + l)"
proof (induction chunks arbitrary: i acc st)
  case (Cons chunk chunks)
  then obtain r st1 where pass: "compact_single_pass env cfg c chunk session branch st = (Inr r, st1)"
    by (auto split: sum.splits prod.splits)
  from Cons.prems pass show ?case by (auto simp: Let_def totals_of_def dest!: Cons.IH)
qed (simp add: totals_of_def)

lemma compact_events_totals:
  assumes "ses \<noteq> []" and "compact_events env cfg c ses session branch st = ((Inr r, st'), chunks, merge)"
  shows "length (pass_runs env cfg c session branch (split_into_chunks ses 200) st) = nat chunks
    \<and> totals_of (pass_runs env cfg c session branch (split_into_chunks ses 200) st)
        = (pr_input_tokens r, pr_output_tokens r, pr_latency r)"
proof (cases "length ses \<le> 200")
  case True
  then have "split_into_chunks ses 200 = [ses]" by (simp add: split_into_chunks_def assms(1))
  with assms(2) True show ?thesis
    by (auto simp: compact_events_def MaxChunkEvents_def Let_def totals_of_def split: if_splits)
next
  case False
  then have "int (length (split_into_chunks ses 200)) \<noteq> 1"
    using split_into_chunks_size [of 200 ses] by simp
  with False assms(2) show ?thesis
    by (auto simp: compact_events_def MaxChunkEvents_def Let_def compact_chunk_and_merge_def
        dest!: chunk_passes_totals split: sum.splits prod.splits)
qed

lemma ast_validate_metadata:
  "ast_validate (a\<lparr>ta_input_tokens := i, ta_output_tokens := j\<rparr>) = ast_validate a"
  "ast_validate (a\<lparr>ta_reduction := k\<rparr>) = ast_validate a"
  by (simp_all add: ast_validate_def split: option.split)

text \<open>What a compaction that succeeds is made of.\<close>

lemma compact_context_parts:
  assumes "compact_context env cfg c req st = (Inr resp, st')"
  obtains pass raw chunks merge st1 where
    "cj_events req \<noteq> []"
    "compact_events env cfg c (map (serialize_for_compaction (ge_stamp env)) (cj_events req)) (cj_session req)
       (cj_branch req) (snd (gemini_now env st)) = ((Inr pass, st1), chunks, merge)"
    "ast_validate (pr_ast pass) = None"
    "ge_marshal_ast env ((pr_ast pass)\<lparr>ta_input_tokens := pr_input_tokens pass,
       ta_output_tokens := pr_output_tokens pass\<rparr>) = Inr raw"
    "gg_net st' = gg_net st1" "cx_raw resp = raw"
    "cx_ast resp = (pr_ast pass)\<lparr>ta_input_tokens := pr_input_tokens pass, ta_output_tokens := pr_output_tokens pass,
       ta_reduction := cm_input_bytes (cx_metrics resp) - int (length raw)\<rparr>"
    "cm_chunks (cx_metrics resp) = chunks" "cm_merge (cx_metrics resp) = merge"
    "cm_input_events (cx_metrics resp) = int (length (cj_events req))"
    "cm_output_bytes (cx_metrics resp) = int (length raw)"
    "(cm_input_tokens (cx_metrics resp), cm_output_tokens (cx_metrics resp), cm_gemini_latency (cx_metrics resp))
       = (pr_input_tokens pass, pr_output_tokens pass, pr_latency pass)"
    "cm_compression (cx_metrics resp) = (let i = cm_input_bytes (cx_metrics resp); out = int (length raw) in
       if 0 < i \<and> out < i then (1 - rat_of_int out / rat_of_int i) * 100 else 0)"
    "cm_input_bytes (cx_metrics resp) = serialized_bytes (map (serialize_for_compaction (ge_stamp env)) (cj_events req))"
    "cm_total_latency (cx_metrics resp) = ge_clock env (gg_ticks st' - 1) - ge_clock env (gg_ticks st)"
    "cp_summary_id (cx_checkpoint resp) \<noteq> []" "cp_branch (cx_checkpoint resp) = cj_branch req"
    "cp_basis (cx_checkpoint resp) = ev_id (last (cj_events req))"
    "cp_covered (cx_checkpoint resp) = \<lparr>cr_start = ev_id (hd (cj_events req)), cr_end = ev_id (last (cj_events req))\<rparr>"
    "cp_blob_ref (cx_checkpoint resp) \<noteq> []" "cp_bytes (cx_checkpoint resp) = int (length raw)"
    "cp_tokens (cx_checkpoint resp) = pr_output_tokens pass" "cp_freshness (cx_checkpoint resp) = 1"
proof -
  let ?ses = "map (serialize_for_compaction (ge_stamp env)) (cj_events req)"
  have events: "cj_events req \<noteq> []"
    using assms by (auto simp: compact_context_def split: prod.splits)
  obtain run chunks merge where run:
    "compact_events env cfg c ?ses (cj_session req) (cj_branch req) (snd (gemini_now env st)) = (run, chunks, merge)"
    by (metis prod_cases3)
  with assms events obtain pass st1 where pass: "run = (Inr pass, st1)"
    by (auto simp: compact_context_def Let_def split: prod.splits sum.splits)
  have valid: "ast_validate (pr_ast pass) = None"
    using assms events run pass
    by (auto simp: compact_context_def Let_def split: prod.splits sum.splits option.splits)
  obtain raw where raw: "ge_marshal_ast env ((pr_ast pass)\<lparr>ta_input_tokens := pr_input_tokens pass,
      ta_output_tokens := pr_output_tokens pass\<rparr>) = Inr raw"
    using assms events run pass valid
    by (auto simp: compact_context_def Let_def split: prod.splits sum.splits)
  show ?thesis
    by (rule that [OF events run [unfolded pass] valid raw])
      (use assms events run pass valid raw in \<open>auto simp: compact_context_def Let_def gemini_now_def\<close>)
qed

text \<open>
  C16. A compaction that succeeds had events and returns a validated tree. It made one call of the API for every
  200 events, whatever their size, and one more for a merge exactly if there are more than 200. The stored
  bytes are the tree before its reduction was known, so they say 0. The metrics are exact: the input is
  text and summary of every event as it is sent, the compression is the saved share of it, tokens and
  latency are the sums over the calls for the chunks (a merge is not counted), and the whole time is
  between the first and the last reading of the clock. The checkpoint covers the first to the last event, and
  is valid whenever its branch, these events' identifiers and the token count are.
\<close>

theorem compact_context_accounts:
  assumes "range_of_map (ge_range env)" and "counts_calls env calls"
  shows "case compact_context env cfg c req st of
      (Inl e, st') \<Rightarrow> (if cj_events req = [] then e = ErrEmptyLeaf \<and> gg_net st' = gg_net st else True)
    | (Inr resp, st') \<Rightarrow>
        (let m = cx_metrics resp; n = length (cj_events req); cp = cx_checkpoint resp;
             first_id = ev_id (hd (cj_events req)); last_id = ev_id (last (cj_events req))
         in 0 < n \<and> ast_validate (cx_ast resp) = None
            \<and> cm_chunks m = (int n + 199) div 200 \<and> (cm_merge m \<longleftrightarrow> 200 < n)
            \<and> calls (gg_net st') = calls (gg_net st) + nat (cm_chunks m) + (if cm_merge m then 1 else 0)
            \<and> ge_marshal_ast env ((cx_ast resp)\<lparr>ta_reduction := 0\<rparr>) = Inr (cx_raw resp)
            \<and> ta_reduction (cx_ast resp) = cm_input_bytes m - cm_output_bytes m
            \<and> cm_input_events m = int n \<and> cm_output_bytes m = int (length (cx_raw resp))
            \<and> cm_input_bytes m = (\<Sum>e \<leftarrow> cj_events req. let se = serialize_for_compaction (ge_stamp env) e in
                 int (length (se_text se)) + int (length (se_summary se)))
            \<and> cm_compression m = (if 0 < cm_input_bytes m \<and> cm_output_bytes m < cm_input_bytes m
                 then (1 - rat_of_int (cm_output_bytes m) / rat_of_int (cm_input_bytes m)) * 100 else 0)
            \<and> 0 \<le> cm_compression m \<and> cm_compression m \<le> 100
            \<and> (let rs = pass_runs env cfg c (cj_session req) (cj_branch req)
                   (split_into_chunks (map (serialize_for_compaction (ge_stamp env)) (cj_events req)) 200)
                   (snd (gemini_now env st))
                in length rs = nat (cm_chunks m)
                   \<and> (cm_input_tokens m, cm_output_tokens m, cm_gemini_latency m) = totals_of rs)
            \<and> cm_total_latency m = ge_clock env (gg_ticks st' - 1) - ge_clock env (gg_ticks st)
            \<and> cp_tokens cp = cm_output_tokens m
            \<and> cp_covered cp = \<lparr>cr_start = first_id, cr_end = last_id\<rparr> \<and> cp_basis cp = last_id
            \<and> cp_bytes cp = cm_output_bytes m
            \<and> (checkpoint_validate cp = None \<longleftrightarrow>
                 cj_branch req \<noteq> [] \<and> first_id \<noteq> [] \<and> last_id \<noteq> [] \<and> 0 \<le> cm_output_tokens m))"
proof (cases "compact_context env cfg c req st")
  case (Pair res st')
  show ?thesis
  proof (cases res)
    case (Inl e)
    with Pair show ?thesis
      by (auto simp: compact_context_def gemini_now_def)
  next
    case (Inr resp)
    obtain pass raw chunks merge st1 where parts:
      "cj_events req \<noteq> []"
      "compact_events env cfg c (map (serialize_for_compaction (ge_stamp env)) (cj_events req)) (cj_session req)
         (cj_branch req) (snd (gemini_now env st)) = ((Inr pass, st1), chunks, merge)"
      "ast_validate (pr_ast pass) = None"
      and raw: "ge_marshal_ast env ((pr_ast pass)\<lparr>ta_input_tokens := pr_input_tokens pass,
         ta_output_tokens := pr_output_tokens pass\<rparr>) = Inr raw"
      and resp: "gg_net st' = gg_net st1" "cx_raw resp = raw"
      "cx_ast resp = (pr_ast pass)\<lparr>ta_input_tokens := pr_input_tokens pass, ta_output_tokens := pr_output_tokens pass,
         ta_reduction := cm_input_bytes (cx_metrics resp) - int (length raw)\<rparr>"
      "cm_chunks (cx_metrics resp) = chunks" "cm_merge (cx_metrics resp) = merge"
      "cm_input_events (cx_metrics resp) = int (length (cj_events req))"
      "cm_output_bytes (cx_metrics resp) = int (length raw)"
      and tokens: "(cm_input_tokens (cx_metrics resp), cm_output_tokens (cx_metrics resp), cm_gemini_latency (cx_metrics resp))
        = (pr_input_tokens pass, pr_output_tokens pass, pr_latency pass)"
      and rest:
      "cm_compression (cx_metrics resp) = (let i = cm_input_bytes (cx_metrics resp); out = int (length raw) in
         if 0 < i \<and> out < i then (1 - rat_of_int out / rat_of_int i) * 100 else 0)"
      "cm_input_bytes (cx_metrics resp) = serialized_bytes (map (serialize_for_compaction (ge_stamp env)) (cj_events req))"
      "cm_total_latency (cx_metrics resp) = ge_clock env (gg_ticks st' - 1) - ge_clock env (gg_ticks st)"
      and cp: "cp_summary_id (cx_checkpoint resp) \<noteq> []" "cp_branch (cx_checkpoint resp) = cj_branch req"
      "cp_basis (cx_checkpoint resp) = ev_id (last (cj_events req))"
      "cp_covered (cx_checkpoint resp) = \<lparr>cr_start = ev_id (hd (cj_events req)), cr_end = ev_id (last (cj_events req))\<rparr>"
      "cp_blob_ref (cx_checkpoint resp) \<noteq> []" "cp_bytes (cx_checkpoint resp) = int (length raw)"
      "cp_tokens (cx_checkpoint resp) = pr_output_tokens pass" "cp_freshness (cx_checkpoint resp) = 1"
      by (rule compact_context_parts [OF Pair [unfolded Inr]])
    note calls = compact_events_calls [OF assms _ parts(2), simplified, OF parts(1)]
      and totals = compact_events_totals [OF _ parts(2), simplified, OF parts(1)]
    have "0 \<le> cm_compression (cx_metrics resp) \<and> cm_compression (cx_metrics resp) \<le> 100"
      unfolding rest(1) Let_def by (simp add: divide_simps)
    moreover have "checkpoint_validate (cx_checkpoint resp) = None \<longleftrightarrow>
        cj_branch req \<noteq> [] \<and> ev_id (hd (cj_events req)) \<noteq> [] \<and> ev_id (last (cj_events req)) \<noteq> []
        \<and> 0 \<le> pr_output_tokens pass"
      using cp by (auto simp: checkpoint_validate_def)
    moreover have "(cx_ast resp)\<lparr>ta_reduction := 0\<rparr> = (pr_ast pass)\<lparr>ta_input_tokens := pr_input_tokens pass,
         ta_output_tokens := pr_output_tokens pass\<rparr>"
      unfolding resp(3) using calls(3) by (cases "pr_ast pass") simp
    moreover have "ast_validate (cx_ast resp) = None"
      unfolding resp(3) using parts(3) by (simp add: ast_validate_metadata)
    moreover have "ta_reduction (cx_ast resp) = cm_input_bytes (cx_metrics resp) - int (length raw)"
      unfolding resp(3) by simp
    moreover have "0 < length (cj_events req)" using parts(1) by simp
    ultimately show ?thesis
      unfolding Pair Inr prod.case sum.case Let_def
      using calls totals tokens raw
      by (simp add: resp(1,2,4-) rest cp(3,4,6,7) serialized_bytes_def Let_def comp_def)
  qed
qed

definition demo_gemini_env :: "nat gemini_env" where
  "demo_gemini_env =
     \<lparr>ge_new_request = (\<lambda>url. None), ge_do = (\<lambda>c call n. (Inr \<lparr>ha_status = 200, ha_body = Inr ''{}''\<rparr>, Suc n)),
      ge_marshal = (\<lambda>v. Inr ''{}''),
      ge_envelope = (\<lambda>s. Inr \<lparr>gv_candidates = [\<lparr>gd_parts = [''{'', ''}''], gd_finish = ''STOP''\<rparr>],
                              gv_prompt_tokens = 12, gv_candidate_tokens = 5\<rparr>),
      ge_decode = demo_decode demo_answer, ge_marshal_ast = (\<lambda>a. Inr ''{ast}''), ge_range = rev,
      ge_range_ids = (\<lambda>ids. ids), ge_rfc3339 = (\<lambda>t. ''t''), ge_stamp = (\<lambda>t. ''t''), ge_fmt1 = (\<lambda>q. ''q''),
      ge_clock = (\<lambda>n. int n)\<rparr>"

definition demo_gemini_config :: gemini_config where
  "demo_gemini_config = gemini_defaults \<lparr>gf_endpoint = [], gf_api_key = ''k'', gf_bearer = [], gf_model = [],
     gf_thinking = 0, gf_temperature = 0, gf_timeout = 0\<rparr>"

definition demo_compact_request :: compact_request where
  "demo_compact_request = \<lparr>cj_session = ''s'', cj_branch = ''main'',
     cj_events = [\<lparr>ev_id = ''e1'', ev_session = ''s'', ev_ts = 1, ev_kind = ''turn.user'', ev_branch = ''main'',
        ev_parent = [], ev_refs = [], ev_meta = [(''text'', VStr ''hello there'')], ev_blob = []\<rparr>], cj_budget = 0\<rparr>"

definition demo_chunk_ast :: "string \<Rightarrow> token_ast" where
  "demo_chunk_ast e = \<lparr>ta_session = ''s'', ta_branch = ''main'', ta_compacted_at = ''t'', ta_model = ''m'',
     ta_input_tokens = 0, ta_output_tokens = 0, ta_root = ''r'', ta_leaves = [(''r'', empty_leaf)],
     ta_coverage = [e], ta_reduction = 0\<rparr>"

definition demo_chunk :: "int \<Rightarrow> chunk_summary" where
  "demo_chunk i = chunk_summary_of i 200 (demo_chunk_ast ''e'') empty_leaf"

lemma demo_call:
  "\<exists>l st'. call_gemini what who demo_gemini_env cfg c sp up st
     = (Inr \<lparr>gr_raw = ''{}'', gr_input_tokens = 12, gr_output_tokens = 5, gr_latency = l\<rparr>, st')"
  by (simp add: call_gemini_def demo_gemini_env_def extract_gemini_content_def gemini_now_def Let_def)

lemma demo_parse:
  "\<exists>ast st'. parse_now demo_gemini_env raw session branch st = (Inr ast, st') \<and> ast_validate ast = None"
proof -
  have range: "range_of_map rev" by (simp add: range_of_map_def)
  have known: "kinds_known demo_answer" "node_ok 0 demo_answer" "distinct (node_ids demo_answer)"
    by code_simp+
  obtain resp where r: "demo_decode demo_answer raw = Inr resp" "gz_root resp = demo_answer"
    by (simp add: demo_decode_def)
  have "\<exists>ast. parse_gemini_response (demo_decode demo_answer) rev now raw session branch = Inr ast
      \<and> ast_validate ast = None" for now
    using parse_validates [where decode = "demo_decode demo_answer" and raw = raw, OF range r(1)] known r(2)
    by (fastforce split: sum.splits)
  then show ?thesis
    by (simp add: parse_now_def gemini_now_def r(1) demo_gemini_env_def)
qed

lemma demo_pass:
  "\<exists>r st'. compact_single_pass demo_gemini_env cfg c events session branch st = (Inr r, st')
     \<and> pr_output_tokens r = 5 \<and> ast_validate (pr_ast r) = None"
proof -
  obtain sp up where prompts: "build_compaction_prompt events branch = (sp, up)" by fastforce
  obtain l st1 where call: "call_gemini ''http'' ''gemini'' demo_gemini_env cfg c sp up st
      = (Inr \<lparr>gr_raw = ''{}'', gr_input_tokens = 12, gr_output_tokens = 5, gr_latency = l\<rparr>, st1)"
    using demo_call by blast
  obtain ast st2 where "parse_now demo_gemini_env ''{}'' session branch st1 = (Inr ast, st2)" "ast_validate ast = None"
    using demo_parse by blast
  with prompts call show ?thesis
    by (simp add: compact_single_pass_def adapter_compact_def)
qed

theorem compact_context_accounts_witness:
  "range_of_map (ge_range demo_gemini_env) \<and> counts_calls demo_gemini_env (\<lambda>n. n)
   \<and> (case compact_context demo_gemini_env demo_gemini_config None demo_compact_request \<lparr>gg_net = 0, gg_ticks = 0\<rparr> of
        (Inl e, st') \<Rightarrow> False
      | (Inr resp, st') \<Rightarrow> gg_net st' = 1 \<and> ast_validate (cx_ast resp) = None
          \<and> checkpoint_validate (cx_checkpoint resp) = None)"
proof -
  let ?st = "\<lparr>gg_net = 0 :: nat, gg_ticks = 0\<rparr>"
  let ?run = "compact_context demo_gemini_env demo_gemini_config None demo_compact_request ?st"
  have range: "range_of_map (ge_range demo_gemini_env)" "counts_calls demo_gemini_env (\<lambda>n. n)"
    by (simp_all add: demo_gemini_env_def range_of_map_def counts_calls_def)
  have req: "length (cj_events demo_compact_request) = 1" "cj_branch demo_compact_request = ''main''"
    "ev_id (hd (cj_events demo_compact_request)) = ''e1''" "ev_id (last (cj_events demo_compact_request)) = ''e1''"
    by (simp_all add: demo_compact_request_def)
  let ?ses = "map (serialize_for_compaction (ge_stamp demo_gemini_env)) (cj_events demo_compact_request)"
  have "serialized_bytes ?ses = 11"
    by (simp add: serialized_bytes_def serialize_for_compaction_def demo_compact_request_def meta_string_def)
  then have events: "compact_events demo_gemini_env demo_gemini_config None ?ses session branch st
      = (compact_single_pass demo_gemini_env demo_gemini_config None ?ses session branch st, 1, False)"
    for session branch st
    using req(1) by (simp add: compact_events_def ChunkThresholdBytes_def MaxChunkEvents_def)
  have "cj_events demo_compact_request \<noteq> []" using req(1) by auto
  moreover have "ge_marshal_ast demo_gemini_env ast = Inr ''{ast}''" for ast
    by (simp add: demo_gemini_env_def)
  moreover obtain r st1 where "compact_single_pass demo_gemini_env demo_gemini_config None ?ses
      (cj_session demo_compact_request) (cj_branch demo_compact_request) (snd (gemini_now demo_gemini_env ?st)) = (Inr r, st1)"
    "pr_output_tokens r = 5" "ast_validate (pr_ast r) = None"
    using demo_pass by blast
  ultimately have ok: "case ?run of (Inl e, st') \<Rightarrow> False
    | (Inr resp, st') \<Rightarrow> cm_output_tokens (cx_metrics resp) = 5"
    by (simp add: compact_context_def events case_prod_beta Let_def)
  from compact_context_accounts [OF range, where cfg = demo_gemini_config and c = None and req = demo_compact_request and st = ?st] range ok req
  show ?thesis
    by (cases ?run; cases "fst ?run") (simp_all add: Let_def)
qed

theorem merge_covers_chunks_witness:
  "(\<forall>ids. mset (ge_range_ids demo_gemini_env ids) = mset ids)
   \<and> (case merge_chunks demo_gemini_env demo_gemini_config None [demo_chunk_ast ''e1'', demo_chunk_ast ''e7'']
         [demo_chunk 0, demo_chunk 1] ''s'' ''main'' \<lparr>gg_net = 0, gg_ticks = 0\<rparr> of
        (Inl e, st') \<Rightarrow> False
      | (Inr ast, st') \<Rightarrow> {''e1'', ''e7''} \<subseteq> set (ta_coverage ast))"
proof -
  let ?st = "\<lparr>gg_net = 0 :: nat, gg_ticks = 0\<rparr>"
  let ?asts = "[demo_chunk_ast ''e1'', demo_chunk_ast ''e7'']"
  have ids: "mset (ge_range_ids demo_gemini_env ids) = mset ids" for ids
    by (simp add: demo_gemini_env_def)
  obtain sp up where prompts: "build_merge_prompt (ge_fmt1 demo_gemini_env) [demo_chunk 0, demo_chunk 1] ''main'' = (sp, up)"
    by fastforce
  obtain l st1 where call: "call_gemini ''merge'' ''merge'' demo_gemini_env demo_gemini_config None sp up ?st
      = (Inr \<lparr>gr_raw = ''{}'', gr_input_tokens = 12, gr_output_tokens = 5, gr_latency = l\<rparr>, st1)"
    using demo_call by blast
  obtain ast st2 where "parse_now demo_gemini_env ''{}'' ''s'' ''main'' st1 = (Inr ast, st2)"
    using demo_parse by blast
  with prompts call obtain res where run: "merge_chunks demo_gemini_env demo_gemini_config None ?asts
      [demo_chunk 0, demo_chunk 1] ''s'' ''main'' ?st = (Inr res, st2)"
    by (simp add: merge_chunks_def compact_with_prompts_def Let_def)
  from merge_covers_chunks [of demo_gemini_env, OF ids, where cfg = demo_gemini_config and c = None and asts = ?asts
      and summaries = "[demo_chunk 0, demo_chunk 1]" and session = "''s''" and branch = "''main''" and st = ?st] ids run
  show ?thesis
    by (simp add: demo_chunk_ast_def)
qed

subsection \<open>The mock validates\<close>

lemma validate_childless:
  assumes "distinct xs" "set xs \<inter> set visited = {}"
    and "\<And>x. x \<in> set xs \<Longrightarrow> \<exists>l. leaf_in_tree leaves x = Inr l \<and> lf_children l = []"
  shows "validate_ids leaves visited xs = Inr (rev xs @ visited)"
  using assms
proof (induction xs arbitrary: visited)
  case (Cons x xs)
  from Cons.prems(3) [of x] obtain l where "leaf_in_tree leaves x = Inr l" "lf_children l = []" by auto
  with Cons.prems Cons.IH [of "x # visited"] show ?case by simp
qed simp

lemma int_str_nat_inj: "int_str (int i) = int_str (int j) \<longleftrightarrow> i = j"
  by (simp add: int_str_def nat_str_inj)

definition mock_ids :: "nat \<Rightarrow> string list" where
  "mock_ids n = map (\<lambda>i. ''leaf-'' @ int_str (int i)) [0..<n]"

lemma mock_leaf_simps [simp]:
  "lf_id (mock_leaf f i e) = ''leaf-'' @ int_str (int i)" "lf_children (mock_leaf f i e) = []"
  "lf_parent (mock_leaf f i e) = ''cluster-0''" "lf_depth (mock_leaf f i e) = 0"
  "leaf_validate (mock_leaf f i e) = None"
  by (simp_all add: mock_leaf_def empty_leaf_def leaf_validate_def leaf_kinds MaxASTDepth_def)

lemma mock_ids_leaves:
  "map lf_id (map (\<lambda>(i, e). mock_leaf f i e) (enumerate 0 events)) = mock_ids (length events)"
  by (rule nth_equalityI) (simp_all add: mock_ids_def nth_enumerate_eq)

lemma mock_tree_validates: "ast_validate (mock_ast f now req) = None"
proof -
  let ?n = "length (cj_events req)"
  let ?ls = "mock_leaves f (cj_events req)"
  let ?L = "map (\<lambda>l. (lf_id l, l)) ?ls"
  let ?leaves = "map (\<lambda>(i, e). mock_leaf f i e) (enumerate 0 (cj_events req))"
  define cluster where "cluster = empty_leaf\<lparr>lf_id := ''cluster-0'', lf_kind := LeafKindCluster, lf_depth := 1,
    lf_parent := ''section-0'', lf_children := mock_ids ?n,
    lf_summary := int_str (int ?n) @ '' events grouped'', lf_importance := 7 / 10\<rparr>"
  define sec where "sec = empty_leaf\<lparr>lf_id := ''section-0'', lf_kind := LeafKindSection, lf_depth := 2,
    lf_parent := ''root-0'', lf_children := [''cluster-0''], lf_summary := ''Main conversation section'',
    lf_importance := 8 / 10\<rparr>"
  define rt where "rt = empty_leaf\<lparr>lf_id := ''root-0'', lf_kind := LeafKindRoot, lf_depth := 3,
    lf_children := [''section-0''], lf_summary := ''Conversation root'', lf_importance := 1\<rparr>"
  have ls: "?ls = ?leaves @ [cluster, sec, rt]"
    by (simp only: mock_leaves_def cluster_def sec_def rt_def Let_def mock_ids_leaves)
  have ids: "map lf_id ?ls = mock_ids ?n @ [''cluster-0'', ''section-0'', ''root-0'']"
    unfolding ls map_append mock_ids_leaves by (simp add: cluster_def sec_def rt_def)
  have dist: "distinct (mock_ids ?n @ [''cluster-0'', ''section-0'', ''root-0''])"
    by (auto simp: mock_ids_def distinct_map inj_on_def int_str_nat_inj)
  have keys: "distinct (map fst ?L)"
    using dist ids by (simp add: o_def)
  have stored: "map_of ?L (lf_id l) = Some l" if "l \<in> set ?ls" for l
    using keys that by (intro map_of_is_SomeI) auto
  have valid: "leaf_validate cluster = None" "leaf_validate sec = None" "leaf_validate rt = None"
    by (simp_all add: cluster_def sec_def rt_def empty_leaf_def leaf_validate_def leaf_kinds MaxASTDepth_def)
  have at: "map_of ?L ''cluster-0'' = Some cluster" "map_of ?L ''section-0'' = Some sec" "map_of ?L ''root-0'' = Some rt"
    using stored [of cluster] stored [of sec] stored [of rt] by (simp_all add: ls cluster_def sec_def rt_def)
  have checked: "leaf_in_tree ?L ''root-0'' = Inr rt" "leaf_in_tree ?L ''section-0'' = Inr sec"
    "leaf_in_tree ?L ''cluster-0'' = Inr cluster"
    using at valid by (simp_all add: leaf_in_tree_def) (simp_all add: rt_def sec_def cluster_def empty_leaf_def)
  have leaf: "\<exists>l. leaf_in_tree ?L x = Inr l \<and> lf_children l = []" if "x \<in> set (mock_ids ?n)" for x
  proof -
    from that obtain i e where "(i, e) \<in> set (enumerate 0 (cj_events req))" "x = lf_id (mock_leaf f i e)"
      unfolding mock_ids_leaves [of f, symmetric] by auto
    then have "map_of ?L x = Some (mock_leaf f i e)"
      using stored [of "mock_leaf f i e"] by (force simp: ls)
    with at(1) show ?thesis
      by (simp add: leaf_in_tree_def) (simp add: cluster_def)
  qed
  have "validate_ids ?L [''cluster-0'', ''section-0'', ''root-0''] (mock_ids ?n)
      = Inr (rev (mock_ids ?n) @ [''cluster-0'', ''section-0'', ''root-0''])"
    using dist leaf by (intro validate_childless) auto
  then have "validate_subtree ?L [] ''root-0'' = Inr (rev (mock_ids ?n) @ [''cluster-0'', ''section-0'', ''root-0''])"
    using checked by (simp add: validate_subtree_def) (simp add: rt_def sec_def cluster_def)
  with at(3) valid(3) show ?thesis
    by (simp add: ast_validate_def mock_ast_def) (simp add: rt_def)
qed

text \<open>
  Whatever the events, the tree that the mock builds of them validates: every event is a leaf of its own
  below one cluster, one section and the root, and the coverage lists the events in order.
\<close>

theorem mock_ast_validates:
  "case mock_compact_context marshal rfc3339 now None req of
     Inl e \<Rightarrow> cj_events req = [] \<and> e = ErrEmptyLeaf
   | Inr resp \<Rightarrow> cj_events req \<noteq> [] \<and> ast_validate (cx_ast resp) = None
       \<and> length (ta_leaves (cx_ast resp)) = length (cj_events req) + 3
       \<and> ta_coverage (cx_ast resp) = map ev_id (cj_events req)"
proof (cases "cj_events req = []")
  case True
  then show ?thesis by (simp add: mock_compact_context_def)
next
  case False
  then show ?thesis
    using mock_tree_validates [of rfc3339 now req]
    by (simp add: mock_compact_context_def Let_def) (simp add: mock_ast_def mock_leaves_def Let_def)
qed

end
