(* ===== verification/SearchIndex.thy ===== *)
theory SearchIndex
  imports Eventlog GoJson GoStrings "HOL-Library.AList"
begin

text \<open>
  \<open>internal/memory/search.go\<close> and \<open>search_ast.go\<close>: the content search over the spine, an inverted index
  ranked by BM25 and enriched with the symbols of events whose text is Go source. Scores are exact
  rationals; \<open>math.Log\<close>, the tables of package \<open>unicode\<close> for runes beyond ASCII and the parser of
  \<open>go/parser\<close> are parameters. The syntax trees are the part of \<open>go/ast\<close> that the extraction looks at.
\<close>

subsection \<open>Runes\<close>

text \<open>
  The tables of \<open>unicode\<close> beyond ASCII: the lower case of a rune and whether it is a letter or digit,
  on its UTF-8 encoding.
\<close>

record unicode =
  un_lower :: "string \<Rightarrow> string"
  un_alnum :: "string \<Rightarrow> bool"

text \<open>
  The runes that \<open>range\<close> over a string yields, as their encodings; an invalid byte yields U+FFFD.
\<close>

definition rune_error :: string where
  "rune_error = [CHR 0xEF, CHR 0xBF, CHR 0xBD]"

function runes :: "string \<Rightarrow> string list" where
  "runes [] = []"
| "runes (c # cs) =
     (if (of_char c :: nat) < 128 then [c] # runes cs
      else (case rune_size (c # cs) of
              None \<Rightarrow> rune_error # runes cs
            | Some n \<Rightarrow> take n (c # cs) # runes (drop n (c # cs))))"
  by pat_completeness auto
termination
  by (relation "measure length") (auto dest!: rune_size_bounds)

declare runes.simps(2) [simp del]

text \<open>\<open>strings.ToLower\<close>, and the test for runes that belong to a term.\<close>

definition lower_rune :: "unicode \<Rightarrow> string \<Rightarrow> string" where
  "lower_rune un r = (case r of [c] \<Rightarrow> [lower_char c] | _ \<Rightarrow> un_lower un r)"

definition lower_text :: "unicode \<Rightarrow> string \<Rightarrow> string" where
  "lower_text un s = concat (map (lower_rune un) (runes s))"

definition ascii_word :: "char \<Rightarrow> bool" where
  "ascii_word c \<longleftrightarrow> (let n = (of_char c :: nat) in
     (48 \<le> n \<and> n \<le> 57) \<or> (65 \<le> n \<and> n \<le> 90) \<or> (97 \<le> n \<and> n \<le> 122) \<or> n = 95)"

definition word_rune :: "unicode \<Rightarrow> string \<Rightarrow> bool" where
  "word_rune un r = (case r of [c] \<Rightarrow> ascii_word c | _ \<Rightarrow> un_alnum un r)"

text \<open>Terms shorter than two bytes are dropped: \<open>strings.Builder.Len\<close> counts bytes.\<close>

definition flush_term :: "string \<Rightarrow> string list" where
  "flush_term current = (if 2 \<le> length current then [current] else [])"

fun token_loop :: "unicode \<Rightarrow> string \<Rightarrow> string list \<Rightarrow> string list" where
  "token_loop un current [] = flush_term current"
| "token_loop un current (r # rs) =
     (if word_rune un r then token_loop un (current @ r) rs
      else flush_term current @ token_loop un [] rs)"

definition tokenize :: "unicode \<Rightarrow> string \<Rightarrow> string list" where
  "tokenize un s = token_loop un [] (runes (lower_text un s))"

subsection \<open>The text of an event\<close>

definition event_text :: "event \<Rightarrow> string" where
  "event_text e =
     (if meta_string (ev_meta e) ''text'' \<noteq> [] then meta_string (ev_meta e) ''text''
      else if meta_string (ev_meta e) ''summary'' \<noteq> [] then meta_string (ev_meta e) ''summary''
      else str_join '' '' (List.map_filter (\<lambda>(k, v).
             case v of VStr s \<Rightarrow> if s \<noteq> [] \<and> k \<noteq> ''schema_version'' then Some s else None | _ \<Rightarrow> None)
             (ev_meta e)))"

subsection \<open>Syntax trees and their symbols\<close>

text \<open>
  \<open>go/ast\<close>: an expression of a kind that the code does not look at is \<open>OtherExpr\<close>. A field is the list
  of its names with its type; an identifier that may be nil is an option.
\<close>

datatype go_expr =
    Ident string
  | StarExpr go_expr
  | SelectorExpr go_expr "string option"
  | ArrayType go_expr
  | MapType go_expr go_expr
  | FuncType
  | InterfaceType "string list list"
  | ChanType go_expr
  | StructType "(string list \<times> go_expr) list"
  | OtherExpr

record func_decl =
  fd_name :: "string option"
  fd_recv :: "go_expr list option"
  fd_params :: "go_expr list option"
  fd_results :: "go_expr list option"

datatype go_spec =
    TypeSpec "string option" go_expr
  | ValueSpec "string list"
  | ImportSpec "string option"

datatype go_decl = FuncDecl func_decl | GenDecl "go_spec list" | BadDecl

record go_file =
  gf_name :: "string option"
  gf_decls :: "go_decl list"
  gf_comments :: "string list list"

definition opt_list :: "'a option \<Rightarrow> 'a list" where
  "opt_list v = (case v of None \<Rightarrow> [] | Some x \<Rightarrow> [x])"

fun extract_type_names :: "go_expr \<Rightarrow> string list" where
  "extract_type_names (Ident n) = [n]"
| "extract_type_names (StarExpr x) = extract_type_names x"
| "extract_type_names (SelectorExpr x sel) =
     (case x of Ident n \<Rightarrow> [n] | _ \<Rightarrow> []) @ opt_list sel"
| "extract_type_names (ArrayType t) = extract_type_names t"
| "extract_type_names (MapType k v) = extract_type_names k @ extract_type_names v"
| "extract_type_names (ChanType v) = extract_type_names v"
| "extract_type_names FuncType = []"
| "extract_type_names (InterfaceType ms) = []"
| "extract_type_names (StructType fs) = []"
| "extract_type_names OtherExpr = []"

definition receiver_name :: "go_expr \<Rightarrow> string list" where
  "receiver_name t = (case t of StarExpr (Ident n) \<Rightarrow> [n] | Ident n \<Rightarrow> [n] | _ \<Rightarrow> [])"

definition extract_func_symbols :: "func_decl \<Rightarrow> string list" where
  "extract_func_symbols fn =
     opt_list (fd_name fn)
     @ (case fd_recv fn of None \<Rightarrow> [] | Some ts \<Rightarrow> concat (map receiver_name ts))
     @ (case fd_params fn of None \<Rightarrow> [] | Some ts \<Rightarrow> concat (map extract_type_names ts))
     @ (case fd_results fn of None \<Rightarrow> [] | Some ts \<Rightarrow> concat (map extract_type_names ts))"

fun spec_symbols :: "go_spec \<Rightarrow> string list" where
  "spec_symbols (TypeSpec name t) =
     opt_list name
     @ (case t of
          StructType fs \<Rightarrow> concat (map (\<lambda>(names, ft). extract_type_names ft @ names) fs)
        | InterfaceType ms \<Rightarrow> concat ms
        | _ \<Rightarrow> [])"
| "spec_symbols (ValueSpec names) = names"
| "spec_symbols (ImportSpec path) =
     (case path of None \<Rightarrow> []
      | Some p \<Rightarrow> [last (split_on (CHR ''/'') (trim_chars [CHR 0x22] p))])"

definition extract_gen_decl_symbols :: "go_spec list \<Rightarrow> string list" where
  "extract_gen_decl_symbols specs = concat (map spec_symbols specs)"

definition decl_symbols :: "go_decl \<Rightarrow> string list" where
  "decl_symbols d =
     (case d of FuncDecl fn \<Rightarrow> extract_func_symbols fn
      | GenDecl specs \<Rightarrow> extract_gen_decl_symbols specs
      | BadDecl \<Rightarrow> [])"

definition file_symbols :: "unicode \<Rightarrow> go_file \<Rightarrow> string list" where
  "file_symbols un f =
     opt_list (gf_name f)
     @ concat (map decl_symbols (gf_decls f))
     @ concat (map (\<lambda>cg. concat (map (\<lambda>c. filter (\<lambda>t. 3 \<le> length t) (tokenize un c)) cg)) (gf_comments f))"

definition extract_symbols :: "unicode \<Rightarrow> (string \<Rightarrow> go_file result) \<Rightarrow> string \<Rightarrow> string list result" where
  "extract_symbols un parse src =
     (case parse src of Inl e \<Rightarrow> Inl e | Inr f \<Rightarrow> Inr (file_symbols un f))"

subsection \<open>The inverted index\<close>

record posting =
  po_event :: string
  po_freq :: nat
  po_boost :: rat

record event_stats =
  et_tokens :: nat
  et_branch :: string

record search_index =
  ix_terms :: "string \<Rightarrow> posting list"
  ix_stats :: "(string \<times> event_stats) list"
  ix_docs :: nat
  ix_avg :: rat

definition new_index :: search_index where
  "new_index = \<lparr>ix_terms = (\<lambda>t. []), ix_stats = [], ix_docs = 0, ix_avg = 0\<rparr>"

text \<open>The environment of the index: \<open>unicode\<close>, \<open>go/parser\<close> and \<open>math.Log\<close>.\<close>

record search_env =
  sn_unicode :: unicode
  sn_parse :: "string \<Rightarrow> go_file result"
  sn_log :: "rat \<Rightarrow> rat"

text \<open>The loop \<open>tf[t]++\<close>; no result depends on the order of the keys.\<close>

definition tally_step :: "string \<Rightarrow> (string \<times> nat) list \<Rightarrow> (string \<times> nat) list" where
  "tally_step t m = AList.update t (Suc (case map_of m t of None \<Rightarrow> 0 | Some n \<Rightarrow> n)) m"

definition tally :: "string list \<Rightarrow> (string \<times> nat) list" where
  "tally ts = fold tally_step ts []"

definition add_posting :: "string \<Rightarrow> rat \<Rightarrow> string \<times> nat \<Rightarrow> (string \<Rightarrow> posting list) \<Rightarrow> string \<Rightarrow> posting list" where
  "add_posting eid boost tf terms =
     terms(fst tf := terms (fst tf) @ [\<lparr>po_event = eid, po_freq = snd tf, po_boost = boost\<rparr>])"

definition recompute_avg_doc_len :: "search_index \<Rightarrow> search_index" where
  "recompute_avg_doc_len ix =
     (if ix_docs ix = 0 then ix\<lparr>ix_avg := 0\<rparr>
      else ix\<lparr>ix_avg := of_nat (sum_list (map (et_tokens \<circ> snd) (ix_stats ix))) / of_nat (ix_docs ix)\<rparr>)"

text \<open>The counts of an event: its terms, and its symbols with the frequency raised threefold.\<close>

definition text_counts :: "search_env \<Rightarrow> event \<Rightarrow> (string \<times> nat) list" where
  "text_counts sn e = tally (tokenize (sn_unicode sn) (event_text e))"

definition symbol_counts :: "search_env \<Rightarrow> event \<Rightarrow> (string \<times> nat) list" where
  "symbol_counts sn e =
     (case extract_symbols (sn_unicode sn) (sn_parse sn) (event_text e) of
        Inl err \<Rightarrow> []
      | Inr symbols \<Rightarrow> map (\<lambda>(t, n). (t, n * 3)) (tally (map (lower_text (sn_unicode sn)) symbols)))"

definition index_add :: "search_env \<Rightarrow> event \<Rightarrow> search_index \<Rightarrow> search_index" where
  "index_add sn e ix =
     (if event_text e = [] then ix
      else let tokens = tokenize (sn_unicode sn) (event_text e) in
      if tokens = [] then ix
      else
        let tf = text_counts sn e;
            stf = symbol_counts sn e;
            terms1 = fold (add_posting (ev_id e) 1) tf (ix_terms ix);
            terms2 = fold (add_posting (ev_id e) 3) stf terms1;
            stats = \<lparr>et_tokens = length tokens + sum_list (map snd stf), et_branch = ev_branch e\<rparr>
        in recompute_avg_doc_len
             (ix\<lparr>ix_terms := terms2, ix_stats := AList.update (ev_id e) stats (ix_stats ix),
                 ix_docs := ix_docs ix + 1\<rparr>))"

subsection \<open>Searching\<close>

record search_opts =
  so_branch :: string
  so_limit :: int

record search_result =
  sr_event :: string
  sr_score :: rat

definition bm_k1 :: rat where "bm_k1 = 12 / 10"
definition bm_b :: rat where "bm_b = 3 / 4"

definition index_idf :: "(rat \<Rightarrow> rat) \<Rightarrow> search_index \<Rightarrow> string \<Rightarrow> rat" where
  "index_idf logf ix qt =
     (let df = of_nat (length (ix_terms ix qt)) in
      logf ((of_nat (ix_docs ix) - df + 1 / 2) / (df + 1 / 2) + 1))"

definition stats_of :: "search_index \<Rightarrow> string \<Rightarrow> event_stats" where
  "stats_of ix i = (case map_of (ix_stats ix) i of None \<Rightarrow> \<lparr>et_tokens = 0, et_branch = []\<rparr> | Some s \<Rightarrow> s)"

definition posting_score :: "search_index \<Rightarrow> rat \<Rightarrow> posting \<Rightarrow> rat" where
  "posting_score ix idf p =
     (let dl = of_nat (et_tokens (stats_of ix (po_event p))); tf = of_nat (po_freq p);
          numerator = tf * (bm_k1 + 1);
          denominator = tf + bm_k1 * (1 - bm_b + bm_b * (dl / ix_avg ix))
      in idf * (numerator / denominator))"

definition in_branch :: "search_index \<Rightarrow> string \<Rightarrow> string \<Rightarrow> bool" where
  "in_branch ix branch i =
     (if branch = [] then True
      else case map_of (ix_stats ix) i of None \<Rightarrow> False | Some s \<Rightarrow> et_branch s = branch)"

definition add_score :: "string \<Rightarrow> rat \<Rightarrow> (string \<times> rat) list \<Rightarrow> (string \<times> rat) list" where
  "add_score i q scores = AList.update i ((case map_of scores i of None \<Rightarrow> 0 | Some r \<Rightarrow> r) + q) scores"

definition score_term ::
  "(rat \<Rightarrow> rat) \<Rightarrow> search_index \<Rightarrow> string \<Rightarrow> string \<Rightarrow> (string \<times> rat) list \<Rightarrow> (string \<times> rat) list" where
  "score_term logf ix branch qt scores =
     (let postings = ix_terms ix qt in
      if postings = [] then scores
      else fold (\<lambda>p scores. if in_branch ix branch (po_event p)
                   then add_score (po_event p) (posting_score ix (index_idf logf ix qt) p) scores else scores)
             postings scores)"

text \<open>\<open>visit\<close> is the order in which \<open>range\<close> visits the scores.\<close>

definition index_search ::
  "search_env \<Rightarrow> ((string \<times> rat) list \<Rightarrow> (string \<times> rat) list) \<Rightarrow> string \<Rightarrow> search_opts \<Rightarrow> search_index
    \<Rightarrow> search_result list" where
  "index_search sn visit query opts ix =
     (let limit = (if so_limit opts \<le> 0 then 20 else so_limit opts);
          terms = tokenize (sn_unicode sn) query in
      if terms = [] then []
      else
        let scores = fold (score_term (sn_log sn) ix (so_branch opts)) terms [];
            results = go_sort (\<lambda>a b. sr_score a > sr_score b)
              (map (\<lambda>(i, q). \<lparr>sr_event = i, sr_score = q\<rparr>) (visit scores))
        in if int (length results) > limit then take (nat limit) results else results)"

definition index_size :: "search_index \<Rightarrow> nat" where
  "index_size ix = ix_docs ix"

subsection \<open>Counting terms\<close>

definition alist_value :: "('k \<times> 'v :: zero) list \<Rightarrow> 'k \<Rightarrow> 'v" where
  "alist_value m k = (case map_of m k of None \<Rightarrow> 0 | Some v \<Rightarrow> v)"

lemma alist_value_update [simp]: "alist_value (AList.update k v m) = (alist_value m)(k := v)"
  by (auto simp: alist_value_def update_conv')

lemma alist_value_Nil [simp]: "alist_value [] k = 0"
  by (simp add: alist_value_def)

lemma map_of_alist_value: "k \<in> fst ` set m \<Longrightarrow> map_of m k = Some (alist_value m k)"
  by (cases "map_of m k") (auto simp: alist_value_def map_of_eq_None_iff)

lemma sum_alist:
  "distinct (map fst m) \<Longrightarrow> sum_list (map snd m) = (\<Sum>k \<in> fst ` set m. alist_value m k)"
proof (induction m)
  case (Cons kv m)
  obtain k v where kv: "kv = (k, v)" by (cases kv)
  have "(\<Sum>k' \<in> fst ` set m. alist_value (kv # m) k') = (\<Sum>k' \<in> fst ` set m. alist_value m k')"
    using Cons.prems kv by (intro sum.cong) (auto simp: alist_value_def)
  with Cons kv show ?case by (simp add: alist_value_def)
qed simp

lemma tally_step_alt: "tally_step t m = AList.update t (Suc (alist_value m t)) m"
  by (simp add: tally_step_def alist_value_def)

lemma fold_tally:
  "alist_value (fold tally_step ts m) t = alist_value m t + count_list ts t
   \<and> fst ` set (fold tally_step ts m) = fst ` set m \<union> set ts
   \<and> (distinct (map fst m) \<longrightarrow> distinct (map fst (fold tally_step ts m)))"
  by (induction ts arbitrary: m) (auto simp: tally_step_alt dom_update distinct_update)

lemma tally_distinct [simp]: "distinct (map fst (tally ts))"
  and tally_keys [simp]: "fst ` set (tally ts) = set ts"
  and tally_value: "alist_value (tally ts) t = count_list ts t"
  using fold_tally [of ts "[]"] by (simp_all add: tally_def)

lemma map_of_tally: "map_of (tally ts) t = (if t \<in> set ts then Some (count_list ts t) else None)"
  using map_of_alist_value [of t "tally ts"] by (auto simp: tally_value map_of_eq_None_iff)

lemma tally_sum: "sum_list (map snd (tally ts)) = length ts"
  using sum_alist [OF tally_distinct [of ts]] by (simp add: tally_value sum_count_set)

subsection \<open>What the index holds\<close>

definition event_terms :: "search_env \<Rightarrow> event \<Rightarrow> string list" where
  "event_terms sn e = tokenize (sn_unicode sn) (event_text e)"

definition event_symbols :: "search_env \<Rightarrow> event \<Rightarrow> string list" where
  "event_symbols sn e =
     (case extract_symbols (sn_unicode sn) (sn_parse sn) (event_text e) of
        Inl err \<Rightarrow> [] | Inr symbols \<Rightarrow> map (lower_text (sn_unicode sn)) symbols)"

text \<open>What an event contributes to the postings of a term, and its length.\<close>

definition postings_of :: "search_env \<Rightarrow> string \<Rightarrow> event \<Rightarrow> posting list" where
  "postings_of sn t e =
     (if t \<in> set (event_terms sn e)
      then [\<lparr>po_event = ev_id e, po_freq = count_list (event_terms sn e) t, po_boost = 1\<rparr>] else [])
     @ (if t \<in> set (event_symbols sn e)
      then [\<lparr>po_event = ev_id e, po_freq = 3 * count_list (event_symbols sn e) t, po_boost = 3\<rparr>] else [])"

definition stats_entry :: "search_env \<Rightarrow> event \<Rightarrow> string \<times> event_stats" where
  "stats_entry sn e = (ev_id e,
     \<lparr>et_tokens = length (event_terms sn e) + 3 * length (event_symbols sn e), et_branch = ev_branch e\<rparr>)"

definition indexable :: "search_env \<Rightarrow> event \<Rightarrow> bool" where
  "indexable sn e \<longleftrightarrow> event_terms sn e \<noteq> []"

lemma tokenize_Nil [simp]: "tokenize un [] = []"
  by (simp add: tokenize_def lower_text_def flush_term_def)

lemma symbol_counts_alt: "symbol_counts sn e = map (\<lambda>(t, n). (t, n * 3)) (tally (event_symbols sn e))"
  by (simp add: symbol_counts_def event_symbols_def tally_def split: sum.split)

lemma add_postings:
  "distinct (map fst tfs) \<Longrightarrow>
   fold (add_posting i boost) tfs terms t =
     terms t @ (case map_of tfs t of None \<Rightarrow> [] | Some n \<Rightarrow> [\<lparr>po_event = i, po_freq = n, po_boost = boost\<rparr>])"
proof (induction tfs arbitrary: terms)
  case (Cons tf tfs)
  then have "map_of tfs (fst tf) = None" by (simp add: map_of_eq_None_iff)
  with Cons show ?case by (cases tf) (auto simp: add_posting_def)
qed simp

lemma add_postings_event:
  "fold (add_posting (ev_id e) 3) (symbol_counts sn e) (fold (add_posting (ev_id e) 1) (text_counts sn e) terms) t =
     terms t @ postings_of sn t e"
proof -
  have d: "distinct (map fst (symbol_counts sn e))" "distinct (map fst (text_counts sn e))"
    by (simp_all add: symbol_counts_alt text_counts_def comp_def split_def)
  have "map_of (symbol_counts sn e) t = map_option (\<lambda>n. n * 3) (map_of (tally (event_symbols sn e)) t)"
    by (simp add: symbol_counts_alt map_of_map)
  with d show ?thesis
    by (simp add: add_postings text_counts_def map_of_tally postings_of_def event_terms_def mult.commute)
qed

lemma index_add_cases:
  "\<not> indexable sn e \<Longrightarrow> index_add sn e ix = ix"
  "indexable sn e \<Longrightarrow>
     ix_terms (index_add sn e ix) = (\<lambda>t. ix_terms ix t @ postings_of sn t e)
     \<and> ix_stats (index_add sn e ix) = AList.update (ev_id e) (snd (stats_entry sn e)) (ix_stats ix)
     \<and> ix_docs (index_add sn e ix) = Suc (ix_docs ix)
     \<and> ix_avg (index_add sn e ix) =
         of_nat (sum_list (map (et_tokens \<circ> snd) (ix_stats (index_add sn e ix)))) / of_nat (Suc (ix_docs ix))"
proof -
  show "\<not> indexable sn e \<Longrightarrow> index_add sn e ix = ix"
    by (simp add: index_add_def indexable_def event_terms_def)
  assume *: "indexable sn e"
  then have "event_text e \<noteq> []" "tokenize (sn_unicode sn) (event_text e) \<noteq> []"
    by (auto simp: indexable_def event_terms_def)
  moreover have "sum_list (map snd (symbol_counts sn e)) = 3 * length (event_symbols sn e)"
    by (simp add: symbol_counts_alt comp_def split_def sum_list_mult_const tally_sum)
  ultimately show "ix_terms (index_add sn e ix) = (\<lambda>t. ix_terms ix t @ postings_of sn t e)
     \<and> ix_stats (index_add sn e ix) = AList.update (ev_id e) (snd (stats_entry sn e)) (ix_stats ix)
     \<and> ix_docs (index_add sn e ix) = Suc (ix_docs ix)
     \<and> ix_avg (index_add sn e ix) =
         of_nat (sum_list (map (et_tokens \<circ> snd) (ix_stats (index_add sn e ix)))) / of_nat (Suc (ix_docs ix))"
    by (simp add: index_add_def Let_def recompute_avg_doc_len_def add_postings_event stats_entry_def
        event_terms_def fun_eq_iff)
qed

definition index_of :: "search_env \<Rightarrow> event list \<Rightarrow> search_index" where
  "index_of sn es = fold (index_add sn) es new_index"

lemma index_of_snoc: "index_of sn (es @ [e]) = index_add sn e (index_of sn es)"
  by (simp add: index_of_def)

lemma index_of_holds:
  "ix_terms (index_of sn es) t = concat (map (postings_of sn t) (filter (indexable sn) es))
   \<and> ix_docs (index_of sn es) = length (filter (indexable sn) es)
   \<and> map_of (ix_stats (index_of sn es)) = map_of (rev (map (stats_entry sn) (filter (indexable sn) es)))
   \<and> distinct (map fst (ix_stats (index_of sn es)))
   \<and> ix_avg (index_of sn es) = of_nat (sum_list (map (et_tokens \<circ> snd) (ix_stats (index_of sn es))))
       / of_nat (length (filter (indexable sn) es))"
proof (induction es rule: rev_induct)
  case Nil
  show ?case by (simp add: index_of_def new_index_def)
next
  case (snoc e es)
  show ?case
  proof (cases "indexable sn e")
    case True
    with snoc show ?thesis
      by (simp add: index_of_snoc index_add_cases distinct_update update_conv' stats_entry_def comp_def)
  next
    case False
    with snoc show ?thesis by (simp add: index_of_snoc index_add_cases)
  qed
qed

text \<open>
  C18. The search index is exact: after any sequence of events the postings of a term are, in order, those
  of the events with a term, one for the text with the number of occurrences and one for the symbols with
  three times the number; the number of documents is the number of events with a term; the statistics
  of an identifier are those of the last such event; and as long as identifiers differ, the average
  length is the exact average of terms and threefold symbols.
\<close>

theorem index_exact:
  "let ix = fold (index_add sn) es new_index; docs = filter (indexable sn) es in
     ix_terms ix t = concat (map (postings_of sn t) docs)
     \<and> index_size ix = length docs
     \<and> map_of (ix_stats ix) = map_of (rev (map (stats_entry sn) docs))
     \<and> (if distinct (map ev_id docs)
        then ix_avg ix = of_nat (sum_list (map (\<lambda>e. length (event_terms sn e) + 3 * length (event_symbols sn e)) docs))
               / of_nat (length docs)
        else True)"
proof -
  let ?ix = "index_of sn es" and ?docs = "filter (indexable sn) es"
  let ?len = "\<lambda>e. length (event_terms sn e) + 3 * length (event_symbols sn e)"
  have "sum_list (map (et_tokens \<circ> snd) (ix_stats ?ix)) = sum_list (map ?len ?docs)" if dist: "distinct (map ev_id ?docs)"
  proof -
    let ?es = "rev (map (stats_entry sn) ?docs)"
    have keys: "map fst ?es = rev (map ev_id ?docs)" by (simp add: stats_entry_def rev_map)
    then have "distinct (map fst ?es)" using dist by simp
    with index_of_holds [of sn es] have "set (ix_stats ?ix) = set ?es"
      by (metis map_of_inject_set)
    moreover have "distinct (ix_stats ?ix)" "distinct ?es"
      using index_of_holds [of sn es] \<open>distinct (map fst ?es)\<close> by (auto simp: distinct_map)
    ultimately have "mset (ix_stats ?ix) = mset ?es" by (metis set_eq_iff_mset_eq_distinct)
    then have "sum_list (map (et_tokens \<circ> snd) (ix_stats ?ix)) = sum_list (map (et_tokens \<circ> snd) ?es)"
      by (metis mset_map sum_mset_sum_list)
    also have "\<dots> = sum_list (map ?len ?docs)"
      by (simp add: stats_entry_def comp_def sum_list_rev flip: rev_map)
    finally show ?thesis .
  qed
  with index_of_holds [of sn es] show ?thesis
    by (simp add: index_of_def index_size_def Let_def comp_def del: map_of_map)
qed

subsection \<open>What a search finds\<close>

text \<open>The BM25 score of an identifier: the sum over the terms of the query and its postings.\<close>

definition bm25 :: "(rat \<Rightarrow> rat) \<Rightarrow> search_index \<Rightarrow> string list \<Rightarrow> string \<Rightarrow> rat" where
  "bm25 logf ix terms i =
     sum_list (map (\<lambda>t. sum_list (map (posting_score ix (index_idf logf ix t))
                           (filter (\<lambda>p. po_event p = i) (ix_terms ix t)))) terms)"

definition matched :: "search_index \<Rightarrow> string \<Rightarrow> string list \<Rightarrow> string \<Rightarrow> bool" where
  "matched ix branch terms i \<longleftrightarrow>
     in_branch ix branch i \<and> list_ex (\<lambda>t. list_ex (\<lambda>p. po_event p = i) (ix_terms ix t)) terms"

lemma add_score_alt: "add_score i q m = AList.update i (alist_value m i + q) m"
  by (simp add: add_score_def alist_value_def)

definition score_posting ::
  "search_index \<Rightarrow> string \<Rightarrow> (posting \<Rightarrow> rat) \<Rightarrow> posting \<Rightarrow> (string \<times> rat) list \<Rightarrow> (string \<times> rat) list" where
  "score_posting ix branch g p scores =
     (if in_branch ix branch (po_event p) then add_score (po_event p) (g p) scores else scores)"

lemma fold_score_term:
  "alist_value (fold (score_posting ix branch g) ps scores) i = alist_value scores i
       + (if in_branch ix branch i then sum_list (map g (filter (\<lambda>p. po_event p = i) ps)) else 0)
   \<and> fst ` set (fold (score_posting ix branch g) ps scores) =
       fst ` set scores \<union> {i \<in> po_event ` set ps. in_branch ix branch i}
   \<and> (distinct (map fst scores) \<longrightarrow> distinct (map fst (fold (score_posting ix branch g) ps scores)))"
  by (induction ps arbitrary: scores) (auto simp: score_posting_def add_score_alt dom_update distinct_update)

lemma score_term_alt:
  "score_term logf ix branch t scores =
     fold (score_posting ix branch (posting_score ix (index_idf logf ix t))) (ix_terms ix t) scores"
proof -
  have "score_posting ix branch g = (\<lambda>p scores. if in_branch ix branch (po_event p)
      then add_score (po_event p) (g p) scores else scores)" for g
    by (simp add: score_posting_def fun_eq_iff)
  then show ?thesis by (auto simp: score_term_def Let_def)
qed

lemma fold_score_terms:
  "alist_value (fold (score_term logf ix branch) ts scores) i = alist_value scores i
       + (if in_branch ix branch i then bm25 logf ix ts i else 0)
   \<and> fst ` set (fold (score_term logf ix branch) ts scores) = fst ` set scores \<union> {i. matched ix branch ts i}
   \<and> (distinct (map fst scores) \<longrightarrow> distinct (map fst (fold (score_term logf ix branch) ts scores)))"
proof (induction ts arbitrary: scores)
  case (Cons t ts)
  note one = fold_score_term [where ix = ix and branch = branch and ps = "ix_terms ix t"
      and g = "posting_score ix (index_idf logf ix t)" and scores = scores, folded score_term_alt]
  show ?case
    using one [of i] Cons.IH [of "score_term logf ix branch t scores"]
    by (auto simp: bm25_def matched_def list_ex_iff image_iff)
qed (auto simp: bm25_def matched_def)

lemma take_sorted_top:
  assumes "sorted (map f xs)" and "x \<in> set xs" and "x \<notin> set (take n xs)" and "y \<in> set (take n xs)"
  shows "f y \<le> f x" and "length (take n xs) = n"
proof -
  have "x \<in> set (drop n xs)"
    using assms(2,3) by (metis Un_iff append_take_drop_id set_append)
  moreover have "sorted (map f (take n xs) @ map f (drop n xs))"
    using assms(1) by (metis append_take_drop_id map_append)
  ultimately show "f y \<le> f x" using assms(4) by (auto simp: sorted_append)
  have "n < length xs"
    using \<open>x \<in> set (drop n xs)\<close> by (metis drop_all empty_iff list.set(1) not_le_imp_less)
  then show "length (take n xs) = n" by simp
qed

text \<open>The scores before sorting: exactly the matched events, each with its score.\<close>

lemma in_scores:
  fixes lg ix bid ts
  defines "scores \<equiv> fold (score_term lg ix bid) ts []"
  shows "(i, q) \<in> set scores \<longleftrightarrow> matched ix bid ts i \<and> q = bm25 lg ix ts i" and "distinct (map fst scores)"
proof -
  have fs: "alist_value scores i = (if in_branch ix bid i then bm25 lg ix ts i else 0)"
      "fst ` set scores = {i. matched ix bid ts i}" "distinct (map fst scores)" for i
    using fold_score_terms [of lg ix bid ts "[]" i] by (simp_all add: scores_def)
  then show "distinct (map fst scores)" by simp
  show "(i, q) \<in> set scores \<longleftrightarrow> matched ix bid ts i \<and> q = bm25 lg ix ts i"
  proof
    assume iq: "(i, q) \<in> set scores"
    then have "matched ix bid ts i" using fs(2) by force
    moreover from this have "in_branch ix bid i" by (simp add: matched_def)
    moreover from iq fs(3) have "alist_value scores i = q" by (simp add: alist_value_def)
    ultimately show "matched ix bid ts i \<and> q = bm25 lg ix ts i" using fs(1) by simp
  next
    assume m: "matched ix bid ts i \<and> q = bm25 lg ix ts i"
    then have "in_branch ix bid i" "i \<in> fst ` set scores"
      using fs(2) by (simp_all add: matched_def)
    with m fs(1) map_of_alist_value [of i scores] show "(i, q) \<in> set scores"
      by (auto dest: map_of_SomeD)
  qed
qed

text \<open>All results in their order, which the limit then cuts.\<close>

definition ranked :: "(string \<times> rat) list \<Rightarrow> search_result list" where
  "ranked scores = sort_key (\<lambda>r. - sr_score r) (map (\<lambda>(i, q). \<lparr>sr_event = i, sr_score = q\<rparr>) scores)"

lemma ranked_scores:
  fixes lg ix bid ts
  assumes "\<And>xs. mset (visit xs) = mset xs"
  defines "all \<equiv> ranked (visit (fold (score_term lg ix bid) ts []))"
  shows "r \<in> set all \<longleftrightarrow> matched ix bid ts (sr_event r) \<and> sr_score r = bm25 lg ix ts (sr_event r)"
    and "distinct (map sr_event all)" and "sorted (map (\<lambda>r. - sr_score r) all)"
proof -
  let ?scores = "fold (score_term lg ix bid) ts []"
  have set_visit: "set (visit ?scores) = set ?scores"
    using assms(1) [of ?scores] by (rule mset_eq_setD)
  have "r \<in> set all \<longleftrightarrow> (sr_event r, sr_score r) \<in> set ?scores"
    by (cases r) (force simp: all_def ranked_def set_visit image_iff)
  then show "r \<in> set all \<longleftrightarrow> matched ix bid ts (sr_event r) \<and> sr_score r = bm25 lg ix ts (sr_event r)"
    by (simp add: in_scores)
  have "mset (map sr_event all) = mset (map sr_event (map (\<lambda>(i, q). \<lparr>sr_event = i, sr_score = q\<rparr>) (visit ?scores)))"
    by (simp only: all_def ranked_def mset_map mset_sort)
  also have "\<dots> = mset (map fst ?scores)"
    using assms(1) [of ?scores] by (simp add: split_def multiset.map_comp comp_def)
  finally show "distinct (map sr_event all)"
    using in_scores(2) by (metis mset_eq_imp_distinct_iff)
  show "sorted (map (\<lambda>r. - sr_score r) all)" by (simp add: all_def ranked_def)
qed

lemma index_search_eq:
  assumes "\<And>xs. mset (visit xs) = mset xs"
  shows "index_search sn visit query opts ix =
    take (nat (if so_limit opts \<le> 0 then 20 else so_limit opts))
      (ranked (visit (fold (score_term (sn_log sn) ix (so_branch opts)) (tokenize (sn_unicode sn) query) [])))"
proof -
  define L where "L = (if so_limit opts \<le> 0 then 20 else so_limit opts)"
  have cut: "(if int (length xs) > L then take (nat L) xs else xs) = take (nat L) xs" for xs :: "search_result list"
    by (auto simp: L_def)
  have sortd: "go_sort (\<lambda>a b. sr_score a > sr_score b) xs = sort_key (\<lambda>r. - sr_score r) xs"
    for xs :: "search_result list"
    using go_sort_key_eq [of "\<lambda>r. - sr_score r" xs] by simp
  show ?thesis
  proof (cases "tokenize (sn_unicode sn) query = []")
    case True
    with assms [of "[]"] show ?thesis by (simp add: index_search_def ranked_def)
  next
    case False
    then show ?thesis
      unfolding index_search_def Let_def L_def [symmetric] cut by (simp add: sortd ranked_def)
  qed
qed

lemma search_top:
  assumes "\<And>xs. mset (visit xs) = mset xs"
  shows "let rs = index_search sn visit query opts ix;
             limit = (if so_limit opts \<le> 0 then 20 else so_limit opts);
             terms = tokenize (sn_unicode sn) query
    in distinct (map sr_event rs) \<and> sorted (map (\<lambda>r. - sr_score r) rs) \<and> int (length rs) \<le> limit
      \<and> (\<forall>r \<in> set rs. matched ix (so_branch opts) terms (sr_event r)
            \<and> sr_score r = bm25 (sn_log sn) ix terms (sr_event r))
      \<and> (\<forall>i. matched ix (so_branch opts) terms i \<longrightarrow> i \<in> sr_event ` set rs
            \<or> int (length rs) = limit \<and> (\<forall>r \<in> set rs. bm25 (sn_log sn) ix terms i \<le> sr_score r))"
proof -
  define L where "L = (if so_limit opts \<le> 0 then 20 else so_limit opts)"
  define ts where "ts = tokenize (sn_unicode sn) query"
  define all where "all = ranked (visit (fold (score_term (sn_log sn) ix (so_branch opts)) ts []))"
  define rs where "rs = take (nat L) all"
  have L: "0 < L" by (simp add: L_def)
  have rs_eq: "index_search sn visit query opts ix = rs"
    by (simp add: index_search_eq [OF assms] rs_def all_def L_def ts_def)
  note mem = ranked_scores(1) [OF assms, where lg = "sn_log sn" and bid = "so_branch opts" and ts = ts and ix = ix,
      folded all_def]
    and dist = ranked_scores(2) [OF assms, where lg = "sn_log sn" and bid = "so_branch opts" and ts = ts and ix = ix,
      folded all_def]
    and sorted = ranked_scores(3) [OF assms, where lg = "sn_log sn" and bid = "so_branch opts" and ts = ts and ix = ix,
      folded all_def]
  have sub: "set rs \<subseteq> set all" by (simp add: rs_def set_take_subset)
  have top: "i \<in> sr_event ` set rs \<or> int (length rs) = L \<and> (\<forall>r \<in> set rs. bm25 (sn_log sn) ix ts i \<le> sr_score r)"
    if "matched ix (so_branch opts) ts i" for i
  proof (cases "\<lparr>sr_event = i, sr_score = bm25 (sn_log sn) ix ts i\<rparr> \<in> set rs")
    case True
    then show ?thesis by (force simp: image_iff)
  next
    case False
    let ?r = "\<lparr>sr_event = i, sr_score = bm25 (sn_log sn) ix ts i\<rparr>"
    have all: "?r \<in> set all" using that by (simp add: mem)
    with False have "nat L < length all" by (metis linorder_not_le rs_def take_all)
    moreover have "bm25 (sn_log sn) ix ts i \<le> sr_score r" if "r \<in> set rs" for r
      using take_sorted_top(1) [OF sorted all False [unfolded rs_def], of r] that by (simp add: rs_def)
    ultimately show ?thesis using L by (simp add: rs_def)
  qed
  have "distinct (map sr_event rs)" "sorted (map (\<lambda>r. - sr_score r) rs)" "int (length rs) \<le> L"
    using dist sorted L by (simp_all add: rs_def sorted_wrt_take flip: take_map)
  with top mem sub show ?thesis
    unfolding Let_def rs_eq by (fold L_def ts_def) blast
qed

text \<open>The events that a query asks for: of the branch, with a term or symbol of the query.\<close>

definition hit :: "search_env \<Rightarrow> string \<Rightarrow> string list \<Rightarrow> event \<Rightarrow> bool" where
  "hit sn branch terms e \<longleftrightarrow>
     indexable sn e \<and> (branch = [] \<or> ev_branch e = branch)
     \<and> list_ex (\<lambda>t. t \<in> set (event_terms sn e) \<union> set (event_symbols sn e)) terms"

lemma postings_of_event:
  "(\<exists>p \<in> set (postings_of sn t e). po_event p = i) \<longleftrightarrow>
     ev_id e = i \<and> t \<in> set (event_terms sn e) \<union> set (event_symbols sn e)"
  by (auto simp: postings_of_def)

lemma matched_index_of:
  assumes dist: "distinct (map ev_id (filter (indexable sn) es))"
  shows "matched (index_of sn es) branch terms i \<longleftrightarrow> (\<exists>e \<in> set es. hit sn branch terms e \<and> ev_id e = i)"
proof -
  let ?docs = "filter (indexable sn) es" and ?ix = "index_of sn es"
  have holds: "ix_terms ?ix t = concat (map (postings_of sn t) ?docs)"
    "map_of (ix_stats ?ix) = map_of (rev (map (stats_entry sn) ?docs))" for t
    using index_of_holds [of sn es] by blast+
  have "distinct (map fst (rev (map (stats_entry sn) ?docs)))"
    using dist by (simp add: stats_entry_def comp_def flip: rev_map)
  then have stats: "map_of (ix_stats ?ix) (ev_id e) = Some (snd (stats_entry sn e))" if "e \<in> set ?docs" for e
    using that unfolding holds(2) by (intro map_of_is_SomeI) (auto simp: stats_entry_def)
  have "in_branch ?ix branch (ev_id e) \<longleftrightarrow> branch = [] \<or> ev_branch e = branch" if "e \<in> set ?docs" for e
    using stats [OF that] by (simp add: in_branch_def stats_entry_def)
  moreover have "(\<exists>p \<in> set (ix_terms ?ix t). po_event p = i) \<longleftrightarrow>
      (\<exists>e \<in> set ?docs. ev_id e = i \<and> t \<in> set (event_terms sn e) \<union> set (event_symbols sn e))" for t
    using postings_of_event [of sn t _ i] by (auto simp: holds(1))
  ultimately show ?thesis
    unfolding matched_def list_ex_iff hit_def by (auto 0 4)
qed

text \<open>
  C17. A search over the events that were added ranks exactly: its results are different identifiers,
  sorted by falling score and at most as many as the limit; each is an event of the branch with a term
  or symbol of the query, with its BM25 score; and such an event that is left out scores no higher than
  any that is returned, of which there are then as many as the limit allows.
\<close>

theorem search_ranks_exactly:
  assumes "\<And>xs. mset (visit xs) = mset xs" and "distinct (map ev_id (filter (indexable sn) es))"
  shows "let ix = fold (index_add sn) es new_index;
             rs = index_search sn visit query opts ix;
             limit = (if so_limit opts \<le> 0 then 20 else so_limit opts);
             terms = tokenize (sn_unicode sn) query
    in distinct (map sr_event rs) \<and> sorted (map (\<lambda>r. - sr_score r) rs) \<and> int (length rs) \<le> limit
      \<and> (\<forall>r \<in> set rs. sr_score r = bm25 (sn_log sn) ix terms (sr_event r)
            \<and> (\<exists>e \<in> set es. hit sn (so_branch opts) terms e \<and> ev_id e = sr_event r))
      \<and> (\<forall>e \<in> set es. hit sn (so_branch opts) terms e \<longrightarrow> ev_id e \<in> sr_event ` set rs
            \<or> int (length rs) = limit \<and> (\<forall>r \<in> set rs. bm25 (sn_log sn) ix terms (ev_id e) \<le> sr_score r))"
  using search_top [OF assms(1), of sn query opts "index_of sn es"]
  unfolding Let_def index_of_def [symmetric] matched_index_of [OF assms(2)] by blast

subsection \<open>Instances\<close>

text \<open>
  A Go file and a note. The parser knows the file; the logarithm is replaced by its tangent at 1, which
  has the same sign.
\<close>

definition sample_env :: search_env where
  "sample_env = \<lparr>sn_unicode = \<lparr>un_lower = (\<lambda>r. r), un_alnum = (\<lambda>r. False)\<rparr>,
     sn_parse = (\<lambda>s. if s = ''package main'' then Inr \<lparr>gf_name = Some ''main'', gf_decls = [], gf_comments = []\<rparr>
                 else Inl (Adhoc ''expected package'')),
     sn_log = (\<lambda>q. q - 1)\<rparr>"

definition text_event :: "string \<Rightarrow> string \<Rightarrow> event" where
  "text_event i t = \<lparr>ev_id = i, ev_session = ''s'', ev_ts = 1, ev_kind = KindTurnUser, ev_branch = ''main'',
     ev_parent = [], ev_refs = [], ev_meta = [(''text'', VStr t)], ev_blob = []\<rparr>"

text \<open>
  A symbol has two postings, so its inverse document frequency falls below that of a term that every
  event has, and the score of the only match is negative.
\<close>

theorem search_ranks_exactly_witness:
  "case index_search sample_env rev ''Main'' \<lparr>so_branch = [], so_limit = 0\<rparr>
      (fold (index_add sample_env) [text_event ''a'' ''package main''] new_index) of
     [r] \<Rightarrow> sr_event r = ''a'' \<and> sr_score r < 0
   | _ \<Rightarrow> False"
proof -
  let ?rs = "index_search sample_env rev ''Main'' \<lparr>so_branch = [], so_limit = 0\<rparr>
      (fold (index_add sample_env) [text_event ''a'' ''package main''] new_index)"
  let ?ix = "fold (index_add sample_env) [text_event ''a'' ''package main''] new_index"
  have "length ?rs = 1" by code_simp
  then obtain r where r: "?rs = [r]" by (cases ?rs) auto
  have "distinct (map ev_id (filter (indexable sample_env) [text_event ''a'' ''package main'']))" by simp
  from search_ranks_exactly [of rev sample_env "[text_event ''a'' ''package main'']" "''Main''"
      "\<lparr>so_branch = [], so_limit = 0\<rparr>", OF _ this] r
  have "sr_score r = bm25 (sn_log sample_env) ?ix (tokenize (sn_unicode sample_env) ''Main'') (sr_event r)"
    "sr_event r = ''a''"
    by (simp_all add: Let_def text_event_def)
  moreover have "bm25 (sn_log sample_env) ?ix (tokenize (sn_unicode sample_env) ''Main'') ''a'' < 0" by code_simp
  ultimately show ?thesis unfolding r by simp
qed

end
