(* ===== verification/FastExtract.thy ===== *)
theory FastExtract
  imports SearchIndex
begin

text \<open>
  \<open>internal/preprocess/types.go\<close>, \<open>parse.go\<close> and \<open>prompt.go\<close>: the records of the two-layer preprocessor,
  their validation and projections, and the way from the raw answer of a fast model to a typed
  extraction. The classes of Go (\<open>IntentClass\<close>, \<open>TopicTag\<close>, \ldots) are strings and a conversion checks
  nothing, so they are strings here too. A \<open>float64\<close> is the rational it stands for: JSON has neither NaN
  nor infinities. \<open>encoding/json\<close> on the answer and the clock are parameters.
\<close>

subsection \<open>Types\<close>

definition SchemaVersionV1 :: string where "SchemaVersionV1 = ''preprocess.v1''"

definition IntentQuestion :: string where "IntentQuestion = ''question''"
definition IntentCommand :: string where "IntentCommand = ''command''"
definition IntentStatusUpdate :: string where "IntentStatusUpdate = ''status_update''"
definition IntentArtifactShare :: string where "IntentArtifactShare = ''artifact_share''"
definition IntentConversation :: string where "IntentConversation = ''conversation''"
definition IntentCorrection :: string where "IntentCorrection = ''correction''"
definition IntentUnknown :: string where "IntentUnknown = ''unknown''"

definition EntityProject :: string where "EntityProject = ''project''"
definition EntityPerson :: string where "EntityPerson = ''person''"
definition EntityTool :: string where "EntityTool = ''tool''"
definition EntityFile :: string where "EntityFile = ''file''"
definition EntitySession :: string where "EntitySession = ''session''"
definition EntityBranch :: string where "EntityBranch = ''branch''"

definition TopicCode :: string where "TopicCode = ''code''"
definition TopicDebugging :: string where "TopicDebugging = ''debugging''"
definition TopicPlanning :: string where "TopicPlanning = ''planning''"
definition TopicInfra :: string where "TopicInfra = ''infra''"
definition TopicData :: string where "TopicData = ''data''"
definition TopicReview :: string where "TopicReview = ''review''"
definition TopicMeta :: string where "TopicMeta = ''meta''"
definition TopicGeneral :: string where "TopicGeneral = ''general''"

definition SentimentNeutral :: string where "SentimentNeutral = ''neutral''"
definition SentimentPositive :: string where "SentimentPositive = ''positive''"
definition SentimentFrustrated :: string where "SentimentFrustrated = ''frustrated''"
definition SentimentUrgent :: string where "SentimentUrgent = ''urgent''"

definition FlagUncertain :: string where "FlagUncertain = ''uncertain''"
definition FlagMultiIntent :: string where "FlagMultiIntent = ''multi_intent''"
definition FlagAmbiguousEntity :: string where "FlagAmbiguousEntity = ''ambiguous_entity''"
definition FlagLowConfidence :: string where "FlagLowConfidence = ''low_confidence''"
definition FlagNeedsReview :: string where "FlagNeedsReview = ''needs_review''"

lemmas class_defs [go_defs] =
  IntentQuestion_def IntentCommand_def IntentStatusUpdate_def IntentArtifactShare_def
  IntentConversation_def IntentCorrection_def IntentUnknown_def TopicCode_def TopicDebugging_def
  TopicPlanning_def TopicInfra_def TopicData_def TopicReview_def TopicMeta_def TopicGeneral_def
  SentimentNeutral_def SentimentPositive_def SentimentFrustrated_def SentimentUrgent_def
  FlagUncertain_def FlagMultiIntent_def FlagAmbiguousEntity_def FlagLowConfidence_def FlagNeedsReview_def

record entity =
  en_name :: string
  en_type :: string
  en_conf :: rat
  en_match :: string

record extraction =
  ex_version :: string
  ex_intent :: string
  ex_intent_conf :: rat
  ex_entities :: "entity list"
  ex_topics :: "string list"
  ex_sentiment :: string
  ex_sentiment_conf :: rat
  ex_summary :: string
  ex_flags :: "string list"
  ex_source_length :: int
  ex_timestamp :: gotime

record validation_error =
  ve_field :: string
  ve_message :: string

definition ve_error :: "validation_error \<Rightarrow> string" where
  "ve_error e = ''preprocess: '' @ ve_field e @ '': '' @ ve_message e"

text \<open>The \<open>Job\<close> of \<open>daemon.go\<close>, which sessions hand over.\<close>

record pp_job =
  jb_id :: string
  jb_session :: string
  jb_branch :: string
  jb_text :: string
  jb_ts :: gotime

text \<open>\<open>itoa\<close> of this package; its argument is the index of a \<open>range\<close> and never negative.\<close>

fun index_digits :: "nat \<Rightarrow> string \<Rightarrow> string" where
  "index_digits n buf = (if 0 < n then index_digits (n div 10) (digit_char (n mod 10) # buf) else buf)"

declare index_digits.simps [simp del]

definition index_itoa :: "nat \<Rightarrow> string" where
  "index_itoa i = (if i < 10 then [digit_char i] else index_digits i [])"

definition conf_message :: string where
  "conf_message = ''must be 0.0'' @ en_dash @ ''1.0''"

definition unit_conf :: "rat \<Rightarrow> bool" where
  "unit_conf c \<longleftrightarrow> \<not> (c < 0 \<or> 1 < c)"

fun entities_error :: "nat \<Rightarrow> entity list \<Rightarrow> validation_error option" where
  "entities_error i [] = None"
| "entities_error i (x # xs) =
     (if \<not> unit_conf (en_conf x)
      then Some \<lparr>ve_field = ''entities['' @ index_itoa i @ ''].confidence'', ve_message = conf_message\<rparr>
      else if en_name x = []
      then Some \<lparr>ve_field = ''entities['' @ index_itoa i @ ''].name'', ve_message = ''required''\<rparr>
      else entities_error (Suc i) xs)"

definition extraction_validate :: "extraction \<Rightarrow> validation_error option" where
  "extraction_validate x =
     (if 200 < length (ex_summary x)
      then Some \<lparr>ve_field = ''summary'', ve_message = ''exceeds 200 char limit''\<rparr>
      else if \<not> unit_conf (ex_intent_conf x)
      then Some \<lparr>ve_field = ''intent_confidence'', ve_message = conf_message\<rparr>
      else if \<not> unit_conf (ex_sentiment_conf x)
      then Some \<lparr>ve_field = ''sentiment_confidence'', ve_message = conf_message\<rparr>
      else entities_error 0 (ex_entities x))"

definition has_flag :: "string \<Rightarrow> extraction \<Rightarrow> bool" where
  "has_flag f x = list_ex (\<lambda>flag. flag = f) (ex_flags x)"

definition should_route_to_strong :: "extraction \<Rightarrow> bool" where
  "should_route_to_strong x \<longleftrightarrow>
     has_flag FlagUncertain x \<or> has_flag FlagMultiIntent x \<or> has_flag FlagNeedsReview x
     \<or> ex_intent_conf x < 1 / 2"

subsection \<open>Projections into event metadata\<close>

definition entity_meta :: "entity \<Rightarrow> gomap" where
  "entity_meta x =
     [(''name'', VStr (en_name x)), (''type'', VStr (en_type x)), (''confidence'', VFloat (en_conf x)),
      (''match_type'', VStr (en_match x))]"

definition extraction_meta :: "extraction \<Rightarrow> gomap" where
  "extraction_meta x =
     [(''schema_version'', VStr (ex_version x)), (''intent'', VStr (ex_intent x)),
      (''intent_confidence'', VFloat (ex_intent_conf x)), (''sentiment'', VStr (ex_sentiment x)),
      (''sentiment_confidence'', VFloat (ex_sentiment_conf x)), (''source_length'', VInt (ex_source_length x))]
     @ (if ex_entities x = [] then [] else [(''entities'', VMaps (map entity_meta (ex_entities x)))])
     @ (if ex_topics x = [] then [] else [(''topics'', VStrs (ex_topics x))])
     @ (if ex_summary x = [] then [] else [(''summary'', VStr (ex_summary x))])
     @ (if ex_flags x = [] then [] else [(''flags'', VStrs (ex_flags x))])"

record routing =
  ro_version :: string
  ro_intent :: string
  ro_tool :: string
  ro_agent :: string
  ro_priority :: string
  ro_context :: bool
  ro_reasoning :: string
  ro_timestamp :: gotime

definition routing_meta :: "routing \<Rightarrow> gomap" where
  "routing_meta r =
     [(''schema_version'', VStr (ro_version r)), (''intent'', VStr (ro_intent r)),
      (''priority'', VStr (ro_priority r)), (''requires_context'', VBool (ro_context r)),
      (''reasoning'', VStr (ro_reasoning r))]
     @ (if ro_tool r = [] then [] else [(''suggested_tool'', VStr (ro_tool r))])
     @ (if ro_agent r = [] then [] else [(''target_agent'', VStr (ro_agent r))])"

record processing_meta =
  pm_fast_used :: bool
  pm_fast_name :: string
  pm_fast_latency :: int
  pm_strong_used :: bool
  pm_strong_name :: string
  pm_memory_ms :: int
  pm_total_ms :: int

record pp_envelope =
  pe_version :: string
  pe_extraction :: "extraction option"
  pe_routing :: "routing option"
  pe_processing :: processing_meta

definition pp_envelope_meta :: "pp_envelope \<Rightarrow> gomap" where
  "pp_envelope_meta env =
     (let p = pe_processing env in
      [(''schema_version'', VStr (pe_version env)),
       (''processing'', VMap
         ([(''fast_model_used'', VBool (pm_fast_used p)), (''strong_model_used'', VBool (pm_strong_used p)),
           (''total_ms'', VInt (pm_total_ms p))]
          @ (if pm_fast_name p = [] then [] else [(''fast_model_name'', VStr (pm_fast_name p))])
          @ (if 0 < pm_fast_latency p then [(''fast_model_latency_ms'', VInt (pm_fast_latency p))] else [])
          @ (if pm_strong_name p = [] then [] else [(''strong_model_name'', VStr (pm_strong_name p))])
          @ (if 0 < pm_memory_ms p then [(''memory_query_ms'', VInt (pm_memory_ms p))] else [])))]
      @ (case pe_extraction env of None \<Rightarrow> [] | Some x \<Rightarrow> [(''extraction'', VMap (extraction_meta x))])
      @ (case pe_routing env of None \<Rightarrow> [] | Some r \<Rightarrow> [(''routing'', VMap (routing_meta r))]))"

subsection \<open>Parsing\<close>

record raw_entity =
  re_name :: string
  re_type :: string
  re_conf :: rat
  re_match :: string

record raw_extraction =
  rx_intent :: string
  rx_intent_conf :: rat
  rx_entities :: "raw_entity list"
  rx_topics :: "string list"
  rx_sentiment :: string
  rx_sentiment_conf :: rat
  rx_summary :: string
  rx_flags :: "string list"

definition fence :: string where "fence = replicate 3 (CHR 0x60)"

text \<open>\<open>strings.TrimPrefix\<close> and \<open>TrimSuffix\<close>.\<close>

definition drop_prefix :: "string \<Rightarrow> string \<Rightarrow> string" where
  "drop_prefix s p = (if prefix p s then drop (length p) s else s)"

definition drop_suffix :: "string \<Rightarrow> string \<Rightarrow> string" where
  "drop_suffix s p = (if suffix p s then take (length s - length p) s else s)"

definition strip_markdown_fences :: "string \<Rightarrow> string" where
  "strip_markdown_fences s0 =
     (let s = trim_space s0 in
      if prefix (fence @ ''json'') s
      then trim_space (drop_suffix (drop_prefix s (fence @ ''json'')) fence)
      else if prefix fence s
      then trim_space (drop_suffix (drop_prefix s fence) fence)
      else s)"

definition truncate_to :: "string \<Rightarrow> nat \<Rightarrow> string" where
  "truncate_to s n = (if length s \<le> n then s else take n s)"

definition default_match_type :: "string \<Rightarrow> string" where
  "default_match_type mt = (if mt \<in> {''exact'', ''fuzzy'', ''inferred''} then mt else ''inferred'')"

definition is_valid_intent :: "string \<Rightarrow> bool" where
  "is_valid_intent i \<longleftrightarrow>
     i \<in> {IntentQuestion, IntentCommand, IntentStatusUpdate, IntentArtifactShare, IntentConversation,
          IntentCorrection, IntentUnknown}"

definition is_valid_sentiment :: "string \<Rightarrow> bool" where
  "is_valid_sentiment s \<longleftrightarrow> s \<in> {SentimentNeutral, SentimentPositive, SentimentFrustrated, SentimentUrgent}"

definition is_valid_topic :: "string \<Rightarrow> bool" where
  "is_valid_topic t \<longleftrightarrow>
     t \<in> {TopicCode, TopicDebugging, TopicPlanning, TopicInfra, TopicData, TopicReview, TopicMeta, TopicGeneral}"

definition is_valid_flag :: "string \<Rightarrow> bool" where
  "is_valid_flag f \<longleftrightarrow>
     f \<in> {FlagUncertain, FlagMultiIntent, FlagAmbiguousEntity, FlagLowConfidence, FlagNeedsReview}"

text \<open>The verb \<open>%.200s\<close> of \<open>fmt\<close> counts runes and copies invalid bytes; \<^const>\<open>rune_size\<close> is their size.\<close>

function first_runes :: "nat \<Rightarrow> string \<Rightarrow> string" where
  "first_runes 0 s = []"
| "first_runes (Suc n) [] = []"
| "first_runes (Suc n) (c # cs) =
     (let k = (if (of_char c :: nat) < 128 then 1 else case rune_size (c # cs) of None \<Rightarrow> 1 | Some k \<Rightarrow> k)
      in take k (c # cs) @ first_runes n (drop k (c # cs)))"
  by pat_completeness auto
termination
  by (relation "measure fst") auto

fun normalize_entities :: "raw_entity list \<Rightarrow> entity list" where
  "normalize_entities [] = []"
| "normalize_entities (re # res) =
     (if re_name re = [] then normalize_entities res
      else \<lparr>en_name = trim_space (re_name re), en_type = re_type re, en_conf = re_conf re,
            en_match = default_match_type (re_match re)\<rparr> # normalize_entities res)"

definition typed_extraction :: "gotime \<Rightarrow> raw_extraction \<Rightarrow> extraction" where
  "typed_extraction now parsed =
     (let x0 = \<lparr>ex_version = SchemaVersionV1, ex_intent = rx_intent parsed, ex_intent_conf = rx_intent_conf parsed,
                ex_entities = normalize_entities (rx_entities parsed),
                ex_topics = filter is_valid_topic (rx_topics parsed),
                ex_sentiment = rx_sentiment parsed, ex_sentiment_conf = rx_sentiment_conf parsed,
                ex_summary = truncate_to (rx_summary parsed) 200,
                ex_flags = filter is_valid_flag (rx_flags parsed), ex_source_length = 0, ex_timestamp = now\<rparr>;
          x1 = (if is_valid_intent (ex_intent x0) then x0
                else x0\<lparr>ex_intent := IntentUnknown, ex_intent_conf := 0, ex_flags := ex_flags x0 @ [FlagUncertain]\<rparr>)
      in if is_valid_sentiment (ex_sentiment x1) then x1
         else x1\<lparr>ex_sentiment := SentimentNeutral, ex_sentiment_conf := 0\<rparr>)"

definition parse_extraction :: "(string \<Rightarrow> raw_extraction result) \<Rightarrow> gotime \<Rightarrow> string \<Rightarrow> extraction result" where
  "parse_extraction unmarshal now raw =
     (let cleaned = strip_markdown_fences raw in
      case unmarshal cleaned of
        Inl e \<Rightarrow> Inl (Wrapped (''json unmarshal: '' @ err_msg e @ '' (raw: '' @ first_runes 200 cleaned @ '')'') e)
      | Inr parsed \<Rightarrow> Inr (typed_extraction now parsed))"

subsection \<open>The prompt\<close>

definition extraction_prompt :: string where
  "extraction_prompt = str_join newline
     [''You are a fast message classifier. Extract structured metadata from the user'' @ [CHR 0x27] @ ''s message.'',
      [],
      ''Return ONLY valid JSON. No markdown, no explanation, no extra text.'',
      [],
      ''Schema:'',
      ''{'',
      ''  \"intent\": one of [\"question\", \"command\", \"status_update\", \"artifact_share\", \"conversation\", \"correction\", \"unknown\"],'',
      ''  \"intent_confidence\": float 0.0-1.0,'',
      ''  \"entities\": array of {\"name\": string, \"type\": one of [\"project\", \"person\", \"tool\", \"file\", \"session\", \"branch\"], \"confidence\": float 0.0-1.0, \"match_type\": one of [\"exact\", \"fuzzy\", \"inferred\"]},'',
      ''  \"topics\": array of [\"code\", \"debugging\", \"planning\", \"infra\", \"data\", \"review\", \"meta\", \"general\"],'',
      ''  \"sentiment\": one of [\"neutral\", \"positive\", \"frustrated\", \"urgent\"],'',
      ''  \"sentiment_confidence\": float 0.0-1.0,'',
      ''  \"summary\": string max 200 chars,'',
      ''  \"flags\": optional array of [\"uncertain\", \"multi_intent\", \"ambiguous_entity\", \"low_confidence\", \"needs_review\"]'',
      ''}'',
      [],
      ''Rules:'',
      ''- Entities must have non-empty names'',
      ''- Confidence scores must be honest '' @ em_dash @ '' use flags for uncertainty'',
      ''- If the message is ambiguous, set flag \"uncertain\" and lower intent_confidence'',
      ''- If multiple intents are present, set flag \"multi_intent\"'',
      ''- Summary must be under 200 characters'',
      ''- Topics should capture the domain, not the action'']"

subsection \<open>Validation\<close>

lemma index_digits_append: "0 < n \<Longrightarrow> index_digits n buf = nat_str n @ buf"
proof (induction n arbitrary: buf rule: less_induct)
  case (less n)
  show ?case
  proof (cases "n < 10")
    case True
    with less.prems show ?thesis
      by (simp add: index_digits.simps [of n] index_digits.simps [of 0] nat_str.simps [of n])
  next
    case False
    then have "index_digits (n div 10) (digit_char (n mod 10) # buf) = nat_str (n div 10) @ digit_char (n mod 10) # buf"
      using less.IH [of "n div 10"] by simp
    with False show ?thesis
      by (simp add: index_digits.simps [of n] nat_str.simps [of n])
  qed
qed

lemma index_itoa_decimal: "index_itoa i = nat_str i"
  by (simp add: index_itoa_def index_digits_append nat_str.simps [of i])

text \<open>An entity passes when its confidence is in the unit interval and its name is not empty.\<close>

definition entity_ok :: "entity \<Rightarrow> bool" where
  "entity_ok x \<longleftrightarrow> unit_conf (en_conf x) \<and> en_name x \<noteq> []"

lemma entities_error_None_iff: "entities_error i xs = None \<longleftrightarrow> list_all entity_ok xs"
  by (induction xs arbitrary: i) (auto simp: entity_ok_def)

lemma extraction_validate_None_iff:
  "extraction_validate x = None \<longleftrightarrow>
     length (ex_summary x) \<le> 200 \<and> unit_conf (ex_intent_conf x) \<and> unit_conf (ex_sentiment_conf x)
     \<and> list_all entity_ok (ex_entities x)"
  by (simp add: extraction_validate_def entities_error_None_iff not_less)

text \<open>An error about an entity names the first one that does not pass.\<close>

lemma entities_error_first:
  "entities_error i xs = Some err \<Longrightarrow>
     \<exists>k < length xs. list_all entity_ok (take k xs) \<and> \<not> entity_ok (xs ! k)
       \<and> ve_field err = ''entities['' @ nat_str (i + k) @ ''].''
            @ (if unit_conf (en_conf (xs ! k)) then ''name'' else ''confidence'')"
proof (induction xs arbitrary: i)
  case (Cons x xs)
  show ?case
  proof (cases "entity_ok x")
    case True
    with Cons.prems have "entities_error (Suc i) xs = Some err"
      by (simp add: entity_ok_def)
    from Cons.IH [OF this] True show ?thesis
      by (metis (no_types, opaque_lifting) Suc_less_eq add_Suc_right add_Suc length_Cons list.pred_inject(2)
            nth_Cons_Suc take_Suc_Cons)
  next
    case False
    with Cons.prems have "ve_field err = ''entities['' @ nat_str i @ ''].''
        @ (if unit_conf (en_conf x) then ''name'' else ''confidence'')"
      by (auto simp: entity_ok_def index_itoa_decimal split: if_splits)
    with False show ?thesis
      by (intro exI [of _ 0]) simp
  qed
qed simp

subsection \<open>What parsing guarantees\<close>

lemma length_truncate_to: "length (truncate_to s n) \<le> n"
  by (simp add: truncate_to_def)

lemma normalize_entities_match:
  "list_all (\<lambda>x. en_match x \<in> {''exact'', ''fuzzy'', ''inferred''}) (normalize_entities res)"
  by (induction res) (auto simp: default_match_type_def)

lemma normalize_entities_ok:
  "list_all entity_ok (normalize_entities res) \<longleftrightarrow>
     list_all (\<lambda>re. re_name re = [] \<or> unit_conf (re_conf re) \<and> trim_space (re_name re) \<noteq> []) res"
  by (induction res) (auto simp: entity_ok_def)

text \<open>The answers of the model that survive validation after parsing.\<close>

definition golden_answer :: "raw_extraction \<Rightarrow> bool" where
  "golden_answer p \<longleftrightarrow>
     (is_valid_intent (rx_intent p) \<longrightarrow> unit_conf (rx_intent_conf p))
     \<and> (is_valid_sentiment (rx_sentiment p) \<longrightarrow> unit_conf (rx_sentiment_conf p))
     \<and> list_all (\<lambda>re. re_name re = [] \<or> unit_conf (re_conf re) \<and> trim_space (re_name re) \<noteq> []) (rx_entities p)"

text \<open>What every typed extraction satisfies, whatever the model answered.\<close>

definition typed_ok :: "extraction \<Rightarrow> bool" where
  "typed_ok x \<longleftrightarrow>
     ex_version x = SchemaVersionV1 \<and> is_valid_intent (ex_intent x) \<and> is_valid_sentiment (ex_sentiment x)
     \<and> list_all is_valid_topic (ex_topics x) \<and> list_all is_valid_flag (ex_flags x)
     \<and> list_all (\<lambda>en. en_match en \<in> {''exact'', ''fuzzy'', ''inferred''}) (ex_entities x)
     \<and> length (ex_summary x) \<le> 200"

lemma valid_defaults [simp]:
  "is_valid_intent IntentUnknown" "is_valid_sentiment SentimentNeutral" "is_valid_flag FlagUncertain"
  by (simp_all add: is_valid_intent_def is_valid_sentiment_def is_valid_flag_def)

lemma unit_conf_0 [simp]: "unit_conf 0"
  by (simp add: unit_conf_def)

lemma typed_extraction_ok: "typed_ok (typed_extraction now p)"
  by (simp add: typed_ok_def typed_extraction_def Let_def length_truncate_to normalize_entities_match [simplified]
        list_all_iff [of is_valid_topic] list_all_iff [of is_valid_flag])

lemma typed_extraction_validates:
  "extraction_validate (typed_extraction now p) = None \<longleftrightarrow> golden_answer p"
  by (simp add: extraction_validate_None_iff typed_extraction_def Let_def length_truncate_to
        normalize_entities_ok golden_answer_def)

lemma typed_extraction_uncertain:
  "\<not> is_valid_intent (rx_intent p) \<Longrightarrow>
     ex_intent (typed_extraction now p) = IntentUnknown \<and> ex_intent_conf (typed_extraction now p) = 0
     \<and> should_route_to_strong (typed_extraction now p)"
  by (simp add: typed_extraction_def Let_def should_route_to_strong_def)

lemma typed_extraction_entities:
  "map (\<lambda>en. (en_name en, en_type en, en_conf en)) (ex_entities (typed_extraction now p))
   = map (\<lambda>re. (trim_space (re_name re), re_type re, re_conf re)) (filter (\<lambda>re. re_name re \<noteq> []) (rx_entities p))"
proof -
  have "map (\<lambda>en. (en_name en, en_type en, en_conf en)) (normalize_entities res)
      = map (\<lambda>re. (trim_space (re_name re), re_type re, re_conf re)) (filter (\<lambda>re. re_name re \<noteq> []) res)" for res
    by (induction res) simp_all
  then show ?thesis by (simp add: typed_extraction_def Let_def)
qed

text \<open>
  C32. Whatever the fast model answers, an extraction that is parsed has a known intent, sentiment,
  topics, flags and match types and a summary of at most 200 bytes; the type of an entity is not checked:
  the entities are those of the answer that have a name, in order, with the name trimmed and type and
  confidence as the model gave them. An intent the model invents becomes
  unknown with confidence 0, which is routed to the strong model; and the extraction passes validation
  exactly when the confidences that are kept lie in the unit interval and no entity has a name of white
  space only. Parsing fails exactly when the answer without its fences does not decode.
\<close>

theorem parse_extraction_exact:
  "case unmarshal (strip_markdown_fences raw) of
     Inl e \<Rightarrow> \<exists>m. parse_extraction unmarshal now raw = Inl (Wrapped m e)
   | Inr p \<Rightarrow> \<exists>x. parse_extraction unmarshal now raw = Inr x \<and> typed_ok x
       \<and> (is_valid_intent (rx_intent p) \<or>
            ex_intent x = IntentUnknown \<and> ex_intent_conf x = 0 \<and> should_route_to_strong x)
       \<and> (extraction_validate x = None \<longleftrightarrow> golden_answer p)
       \<and> map (\<lambda>en. (en_name en, en_type en, en_conf en)) (ex_entities x)
           = map (\<lambda>re. (trim_space (re_name re), re_type re, re_conf re))
               (filter (\<lambda>re. re_name re \<noteq> []) (rx_entities p))"
proof (cases "unmarshal (strip_markdown_fences raw)")
  case (Inl e)
  then show ?thesis by (simp add: parse_extraction_def)
next
  case (Inr p)
  then show ?thesis
    using typed_extraction_uncertain [of p now]
    by (auto simp: parse_extraction_def typed_extraction_ok typed_extraction_validates typed_extraction_entities)
qed

subsection \<open>What the metadata keeps\<close>

lemma extraction_meta_fields:
  "map_of (extraction_meta x) ''schema_version'' = Some (VStr (ex_version x))"
  "map_of (extraction_meta x) ''intent'' = Some (VStr (ex_intent x))"
  "map_of (extraction_meta x) ''intent_confidence'' = Some (VFloat (ex_intent_conf x))"
  "map_of (extraction_meta x) ''sentiment'' = Some (VStr (ex_sentiment x))"
  "map_of (extraction_meta x) ''sentiment_confidence'' = Some (VFloat (ex_sentiment_conf x))"
  "map_of (extraction_meta x) ''source_length'' = Some (VInt (ex_source_length x))"
  by (simp_all add: extraction_meta_def)

lemma extraction_meta_lists:
  "map_of (extraction_meta x) ''entities'' =
     (if ex_entities x = [] then None else Some (VMaps (map entity_meta (ex_entities x))))"
  "map_of (extraction_meta x) ''topics'' = (if ex_topics x = [] then None else Some (VStrs (ex_topics x)))"
  "map_of (extraction_meta x) ''summary'' = (if ex_summary x = [] then None else Some (VStr (ex_summary x)))"
  "map_of (extraction_meta x) ''flags'' = (if ex_flags x = [] then None else Some (VStrs (ex_flags x)))"
  by (simp_all add: extraction_meta_def)

lemma entity_meta_inj: "inj entity_meta"
  by (rule injI) (simp add: entity_meta_def)

text \<open>The metadata of an extraction keeps everything but its time stamp.\<close>

lemma extraction_meta_determines:
  fixes x y :: extraction
  assumes "extraction_meta x = extraction_meta y"
  shows "x = y\<lparr>ex_timestamp := ex_timestamp x\<rparr>"
proof -
  have fields: "ex_version x = ex_version y" "ex_intent x = ex_intent y" "ex_intent_conf x = ex_intent_conf y"
    "ex_sentiment x = ex_sentiment y" "ex_sentiment_conf x = ex_sentiment_conf y"
    "ex_source_length x = ex_source_length y"
    using extraction_meta_fields [of x] extraction_meta_fields [of y] assms by simp_all
  have "ex_topics x = ex_topics y" "ex_summary x = ex_summary y" "ex_flags x = ex_flags y"
    using extraction_meta_lists(2-4) [of x] extraction_meta_lists(2-4) [of y] assms
    by (auto split: if_splits)
  moreover have "map entity_meta (ex_entities x) = map entity_meta (ex_entities y)"
    using extraction_meta_lists(1) [of x] extraction_meta_lists(1) [of y] assms
    by (auto split: if_splits)
  then have "ex_entities x = ex_entities y"
    by (rule map_injective [OF _ entity_meta_inj])
  ultimately show ?thesis
    using fields by (cases x; cases y) simp
qed

end
