(* ===== verification/Session.thy ===== *)
theory Session
  imports ModelCall Tools SelfAudit Scheduler Assembler Replay Compactor FastExtract
begin

text \<open>
  \<open>internal/runtime/session.go\<close>: a session on a backend. A turn appends the user's event, assembles
  a packet from the spine, calls the model, runs tools, and repeats until the model answers or the
  limit of reasoning turns is reached. Every method holds the session's mutex for its whole body.

  The session's state is its backend, the event counter, the number of clock readings, the states of
  model and tools, the compaction scheduler, and what it has handed to its two collaborators: the events
  it gave the memory manager to index and the jobs it submitted to the preprocessor, in order. The
  configuration holds what the code is given as interfaces: the backend's operations, adapter,
  decoders, tool runner, compactor and clock, whether there is a preprocessor, and the search of the
  memory manager as a function of what it was handed. Metrics are only modelled as far as their
  presence switches the audit on.
\<close>

subsection \<open>Types\<close>

definition ErrInvalidConfig :: goerr where
  "ErrInvalidConfig = Sentinel ''runtime.ErrInvalidConfig'' ''invalid runtime config''"
definition ErrPacketBudgetRejected :: goerr where
  "ErrPacketBudgetRejected = Sentinel ''runtime.ErrPacketBudgetRejected'' ''packet budget rejected''"
definition ErrNoToolRunnerConfigured :: goerr where
  "ErrNoToolRunnerConfigured =
     Sentinel ''runtime.ErrNoToolRunnerConfigured'' ''tool runner not configured''"
definition ErrMaxReasoningTurns :: goerr where
  "ErrMaxReasoningTurns = Sentinel ''runtime.ErrMaxReasoningTurns'' ''max reasoning turns reached''"

datatype handed = Bootstrapped "event list" | Indexed event | Submitted pp_job

fun submitted :: "handed list \<Rightarrow> pp_job list" where
  "submitted [] = []"
| "submitted (Submitted j # hs) = j # submitted hs"
| "submitted (_ # hs) = submitted hs"

lemma submitted_append [simp]: "submitted (hs @ hs') = submitted hs @ submitted hs'"
  by (induction hs rule: submitted.induct) auto

record ('b, 'm, 't) sess_cfg =
  sc_id :: string
  sc_branch :: string
  sc_ops :: "'b backend_ops"
  sc_decoders :: model_decoders
  sc_adapter :: string
  sc_call :: "'m adapter"
  sc_runner :: "(tool_request \<Rightarrow> 't \<Rightarrow> tool_response \<times> 't) option"
  sc_encode :: "gomap \<Rightarrow> string result"
  sc_headers :: "http_header list"
  sc_max_turns :: int
  sc_search :: "(handed list \<Rightarrow> string \<Rightarrow> string list) option"
  sc_preprocessor :: bool
  sc_metrics :: bool
  sc_audit :: audit_config
  sc_compactor :: "compactor option"
  sc_schedule :: schedule_config
  sc_clock :: "nat \<Rightarrow> gotime"
  sc_fmt1 :: "rat \<Rightarrow> string"

record ('b, 'm, 't) sess =
  sn_backend :: 'b
  sn_counter :: nat
  sn_ticks :: nat
  sn_model :: 'm
  sn_tools :: 't
  sn_sched :: "scheduler option"
  sn_handed :: "handed list"

record turn_result =
  tu_session :: string
  tu_branch :: string
  tu_answer :: string
  tu_decision :: string
  tu_envelope :: int
  tu_selected :: "selected list"
  tu_explanation :: "explanation option"

definition empty_turn_result :: turn_result where
  "empty_turn_result = \<lparr>tu_session = [], tu_branch = [], tu_answer = [], tu_decision = [],
     tu_envelope = 0, tu_selected = [], tu_explanation = None\<rparr>"

subsection \<open>Starting\<close>

text \<open>
  \<open>StartSession\<close>, on a backend and on the initial states of model and tools. (A nil backend or
  adapter, the other two causes of \<open>ErrInvalidConfig\<close>, cannot be written here.) It returns the
  configuration with its defaults filled in, and the session.
\<close>

definition sess_defaults :: "('b, 'm, 't) sess_cfg \<Rightarrow> ('b, 'm, 't) sess_cfg" where
  "sess_defaults cfg = cfg\<lparr>sc_branch := (if sc_branch cfg = [] then ''main'' else sc_branch cfg),
     sc_max_turns := (if sc_max_turns cfg \<le> 0 then 4 else sc_max_turns cfg)\<rparr>"

definition start_session ::
  "('b, 'm, 't) sess_cfg \<Rightarrow> 'b \<Rightarrow> 'm \<Rightarrow> 't \<Rightarrow> (('b, 'm, 't) sess_cfg \<times> ('b, 'm, 't) sess) result" where
  "start_session cfg0 b m t =
     (if sc_id cfg0 = [] then Inl ErrInvalidConfig
      else let cfg = sess_defaults cfg0 in
      case bk_list (sc_ops cfg) None (sc_id cfg) b of
        Inl err \<Rightarrow> Inl err
      | Inr events \<Rightarrow>
        Inr (cfg, \<lparr>sn_backend = b, sn_counter = length events, sn_ticks = 0, sn_model = m, sn_tools = t,
          sn_sched = (case sc_compactor cfg of None \<Rightarrow> None
                      | Some _ \<Rightarrow> Some (new_scheduler (sc_schedule cfg))),
          sn_handed = (if sc_search cfg = None then [] else [Bootstrapped events])\<rparr>))"

subsection \<open>Identifiers, time and appending\<close>

definition event_id :: "string \<Rightarrow> nat \<Rightarrow> string \<Rightarrow> string" where
  "event_id sid n kind = sid @ ''.'' @ pad6 n @ ''.'' @ kind"

definition next_event_id :: "('b, 'm, 't) sess_cfg \<Rightarrow> string \<Rightarrow> ('b, 'm, 't) sess \<Rightarrow> string \<times> ('b, 'm, 't) sess" where
  "next_event_id cfg kind s =
     (event_id (sc_id cfg) (sn_counter s + 1) kind, s\<lparr>sn_counter := sn_counter s + 1\<rparr>)"

definition read_clock :: "('b, 'm, 't) sess_cfg \<Rightarrow> ('b, 'm, 't) sess \<Rightarrow> gotime \<times> ('b, 'm, 't) sess" where
  "read_clock cfg s = (sc_clock cfg (sn_ticks s), s\<lparr>sn_ticks := sn_ticks s + 1\<rparr>)"

definition append_to_spine ::
  "('b, 'm, 't) sess_cfg \<Rightarrow> ctx \<Rightarrow> event \<Rightarrow> ('b, 'm, 't) sess \<Rightarrow> goerr option \<times> ('b, 'm, 't) sess" where
  "append_to_spine cfg c e s =
     (let (err, b) = bk_append (sc_ops cfg) c e (sn_backend s) in (err, s\<lparr>sn_backend := b\<rparr>))"

definition append_blob_to ::
  "('b, 'm, 't) sess_cfg \<Rightarrow> ctx \<Rightarrow> string \<Rightarrow> string \<Rightarrow> ('b, 'm, 't) sess \<Rightarrow> goerr option \<times> ('b, 'm, 't) sess" where
  "append_blob_to cfg c ref payload s =
     (let (err, b) = bk_append_blob (sc_ops cfg) c ref payload (sn_backend s) in (err, s\<lparr>sn_backend := b\<rparr>))"

text \<open>An event of the session with a fresh identifier and the time now.\<close>

definition emitted ::
  "('b, 'm, 't) sess_cfg \<Rightarrow> string \<Rightarrow> string \<Rightarrow> string \<Rightarrow> string \<Rightarrow> gomap \<Rightarrow> ('b, 'm, 't) sess \<Rightarrow> event" where
  "emitted cfg tag kind bid parent meta s =
     \<lparr>ev_id = event_id (sc_id cfg) (sn_counter s + 1) tag, ev_session = sc_id cfg, ev_ts = sc_clock cfg (sn_ticks s),
      ev_kind = kind, ev_branch = bid, ev_parent = parent, ev_refs = [], ev_meta = meta, ev_blob = []\<rparr>"

definition emit ::
  "('b, 'm, 't) sess_cfg \<Rightarrow> ctx \<Rightarrow> string \<Rightarrow> string \<Rightarrow> string \<Rightarrow> string \<Rightarrow> gomap \<Rightarrow> ('b, 'm, 't) sess
   \<Rightarrow> goerr option \<times> ('b, 'm, 't) sess" where
  "emit cfg c tag kind bid parent meta s =
     (let (eid, s1) = next_event_id cfg tag s; (now, s2) = read_clock cfg s1 in
      append_to_spine cfg c
        \<lparr>ev_id = eid, ev_session = sc_id cfg, ev_ts = now, ev_kind = kind, ev_branch = bid,
         ev_parent = parent, ev_refs = [], ev_meta = meta, ev_blob = []\<rparr> s2)"

lemma emit_emitted:
  "emit cfg c tag kind bid parent meta s =
     append_to_spine cfg c (emitted cfg tag kind bid parent meta s)
       (s\<lparr>sn_counter := sn_counter s + 1, sn_ticks := sn_ticks s + 1\<rparr>)"
  by (simp add: emit_def emitted_def next_event_id_def read_clock_def Let_def)

text \<open>\<open>IndexEvent\<close> of the memory manager and \<open>Submit\<close> of the preprocessor, where they are configured.\<close>

definition hand_event :: "('b, 'm, 't) sess_cfg \<Rightarrow> event \<Rightarrow> ('b, 'm, 't) sess \<Rightarrow> ('b, 'm, 't) sess" where
  "hand_event cfg e s = (if sc_search cfg = None then s else s\<lparr>sn_handed := sn_handed s @ [Indexed e]\<rparr>)"

definition hand_job :: "('b, 'm, 't) sess_cfg \<Rightarrow> event \<Rightarrow> string \<Rightarrow> ('b, 'm, 't) sess \<Rightarrow> ('b, 'm, 't) sess" where
  "hand_job cfg e text_in s =
     (if sc_preprocessor cfg
      then s\<lparr>sn_handed := sn_handed s @ [Submitted \<lparr>jb_id = ev_id e, jb_session = sc_id cfg, jb_branch = ev_branch e,
             jb_text = text_in, jb_ts = ev_ts e\<rparr>]\<rparr>
      else s)"

lemma hand_simps [simp]:
  "sn_backend (hand_event cfg e s) = sn_backend s" "sn_backend (hand_job cfg e x s) = sn_backend s"
  "sn_counter (hand_event cfg e s) = sn_counter s" "sn_counter (hand_job cfg e x s) = sn_counter s"
  "sn_ticks (hand_event cfg e s) = sn_ticks s" "sn_ticks (hand_job cfg e x s) = sn_ticks s"
  "sn_tools (hand_event cfg e s) = sn_tools s" "sn_tools (hand_job cfg e x s) = sn_tools s"
  by (simp_all add: hand_event_def hand_job_def)

subsection \<open>Assembling the packet of a branch\<close>

definition latest_id :: "string \<Rightarrow> string \<Rightarrow> event list \<Rightarrow> string" where
  "latest_id kind bid es =
     (case find (\<lambda>e. ev_branch e = bid \<and> ev_kind e = kind \<and> ev_id e \<noteq> []) (rev es) of
        None \<Rightarrow> [] | Some e \<Rightarrow> ev_id e)"

definition candidate_text :: "event \<Rightarrow> string" where
  "candidate_text e =
     (if ev_kind e = KindTurnUser \<or> ev_kind e = KindTurnAgent then meta_string (ev_meta e) ''text''
      else if ev_kind e = KindToolResult then meta_string (ev_meta e) ''summary''
      else [])"

definition candidate_summary_ref :: "event \<Rightarrow> string" where
  "candidate_summary_ref e =
     (if ev_kind e = KindToolResult then
        (let cid = meta_string (ev_meta e) ''call_id'' in if cid \<noteq> [] then ''summary://tool/'' @ cid else [])
      else if ev_kind e = KindSummaryCheckpoint then
        (let sid = meta_string (ev_meta e) ''summary_id'' in
         if sid \<noteq> [] then ''summary://checkpoint/'' @ sid else [])
      else [])"

definition candidate_of :: "string \<Rightarrow> event list \<Rightarrow> nat \<Rightarrow> event \<Rightarrow> candidate" where
  "candidate_of bid es i e =
     (let active = (ev_branch e = bid) in
      \<lparr>cd_id = ev_id e, cd_kind = ev_kind e, cd_branch = ev_branch e, cd_active_branch = bid,
       cd_text = candidate_text e, cd_summary_ref = candidate_summary_ref e, cd_blob_ref = ev_blob e,
       cd_ordinal = int i, cd_is_active = active,
       cd_is_global = (meta_string (ev_meta e) ''global_relevant'' = ''true''),
       cd_is_current_user = (active \<and> ev_id e = latest_id KindTurnUser bid es),
       cd_is_latest_tool = (active \<and> ev_id e = latest_id KindToolResult bid es),
       cd_is_checkpoint = (active \<and> ev_kind e = KindSummaryCheckpoint),
       cd_is_nearest_summary = (active \<and> ev_id e = latest_id KindSummaryCheckpoint bid es),
       cd_is_sensitive = (ev_kind e = KindToolRequest \<or> ev_kind e = KindToolFailure)\<rparr>)"

definition candidates_of :: "string \<Rightarrow> event list \<Rightarrow> candidate list" where
  "candidates_of bid es = map (\<lambda>(i, e). candidate_of bid es i e) (zip [0..<length es] es)"

definition latest_user_query :: "string \<Rightarrow> event list \<Rightarrow> string" where
  "latest_user_query bid es =
     (case find (\<lambda>e. ev_kind e = KindTurnUser \<and> ev_branch e = bid \<and> ev_id e = latest_id KindTurnUser bid es) (rev es) of
        None \<Rightarrow> [] | Some e \<Rightarrow> candidate_text e)"

text \<open>\<open>len(strings.Fields(s))\<close>.\<close>

function field_count :: "bool \<Rightarrow> string \<Rightarrow> nat" where
  "field_count inside s =
     (case strip_one space_runes s of
        Some r \<Rightarrow> field_count False r
      | None \<Rightarrow> (case s of [] \<Rightarrow> 0 | _ # cs \<Rightarrow> (if inside then 0 else 1) + field_count True cs))"
  by pat_completeness auto
termination by (relation "measure (\<lambda>(b, s). length s)") (auto dest: strip_one_shorter)

declare field_count.simps [simp del]

definition enrich_candidates ::
  "('b, 'm, 't) sess_cfg \<Rightarrow> handed list \<Rightarrow> string \<Rightarrow> candidate list \<Rightarrow> candidate list" where
  "enrich_candidates cfg hs query cs =
     (case sc_search cfg of
        Some search \<Rightarrow>
          if field_count False query \<ge> 2
          then (let hits = search hs query in
                map (\<lambda>c. if cd_id c \<in> set hits then c\<lparr>cd_is_global := True\<rparr> else c) cs)
          else cs
      | None \<Rightarrow> cs)"

definition working_item_of :: "selected \<Rightarrow> working_item" where
  "working_item_of s = \<lparr>wi_id = sel_id s, wi_kind = sel_kind s, wi_text = sel_text s,
     wi_summary_ref = sel_summary_ref s, wi_blob_ref = sel_blob_ref s, wi_ordinal = sel_ordinal s,
     wi_provenance = [], wi_prov_required = False\<rparr>"

definition packet_request_of ::
  "('b, 'm, 't) sess_cfg \<Rightarrow> string \<Rightarrow> string \<Rightarrow> selected list \<Rightarrow> packet_request" where
  "packet_request_of cfg bid ext sels =
     \<lparr>rq_method = ''POST'', rq_path = ''/v1/responses'', rq_headers = sc_headers cfg,
      rq_body = empty_body\<lparr>pb_session := sc_id cfg, pb_branch := bid,
        pb_working := Some (map working_item_of (filter sel_include sels)), pb_external := ext\<rparr>\<rparr>"

definition packet_meta :: "assembly \<Rightarrow> gomap" where
  "packet_meta p =
     [(''compact_stage'', VStr (int_str (as_stage p))),
      (''envelope_bytes'', VStr (int_str (me_envelope (as_measurement p)))),
      (''external_context_status'', VStr (as_ext_status p)),
      (''external_context_bytes'', VStr (int_str (as_ext_bytes p)))]"

definition assemble_for_branch ::
  "('b, 'm, 't) sess_cfg \<Rightarrow> ctx \<Rightarrow> string \<Rightarrow> string \<Rightarrow> ('b, 'm, 't) sess
   \<Rightarrow> (assembly \<times> selected list \<times> explanation) result \<times> ('b, 'm, 't) sess" where
  "assemble_for_branch cfg c bid ext s =
     (case bk_list (sc_ops cfg) c (sc_id cfg) (sn_backend s) of
        Inl err \<Rightarrow> (Inl err, s)
      | Inr es \<Rightarrow>
        let cands = enrich_candidates cfg (sn_handed s) (latest_user_query bid es) (candidates_of bid es);
            (sels, ex) = select_with_explanation cands in
        case assemble (packet_request_of cfg bid ext sels) of
          (packet, Some err) \<Rightarrow>
            (let (_, s1) = emit cfg c ''packet.rejected'' KindPacketRejected bid []
                             [(''reason'', VStr (err_msg err))] s
             in (Inl ErrPacketBudgetRejected, s1))
        | (packet, None) \<Rightarrow>
            (let ex' = ex\<lparr>ex_pressure := (as_stage packet > 0 \<or> as_ext_status packet = ''dropped_budget'')\<rparr> in
             case emit cfg c ''packet.candidate'' KindPacketCandidate bid [] (packet_meta packet) s of
               (Some err, s1) \<Rightarrow> (Inl err, s1)
             | (None, s1) \<Rightarrow> (Inr (packet, sels, ex'), s1)))"

subsection \<open>Tool calls\<close>

definition tool_call_id :: "('b, 'm, 't) sess_cfg \<Rightarrow> tool_call \<Rightarrow> ('b, 'm, 't) sess \<Rightarrow> string \<times> ('b, 'm, 't) sess" where
  "tool_call_id cfg tc s =
     (if tc_call_id tc = [] then next_event_id cfg ''tool.call'' s else (tc_call_id tc, s))"

definition finish_tool_call ::
  "('b, 'm, 't) sess_cfg \<Rightarrow> ctx \<Rightarrow> string \<Rightarrow> tool_request \<Rightarrow> tool_response \<Rightarrow> ('b, 'm, 't) sess
   \<Rightarrow> goerr option \<times> ('b, 'm, 't) sess" where
  "finish_tool_call cfg c bid req resp s =
     (if tr_ok resp then
        let raw = must_json (sc_encode cfg) (tr_result resp);
            ref = ''blob://tool/'' @ sc_id cfg @ ''/'' @ tq_call_id req;
            (berr, s1) = append_blob_to cfg c ref raw s;
            resp1 = (if berr = None
                     then resp\<lparr>tr_artifacts := tr_artifacts resp @ [\<lparr>ar_name = ''result'', ar_blob = ref\<rparr>]\<rparr>
                     else resp);
            (eid, s2) = next_event_id cfg ''tool.result'' s1;
            (now, s3) = read_clock cfg s2
        in append_to_spine cfg c (tool_result_event (sc_encode cfg) eid (sc_id cfg) bid now req resp1) s3
      else
        let (eid, s1) = next_event_id cfg ''tool.failure'' s; (now, s2) = read_clock cfg s1
        in append_to_spine cfg c (tool_failure_event eid (sc_id cfg) bid now req resp) s2)"

fun execute_tool_calls ::
  "('b, 'm, 't) sess_cfg \<Rightarrow> ctx \<Rightarrow> string \<Rightarrow> tool_call list \<Rightarrow> ('b, 'm, 't) sess
   \<Rightarrow> goerr option \<times> ('b, 'm, 't) sess" where
  "execute_tool_calls cfg c bid [] s =
     (case sc_runner cfg of None \<Rightarrow> (Some ErrNoToolRunnerConfigured, s) | Some _ \<Rightarrow> (None, s))"
| "execute_tool_calls cfg c bid (tc # tcs) s =
     (case sc_runner cfg of None \<Rightarrow> (Some ErrNoToolRunnerConfigured, s) | Some run \<Rightarrow>
      let (cid, s1) = tool_call_id cfg tc s;
          req = \<lparr>tq_tool = tc_tool tc, tq_call_id = cid, tq_args = tc_args tc, tq_timeout = 15000\<rparr>;
          (eid, s2) = next_event_id cfg ''tool.request'' s1;
          (now, s3) = read_clock cfg s2 in
      case append_to_spine cfg c (tool_request_event (sc_encode cfg) eid (sc_id cfg) bid now req) s3 of
        (Some err, s4) \<Rightarrow> (Some err, s4)
      | (None, s4) \<Rightarrow>
        let (resp, t1) = run req (sn_tools s4); s5 = s4\<lparr>sn_tools := t1\<rparr> in
        case finish_tool_call cfg c bid req resp s5 of
          (Some err, s6) \<Rightarrow> (Some err, s6)
        | (None, s6) \<Rightarrow> execute_tool_calls cfg c bid tcs s6)"

subsection \<open>Compaction\<close>

definition set_sched :: "(scheduler \<Rightarrow> scheduler) \<Rightarrow> ('b, 'm, 't) sess \<Rightarrow> ('b, 'm, 't) sess" where
  "set_sched f s = s\<lparr>sn_sched := map_option f (sn_sched s)\<rparr>"

definition compaction_complete_meta :: "('b, 'm, 't) sess_cfg \<Rightarrow> string \<Rightarrow> compact_response \<Rightarrow> int \<Rightarrow> gomap" where
  "compaction_complete_meta cfg reason resp latency =
     [(''trigger_reason'', VStr reason), (''summary_id'', VStr (cp_summary_id (cx_checkpoint resp))),
      (''blob_ref'', VStr (cp_blob_ref (cx_checkpoint resp))),
      (''input_events'', VInt (cm_input_events (cx_metrics resp))),
      (''output_bytes'', VInt (cm_output_bytes (cx_metrics resp))),
      (''compression_pct'', VStr (sc_fmt1 cfg (cm_compression (cx_metrics resp)))),
      (''input_tokens'', VInt (cm_input_tokens (cx_metrics resp))),
      (''output_tokens'', VInt (cm_output_tokens (cx_metrics resp))),
      (''total_latency_ms'', VInt64 (latency div 1000000)),
      (''chunk_count'', VInt (cm_chunks (cx_metrics resp))),
      (''merge_pass'', VBool (cm_merge (cx_metrics resp))),
      (''leaves_in_ast'', VInt (int (length (ta_leaves (cx_ast resp)))))]"

definition ast_persisted_meta :: "('b, 'm, 't) sess_cfg \<Rightarrow> compact_response \<Rightarrow> gomap" where
  "ast_persisted_meta cfg resp =
     [(''blob_ref'', VStr (cp_blob_ref (cx_checkpoint resp))),
      (''summary_id'', VStr (cp_summary_id (cx_checkpoint resp))),
      (''input_events'', VInt (cm_input_events (cx_metrics resp))),
      (''output_bytes'', VInt (cm_output_bytes (cx_metrics resp))),
      (''chunk_count'', VInt (cm_chunks (cx_metrics resp))),
      (''merge_pass'', VBool (cm_merge (cx_metrics resp))),
      (''compression_pct'', VStr (sc_fmt1 cfg (cm_compression (cx_metrics resp))))]"

definition run_compaction ::
  "('b, 'm, 't) sess_cfg \<Rightarrow> compactor \<Rightarrow> ctx \<Rightarrow> string \<Rightarrow> event list \<Rightarrow> string \<Rightarrow> ('b, 'm, 't) sess
   \<Rightarrow> ('b, 'm, 't) sess" where
  "run_compaction cfg cq c bid events reason s =
     (case emit cfg c ''compaction.request'' KindCompactionRequest bid []
             [(''trigger_reason'', VStr reason), (''event_count'', VInt (int (length events))),
              (''compactor'', VStr (cq_name cq))] s of
        (Some err, s1) \<Rightarrow> s1
      | (None, s1) \<Rightarrow>
        let (t0, s2) = read_clock cfg s1; (t1, s3) = read_clock cfg s2 in
        case cq_compact cq c \<lparr>cj_session = sc_id cfg, cj_branch = bid, cj_events = events, cj_budget = 0\<rparr> of
          Inl err \<Rightarrow>
            (let (_, s4) = emit cfg c ''compaction.failure'' KindCompactionFailure bid []
                             [(''trigger_reason'', VStr reason), (''error'', VStr (err_msg err))] s3
             in set_sched mark_compaction_failed s4)
        | Inr resp \<Rightarrow>
            (let (_, s4) = append_blob_to cfg c (cp_blob_ref (cx_checkpoint resp)) (cx_raw resp) s3;
                 (_, s5) = emit cfg c ''ast.persisted'' KindASTPersisted bid [] (ast_persisted_meta cfg resp) s4;
                 (_, s6) = emit cfg c ''compaction.complete'' KindCompactionComplete bid []
                             (compaction_complete_meta cfg reason resp (t1 - t0)) s5;
                 (now, s7) = read_clock cfg s6
             in set_sched (mark_compacted now) s7))"

definition record_turn_and_maybe_compact ::
  "('b, 'm, 't) sess_cfg \<Rightarrow> ctx \<Rightarrow> string \<Rightarrow> ('b, 'm, 't) sess \<Rightarrow> ('b, 'm, 't) sess" where
  "record_turn_and_maybe_compact cfg c bid s =
     (case (sn_sched s, sc_compactor cfg) of
        (Some sched, Some cq) \<Rightarrow>
          (let sched1 = sched_record_turn sched;
               listed = bk_list_branch (sc_ops cfg) c (sc_id cfg) bid (sn_backend s);
               sched2 = (case listed of Inl _ \<Rightarrow> sched1
                         | Inr es \<Rightarrow> sched_set_event_count (int (length es)) sched1);
               events = (case listed of Inl _ \<Rightarrow> [] | Inr es \<Rightarrow> es);
               ((should, reason), sched3) = should_compact sched2;
               s1 = s\<lparr>sn_sched := Some sched3\<rparr>
           in if \<not> should then s1 else run_compaction cfg cq c bid events reason s1)
      | _ \<Rightarrow> s)"

subsection \<open>A turn\<close>

text \<open>\<open>RecordTurn\<close> of the audit tracker, where there is one, writing with a context of its own.\<close>

definition audit_turn ::
  "('b, 'm, 't) sess_cfg \<Rightarrow> int \<Rightarrow> audit_tracker option \<Rightarrow> ('b, 'm, 't) sess
   \<Rightarrow> audit_result option \<times> audit_tracker option \<times> ('b, 'm, 't) sess" where
  "audit_turn cfg tokens tracker s =
     (case tracker of None \<Rightarrow> (None, None, s) | Some t \<Rightarrow>
      let (now, s1) = read_clock cfg s;
          (r, t1, s2) = audit_record_turn now tokens 0 (Some (append_to_spine cfg None)) t s1
      in (Some r, Some t1, s2))"

definition agent_answer ::
  "('b, 'm, 't) sess_cfg \<Rightarrow> ctx \<Rightarrow> string \<Rightarrow> model_response \<Rightarrow> int \<Rightarrow> selected list \<Rightarrow> explanation \<Rightarrow> bool
   \<Rightarrow> ('b, 'm, 't) sess \<Rightarrow> (turn_result \<times> goerr option) \<times> ('b, 'm, 't) sess" where
  "agent_answer cfg c bid resp bytes sels ex then_compact s =
     (case emit cfg c ''turn.agent'' KindTurnAgent bid [] [(''text'', VStr (rs_answer resp))] s of
        (Some err, s1) \<Rightarrow> ((empty_turn_result, Some err), s1)
      | (None, s1) \<Rightarrow>
        ((\<lparr>tu_session = sc_id cfg, tu_branch = bid, tu_answer = rs_answer resp,
           tu_decision = rs_decision resp, tu_envelope = bytes, tu_selected = sels,
           tu_explanation = Some ex\<rparr>, None),
         if then_compact
         then record_turn_and_maybe_compact cfg c bid
                (hand_event cfg (emitted cfg ''turn.agent'' KindTurnAgent bid [] [(''text'', VStr (rs_answer resp))] s) s1)
         else s1))"

text \<open>
  The loop over reasoning turns, of which \<open>left\<close> remain; \<open>bytes\<close> is the size of the last packet.
  \<open>packet.sent\<close> is written between the choice of the model event's identifier and the call.
\<close>

fun turn_loop ::
  "('b, 'm, 't) sess_cfg \<Rightarrow> ctx \<Rightarrow> string \<Rightarrow> string \<Rightarrow> nat \<Rightarrow> audit_tracker option \<Rightarrow> int \<Rightarrow> ('b, 'm, 't) sess
   \<Rightarrow> (turn_result \<times> goerr option) \<times> ('b, 'm, 't) sess" where
  "turn_loop cfg c bid ext 0 tracker bytes s =
     ((empty_turn_result\<lparr>tu_session := sc_id cfg, tu_branch := bid, tu_envelope := bytes\<rparr>,
       Some ErrMaxReasoningTurns), s)"
| "turn_loop cfg c bid ext (Suc left) tracker bytes s =
     (case assemble_for_branch cfg c bid ext s of
        (Inl err, s1) \<Rightarrow> ((empty_turn_result, Some err), s1)
      | (Inr (packet, sels, ex), s1) \<Rightarrow>
        let size = me_envelope (as_measurement packet);
            s2 = set_sched (sched_record_pressure (of_int size / of_int MaxEnvelopeBytes)) s1;
            (meid, s3) = next_event_id cfg ''response'' s2 in
        case emit cfg c ''packet.sent'' KindPacketSent bid [] (packet_meta packet) s3 of
          (Some err, s4) \<Rightarrow> ((empty_turn_result, Some err), s4)
        | (None, s4) \<Rightarrow>
          let (now, s5) = read_clock cfg s4;
              (res, m1, b1) = execute_and_persist (sc_ops cfg) (sc_decoders cfg) (sc_adapter cfg)
                 (sc_call cfg) c \<lparr>mq_session = sc_id cfg, mq_branch = bid, mq_packet = as_json packet\<rparr>
                 meid now (sn_model s5) (sn_backend s5);
              s6 = s5\<lparr>sn_model := m1, sn_backend := b1\<rparr> in
          case res of
            Inl err \<Rightarrow>
              (let (_, _, s7) = audit_turn cfg 0 tracker s6 in
               ((empty_turn_result\<lparr>tu_session := sc_id cfg, tu_branch := bid, tu_envelope := size\<rparr>,
                 Some err), s7))
          | Inr callres \<Rightarrow>
              let resp = cr_response callres;
                  (au, tracker1, s7) = audit_turn cfg (size div 4) tracker s6;
                  complete = (case (au, tracker1) of (Some r, Some t) \<Rightarrow>
                      audit_should_terminate t \<and> au_decision r = DecisionComplete | _ \<Rightarrow> False) in
              if complete \<and> rs_decision resp = ''answer''
                then agent_answer cfg c bid resp size sels ex False s7
              else if rs_decision resp = ''answer''
                then agent_answer cfg c bid resp size sels ex True s7
              else if rs_decision resp = ''tool_calls''
                then (case execute_tool_calls cfg c bid (rs_tool_calls resp) s7 of
                        (Some err, s8) \<Rightarrow> ((empty_turn_result, Some err), s8)
                      | (None, s8) \<Rightarrow> turn_loop cfg c bid ext left tracker1 size s8)
              else if rs_decision resp = ''continue''
                then turn_loop cfg c bid ext left tracker1 size s7
              else ((empty_turn_result, Some ErrMalformedModelResponse), s7))"

definition handle_user_turn ::
  "('b, 'm, 't) sess_cfg \<Rightarrow> ctx \<Rightarrow> string \<Rightarrow> string \<Rightarrow> string \<Rightarrow> ('b, 'm, 't) sess
   \<Rightarrow> (turn_result \<times> goerr option) \<times> ('b, 'm, 't) sess" where
  "handle_user_turn cfg c branch text ext s =
     (let bid = (if branch = [] then sc_branch cfg else branch) in
      case emit cfg c ''turn.user'' KindTurnUser bid [] [(''text'', VStr text)] s of
        (Some err, s1) \<Rightarrow> ((empty_turn_result, Some err), s1)
      | (None, s0) \<Rightarrow>
        let e = emitted cfg ''turn.user'' KindTurnUser bid [] [(''text'', VStr text)] s;
            s1 = hand_job cfg e text (hand_event cfg e s0);
            (consult, s2) = next_event_id cfg ''consult'' s1;
            tracker = (if sc_metrics cfg
                       then Some (new_audit_tracker (sc_audit cfg) consult (sc_id cfg) bid) else None)
        in turn_loop cfg c bid ext (nat (sc_max_turns cfg)) tracker 0 s2)"

subsection \<open>Forking and replaying\<close>

definition session_fork_branch ::
  "('b, 'm, 't) sess_cfg \<Rightarrow> ctx \<Rightarrow> string \<Rightarrow> string \<Rightarrow> ('b, 'm, 't) sess \<Rightarrow> goerr option \<times> ('b, 'm, 't) sess" where
  "session_fork_branch cfg c parent child s =
     (if parent = [] \<or> child = [] then (Some ErrInvalidConfig, s)
      else case bk_list_branch (sc_ops cfg) c (sc_id cfg) parent (sn_backend s) of
        Inl err \<Rightarrow> (Some err, s)
      | Inr es \<Rightarrow>
        emit cfg c ''branch.fork'' KindBranchFork child (if es = [] then [] else ev_id (last es))
          [(''parent_branch_id'', VStr parent)] s)"

record replay_result =
  rp_state :: session_state
  rp_heads :: "string \<rightharpoonup> string"

definition replay_session :: "('b, 'm, 't) sess_cfg \<Rightarrow> ctx \<Rightarrow> ('b, 'm, 't) sess \<Rightarrow> replay_result result" where
  "replay_session cfg c s =
     (case bk_list (sc_ops cfg) c (sc_id cfg) (sn_backend s) of Inl err \<Rightarrow> Inl err | Inr es \<Rightarrow>
      case rebuild_session es of Inl err \<Rightarrow> Inl err | Inr st \<Rightarrow>
      case rebuild_branches es of Inl err \<Rightarrow> Inl err | Inr bs \<Rightarrow>
      Inr \<lparr>rp_state = st, rp_heads = map_option br_head \<circ> bs\<rparr>)"

end
