(* ===== verification/SessionSpine.thy ===== *)
theory SessionSpine
  imports Session
begin

text \<open>
  What a session does to the spine. Every operation extends its own session's events and touches no
  other session (\<open>grows\<close>); new events carry new numbers, so in a session whose log has no number
  above the counter (\<open>fresh\<close>) no append is a duplicate. The lemmas are proved in the context of the
  contract \<open>session_store\<close>, the properties are stated for the in-memory backend.
\<close>

subsection \<open>Numbered identifiers\<close>

definition numbered :: "string \<Rightarrow> nat \<Rightarrow> string \<Rightarrow> bool" where
  "numbered sid n eid \<longleftrightarrow> (\<exists>kind. eid = event_id sid n kind)"

lemma pad6_digits: "c \<in> set (pad6 n) \<Longrightarrow> 48 \<le> (of_char c :: nat) \<and> (of_char c :: nat) < 58"
  using nat_str_digit [of c n] by (auto simp: pad6_def)

lemma pad6_no_dot: "CHR ''.'' \<notin> set (pad6 n)"
  using pad6_digits [of "CHR ''.''" n] by auto

lemma event_id_number: "event_id sid m k = event_id sid n k' \<Longrightarrow> m = n"
proof -
  assume "event_id sid m k = event_id sid n k'"
  then have eq: "pad6 m @ CHR ''.'' # k = pad6 n @ CHR ''.'' # k'" by (simp add: event_id_def)
  have tw: "takeWhile (\<lambda>c. c \<noteq> CHR ''.'') (pad6 j @ CHR ''.'' # x) = pad6 j" for j x
  proof -
    have "\<forall>c \<in> set (pad6 j). c \<noteq> CHR ''.''" using pad6_no_dot [of j] by blast
    then show ?thesis by (simp add: takeWhile_append2 takeWhile_tail)
  qed
  have "pad6 m = pad6 n" using arg_cong [OF eq, of "takeWhile (\<lambda>c. c \<noteq> CHR ''.'')"] by (simp only: tw)
  then show "m = n" by (simp add: pad6_inj)
qed

lemma numbered_event_id [simp]: "numbered sid n (event_id sid m k) \<longleftrightarrow> n = m"
  by (auto simp: numbered_def dest: event_id_number)

lemma numbered_event_id_suffix [simp]: "numbered sid n (event_id sid m k @ x) \<longleftrightarrow> n = m"
proof -
  have "event_id sid m k @ x = event_id sid m (k @ x)" by (simp add: event_id_def)
  then show ?thesis by simp
qed

lemma audit_id_shape: "sid @ CHR ''.'' # d # x = ''audit.'' @ sid @ y \<Longrightarrow> of_char d < (97 :: nat) \<Longrightarrow> False"
proof (induction sid rule: length_induct)
  case (1 sid)
  show ?case
  proof (cases "6 \<le> length sid")
    case True
    have "take 6 (sid @ CHR ''.'' # d # x) = ''audit.''" by (subst 1(2)) simp
    with True have "take 6 sid = ''audit.''" by simp
    then have sid: "sid = ''audit.'' @ drop 6 sid" by (metis append_take_drop_id)
    with 1(2) have "drop 6 sid @ CHR ''.'' # d # x = ''audit.'' @ drop 6 sid @ y"
      by (metis append_assoc same_append_eq)
    with 1(1,3) True show False by (metis diff_less length_drop less_le_trans zero_less_numeral)
  next
    case False
    then consider "sid = []" | a where "sid = [a]" | a b where "sid = [a, b]" | a b c where "sid = [a, b, c]"
      | a b c e where "sid = [a, b, c, e]" | a b c e f where "sid = [a, b, c, e, f]"
      by (cases sid; cases "tl sid"; cases "tl (tl sid)"; cases "tl (tl (tl sid))";
          cases "tl (tl (tl (tl sid)))"; cases "tl (tl (tl (tl (tl sid))))") auto
    then show False using 1(2,3) by cases auto
  qed
qed

lemma audit_id_not_numbered: "\<not> numbered sid n (ev_id (audit_event t r))" if "at_session t = sid"
proof
  assume "numbered sid n (ev_id (audit_event t r))"
  then obtain k where "ev_id (audit_event t r) = event_id sid n k" by (auto simp: numbered_def)
  moreover obtain d ds where d: "pad6 n = d # ds"
    by (cases "pad6 n") (simp_all add: pad6_def)
  moreover have "of_char d < (97 :: nat)" using pad6_digits [of d n] d by simp
  ultimately show False
    using that audit_id_shape [of sid d "ds @ CHR ''.'' # k" "CHR ''.'' # int_str (at_turns t) @ CHR ''.'' # int_str (unix_nano (au_ts r))"]
    by (simp add: audit_event_def event_id_def)
qed

subsection \<open>Growing a spine\<close>

text \<open>What users and agent said, in the order of the log: branch, kind and text.\<close>

definition spoken :: "event \<Rightarrow> bool" where
  "spoken e \<longleftrightarrow> ev_kind e = KindTurnUser \<or> ev_kind e = KindTurnAgent"

definition transcript :: "event list \<Rightarrow> (string \<times> string \<times> string) list" where
  "transcript es = map (\<lambda>e. (ev_branch e, ev_kind e, meta_string (ev_meta e) ''text'')) (filter spoken es)"

lemma transcript_append [simp]: "transcript (xs @ ys) = transcript xs @ transcript ys"
  by (simp add: transcript_def)

lemma transcript_Nil [simp]: "transcript [] = []"
  by (simp add: transcript_def)

lemma transcript_silent: "\<forall>e \<in> set es. \<not> spoken e \<Longrightarrow> transcript es = []"
  by (simp add: transcript_def)

lemma kinds_silent [simp]:
  "\<not> (KindPacketRejected = KindTurnUser \<or> KindPacketRejected = KindTurnAgent)"
  "\<not> (KindPacketCandidate = KindTurnUser \<or> KindPacketCandidate = KindTurnAgent)"
  "\<not> (KindPacketSent = KindTurnUser \<or> KindPacketSent = KindTurnAgent)"
  "\<not> (KindToolRequest = KindTurnUser \<or> KindToolRequest = KindTurnAgent)"
  "\<not> (KindToolResult = KindTurnUser \<or> KindToolResult = KindTurnAgent)"
  "\<not> (KindToolFailure = KindTurnUser \<or> KindToolFailure = KindTurnAgent)"
  "\<not> (KindAuditDecision = KindTurnUser \<or> KindAuditDecision = KindTurnAgent)"
  "\<not> (KindBranchFork = KindTurnUser \<or> KindBranchFork = KindTurnAgent)"
  "\<not> (KindASTPersisted = KindTurnUser \<or> KindASTPersisted = KindTurnAgent)"
  "\<not> (KindCompactionRequest = KindTurnUser \<or> KindCompactionRequest = KindTurnAgent)"
  "\<not> (KindCompactionComplete = KindTurnUser \<or> KindCompactionComplete = KindTurnAgent)"
  "\<not> (KindCompactionFailure = KindTurnUser \<or> KindCompactionFailure = KindTurnAgent)"
  "\<not> (KindResponseInvalid = KindTurnUser \<or> KindResponseInvalid = KindTurnAgent)"
  "\<not> (KindResponseReceived = KindTurnUser \<or> KindResponseReceived = KindTurnAgent)"
  by (simp_all add: KindTurnUser_def KindTurnAgent_def KindPacketRejected_def KindPacketCandidate_def
      KindPacketSent_def KindToolRequest_def KindToolResult_def KindToolFailure_def KindAuditDecision_def
      KindBranchFork_def KindASTPersisted_def KindCompactionRequest_def KindCompactionComplete_def
      KindCompactionFailure_def KindResponseInvalid_def KindResponseReceived_def)

text \<open>The kinds of the events that a session makes itself.\<close>

definition session_kind :: "string \<Rightarrow> bool" where
  "session_kind k \<longleftrightarrow> k \<in> {KindTurnUser, KindTurnAgent, KindPacketRejected, KindPacketCandidate, KindPacketSent,
     KindToolRequest, KindToolResult, KindToolFailure, KindAuditDecision, KindBranchFork, KindASTPersisted,
     KindCompactionRequest, KindCompactionComplete, KindCompactionFailure, KindResponseInvalid,
     KindResponseReceived}"

lemma session_kinds [simp]:
  "session_kind KindTurnUser" "session_kind KindTurnAgent" "session_kind KindPacketRejected"
  "session_kind KindPacketCandidate" "session_kind KindPacketSent" "session_kind KindToolRequest"
  "session_kind KindToolResult" "session_kind KindToolFailure" "session_kind KindAuditDecision"
  "session_kind KindBranchFork" "session_kind KindASTPersisted" "session_kind KindCompactionRequest"
  "session_kind KindCompactionComplete" "session_kind KindCompactionFailure" "session_kind KindResponseInvalid"
  "session_kind KindResponseReceived"
  by (simp_all add: session_kind_def)

definition made_within :: "string \<Rightarrow> nat \<Rightarrow> nat \<Rightarrow> event list \<Rightarrow> bool" where
  "made_within sid lo hi es \<longleftrightarrow>
     (\<forall>e \<in> set es. session_kind (ev_kind e) \<and> (\<forall>n. numbered sid n (ev_id e) \<longrightarrow> lo < n \<and> n \<le> hi))"

lemma made_within_Nil [simp]: "made_within sid lo hi []"
  by (simp add: made_within_def)

lemma made_within_append [simp]:
  "made_within sid lo hi (xs @ ys) \<longleftrightarrow> made_within sid lo hi xs \<and> made_within sid lo hi ys"
  by (auto simp: made_within_def)

lemma made_within_mono:
  "made_within sid lo hi es \<Longrightarrow> lo' \<le> lo \<Longrightarrow> hi \<le> hi' \<Longrightarrow> made_within sid lo' hi' es"
  unfolding made_within_def by (meson le_less_trans le_trans)

text \<open>
  \<open>grows ok spine sid ts s s'\<close>: from \<open>s\<close> to \<open>s'\<close> the session's log is extended, by events of its own
  kinds with new numbers and with \<open>ts\<close> as what was said; no other log changes.
\<close>

definition grows ::
  "('b \<Rightarrow> bool) \<Rightarrow> ('b \<Rightarrow> string \<Rightarrow> event list) \<Rightarrow> string \<Rightarrow> (string \<times> string \<times> string) list
   \<Rightarrow> ('b, 'm, 't) sess \<Rightarrow> ('b, 'm, 't) sess \<Rightarrow> bool" where
  "grows ok spine sid ts s s' \<longleftrightarrow>
     ok (sn_backend s') \<and> sn_counter s \<le> sn_counter s'
     \<and> (\<exists>es. spine (sn_backend s') = (spine (sn_backend s))(sid := spine (sn_backend s) sid @ es)
          \<and> transcript es = ts \<and> made_within sid (sn_counter s) (sn_counter s') es)"

lemma grows_refl: "ok (sn_backend s) \<Longrightarrow> grows ok spine sid [] s s"
  by (auto simp: grows_def intro!: exI [of _ "[]"])

lemma grows_append:
  assumes "grows ok spine sid ts s s'" and "ok (sn_backend s'')" and "sn_counter s' \<le> sn_counter s''"
    and "spine (sn_backend s'') = (spine (sn_backend s'))(sid := spine (sn_backend s') sid @ fs)"
    and "made_within sid (sn_counter s) (sn_counter s'') fs"
  shows "grows ok spine sid (ts @ transcript fs) s s''"
proof -
  obtain es where es: "spine (sn_backend s') = (spine (sn_backend s))(sid := spine (sn_backend s) sid @ es)"
      "transcript es = ts" "made_within sid (sn_counter s) (sn_counter s') es"
    and le: "sn_counter s \<le> sn_counter s'"
    using assms(1) by (auto simp: grows_def)
  have "spine (sn_backend s'') = (spine (sn_backend s))(sid := spine (sn_backend s) sid @ (es @ fs))"
    using assms(4) es(1) by simp
  moreover have "transcript (es @ fs) = ts @ transcript fs" using es(2) by simp
  moreover have "made_within sid (sn_counter s) (sn_counter s'') (es @ fs)"
    using made_within_mono [OF es(3) le_refl assms(3)] assms(5) by simp
  ultimately show ?thesis using assms(2,3) le unfolding grows_def by (meson le_trans)
qed

lemma grows_trans:
  assumes "grows ok spine sid ts s s'" and "grows ok spine sid us s' s''"
  shows "grows ok spine sid (ts @ us) s s''"
proof -
  obtain es where es: "spine (sn_backend s'') = (spine (sn_backend s'))(sid := spine (sn_backend s') sid @ es)"
      "transcript es = us" "made_within sid (sn_counter s') (sn_counter s'') es"
      "ok (sn_backend s'')" "sn_counter s' \<le> sn_counter s''"
    using assms(2) by (auto simp: grows_def)
  have "sn_counter s \<le> sn_counter s'" using assms(1) by (simp add: grows_def)
  then have "made_within sid (sn_counter s) (sn_counter s'') es"
    using made_within_mono [OF es(3)] by simp
  from grows_append [OF assms(1) es(4,5,1) this] es(2) show ?thesis by simp
qed

lemma grows_silent:
  "grows ok spine sid [] s s' \<Longrightarrow> grows ok spine sid ts s' s'' \<Longrightarrow> grows ok spine sid ts s s''"
  using grows_trans by fastforce

lemma grows_same:
  "grows ok spine sid ts s s' \<Longrightarrow> sn_backend s'' = sn_backend s' \<Longrightarrow> sn_counter s' \<le> sn_counter s'' \<Longrightarrow>
     grows ok spine sid ts s s''"
  using grows_append [of ok spine sid ts s s' s'' "[]"] by (simp add: grows_def)

lemma grows_ok: "grows ok spine sid ts s s' \<Longrightarrow> ok (sn_backend s')"
  by (simp add: grows_def)

text \<open>A session whose log has no number above its counter.\<close>

definition fresh :: "('b \<Rightarrow> bool) \<Rightarrow> ('b \<Rightarrow> string \<Rightarrow> event list) \<Rightarrow> string \<Rightarrow> ('b, 'm, 't) sess \<Rightarrow> bool" where
  "fresh ok spine sid s \<longleftrightarrow> ok (sn_backend s)
     \<and> (\<forall>e \<in> set (spine (sn_backend s) sid). \<forall>n. numbered sid n (ev_id e) \<longrightarrow> n \<le> sn_counter s)"

lemma grows_fresh: "grows ok spine sid ts s s' \<Longrightarrow> fresh ok spine sid s \<Longrightarrow> fresh ok spine sid s'"
  unfolding grows_def fresh_def made_within_def by (fastforce simp: fun_upd_def)

subsection \<open>A session in use\<close>

text \<open>What clients of a session do, with contexts that stay live, and what it should leave.\<close>

datatype command = Turn string string string | Fork string string

fun run_commands ::
  "('b, 'm, 't) sess_cfg \<Rightarrow> command list \<Rightarrow> ('b, 'm, 't) sess
   \<Rightarrow> (turn_result \<times> goerr option) list \<times> ('b, 'm, 't) sess" where
  "run_commands cfg [] s = ([], s)"
| "run_commands cfg (Turn branch text ext # cmds) s =
     (let (r, s1) = handle_user_turn cfg None branch text ext s; (rs, s2) = run_commands cfg cmds s1
      in (r # rs, s2))"
| "run_commands cfg (Fork parent child # cmds) s =
     (let (_, s1) = session_fork_branch cfg None parent child s in run_commands cfg cmds s1)"

definition turn_conversation ::
  "string \<Rightarrow> string \<Rightarrow> string \<Rightarrow> turn_result \<times> goerr option \<Rightarrow> (string \<times> string \<times> string) list" where
  "turn_conversation main branch text r =
     (let bid = (if branch = [] then main else branch) in
      (bid, KindTurnUser, text) # (if snd r = None then [(bid, KindTurnAgent, tu_answer (fst r))] else []))"

fun conversation ::
  "string \<Rightarrow> command list \<Rightarrow> (turn_result \<times> goerr option) list \<Rightarrow> (string \<times> string \<times> string) list" where
  "conversation main (Turn branch text ext # cmds) (r # rs) =
     turn_conversation main branch text r @ conversation main cmds rs"
| "conversation main (Fork parent child # cmds) rs = conversation main cmds rs"
| "conversation main _ _ = []"

subsection \<open>The operations on a store\<close>

context session_store begin

lemma append_to_grows:
  assumes "sc_ops cfg = ops" and "grows inv spine sid ts s s'" and "ev_session e = sid"
    and "made_within sid (sn_counter s) (sn_counter s') [e]"
    and "append_to_spine cfg c e s' = (err, s'')"
  shows "grows inv spine sid (ts @ (if err = None then transcript [e] else [])) s s''"
proof -
  obtain b where ap: "bk_append ops c e (sn_backend s') = (err, b)" and s'': "s'' = s'\<lparr>sn_backend := b\<rparr>"
    using assms(1,5) by (cases "bk_append ops c e (sn_backend s')") (auto simp: append_to_spine_def)
  have i: "inv (sn_backend s')" using assms(2) by (rule grows_ok)
  show ?thesis
  proof (cases err)
    case None
    with append_ok [OF i] ap have "inv b" "spine b = (spine (sn_backend s'))(sid := spine (sn_backend s') sid @ [e])"
      using assms(3) by auto
    with grows_append [OF assms(2), of s'' "[e]"] assms(4) None s'' show ?thesis by simp
  next
    case (Some x)
    with append_err [OF i] ap have "inv b" "spine b = spine (sn_backend s')" by auto
    with grows_append [OF assms(2), of s'' "[]"] Some s'' show ?thesis by simp
  qed
qed

lemma append_blob_grows:
  assumes "sc_ops cfg = ops" and "grows inv spine sid ts s s'"
    and "append_blob_to cfg c r p s' = (err, s'')"
  shows "grows inv spine sid ts s s''" and "sn_counter s'' = sn_counter s'"
proof -
  obtain b where ap: "bk_append_blob ops c r p (sn_backend s') = (err, b)" and s'': "s'' = s'\<lparr>sn_backend := b\<rparr>"
    using assms(1,3) by (cases "bk_append_blob ops c r p (sn_backend s')") (auto simp: append_blob_to_def)
  have "inv b" "spine b = spine (sn_backend s')"
    using blob_frame [OF grows_ok [OF assms(2)], of c r p] ap by auto
  with grows_append [OF assms(2), of s'' "[]"] s'' show "grows inv spine sid ts s s''" by simp
  show "sn_counter s'' = sn_counter s'" by (simp add: s'')
qed

lemma emit_grows:
  assumes "sc_ops cfg = ops" and "inv (sn_backend s)" and "emit cfg c tag kind bid parent meta s = (err, s')"
    and "session_kind kind"
  shows "grows inv spine (sc_id cfg)
    (if err = None \<and> (kind = KindTurnUser \<or> kind = KindTurnAgent)
     then [(bid, kind, meta_string meta ''text'')] else []) s s'"
proof -
  define e where "e = \<lparr>ev_id = event_id (sc_id cfg) (sn_counter s + 1) tag, ev_session = sc_id cfg,
    ev_ts = sc_clock cfg (sn_ticks s), ev_kind = kind, ev_branch = bid, ev_parent = parent, ev_refs = [],
    ev_meta = meta, ev_blob = []\<rparr>"
  define s1 where "s1 = s\<lparr>sn_counter := sn_counter s + 1, sn_ticks := sn_ticks s + 1\<rparr>"
  have "grows inv spine (sc_id cfg) [] s s1"
    using grows_same [OF grows_refl [of inv s spine "sc_id cfg", OF assms(2)], of s1] by (simp add: s1_def)
  moreover have "append_to_spine cfg c e s1 = (err, s')"
    using assms(3) by (simp add: emit_def next_event_id_def read_clock_def e_def s1_def)
  ultimately have "grows inv spine (sc_id cfg) ([] @ (if err = None then transcript [e] else [])) s s'"
    using assms(4) by (intro append_to_grows [OF assms(1)]) (simp_all add: e_def s1_def made_within_def)
  then show ?thesis by (cases "err = None") (auto simp: transcript_def spoken_def e_def)
qed

lemma emit_silent:
  assumes "sc_ops cfg = ops" and "inv (sn_backend s)" and "emit cfg c tag kind bid parent meta s = (err, s')"
    and "session_kind kind" and "\<not> (kind = KindTurnUser \<or> kind = KindTurnAgent)"
  shows "grows inv spine (sc_id cfg) [] s s'"
  using emit_grows [OF assms(1-4)] assms(5) by (simp split: if_splits)

lemma emit_succeeds:
  assumes "sc_ops cfg = ops" and "fresh inv spine (sc_id cfg) s"
    and "sc_id cfg \<noteq> []" and "bid \<noteq> []" and "kind \<noteq> []" and "sc_clock cfg (sn_ticks s) \<noteq> 0"
  shows "fst (emit cfg None tag kind bid parent meta s) = None"
proof -
  define e where "e = \<lparr>ev_id = event_id (sc_id cfg) (sn_counter s + 1) tag, ev_session = sc_id cfg,
    ev_ts = sc_clock cfg (sn_ticks s), ev_kind = kind, ev_branch = bid, ev_parent = parent, ev_refs = [],
    ev_meta = meta, ev_blob = []\<rparr>"
  have "event_validate e = None"
    using assms(3-6) by (simp add: event_validate_None_iff e_def event_id_def)
  moreover have "ev_id e \<notin> ev_id ` set (spine (sn_backend s) (ev_session e))"
  proof
    assume "ev_id e \<in> ev_id ` set (spine (sn_backend s) (ev_session e))"
    then obtain x where x: "x \<in> set (spine (sn_backend s) (sc_id cfg))" "ev_id x = ev_id e" by (auto simp: e_def)
    then have "numbered (sc_id cfg) (sn_counter s + 1) (ev_id x)" by (simp add: e_def)
    with x(1) assms(2) have "sn_counter s + 1 \<le> sn_counter s" unfolding fresh_def by blast
    then show False by simp
  qed
  ultimately have "fst (bk_append ops None e (sn_backend s)) = None"
    using assms(2) by (intro append_total) (auto simp: fresh_def)
  then show ?thesis
    using assms(1) by (simp add: emit_def next_event_id_def read_clock_def append_to_spine_def e_def split_def)
qed

lemma assemble_for_branch_grows:
  assumes "sc_ops cfg = ops" and "inv (sn_backend s)" and "assemble_for_branch cfg c bid ext s = (r, s')"
  shows "grows inv spine (sc_id cfg) [] s s'"
proof (cases "bk_list ops c (sc_id cfg) (sn_backend s)")
  case (Inl err)
  then show ?thesis using assms by (simp add: assemble_for_branch_def grows_refl)
next
  case (Inr es)
  define cands where "cands = enrich_candidates cfg (sn_handed s) (latest_user_query bid es) (candidates_of bid es)"
  obtain sels ex where sel: "select_with_explanation cands = (sels, ex)" by fastforce
  obtain packet err where asm: "assemble (packet_request_of cfg bid ext sels) = (packet, err)" by fastforce
  show ?thesis
  proof (cases err)
    case None
    obtain e1 s1 where em: "emit cfg c ''packet.candidate'' KindPacketCandidate bid [] (packet_meta packet) s = (e1, s1)"
      by fastforce
    have "s' = s1" using assms(1,3) Inr sel asm None em
      by (simp add: assemble_for_branch_def cands_def split: option.splits)
    then show ?thesis using emit_silent [OF assms(1,2) em] by simp
  next
    case (Some x)
    obtain e1 s1 where em: "emit cfg c ''packet.rejected'' KindPacketRejected bid [] [(''reason'', VStr (err_msg x))] s = (e1, s1)"
      by fastforce
    have "s' = s1" using assms(1,3) Inr sel asm Some em
      by (simp add: assemble_for_branch_def cands_def)
    then show ?thesis using emit_silent [OF assms(1,2) em] by simp
  qed
qed

lemma audit_turn_grows:
  assumes "sc_ops cfg = ops" and "grows inv spine (sc_id cfg) ts s s'"
    and "\<forall>t. tracker = Some t \<longrightarrow> at_session t = sc_id cfg"
    and "audit_turn cfg n tracker s' = (r, tracker', s'')"
  shows "grows inv spine (sc_id cfg) ts s s'' \<and> (\<forall>t. tracker' = Some t \<longrightarrow> at_session t = sc_id cfg)"
proof (cases tracker)
  case None
  then show ?thesis using assms by (simp add: audit_turn_def)
next
  case (Some t)
  define s1 where "s1 = s'\<lparr>sn_ticks := sn_ticks s' + 1\<rparr>"
  have g: "grows inv spine (sc_id cfg) ts s s1" using grows_same [OF assms(2), of s1] by (simp add: s1_def)
  obtain r1 t1 b1 where rec: "audit_record_turn (sc_clock cfg (sn_ticks s')) n 0 (Some (append_to_spine cfg None)) t s1
      = (r1, t1, b1)" by (metis prod_cases3)
  have eq: "s'' = b1" "tracker' = Some t1"
    using assms(4) Some rec by (auto simp: audit_turn_def read_clock_def s1_def)
  have t1: "at_session t1 = at_session t" and b1: "b1 = snd (append_to_spine cfg None (audit_event t1 r1) s1)"
    using rec by (auto simp: audit_record_turn_def Let_def)
  obtain err s2 where ap: "append_to_spine cfg None (audit_event t1 r1) s1 = (err, s2)" by fastforce
  have sid: "at_session t1 = sc_id cfg" using assms(3) Some t1 by simp
  have kind: "ev_kind (audit_event t1 r1) = KindAuditDecision" "ev_session (audit_event t1 r1) = sc_id cfg"
    using sid by (simp_all add: audit_event_def)
  have "grows inv spine (sc_id cfg) (ts @ (if err = None then transcript [audit_event t1 r1] else [])) s s2"
    using audit_id_not_numbered [OF sid] kind
    by (intro append_to_grows [OF assms(1) g _ _ ap]) (simp_all add: made_within_def)
  then have "grows inv spine (sc_id cfg) ts s s2"
    by (simp add: transcript_def spoken_def kind split: if_splits)
  then show ?thesis using eq b1 ap sid by simp
qed

lemma finish_tool_call_grows:
  assumes "sc_ops cfg = ops" and "inv (sn_backend s)" and "finish_tool_call cfg c bid req resp s = (err, s')"
  shows "grows inv spine (sc_id cfg) [] s s'"
proof -
  have step: "grows inv spine (sc_id cfg) [] s s2"
    if g: "grows inv spine (sc_id cfg) [] s s1"
      and e: "ev_id e = event_id (sc_id cfg) (sn_counter s1 + 1) tag" "ev_session e = sc_id cfg"
        "session_kind (ev_kind e)" "\<not> (ev_kind e = KindTurnUser \<or> ev_kind e = KindTurnAgent)"
      and ap: "append_to_spine cfg c e (s1\<lparr>sn_counter := sn_counter s1 + 1, sn_ticks := sn_ticks s1 + 1\<rparr>) = (err, s2)"
    for s1 s2 e tag err
  proof -
    let ?s = "s1\<lparr>sn_counter := sn_counter s1 + 1, sn_ticks := sn_ticks s1 + 1\<rparr>"
    have "grows inv spine (sc_id cfg) [] s ?s" using grows_same [OF g, of ?s] by simp
    moreover have "sn_counter s \<le> sn_counter s1" using g by (simp add: grows_def)
    ultimately have "grows inv spine (sc_id cfg) ([] @ (if err = None then transcript [e] else [])) s s2"
      using e by (intro append_to_grows [OF assms(1) _ _ _ ap]) (simp_all add: made_within_def)
    then show ?thesis using e(4) by (simp add: transcript_def spoken_def split: if_splits)
  qed
  show ?thesis
  proof (cases "tr_ok resp")
    case True
    define raw where "raw = must_json (sc_encode cfg) (tr_result resp)"
    define ref where "ref = ''blob://tool/'' @ sc_id cfg @ ''/'' @ tq_call_id req"
    obtain berr s1 where bl: "append_blob_to cfg c ref raw s = (berr, s1)" by fastforce
    have g: "grows inv spine (sc_id cfg) [] s s1"
      using append_blob_grows(1) [OF assms(1) grows_refl bl] assms(2) by simp
    define resp1 where "resp1 = (if berr = None
      then resp\<lparr>tr_artifacts := tr_artifacts resp @ [\<lparr>ar_name = ''result'', ar_blob = ref\<rparr>]\<rparr> else resp)"
    define e where "e = tool_result_event (sc_encode cfg) (event_id (sc_id cfg) (sn_counter s1 + 1) ''tool.result'')
      (sc_id cfg) bid (sc_clock cfg (sn_ticks s1)) req resp1"
    have "append_to_spine cfg c e (s1\<lparr>sn_counter := sn_counter s1 + 1, sn_ticks := sn_ticks s1 + 1\<rparr>) = (err, s')"
      using assms(3) True bl
      by (cases berr)
         (simp_all add: finish_tool_call_def next_event_id_def read_clock_def Let_def raw_def ref_def e_def resp1_def)
    then show ?thesis
      by (intro step [OF g, of e "''tool.result''"]) (simp_all add: e_def tool_result_event_def Let_def)
  next
    case False
    show ?thesis
      by (rule step [OF grows_refl [of inv s spine "sc_id cfg", OF assms(2)], of "tool_failure_event
            (event_id (sc_id cfg) (sn_counter s + 1) ''tool.failure'') (sc_id cfg) bid (sc_clock cfg (sn_ticks s)) req resp"
            "''tool.failure''"])
         (use assms(3) False in \<open>simp_all add: finish_tool_call_def next_event_id_def read_clock_def tool_failure_event_def\<close>)
  qed
qed

lemma execute_tool_calls_grows:
  assumes "sc_ops cfg = ops"
  shows "inv (sn_backend s) \<Longrightarrow> execute_tool_calls cfg c bid tcs s = (r, s') \<Longrightarrow> grows inv spine (sc_id cfg) [] s s'"
proof (induction tcs arbitrary: s)
  case Nil
  then show ?case by (simp add: grows_refl split: option.splits)
next
  case (Cons tc tcs)
  show ?case
  proof (cases "sc_runner cfg")
    case None
    with Cons.prems show ?thesis by (simp add: grows_refl)
  next
    case (Some run)
    obtain cid s1 where s1: "tool_call_id cfg tc s = (cid, s1)" by fastforce
    have g1: "grows inv spine (sc_id cfg) [] s s1"
      using s1 by (intro grows_same [OF grows_refl [of inv s, OF Cons.prems(1)]])
        (auto simp: tool_call_id_def next_event_id_def split: if_splits)
    define req where "req = \<lparr>tq_tool = tc_tool tc, tq_call_id = cid, tq_args = tc_args tc, tq_timeout = 15000\<rparr>"
    define s3 where "s3 = s1\<lparr>sn_counter := sn_counter s1 + 1, sn_ticks := sn_ticks s1 + 1\<rparr>"
    define e where "e = tool_request_event (sc_encode cfg) (event_id (sc_id cfg) (sn_counter s1 + 1) ''tool.request'')
      (sc_id cfg) bid (sc_clock cfg (sn_ticks s1)) req"
    have g3: "grows inv spine (sc_id cfg) [] s s3" using grows_same [OF g1, of s3] by (simp add: s3_def)
    obtain err s4 where ap: "append_to_spine cfg c e s3 = (err, s4)" by fastforce
    have "sn_counter s \<le> sn_counter s1" using g1 by (simp add: grows_def)
    then have "grows inv spine (sc_id cfg) ([] @ (if err = None then transcript [e] else [])) s s4"
      by (intro append_to_grows [OF assms g3 _ _ ap]) (simp_all add: e_def s3_def tool_request_event_def made_within_def)
    then have g4: "grows inv spine (sc_id cfg) [] s s4"
      by (simp add: transcript_def spoken_def e_def tool_request_event_def split: if_splits)
    obtain resp t1 where rn: "run req (sn_tools s4) = (resp, t1)" by fastforce
    define s5 where "s5 = s4\<lparr>sn_tools := t1\<rparr>"
    have g5: "grows inv spine (sc_id cfg) [] s s5" using grows_same [OF g4, of s5] by (simp add: s5_def)
    obtain err2 s6 where fin: "finish_tool_call cfg c bid req resp s5 = (err2, s6)" by fastforce
    have g6: "grows inv spine (sc_id cfg) [] s s6"
      using grows_silent [OF g5 finish_tool_call_grows [OF assms grows_ok [OF g5] fin]] .
    have "execute_tool_calls cfg c bid (tc # tcs) s = (case err of Some x \<Rightarrow> (Some x, s4) | None \<Rightarrow>
        (case err2 of Some x \<Rightarrow> (Some x, s6) | None \<Rightarrow> execute_tool_calls cfg c bid tcs s6))"
      using Some s1 ap rn fin
      by (cases err; cases err2) (simp_all add: next_event_id_def read_clock_def Let_def req_def s3_def e_def s5_def)
    note out = this [unfolded Cons.prems(2)]
    show ?thesis
    proof (cases "err = None \<and> err2 = None")
      case True
      then have "execute_tool_calls cfg c bid tcs s6 = (r, s')" using out by simp
      then show ?thesis using grows_silent [OF g6] Cons.IH [OF grows_ok [OF g6]] by blast
    next
      case False
      then show ?thesis using out g4 g6 by (auto split: option.splits)
    qed
  qed
qed

lemma set_sched_grows: "grows inv spine sid ts s s' \<Longrightarrow> grows inv spine sid ts s (set_sched f s')"
  by (erule grows_same) (simp_all add: set_sched_def)

lemma read_clock_grows: "grows inv spine sid ts s s' \<Longrightarrow> grows inv spine sid ts s (snd (read_clock cfg s'))"
  by (erule grows_same) (simp_all add: read_clock_def)

lemma emit_next:
  assumes "sc_ops cfg = ops" and "grows inv spine (sc_id cfg) ts s s'"
    and "session_kind kind" and "\<not> (kind = KindTurnUser \<or> kind = KindTurnAgent)"
  shows "grows inv spine (sc_id cfg) ts s (snd (emit cfg c tag kind bid parent meta s'))"
proof -
  obtain err s'' where em: "emit cfg c tag kind bid parent meta s' = (err, s'')" by fastforce
  from grows_trans [OF assms(2) emit_silent [OF assms(1) grows_ok [OF assms(2)] em assms(3,4)]] em
  show ?thesis by simp
qed

lemma blob_next:
  assumes "sc_ops cfg = ops" and "grows inv spine (sc_id cfg) ts s s'"
  shows "grows inv spine (sc_id cfg) ts s (snd (append_blob_to cfg c r p s'))"
  by (cases "append_blob_to cfg c r p s'") (simp add: append_blob_grows(1) [OF assms])

lemma run_compaction_grows:
  assumes "sc_ops cfg = ops" and "inv (sn_backend s)"
  shows "grows inv spine (sc_id cfg) [] s (run_compaction cfg cq c bid events reason s)"
proof -
  have g: "grows inv spine (sc_id cfg) [] s s" by (rule grows_refl) (rule assms(2))
  show ?thesis unfolding run_compaction_def
    by (simp add: split_def Let_def split: option.split sum.split)
       (intro conjI allI impI set_sched_grows read_clock_grows emit_next [OF assms(1)] blob_next [OF assms(1)] g; simp)
qed

lemma record_turn_grows:
  assumes "sc_ops cfg = ops" and "inv (sn_backend s)"
  shows "grows inv spine (sc_id cfg) [] s (record_turn_and_maybe_compact cfg c bid s)"
proof -
  have g: "grows inv spine (sc_id cfg) [] s (s\<lparr>sn_sched := x\<rparr>)" for x
    by (rule grows_same [OF grows_refl [of inv s, OF assms(2)]]) simp_all
  have "grows inv spine (sc_id cfg) [] s (run_compaction cfg cq c bid events reason (s\<lparr>sn_sched := x\<rparr>))"
    for cq events reason x
    using grows_silent [OF g run_compaction_grows [OF assms(1) grows_ok [OF g]]] .
  with g [of "sn_sched s"] g show ?thesis
    by (simp add: record_turn_and_maybe_compact_def split_def Let_def split: option.split)
qed

text \<open>What a result adds to the transcript: the answer, where there is one.\<close>

lemma agent_answer_grows:
  assumes "sc_ops cfg = ops" and "grows inv spine (sc_id cfg) [] s s'"
    and "agent_answer cfg c bid resp bytes sels ex then_compact s' = ((res, err), s'')"
  shows "grows inv spine (sc_id cfg) (if err = None then [(bid, KindTurnAgent, tu_answer res)] else []) s s''"
proof -
  obtain e1 s1 where em: "emit cfg c ''turn.agent'' KindTurnAgent bid [] [(''text'', VStr (rs_answer resp))] s' = (e1, s1)"
    by fastforce
  have g1: "grows inv spine (sc_id cfg) (if e1 = None then [(bid, KindTurnAgent, rs_answer resp)] else []) s s1"
    using grows_silent [OF assms(2) emit_grows [OF assms(1) grows_ok [OF assms(2)] em session_kinds(2)]] by (cases e1) simp_all
  show ?thesis
  proof (cases e1)
    case None
    define s2 where "s2 = hand_event cfg (emitted cfg ''turn.agent'' KindTurnAgent bid [] [(''text'', VStr (rs_answer resp))] s') s1"
    have g2: "grows inv spine (sc_id cfg) [(bid, KindTurnAgent, rs_answer resp)] s s2"
      using grows_same [OF g1, of s2] None by (simp add: s2_def)
    from None have "err = None" "tu_answer res = rs_answer resp"
      "s'' = (if then_compact then record_turn_and_maybe_compact cfg c bid s2 else s1)"
      using assms(3) em by (auto simp: agent_answer_def s2_def)
    moreover have "grows inv spine (sc_id cfg) ([(bid, KindTurnAgent, rs_answer resp)] @ []) s
        (record_turn_and_maybe_compact cfg c bid s2)"
      using grows_trans [OF g2 record_turn_grows [OF assms(1) grows_ok [OF g2]]] by simp
    ultimately show ?thesis using g1 None by simp
  next
    case (Some x)
    then show ?thesis using assms(3) em g1 by (auto simp: agent_answer_def)
  qed
qed

text \<open>One model call inside a turn: from choosing the event's identifier to the persisted reply.\<close>

lemma model_step_grows:
  assumes "sc_ops cfg = ops" and "grows inv spine (sc_id cfg) [] s s2"
    and "emit cfg c ''packet.sent'' KindPacketSent bid [] meta (s2\<lparr>sn_counter := sn_counter s2 + 1\<rparr>) = (err, s4)"
    and "execute_and_persist ops d nm call c \<lparr>mq_session = sc_id cfg, mq_branch = bid, mq_packet = p\<rparr>
           (event_id (sc_id cfg) (sn_counter s2 + 1) ''response'') now m (sn_backend s4) = (res, m1, b1)"
  shows "grows inv spine (sc_id cfg) [] s s4"
    and "grows inv spine (sc_id cfg) [] s (s4\<lparr>sn_ticks := k, sn_model := m1, sn_backend := b1\<rparr>)"
proof -
  let ?s3 = "s2\<lparr>sn_counter := sn_counter s2 + 1\<rparr>"
  have g3: "grows inv spine (sc_id cfg) [] s ?s3" using grows_same [OF assms(2), of ?s3] by simp
  have e: "grows inv spine (sc_id cfg) [] ?s3 s4"
    using emit_silent [OF assms(1) grows_ok [OF g3] assms(3)] by simp
  show g4: "grows inv spine (sc_id cfg) [] s s4" by (rule grows_silent [OF g3 e])
  obtain es where es: "inv b1" "spine b1 = (spine (sn_backend s4))(sc_id cfg := spine (sn_backend s4) (sc_id cfg) @ es)"
      "\<forall>x \<in> set es. ev_id x \<in> {event_id (sc_id cfg) (sn_counter s2 + 1) ''response'' @ ''.invalid'',
          event_id (sc_id cfg) (sn_counter s2 + 1) ''response'' @ ''.received''}
         \<and> ev_kind x \<in> {KindResponseInvalid, KindResponseReceived}"
    using persist_spine [OF grows_ok [OF g4] assms(4)] by auto
  have "\<forall>x \<in> set es. \<not> spoken x" using es(3) kinds_silent unfolding spoken_def by force
  then have t: "transcript es = []" by (rule transcript_silent)
  have c: "sn_counter s \<le> sn_counter s2" "sn_counter s2 + 1 \<le> sn_counter s4"
    using assms(2) e by (auto simp: grows_def)
  have "made_within (sc_id cfg) (sn_counter s) (sn_counter s4) es"
    unfolding made_within_def using es(3) c numbered_event_id_suffix by fastforce
  then show "grows inv spine (sc_id cfg) [] s (s4\<lparr>sn_ticks := k, sn_model := m1, sn_backend := b1\<rparr>)"
    using grows_append [OF g4, of "s4\<lparr>sn_ticks := k, sn_model := m1, sn_backend := b1\<rparr>" es] es(1,2) t by simp
qed

lemma turn_loop_grows:
  assumes "sc_ops cfg = ops"
  shows "inv (sn_backend s) \<Longrightarrow> \<forall>t. tracker = Some t \<longrightarrow> at_session t = sc_id cfg \<Longrightarrow>
    turn_loop cfg c bid ext left tracker bytes s = ((res, err), s') \<Longrightarrow>
    grows inv spine (sc_id cfg) (if err = None then [(bid, KindTurnAgent, tu_answer res)] else []) s s'"
proof (induction left arbitrary: s tracker bytes)
  case 0
  then show ?case by (auto simp: grows_refl)
next
  case (Suc left)
  obtain ar s1 where asm: "assemble_for_branch cfg c bid ext s = (ar, s1)" by fastforce
  have g1: "grows inv spine (sc_id cfg) [] s s1"
    by (rule assemble_for_branch_grows [OF assms Suc.prems(1) asm])
  show ?case
  proof (cases ar)
    case (Inl x)
    then show ?thesis using Suc.prems(3) asm g1 by auto
  next
    case (Inr y)
    obtain packet sels ex where y: "y = (packet, sels, ex)" by (metis prod_cases3)
    define size where "size = me_envelope (as_measurement packet)"
    define s2 where "s2 = set_sched (sched_record_pressure (of_int size / of_int MaxEnvelopeBytes)) s1"
    have g2: "grows inv spine (sc_id cfg) [] s s2" unfolding s2_def by (rule set_sched_grows [OF g1])
    obtain e4 s4 where em: "emit cfg c ''packet.sent'' KindPacketSent bid [] (packet_meta packet)
        (s2\<lparr>sn_counter := sn_counter s2 + 1\<rparr>) = (e4, s4)" by fastforce
    obtain mr m1 b1 where call: "execute_and_persist ops (sc_decoders cfg) (sc_adapter cfg) (sc_call cfg) c
        \<lparr>mq_session = sc_id cfg, mq_branch = bid, mq_packet = as_json packet\<rparr>
        (event_id (sc_id cfg) (sn_counter s2 + 1) ''response'') (sc_clock cfg (sn_ticks s4)) (sn_model s4) (sn_backend s4)
        = (mr, m1, b1)" by (metis prod_cases3)
    define s6 where "s6 = s4\<lparr>sn_ticks := sn_ticks s4 + 1, sn_model := m1, sn_backend := b1\<rparr>"
    have g4: "grows inv spine (sc_id cfg) [] s s4" by (rule model_step_grows(1) [OF assms g2 em call])
    have g6: "grows inv spine (sc_id cfg) [] s s6"
      unfolding s6_def by (rule model_step_grows(2) [OF assms g2 em call])
    show ?thesis
    proof (cases e4)
      case (Some x)
      then show ?thesis using Suc.prems(3) asm Inr y em g4
        by (auto simp: s2_def size_def next_event_id_def Let_def)
    next
      case None
      note pre = asm Inr y em None call assms
      show ?thesis
      proof (cases mr)
        case (Inl x)
        obtain r7 t7 s7 where au: "audit_turn cfg 0 tracker s6 = (r7, t7, s7)" by (metis prod_cases3)
        have "grows inv spine (sc_id cfg) [] s s7" using audit_turn_grows [OF assms g6 Suc.prems(2) au] by simp
        then show ?thesis using Suc.prems(3) pre Inl au
          by (auto simp: s2_def s6_def size_def next_event_id_def read_clock_def Let_def)
      next
        case callres: (Inr callres)
        obtain r7 t7 s7 where au: "audit_turn cfg (size div 4) tracker s6 = (r7, t7, s7)" by (metis prod_cases3)
        have g7: "grows inv spine (sc_id cfg) [] s s7" and t7: "\<forall>t. t7 = Some t \<longrightarrow> at_session t = sc_id cfg"
          using audit_turn_grows [OF assms g6 Suc.prems(2) au] by simp_all
        define resp where "resp = cr_response callres"
        obtain e8 s8 where tools: "execute_tool_calls cfg c bid (rs_tool_calls resp) s7 = (e8, s8)" by fastforce
        have g8: "grows inv spine (sc_id cfg) [] s s8"
          by (rule grows_silent [OF g7 execute_tool_calls_grows [OF assms grows_ok [OF g7] tools]])
        have "(\<exists>b. agent_answer cfg c bid resp size sels ex b s7 = ((res, err), s'))
            \<or> (e8 \<noteq> None \<and> err \<noteq> None \<and> s' = s8)
            \<or> (turn_loop cfg c bid ext left t7 size s8 = ((res, err), s'))
            \<or> (turn_loop cfg c bid ext left t7 size s7 = ((res, err), s'))
            \<or> (err \<noteq> None \<and> s' = s7)"
          using Suc.prems(3) pre callres au tools
          by (auto simp: s2_def s6_def size_def resp_def next_event_id_def read_clock_def Let_def
              split: if_splits option.splits)
        then consider b where "agent_answer cfg c bid resp size sels ex b s7 = ((res, err), s')"
          | "err \<noteq> None" "s' = s8" | "turn_loop cfg c bid ext left t7 size s8 = ((res, err), s')"
          | "turn_loop cfg c bid ext left t7 size s7 = ((res, err), s')" | "err \<noteq> None" "s' = s7" by blast
        then show ?thesis
        proof cases
          case 1
          then show ?thesis by (rule agent_answer_grows [OF assms g7])
        next
          case 3
          with grows_silent [OF g8 Suc.IH [OF grows_ok [OF g8] t7]] show ?thesis by blast
        next
          case 4
          with grows_silent [OF g7 Suc.IH [OF grows_ok [OF g7] t7]] show ?thesis by blast
        qed (use g7 g8 in auto)
      qed
    qed
  qed
qed

text \<open>A user's turn adds the question, where it was recorded, and the answer, where there is one.\<close>

lemma handle_user_turn_grows:
  assumes "sc_ops cfg = ops" and "inv (sn_backend s)"
    and "handle_user_turn cfg c branch text ext s = ((res, err), s')"
  defines "bid \<equiv> (if branch = [] then sc_branch cfg else branch)"
  shows "grows inv spine (sc_id cfg)
    ((if fst (emit cfg c ''turn.user'' KindTurnUser bid [] [(''text'', VStr text)] s) = None
      then [(bid, KindTurnUser, text)] else [])
     @ (if err = None then [(bid, KindTurnAgent, tu_answer res)] else [])) s s'"
proof -
  obtain e1 s1 where em: "emit cfg c ''turn.user'' KindTurnUser bid [] [(''text'', VStr text)] s = (e1, s1)"
    by fastforce
  have g1: "grows inv spine (sc_id cfg) (if e1 = None then [(bid, KindTurnUser, text)] else []) s s1"
    using emit_grows [OF assms(1,2) em session_kinds(1)] by (cases e1) simp_all
  show ?thesis
  proof (cases e1)
    case (Some x)
    then show ?thesis using assms(3) em g1 by (auto simp: handle_user_turn_def bid_def [symmetric])
  next
    case None
    define s0 where "s0 = hand_job cfg (emitted cfg ''turn.user'' KindTurnUser bid [] [(''text'', VStr text)] s) text
      (hand_event cfg (emitted cfg ''turn.user'' KindTurnUser bid [] [(''text'', VStr text)] s) s1)"
    define s2 where "s2 = s0\<lparr>sn_counter := sn_counter s1 + 1\<rparr>"
    define tracker where "tracker = (if sc_metrics cfg then Some (new_audit_tracker (sc_audit cfg)
      (event_id (sc_id cfg) (sn_counter s1 + 1) ''consult'') (sc_id cfg) bid) else None)"
    have g2: "grows inv spine (sc_id cfg) [(bid, KindTurnUser, text)] s s2"
      using grows_same [OF g1, of s2] None by (simp add: s2_def s0_def)
    have "turn_loop cfg c bid ext (nat (sc_max_turns cfg)) tracker 0 s2 = ((res, err), s')"
      using assms(3) em None
      by (cases "sc_metrics cfg") (simp_all add: handle_user_turn_def bid_def [symmetric] next_event_id_def Let_def s2_def s0_def tracker_def)
    moreover have "\<forall>t. tracker = Some t \<longrightarrow> at_session t = sc_id cfg"
      by (simp add: tracker_def new_audit_tracker_def Let_def)
    ultimately have "grows inv spine (sc_id cfg) (if err = None then [(bid, KindTurnAgent, tu_answer res)] else []) s2 s'"
      using turn_loop_grows [OF assms(1) grows_ok [OF g2]] by blast
    from grows_trans [OF g2 this] show ?thesis by (simp add: em None)
  qed
qed

lemma fork_branch_grows:
  assumes "sc_ops cfg = ops" and "inv (sn_backend s)" and "session_fork_branch cfg c parent child s = (err, s')"
  shows "grows inv spine (sc_id cfg) [] s s'"
proof (cases "parent = [] \<or> child = [] \<or> (\<exists>x. bk_list_branch ops c (sc_id cfg) parent (sn_backend s) = Inl x)")
  case True
  then have "s' = s" using assms(1,3) by (auto simp: session_fork_branch_def split: if_splits)
  then show ?thesis using assms(2) by (simp add: grows_refl)
next
  case False
  then obtain es where es: "bk_list_branch ops c (sc_id cfg) parent (sn_backend s) = Inr es"
    by (cases "bk_list_branch ops c (sc_id cfg) parent (sn_backend s)") auto
  have "emit cfg c ''branch.fork'' KindBranchFork child (if es = [] then [] else ev_id (last es))
      [(''parent_branch_id'', VStr parent)] s = (err, s')"
    using assms(1,3) False es by (simp add: session_fork_branch_def split: if_splits)
  then show ?thesis by (rule emit_silent [OF assms(1,2)]) simp_all
qed

lemma run_commands_grows:
  assumes "sc_ops cfg = ops" and "sc_id cfg \<noteq> []" and "sc_branch cfg \<noteq> []" and "\<forall>n. sc_clock cfg n \<noteq> 0"
  shows "fresh inv spine (sc_id cfg) s \<Longrightarrow> run_commands cfg cmds s = (rs, s') \<Longrightarrow>
    grows inv spine (sc_id cfg) (conversation (sc_branch cfg) cmds rs) s s'"
proof (induction cmds arbitrary: s rs)
  case Nil
  then show ?case by (auto simp: grows_refl fresh_def)
next
  case (Cons cmd cmds)
  have i: "inv (sn_backend s)" using Cons.prems(1) by (simp add: fresh_def)
  show ?case
  proof (cases cmd)
    case (Turn branch q ext)
    define bid where "bid = (if branch = [] then sc_branch cfg else branch)"
    obtain res err s1 where h: "handle_user_turn cfg None branch q ext s = ((res, err), s1)"
      by (metis prod.collapse)
    have "bid \<noteq> []" "KindTurnUser \<noteq> []" using assms(3) by (simp_all add: bid_def KindTurnUser_def)
    then have "fst (emit cfg None ''turn.user'' KindTurnUser bid [] [(''text'', VStr q)] s) = None"
      using assms(4) by (intro emit_succeeds [OF assms(1) Cons.prems(1) assms(2)]) auto
    with handle_user_turn_grows [OF assms(1) i h]
    have g: "grows inv spine (sc_id cfg) (turn_conversation (sc_branch cfg) branch q (res, err)) s s1"
      by (cases err) (simp_all add: turn_conversation_def bid_def Let_def)
    obtain rs1 where r: "run_commands cfg cmds s1 = (rs1, s')" and "rs = (res, err) # rs1"
      using Cons.prems(2) Turn h by (cases "run_commands cfg cmds s1") auto
    then show ?thesis using grows_trans [OF g Cons.IH [OF grows_fresh [OF g Cons.prems(1)] r]] Turn by simp
  next
    case (Fork parent child)
    obtain err s1 where h: "session_fork_branch cfg None parent child s = (err, s1)" by fastforce
    have g: "grows inv spine (sc_id cfg) [] s s1" by (rule fork_branch_grows [OF assms(1) i h])
    have r: "run_commands cfg cmds s1 = (rs, s')" using Cons.prems(2) Fork h by simp
    show ?thesis using grows_silent [OF g Cons.IH [OF grows_fresh [OF g Cons.prems(1)] r]] Fork by simp
  qed
qed

end

subsection \<open>Properties\<close>

lemma start_session_ok:
  assumes "start_session cfg0 b m t = Inr (cfg, s)" and "sc_ops cfg0 = mem_ops"
  shows "sc_id cfg \<noteq> []" "sc_id cfg = sc_id cfg0" "sc_ops cfg = mem_ops" "sc_branch cfg \<noteq> []"
    "sc_clock cfg = sc_clock cfg0" "sn_backend s = b" "sn_counter s = length (stored (mb_sessions b) (sc_id cfg0))"
  using assms by (auto simp: start_session_def sess_defaults_def Let_def mb_list_session_def
      split: if_splits sum.splits)

text \<open>
  C1. The log is the conversation. A session is started on a log of its own in which no event has a
  number above the log's length (a new session's log is empty), with a clock that never shows the
  zero time. Whatever turns and forks follow, with any model, tools, search and compaction: the log is
  only extended; what it gains of user and agent turns is, in order, every question asked, on its
  branch, followed by the answer where the call returned one, and by no agent turn where it did not;
  and no other session's log changes.
\<close>

theorem session_log_is_conversation:
  assumes "mb_inv b" and "sc_ops cfg0 = mem_ops" and "\<forall>n. sc_clock cfg0 n \<noteq> 0"
    and "start_session cfg0 b m t = Inr (cfg, s)"
    and "\<forall>e \<in> set (stored (mb_sessions b) (sc_id cfg0)).
           \<forall>n. numbered (sc_id cfg0) n (ev_id e) \<longrightarrow> n \<le> length (stored (mb_sessions b) (sc_id cfg0))"
    and "run_commands cfg cmds s = (rs, s')"
  shows "\<exists>es. stored (mb_sessions (sn_backend s')) =
           (stored (mb_sessions b))(sc_id cfg0 := stored (mb_sessions b) (sc_id cfg0) @ es)
         \<and> transcript es = conversation (sc_branch cfg) cmds rs"
proof -
  note st = start_session_ok [OF assms(4,2)]
  have "fresh mb_inv (\<lambda>s. stored (mb_sessions s)) (sc_id cfg) s"
    using assms(1,5) st by (simp add: fresh_def)
  from ms.run_commands_grows [OF st(3) st(1) st(4) _ this assms(6)] assms(3) st
  show ?thesis by (auto simp: grows_def)
qed

text \<open>
  C28. Restarting can strand a session: \<open>StartSession\<close> takes the number of logged events as the number of
  identifiers given out, although identifiers are also spent on events that were never logged. When
  the identifier that the next operation will choose is already in the log, the first turn (or fork)
  after the restart is refused with \<open>ErrDuplicateEventID\<close> and leaves the log as it was.
\<close>

theorem restart_reuses_event_ids:
  assumes "mb_inv b" and "sc_ops cfg0 = mem_ops" and "\<forall>n. sc_clock cfg0 n \<noteq> 0"
    and "start_session cfg0 b m t = Inr (cfg, s)"
    and "parent \<noteq> []" and "child \<noteq> []"
    and "event_id (sc_id cfg0) (length (stored (mb_sessions b) (sc_id cfg0)) + 1) tag
           \<in> ev_id ` set (stored (mb_sessions b) (sc_id cfg0))"
  shows "(tag = ''turn.user'' \<longrightarrow>
            snd (fst (handle_user_turn cfg None branch text ext s)) = Some be_ErrDuplicateEventID
          \<and> stored (mb_sessions (sn_backend (snd (handle_user_turn cfg None branch text ext s)))) = stored (mb_sessions b))
       \<and> (tag = ''branch.fork'' \<longrightarrow>
            fst (session_fork_branch cfg None parent child s) = Some be_ErrDuplicateEventID
          \<and> stored (mb_sessions (sn_backend (snd (session_fork_branch cfg None parent child s)))) = stored (mb_sessions b))"
proof -
  note st = start_session_ok [OF assms(4,2)]
  have dup: "\<exists>s1. emit cfg None tag kind bid par meta s = (Some be_ErrDuplicateEventID, s1)
      \<and> stored (mb_sessions (sn_backend s1)) = stored (mb_sessions b)"
    if "kind \<noteq> []" "bid \<noteq> []" for kind bid par meta
  proof -
    define e where "e = \<lparr>ev_id = event_id (sc_id cfg) (sn_counter s + 1) tag, ev_session = sc_id cfg,
      ev_ts = sc_clock cfg (sn_ticks s), ev_kind = kind, ev_branch = bid, ev_parent = par, ev_refs = [],
      ev_meta = meta, ev_blob = []\<rparr>"
    have v: "event_validate e = None"
      using that assms(3) st by (simp add: event_validate_None_iff e_def event_id_def)
    have "ev_id e \<in> ev_id ` set (stored (mb_sessions b) (ev_session e))" using assms(7) st by (simp add: e_def)
    with mb.append_duplicate [OF assms(1), of e None] v
    obtain b' where ap: "mb_append_event None e b = (Some be_ErrDuplicateEventID, b')"
      by (cases "mb_append_event None e b") (auto simp: mb_append_event_def Let_def split: if_splits)
    with mb.append_err [OF assms(1)] have "stored (mb_sessions b') = stored (mb_sessions b)" by blast
    with ap st show ?thesis
      by (simp add: emit_def next_event_id_def read_clock_def append_to_spine_def e_def)
  qed
  show ?thesis
  proof (intro conjI impI)
    let ?bid = "if branch = [] then sc_branch cfg else branch"
    have nb: "?bid \<noteq> []" using st(4) by simp
    assume "tag = ''turn.user''"
    moreover obtain s1 where "emit cfg None tag KindTurnUser ?bid [] [(''text'', VStr text)] s =
        (Some be_ErrDuplicateEventID, s1) \<and> stored (mb_sessions (sn_backend s1)) = stored (mb_sessions b)"
      using dup [of KindTurnUser ?bid "[]" "[(''text'', VStr text)]", OF _ nb]
      by (auto simp only: KindTurnUser_def list.simps)
    ultimately show "snd (fst (handle_user_turn cfg None branch text ext s)) = Some be_ErrDuplicateEventID"
      "stored (mb_sessions (sn_backend (snd (handle_user_turn cfg None branch text ext s)))) = stored (mb_sessions b)"
      by (simp_all add: handle_user_turn_def Let_def)
  next
    assume tag: "tag = ''branch.fork''"
    obtain es where es: "mb_list_branch None (sc_id cfg) parent b = Inr es"
      using assms(5) by (simp add: mb_list_branch_def mb_list_session_def)
    obtain s1 where "emit cfg None tag KindBranchFork child (if es = [] then [] else ev_id (last es))
        [(''parent_branch_id'', VStr parent)] s =
        (Some be_ErrDuplicateEventID, s1) \<and> stored (mb_sessions (sn_backend s1)) = stored (mb_sessions b)"
      using dup [of KindBranchFork child] assms(6) by (auto simp: KindBranchFork_def)
    with tag es st(3,6) assms(5,6)
    show "fst (session_fork_branch cfg None parent child s) = Some be_ErrDuplicateEventID"
      "stored (mb_sessions (sn_backend (snd (session_fork_branch cfg None parent child s)))) = stored (mb_sessions b)"
      by (simp_all add: session_fork_branch_def)
  qed
qed

subsection \<open>Instances\<close>

text \<open>A session on the in-memory backend whose model answers every packet with the same text.\<close>

definition demo_cfg :: "(mem_backend, nat, unit) sess_cfg" where
  "demo_cfg = \<lparr>sc_id = ''s'', sc_branch = ''main'', sc_ops = mem_ops, sc_decoders = echo_decoders,
     sc_adapter = ''mock'', sc_call = echo_adapter, sc_runner = None, sc_encode = (\<lambda>_. Inr ''{}''),
     sc_headers = [], sc_max_turns = 4, sc_search = None, sc_preprocessor = True, sc_metrics = False,
     sc_audit = audit_default_config, sc_compactor = None, sc_schedule = default_schedule_config,
     sc_clock = (\<lambda>n. int n + 1), sc_fmt1 = (\<lambda>_. [])\<rparr>"

definition demo_session :: "mem_backend \<Rightarrow> (mem_backend, nat, unit) sess" where
  "demo_session b = \<lparr>sn_backend = b, sn_counter = length (stored (mb_sessions b) ''s''), sn_ticks = 0,
     sn_model = 0, sn_tools = (), sn_sched = None, sn_handed = []\<rparr>"

lemma demo_start: "start_session demo_cfg b 0 () = Inr (demo_cfg, demo_session b)"
  by (simp add: start_session_def sess_defaults_def demo_cfg_def demo_session_def mb_list_session_def)

lemma demo_empty: "stored (mb_sessions new_mem_backend) x = []"
  by (simp add: new_mem_backend_def stored_def)

theorem session_log_is_conversation_witness:
  "\<exists>r :: turn_result \<times> goerr option. transcript (stored (mb_sessions (sn_backend (snd (run_commands demo_cfg
        [Turn [] ''hi'' [], Fork ''main'' ''alt''] (demo_session new_mem_backend))))) ''s'') =
      (''main'', KindTurnUser, ''hi'') # (if snd r = None then [(''main'', KindTurnAgent, tu_answer (fst r))] else [])"
proof -
  obtain rs s' where run: "run_commands demo_cfg [Turn [] ''hi'' [], Fork ''main'' ''alt'']
      (demo_session new_mem_backend) = (rs, s')" by fastforce
  then have "rs = [fst (handle_user_turn demo_cfg None [] ''hi'' [] (demo_session new_mem_backend))]"
    by (simp add: split_def Let_def)
  then obtain r where "rs = [r]" by blast
  have ops: "sc_ops demo_cfg = mem_ops" "\<forall>n. sc_clock demo_cfg n \<noteq> 0" "sc_id demo_cfg = ''s''"
    "sc_branch demo_cfg = ''main''" by (auto simp: demo_cfg_def)
  obtain es where es: "stored (mb_sessions (sn_backend s')) =
      (stored (mb_sessions new_mem_backend))(''s'' := stored (mb_sessions new_mem_backend) ''s'' @ es)"
      "transcript es = conversation ''main'' [Turn [] ''hi'' [], Fork ''main'' ''alt''] rs"
    using session_log_is_conversation [OF mb_inv_new ops(1,2) demo_start _ run] unfolding ops(3,4)
    by (auto simp: demo_empty simp del: run_commands.simps)
  have "stored (mb_sessions (sn_backend s')) ''s'' = es" using es(1) by (simp add: demo_empty)
  with es(2) show ?thesis
    unfolding run \<open>rs = [r]\<close> by - (rule exI [of _ r], simp add: turn_conversation_def Let_def)
qed

text \<open>A turn with a cancelled context spends an identifier; the fork after it is the first event.\<close>

definition stranded_backend :: mem_backend where
  "stranded_backend = sn_backend (snd (session_fork_branch demo_cfg None ''main'' ''alt''
     (snd (handle_user_turn demo_cfg (Some be_ErrEventNotFound) [] ''hi'' []
       (demo_session new_mem_backend)))))"

lemma stranded_log: "map ev_id (stored (mb_sessions stranded_backend) ''s'') = [event_id ''s'' 2 ''branch.fork'']"
  by (simp add: stranded_backend_def session_fork_branch_def handle_user_turn_def demo_cfg_def demo_session_def
      emit_def next_event_id_def read_clock_def append_to_spine_def mb_append_event_def mb_list_branch_def
      mb_list_session_def demo_empty event_validate_def event_id_def KindBranchFork_def Let_def
      ensure_session_def lookup_id_def new_mem_backend_def add_session_def stored_def numeral_2_eq_2)

lemma stranded_inv: "mb_inv stranded_backend"
proof -
  have i: "mb_inv (sn_backend (demo_session new_mem_backend))" by (simp add: demo_session_def)
  have o: "sc_ops demo_cfg = mem_ops" by (simp add: demo_cfg_def)
  obtain res err s1 where h: "handle_user_turn demo_cfg (Some be_ErrEventNotFound) [] ''hi'' []
      (demo_session new_mem_backend) = ((res, err), s1)" by (metis prod.collapse)
  obtain e2 s2 where f: "session_fork_branch demo_cfg None ''main'' ''alt'' s1 = (e2, s2)" by fastforce
  from ms.fork_branch_grows [OF o grows_ok [OF ms.handle_user_turn_grows [OF o i h]] f]
  show ?thesis using h f by (simp add: stranded_backend_def grows_def)
qed

theorem restart_reuses_event_ids_witness:
  "fst (session_fork_branch demo_cfg None ''main'' ''alt'' (demo_session stranded_backend)) =
     Some be_ErrDuplicateEventID"
proof -
  have l: "length (stored (mb_sessions stranded_backend) ''s'') = 1"
    using arg_cong [OF stranded_log, of length] by simp
  have "event_id ''s'' (length (stored (mb_sessions stranded_backend) ''s'') + 1) ''branch.fork''
      \<in> ev_id ` set (stored (mb_sessions stranded_backend) ''s'')"
    using arg_cong [OF stranded_log, of set] l by (simp add: numeral_2_eq_2)
  with restart_reuses_event_ids [OF stranded_inv _ _ demo_start, of "''main''" "''alt''" "''branch.fork''"]
  show ?thesis by (simp add: demo_cfg_def)
qed

end
