(* ===== verification/Ingress.thy ===== *)
theory Ingress
  imports GoJson "HOL-Library.Word"
begin

text \<open>
  Package \<open>internal/ingress\<close>: the fingerprint of a request (a SHA-256 digest of its canonical
  JSON) and the coalescing of requests in flight under one fingerprint. \<open>crypto/sha256\<close> and
  \<open>encoding/hex\<close> are written out over 32-bit words.
\<close>

unbundle bit_operations_syntax

subsection \<open>SHA-256\<close>

type_synonym w32 = "32 word"

text \<open>
  The constants of the standard, in decimal: the first 32 bits of the fractional parts of the cube
  roots of the first 64 primes and of the square roots of the first eight.
\<close>

definition sha_k :: "w32 list" where
  "sha_k =
     [1116352408, 1899447441, 3049323471, 3921009573, 961987163, 1508970993,
      2453635748, 2870763221, 3624381080, 310598401, 607225278, 1426881987,
      1925078388, 2162078206, 2614888103, 3248222580, 3835390401, 4022224774,
      264347078, 604807628, 770255983, 1249150122, 1555081692, 1996064986,
      2554220882, 2821834349, 2952996808, 3210313671, 3336571891, 3584528711,
      113926993, 338241895, 666307205, 773529912, 1294757372, 1396182291,
      1695183700, 1986661051, 2177026350, 2456956037, 2730485921, 2820302411,
      3259730800, 3345764771, 3516065817, 3600352804, 4094571909, 275423344,
      430227734, 506948616, 659060556, 883997877, 958139571, 1322822218,
      1537002063, 1747873779, 1955562222, 2024104815, 2227730452, 2361852424,
      2428436474, 2756734187, 3204031479, 3329325298]"

definition sha_h0 :: "w32 list" where
  "sha_h0 =
     [1779033703, 3144134277, 1013904242, 2773480762, 1359893119, 2600822924,
      528734635, 1541459225]"

definition sha_schedule_next :: "w32 list \<Rightarrow> w32" where
  "sha_schedule_next w =
     (let n = length w; w15 = w ! (n - 15); w2 = w ! (n - 2);
          s0 = word_rotr 7 w15 XOR word_rotr 18 w15 XOR drop_bit 3 w15;
          s1 = word_rotr 17 w2 XOR word_rotr 19 w2 XOR drop_bit 10 w2
      in w ! (n - 16) + s0 + w ! (n - 7) + s1)"

definition sha_schedule :: "w32 list \<Rightarrow> w32 list" where
  "sha_schedule block = ((\<lambda>w. w @ [sha_schedule_next w]) ^^ 48) block"

fun sha_round :: "w32 list \<Rightarrow> w32 \<times> w32 \<Rightarrow> w32 list" where
  "sha_round [a, b, c, d, e, f, g, h] (k, w) =
     (let s1 = word_rotr 6 e XOR word_rotr 11 e XOR word_rotr 25 e;
          ch = (e AND f) XOR (NOT e AND g);
          t1 = h + s1 + ch + k + w;
          s0 = word_rotr 2 a XOR word_rotr 13 a XOR word_rotr 22 a;
          maj = (a AND b) XOR (a AND c) XOR (b AND c)
      in [t1 + (s0 + maj), a, b, c, d + t1, e, f, g])"
| "sha_round st kw = st"

definition sha_block :: "w32 list \<Rightarrow> w32 list \<Rightarrow> w32 list" where
  "sha_block st block = map2 (+) st (foldl sha_round st (zip sha_k (sha_schedule block)))"

definition be_bytes :: "nat \<Rightarrow> nat \<Rightarrow> nat list" where
  "be_bytes k n = map (\<lambda>i. n div 256 ^ (k - 1 - i) mod 256) [0..<k]"

definition sha_pad :: "nat list \<Rightarrow> nat list" where
  "sha_pad bs = bs @ [128] @ replicate ((119 - length bs mod 64) mod 64) 0 @ be_bytes 8 (8 * length bs)"

fun words_of :: "nat list \<Rightarrow> w32 list" where
  "words_of (a # b # c # d # bs) =
     of_nat (((a * 256 + b) * 256 + c) * 256 + d) # words_of bs"
| "words_of bs = []"

function sha_blocks :: "w32 list \<Rightarrow> w32 list \<Rightarrow> w32 list" where
  "sha_blocks st ws = (if length ws < 16 then st else sha_blocks (sha_block st (take 16 ws)) (drop 16 ws))"
  by pat_completeness auto
termination by (relation "measure (\<lambda>(st, ws). length ws)") auto

declare sha_blocks.simps [simp del]

definition hex_encode :: "nat list \<Rightarrow> string" where
  "hex_encode bs = concat (map (\<lambda>b. [hex_digit (b div 16), hex_digit (b mod 16)]) bs)"

definition sha256_hex :: "string \<Rightarrow> string" where
  "sha256_hex s =
     hex_encode (concat (map (\<lambda>w. be_bytes 4 (unat w))
       (sha_blocks sha_h0 (words_of (sha_pad (map of_char s))))))"

subsection \<open>Requests and fingerprints\<close>

record ingress_request =
  iq_session :: string
  iq_branch :: string
  iq_task :: string
  iq_refs :: "string list"
  iq_constraints :: "(string \<times> string) list"
  iq_allow_tools :: bool
  iq_external :: string

record fingerprint_input =
  fi_session :: string
  fi_branch :: string
  fi_task :: string
  fi_refs :: "string list"
  fi_constraints :: "(string \<times> string) list"
  fi_allow_tools :: bool
  fi_external :: string

definition normalize_external_context :: "string \<Rightarrow> string" where
  "normalize_external_context s = (let t = trim_space s in if t = [] then [] else t)"

definition fingerprint_input_of :: "ingress_request \<Rightarrow> fingerprint_input" where
  "fingerprint_input_of r =
     \<lparr>fi_session = iq_session r, fi_branch = iq_branch r, fi_task = iq_task r, fi_refs = iq_refs r,
      fi_constraints = iq_constraints r, fi_allow_tools = iq_allow_tools r,
      fi_external = normalize_external_context (iq_external r)\<rparr>"

definition constraint_pair_less :: "string \<times> string \<Rightarrow> string \<times> string \<Rightarrow> bool" where
  "constraint_pair_less a b = (if fst a = fst b then snd a < snd b else fst a < fst b)"

text \<open>The canonical form, as an input in which lists are sorted.\<close>

definition canonical_fingerprint :: "fingerprint_input \<Rightarrow> fingerprint_input" where
  "canonical_fingerprint i =
     i\<lparr>fi_external := normalize_external_context (fi_external i),
       fi_refs := sort_strings (fi_refs i),
       fi_constraints := go_sort constraint_pair_less (fi_constraints i)\<rparr>"

definition fingerprint_json :: "fingerprint_input \<Rightarrow> json" where
  "fingerprint_json c = JObject
     (fld ''session_id'' (JString (fi_session c)) @ fld ''branch_id'' (JString (fi_branch c))
      @ fld ''task'' (JString (fi_task c)) @ opt_strs ''refs'' (fi_refs c)
      @ opt_fld (fi_constraints c \<noteq> []) ''constraints''
          (JArray (map (\<lambda>(k, v). JObject (fld ''key'' (JString k) @ fld ''value'' (JString v)))
             (fi_constraints c)))
      @ fld ''allow_tools'' (JBool (fi_allow_tools c))
      @ opt_str ''external_context'' (fi_external c))"

definition fingerprint_payload :: "fingerprint_input \<Rightarrow> string" where
  "fingerprint_payload i = json_print (fingerprint_json (canonical_fingerprint i))"

definition fingerprint :: "fingerprint_input \<Rightarrow> string" where
  "fingerprint i = sha256_hex (fingerprint_payload i)"

definition fingerprint_request :: "ingress_request \<Rightarrow> string" where
  "fingerprint_request r = fingerprint (fingerprint_input_of r)"

subsection \<open>What a fingerprint identifies\<close>

lemma constraint_pair_less_eq: "constraint_pair_less = (\<lambda>a b. a < b)"
  by (intro ext) (auto simp: constraint_pair_less_def less_prod_def)

text \<open>
  C12. Logically equivalent requests have one fingerprint: neither the order of the references, nor
  the iteration order of the constraint map, nor white space around the external context matters.
\<close>

theorem fingerprint_canonical:
  assumes "mset refs = mset refs'" and "mset cs = mset cs'" and "trim_space ext = trim_space ext'"
  shows "fingerprint_request (req\<lparr>iq_refs := refs, iq_constraints := cs, iq_external := ext\<rparr>) =
    fingerprint_request (req\<lparr>iq_refs := refs', iq_constraints := cs', iq_external := ext'\<rparr>)"
proof -
  have "sort_strings refs = sort_strings refs'" using assms(1) by (rule sort_strings_perm)
  moreover have "go_sort constraint_pair_less cs = go_sort constraint_pair_less cs'"
    unfolding constraint_pair_less_eq go_sort_less_eq
    by (rule properties_for_sort) (simp_all add: assms(2))
  ultimately show ?thesis
    by (simp add: fingerprint_request_def fingerprint_def fingerprint_payload_def
        canonical_fingerprint_def fingerprint_input_of_def normalize_external_context_def Let_def assms(3))
qed

theorem fingerprint_canonical_witness:
  "fingerprint_request (\<lparr>iq_session = ''s'', iq_branch = ''main'', iq_task = ''t'', iq_refs = [],
     iq_constraints = [], iq_allow_tools = False, iq_external = []\<rparr>
     \<lparr>iq_refs := [''b'', ''a''], iq_constraints := [(''k'', ''v'')], iq_external := '' x''\<rparr>) =
   fingerprint_request (\<lparr>iq_session = ''s'', iq_branch = ''main'', iq_task = ''t'', iq_refs = [],
     iq_constraints = [], iq_allow_tools = False, iq_external = []\<rparr>
     \<lparr>iq_refs := [''a'', ''b''], iq_constraints := [(''k'', ''v'')], iq_external := ''x ''\<rparr>)"
  by (rule fingerprint_canonical) (simp_all add: add_mset_commute, code_simp)

definition input_valid_utf8 :: "fingerprint_input \<Rightarrow> bool" where
  "input_valid_utf8 i \<longleftrightarrow> valid_utf8 (fi_session i) \<and> valid_utf8 (fi_branch i) \<and> valid_utf8 (fi_task i)
     \<and> list_all valid_utf8 (fi_refs i)
     \<and> list_all (\<lambda>kv. valid_utf8 (fst kv) \<and> valid_utf8 (snd kv)) (fi_constraints i)
     \<and> valid_utf8 (normalize_external_context (fi_external i))"

lemma valid_utf8_ascii: "list_all (\<lambda>c. (of_char c :: nat) < 128) s \<Longrightarrow> valid_utf8 s"
proof -
  have "list_all (\<lambda>c. (of_char c :: nat) < 128) s \<Longrightarrow> length s \<le> k \<Longrightarrow> valid_utf8_fuel k s" for k
    by (induction k s rule: valid_utf8_fuel.induct) auto
  then show "list_all (\<lambda>c. (of_char c :: nat) < 128) s \<Longrightarrow> ?thesis"
    by (simp add: valid_utf8_def)
qed

lemma fingerprint_json_readable:
  "input_valid_utf8 i \<Longrightarrow> no_numbers (fingerprint_json (canonical_fingerprint i))"
  by (auto simp: input_valid_utf8_def canonical_fingerprint_def fingerprint_json_def fld_def
      opt_fld_def opt_str_def opt_strs_def list_all_iff sort_strings_def valid_utf8_ascii
      normalize_external_context_def Let_def split_def)

lemma fingerprint_json_inj: "fingerprint_json c = fingerprint_json c' \<Longrightarrow> c = c'"
proof -
  assume eq: "fingerprint_json c = fingerprint_json c'"
  have inj: "inj (\<lambda>(k, v). JObject (fld ''key'' (JString k) @ fld ''value'' (JString v)))"
    by (auto simp: inj_def fld_def)
  have "fi_session c = fi_session c'" "fi_branch c = fi_branch c'" "fi_task c = fi_task c'"
    "fi_refs c = fi_refs c'" "fi_constraints c = fi_constraints c'"
    "fi_allow_tools c = fi_allow_tools c'" "fi_external c = fi_external c'"
    using eq by (auto simp: fingerprint_json_def fld_def opt_fld_def opt_str_def opt_strs_def
        inj_map_eq_map [OF inj] inj_map_eq_map [of JString] inj_def split: if_splits)
  then show ?thesis by simp
qed

text \<open>
  C11. The hashed payload separates logically different requests: two requests of valid UTF-8 have
  the same payload only if their canonical forms agree in every field, so requests with different
  canonical forms share a fingerprint only through a collision of SHA-256 itself.
\<close>

theorem fingerprint_payload_injective:
  assumes "input_valid_utf8 i" and "input_valid_utf8 j"
  shows "fingerprint_payload i = fingerprint_payload j \<longleftrightarrow>
    fi_session i = fi_session j \<and> fi_branch i = fi_branch j \<and> fi_task i = fi_task j
    \<and> mset (fi_refs i) = mset (fi_refs j) \<and> mset (fi_constraints i) = mset (fi_constraints j)
    \<and> fi_allow_tools i = fi_allow_tools j \<and> trim_space (fi_external i) = trim_space (fi_external j)"
proof -
  let ?c = canonical_fingerprint
  have sorts: "go_sort constraint_pair_less xs = go_sort constraint_pair_less ys \<longleftrightarrow> mset xs = mset ys" for xs ys
    unfolding constraint_pair_less_eq go_sort_less_eq
    by (metis mset_sort properties_for_sort sorted_sort)
  have strs: "sort_strings xs = sort_strings ys \<longleftrightarrow> mset xs = mset ys" for xs ys
    by (metis sort_strings_eq mset_sort sort_strings_perm)
  have "fingerprint_payload i = fingerprint_payload j \<longleftrightarrow> ?c i = ?c j"
    using json_print_unique [OF fingerprint_json_readable [OF assms(1)] fingerprint_json_readable [OF assms(2)], of "[]" "[]"]
      fingerprint_json_inj by (auto simp: fingerprint_payload_def)
  also have "\<dots> \<longleftrightarrow> fi_session i = fi_session j \<and> fi_branch i = fi_branch j \<and> fi_task i = fi_task j
    \<and> mset (fi_refs i) = mset (fi_refs j) \<and> mset (fi_constraints i) = mset (fi_constraints j)
    \<and> fi_allow_tools i = fi_allow_tools j \<and> trim_space (fi_external i) = trim_space (fi_external j)"
    by (cases i; cases j)
       (auto simp: canonical_fingerprint_def normalize_external_context_def Let_def sorts strs)
  finally show ?thesis .
qed

theorem fingerprint_payload_injective_witness:
  "fingerprint_payload \<lparr>fi_session = ''s'', fi_branch = ''main'', fi_task = ''a'', fi_refs = [],
     fi_constraints = [], fi_allow_tools = False, fi_external = []\<rparr> \<noteq>
   fingerprint_payload \<lparr>fi_session = ''s'', fi_branch = ''main'', fi_task = ''b'', fi_refs = [],
     fi_constraints = [], fi_allow_tools = False, fi_external = []\<rparr>"
  by (subst fingerprint_payload_injective)
     (simp_all add: input_valid_utf8_def valid_utf8_ascii normalize_external_context_def)

subsection \<open>Coalescing requests in flight\<close>

text \<open>
  A \<open>call\<close> is a cell of the heap, pointed to by its index; tickets hold the pointer. \<open>Complete\<close>
  runs its body under \<open>once\<close>: it writes the outcome and closes the channel, and later, under the
  mutex, removes the key. The two parts are separate steps, since other goroutines may run between
  them. An outcome is the pair of value and error that \<open>Complete\<close> is given.
\<close>

datatype 'v phase = Pending | Published 'v | Retired 'v

record 'v call =
  cl_key :: string
  cl_phase :: "'v phase"

record ticket =
  tk_leader :: bool
  tk_call :: nat

record 'v inflight =
  if_calls :: "string \<rightharpoonup> nat"
  if_heap :: "'v call list"

definition new_inflight :: "'v inflight" where
  "new_inflight = \<lparr>if_calls = Map.empty, if_heap = []\<rparr>"

definition if_enter :: "string \<Rightarrow> 'v inflight \<Rightarrow> ticket \<times> 'v inflight" where
  "if_enter key s =
     (case if_calls s key of
        Some n \<Rightarrow> (\<lparr>tk_leader = False, tk_call = n\<rparr>, s)
      | None \<Rightarrow>
          let n = length (if_heap s) in
          (\<lparr>tk_leader = True, tk_call = n\<rparr>,
           s\<lparr>if_calls := (if_calls s)(key \<mapsto> n),
             if_heap := if_heap s @ [\<lparr>cl_key = key, cl_phase = Pending\<rparr>]\<rparr>))"

definition if_publish :: "ticket \<Rightarrow> 'v \<Rightarrow> 'v inflight \<Rightarrow> 'v inflight" where
  "if_publish t v s =
     (if \<not> tk_leader t then s
      else let c = if_heap s ! tk_call t in
      case cl_phase c of
        Pending \<Rightarrow> s\<lparr>if_heap := (if_heap s)[tk_call t := c\<lparr>cl_phase := Published v\<rparr>]\<rparr>
      | _ \<Rightarrow> s)"

definition if_remove :: "ticket \<Rightarrow> 'v inflight \<Rightarrow> 'v inflight" where
  "if_remove t s =
     (if \<not> tk_leader t then s
      else let c = if_heap s ! tk_call t in
      case cl_phase c of
        Published v \<Rightarrow>
          s\<lparr>if_heap := (if_heap s)[tk_call t := c\<lparr>cl_phase := Retired v\<rparr>],
            if_calls := (if_calls s)(cl_key c := None)\<rparr>
      | _ \<Rightarrow> s)"

definition if_complete :: "ticket \<Rightarrow> 'v \<Rightarrow> 'v inflight \<Rightarrow> 'v inflight" where
  "if_complete t v s = if_remove t (if_publish t v s)"

text \<open>
  The results \<open>WaitValue\<close> may return now: the outcome once the channel is closed, the context's
  error once the context is done, either if both; none while it blocks.
\<close>

definition if_wait :: "ctx \<Rightarrow> ticket \<Rightarrow> 'v inflight \<Rightarrow> (goerr + 'v) list" where
  "if_wait c t s =
     (case cl_phase (if_heap s ! tk_call t) of Pending \<Rightarrow> [] | Published v \<Rightarrow> [Inr v] | Retired v \<Rightarrow> [Inr v])
     @ (case c of None \<Rightarrow> [] | Some err \<Rightarrow> [Inl err])"

text \<open>The coalescer with the tickets it has handed out, in order.\<close>

inductive if_step :: "'v inflight \<times> ticket list \<Rightarrow> 'v inflight \<times> ticket list \<Rightarrow> bool" where
  enter: "if_enter key s = (t, s') \<Longrightarrow> if_step (s, ts) (s', ts @ [t])"
| publish: "t \<in> set ts \<Longrightarrow> if_step (s, ts) (if_publish t v s, ts)"
| remove: "t \<in> set ts \<Longrightarrow> if_step (s, ts) (if_remove t s, ts)"

inductive_cases if_stepE: "if_step w w'"

inductive if_reachable :: "'v inflight \<times> ticket list \<Rightarrow> bool" where
  start: "if_reachable (new_inflight, [])"
| step: "if_reachable w \<Longrightarrow> if_step w w' \<Longrightarrow> if_reachable w'"

definition open_call :: "'v call \<Rightarrow> bool" where
  "open_call c \<longleftrightarrow> (case cl_phase c of Retired v \<Rightarrow> False | _ \<Rightarrow> True)"

definition leader_calls :: "ticket list \<Rightarrow> nat list" where
  "leader_calls ts = map tk_call (filter tk_leader ts)"

text \<open>
  The map holds exactly the calls that are not retired, each under its key, and the leaders'
  tickets point to the calls in the order of their creation.
\<close>

definition if_inv :: "'v inflight \<times> ticket list \<Rightarrow> bool" where
  "if_inv w \<longleftrightarrow>
     (\<forall>key n. if_calls (fst w) key = Some n \<longleftrightarrow>
        n < length (if_heap (fst w)) \<and> cl_key (if_heap (fst w) ! n) = key
        \<and> open_call (if_heap (fst w) ! n))
     \<and> leader_calls (snd w) = [0..<length (if_heap (fst w))]
     \<and> (\<forall>t \<in> set (snd w). tk_call t < length (if_heap (fst w)))"

lemma if_inv_start: "if_inv (new_inflight, [])"
  by (simp add: if_inv_def new_inflight_def leader_calls_def)

lemma if_inv_enter:
  assumes "if_inv (s, ts)" and "if_enter key s = (t, s')"
  shows "if_inv (s', ts @ [t])"
proof (cases "if_calls s key")
  case (Some n)
  with assms show ?thesis by (auto simp: if_inv_def if_enter_def leader_calls_def)
next
  case None
  let ?n = "length (if_heap s)"
  have t: "t = \<lparr>tk_leader = True, tk_call = ?n\<rparr>"
    and s': "s' = s\<lparr>if_calls := (if_calls s)(key \<mapsto> ?n),
        if_heap := if_heap s @ [\<lparr>cl_key = key, cl_phase = Pending\<rparr>]\<rparr>"
    using assms(2) None by (auto simp: if_enter_def Let_def)
  have calls: "if_calls s k = Some m \<longleftrightarrow> m < ?n \<and> cl_key (if_heap s ! m) = k \<and> open_call (if_heap s ! m)" for k m
    using assms(1) by (simp add: if_inv_def)
  have "if_calls s' k = Some m \<longleftrightarrow> m < length (if_heap s') \<and> cl_key (if_heap s' ! m) = k \<and> open_call (if_heap s' ! m)"
    for k m
    using None calls [of k m] calls [of key m]
    by (auto simp: s' nth_append open_call_def less_Suc_eq)
  then show ?thesis
    using assms(1) by (auto simp: if_inv_def t s' leader_calls_def)
qed

lemma if_publish_heap:
  "length (if_heap (if_publish t v s)) = length (if_heap s)"
  "cl_key (if_heap (if_publish t v s) ! n) = cl_key (if_heap s ! n)"
  "open_call (if_heap (if_publish t v s) ! n) = open_call (if_heap s ! n)"
  "if_calls (if_publish t v s) = if_calls s"
  by (cases "n = tk_call t"; cases "n < length (if_heap s)";
      auto simp: if_publish_def Let_def open_call_def nth_list_update list_update_beyond split: phase.split)+

lemma if_inv_publish: "if_inv (s, ts) \<Longrightarrow> if_inv (if_publish t v s, ts)"
  by (simp add: if_inv_def if_publish_heap)

lemma if_inv_remove:
  assumes "if_inv (s, ts)" and "t \<in> set ts"
  shows "if_inv (if_remove t s, ts)"
proof (cases "tk_leader t \<and> (\<exists>v. cl_phase (if_heap s ! tk_call t) = Published v)")
  case False
  then have "if_remove t s = s" by (auto simp: if_remove_def Let_def split: phase.split)
  with assms show ?thesis by simp
next
  case True
  then obtain v where v: "tk_leader t" "cl_phase (if_heap s ! tk_call t) = Published v" by blast
  let ?n = "tk_call t" let ?c = "if_heap s ! ?n"
  have n: "?n < length (if_heap s)" using assms by (auto simp: if_inv_def)
  have eq: "if_remove t s = s\<lparr>if_heap := (if_heap s)[?n := ?c\<lparr>cl_phase := Retired v\<rparr>],
      if_calls := (if_calls s)(cl_key ?c := None)\<rparr>"
    using v by (simp add: if_remove_def Let_def)
  have calls: "if_calls s k = Some m \<longleftrightarrow>
      m < length (if_heap s) \<and> cl_key (if_heap s ! m) = k \<and> open_call (if_heap s ! m)" for k m
    using assms(1) by (simp add: if_inv_def)
  have self: "if_calls s (cl_key ?c) = Some ?n"
    using calls n v(2) by (simp add: open_call_def)
  have "if_calls (if_remove t s) k = Some m \<longleftrightarrow> m < length (if_heap (if_remove t s))
      \<and> cl_key (if_heap (if_remove t s) ! m) = k \<and> open_call (if_heap (if_remove t s) ! m)" for k m
    using calls [of k m] self n by (auto simp: eq nth_list_update open_call_def)
  then show ?thesis
    using assms(1) by (auto simp: if_inv_def eq)
qed

lemma if_reachable_inv: "if_reachable w \<Longrightarrow> if_inv w"
proof (induction rule: if_reachable.induct)
  case start
  show ?case by (rule if_inv_start)
next
  case (step w w')
  from step(2,3) show ?case
    by (cases rule: if_step.cases) (auto intro: if_inv_enter if_inv_publish if_inv_remove)
qed

text \<open>
  One leader at a time: in every reachable state, of two tickets that lead calls under the same
  key at least one belongs to a call that is finished and out of the map, unless they are the same
  ticket.
\<close>

theorem inflight_single_leader:
  assumes "if_reachable (s, ts)" and "i < length ts" and "j < length ts"
    and "tk_leader (ts ! i)" and "tk_leader (ts ! j)"
    and "open_call (if_heap s ! tk_call (ts ! i))" and "open_call (if_heap s ! tk_call (ts ! j))"
    and "cl_key (if_heap s ! tk_call (ts ! i)) = cl_key (if_heap s ! tk_call (ts ! j))"
  shows "i = j"
proof -
  have inv: "if_inv (s, ts)" using assms(1) by (rule if_reachable_inv)
  then have calls: "if_calls s (cl_key (if_heap s ! tk_call t)) = Some (tk_call t)"
    if "t \<in> set ts" "open_call (if_heap s ! tk_call t)" for t
    using that by (simp add: if_inv_def)
  have "Some (tk_call (ts ! i)) = Some (tk_call (ts ! j))"
    unfolding calls [OF nth_mem [OF assms(2)] assms(6), symmetric]
      calls [OF nth_mem [OF assms(3)] assms(7), symmetric] by (simp only: assms(8))
  then have same: "tk_call (ts ! i) = tk_call (ts ! j)" by simp
  have "distinct (map tk_call (filter tk_leader ts))"
    using inv by (simp add: if_inv_def leader_calls_def)
  from distinct_map_filter_nth [OF this assms(2-5) same] show ?thesis .
qed

lemma if_wait_publish:
  "x \<in> set (if_wait None t s) \<Longrightarrow> x \<in> set (if_wait None t (if_publish u v s))"
  by (cases "tk_call t = tk_call u"; cases "tk_call t < length (if_heap s)")
     (auto simp: if_wait_def if_publish_def Let_def nth_list_update list_update_beyond split: phase.splits)

lemma if_wait_remove: "if_wait c t (if_remove u s) = if_wait c t s"
  by (cases "tk_call t = tk_call u"; cases "tk_call t < length (if_heap s)")
     (auto simp: if_wait_def if_remove_def Let_def nth_list_update list_update_beyond split: phase.splits)

text \<open>
  A published outcome is final: once a ticket's wait may return an outcome, it returns that same
  outcome after any further steps of any of the callers, a second \<open>Complete\<close> included.
\<close>

theorem inflight_outcome_stable:
  assumes "if_reachable (s, ts)" and "t \<in> set ts" and "if_wait None t s = [x]"
    and "if_step\<^sup>*\<^sup>* (s, ts) (s', ts')"
  shows "if_wait None t s' = [x]"
proof -
  have "if_reachable w \<and> t \<in> set (snd w) \<and> if_wait None t (fst w) = [x]"
    if "if_step\<^sup>*\<^sup>* (s, ts) w" for w
    using that
  proof (induction rule: rtranclp_induct)
    case base
    show ?case using assms(1-3) by simp
  next
    case (step w w')
    obtain r us where w: "w = (r, us)" by (cases w)
    have r: "if_reachable w'" using step by (blast intro: if_reachable.step)
    have n: "tk_call t < length (if_heap r)"
      using if_reachable_inv [of w] step.IH by (auto simp: if_inv_def w)
    have "t \<in> set (snd w') \<and> if_wait None t (fst w') = [x]"
      using step.hyps(2) step.IH unfolding w
    proof (cases rule: if_step.cases)
      case (enter key u r')
      then show ?thesis
        using step.IH n by (auto simp: w if_enter_def Let_def if_wait_def nth_append split: option.splits)
    next
      case (publish u v)
      then have "x \<in> set (if_wait None t (fst w'))"
        using if_wait_publish [of x t r] step.IH w by simp
      moreover have "length (if_wait None t (fst w')) \<le> 1"
        by (simp add: if_wait_def split: phase.split)
      ultimately have "if_wait None t (fst w') = [x]"
        by (cases "if_wait None t (fst w')") auto
      with publish step.IH w show ?thesis by simp
    next
      case (remove u)
      with step.IH w show ?thesis by (simp add: if_wait_remove)
    qed
    with r show ?case by simp
  qed
  from this [OF assms(4)] show ?thesis by simp
qed

text \<open>
  A leader's \<open>Complete\<close> releases everyone: every ticket of its call then returns the leader's
  outcome, and the key is free, so the next \<open>Enter\<close> leads a new call.
\<close>

theorem inflight_complete_releases:
  assumes "if_reachable (s, ts)" and "t \<in> set ts" and "tk_leader t"
    and "cl_phase (if_heap s ! tk_call t) = Pending"
    and "u \<in> set ts" and "tk_call u = tk_call t"
  shows "if_wait None u (if_complete t v s) = [Inr v]
    \<and> tk_leader (fst (if_enter (cl_key (if_heap s ! tk_call t)) (if_complete t v s)))"
proof -
  have n: "tk_call t < length (if_heap s)"
    using if_reachable_inv [OF assms(1)] assms(2) by (auto simp: if_inv_def)
  then have "cl_phase (if_heap (if_publish t v s) ! tk_call t) = Published v"
    using assms(3,4) by (simp add: if_publish_def Let_def)
  then show ?thesis
    using n assms(3,6) by (simp add: if_complete_def if_remove_def Let_def if_wait_def if_publish_heap if_enter_def)
qed

subsection \<open>Instances\<close>

definition one_call :: "nat inflight" where
  "one_call = \<lparr>if_calls = [''k'' \<mapsto> 0], if_heap = [\<lparr>cl_key = ''k'', cl_phase = Pending\<rparr>]\<rparr>"

definition two_tickets :: "ticket list" where
  "two_tickets = [\<lparr>tk_leader = True, tk_call = 0\<rparr>, \<lparr>tk_leader = False, tk_call = 0\<rparr>]"

lemma one_call_reachable: "if_reachable (one_call, two_tickets)"
proof -
  have "if_step (new_inflight, []) (one_call, [] @ [\<lparr>tk_leader = True, tk_call = 0\<rparr>])"
    by (rule if_step.enter [of "''k''"]) (simp add: if_enter_def new_inflight_def one_call_def)
  then have 1: "if_reachable (one_call, [\<lparr>tk_leader = True, tk_call = 0\<rparr>])"
    using if_reachable.start if_reachable.step by fastforce
  have "if_step (one_call, [\<lparr>tk_leader = True, tk_call = 0\<rparr>])
      (one_call, [\<lparr>tk_leader = True, tk_call = 0\<rparr>] @ [\<lparr>tk_leader = False, tk_call = 0\<rparr>])"
    by (rule if_step.enter [of "''k''"]) (simp add: if_enter_def one_call_def)
  with 1 show ?thesis by (simp add: two_tickets_def if_reachable.step)
qed

theorem inflight_complete_releases_witness:
  "if_wait None (two_tickets ! 1) (if_complete (two_tickets ! 0) 7 one_call) = [Inr 7]"
  using inflight_complete_releases [OF one_call_reachable, of "two_tickets ! 0" "two_tickets ! 1" 7]
  by (simp add: two_tickets_def one_call_def)

lemma one_call_published:
  "if_reachable (if_publish (two_tickets ! 0) 7 one_call, two_tickets)"
  by (rule if_reachable.step [OF one_call_reachable], rule if_step.publish) (simp add: two_tickets_def)

theorem inflight_outcome_stable_witness:
  "if_wait None (two_tickets ! 1)
     (if_publish (two_tickets ! 0) 8 (if_publish (two_tickets ! 0) 7 one_call)) = [Inr 7]"
  by (rule inflight_outcome_stable [OF one_call_published _ _ r_into_rtranclp, OF _ _ if_step.publish])
     (simp_all add: two_tickets_def one_call_def if_wait_def if_publish_def)

theorem inflight_single_leader_witness:
  "\<not> (\<exists>i j. i < 2 \<and> j < 2 \<and> i \<noteq> j \<and> tk_leader (two_tickets ! i) \<and> tk_leader (two_tickets ! j))"
proof
  assume "\<exists>i j. i < 2 \<and> j < 2 \<and> i \<noteq> j \<and> tk_leader (two_tickets ! i) \<and> tk_leader (two_tickets ! j)"
  then obtain i j where ij: "i < 2" "j < 2" "i \<noteq> j" "tk_leader (two_tickets ! i)" "tk_leader (two_tickets ! j)"
    by blast
  have "i = j"
    by (rule inflight_single_leader [OF one_call_reachable])
       (use ij in \<open>auto simp: two_tickets_def one_call_def open_call_def less_2_cases_iff\<close>)
  with ij(3) show False ..
qed

end
