(* ===== verification/Preflight.thy ===== *)
theory Preflight
  imports Consult
begin

text \<open>
  Package \<open>internal/preflight\<close>: turning boundary input into a typed result that is malformed,
  unresolved or resolved.
\<close>

record preflight_input =
  pi_mode :: string
  pi_scope :: string
  pi_allow_execution :: bool
  pi_allow_tools :: bool
  pi_refs :: "string list"
  pi_constraints :: string_map
  pi_reason :: string

record preflight_result =
  pr_mode :: string
  pr_resolved :: bool
  pr_missing :: "string list"
  pr_scope :: string
  pr_allow_execution :: bool
  pr_allow_tools :: bool
  pr_refs :: "string list"
  pr_constraints :: string_map
  pr_reason :: string

definition preflight_ErrMalformedInput :: goerr where
  "preflight_ErrMalformedInput =
     Sentinel ''preflight.ErrMalformedInput'' ''malformed preflight input''"

definition preflight_normalize_refs :: "string list \<Rightarrow> string list option" where
  "preflight_normalize_refs refs =
     (if list_ex (\<lambda>r. trim_space r = []) refs then None
      else Some (sort_strings (map trim_space refs)))"

text \<open>The same loop as in package \<open>consult\<close>, where an empty key is an error.\<close>

definition preflight_normalize_constraints :: "string_map \<Rightarrow> string_map option" where
  "preflight_normalize_constraints m = normalize_constraints_from [] m"

definition preflight_validate :: "preflight_input \<Rightarrow> preflight_result \<times> goerr option" where
  "preflight_validate inp =
     (let r0 = \<lparr>pr_mode = trim_space (pi_mode inp), pr_resolved = False, pr_missing = [],
                pr_scope = trim_space (pi_scope inp), pr_allow_execution = pi_allow_execution inp,
                pr_allow_tools = pi_allow_tools inp, pr_refs = [], pr_constraints = [],
                pr_reason = trim_space (pi_reason inp)\<rparr> in
      if pr_mode r0 = [] then
        (r0\<lparr>pr_missing := [''mode''],
            pr_reason := (if pr_reason r0 = [] then ''malformed boundary input'' else pr_reason r0)\<rparr>,
         Some preflight_ErrMalformedInput)
      else case preflight_normalize_refs (pi_refs inp) of
        None \<Rightarrow> (r0\<lparr>pr_reason := ''invalid refs''\<rparr>, Some preflight_ErrMalformedInput)
      | Some refs \<Rightarrow>
      let r1 = r0\<lparr>pr_refs := refs\<rparr> in
      case preflight_normalize_constraints (pi_constraints inp) of
        None \<Rightarrow> (r1\<lparr>pr_reason := ''invalid constraints''\<rparr>, Some preflight_ErrMalformedInput)
      | Some cs \<Rightarrow>
      let missing = sort_strings (if pr_scope r1 = [] then [''scope''] else []);
          r2 = r1\<lparr>pr_constraints := cs, pr_missing := missing, pr_resolved := length missing = 0\<rparr>
      in (r2\<lparr>pr_reason := (if pr_reason r2 = []
                            then (if pr_resolved r2 then ''resolved'' else ''unresolved intent'')
                            else pr_reason r2)\<rparr>, None))"

text \<open>
  Preflight has exactly three outcomes. The input is malformed exactly when the mode, some
  reference or some constraint key is blank, and then the result is never marked resolved;
  otherwise it is resolved exactly when a scope is given, and an unresolved result names the scope
  as missing. A reason is always given.
\<close>

theorem preflight_validate_outcomes:
  "let (r, err) = preflight_validate inp;
       bad = (trim_space (pi_mode inp) = [] \<or> list_ex (\<lambda>x. trim_space x = []) (pi_refs inp)
              \<or> list_ex (\<lambda>kv. trim_space (fst kv) = []) (pi_constraints inp))
   in err = (if bad then Some preflight_ErrMalformedInput else None)
      \<and> pr_resolved r = (\<not> bad \<and> trim_space (pi_scope inp) \<noteq> [])
      \<and> pr_reason r \<noteq> []
      \<and> (if bad then pr_missing r = (if trim_space (pi_mode inp) = [] then [''mode''] else [])
         else pr_missing r = (if trim_space (pi_scope inp) = [] then [''scope''] else [])
              \<and> pr_refs r = sort (map trim_space (pi_refs inp)))"
proof -
  have refs: "preflight_normalize_refs rs =
      (if list_ex (\<lambda>x. trim_space x = []) rs then None else Some (sort (map trim_space rs)))" for rs
    by (simp add: preflight_normalize_refs_def sort_strings_eq)
  show ?thesis
    using normalize_constraints_from_None_iff [of "[]" "pi_constraints inp"]
    by (cases "normalize_constraints_from [] (pi_constraints inp)")
       (auto simp: preflight_validate_def preflight_normalize_constraints_def refs Let_def sort_strings_eq)
qed

text \<open>
  Validation is idempotent on its own output: feeding the normalised fields of an accepted
  result back in gives the same references, the same scope and the same verdict.
\<close>

theorem preflight_validate_idempotent:
  assumes "preflight_validate inp = (r, None)"
  shows "\<exists>r'. preflight_validate \<lparr>pi_mode = pr_mode r, pi_scope = pr_scope r,
      pi_allow_execution = pr_allow_execution r, pi_allow_tools = pr_allow_tools r,
      pi_refs = pr_refs r, pi_constraints = pr_constraints r, pi_reason = pr_reason r\<rparr> = (r', None)
    \<and> pr_mode r' = pr_mode r \<and> pr_scope r' = pr_scope r \<and> pr_refs r' = pr_refs r
    \<and> pr_resolved r' = pr_resolved r \<and> pr_missing r' = pr_missing r"
proof -
  obtain refs cs where m: "trim_space (pi_mode inp) \<noteq> []"
    and refs: "preflight_normalize_refs (pi_refs inp) = Some refs"
    and cs: "normalize_constraints_from [] (pi_constraints inp) = Some cs"
    using assms by (auto simp: preflight_validate_def preflight_normalize_constraints_def Let_def
        split: if_splits option.splits)
  have r: "pr_mode r = trim_space (pi_mode inp)" "pr_scope r = trim_space (pi_scope inp)"
    "pr_refs r = refs" "pr_constraints r = cs"
    "pr_missing r = sort_strings (if trim_space (pi_scope inp) = [] then [''scope''] else [])"
    "pr_resolved r = (length (pr_missing r) = 0)"
    using assms m refs cs
    by (auto simp: preflight_validate_def preflight_normalize_constraints_def Let_def)
  have eq: "refs = sort (map trim_space (pi_refs inp))" and ne: "\<forall>x \<in> set (pi_refs inp). trim_space x \<noteq> []"
    using refs by (auto simp: preflight_normalize_refs_def sort_strings_eq list_ex_iff split: if_splits)
  have "map trim_space refs = refs"
    by (rule map_idI) (auto simp: eq)
  moreover have "\<not> list_ex (\<lambda>x. trim_space x = []) refs" "sort refs = refs"
    using ne by (auto simp: eq list_ex_iff sorted_sort_id)
  ultimately have refs2: "preflight_normalize_refs refs = Some refs"
    by (simp add: preflight_normalize_refs_def sort_strings_eq)
  have "\<forall>kv \<in> set out. trim_space (fst kv) \<noteq> [] \<Longrightarrow> normalize_constraints_from out m = Some out' \<Longrightarrow>
      \<forall>kv \<in> set out'. trim_space (fst kv) \<noteq> []" for out m out'
  proof (induction m arbitrary: out)
    case (Cons kv m)
    obtain k v where kv: "kv = (k, v)" by (cases kv)
    have "\<forall>x \<in> set (AList.update (trim_space k) (trim_space v) out). trim_space (fst x) \<noteq> []"
      if "trim_space k \<noteq> []"
      using Cons.prems(1) that by (induction out) auto
    with Cons kv show ?case by (auto simp: Let_def split: if_splits)
  qed simp
  from this [of "[]" "pi_constraints inp" cs] cs
  have "normalize_constraints_from [] cs \<noteq> None"
    by (auto simp: normalize_constraints_from_None_iff list_ex_iff)
  then obtain cs' where "normalize_constraints_from [] cs = Some cs'" by blast
  with m r refs2 show ?thesis
    by (simp add: preflight_validate_def preflight_normalize_constraints_def Let_def)
qed

theorem preflight_validate_idempotent_witness:
  "\<exists>r r'. preflight_validate \<lparr>pi_mode = ''agent_call'', pi_scope = ''main'', pi_allow_execution = True,
      pi_allow_tools = False, pi_refs = [''b''], pi_constraints = [], pi_reason = []\<rparr> = (r, None)
    \<and> preflight_validate \<lparr>pi_mode = pr_mode r, pi_scope = pr_scope r,
      pi_allow_execution = pr_allow_execution r, pi_allow_tools = pr_allow_tools r,
      pi_refs = pr_refs r, pi_constraints = pr_constraints r, pi_reason = pr_reason r\<rparr> = (r', None)"
proof -
  have "trim_space ''agent_call'' = ''agent_call''" "trim_space ''b'' = ''b''" by code_simp+
  then have "\<exists>r. preflight_validate \<lparr>pi_mode = ''agent_call'', pi_scope = ''main'', pi_allow_execution = True,
      pi_allow_tools = False, pi_refs = [''b''], pi_constraints = [], pi_reason = []\<rparr> = (r, None)"
    by (simp add: preflight_validate_def preflight_normalize_refs_def preflight_normalize_constraints_def Let_def)
  then show ?thesis using preflight_validate_idempotent by blast
qed

end
