(* ===== verification/Metrics.thy ===== *)
theory Metrics
  imports Backend "HOL-Library.Word"
begin

text \<open>
  Package \<open>internal/metrics\<close>: the registry of counters and timings the server reports. A nil registry
  is \<open>None\<close>: every method on it returns at once. Counters are 64-bit words, which wrap as Go's
  \<open>int64\<close> does; \<open>float64\<close> is modelled by exact rationals, so rounding is not. A duration is its
  number of nanoseconds. Every method holds the registry's mutex for its whole body.
\<close>

subsection \<open>Types\<close>

type_synonym counter = "64 word"
type_synonym counters = "string \<rightharpoonup> counter"

record timing_stat =
  tg_count :: counter
  tg_total :: rat
  tg_avg :: rat
  tg_max :: rat

record bytes_stat =
  by_count :: counter
  by_total :: counter
  by_avg :: rat
  by_max :: int

record registry =
  mr_requests :: counters
  mr_errors :: counters
  mr_rejections :: counter
  mr_stages :: counters
  mr_inclusions :: counters
  mr_exclusions :: counters
  mr_pressure :: counter
  mr_recovery_attempts :: counter
  mr_recovery_success :: counter
  mr_dreams :: counter
  mr_compactions :: counter
  mr_ratio_total :: rat
  mr_ratio_count :: counter
  mr_hit_total :: rat
  mr_hit_count :: counter
  mr_latencies :: "string \<rightharpoonup> timing_stat"
  mr_backend_ops :: "string \<rightharpoonup> timing_stat"
  mr_envelope :: bytes_stat
  mr_body :: bytes_stat
  mr_backend_mode :: string
  mr_model_mode :: string

record snapshot =
  ms_requests :: counters
  ms_errors :: counters
  ms_rejections :: counter
  ms_stages :: counters
  ms_inclusions :: counters
  ms_exclusions :: counters
  ms_pressure :: counter
  ms_latencies :: "string \<rightharpoonup> timing_stat"
  ms_backend_ops :: "string \<rightharpoonup> timing_stat"
  ms_envelope :: bytes_stat
  ms_body :: bytes_stat
  ms_backend_mode :: string
  ms_model_mode :: string
  ms_recovery_rate :: rat
  ms_dream_frequency :: rat
  ms_compaction_ratio :: rat
  ms_cache_hit_rate :: rat
  ms_recovery_attempts :: counter
  ms_dreams :: counter
  ms_compactions :: counter

definition zero_timing :: timing_stat where
  "zero_timing = \<lparr>tg_count = 0, tg_total = 0, tg_avg = 0, tg_max = 0\<rparr>"

definition zero_bytes :: bytes_stat where
  "zero_bytes = \<lparr>by_count = 0, by_total = 0, by_avg = 0, by_max = 0\<rparr>"

definition new_registry :: registry where
  "new_registry = \<lparr>mr_requests = Map.empty, mr_errors = Map.empty, mr_rejections = 0,
     mr_stages = Map.empty, mr_inclusions = Map.empty, mr_exclusions = Map.empty, mr_pressure = 0,
     mr_recovery_attempts = 0, mr_recovery_success = 0, mr_dreams = 0, mr_compactions = 0,
     mr_ratio_total = 0, mr_ratio_count = 0, mr_hit_total = 0, mr_hit_count = 0,
     mr_latencies = Map.empty, mr_backend_ops = Map.empty, mr_envelope = zero_bytes, mr_body = zero_bytes,
     mr_backend_mode = [], mr_model_mode = []\<rparr>"

definition empty_snapshot :: snapshot where
  "empty_snapshot = \<lparr>ms_requests = Map.empty, ms_errors = Map.empty, ms_rejections = 0,
     ms_stages = Map.empty, ms_inclusions = Map.empty, ms_exclusions = Map.empty, ms_pressure = 0,
     ms_latencies = Map.empty, ms_backend_ops = Map.empty, ms_envelope = zero_bytes, ms_body = zero_bytes,
     ms_backend_mode = [], ms_model_mode = [], ms_recovery_rate = 0, ms_dream_frequency = 0,
     ms_compaction_ratio = 0, ms_cache_hit_rate = 0, ms_recovery_attempts = 0, ms_dreams = 0,
     ms_compactions = 0\<rparr>"

subsection \<open>Counting\<close>

text \<open>\<open>m[key] += delta\<close>: a missing key counts as 0.\<close>

definition add_to :: "string \<Rightarrow> counter \<Rightarrow> counters \<Rightarrow> counters" where
  "add_to k d m = m(k \<mapsto> (case m k of None \<Rightarrow> 0 | Some n \<Rightarrow> n) + d)"

definition set_modes :: "string \<Rightarrow> string \<Rightarrow> registry option \<Rightarrow> registry option" where
  "set_modes b m = map_option (\<lambda>r. r\<lparr>mr_backend_mode := b, mr_model_mode := m\<rparr>)"

definition inc_request :: "string \<Rightarrow> registry option \<Rightarrow> registry option" where
  "inc_request route = map_option (\<lambda>r. r\<lparr>mr_requests := add_to route 1 (mr_requests r)\<rparr>)"

definition inc_error :: "string \<Rightarrow> registry option \<Rightarrow> registry option" where
  "inc_error route = map_option (\<lambda>r. r\<lparr>mr_errors := add_to route 1 (mr_errors r)\<rparr>)"

definition inc_packet_budget_rejection :: "registry option \<Rightarrow> registry option" where
  "inc_packet_budget_rejection = map_option (\<lambda>r. r\<lparr>mr_rejections := mr_rejections r + 1\<rparr>)"

text \<open>\<open>itoa\<close>: negating the smallest \<open>int\<close> gives it back, and then the loop does not run.\<close>

function itoa_digits :: "int \<Rightarrow> string \<Rightarrow> string" where
  "itoa_digits n buf = (if n > 0 then itoa_digits (n div 10) (digit_char (nat (n mod 10)) # buf) else buf)"
  by pat_completeness auto
termination by (relation "measure (\<lambda>(n, buf). nat n)") auto

declare itoa_digits.simps [simp del]

definition itoa :: "int \<Rightarrow> string" where
  "itoa n =
     (if n = 0 then ''0''
      else let ds = itoa_digits (if n < 0 then wrap64 (- n) else n) [] in
      if n < 0 then CHR ''-'' # ds else ds)"

definition inc_compaction_stage :: "int \<Rightarrow> registry option \<Rightarrow> registry option" where
  "inc_compaction_stage stage =
     map_option (\<lambda>r. r\<lparr>mr_stages := add_to (''stage_'' @ itoa stage) 1 (mr_stages r)\<rparr>)"

definition inc_selector_inclusion :: "string \<Rightarrow> int \<Rightarrow> registry option \<Rightarrow> registry option" where
  "inc_selector_inclusion reason delta =
     map_option (\<lambda>r. if reason = [] \<or> delta \<le> 0 then r
       else r\<lparr>mr_inclusions := add_to reason (of_int delta) (mr_inclusions r)\<rparr>)"

definition inc_selector_exclusion :: "string \<Rightarrow> int \<Rightarrow> registry option \<Rightarrow> registry option" where
  "inc_selector_exclusion reason delta =
     map_option (\<lambda>r. if reason = [] \<or> delta \<le> 0 then r
       else r\<lparr>mr_exclusions := add_to reason (of_int delta) (mr_exclusions r)\<rparr>)"

definition inc_selector_pressure :: "registry option \<Rightarrow> registry option" where
  "inc_selector_pressure = map_option (\<lambda>r. r\<lparr>mr_pressure := mr_pressure r + 1\<rparr>)"

definition inc_recovery_attempt :: "registry option \<Rightarrow> registry option" where
  "inc_recovery_attempt = map_option (\<lambda>r. r\<lparr>mr_recovery_attempts := mr_recovery_attempts r + 1\<rparr>)"

definition inc_recovery_success :: "registry option \<Rightarrow> registry option" where
  "inc_recovery_success = map_option (\<lambda>r. r\<lparr>mr_recovery_success := mr_recovery_success r + 1\<rparr>)"

definition inc_dream_execution :: "registry option \<Rightarrow> registry option" where
  "inc_dream_execution = map_option (\<lambda>r. r\<lparr>mr_dreams := mr_dreams r + 1\<rparr>)"

definition inc_compaction :: "registry option \<Rightarrow> registry option" where
  "inc_compaction = map_option (\<lambda>r. r\<lparr>mr_compactions := mr_compactions r + 1\<rparr>)"

subsection \<open>Observing\<close>

definition observe_compaction_ratio :: "rat \<Rightarrow> registry option \<Rightarrow> registry option" where
  "observe_compaction_ratio q = map_option (\<lambda>r. r\<lparr>mr_ratio_total := mr_ratio_total r + q,
     mr_ratio_count := mr_ratio_count r + 1\<rparr>)"

definition observe_cache_hit_rate :: "rat \<Rightarrow> registry option \<Rightarrow> registry option" where
  "observe_cache_hit_rate q = map_option (\<lambda>r. r\<lparr>mr_hit_total := mr_hit_total r + q,
     mr_hit_count := mr_hit_count r + 1\<rparr>)"

text \<open>\<open>float64(d.Microseconds()) / 1000.0\<close>, where \<open>Microseconds\<close> drops the fraction.\<close>

definition millis :: "int \<Rightarrow> rat" where
  "millis d = of_int (if 0 \<le> d then d div 1000 else - (- d div 1000)) / 1000"

definition observe_timing :: "rat \<Rightarrow> timing_stat \<Rightarrow> timing_stat" where
  "observe_timing v t =
     (let t1 = t\<lparr>tg_count := tg_count t + 1, tg_total := tg_total t + v,
                 tg_max := (if v > tg_max t then v else tg_max t)\<rparr>
      in t1\<lparr>tg_avg := tg_total t1 / of_int (sint (tg_count t1))\<rparr>)"

definition observe_named :: "string \<Rightarrow> rat \<Rightarrow> (string \<rightharpoonup> timing_stat) \<Rightarrow> (string \<rightharpoonup> timing_stat)" where
  "observe_named k v m = m(k \<mapsto> observe_timing v (case m k of None \<Rightarrow> zero_timing | Some t \<Rightarrow> t))"

definition observe_latency :: "string \<Rightarrow> int \<Rightarrow> registry option \<Rightarrow> registry option" where
  "observe_latency k d = map_option (\<lambda>r. r\<lparr>mr_latencies := observe_named k (millis d) (mr_latencies r)\<rparr>)"

definition observe_backend_op :: "string \<Rightarrow> int \<Rightarrow> registry option \<Rightarrow> registry option" where
  "observe_backend_op k d = map_option (\<lambda>r. r\<lparr>mr_backend_ops := observe_named k (millis d) (mr_backend_ops r)\<rparr>)"

definition observe_bytes :: "int \<Rightarrow> bytes_stat \<Rightarrow> bytes_stat" where
  "observe_bytes n b =
     (let b1 = b\<lparr>by_count := by_count b + 1, by_total := by_total b + of_int n,
                 by_max := (if n > by_max b then n else by_max b)\<rparr>
      in b1\<lparr>by_avg := of_int (sint (by_total b1)) / of_int (sint (by_count b1))\<rparr>)"

definition observe_envelope_bytes :: "int \<Rightarrow> registry option \<Rightarrow> registry option" where
  "observe_envelope_bytes n = map_option (\<lambda>r. r\<lparr>mr_envelope := observe_bytes n (mr_envelope r)\<rparr>)"

definition observe_body_bytes :: "int \<Rightarrow> registry option \<Rightarrow> registry option" where
  "observe_body_bytes n = map_option (\<lambda>r. r\<lparr>mr_body := observe_bytes n (mr_body r)\<rparr>)"

subsection \<open>Reporting\<close>

definition recovery_rate :: "registry \<Rightarrow> rat" where
  "recovery_rate r = (if mr_recovery_attempts r = 0 then 0
     else of_int (sint (mr_recovery_success r)) / of_int (sint (mr_recovery_attempts r)))"

definition dream_frequency :: "registry \<Rightarrow> rat" where
  "dream_frequency r = of_int (sint (mr_dreams r))"

definition compaction_ratio :: "registry \<Rightarrow> rat" where
  "compaction_ratio r = (if mr_ratio_count r = 0 then 0
     else mr_ratio_total r / of_int (sint (mr_ratio_count r)))"

definition cache_hit_rate :: "registry \<Rightarrow> rat" where
  "cache_hit_rate r = (if mr_hit_count r = 0 then 0
     else mr_hit_total r / of_int (sint (mr_hit_count r)))"

text \<open>\<open>Snapshot\<close>: the maps are copied, so later updates of the registry do not show in it.\<close>

definition take_snapshot :: "registry option \<Rightarrow> snapshot" where
  "take_snapshot reg = (case reg of None \<Rightarrow> empty_snapshot | Some r \<Rightarrow>
     \<lparr>ms_requests = mr_requests r, ms_errors = mr_errors r, ms_rejections = mr_rejections r,
      ms_stages = mr_stages r, ms_inclusions = mr_inclusions r, ms_exclusions = mr_exclusions r,
      ms_pressure = mr_pressure r, ms_latencies = mr_latencies r, ms_backend_ops = mr_backend_ops r,
      ms_envelope = mr_envelope r, ms_body = mr_body r, ms_backend_mode = mr_backend_mode r,
      ms_model_mode = mr_model_mode r, ms_recovery_rate = recovery_rate r,
      ms_dream_frequency = dream_frequency r, ms_compaction_ratio = compaction_ratio r,
      ms_cache_hit_rate = cache_hit_rate r, ms_recovery_attempts = mr_recovery_attempts r,
      ms_dreams = mr_dreams r, ms_compactions = mr_compactions r\<rparr>)"

subsection \<open>Decimal digits\<close>

lemma nat_str_0: "nat_str 0 = ''0''"
  by code_simp

lemma itoa_digits_nat_str: "itoa_digits n buf = (if n \<le> 0 then buf else nat_str (nat n) @ buf)"
proof (induction n buf rule: itoa_digits.induct)
  case (1 n buf)
  show ?case
  proof (cases "n < 10")
    case True
    then have "n div 10 \<le> 0" by linarith
    then show ?thesis
      using 1 True by (subst itoa_digits.simps, subst nat_str.simps) (simp add: nat_less_iff max_def)
  next
    case False
    then have "nat (n div 10) = nat n div 10" "nat (n mod 10) = nat n mod 10" "\<not> n div 10 \<le> 0"
      using False by (simp_all add: nat_div_distrib nat_mod_distrib)
    with 1 False show ?thesis
      by (subst itoa_digits.simps, subst nat_str.simps) (simp add: nat_less_iff)
  qed
qed

text \<open>
  The registry's own integer printing agrees with decimal notation on every 64-bit \<open>int\<close> but
  one: the smallest, whose negation overflows back to itself, is printed as a lone minus sign.
\<close>

theorem itoa_decimal:
  assumes "- (2 ^ 63) \<le> n" and "n < 2 ^ 63"
  shows "itoa n = (if n = - (2 ^ 63) then ''-'' else int_str n)"
proof (cases "n = - (2 ^ 63)")
  case True
  then show ?thesis by (simp add: itoa_def wrap64_def itoa_digits_nat_str)
next
  case False
  with assms have "wrap64 (- n) = - n" if "n < 0" using that by (simp add: wrap64_def)
  with False show ?thesis
    by (cases "n = 0") (auto simp: itoa_def int_str_def itoa_digits_nat_str nat_str_0)
qed

theorem itoa_decimal_witness: "itoa (- 42) = ''-42''"
proof -
  have "int_str (- 42) = ''-42''" by code_simp
  then show ?thesis by (subst itoa_decimal) simp_all
qed

subsection \<open>What the registry accounts for\<close>

text \<open>Everything the program does to a registry, one constructor for each method that updates it.\<close>

datatype metric_op =
    SetModes string string
  | IncRequest string
  | IncError string
  | IncPacketBudgetRejection
  | IncCompactionStage int
  | IncSelectorInclusionReason string int
  | IncSelectorExclusionReason string int
  | IncSelectorBudgetPressure
  | IncRecoveryAttempt
  | IncRecoverySuccess
  | IncDreamExecution
  | IncCompaction
  | ObserveCompactionRatio rat
  | ObserveCacheHitRate rat
  | ObserveLatency string int
  | ObserveBackendOp string int
  | ObserveEnvelopeBytes int
  | ObserveBodyBytes int

fun metric_step :: "registry option \<Rightarrow> metric_op \<Rightarrow> registry option" where
  "metric_step r (SetModes b m) = set_modes b m r"
| "metric_step r (IncRequest k) = inc_request k r"
| "metric_step r (IncError k) = inc_error k r"
| "metric_step r IncPacketBudgetRejection = inc_packet_budget_rejection r"
| "metric_step r (IncCompactionStage n) = inc_compaction_stage n r"
| "metric_step r (IncSelectorInclusionReason k d) = inc_selector_inclusion k d r"
| "metric_step r (IncSelectorExclusionReason k d) = inc_selector_exclusion k d r"
| "metric_step r IncSelectorBudgetPressure = inc_selector_pressure r"
| "metric_step r IncRecoveryAttempt = inc_recovery_attempt r"
| "metric_step r IncRecoverySuccess = inc_recovery_success r"
| "metric_step r IncDreamExecution = inc_dream_execution r"
| "metric_step r IncCompaction = inc_compaction r"
| "metric_step r (ObserveCompactionRatio q) = observe_compaction_ratio q r"
| "metric_step r (ObserveCacheHitRate q) = observe_cache_hit_rate q r"
| "metric_step r (ObserveLatency k d) = observe_latency k d r"
| "metric_step r (ObserveBackendOp k d) = observe_backend_op k d r"
| "metric_step r (ObserveEnvelopeBytes n) = observe_envelope_bytes n r"
| "metric_step r (ObserveBodyBytes n) = observe_body_bytes n r"

definition run_metrics :: "metric_op list \<Rightarrow> registry" where
  "run_metrics ops = the (foldl metric_step (Some new_registry) ops)"

lemmas metric_op_defs = set_modes_def inc_request_def inc_error_def inc_packet_budget_rejection_def
  inc_compaction_stage_def inc_selector_inclusion_def inc_selector_exclusion_def inc_selector_pressure_def
  inc_recovery_attempt_def inc_recovery_success_def inc_dream_execution_def inc_compaction_def
  observe_compaction_ratio_def observe_cache_hit_rate_def observe_latency_def observe_backend_op_def
  observe_envelope_bytes_def observe_body_bytes_def

lemma metric_step_None: "metric_step None x = None"
  by (cases x) (simp_all add: metric_op_defs)

lemma metric_step_Some: "\<exists>r'. metric_step (Some r) x = Some r'"
  by (cases x) (simp_all add: metric_op_defs)

lemma foldl_metric_Some: "\<exists>r'. foldl metric_step (Some r) ops = Some r'"
proof (induction ops arbitrary: r)
  case (Cons x ops)
  then show ?case using metric_step_Some [of r x] by (metis foldl_Cons)
qed simp

lemma run_metrics_Nil [simp]: "run_metrics [] = new_registry"
  by (simp add: run_metrics_def)

lemma run_metrics_snoc: "run_metrics (ops @ [x]) = the (metric_step (Some (run_metrics ops)) x)"
  using foldl_metric_Some [of new_registry ops] by (auto simp: run_metrics_def)

text \<open>The value of a counter after some increments of it: absent before the first.\<close>

definition tallied :: "counter list \<Rightarrow> counter option" where
  "tallied ds = (if ds = [] then None else Some (sum_list ds))"

lemma add_to_tallied [simp]:
  "add_to k d (\<lambda>i. tallied (f i)) = (\<lambda>i. tallied (f i @ (if k = i then [d] else [])))"
  by (rule ext) (simp add: add_to_def tallied_def)

definition increments :: "(metric_op \<Rightarrow> (string \<times> counter) option) \<Rightarrow> string \<Rightarrow> metric_op list \<Rightarrow> counter list" where
  "increments sel k ops = map snd (filter (\<lambda>p. fst p = k) (List.map_filter sel ops))"

lemma increments_Nil [simp]: "increments sel k [] = []"
  by (simp add: increments_def List.map_filter_def)

lemma increments_snoc [simp]:
  "increments sel k (ops @ [x]) = increments sel k ops @ (case sel x of None \<Rightarrow> [] | Some (j, d) \<Rightarrow> if j = k then [d] else [])"
  by (simp add: increments_def List.map_filter_def split: option.split)

fun request_inc :: "metric_op \<Rightarrow> (string \<times> counter) option" where
  "request_inc (IncRequest k) = Some (k, 1)"
| "request_inc _ = None"

fun error_inc :: "metric_op \<Rightarrow> (string \<times> counter) option" where
  "error_inc (IncError k) = Some (k, 1)"
| "error_inc _ = None"

fun stage_inc :: "metric_op \<Rightarrow> (string \<times> counter) option" where
  "stage_inc (IncCompactionStage n) = Some (''stage_'' @ itoa n, 1)"
| "stage_inc _ = None"

fun inclusion_inc :: "metric_op \<Rightarrow> (string \<times> counter) option" where
  "inclusion_inc (IncSelectorInclusionReason k d) = (if k = [] \<or> d \<le> 0 then None else Some (k, of_int d))"
| "inclusion_inc _ = None"

fun exclusion_inc :: "metric_op \<Rightarrow> (string \<times> counter) option" where
  "exclusion_inc (IncSelectorExclusionReason k d) = (if k = [] \<or> d \<le> 0 then None else Some (k, of_int d))"
| "exclusion_inc _ = None"

text \<open>The statistics of some timings.\<close>

definition timing_of :: "rat list \<Rightarrow> timing_stat option" where
  "timing_of vs =
     (if vs = [] then None
      else Some \<lparr>tg_count = of_nat (length vs), tg_total = sum_list vs,
        tg_avg = sum_list vs / of_int (sint (of_nat (length vs) :: counter)), tg_max = Max (insert 0 (set vs))\<rparr>)"

lemma Max_snoc: "Max (insert 0 (set (vs @ [v]))) = max v (Max (insert 0 (set vs)))"
proof -
  have "insert 0 (set (vs @ [v])) = insert v (insert 0 (set vs))" by auto
  then show ?thesis by (simp only:) (rule Max_insert; simp)
qed

lemma timing_of_snoc:
  "timing_of (vs @ [v]) = Some (observe_timing v (case timing_of vs of None \<Rightarrow> zero_timing | Some t \<Rightarrow> t))"
proof (cases "vs = []")
  case True
  then show ?thesis by (simp add: timing_of_def observe_timing_def zero_timing_def max_def)
next
  case False
  have "max v x = (if v > x then v else x)" for x :: rat by (simp add: max_def)
  with False show ?thesis
    unfolding timing_of_def Max_snoc by (simp add: observe_timing_def Let_def add.commute del: Max_insert set_append)
qed

lemma observe_named_timing_of [simp]:
  "observe_named k v (\<lambda>i. timing_of (f i)) = (\<lambda>i. timing_of (f i @ (if k = i then [v] else [])))"
  by (rule ext) (simp add: observe_named_def timing_of_snoc)

definition timings :: "(metric_op \<Rightarrow> (string \<times> int) option) \<Rightarrow> string \<Rightarrow> metric_op list \<Rightarrow> rat list" where
  "timings sel k ops = map (millis \<circ> snd) (filter (\<lambda>p. fst p = k) (List.map_filter sel ops))"

lemma timings_Nil [simp]: "timings sel k [] = []"
  by (simp add: timings_def List.map_filter_def)

lemma timings_snoc [simp]:
  "timings sel k (ops @ [x]) = timings sel k ops @ (case sel x of None \<Rightarrow> [] | Some (j, d) \<Rightarrow> if j = k then [millis d] else [])"
  by (simp add: timings_def List.map_filter_def split: option.split)

fun latency_obs :: "metric_op \<Rightarrow> (string \<times> int) option" where
  "latency_obs (ObserveLatency k d) = Some (k, d)"
| "latency_obs _ = None"

fun backend_obs :: "metric_op \<Rightarrow> (string \<times> int) option" where
  "backend_obs (ObserveBackendOp k d) = Some (k, d)"
| "backend_obs _ = None"

lemma registry_accounts:
  "mr_requests (run_metrics ops) = (\<lambda>k. tallied (increments request_inc k ops))
   \<and> mr_errors (run_metrics ops) = (\<lambda>k. tallied (increments error_inc k ops))
   \<and> mr_stages (run_metrics ops) = (\<lambda>k. tallied (increments stage_inc k ops))
   \<and> mr_inclusions (run_metrics ops) = (\<lambda>k. tallied (increments inclusion_inc k ops))
   \<and> mr_exclusions (run_metrics ops) = (\<lambda>k. tallied (increments exclusion_inc k ops))
   \<and> mr_latencies (run_metrics ops) = (\<lambda>k. timing_of (timings latency_obs k ops))
   \<and> mr_backend_ops (run_metrics ops) = (\<lambda>k. timing_of (timings backend_obs k ops))"
proof (induction ops rule: rev_induct)
  case Nil
  show ?case by (simp add: new_registry_def tallied_def timing_of_def)
next
  case (snoc x ops)
  then show ?case
    by (cases x) (simp_all add: run_metrics_snoc metric_op_defs)
qed

text \<open>
  The registry accounts for exactly what was done to it: after any sequence of updates a counter
  exists if and only if it was incremented and holds the sum of its increments (as a 64-bit word;
  increments that are not positive or have no reason are not counted), and a timing holds number,
  sum, mean and maximum of the observations under its name; the snapshot shows just that.
\<close>

theorem snapshot_accounts:
  "let s = take_snapshot (foldl metric_step (Some new_registry) ops) in
     ms_requests s k = tallied (increments request_inc k ops)
   \<and> ms_errors s k = tallied (increments error_inc k ops)
   \<and> ms_stages s k = tallied (increments stage_inc k ops)
   \<and> ms_inclusions s k = tallied (increments inclusion_inc k ops)
   \<and> ms_exclusions s k = tallied (increments exclusion_inc k ops)
   \<and> ms_latencies s k = timing_of (timings latency_obs k ops)
   \<and> ms_backend_ops s k = timing_of (timings backend_obs k ops)"
proof -
  obtain r where r: "foldl metric_step (Some new_registry) ops = Some r" "run_metrics ops = r"
    using foldl_metric_Some [of new_registry ops] by (auto simp: run_metrics_def)
  with registry_accounts [of ops] show ?thesis by (simp add: take_snapshot_def)
qed

end
