(* ===== verification/Server.thy ===== *)
theory Server
  imports SessionSpine Ingress Preflight Metrics GoStrings
begin

text \<open>
  \<open>internal/server/server.go\<close>: the HTTP handlers over one backend. Every request that touches a session
  starts a new \<open>Session\<close> on the backend. \<open>/v1/agent-call\<close> is coalesced by fingerprint: the handler is
  split where other requests can come in between, into preparing the call, entering the coalescer, the
  leader's work with its publication, and the follower's reply to what was published.

  A request is its method, path, body and length, and three contexts as the handler finds them:
  \<open>hq_base\<close> is \<open>r.Context()\<close>, \<open>hq_ctx\<close> the derived one while a session works, \<open>hq_late\<close> the derived one
  when the consult event is written (the time limit may have passed in between). \<open>encoding/json\<close>
  decoding is a record of stream decoders, \<open>json.Marshal\<close> of a dynamic value a function. The registry
  holds what the handlers themselves record; the sizes and timings that a session adds are left out.
\<close>

subsection \<open>Configuration and state\<close>

definition agentCallContractVersion :: string where
  "agentCallContractVersion = ''agent_call.v1''"

record http_request =
  hq_method :: string
  hq_path :: string
  hq_body :: string
  hq_length :: int
  hq_base :: ctx
  hq_ctx :: ctx
  hq_late :: ctx

record turn_request =
  tt_session :: string
  tt_branch :: string
  tt_text :: string

record agent_request =
  ar_session :: string
  ar_branch :: string
  ar_task :: string
  ar_refs :: "string list"
  ar_constraints :: gomap
  ar_allow_tools :: bool
  ar_external :: string

record fork_request =
  fr_session :: string
  fr_parent :: string
  fr_child :: string

record dream_request =
  dq_session :: string
  dq_trigger :: bool

record body_decoders =
  vb_turn :: "string \<Rightarrow> (turn_request \<times> string) result"
  vb_agent :: "string \<Rightarrow> (agent_request \<times> string) result"
  vb_fork :: "string \<Rightarrow> (fork_request \<times> string) result"
  vb_dream :: "string \<Rightarrow> (dream_request \<times> string) result"

record dream_result =
  dr_created :: "string list"
  dr_updated :: "string list"
  dr_pruned :: "string list"
  dr_summary :: string
  dr_time :: gotime
  dr_duration :: int
  dr_sessions :: int
  dr_events :: int
  dr_topics :: "(string \<times> string) list"

text \<open>
  The methods of the dream daemon that the server calls: on a state of its own, and on the backend, which
  is its event log.
\<close>

record ('b, 'd) dream_ops =
  do_execute :: "ctx \<Rightarrow> string \<Rightarrow> 'b \<Rightarrow> 'd \<Rightarrow> dream_result result \<times> 'b \<times> 'd"
  do_should :: "'d \<Rightarrow> bool \<times> 'd"
  do_count :: "'d \<Rightarrow> int"

record ('b, 'm, 't, 'd) server_cfg =
  vc_ops :: "'b backend_ops"
  vc_health :: "ctx \<Rightarrow> 'b \<Rightarrow> health_status \<times> 'b"
  vc_decoders :: model_decoders
  vc_adapter :: string
  vc_call :: "'m adapter"
  vc_runner :: "tool_runner option"
  vc_run_tool :: "tool_runner \<Rightarrow> tool_request \<Rightarrow> 't \<Rightarrow> tool_response \<times> 't"
  vc_encode :: "gomap \<Rightarrow> string result"
  vc_marshal :: "goval \<Rightarrow> string result"
  vc_headers :: "http_header list"
  vc_backend_mode :: string
  vc_model_mode :: string
  vc_dream :: "('b, 'd) dream_ops option"
  vc_body :: body_decoders
  vc_clock :: "nat \<Rightarrow> gotime"
  vc_preprocessor :: bool

record agent_trace =
  tx_packet :: string
  tx_response :: string
  tx_manifest :: "manifest option"

record agent_response =
  ag_session :: string
  ag_branch :: string
  ag_decision :: string
  ag_resolved :: bool
  ag_missing :: "string list"
  ag_fingerprint :: string
  ag_reason :: string
  ag_answer :: string
  ag_tool_calls :: "tool_call list"
  ag_envelope :: int
  ag_contract :: string
  ag_trace :: agent_trace

record coalesced =
  co_status :: int
  co_response :: "agent_response option"
  co_code :: string
  co_message :: string
  co_event :: string

record ('b, 'm, 't, 'd) server =
  sv_backend :: 'b
  sv_model :: 'm
  sv_tools :: 't
  sv_dream :: 'd
  sv_metrics :: "registry option"
  sv_inflight :: "coalesced inflight"
  sv_consults :: "64 word"
  sv_ticks :: nat
  sv_jobs :: "pp_job list"

text \<open>
  \<open>New\<close>, on a backend and the initial states of model, tools and daemon: a missing tool runner and a
  missing registry are replaced by empty ones. (The missing memory manager and tool registry it also
  replaces are used by no handler; a nil backend or adapter cannot be written here.)
\<close>

definition new_server ::
  "('b, 'm, 't, 'd) server_cfg \<Rightarrow> registry option \<Rightarrow> 'b \<Rightarrow> 'm \<Rightarrow> 't \<Rightarrow> 'd
   \<Rightarrow> ('b, 'm, 't, 'd) server_cfg \<times> ('b, 'm, 't, 'd) server" where
  "new_server cfg0 reg b m t d =
     (let cfg = cfg0\<lparr>vc_runner := (case vc_runner cfg0 of
                None \<Rightarrow> Some (new_runner_with_limits Map.empty (1024 * 1024) (256 * 1024)) | Some r \<Rightarrow> Some r)\<rparr>;
          reg1 = (case reg of None \<Rightarrow> Some new_registry | Some r \<Rightarrow> Some r)
      in (cfg, \<lparr>sv_backend = b, sv_model = m, sv_tools = t, sv_dream = d,
            sv_metrics = set_modes (vc_backend_mode cfg) (vc_model_mode cfg) reg1,
            sv_inflight = new_inflight, sv_consults = 0, sv_ticks = 0, sv_jobs = []\<rparr>))"

subsection \<open>Replies\<close>

record turn_response =
  tn_session :: string
  tn_branch :: string
  tn_answer :: string
  tn_decision :: string
  tn_envelope :: int

record replay_response =
  rr_session :: string
  rr_branches :: "string \<rightharpoonup> string"
  rr_state :: session_state
  rr_consults :: "consult_event list"

record dream_response =
  dp_ok :: bool
  dp_triggered :: bool
  dp_result :: "dream_result option"
  dp_reason :: string
  dp_count :: int
  dp_enabled :: bool

datatype payload =
    TurnReply turn_response
  | AgentReply agent_response
  | ForkReply bool
  | ReplayReply replay_response
  | HealthReply health_status
  | MetricsReply snapshot
  | DreamReply dream_response
  | ErrorReply string string
  | PlainReply string

text \<open>
  A status with a JSON payload (a plain text from the multiplexer); or \<open>Aborted\<close>, when the handler panics and \<open>net/http\<close> drops the
  connection.
\<close>

datatype reply = Reply int payload | Aborted

definition StatusOK :: int where "StatusOK = 200"
definition StatusBadRequest :: int where "StatusBadRequest = 400"
definition StatusNotFound :: int where "StatusNotFound = 404"
definition StatusMethodNotAllowed :: int where "StatusMethodNotAllowed = 405"
definition StatusUnprocessableEntity :: int where "StatusUnprocessableEntity = 422"
definition StatusInternalServerError :: int where "StatusInternalServerError = 500"
definition StatusGatewayTimeout :: int where "StatusGatewayTimeout = 504"

text \<open>\<open>http.StatusText\<close> of the statuses the server sends.\<close>

definition status_text :: "int \<Rightarrow> string" where
  "status_text n =
     (if n = StatusOK then ''OK'' else if n = StatusBadRequest then ''Bad Request''
      else if n = StatusNotFound then ''Not Found'' else if n = StatusMethodNotAllowed then ''Method Not Allowed''
      else if n = StatusUnprocessableEntity then ''Unprocessable Entity''
      else if n = StatusInternalServerError then ''Internal Server Error''
      else if n = StatusGatewayTimeout then ''Gateway Timeout'' else [])"

definition write_json_error :: "int \<Rightarrow> string \<Rightarrow> string \<Rightarrow> reply" where
  "write_json_error status code message =
     Reply status (ErrorReply (trim_space code) (if trim_space message = [] then status_text status else message))"

text \<open>\<open>Metrics.IncError(route)\<close> followed by \<open>writeJSONError\<close>, as every error path has it.\<close>

definition fail_with ::
  "string \<Rightarrow> int \<Rightarrow> string \<Rightarrow> string \<Rightarrow> ('b, 'm, 't, 'd) server \<Rightarrow> reply \<times> ('b, 'm, 't, 'd) server" where
  "fail_with route status code message sv =
     (write_json_error status code message, sv\<lparr>sv_metrics := inc_error route (sv_metrics sv)\<rparr>)"

definition count_request :: "string \<Rightarrow> ('b, 'm, 't, 'd) server \<Rightarrow> ('b, 'm, 't, 'd) server" where
  "count_request route sv = sv\<lparr>sv_metrics := inc_request route (sv_metrics sv)\<rparr>"

text \<open>
  \<open>started := time.Now(); defer ObserveLatency(name, time.Since(started))\<close>: the argument is evaluated
  at the \<open>defer\<close> statement, the observation made when the handler returns.
\<close>

definition timed ::
  "('b, 'm, 't, 'd) server_cfg \<Rightarrow> string \<Rightarrow> (('b, 'm, 't, 'd) server \<Rightarrow> 'r \<times> ('b, 'm, 't, 'd) server)
   \<Rightarrow> ('b, 'm, 't, 'd) server \<Rightarrow> 'r \<times> ('b, 'm, 't, 'd) server" where
  "timed cfg name h sv =
     (let elapsed = vc_clock cfg (sv_ticks sv + 1) - vc_clock cfg (sv_ticks sv);
          (r, sv1) = h (sv\<lparr>sv_ticks := sv_ticks sv + 2\<rparr>)
      in (r, sv1\<lparr>sv_metrics := observe_latency name elapsed (sv_metrics sv1)\<rparr>))"

text \<open>\<open>decodeJSONBody\<close>: one value, and after it nothing but JSON white space.\<close>

definition json_space :: "char \<Rightarrow> bool" where
  "json_space c \<longleftrightarrow> c = CHR 0x20 \<or> c = CHR 0x09 \<or> c = CHR 0x0A \<or> c = CHR 0x0D"

definition decode_json_body :: "(string \<Rightarrow> ('a \<times> string) result) \<Rightarrow> string \<Rightarrow> 'a result" where
  "decode_json_body dec body =
     (case dec body of Inl err \<Rightarrow> Inl err
      | Inr (v, rest) \<Rightarrow>
        if list_all json_space rest then Inr v
        else Inl (Adhoc ''request body must contain a single JSON object''))"

subsection \<open>Sessions of a request\<close>

definition session_cfg ::
  "('b, 'm, 't, 'd) server_cfg \<Rightarrow> string \<Rightarrow> string \<Rightarrow> tool_runner option \<Rightarrow> ('b, 'm, 't, 'd) server
   \<Rightarrow> ('b, 'm, 't) sess_cfg" where
  "session_cfg cfg sid branch runner sv =
     \<lparr>sc_id = sid, sc_branch = branch, sc_ops = vc_ops cfg, sc_decoders = vc_decoders cfg,
      sc_adapter = vc_adapter cfg, sc_call = vc_call cfg, sc_runner = map_option (vc_run_tool cfg) runner,
      sc_encode = vc_encode cfg, sc_headers = vc_headers cfg, sc_max_turns = 0, sc_search = None,
      sc_preprocessor = vc_preprocessor cfg,
      sc_metrics = (sv_metrics sv \<noteq> None),
      sc_audit = \<lparr>ac_max_tokens = 0, ac_auto = False, ac_prompt = []\<rparr>, sc_compactor = None,
      sc_schedule = \<lparr>sg_trigger_turns = 0, sg_ratio = 0, sg_min_events = 0, sg_cooldown = 0\<rparr>,
      sc_clock = (\<lambda>n. vc_clock cfg (sv_ticks sv + n)), sc_fmt1 = (\<lambda>_. [])\<rparr>"

definition start_session_with_runner ::
  "('b, 'm, 't, 'd) server_cfg \<Rightarrow> string \<Rightarrow> string \<Rightarrow> tool_runner option \<Rightarrow> ('b, 'm, 't, 'd) server
   \<Rightarrow> (('b, 'm, 't) sess_cfg \<times> ('b, 'm, 't) sess) result" where
  "start_session_with_runner cfg sid branch runner sv =
     start_session (session_cfg cfg sid branch runner sv) (sv_backend sv) (sv_model sv) (sv_tools sv)"

definition server_session ::
  "('b, 'm, 't, 'd) server_cfg \<Rightarrow> string \<Rightarrow> string \<Rightarrow> ('b, 'm, 't, 'd) server
   \<Rightarrow> (('b, 'm, 't) sess_cfg \<times> ('b, 'm, 't) sess) result" where
  "server_session cfg sid branch sv = start_session_with_runner cfg sid branch (vc_runner cfg) sv"

text \<open>The session works on the server's backend, adapter and runner: what it leaves is theirs.\<close>

definition leave_session :: "('b, 'm, 't) sess \<Rightarrow> ('b, 'm, 't, 'd) server \<Rightarrow> ('b, 'm, 't, 'd) server" where
  "leave_session s sv = sv\<lparr>sv_backend := sn_backend s, sv_model := sn_model s, sv_tools := sn_tools s,
     sv_ticks := sv_ticks sv + sn_ticks s, sv_jobs := sv_jobs sv @ submitted (sn_handed s)\<rparr>"

subsection \<open>Turns\<close>

definition handle_turn ::
  "('b, 'm, 't, 'd) server_cfg \<Rightarrow> http_request \<Rightarrow> ('b, 'm, 't, 'd) server \<Rightarrow> reply \<times> ('b, 'm, 't, 'd) server" where
  "handle_turn cfg rq sv0 =
     (let route = ''/v1/turn''; fail = fail_with route in
      timed cfg ''turn_latency_ms'' (\<lambda>sv.
        if hq_method rq \<noteq> ''POST'' then fail StatusMethodNotAllowed ''method_not_allowed'' ''method not allowed'' sv
        else case decode_json_body (vb_turn (vc_body cfg)) (hq_body rq) of
          Inl err \<Rightarrow> fail StatusBadRequest ''bad_request'' (err_msg err) sv
        | Inr req \<Rightarrow>
          let sid = trim_space (tt_session req); bid = trim_space (tt_branch req);
              msg = trim_space (tt_text req); branch = (if bid = [] then ''main'' else bid) in
          if sid = [] \<or> msg = []
          then fail StatusBadRequest ''bad_request'' ''session_id and text are required'' sv
          else case server_session cfg sid branch sv of
            Inl err \<Rightarrow> fail StatusInternalServerError ''runtime_error'' (err_msg err) sv
          | Inr (scfg, s) \<Rightarrow>
            let ((res, err), s1) = handle_user_turn scfg (hq_ctx rq) branch msg [] s;
                sv1 = leave_session s1 sv in
            case err of
              Some e \<Rightarrow> fail StatusInternalServerError ''turn_failed'' (err_msg e) sv1
            | None \<Rightarrow>
              (Reply StatusOK (TurnReply \<lparr>tn_session = tu_session res, tn_branch = tu_branch res,
                 tn_answer = tu_answer res, tn_decision = tu_decision res,
                 tn_envelope = tu_envelope res\<rparr>), sv1))
        (count_request route sv0))"

subsection \<open>Agent calls: the request\<close>

fun normalize_agent_constraints_from ::
  "(goval \<Rightarrow> string result) \<Rightarrow> string_map \<Rightarrow> gomap \<Rightarrow> string_map result" where
  "normalize_agent_constraints_from marshal out [] = Inr out"
| "normalize_agent_constraints_from marshal out ((k, v) # raw) =
     (let key = trim_space k in
      if key = [] then Inl (Adhoc ''constraints keys must be non-empty'')
      else case marshal v of
        Inl _ \<Rightarrow> Inl (Adhoc (''constraints['' @ key @ ''] must be JSON-encodable''))
      | Inr encoded \<Rightarrow> normalize_agent_constraints_from marshal (AList.update key encoded out) raw)"

definition normalize_agent_constraints :: "(goval \<Rightarrow> string result) \<Rightarrow> gomap \<Rightarrow> string_map result" where
  "normalize_agent_constraints marshal raw = normalize_agent_constraints_from marshal [] raw"

definition build_agent_call_text :: "string \<Rightarrow> string list \<Rightarrow> string_map \<Rightarrow> string result" where
  "build_agent_call_text task0 refs constraints =
     (let task = trim_space task0; trimmed = filter (\<lambda>r. r \<noteq> []) (map trim_space refs) in
      if task = [] then Inl (Adhoc ''task is required'')
      else Inr (str_join [CHR 0x0A]
        ([''task: '' @ task]
         @ (if trimmed \<noteq> [] then [''refs: '' @ str_join '', '' trimmed] else [])
         @ (if constraints \<noteq> [] then [''constraints: '' @ json_print (string_map_json constraints)] else []))))"

text \<open>What preparing an agent call leaves for leader and follower.\<close>

record prepared =
  ap_session :: string
  ap_branch :: string
  ap_task :: string
  ap_text :: string
  ap_pf :: preflight_result
  ap_fingerprint :: string
  ap_external :: string

subsection \<open>Consult events\<close>

record consult_record =
  kr_session :: string
  kr_branch :: string
  kr_refs :: "string list"
  kr_fingerprint :: string
  kr_contract :: string
  kr_serializer :: string
  kr_leader_event :: string
  kr_budget :: int
  kr_actual :: int
  kr_task :: string
  kr_outcome :: string
  kr_role :: string
  kr_missing :: "string list"
  kr_selection :: "selection_explanation option"

definition next_consult_event_id ::
  "string \<Rightarrow> string \<Rightarrow> ('b, 'm, 't, 'd) server \<Rightarrow> string \<times> ('b, 'm, 't, 'd) server" where
  "next_consult_event_id outcome role sv =
     (let n = sv_consults sv + 1 in
      (''consult.'' @ trim_space outcome @ ''.'' @ trim_space role @ ''.'' @ nat_str (unat n),
       sv\<lparr>sv_consults := n\<rparr>))"

definition record_summary :: "consult_record \<Rightarrow> event_summary" where
  "record_summary rec =
     \<lparr>es_schema = EventSchemaVersionV1, es_fingerprint = kr_fingerprint rec, es_contract = kr_contract rec,
      es_serializer = kr_serializer rec, es_outcome = kr_outcome rec, es_role = kr_role rec,
      es_leader_event = kr_leader_event rec, es_budget = kr_budget rec, es_actual = kr_actual rec,
      es_task = kr_task rec, es_missing = kr_missing rec, es_selection = kr_selection rec\<rparr>"

definition append_consult_event ::
  "('b, 'm, 't, 'd) server_cfg \<Rightarrow> ctx \<Rightarrow> consult_record \<Rightarrow> ('b, 'm, 't, 'd) server
   \<Rightarrow> string result \<times> ('b, 'm, 't, 'd) server" where
  "append_consult_event cfg c rec sv =
     (let kind = (if kr_outcome rec = OutcomeUnresolved then KindConsultUnresolved else KindConsultResolved);
          (eid, sv1) = next_consult_event_id (kr_outcome rec) (kr_role rec) sv;
          e = \<lparr>ev_id = eid, ev_session = trim_space (kr_session rec), ev_ts = vc_clock cfg (sv_ticks sv1),
               ev_kind = kind, ev_branch = trim_space (kr_branch rec), ev_parent = [], ev_refs = kr_refs rec,
               ev_meta = event_summary_meta (record_summary rec), ev_blob = []\<rparr>;
          (err, b) = bk_append (vc_ops cfg) c e (sv_backend sv1);
          sv2 = sv1\<lparr>sv_backend := b, sv_ticks := sv_ticks sv1 + 1\<rparr>
      in case err of Some er \<Rightarrow> (Inl er, sv2) | None \<Rightarrow> (Inr eid, sv2))"

subsection \<open>Agent calls: preparing\<close>

text \<open>The branch for a request that preflight leaves unresolved.\<close>

definition agent_call_unresolved ::
  "('b, 'm, 't, 'd) server_cfg \<Rightarrow> http_request \<Rightarrow> agent_request \<Rightarrow> preflight_result \<Rightarrow> ('b, 'm, 't, 'd) server
   \<Rightarrow> reply \<times> ('b, 'm, 't, 'd) server" where
  "agent_call_unresolved cfg rq req pf sv =
     (let bid = trim_space (ar_branch req);
          answer = Reply StatusOK (AgentReply \<lparr>ag_session = ar_session req, ag_branch = ar_branch req,
            ag_decision = ''unresolved'', ag_resolved = False, ag_missing = pr_missing pf, ag_fingerprint = [],
            ag_reason = pr_reason pf, ag_answer = [], ag_tool_calls = [], ag_envelope = 0,
            ag_contract = agentCallContractVersion,
            ag_trace = \<lparr>tx_packet = [], tx_response = [], tx_manifest = None\<rparr>\<rparr>) in
      if bid = [] then (answer, sv)
      else let fp = fingerprint_request \<lparr>iq_session = ar_session req, iq_branch = bid, iq_task = ar_task req,
             iq_refs = pr_refs pf, iq_constraints = pr_constraints pf, iq_allow_tools = pr_allow_tools pf,
             iq_external = ar_external req\<rparr> in
        case append_consult_event cfg (hq_ctx rq)
            \<lparr>kr_session = ar_session req, kr_branch = bid, kr_refs = pr_refs pf, kr_fingerprint = fp,
             kr_contract = agentCallContractVersion, kr_serializer = [], kr_leader_event = [], kr_budget = 0,
             kr_actual = 0, kr_task = ar_task req, kr_outcome = OutcomeUnresolved, kr_role = RoleLeader,
             kr_missing = pr_missing pf, kr_selection = None\<rparr> sv of
          (Inl err, sv1) \<Rightarrow>
            fail_with ''/v1/agent-call'' StatusInternalServerError ''consult_event_failed'' (err_msg err) sv1
        | (Inr _, sv1) \<Rightarrow> (answer, sv1))"

definition agent_request_trimmed :: "agent_request \<Rightarrow> agent_request" where
  "agent_request_trimmed req = req\<lparr>ar_session := trim_space (ar_session req),
     ar_branch := trim_space (ar_branch req), ar_task := trim_space (ar_task req)\<rparr>"

definition preflight_input_of :: "agent_request \<Rightarrow> string_map \<Rightarrow> preflight_input" where
  "preflight_input_of req cs =
     \<lparr>pi_mode = ''agent_call'', pi_scope = ar_branch req, pi_allow_execution = True,
      pi_allow_tools = ar_allow_tools req, pi_refs = ar_refs req, pi_constraints = cs,
      pi_reason = ar_task req\<rparr>"

text \<open>The end of preparing: a resolved request gets its text, its fingerprint and its external context.\<close>

definition prepare_resolved :: "agent_request \<Rightarrow> preflight_result \<Rightarrow> prepared result" where
  "prepare_resolved req pf =
     (case build_agent_call_text (ar_task req) (pr_refs pf) (pr_constraints pf) of
        Inl err \<Rightarrow> Inl err
      | Inr txt1 \<Rightarrow>
        let ireq = \<lparr>iq_session = ar_session req, iq_branch = pr_scope pf, iq_task = ar_task req,
              iq_refs = pr_refs pf, iq_constraints = pr_constraints pf, iq_allow_tools = pr_allow_tools pf,
              iq_external = ar_external req\<rparr> in
        Inr \<lparr>ap_session = ar_session req, ap_branch = pr_scope pf, ap_task = ar_task req, ap_text = txt1,
             ap_pf = pf, ap_fingerprint = fingerprint_request ireq,
             ap_external = normalize_external_context (ar_external req)\<rparr>)"

text \<open>
  Everything before \<open>s.inflight.Enter\<close>: a reply where the handler returns early, else the prepared
  call. (\<open>FingerprintRequest\<close> marshals strings only and cannot fail.)
\<close>

definition agent_call_prepare ::
  "('b, 'm, 't, 'd) server_cfg \<Rightarrow> http_request \<Rightarrow> ('b, 'm, 't, 'd) server
   \<Rightarrow> (reply + prepared) \<times> ('b, 'm, 't, 'd) server" where
  "agent_call_prepare cfg rq sv =
     (let early = apfst Inl; fail = fail_with ''/v1/agent-call''; malformed = ''malformed_boundary_input'' in
      if hq_method rq \<noteq> ''POST''
      then early (fail StatusMethodNotAllowed ''method_not_allowed'' ''method not allowed'' sv)
      else case decode_json_body (vb_agent (vc_body cfg)) (hq_body rq) of
        Inl err \<Rightarrow> early (fail StatusBadRequest ''bad_request'' (err_msg err) sv)
      | Inr req0 \<Rightarrow>
        let req = agent_request_trimmed req0 in
        if ar_session req = [] then early (fail StatusBadRequest ''bad_request'' ''session_id is required'' sv)
        else if ar_task req = [] then early (fail StatusBadRequest malformed ''task is required'' sv)
        else case normalize_agent_constraints (vc_marshal cfg) (ar_constraints req) of
          Inl err \<Rightarrow> early (fail StatusBadRequest malformed (err_msg err) sv)
        | Inr cs \<Rightarrow>
          (case preflight_validate (preflight_input_of req cs) of
             (pf, Some err) \<Rightarrow>
               (if errors_is err preflight_ErrMalformedInput
                then early (fail StatusBadRequest malformed (pr_reason pf) sv)
                else early (fail StatusBadRequest ''bad_request'' (err_msg err) sv))
           | (pf, None) \<Rightarrow>
               if \<not> pr_resolved pf then early (agent_call_unresolved cfg rq req pf sv)
               else case prepare_resolved req pf of
                 Inl err \<Rightarrow> early (fail StatusBadRequest malformed (err_msg err) sv)
               | Inr ap \<Rightarrow> (Inr ap, sv)))"

subsection \<open>Agent calls: the leader\<close>

text \<open>The newest packet and the newest response of a branch, read with a context of its own.\<close>

definition newest_id :: "string \<Rightarrow> event list \<Rightarrow> string" where
  "newest_id kind es =
     (case find (\<lambda>e. ev_kind e = kind \<and> ev_id e \<noteq> []) (rev es) of None \<Rightarrow> [] | Some e \<Rightarrow> ev_id e)"

definition find_trace :: "('b, 'm, 't, 'd) server_cfg \<Rightarrow> string \<Rightarrow> string \<Rightarrow> 'b \<Rightarrow> agent_trace" where
  "find_trace cfg sid bid b =
     (case bk_list_branch (vc_ops cfg) None sid bid b of
        Inl _ \<Rightarrow> \<lparr>tx_packet = [], tx_response = [], tx_manifest = None\<rparr>
      | Inr es \<Rightarrow> \<lparr>tx_packet = newest_id KindPacketSent es, tx_response = newest_id KindResponseReceived es,
                   tx_manifest = None\<rparr>)"

definition consult_selected_items :: "selected list \<Rightarrow> selected_item list" where
  "consult_selected_items sels =
     map (\<lambda>i. \<lparr>si_id = sel_id i, si_kind = sel_kind i, si_ref = sel_blob_ref i,
                si_summary_ref = sel_summary_ref i,
                si_bytes = int (length (sel_text i) + length (sel_summary_ref i) + length (sel_blob_ref i)),
                si_reason = reason_str (sel_reason i)\<rparr>)
       (filter sel_include sels)"

definition selection_item_of :: "item_reason \<Rightarrow> selection_item" where
  "selection_item_of i = \<lparr>sx_id = ir_id i, sx_kind = ir_kind i, sx_reason = reason_str (ir_reason i),
     sx_class = class_str (ir_class i)\<rparr>"

definition reason_count_of :: "reason_code \<times> int \<Rightarrow> reason_count" where
  "reason_count_of r = \<lparr>rc_reason = reason_str (fst r), rc_count = snd r\<rparr>"

definition consult_selection_explanation :: "explanation option \<Rightarrow> selection_explanation option" where
  "consult_selection_explanation ex =
     map_option (\<lambda>x. \<lparr>se_included = map selection_item_of (ex_included x),
       se_excluded = map selection_item_of (ex_excluded x),
       se_dom_included = map reason_count_of (ex_dom_included x),
       se_dom_excluded = map reason_count_of (ex_dom_excluded x), se_pressure = ex_pressure x\<rparr>) ex"

definition build_consult_manifest ::
  "string \<Rightarrow> string \<Rightarrow> string \<Rightarrow> preflight_result \<Rightarrow> string \<Rightarrow> selected list \<Rightarrow> explanation option \<Rightarrow> manifest result" where
  "build_consult_manifest sid bid fp pf task sels ex =
     generate \<lparr>ci_session = sid, ci_branch = bid, ci_fingerprint = fp, ci_mode = pr_mode pf,
       ci_scope = pr_scope pf, ci_refs = pr_refs pf, ci_constraints = pr_constraints pf,
       ci_items = consult_selected_items sels, ci_budget = MaxEnvelopeBytes, ci_compacted = False,
       ci_truncated = False, ci_task = task, ci_selection = consult_selection_explanation ex\<rparr>"

definition leader_record :: "prepared \<Rightarrow> manifest \<Rightarrow> consult_record" where
  "leader_record ap m =
     \<lparr>kr_session = ap_session ap, kr_branch = ap_branch ap, kr_refs = pr_refs (ap_pf ap),
      kr_fingerprint = ap_fingerprint ap, kr_contract = agentCallContractVersion,
      kr_serializer = mf_version m, kr_leader_event = [], kr_budget = mf_budget m, kr_actual = mf_actual m,
      kr_task = ap_task ap, kr_outcome = OutcomeResolved, kr_role = RoleLeader, kr_missing = [],
      kr_selection = mf_selection m\<rparr>"

definition leader_response :: "prepared \<Rightarrow> turn_result \<Rightarrow> agent_trace \<Rightarrow> agent_response" where
  "leader_response ap res trace =
     \<lparr>ag_session = tu_session res, ag_branch = tu_branch res, ag_decision = tu_decision res,
      ag_resolved = True, ag_missing = [], ag_fingerprint = ap_fingerprint ap,
      ag_reason = pr_reason (ap_pf ap), ag_answer = tu_answer res, ag_tool_calls = [],
      ag_envelope = tu_envelope res, ag_contract = agentCallContractVersion, ag_trace = trace\<rparr>"

definition failed_call ::
  "int \<Rightarrow> string \<Rightarrow> string \<Rightarrow> ('b, 'm, 't, 'd) server \<Rightarrow> coalesced \<times> ('b, 'm, 't, 'd) server" where
  "failed_call status code message sv =
     (\<lparr>co_status = status, co_response = None, co_code = code, co_message = message, co_event = []\<rparr>,
      sv\<lparr>sv_metrics := inc_error ''/v1/agent-call'' (sv_metrics sv)\<rparr>)"

text \<open>After a successful turn: trace, manifest and the consult event.\<close>

definition agent_call_record ::
  "('b, 'm, 't, 'd) server_cfg \<Rightarrow> http_request \<Rightarrow> prepared \<Rightarrow> turn_result \<Rightarrow> ('b, 'm, 't, 'd) server
   \<Rightarrow> coalesced \<times> ('b, 'm, 't, 'd) server" where
  "agent_call_record cfg rq ap res sv =
     (let trace = find_trace cfg (ap_session ap) (ap_branch ap) (sv_backend sv) in
      case build_consult_manifest (ap_session ap) (ap_branch ap) (ap_fingerprint ap) (ap_pf ap) (ap_task ap)
          (tu_selected res) (tu_explanation res) of
        Inl err \<Rightarrow> failed_call StatusInternalServerError ''consult_manifest_failed'' (err_msg err) sv
      | Inr m \<Rightarrow>
        case append_consult_event cfg (hq_late rq) (leader_record ap m) sv of
          (Inl err, sv1) \<Rightarrow> failed_call StatusInternalServerError ''consult_event_failed'' (err_msg err) sv1
        | (Inr eid, sv1) \<Rightarrow>
          (\<lparr>co_status = StatusOK,
            co_response = Some (leader_response ap res (trace\<lparr>tx_manifest := Some m\<rparr>)),
            co_code = [], co_message = [], co_event = eid\<rparr>, sv1))"

definition agent_call_work ::
  "('b, 'm, 't, 'd) server_cfg \<Rightarrow> http_request \<Rightarrow> prepared \<Rightarrow> ('b, 'm, 't, 'd) server
   \<Rightarrow> coalesced \<times> ('b, 'm, 't, 'd) server" where
  "agent_call_work cfg rq ap sv =
     (let runner = (if \<not> pr_allow_tools (ap_pf ap) then None else vc_runner cfg) in
      case start_session_with_runner cfg (ap_session ap) (ap_branch ap) runner sv of
        Inl err \<Rightarrow> failed_call StatusInternalServerError ''runtime_error'' (err_msg err) sv
      | Inr (scfg, s) \<Rightarrow>
        let ((res, err), s1) = handle_user_turn scfg (hq_ctx rq) (ap_branch ap) (ap_text ap) (ap_external ap) s;
            sv1 = leave_session s1 sv in
        case err of
          Some e \<Rightarrow>
            if errors_is e ErrNoToolRunnerConfigured \<and> \<not> pr_allow_tools (ap_pf ap)
            then failed_call StatusUnprocessableEntity ''tools_disabled''
                   ''model requested tool execution while allow_tools=false'' sv1
            else failed_call StatusInternalServerError ''agent_call_failed'' (err_msg e) sv1
        | None \<Rightarrow> agent_call_record cfg rq ap res sv1)"

definition write_coalesced :: "coalesced \<Rightarrow> reply" where
  "write_coalesced out =
     (if co_code out \<noteq> [] then write_json_error (co_status out) (co_code out) (co_message out)
      else case co_response out of
        None \<Rightarrow> write_json_error StatusInternalServerError ''coalesced_result_missing''
                  ''missing coalesced response payload''
      | Some r \<Rightarrow> Reply (co_status out) (AgentReply r))"

definition agent_call_lead ::
  "('b, 'm, 't, 'd) server_cfg \<Rightarrow> http_request \<Rightarrow> prepared \<Rightarrow> ticket \<Rightarrow> ('b, 'm, 't, 'd) server
   \<Rightarrow> reply \<times> ('b, 'm, 't, 'd) server" where
  "agent_call_lead cfg rq ap t sv =
     (let (out, sv1) = agent_call_work cfg rq ap sv
      in (write_coalesced out, sv1\<lparr>sv_inflight := if_complete t out (sv_inflight sv1)\<rparr>))"

subsection \<open>Agent calls: a follower\<close>

definition consult_refs :: "agent_response \<Rightarrow> string list" where
  "consult_refs r = (case tx_manifest (ag_trace r) of None \<Rightarrow> [] | Some m \<Rightarrow> mf_refs m)"

definition consult_serializer_version :: "agent_response \<Rightarrow> string" where
  "consult_serializer_version r = (case tx_manifest (ag_trace r) of None \<Rightarrow> [] | Some m \<Rightarrow> mf_version m)"

definition consult_byte_budget :: "agent_response \<Rightarrow> int" where
  "consult_byte_budget r = (case tx_manifest (ag_trace r) of None \<Rightarrow> 0 | Some m \<Rightarrow> mf_budget m)"

definition consult_actual_bytes :: "agent_response \<Rightarrow> int" where
  "consult_actual_bytes r = (case tx_manifest (ag_trace r) of None \<Rightarrow> 0 | Some m \<Rightarrow> mf_actual m)"

definition consult_task_summary :: "agent_response \<Rightarrow> string" where
  "consult_task_summary r = (case tx_manifest (ag_trace r) of None \<Rightarrow> [] | Some m \<Rightarrow> mf_task m)"

definition consult_selection :: "agent_response \<Rightarrow> selection_explanation option" where
  "consult_selection r = (case tx_manifest (ag_trace r) of None \<Rightarrow> None | Some m \<Rightarrow> mf_selection m)"

definition follower_record :: "agent_response \<Rightarrow> string \<Rightarrow> consult_record" where
  "follower_record r leader_event =
     \<lparr>kr_session = ag_session r, kr_branch = ag_branch r, kr_refs = consult_refs r,
      kr_fingerprint = ag_fingerprint r, kr_contract = ag_contract r,
      kr_serializer = consult_serializer_version r, kr_leader_event = leader_event,
      kr_budget = consult_byte_budget r, kr_actual = consult_actual_bytes r, kr_task = consult_task_summary r,
      kr_outcome = OutcomeResolved, kr_role = RoleFollower, kr_missing = [],
      kr_selection = consult_selection r\<rparr>"

text \<open>
  The follower's part once \<open>WaitValue\<close> has returned \<open>got\<close>, one of the results \<open>if_wait\<close> allows. (Only
  leaders' outcomes are published, so the type assertion on the value cannot fail.)
\<close>

definition agent_call_follow ::
  "('b, 'm, 't, 'd) server_cfg \<Rightarrow> http_request \<Rightarrow> goerr + coalesced \<Rightarrow> ('b, 'm, 't, 'd) server
   \<Rightarrow> reply \<times> ('b, 'm, 't, 'd) server" where
  "agent_call_follow cfg rq got sv =
     (case got of
        Inl err \<Rightarrow> fail_with ''/v1/agent-call'' StatusGatewayTimeout ''inflight_wait_failed'' (err_msg err) sv
      | Inr out \<Rightarrow>
        (case co_response out of
           Some r \<Rightarrow>
             if ag_resolved r
             then (case append_consult_event cfg (hq_late rq) (follower_record r (co_event out)) sv of
                     (Inl err, sv1) \<Rightarrow> fail_with ''/v1/agent-call'' StatusInternalServerError
                                          ''consult_event_failed'' (err_msg err) sv1
                   | (Inr _, sv1) \<Rightarrow> (write_coalesced out, sv1))
             else (write_coalesced out, sv)
         | None \<Rightarrow> (write_coalesced out, sv)))"

definition agent_call_enter ::
  "prepared \<Rightarrow> ('b, 'm, 't, 'd) server \<Rightarrow> ticket \<times> ('b, 'm, 't, 'd) server" where
  "agent_call_enter ap sv =
     (let (t, infl) = if_enter (ap_fingerprint ap) (sv_inflight sv) in (t, sv\<lparr>sv_inflight := infl\<rparr>))"

text \<open>
  The whole handler for a request that no other one overlaps. \<open>None\<close> stands for waiting on a call that
  never ends.
\<close>

definition handle_agent_call ::
  "('b, 'm, 't, 'd) server_cfg \<Rightarrow> http_request \<Rightarrow> ('b, 'm, 't, 'd) server
   \<Rightarrow> reply option \<times> ('b, 'm, 't, 'd) server" where
  "handle_agent_call cfg rq sv0 =
     timed cfg ''agent_call_latency_ms'' (\<lambda>sv.
       case agent_call_prepare cfg rq sv of
         (Inl r, sv1) \<Rightarrow> (Some r, sv1)
       | (Inr ap, sv1) \<Rightarrow>
         let (t, sv2) = agent_call_enter ap sv1 in
         if tk_leader t then apfst Some (agent_call_lead cfg rq ap t sv2)
         else case if_wait (hq_ctx rq) t (sv_inflight sv2) of
             [] \<Rightarrow> (None, sv2)
           | got # _ \<Rightarrow> apfst Some (agent_call_follow cfg rq got sv2))
       (count_request ''/v1/agent-call'' sv0)"

subsection \<open>Forking and replaying\<close>

definition handle_branch_fork ::
  "('b, 'm, 't, 'd) server_cfg \<Rightarrow> http_request \<Rightarrow> ('b, 'm, 't, 'd) server \<Rightarrow> reply \<times> ('b, 'm, 't, 'd) server" where
  "handle_branch_fork cfg rq sv0 =
     (let route = ''/v1/branch/fork''; fail = fail_with route; sv = count_request route sv0 in
      if hq_method rq \<noteq> ''POST'' then fail StatusMethodNotAllowed ''method_not_allowed'' ''method not allowed'' sv
      else case decode_json_body (vb_fork (vc_body cfg)) (hq_body rq) of
        Inl err \<Rightarrow> fail StatusBadRequest ''bad_request'' (err_msg err) sv
      | Inr req \<Rightarrow>
        let sid = trim_space (fr_session req); parent = trim_space (fr_parent req);
            child = trim_space (fr_child req) in
        if sid = [] \<or> parent = [] \<or> child = []
        then fail StatusBadRequest ''bad_request'' ''session_id, parent_branch_id, and child_branch_id are required'' sv
        else case server_session cfg sid parent sv of
          Inl err \<Rightarrow> fail StatusInternalServerError ''runtime_error'' (err_msg err) sv
        | Inr (scfg, s) \<Rightarrow>
          let (err, s1) = session_fork_branch scfg (hq_ctx rq) parent child s; sv1 = leave_session s1 sv in
          case err of
            Some e \<Rightarrow> fail StatusInternalServerError ''fork_failed'' (err_msg e) sv1
          | None \<Rightarrow> (Reply StatusOK (ForkReply True), sv1))"

definition parse_replay_path :: "string \<Rightarrow> string option" where
  "parse_replay_path path =
     (if \<not> prefix ''/v1/session/'' path \<or> \<not> suffix ''/replay'' path then None
      else let parts = split_on (CHR ''/'') path in
      if length parts \<noteq> 5 then None
      else let sid = trim_space (parts ! 3) in if sid = [] then None else Some sid)"

definition handle_session_replay ::
  "('b, 'm, 't, 'd) server_cfg \<Rightarrow> http_request \<Rightarrow> ('b, 'm, 't, 'd) server \<Rightarrow> reply \<times> ('b, 'm, 't, 'd) server" where
  "handle_session_replay cfg rq sv0 =
     (let route = ''/v1/session/{id}/replay''; fail = fail_with route;
          failed = (\<lambda>err. fail StatusInternalServerError ''replay_failed'' (err_msg err)) in
      timed cfg ''replay_latency_ms'' (\<lambda>sv.
        if hq_method rq \<noteq> ''GET'' then fail StatusMethodNotAllowed ''method_not_allowed'' ''method not allowed'' sv
        else case parse_replay_path (hq_path rq) of
          None \<Rightarrow> fail StatusNotFound ''not_found'' ''route not found'' sv
        | Some sid \<Rightarrow>
          case server_session cfg sid ''main'' sv of
            Inl err \<Rightarrow> fail StatusInternalServerError ''runtime_error'' (err_msg err) sv
          | Inr (scfg, s) \<Rightarrow>
            case replay_session scfg (hq_ctx rq) s of
              Inl err \<Rightarrow> failed err sv
            | Inr replayed \<Rightarrow>
              case bk_list (vc_ops cfg) (hq_late rq) sid (sv_backend sv) of
                Inl err \<Rightarrow> failed err sv
              | Inr events \<Rightarrow>
                case list_consult_events events of
                  Inl err \<Rightarrow> failed err sv
                | Inr consults \<Rightarrow>
                  (Reply StatusOK (ReplayReply \<lparr>rr_session = sid, rr_branches = rp_heads replayed,
                     rr_state = rp_state replayed, rr_consults = consults\<rparr>), sv))
        (count_request route sv0))"

subsection \<open>Health, metrics and dreams\<close>

definition handle_healthz ::
  "('b, 'm, 't, 'd) server_cfg \<Rightarrow> http_request \<Rightarrow> ('b, 'm, 't, 'd) server \<Rightarrow> reply \<times> ('b, 'm, 't, 'd) server" where
  "handle_healthz cfg rq sv0 =
     (let route = ''/healthz''; sv = count_request route sv0 in
      if hq_method rq \<noteq> ''GET''
      then fail_with route StatusMethodNotAllowed ''method_not_allowed'' ''method not allowed'' sv
      else let (status, b) = vc_health cfg (hq_ctx rq) (sv_backend sv)
        in (Reply StatusOK (HealthReply status), sv\<lparr>sv_backend := b\<rparr>))"

definition handle_metrics ::
  "http_request \<Rightarrow> ('b, 'm, 't, 'd) server \<Rightarrow> reply \<times> ('b, 'm, 't, 'd) server" where
  "handle_metrics rq sv0 =
     (let route = ''/metrics''; sv = count_request route sv0 in
      if hq_method rq \<noteq> ''GET''
      then fail_with route StatusMethodNotAllowed ''method_not_allowed'' ''method not allowed'' sv
      else (Reply StatusOK (MetricsReply (take_snapshot (sv_metrics sv))), sv))"

text \<open>Running the daemon and reporting, which the code writes out twice.\<close>

definition dream_and_report ::
  "('b, 'd) dream_ops \<Rightarrow> http_request \<Rightarrow> string \<Rightarrow> ('b, 'm, 't, 'd) server \<Rightarrow> reply \<times> ('b, 'm, 't, 'd) server" where
  "dream_and_report dd rq sid sv =
     (case do_execute dd (hq_base rq) sid (sv_backend sv) (sv_dream sv) of
        (Inl err, b, d) \<Rightarrow>
          (Reply StatusOK (DreamReply \<lparr>dp_ok = False, dp_triggered = True, dp_result = None,
             dp_reason = err_msg err, dp_count = 0, dp_enabled = True\<rparr>),
           sv\<lparr>sv_backend := b, sv_dream := d, sv_metrics := inc_error ''/v1/dream'' (sv_metrics sv)\<rparr>)
      | (Inr res, b, d) \<Rightarrow>
          (Reply StatusOK (DreamReply \<lparr>dp_ok = True, dp_triggered = True, dp_result = Some res,
             dp_reason = [], dp_count = do_count dd d, dp_enabled = True\<rparr>),
           sv\<lparr>sv_backend := b, sv_dream := d, sv_metrics := inc_dream_execution (sv_metrics sv)\<rparr>))"

text \<open>
  The thresholds are asked for only without a trigger. Without a daemon and without a trigger, the reply's
  \<open>DreamCount\<close> is read from a nil pointer.
\<close>

definition dream_if_due ::
  "('b, 'd) dream_ops \<Rightarrow> http_request \<Rightarrow> dream_request \<Rightarrow> string \<Rightarrow> ('b, 'm, 't, 'd) server
   \<Rightarrow> reply \<times> ('b, 'm, 't, 'd) server" where
  "dream_if_due dd rq req sid sv =
     (if dq_trigger req then dream_and_report dd rq sid sv
      else let (due, d) = do_should dd (sv_dream sv); sv1 = sv\<lparr>sv_dream := d\<rparr> in
        if due then dream_and_report dd rq sid sv1
        else (Reply StatusOK (DreamReply \<lparr>dp_ok = True, dp_triggered = False, dp_result = None,
                dp_reason = ''dream thresholds not met'', dp_count = do_count dd d, dp_enabled = True\<rparr>), sv1))"

definition handle_dream ::
  "('b, 'm, 't, 'd) server_cfg \<Rightarrow> http_request \<Rightarrow> ('b, 'm, 't, 'd) server \<Rightarrow> reply \<times> ('b, 'm, 't, 'd) server" where
  "handle_dream cfg rq sv0 =
     (let route = ''/v1/dream''; fail = fail_with route in
      timed cfg ''dream_latency_ms'' (\<lambda>sv.
        if hq_method rq \<noteq> ''POST'' then fail StatusMethodNotAllowed ''method_not_allowed'' ''method not allowed'' sv
        else case (if hq_length rq > 0 then decode_json_body (vb_dream (vc_body cfg)) (hq_body rq)
                   else Inr \<lparr>dq_session = [], dq_trigger = False\<rparr>) of
          Inl err \<Rightarrow> fail StatusBadRequest ''bad_request'' (err_msg err) sv
        | Inr req \<Rightarrow>
          let sid = (if trim_space (dq_session req) = [] then ''demo'' else trim_space (dq_session req)) in
          case vc_dream cfg of
            None \<Rightarrow>
              if dq_trigger req
              then (Reply StatusOK (DreamReply \<lparr>dp_ok = False, dp_triggered = False, dp_result = None,
                      dp_reason = ''dream daemon not configured'', dp_count = 0, dp_enabled = False\<rparr>), sv)
              else (Aborted, sv)
          | Some dd \<Rightarrow> dream_if_due dd rq req sid sv)
        (count_request route sv0))"

text \<open>\<open>Handler\<close>: the routes, for a path as the multiplexer passes it on.\<close>

definition handle ::
  "('b, 'm, 't, 'd) server_cfg \<Rightarrow> http_request \<Rightarrow> ('b, 'm, 't, 'd) server
   \<Rightarrow> reply option \<times> ('b, 'm, 't, 'd) server" where
  "handle cfg rq sv =
     (if hq_path rq = ''/healthz'' then apfst Some (handle_healthz cfg rq sv)
      else if hq_path rq = ''/metrics'' then apfst Some (handle_metrics rq sv)
      else if hq_path rq = ''/v1/turn'' then apfst Some (handle_turn cfg rq sv)
      else if hq_path rq = ''/v1/agent-call'' then handle_agent_call cfg rq sv
      else if hq_path rq = ''/v1/branch/fork'' then apfst Some (handle_branch_fork cfg rq sv)
      else if prefix ''/v1/session/'' (hq_path rq) then apfst Some (handle_session_replay cfg rq sv)
      else if hq_path rq = ''/v1/dream'' then apfst Some (handle_dream cfg rq sv)
      else (Some (Reply StatusNotFound (PlainReply ''404 page not found'')), sv))"

end
