(* ===== verification/ServerFlight.thy ===== *)
theory ServerFlight
  imports Server
begin

text \<open>
  Agent calls that overlap. A handler that has entered the coalescer is a record of its request, its
  prepared call, its ticket and what it has still to do. The step relation lets handlers arrive, work,
  publish, remove their key, follow and give up in any order; between any two of these steps the rest of
  the server may change in any way, which covers whatever the handlers do to the backend, the model, the
  tools and the counters, call by call. A panic of a leader, which would leave its key behind, is not
  modelled: no branch of its work has one.
\<close>

subsection \<open>What leaves the coalescer alone\<close>

lemma fail_with_inflight [simp]: "sv_inflight (snd (fail_with route status code msg sv)) = sv_inflight sv"
  by (simp add: fail_with_def)

lemma failed_call_inflight [simp]: "sv_inflight (snd (failed_call status code msg sv)) = sv_inflight sv"
  by (simp add: failed_call_def)

lemma count_request_inflight [simp]: "sv_inflight (count_request route sv) = sv_inflight sv"
  by (simp add: count_request_def)

lemma leave_session_inflight [simp]: "sv_inflight (leave_session s sv) = sv_inflight sv"
  by (simp add: leave_session_def)

lemma append_consult_inflight [simp]: "sv_inflight (snd (append_consult_event cfg c rec sv)) = sv_inflight sv"
  by (simp add: append_consult_event_def next_consult_event_id_def Let_def split_def split: option.split)

lemma append_consult_keeps:
  "append_consult_event cfg c rec sv = (r, sv1) \<Longrightarrow> sv_inflight sv1 = sv_inflight sv"
  using append_consult_inflight [of cfg c rec sv] by simp

lemma timed_inflight:
  "(\<And>sv. sv_inflight (snd (h sv)) = sv_inflight sv) \<Longrightarrow> sv_inflight (snd (timed cfg name h sv)) = sv_inflight sv"
  by (simp add: timed_def Let_def split_def)

lemma unresolved_inflight [simp]: "sv_inflight (snd (agent_call_unresolved cfg rq req pf sv)) = sv_inflight sv"
  by (auto simp: agent_call_unresolved_def Let_def dest: append_consult_keeps split: prod.split sum.split)

lemma prepare_inflight [simp]: "sv_inflight (snd (agent_call_prepare cfg rq sv)) = sv_inflight sv"
  by (simp add: agent_call_prepare_def Let_def split_def split: sum.split option.split)

lemma record_inflight [simp]: "sv_inflight (snd (agent_call_record cfg rq ap res sv)) = sv_inflight sv"
  by (auto simp: agent_call_record_def Let_def dest: append_consult_keeps split: prod.split sum.split)

lemma work_inflight [simp]: "sv_inflight (snd (agent_call_work cfg rq ap sv)) = sv_inflight sv"
  by (simp add: agent_call_work_def Let_def split_def split: sum.split option.split)

lemma follow_inflight [simp]: "sv_inflight (snd (agent_call_follow cfg rq got sv)) = sv_inflight sv"
  by (auto simp: agent_call_follow_def dest: append_consult_keeps split: prod.split sum.split option.split)

lemma lead_inflight:
  "sv_inflight (snd (agent_call_lead cfg rq ap t sv)) =
     if_complete t (fst (agent_call_work cfg rq ap sv)) (sv_inflight sv)"
  using work_inflight [of cfg rq ap sv] by (simp add: agent_call_lead_def split_def Let_def)

lemma handle_inflight:
  assumes "hq_path rq \<noteq> ''/v1/agent-call''"
  shows "sv_inflight (snd (handle cfg rq sv)) = sv_inflight sv"
proof -
  have turn: "sv_inflight (snd (handle_turn cfg rq sv)) = sv_inflight sv"
    unfolding handle_turn_def Let_def
    by (subst timed_inflight) (simp_all add: split_def split: sum.split option.split)
  have fork: "sv_inflight (snd (handle_branch_fork cfg rq sv)) = sv_inflight sv"
    unfolding handle_branch_fork_def Let_def by (simp add: split_def split: sum.split option.split)
  have replay: "sv_inflight (snd (handle_session_replay cfg rq sv)) = sv_inflight sv"
    unfolding handle_session_replay_def Let_def
    by (subst timed_inflight) (simp_all add: split_def split: sum.split option.split)
  have dream: "sv_inflight (snd (handle_dream cfg rq sv)) = sv_inflight sv"
    unfolding handle_dream_def Let_def
    by (subst timed_inflight) (simp_all add: split_def Let_def dream_if_due_def dream_and_report_def split: sum.split option.split)
  from assms turn fork replay dream show ?thesis
    by (simp add: handle_def handle_healthz_def handle_metrics_def Let_def split_def)
qed

subsection \<open>Handlers in flight\<close>

text \<open>
  What a leader has still to do: its work (the session, its turn, the consult event), then to publish
  the outcome, then to remove its key. A follower waits.
\<close>

datatype stage = Busy | Publishing coalesced | Removing coalesced

record flight =
  fl_request :: http_request
  fl_prepared :: prepared
  fl_ticket :: ticket
  fl_stage :: stage

definition in_flight :: "http_request \<Rightarrow> prepared \<Rightarrow> ticket \<Rightarrow> flight" where
  "in_flight rq ap t = \<lparr>fl_request = rq, fl_prepared = ap, fl_ticket = t, fl_stage = Busy\<rparr>"

definition fl_key :: "flight \<Rightarrow> string" where "fl_key w = ap_fingerprint (fl_prepared w)"
definition fl_leads :: "flight \<Rightarrow> bool" where "fl_leads w = tk_leader (fl_ticket w)"
definition fl_call :: "flight \<Rightarrow> nat" where "fl_call w = tk_call (fl_ticket w)"

lemma in_flight_sel [simp]:
  "fl_ticket (in_flight rq ap t) = t" "fl_stage (in_flight rq ap t) = Busy"
  "fl_key (in_flight rq ap t) = ap_fingerprint ap"
  "fl_leads (in_flight rq ap t) = tk_leader t" "fl_call (in_flight rq ap t) = tk_call t"
  by (simp_all add: in_flight_def fl_key_def fl_leads_def fl_call_def)

lemma fl_stage_update_sel [simp]:
  "fl_key (w\<lparr>fl_stage := g\<rparr>) = fl_key w" "fl_leads (w\<lparr>fl_stage := g\<rparr>) = fl_leads w"
  "fl_call (w\<lparr>fl_stage := g\<rparr>) = fl_call w"
  by (simp_all add: fl_key_def fl_leads_def fl_call_def)

text \<open>
  A step that a handler in flight makes on the coalescer. What a leader's work comes to depends on what
  runs beside it, so its outcome may be any; the two critical sections of \<open>Complete\<close> are two steps.
\<close>

inductive flight_step ::
  "('b, 'm, 't, 'd) server \<times> flight list \<Rightarrow> ('b, 'm, 't, 'd) server \<times> flight list \<Rightarrow> bool" where
  work: "fl_leads w \<Longrightarrow> fl_stage w = Busy
    \<Longrightarrow> flight_step (sv, us @ w # ws) (sv, us @ w\<lparr>fl_stage := Publishing out\<rparr> # ws)"
| publish: "fl_leads w \<Longrightarrow> fl_stage w = Publishing out
    \<Longrightarrow> flight_step (sv, us @ w # ws) (sv\<lparr>sv_inflight := if_publish (fl_ticket w) out (sv_inflight sv)\<rparr>,
          us @ w\<lparr>fl_stage := Removing out\<rparr> # ws)"
| remove: "fl_leads w \<Longrightarrow> fl_stage w = Removing out
    \<Longrightarrow> flight_step (sv, us @ w # ws) (sv\<lparr>sv_inflight := if_remove (fl_ticket w) (sv_inflight sv)\<rparr>, us @ ws)"
| follow: "\<not> fl_leads w \<Longrightarrow> Inr out \<in> set (if_wait None (fl_ticket w) (sv_inflight sv))
    \<Longrightarrow> flight_step (sv, us @ w # ws) (sv, us @ ws)"

text \<open>
  The server as a whole. Besides those steps a handler arrives at the coalescer with a call that it
  prepared at any earlier state, a follower's context runs out, or anything else happens that leaves
  the coalescer alone: each call of the backend, the model or the tools that any handler makes, each
  change of a counter, each request on another route, each consult event (\<open>parts_leave_coalescer\<close>).
\<close>

inductive call_step ::
  "('b, 'm, 't, 'd) server_cfg \<Rightarrow> ('b, 'm, 't, 'd) server \<times> flight list
   \<Rightarrow> ('b, 'm, 't, 'd) server \<times> flight list \<Rightarrow> bool" for cfg where
  arrive: "agent_call_prepare cfg rq sv0 = (Inr ap, sv0') \<Longrightarrow> agent_call_enter ap sv = (t, sv1)
    \<Longrightarrow> call_step cfg (sv, ws) (sv1, ws @ [in_flight rq ap t])"
| flight: "flight_step w w' \<Longrightarrow> call_step cfg w w'"
| expire: "\<not> fl_leads w \<Longrightarrow> Inl err \<in> set (if_wait (Some err) (fl_ticket w) (sv_inflight sv))
    \<Longrightarrow> call_step cfg (sv, us @ w # ws) (sv, us @ ws)"
| beside: "sv_inflight sv1 = sv_inflight sv \<Longrightarrow> call_step cfg (sv, ws) (sv1, ws)"

inductive_cases call_stepE: "call_step cfg w w'"

inductive call_reachable ::
  "('b, 'm, 't, 'd) server_cfg \<Rightarrow> ('b, 'm, 't, 'd) server \<Rightarrow> ('b, 'm, 't, 'd) server \<times> flight list \<Rightarrow> bool"
  for cfg sv0 where
  start: "call_reachable cfg sv0 (sv0, [])"
| step: "call_reachable cfg sv0 w \<Longrightarrow> call_step cfg w w' \<Longrightarrow> call_reachable cfg sv0 w'"

lemma call_reachable_steps:
  assumes "(call_step cfg)\<^sup>*\<^sup>* w w'" and "call_reachable cfg sv0 w"
  shows "call_reachable cfg sv0 w'"
  using assms by (induction rule: rtranclp_induct) (auto intro: call_reachable.step)

text \<open>The handlers of \<open>Server\<close>, run without interruption, are runs of these steps.\<close>

theorem parts_leave_coalescer:
  "call_step cfg (sv, ws) (snd (agent_call_prepare cfg rq sv), ws)"
  "call_step cfg (sv, ws) (snd (agent_call_work cfg rq ap sv), ws)"
  "call_step cfg (sv, ws) (snd (agent_call_follow cfg rq got sv), ws)"
  "call_step cfg (sv, ws) (snd (append_consult_event cfg c rec sv), ws)"
  "hq_path rq \<noteq> ''/v1/agent-call'' \<Longrightarrow> call_step cfg (sv, ws) (snd (handle cfg rq sv), ws)"
  by (simp_all add: call_step.beside handle_inflight)

theorem lead_is_run:
  assumes "tk_leader t"
  shows "(call_step cfg)\<^sup>*\<^sup>* (sv, us @ in_flight rq ap t # ws) (snd (agent_call_lead cfg rq ap t sv), us @ ws)"
proof -
  let ?w = "in_flight rq ap t"
  obtain out sv1 where work: "agent_call_work cfg rq ap sv = (out, sv1)" by fastforce
  let ?sv2 = "sv1\<lparr>sv_inflight := if_publish t out (sv_inflight sv1)\<rparr>"
  have "call_step cfg (sv, us @ ?w # ws) (sv1, us @ ?w # ws)"
    using parts_leave_coalescer(2) [of cfg sv "us @ ?w # ws" rq ap] work by simp
  moreover have "call_step cfg (sv1, us @ ?w # ws) (sv1, us @ ?w\<lparr>fl_stage := Publishing out\<rparr> # ws)"
    using assms by (intro call_step.flight flight_step.work) simp_all
  moreover have "call_step cfg (sv1, us @ ?w\<lparr>fl_stage := Publishing out\<rparr> # ws) (?sv2, us @ ?w\<lparr>fl_stage := Removing out\<rparr> # ws)"
    using assms flight_step.publish [of "?w\<lparr>fl_stage := Publishing out\<rparr>" out sv1 us ws]
    by (intro call_step.flight) simp
  moreover have "call_step cfg (?sv2, us @ ?w\<lparr>fl_stage := Removing out\<rparr> # ws)
      (?sv2\<lparr>sv_inflight := if_remove t (sv_inflight ?sv2)\<rparr>, us @ ws)"
    using assms flight_step.remove [of "?w\<lparr>fl_stage := Removing out\<rparr>" out ?sv2 us ws]
    by (intro call_step.flight) simp
  ultimately have "(call_step cfg)\<^sup>*\<^sup>* (sv, us @ ?w # ws) (?sv2\<lparr>sv_inflight := if_remove t (sv_inflight ?sv2)\<rparr>, us @ ws)"
    by (meson converse_rtranclp_into_rtranclp rtranclp.rtrancl_refl)
  then show ?thesis using work by (simp add: agent_call_lead_def if_complete_def)
qed

text \<open>
  The invariant: the keys of the coalescer are those of the leaders in flight, no two of which lead one
  call; the phase of a call is that of its leader, and it is retired with an outcome afterwards.
\<close>

definition phase_of :: "flight \<Rightarrow> coalesced phase" where
  "phase_of w = (case fl_stage w of Removing out \<Rightarrow> Published out | _ \<Rightarrow> Pending)"

definition flight_inv :: "coalesced inflight \<times> flight list \<Rightarrow> bool" where
  "flight_inv w = (case w of (s, ws) \<Rightarrow>
     (\<forall>k n. if_calls s k = Some n \<longleftrightarrow> (\<exists>w \<in> set ws. fl_leads w \<and> fl_call w = n \<and> fl_key w = k))
   \<and> distinct (map fl_call (filter fl_leads ws))
   \<and> (\<forall>w \<in> set ws. fl_call w < length (if_heap s) \<and> cl_key (if_heap s ! fl_call w) = fl_key w
        \<and> (fl_leads w \<longrightarrow> cl_phase (if_heap s ! fl_call w) = phase_of w))
   \<and> (\<forall>n < length (if_heap s). (\<forall>w \<in> set ws. fl_leads w \<longrightarrow> fl_call w \<noteq> n)
        \<longrightarrow> (\<exists>v. cl_phase (if_heap s ! n) = Retired v)))"

lemma flight_inv_start: "flight_inv (new_inflight, [])"
  by (simp add: flight_inv_def new_inflight_def)

lemma flight_inv_leader_key:
  assumes "flight_inv (s, ws)" and "w \<in> set ws" and "fl_leads w"
  shows "if_calls s (fl_key w) = Some (fl_call w)"
  using assms by (auto simp: flight_inv_def)

lemma flight_inv_in_flight:
  assumes "flight_inv (s, ws)" and "w \<in> set ws"
  shows "fl_call w < length (if_heap s)" "cl_key (if_heap s ! fl_call w) = fl_key w"
    "fl_leads w \<Longrightarrow> cl_phase (if_heap s ! fl_call w) = phase_of w"
  using assms by (auto simp: flight_inv_def)

lemma flight_inv_others:
  assumes "flight_inv (s, us @ w # ws)" and "fl_leads w" and "x \<in> set (us @ ws)" and "fl_leads x"
  shows "fl_call x \<noteq> fl_call w" "fl_key x \<noteq> fl_key w"
proof -
  have "distinct (map fl_call (filter fl_leads (us @ w # ws)))" using assms(1) by (simp add: flight_inv_def)
  then show call: "fl_call x \<noteq> fl_call w" using assms(2-4) by (auto simp: rev_image_eqI)
  have "if_calls s (fl_key x) = Some (fl_call x)" "if_calls s (fl_key w) = Some (fl_call w)"
    using assms by (auto intro!: flight_inv_leader_key)
  with call show "fl_key x \<noteq> fl_key w" by auto
qed

lemma flight_inv_follower:
  assumes "\<not> fl_leads w"
  shows "flight_inv (s, us @ w # ws) \<longleftrightarrow> flight_inv (s, us @ ws)
    \<and> fl_call w < length (if_heap s) \<and> cl_key (if_heap s ! fl_call w) = fl_key w"
  using assms by (auto simp: flight_inv_def)

lemma flight_inv_work:
  assumes "flight_inv (s, us @ w # ws)" and "fl_stage w = Busy"
  shows "flight_inv (s, us @ w\<lparr>fl_stage := Publishing out\<rparr> # ws)"
  using assms by (cases "fl_leads w") (simp_all add: flight_inv_def phase_of_def)

lemma flight_inv_publish:
  assumes "flight_inv (s, us @ w # ws)" and "fl_leads w" and "fl_stage w = Publishing out"
  shows "flight_inv (if_publish (fl_ticket w) out s, us @ w\<lparr>fl_stage := Removing out\<rparr> # ws)"
proof -
  have w: "fl_call w < length (if_heap s)" "cl_phase (if_heap s ! fl_call w) = Pending"
    using flight_inv_in_flight [OF assms(1), of w] assms(2,3) by (simp_all add: phase_of_def)
  have eq: "if_publish (fl_ticket w) out s =
      s\<lparr>if_heap := (if_heap s)[fl_call w := (if_heap s ! fl_call w)\<lparr>cl_phase := Published out\<rparr>]\<rparr>"
    using assms(2) w(2) by (simp add: if_publish_def fl_leads_def fl_call_def Let_def)
  have others: "fl_leads x \<Longrightarrow> fl_call x \<noteq> fl_call w" if "x \<in> set us \<or> x \<in> set ws" for x
    using flight_inv_others [OF assms(1,2), of x] that by auto
  show ?thesis
    using assms w others unfolding eq flight_inv_def split
    by (auto simp: phase_of_def nth_list_update)
qed

lemma flight_inv_remove:
  assumes "flight_inv (s, us @ w # ws)" and "fl_leads w" and "fl_stage w = Removing out"
  shows "flight_inv (if_remove (fl_ticket w) s, us @ ws)"
proof -
  have w: "fl_call w < length (if_heap s)" "cl_phase (if_heap s ! fl_call w) = Published out"
    and key: "cl_key (if_heap s ! fl_call w) = fl_key w"
    using flight_inv_in_flight [OF assms(1), of w] assms(2,3) by (simp_all add: phase_of_def)
  have eq: "if_remove (fl_ticket w) s =
      s\<lparr>if_heap := (if_heap s)[fl_call w := (if_heap s ! fl_call w)\<lparr>cl_phase := Retired out\<rparr>],
        if_calls := (if_calls s)(fl_key w := None)\<rparr>"
    using assms(2) w(2) key by (simp add: if_remove_def fl_leads_def fl_call_def Let_def)
  have others: "fl_call x \<noteq> fl_call w" "fl_key x \<noteq> fl_key w" if "x \<in> set us \<or> x \<in> set ws" "fl_leads x" for x
    using flight_inv_others [OF assms(1,2), of x] that by auto
  show ?thesis
    unfolding flight_inv_def split
  proof (intro conjI)
    show "\<forall>k n. if_calls (if_remove (fl_ticket w) s) k = Some n
        \<longleftrightarrow> (\<exists>x \<in> set (us @ ws). fl_leads x \<and> fl_call x = n \<and> fl_key x = k)"
    proof (intro allI)
      fix k n
      have "if_calls s k = Some n \<longleftrightarrow> (\<exists>x \<in> set (us @ w # ws). fl_leads x \<and> fl_call x = n \<and> fl_key x = k)"
        using assms(1) by (simp add: flight_inv_def)
      then show "if_calls (if_remove (fl_ticket w) s) k = Some n
          \<longleftrightarrow> (\<exists>x \<in> set (us @ ws). fl_leads x \<and> fl_call x = n \<and> fl_key x = k)"
        using others by (cases "k = fl_key w") (auto simp: eq)
    qed
    show "distinct (map fl_call (filter fl_leads (us @ ws)))"
      using assms(1,2) by (simp add: flight_inv_def)
    show "\<forall>x \<in> set (us @ ws). fl_call x < length (if_heap (if_remove (fl_ticket w) s))
        \<and> cl_key (if_heap (if_remove (fl_ticket w) s) ! fl_call x) = fl_key x
        \<and> (fl_leads x \<longrightarrow> cl_phase (if_heap (if_remove (fl_ticket w) s) ! fl_call x) = phase_of x)"
      using assms(1) w others by (auto simp: eq flight_inv_def nth_list_update)
    show "\<forall>n < length (if_heap (if_remove (fl_ticket w) s)).
        (\<forall>x \<in> set (us @ ws). fl_leads x \<longrightarrow> fl_call x \<noteq> n)
        \<longrightarrow> (\<exists>v. cl_phase (if_heap (if_remove (fl_ticket w) s) ! n) = Retired v)"
      using assms(1) w by (auto simp: eq flight_inv_def nth_list_update)
  qed
qed

lemma flight_inv_enter:
  assumes "flight_inv (s, ws)" and "if_enter (ap_fingerprint ap) s = (t, s')"
  shows "flight_inv (s', ws @ [in_flight rq ap t])"
proof (cases "if_calls s (ap_fingerprint ap)")
  case (Some n)
  with assms(2) have eq: "s' = s" "t = \<lparr>tk_leader = False, tk_call = n\<rparr>" by (auto simp: if_enter_def)
  moreover obtain w where "w \<in> set ws" "fl_leads w" "fl_call w = n" "fl_key w = ap_fingerprint ap"
    using assms(1) Some by (auto simp: flight_inv_def)
  moreover from this have "n < length (if_heap s)" "cl_key (if_heap s ! n) = ap_fingerprint ap"
    using flight_inv_in_flight [OF assms(1)] by auto
  ultimately show ?thesis
    using assms(1) flight_inv_follower [of "in_flight rq ap t" s ws "[]"] by simp
next
  case None
  let ?n = "length (if_heap s)" and ?w = "in_flight rq ap t"
  have eq: "t = \<lparr>tk_leader = True, tk_call = ?n\<rparr>"
    "s' = s\<lparr>if_calls := (if_calls s)(ap_fingerprint ap \<mapsto> ?n),
       if_heap := if_heap s @ [\<lparr>cl_key = ap_fingerprint ap, cl_phase = Pending\<rparr>]\<rparr>"
    using assms(2) None by (auto simp: if_enter_def Let_def)
  have new: "fl_leads ?w" "fl_call ?w = ?n" "fl_key ?w = ap_fingerprint ap" "phase_of ?w = Pending"
    by (simp_all add: eq phase_of_def)
  have old: "fl_call w < ?n" "fl_leads w \<Longrightarrow> fl_key w \<noteq> ap_fingerprint ap" if "w \<in> set ws" for w
    using flight_inv_in_flight [OF assms(1) that] flight_inv_leader_key [OF assms(1) that] None by auto
  show ?thesis
    unfolding flight_inv_def split
  proof (intro conjI)
    show "\<forall>k n. if_calls s' k = Some n \<longleftrightarrow> (\<exists>w \<in> set (ws @ [?w]). fl_leads w \<and> fl_call w = n \<and> fl_key w = k)"
    proof (intro allI)
      fix k n
      have "if_calls s k = Some n \<longleftrightarrow> (\<exists>w \<in> set ws. fl_leads w \<and> fl_call w = n \<and> fl_key w = k)"
        using assms(1) by (simp add: flight_inv_def)
      then show "if_calls s' k = Some n \<longleftrightarrow> (\<exists>w \<in> set (ws @ [?w]). fl_leads w \<and> fl_call w = n \<and> fl_key w = k)"
        using new(1-3) old by (cases "k = ap_fingerprint ap") (auto simp: eq(2))
    qed
    show "distinct (map fl_call (filter fl_leads (ws @ [?w])))"
      using assms(1) new old by (fastforce simp: flight_inv_def)
    show "\<forall>w \<in> set (ws @ [?w]). fl_call w < length (if_heap s') \<and> cl_key (if_heap s' ! fl_call w) = fl_key w
        \<and> (fl_leads w \<longrightarrow> cl_phase (if_heap s' ! fl_call w) = phase_of w)"
      using flight_inv_in_flight [OF assms(1)] new old by (auto simp: eq(2) nth_append less_Suc_eq)
    show "\<forall>n < length (if_heap s'). (\<forall>w \<in> set (ws @ [?w]). fl_leads w \<longrightarrow> fl_call w \<noteq> n)
        \<longrightarrow> (\<exists>v. cl_phase (if_heap s' ! n) = Retired v)"
      using assms(1) new by (auto simp: eq(2) nth_append flight_inv_def less_Suc_eq)
  qed
qed

lemma flight_step_inv:
  "flight_step w w' \<Longrightarrow> flight_inv (sv_inflight (fst w), snd w) \<Longrightarrow> flight_inv (sv_inflight (fst w'), snd w')"
  by (induction rule: flight_step.induct)
     (simp_all add: flight_inv_work flight_inv_publish flight_inv_remove flight_inv_follower)

lemma call_step_inv:
  "call_step cfg w w' \<Longrightarrow> flight_inv (sv_inflight (fst w), snd w) \<Longrightarrow> flight_inv (sv_inflight (fst w'), snd w')"
proof (induction rule: call_step.induct)
  case (arrive rq sv0 ap sv0' sv t sv1 ws)
  then show ?case using flight_inv_enter by (auto simp: agent_call_enter_def split: prod.splits)
qed (simp_all add: flight_step_inv flight_inv_follower)

lemma call_reachable_inv:
  assumes "call_reachable cfg sv0 w" and "sv_inflight sv0 = new_inflight"
  shows "flight_inv (sv_inflight (fst w), snd w)"
  using assms(1) by (induction rule: call_reachable.induct) (simp_all add: assms(2) flight_inv_start call_step_inv)

lemma new_server_reaches_inv:
  "call_reachable cfg (snd (new_server cfg0 reg b m t d)) (sv, ws) \<Longrightarrow> flight_inv (sv_inflight sv, ws)"
  using call_reachable_inv [of cfg "snd (new_server cfg0 reg b m t d)" "(sv, ws)"] by (simp add: new_server_def Let_def)

subsection \<open>The handlers in flight come to an end\<close>

text \<open>Each handler in flight has at most three steps to go, and while there is one, one of them can go on.\<close>

definition flight_rank :: "flight \<Rightarrow> nat" where
  "flight_rank w = (if fl_leads w then case fl_stage w of Busy \<Rightarrow> 3 | Publishing out \<Rightarrow> 2 | Removing out \<Rightarrow> 1 else 1)"

lemma flight_rank_le: "flight_rank w \<le> 3"
  by (simp add: flight_rank_def split: stage.split)

lemma flight_ranks_le: "sum_list (map flight_rank ws) \<le> 3 * length ws"
proof (induction ws)
  case (Cons w ws)
  then show ?case using flight_rank_le [of w] by simp
qed simp

lemma flight_step_rank:
  "flight_step w w' \<Longrightarrow> sum_list (map flight_rank (snd w')) < sum_list (map flight_rank (snd w))"
  by (induction rule: flight_step.induct) (simp_all add: flight_rank_def split: stage.split)

lemma flight_steps_rank:
  "(flight_step ^^ n) w w' \<Longrightarrow> n + sum_list (map flight_rank (snd w')) \<le> sum_list (map flight_rank (snd w))"
proof (induction n arbitrary: w')
  case (Suc n)
  then obtain v where "(flight_step ^^ n) w v" "flight_step v w'" by auto
  with Suc.IH [of v] flight_step_rank [of v w'] show ?case by simp
qed simp

lemma flight_steps_inv:
  "(flight_step ^^ n) w w' \<Longrightarrow> flight_inv (sv_inflight (fst w), snd w) \<Longrightarrow> flight_inv (sv_inflight (fst w'), snd w')"
  by (induction n arbitrary: w') (auto dest: flight_step_inv)

lemma flight_inv_outcome:
  assumes "flight_inv (sv_inflight sv, ws)" and "w \<in> set ws"
  shows "(\<exists>l \<in> set ws. fl_leads l \<and> fl_call l = fl_call w \<and> fl_key l = fl_key w \<and> phase_of l = Pending)
    \<or> (\<exists>out. if_wait None (fl_ticket w) (sv_inflight sv) = [Inr out])"
proof (cases "\<exists>l \<in> set ws. fl_leads l \<and> fl_call l = fl_call w")
  case True
  then obtain l where l: "l \<in> set ws" "fl_leads l" "fl_call l = fl_call w" by blast
  note inl = flight_inv_in_flight [OF assms(1) l(1)] and inw = flight_inv_in_flight [OF assms]
  show ?thesis
  proof (cases "fl_stage l")
    case (Removing out)
    with inl(3) l have "cl_phase (if_heap (sv_inflight sv) ! fl_call w) = Published out" by (simp add: phase_of_def)
    then show ?thesis by (simp add: if_wait_def fl_call_def)
  qed (use inl inw l in \<open>auto simp: phase_of_def\<close>)
next
  case False
  then obtain v where "cl_phase (if_heap (sv_inflight sv) ! fl_call w) = Retired v"
    using assms flight_inv_in_flight(1) [OF assms] unfolding flight_inv_def split by blast
  then show ?thesis by (simp add: if_wait_def fl_call_def)
qed

lemma flight_step_exists:
  assumes "flight_inv (sv_inflight sv, ws)" and "ws \<noteq> []"
  shows "\<exists>w'. flight_step (sv, ws) w'"
proof -
  have lead: "\<exists>w'. flight_step (sv, ws) w'" if l: "l \<in> set ws" "fl_leads l" for l
  proof -
    obtain us vs where "ws = us @ l # vs" using split_list [OF l(1)] by blast
    with l(2) show ?thesis by (cases "fl_stage l") (blast intro: flight_step.intros)+
  qed
  obtain w where w: "w \<in> set ws" using assms(2) by (cases ws) auto
  show ?thesis
  proof (cases "\<exists>l \<in> set ws. fl_leads l")
    case False
    then obtain out where "Inr out \<in> set (if_wait None (fl_ticket w) (sv_inflight sv))"
      using flight_inv_outcome [OF assms(1) w] by fastforce
    moreover obtain us vs where "ws = us @ w # vs" using split_list [OF w] by blast
    ultimately show ?thesis using False w by (blast intro: flight_step.follow)
  qed (use lead in blast)
qed

text \<open>
  C3. Agent calls do not get stuck and are not run twice. However the handlers of a server interleave,
  between any two accesses to what they share, the critical sections of \<open>Complete\<close> included: no two
  leaders in flight have the same fingerprint, and the coalescer holds exactly their fingerprints; every
  handler in flight has its outcome, or the leader of its call is in flight, with its own
  fingerprint, and has not published yet; and left alone the handlers in flight are at an end after at
  most three steps on the coalescer for each: no order of these steps is longer, and none
  stops before all have left.
\<close>

theorem agent_calls_never_stuck:
  assumes "call_reachable cfg (snd (new_server cfg0 reg b m t d)) (sv, ws)"
  shows "distinct (map fl_key (filter fl_leads ws))
    \<and> dom (if_calls (sv_inflight sv)) = fl_key ` {w \<in> set ws. fl_leads w}
    \<and> list_all (\<lambda>w. (\<exists>out. if_wait None (fl_ticket w) (sv_inflight sv) = [Inr out])
         \<or> list_ex (\<lambda>l. fl_leads l \<and> fl_call l = fl_call w \<and> fl_key l = fl_key w \<and> phase_of l = Pending) ws) ws
    \<and> (\<forall>n sv' ws'. (flight_step ^^ n) (sv, ws) (sv', ws')
         \<longrightarrow> n \<le> 3 * length ws \<and> (ws' = [] \<or> Ex (flight_step (sv', ws'))))"
proof (intro conjI allI impI)
  have inv: "flight_inv (sv_inflight sv, ws)" using assms by (rule new_server_reaches_inv)
  have "inj_on fl_call {w \<in> set ws. fl_leads w}" and dist: "distinct (filter fl_leads ws)"
    using inv by (auto simp: flight_inv_def distinct_map)
  then have "inj_on fl_key {w \<in> set ws. fl_leads w}"
    using flight_inv_leader_key [OF inv] by (intro inj_onI) (metis (mono_tags, lifting) inj_onD mem_Collect_eq option.inject)
  with dist show "distinct (map fl_key (filter fl_leads ws))" by (simp add: distinct_map)
  have "if_calls (sv_inflight sv) k \<noteq> None \<longleftrightarrow> (\<exists>w \<in> set ws. fl_leads w \<and> fl_key w = k)" for k
    using inv by (auto simp: flight_inv_def)
  then show "dom (if_calls (sv_inflight sv)) = fl_key ` {w \<in> set ws. fl_leads w}" by (auto simp: dom_def)
  show "list_all (\<lambda>w. (\<exists>out. if_wait None (fl_ticket w) (sv_inflight sv) = [Inr out])
         \<or> list_ex (\<lambda>l. fl_leads l \<and> fl_call l = fl_call w \<and> fl_key l = fl_key w \<and> phase_of l = Pending) ws) ws"
    unfolding list_all_iff list_ex_iff using flight_inv_outcome [OF inv] by blast
  fix n sv' ws' assume run: "(flight_step ^^ n) (sv, ws) (sv', ws')"
  show "n \<le> 3 * length ws"
    using flight_steps_rank [OF run] flight_ranks_le [of ws] by simp
  show "ws' = [] \<or> Ex (flight_step (sv', ws'))"
    using flight_step_exists [of sv' ws'] flight_steps_inv [OF run] inv by auto
qed

subsection \<open>A follower answers what its leader answered\<close>

lemma if_wait_enter:
  "if_enter k s = (u, s') \<Longrightarrow> tk_call t < length (if_heap s) \<Longrightarrow> if_wait c t s' = if_wait c t s"
  by (auto simp: if_enter_def if_wait_def Let_def nth_append split: option.splits)

lemma if_enter_heap: "if_enter k s = (u, s') \<Longrightarrow> length (if_heap s) \<le> length (if_heap s')"
  by (auto simp: if_enter_def Let_def split: option.splits)

definition published :: "ticket \<Rightarrow> coalesced \<Rightarrow> coalesced inflight \<Rightarrow> bool" where
  "published t v s \<longleftrightarrow> tk_call t < length (if_heap s) \<and> if_wait None t s = [Inr v]"

lemma published_publish: "published t v s \<Longrightarrow> published t v (if_publish u x s)"
  by (cases "tk_call t = tk_call u")
     (auto simp: published_def if_wait_def if_publish_def Let_def split: phase.splits)

lemma published_remove: "published t v s \<Longrightarrow> published t v (if_remove u s)"
  by (simp add: published_def if_wait_remove) (auto simp: if_remove_def Let_def split: phase.split)

lemma flight_step_published:
  "flight_step w w' \<Longrightarrow> published t v (sv_inflight (fst w)) \<Longrightarrow> published t v (sv_inflight (fst w'))"
  by (induction rule: flight_step.induct) (simp_all add: published_publish published_remove)

lemma call_step_published:
  "call_step cfg w w' \<Longrightarrow> published t v (sv_inflight (fst w)) \<Longrightarrow> published t v (sv_inflight (fst w'))"
proof (induction rule: call_step.induct)
  case (arrive rq sv0 ap sv0' sv u sv1 ws)
  then obtain s where s: "if_enter (ap_fingerprint ap) (sv_inflight sv) = (u, s)" "sv_inflight sv1 = s"
    by (auto simp: agent_call_enter_def split: prod.splits)
  with arrive.prems if_enter_heap [OF s(1)] show ?case by (auto simp: published_def if_wait_enter)
qed (simp_all add: flight_step_published)

lemma follow_reply:
  "agent_call_follow cfg rq (Inr out) sv = (r, sv')
    \<Longrightarrow> r = write_coalesced out \<or> (\<exists>msg. r = write_json_error StatusInternalServerError ''consult_event_failed'' msg)"
  by (auto simp: agent_call_follow_def fail_with_def split: option.splits if_splits prod.splits sum.splits)

text \<open>
  A follower answers what its leader answers: from the moment the leader publishes, and after whatever
  other handlers do next, every handler that waits for its call gets the leader's outcome, and its reply
  is the leader's reply, unless the follower's own consult event is refused by the backend.
\<close>

theorem follower_mirrors_leader:
  assumes "call_reachable cfg (snd (new_server cfg0 reg b m t0 d)) (sv, us @ w # ws)"
    and "fl_leads w" and "fl_stage w = Publishing out" and "f \<in> set (us @ ws)" and "fl_call f = fl_call w"
    and "(call_step cfg)\<^sup>*\<^sup>* (sv\<lparr>sv_inflight := if_publish (fl_ticket w) out (sv_inflight sv)\<rparr>,
           us @ w\<lparr>fl_stage := Removing out\<rparr> # ws) (sv2, vs)"
  shows "if_wait None (fl_ticket f) (sv_inflight sv2) = [Inr out]
    \<and> (let r = fst (agent_call_follow cfg rq (Inr out) sv2) in r = write_coalesced out
       \<or> (\<exists>msg. r = write_json_error StatusInternalServerError ''consult_event_failed'' msg))"
proof -
  let ?w = "w\<lparr>fl_stage := Removing out\<rparr>" and ?s = "if_publish (fl_ticket w) out (sv_inflight sv)"
  have inv: "flight_inv (?s, us @ ?w # ws)"
    using new_server_reaches_inv [OF assms(1)] assms(2,3) by (rule flight_inv_publish)
  then have "published (fl_ticket f) out ?s"
    using flight_inv_in_flight [OF inv, of ?w] assms(2,5)
    by (simp add: published_def if_wait_def fl_call_def phase_of_def)
  with assms(6) have "published (fl_ticket f) out (sv_inflight (fst (sv2, vs)))"
    by (induction rule: rtranclp_induct) (simp_all add: call_step_published)
  moreover obtain r sv' where "agent_call_follow cfg rq (Inr out) sv2 = (r, sv')" by fastforce
  ultimately show ?thesis using follow_reply [of cfg rq out sv2 r sv'] by (auto simp: published_def Let_def)
qed

subsection \<open>One request at a time\<close>

lemma complete_pending:
  assumes "tk_leader t" and "tk_call t < length (if_heap s)" and "cl_phase (if_heap s ! tk_call t) = Pending"
  shows "if_complete t v s = s\<lparr>if_heap := (if_heap s)[tk_call t := (if_heap s ! tk_call t)\<lparr>cl_phase := Retired v\<rparr>],
      if_calls := (if_calls s)(cl_key (if_heap s ! tk_call t) := None)\<rparr>"
  using assms by (simp add: if_complete_def if_publish_def if_remove_def Let_def)

text \<open>
  A server that handles one request at a time always replies: with no call in flight, every
  request on every route gets a reply, whatever it contains and however the session, the backend or
  the daemon fail, and again no call is left in flight.
\<close>

theorem handle_always_replies:
  assumes "if_calls (sv_inflight sv) = Map.empty"
  shows "fst (handle cfg rq sv) \<noteq> None \<and> if_calls (sv_inflight (snd (handle cfg rq sv))) = Map.empty"
proof (cases "hq_path rq = ''/v1/agent-call''")
  case False
  with assms handle_inflight [OF False, of cfg sv] show ?thesis by (simp add: handle_def apfst_def map_prod_def split_def)
next
  case True
  have agent: "fst (handle_agent_call cfg rq sv) \<noteq> None
      \<and> if_calls (sv_inflight (snd (handle_agent_call cfg rq sv))) = Map.empty"
  proof -
    define sv0 where "sv0 = (count_request ''/v1/agent-call'' sv)\<lparr>sv_ticks := sv_ticks sv + 2\<rparr>"
    obtain x sv1 where prep: "agent_call_prepare cfg rq sv0 = (x, sv1)" by fastforce
    have infl: "if_calls (sv_inflight sv1) = Map.empty"
    proof -
      have "sv_inflight sv1 = sv_inflight sv0" using prepare_inflight prep by (metis snd_conv)
      then show ?thesis using assms by (simp add: sv0_def)
    qed
    show ?thesis
    proof (cases x)
      case (Inl r)
      with prep infl show ?thesis by (simp add: handle_agent_call_def timed_def Let_def sv0_def count_request_def)
    next
      case (Inr ap)
      define t where "t = \<lparr>tk_leader = True, tk_call = length (if_heap (sv_inflight sv1))\<rparr>"
      define sv2 where "sv2 = sv1\<lparr>sv_inflight := (sv_inflight sv1)\<lparr>if_calls := [ap_fingerprint ap \<mapsto> tk_call t],
        if_heap := if_heap (sv_inflight sv1) @ [\<lparr>cl_key = ap_fingerprint ap, cl_phase = Pending\<rparr>]\<rparr>\<rparr>"
      have enter: "agent_call_enter ap sv1 = (t, sv2)"
        using infl by (simp add: agent_call_enter_def if_enter_def Let_def t_def sv2_def)
      have "if_calls (sv_inflight (snd (agent_call_lead cfg rq ap t sv2))) = Map.empty"
        unfolding lead_inflight by (subst complete_pending) (simp_all add: t_def sv2_def)
      with prep Inr enter show ?thesis
        by (simp add: handle_agent_call_def timed_def Let_def sv0_def count_request_def split_def t_def)
    qed
  qed
  with True show ?thesis by (simp add: handle_def)
qed

subsection \<open>Instances\<close>

text \<open>
  A server on the in-memory backend whose model echoes and whose agent calls are about session \<open>s\<close>, on
  branch \<open>main\<close>, with the body as task.
\<close>

definition demo_server_cfg :: "(mem_backend, nat, unit, unit) server_cfg" where
  "demo_server_cfg = \<lparr>vc_ops = mem_ops, vc_health = mb_health_check, vc_decoders = echo_decoders,
     vc_adapter = ''mock'', vc_call = echo_adapter, vc_runner = None,
     vc_run_tool = (\<lambda>r req t. (failure_from_error (tq_call_id req) ErrorTypeExec [], t)),
     vc_encode = (\<lambda>_. Inr ''{}''), vc_marshal = (\<lambda>_. Inr ''null''), vc_headers = [],
     vc_backend_mode = ''memory'', vc_model_mode = ''mock'', vc_dream = None,
     vc_body = \<lparr>vb_turn = (\<lambda>s. Inl (Adhoc ''EOF'')),
       vb_agent = (\<lambda>s. Inr (\<lparr>ar_session = ''s'', ar_branch = ''main'', ar_task = s, ar_refs = [],
          ar_constraints = [], ar_allow_tools = True, ar_external = []\<rparr>, [])),
       vb_fork = (\<lambda>s. Inl (Adhoc ''EOF'')), vb_dream = (\<lambda>s. Inl (Adhoc ''EOF''))\<rparr>,
     vc_clock = (\<lambda>n. int n + 1), vc_preprocessor = False\<rparr>"

definition demo_server :: "(mem_backend, nat, unit, unit) server" where
  "demo_server = snd (new_server demo_server_cfg None new_mem_backend 0 () ())"

definition agent_post :: "string \<Rightarrow> http_request" where
  "agent_post body = \<lparr>hq_method = ''POST'', hq_path = ''/v1/agent-call'', hq_body = body,
     hq_length = int (length body), hq_base = None, hq_ctx = None, hq_late = None\<rparr>"

lemma demo_inflight: "sv_inflight demo_server = new_inflight"
  by (simp add: demo_server_def new_server_def Let_def)

lemma demo_trims: "trim_space ''s'' = ''s''" "trim_space ''main'' = ''main''" "trim_space ''hi'' = ''hi''"
  "trim_space ''agent_call'' = ''agent_call''"
  by code_simp+

definition demo_ap :: prepared where
  "demo_ap = (case fst (agent_call_prepare demo_server_cfg (agent_post ''hi'') demo_server) of Inr ap \<Rightarrow> ap)"

lemma demo_prepare: "agent_call_prepare demo_server_cfg (agent_post ''hi'') sv = (Inr demo_ap, sv)"
  by (simp add: demo_ap_def agent_call_prepare_def demo_server_cfg_def agent_post_def decode_json_body_def Let_def
      agent_request_trimmed_def demo_trims normalize_agent_constraints_def preflight_validate_def
      preflight_input_of_def preflight_normalize_refs_def preflight_normalize_constraints_def
      prepare_resolved_def build_agent_call_text_def sort_strings_eq)

text \<open>Two equal calls at once: the first leads, the second follows it.\<close>

definition lead_ticket :: ticket where "lead_ticket = \<lparr>tk_leader = True, tk_call = 0\<rparr>"
definition follow_ticket :: ticket where "follow_ticket = \<lparr>tk_leader = False, tk_call = 0\<rparr>"

definition pair_server :: "(mem_backend, nat, unit, unit) server" where
  "pair_server = (count_request ''/v1/agent-call'' (count_request ''/v1/agent-call'' demo_server))
     \<lparr>sv_inflight := snd (if_enter (ap_fingerprint demo_ap) new_inflight)\<rparr>"

definition lead_flight :: flight where "lead_flight = in_flight (agent_post ''hi'') demo_ap lead_ticket"
definition follow_flight :: flight where "follow_flight = in_flight (agent_post ''hi'') demo_ap follow_ticket"

lemma pair_reachable: "call_reachable demo_server_cfg demo_server (pair_server, [lead_flight, follow_flight])"
proof -
  let ?infl = "snd (if_enter (ap_fingerprint demo_ap) new_inflight)"
  let ?sv0 = "count_request ''/v1/agent-call'' demo_server"
  let ?sv1 = "?sv0\<lparr>sv_inflight := ?infl\<rparr>"
  let ?sv2 = "count_request ''/v1/agent-call'' ?sv1"
  have "call_reachable demo_server_cfg demo_server (?sv0, [])"
    by (rule call_reachable.step [OF call_reachable.start call_step.beside]) simp
  moreover have "call_step demo_server_cfg (?sv0, []) (?sv1, [lead_flight])"
    using call_step.arrive [OF demo_prepare, where sv = ?sv0 and ws = "[]"]
    by (simp add: lead_flight_def agent_call_enter_def demo_inflight if_enter_def new_inflight_def lead_ticket_def)
  ultimately have "call_reachable demo_server_cfg demo_server (?sv1, [lead_flight])" by (rule call_reachable.step)
  moreover have "call_step demo_server_cfg (?sv1, [lead_flight]) (?sv2, [lead_flight])"
    by (rule call_step.beside) simp
  ultimately have "call_reachable demo_server_cfg demo_server (?sv2, [lead_flight])" by (rule call_reachable.step)
  moreover have "agent_call_enter demo_ap ?sv2 = (follow_ticket, pair_server)"
    by (simp add: agent_call_enter_def if_enter_def new_inflight_def follow_ticket_def pair_server_def count_request_def)
  then have "call_step demo_server_cfg (?sv2, [lead_flight]) (pair_server, [lead_flight, follow_flight])"
    using call_step.arrive [OF demo_prepare, where sv = ?sv2 and ws = "[lead_flight]"] by (simp add: follow_flight_def)
  ultimately show ?thesis by (rule call_reachable.step)
qed

theorem agent_calls_never_stuck_witness:
  "dom (if_calls (sv_inflight pair_server)) = {ap_fingerprint demo_ap}
    \<and> (\<exists>w'. flight_step (pair_server, [lead_flight, follow_flight]) w')"
proof -
  have "{w \<in> set [lead_flight, follow_flight]. fl_leads w} = {lead_flight}"
    by (auto simp: lead_flight_def follow_flight_def lead_ticket_def follow_ticket_def)
  moreover have "fl_key lead_flight = ap_fingerprint demo_ap" by (simp add: lead_flight_def)
  moreover note stuck = agent_calls_never_stuck [OF pair_reachable [unfolded demo_server_def], THEN conjunct2]
  moreover have "Ex (flight_step (pair_server, [lead_flight, follow_flight]))"
    using stuck [THEN conjunct2, THEN conjunct2, rule_format, of 0 pair_server "[lead_flight, follow_flight]"] by simp
  ultimately show ?thesis by simp
qed

theorem follower_mirrors_leader_witness:
  "\<forall>out. if_wait None follow_ticket (if_publish lead_ticket out (sv_inflight pair_server)) = [Inr out]"
proof
  fix out
  let ?w = "lead_flight\<lparr>fl_stage := Publishing out\<rparr>"
  have "call_step demo_server_cfg (pair_server, [] @ lead_flight # [follow_flight]) (pair_server, [] @ ?w # [follow_flight])"
    by (rule call_step.flight [OF flight_step.work]) (simp_all add: lead_flight_def lead_ticket_def)
  with pair_reachable have "call_reachable demo_server_cfg demo_server (pair_server, [] @ ?w # [follow_flight])"
    by (auto intro: call_reachable.step)
  from follower_mirrors_leader [OF this [unfolded demo_server_def], where out = out and f = follow_flight,
      OF _ _ _ _ rtranclp.rtrancl_refl]
  show "if_wait None follow_ticket (if_publish lead_ticket out (sv_inflight pair_server)) = [Inr out]"
    by (simp add: lead_flight_def follow_flight_def lead_ticket_def follow_ticket_def)
qed

theorem handle_always_replies_witness: "fst (handle demo_server_cfg (agent_post ''hi'') demo_server) \<noteq> None"
  using handle_always_replies [of demo_server] by (simp add: demo_inflight new_inflight_def)

end
