(* ===== verification/ServerSpine.thy ===== *)
theory ServerSpine
  imports ServerFlight
begin

text \<open>
  What an agent call leaves on the spine: the conversation of its session, and, where it is resolved, one
  consult event that the replay reads back.
\<close>

subsection \<open>What a turn returns\<close>

lemma agent_answer_result:
  "agent_answer cfg c bid resp bytes sels ex tc s = ((res, None), s') \<Longrightarrow> tu_session res = sc_id cfg \<and> tu_branch res = bid"
  by (auto simp: agent_answer_def split: prod.splits option.splits)

lemma turn_loop_result:
  "turn_loop cfg c bid ext left tracker bytes s = ((res, None), s') \<Longrightarrow> tu_session res = sc_id cfg \<and> tu_branch res = bid"
proof (induction left arbitrary: tracker bytes s)
  case (Suc left)
  from Suc.prems show ?case
    by (simp only: turn_loop.simps)
       (auto simp: Let_def dest: agent_answer_result Suc.IH split: prod.splits sum.splits option.splits if_splits)
qed simp

lemma handle_user_turn_result:
  "handle_user_turn cfg c branch text ext s = ((res, None), s') \<Longrightarrow> branch \<noteq> []
    \<Longrightarrow> tu_session res = sc_id cfg \<and> tu_branch res = branch"
  by (auto simp: handle_user_turn_def Let_def dest: turn_loop_result split: prod.splits option.splits)

lemma handle_user_turn_recorded:
  "handle_user_turn cfg c branch text ext s = ((res, None), s') \<Longrightarrow>
    fst (emit cfg c ''turn.user'' KindTurnUser (if branch = [] then sc_branch cfg else branch) [] [(''text'', VStr text)] s) = None"
  by (auto simp: handle_user_turn_def Let_def split: prod.splits option.splits)

subsection \<open>What preparing a call guarantees\<close>

lemma preflight_resolved_scope:
  "preflight_validate inp = (pf, None) \<Longrightarrow> pr_resolved pf \<Longrightarrow>
     pr_scope pf = trim_space (pi_scope inp) \<and> pr_scope pf \<noteq> []
     \<and> pr_refs pf = sort (map trim_space (pi_refs inp)) \<and> list_all (\<lambda>r. trim_space r \<noteq> []) (pi_refs inp)"
  by (auto simp: preflight_validate_def Let_def preflight_normalize_refs_def sort_strings_eq list_ex_iff list_all_iff
      split: if_splits option.splits)

lemma normalize_refs_sorted:
  assumes "list_all (\<lambda>r. trim_space r \<noteq> []) rs"
  shows "normalize_refs (sort (map trim_space rs)) = sort (map trim_space rs)"
proof -
  have "map trim_space (sort (map trim_space rs)) = sort (map trim_space rs)" by (rule map_idI) auto
  moreover have "filter (\<lambda>r. r \<noteq> []) (sort (map trim_space rs)) = sort (map trim_space rs)"
    using assms by (intro filter_True) (auto simp: list_all_iff)
  ultimately show ?thesis by (simp add: normalize_refs_def sort_strings_eq sorted_sort_id)
qed

text \<open>A prepared call has trimmed names, none blank, and normal references.\<close>

definition prepared_ok :: "prepared \<Rightarrow> bool" where
  "prepared_ok ap \<longleftrightarrow> trim_space (ap_session ap) = ap_session ap \<and> ap_session ap \<noteq> []
     \<and> trim_space (ap_branch ap) = ap_branch ap \<and> ap_branch ap \<noteq> []
     \<and> trim_space (ap_task ap) = ap_task ap \<and> normalize_refs (pr_refs (ap_pf ap)) = pr_refs (ap_pf ap)"

lemma fail_with_Inr [simp]: "apfst Inl p \<noteq> (Inr ap, sv)"
  by (cases p) simp

lemma prepare_ok:
  assumes "agent_call_prepare cfg rq sv = (Inr ap, sv1)"
  shows "sv1 = sv \<and> prepared_ok ap"
proof -
  obtain req0 cs pf where
      v: "preflight_validate (preflight_input_of (agent_request_trimmed req0) cs) = (pf, None)" "pr_resolved pf"
    and p: "prepare_resolved (agent_request_trimmed req0) pf = Inr ap" "ar_session (agent_request_trimmed req0) \<noteq> []"
    and sv1: "sv1 = sv"
    using assms by (auto simp: agent_call_prepare_def Let_def split: if_splits sum.splits prod.splits option.splits)
  note sc = preflight_resolved_scope [OF v]
  have "ap_session ap = trim_space (ar_session req0)" "ap_branch ap = pr_scope pf"
    "ap_task ap = trim_space (ar_task req0)" "ap_pf ap = pf"
    using p(1) by (auto simp: prepare_resolved_def agent_request_trimmed_def Let_def split: sum.splits)
  with sc p(2) sv1 normalize_refs_sorted show ?thesis
    by (auto simp: prepared_ok_def agent_request_trimmed_def preflight_input_of_def)
qed

subsection \<open>The spine after an agent call\<close>

text \<open>The consult event that the leader and a follower of a call write.\<close>

definition consult_written :: "consult_record \<Rightarrow> string \<Rightarrow> event \<Rightarrow> bool" where
  "consult_written rec eid e \<longleftrightarrow> ev_id e = eid \<and> ev_session e = trim_space (kr_session rec)
     \<and> ev_kind e = KindConsultResolved \<and> ev_branch e = trim_space (kr_branch rec)
     \<and> ev_refs e = kr_refs rec \<and> ev_meta e = event_summary_meta (record_summary rec)"

text \<open>A response to publish and the consult event written for it.\<close>

definition recorded_response :: "prepared \<Rightarrow> turn_result \<Rightarrow> coalesced \<Rightarrow> manifest \<Rightarrow> agent_response \<Rightarrow> event \<Rightarrow> bool" where
  "recorded_response ap res out m r e \<longleftrightarrow>
     build_consult_manifest (ap_session ap) (ap_branch ap) (ap_fingerprint ap) (ap_pf ap) (ap_task ap)
       (tu_selected res) (tu_explanation res) = Inr m
     \<and> consult_written (leader_record ap m) (co_event out) e
     \<and> (\<exists>trace. r = leader_response ap res (trace\<lparr>tx_manifest := Some m\<rparr>))
     \<and> out = \<lparr>co_status = StatusOK, co_response = Some r, co_code = [], co_message = [], co_event = co_event out\<rparr>"

context session_store begin

lemma append_consult_spine:
  assumes "vc_ops cfg = ops" and "inv (sv_backend sv)" and "kr_outcome rec = OutcomeResolved"
    and "append_consult_event cfg c rec sv = (x, sv')"
  shows "inv (sv_backend sv') \<and>
    (case x of Inl err \<Rightarrow> spine (sv_backend sv') = spine (sv_backend sv)
     | Inr eid \<Rightarrow> \<exists>e. consult_written rec eid e \<and> spine (sv_backend sv') =
         (spine (sv_backend sv))(trim_space (kr_session rec) := spine (sv_backend sv) (trim_space (kr_session rec)) @ [e]))"
proof -
  obtain eid sv1 where n: "next_consult_event_id (kr_outcome rec) (kr_role rec) sv = (eid, sv1)" by fastforce
  then have b1: "sv_backend sv1 = sv_backend sv" by (auto simp: next_consult_event_id_def Let_def)
  define e where "e = \<lparr>ev_id = eid, ev_session = trim_space (kr_session rec), ev_ts = vc_clock cfg (sv_ticks sv1),
    ev_kind = KindConsultResolved, ev_branch = trim_space (kr_branch rec), ev_parent = [], ev_refs = kr_refs rec,
    ev_meta = event_summary_meta (record_summary rec), ev_blob = []\<rparr>"
  obtain err b where ap: "bk_append ops c e (sv_backend sv) = (err, b)" by fastforce
  have "OutcomeResolved \<noteq> OutcomeUnresolved" by (simp add: OutcomeResolved_def OutcomeUnresolved_def)
  then have out: "sv_backend sv' = b" "x = (case err of Some er \<Rightarrow> Inl er | None \<Rightarrow> Inr eid)"
    using assms(1,3,4) n b1 ap by (auto simp: append_consult_event_def Let_def e_def split: option.splits)
  show ?thesis
  proof (cases err)
    case None
    with append_ok [OF assms(2)] ap have "inv b"
      "spine b = (spine (sv_backend sv))(ev_session e := spine (sv_backend sv) (ev_session e) @ [e])" by auto
    moreover have "consult_written rec eid e" by (simp add: consult_written_def e_def)
    ultimately show ?thesis using None out by (auto simp: e_def)
  next
    case (Some er)
    with append_err [OF assms(2)] ap out show ?thesis by auto
  qed
qed

text \<open>Recording a successful turn.\<close>

lemma agent_record_spine:
  assumes "vc_ops cfg = ops" and "inv (sv_backend sv)" and "trim_space (ap_session ap) = ap_session ap"
    and "agent_call_record cfg rq ap res sv = (out, sv')"
  shows "inv (sv_backend sv') \<and>
    (case co_response out of None \<Rightarrow> spine (sv_backend sv') = spine (sv_backend sv)
     | Some r \<Rightarrow> \<exists>m e. recorded_response ap res out m r e \<and> spine (sv_backend sv') =
         (spine (sv_backend sv))(ap_session ap := spine (sv_backend sv) (ap_session ap) @ [e]))"
proof (cases "build_consult_manifest (ap_session ap) (ap_branch ap) (ap_fingerprint ap) (ap_pf ap) (ap_task ap)
    (tu_selected res) (tu_explanation res)")
  case (Inl e)
  with assms(2,4) show ?thesis by (auto simp: agent_call_record_def failed_call_def)
next
  case (Inr m)
  obtain y sv2 where ap: "append_consult_event cfg (hq_late rq) (leader_record ap m) sv = (y, sv2)" by fastforce
  have lr: "kr_outcome (leader_record ap m) = OutcomeResolved" "kr_session (leader_record ap m) = ap_session ap"
    by (simp_all add: leader_record_def)
  note sp = append_consult_spine [OF assms(1,2) lr(1) ap]
  show ?thesis
  proof (cases y)
    case (Inl e)
    with assms(4) Inr ap have "sv_backend sv' = sv_backend sv2" "co_response out = None"
      by (auto simp: agent_call_record_def failed_call_def Let_def)
    with sp Inl show ?thesis by auto
  next
    case (Inr eid)
    define trace where "trace = find_trace cfg (ap_session ap) (ap_branch ap) (sv_backend sv)"
    define r where "r = leader_response ap res (trace\<lparr>tx_manifest := Some m\<rparr>)"
    have out: "out = \<lparr>co_status = StatusOK, co_response = Some r, co_code = [], co_message = [], co_event = eid\<rparr>"
        "sv' = sv2"
      using assms(4) \<open>build_consult_manifest _ _ _ _ _ _ _ = Inr m\<close> ap Inr
      by (auto simp: agent_call_record_def Let_def trace_def r_def)
    obtain e where "inv (sv_backend sv2)" "consult_written (leader_record ap m) eid e" "spine (sv_backend sv2) =
        (spine (sv_backend sv))(ap_session ap := spine (sv_backend sv) (ap_session ap) @ [e])"
      using sp Inr lr(2) assms(3) by auto
    moreover from this have "recorded_response ap res out m r e"
      using out \<open>build_consult_manifest _ _ _ _ _ _ _ = Inr m\<close> r_def by (auto simp: recorded_response_def)
    ultimately show ?thesis using out by auto
  qed
qed

text \<open>The work of a leader: the session's own events, and behind them the consult event.\<close>

lemma agent_work_spine:
  assumes "vc_ops cfg = ops" and "inv (sv_backend sv)" and "prepared_ok ap"
    and "agent_call_work cfg rq ap sv = (out, sv')"
  defines "old \<equiv> spine (sv_backend sv) (ap_session ap)"
  shows "inv (sv_backend sv') \<and> (\<exists>es. list_all (session_kind \<circ> ev_kind) es \<and>
    (case co_response out of
       None \<Rightarrow> spine (sv_backend sv') = (spine (sv_backend sv))(ap_session ap := old @ es)
     | Some r \<Rightarrow> \<exists>m e res. recorded_response ap res out m r e
         \<and> tu_session res = ap_session ap \<and> tu_branch res = ap_branch ap
         \<and> spine (sv_backend sv') = (spine (sv_backend sv))(ap_session ap := old @ es @ [e])
         \<and> transcript es = [(ap_branch ap, KindTurnUser, ap_text ap), (ap_branch ap, KindTurnAgent, ag_answer r)]))"
proof -
  define runner where "runner = (if \<not> pr_allow_tools (ap_pf ap) then None else vc_runner cfg)"
  have b: "ap_branch ap \<noteq> []" "trim_space (ap_session ap) = ap_session ap" using assms(3) by (simp_all add: prepared_ok_def)
  have refl: "spine (sv_backend sv) = (spine (sv_backend sv))(ap_session ap := old @ [])" by (simp add: old_def)
  show ?thesis
  proof (cases "start_session_with_runner cfg (ap_session ap) (ap_branch ap) runner sv")
    case (Inl err)
    with assms(2,4) refl show ?thesis
      by (auto simp: agent_call_work_def runner_def [symmetric] failed_call_def intro!: exI [of _ "[]"])
  next
    case (Inr x)
    obtain scfg s where x: "x = (scfg, s)" by (cases x)
    have st: "sc_ops scfg = ops" "sc_id scfg = ap_session ap" "sn_backend s = sv_backend sv"
      using Inr assms(1) by (auto simp: x start_session_with_runner_def start_session_def sess_defaults_def
          session_cfg_def Let_def split: if_splits sum.splits)
    obtain res err s1 where h: "handle_user_turn scfg (hq_ctx rq) (ap_branch ap) (ap_text ap) (ap_external ap) s = ((res, err), s1)"
      by (metis prod.collapse)
    have i: "inv (sn_backend s)" using assms(2) st by simp
    define sv1 where "sv1 = leave_session s1 sv"
    have sv1: "sv_backend sv1 = sn_backend s1" by (simp add: sv1_def leave_session_def)
    obtain es where es: "inv (sn_backend s1)" "spine (sn_backend s1) = (spine (sv_backend sv))(ap_session ap := old @ es)"
        "list_all (session_kind \<circ> ev_kind) es"
        "err = None \<Longrightarrow> transcript es = [(ap_branch ap, KindTurnUser, ap_text ap), (ap_branch ap, KindTurnAgent, tu_answer res)]"
      using handle_user_turn_grows [OF st(1) i h] handle_user_turn_recorded [of scfg "hq_ctx rq" "ap_branch ap" "ap_text ap" "ap_external ap" s res s1] h b(1) st
      by (auto simp: grows_def made_within_def old_def list_all_iff)
    show ?thesis
    proof (cases err)
      case (Some e)
      with assms(4) Inr x h have "sv_backend sv' = sn_backend s1" "co_response out = None"
        by (auto simp: agent_call_work_def runner_def [symmetric] failed_call_def Let_def leave_session_def split: if_splits)
      with es show ?thesis by auto
    next
      case None
      with assms(4) Inr x h have rec: "agent_call_record cfg rq ap res sv1 = (out, sv')"
        by (simp add: agent_call_work_def runner_def [symmetric] Let_def sv1_def)
      note sp = agent_record_spine [OF assms(1) _ b(2) rec, unfolded sv1, OF es(1)]
      have "tu_session res = ap_session ap \<and> tu_branch res = ap_branch ap"
        using handle_user_turn_result [OF h [unfolded None] b(1)] st(2) by simp
      moreover have "ag_answer r = tu_answer res" if "recorded_response ap res out m r e" for m r e
        using that by (auto simp: recorded_response_def leader_response_def)
      ultimately show ?thesis using sp es(2,3) es(4) [OF None]
        by (cases "co_response out") (auto, fastforce)
    qed
  qed
qed

end

subsection \<open>What the replay reads of it\<close>

lemma consult_written_reads:
  assumes "consult_written rec eid e" and "kr_outcome rec \<noteq> []"
  shows "consult_event_of e =
    \<lparr>ce_id = eid, ce_session = trim_space (kr_session rec), ce_branch = trim_space (kr_branch rec),
     ce_kind = KindConsultResolved, ce_schema = EventSchemaVersionV1, ce_outcome = kr_outcome rec,
     ce_role = kr_role rec, ce_fingerprint = kr_fingerprint rec, ce_contract = kr_contract rec,
     ce_serializer = kr_serializer rec, ce_leader_event = kr_leader_event rec, ce_refs = kr_refs rec,
     ce_missing = kr_missing rec, ce_budget = kr_budget rec, ce_actual = kr_actual rec, ce_task = kr_task rec,
     ce_selection = (case kr_selection rec of None \<Rightarrow> None
       | Some s \<Rightarrow> read_meta_selection [(''selection'', VMap (selection_meta s))] ''selection'')\<rparr>"
  using assms
  by (simp add: consult_written_def consult_event_of_def Let_def read_event_summary_meta record_summary_def
      read_meta_strings_def read_meta_selection_def map_of_event_summary_meta split: option.split)

lemma session_kind_silent: "session_kind k \<Longrightarrow> \<not> is_consult_kind k"
  by (auto simp: session_kind_def is_consult_kind_def KindTurnUser_def KindTurnAgent_def KindPacketRejected_def
      KindPacketCandidate_def KindPacketSent_def KindToolRequest_def KindToolResult_def KindToolFailure_def
      KindAuditDecision_def KindBranchFork_def KindASTPersisted_def KindCompactionRequest_def
      KindCompactionComplete_def KindCompactionFailure_def KindResponseInvalid_def KindResponseReceived_def
      KindConsultResolved_def KindConsultUnresolved_def)

definition consults_of :: "event list \<Rightarrow> consult_event list" where
  "consults_of es = map consult_event_of (filter (\<lambda>e. is_consult_kind (ev_kind e)) es)"

lemma consults_of_append [simp]: "consults_of (xs @ ys) = consults_of xs @ consults_of ys"
  by (simp add: consults_of_def)

lemma consults_of_silent: "list_all (session_kind \<circ> ev_kind) es \<Longrightarrow> consults_of es = []"
  by (auto simp: consults_of_def list_all_iff session_kind_silent filter_empty_conv)

lemma consults_of_written: "consult_written rec eid e \<Longrightarrow> consults_of [e] = [consult_event_of e]"
  by (simp add: consults_of_def consult_written_def is_consult_kind_def)

lemma mem_consults:
  assumes "mb_inv b"
  shows "list_consult_events (stored (mb_sessions b) sid) = Inr (consults_of (stored (mb_sessions b) sid))"
proof -
  have "list_all (\<lambda>e. ev_session e = sid) (stored (mb_sessions b) sid)"
    using ms.spine_session [OF assms] by (auto simp: list_all_iff)
  then show ?thesis
    by (cases "stored (mb_sessions b) sid")
       (simp_all add: list_consult_events_def list_consult_loop_exact consults_of_def del: list_consult_loop.simps)
qed

text \<open>A follower's record says of the call what its leader's record says.\<close>

lemma consult_records_alike:
  assumes "recorded_response ap res out m r e" and "tu_session res = ap_session ap" and "tu_branch res = ap_branch ap"
    and "prepared_ok ap"
  shows "kr_outcome (follower_record r (co_event out)) = OutcomeResolved"
    and "trim_space (kr_session (follower_record r (co_event out))) = ap_session ap"
    and "ag_resolved r" and "co_code out = [] \<and> co_response out = Some r \<and> co_status out = StatusOK"
    and "consult_written (follower_record r (co_event out)) eid f \<Longrightarrow> consult_event_of f =
      (consult_event_of e)\<lparr>ce_id := ev_id f, ce_role := RoleFollower, ce_leader_event := co_event out\<rparr>"
    and "ev_id e = co_event out"
proof -
  have w: "consult_written (leader_record ap m) (co_event out) e"
    and tx: "tx_manifest (ag_trace r) = Some m" and res: "ag_resolved r" "ag_session r = ap_session ap"
      "ag_branch r = ap_branch ap" "ag_fingerprint r = ap_fingerprint ap" "ag_contract r = agentCallContractVersion"
    and gen: "build_consult_manifest (ap_session ap) (ap_branch ap) (ap_fingerprint ap) (ap_pf ap) (ap_task ap)
       (tu_selected res) (tu_explanation res) = Inr m"
    using assms(1-3) by (auto simp: recorded_response_def leader_response_def)
  show "kr_outcome (follower_record r (co_event out)) = OutcomeResolved" "ag_resolved r" "ev_id e = co_event out"
    "trim_space (kr_session (follower_record r (co_event out))) = ap_session ap"
    using res w assms(4) by (simp_all add: follower_record_def consult_written_def prepared_ok_def)
  show "co_code out = [] \<and> co_response out = Some r \<and> co_status out = StatusOK"
    using assms(1) unfolding recorded_response_def by (metis coalesced.select_convs(1,2,3))
  have m: "mf_refs m = pr_refs (ap_pf ap)" "mf_task m = ap_task ap"
    using gen assms(4) by (auto simp: build_consult_manifest_def prepared_ok_def account_bytes_frame elim!: generate_Inr)
  assume f: "consult_written (follower_record r (co_event out)) eid f"
  show "consult_event_of f =
      (consult_event_of e)\<lparr>ce_id := ev_id f, ce_role := RoleFollower, ce_leader_event := co_event out\<rparr>"
    using consult_written_reads [OF w] consult_written_reads [OF f] f tx res m
    by (simp add: leader_record_def follower_record_def OutcomeResolved_def consult_refs_def
        consult_serializer_version_def consult_byte_budget_def consult_actual_bytes_def consult_task_summary_def
        consult_selection_def consult_written_def)
qed

subsection \<open>Properties\<close>

text \<open>
  C2. An agent call is recorded whole. Whatever model, tools and clock do, a leader's work changes only the
  log of the call's session and only extends it. If the call is answered, the log gains the question and
  the answer, and exactly one consult: the replayed consult history is the old one with a resolved
  leader consult appended that carries the event identifier the followers will refer to, the request's
  fingerprint, references and task, and the byte count of the manifest in the reply, which is the length
  of that manifest's own text. If it fails, the consult history is unchanged.
\<close>

theorem agent_call_records_consult:
  assumes "vc_ops cfg = mem_ops" and "mb_inv (sv_backend sv)"
    and "agent_call_prepare cfg rq sv = (Inr ap, sv1)" and "agent_call_work cfg rq ap sv1 = (out, sv2)"
  shows "\<exists>es. stored (mb_sessions (sv_backend sv2)) = (stored (mb_sessions (sv_backend sv)))
        (ap_session ap := stored (mb_sessions (sv_backend sv)) (ap_session ap) @ es)
    \<and> (case co_response out of
         None \<Rightarrow> list_consult_events (stored (mb_sessions (sv_backend sv2)) (ap_session ap)) =
                 list_consult_events (stored (mb_sessions (sv_backend sv)) (ap_session ap))
       | Some r \<Rightarrow> transcript es =
             [(ap_branch ap, KindTurnUser, ap_text ap), (ap_branch ap, KindTurnAgent, ag_answer r)]
         \<and> (\<exists>h c m. list_consult_events (stored (mb_sessions (sv_backend sv)) (ap_session ap)) = Inr h
             \<and> list_consult_events (stored (mb_sessions (sv_backend sv2)) (ap_session ap)) = Inr (h @ [c])
             \<and> tx_manifest (ag_trace r) = Some m \<and> mf_actual m = int (length (manifest_marshal m))
             \<and> ce_id c = co_event out \<and> ce_outcome c = OutcomeResolved \<and> ce_role c = RoleLeader
             \<and> ce_fingerprint c = ap_fingerprint ap \<and> ce_refs c = pr_refs (ap_pf ap)
             \<and> ce_task c = ap_task ap \<and> ce_actual c = mf_actual m))"
proof -
  let ?sid = "ap_session ap" and ?spine = "\<lambda>b. stored (mb_sessions b)"
  have ok: "sv1 = sv" "prepared_ok ap" using prepare_ok [OF assms(3)] by simp_all
  from ms.agent_work_spine [OF assms(1,2) ok(2) assms(4) [unfolded ok(1)]]
  obtain es where i: "mb_inv (sv_backend sv2)" and es: "list_all (session_kind \<circ> ev_kind) es"
    and c: "case co_response out of
       None \<Rightarrow> ?spine (sv_backend sv2) = (?spine (sv_backend sv))(?sid := ?spine (sv_backend sv) ?sid @ es)
     | Some r \<Rightarrow> \<exists>m e res. recorded_response ap res out m r e \<and> tu_session res = ?sid \<and> tu_branch res = ap_branch ap
         \<and> ?spine (sv_backend sv2) = (?spine (sv_backend sv))(?sid := ?spine (sv_backend sv) ?sid @ es @ [e])
         \<and> transcript es = [(ap_branch ap, KindTurnUser, ap_text ap), (ap_branch ap, KindTurnAgent, ag_answer r)]"
    by auto
  note hist = mem_consults [OF assms(2), of ?sid] mem_consults [OF i, of ?sid] consults_of_silent [OF es]
  show ?thesis
  proof (cases "co_response out")
    case None
    with c hist show ?thesis by (intro exI [of _ es]) auto
  next
    case (Some r)
    with c obtain m e res where r: "recorded_response ap res out m r e"
      and sp: "?spine (sv_backend sv2) = (?spine (sv_backend sv))(?sid := ?spine (sv_backend sv) ?sid @ (es @ [e]))"
      and tr: "transcript es = [(ap_branch ap, KindTurnUser, ap_text ap), (ap_branch ap, KindTurnAgent, ag_answer r)]"
      by auto
    have w: "consult_written (leader_record ap m) (co_event out) e" and tx: "tx_manifest (ag_trace r) = Some m"
      and gen: "\<exists>inp. generate inp = Inr m"
      using r by (auto simp: recorded_response_def leader_response_def build_consult_manifest_def)
    have "\<not> spoken e" using w by (simp add: consult_written_def spoken_def KindConsultResolved_def KindTurnUser_def KindTurnAgent_def)
    then have "transcript (es @ [e]) = transcript es" by (simp add: transcript_def)
    moreover have "mf_actual m = int (length (manifest_marshal m))"
      using gen by (auto elim!: generate_Inr simp: account_bytes_exact)
    moreover have "kr_outcome (leader_record ap m) \<noteq> []" by (simp add: leader_record_def OutcomeResolved_def)
    note consult_written_reads [OF w this]
    ultimately show ?thesis using Some sp tr tx hist consults_of_written [OF w]
      by (intro exI [of _ "es @ [e]"]) (simp add: leader_record_def)
  qed
qed

text \<open>
  C13. The consult of a follower mirrors its leader's. A follower of a call that failed writes nothing. Of a
  call that was answered, a follower that replies with the answer has added one event to the log of the
  call's session, and that event replays as the leader's consult does, but for its own identifier, the
  role, and the reference to the leader's event; a follower that replies otherwise has changed no log.
\<close>

theorem follower_consult_mirrors_leader:
  assumes "vc_ops cfg = mem_ops" and "mb_inv (sv_backend sv)" and "mb_inv (sv_backend sv3)"
    and "agent_call_prepare cfg rq sv = (Inr ap, sv1)" and "agent_call_work cfg rq ap sv1 = (out, sv2)"
    and "agent_call_follow cfg rq' (Inr out) sv3 = (answer, sv4)"
  shows "case co_response out of
      None \<Rightarrow> answer = write_coalesced out \<and> sv_backend sv4 = sv_backend sv3
    | Some r \<Rightarrow>
        if answer = write_coalesced out
        then \<exists>e f. last (stored (mb_sessions (sv_backend sv2)) (ap_session ap)) = e \<and> ev_id e = co_event out
          \<and> stored (mb_sessions (sv_backend sv4)) = (stored (mb_sessions (sv_backend sv3)))
              (ap_session ap := stored (mb_sessions (sv_backend sv3)) (ap_session ap) @ [f])
          \<and> consult_event_of f = (consult_event_of e)
              \<lparr>ce_id := ev_id f, ce_role := RoleFollower, ce_leader_event := co_event out\<rparr>
        else stored (mb_sessions (sv_backend sv4)) = stored (mb_sessions (sv_backend sv3))"
proof (cases "co_response out")
  case None
  with assms(6) show ?thesis by (simp add: agent_call_follow_def)
next
  case (Some r)
  let ?sid = "ap_session ap" and ?spine = "\<lambda>b. stored (mb_sessions b)"
  have ok: "sv1 = sv" "prepared_ok ap" using prepare_ok [OF assms(4)] by simp_all
  from ms.agent_work_spine [OF assms(1,2) ok(2) assms(5) [unfolded ok(1)]] Some
  obtain m e res es where r: "recorded_response ap res out m r e" "tu_session res = ?sid" "tu_branch res = ap_branch ap"
    and sp: "?spine (sv_backend sv2) = (?spine (sv_backend sv))(?sid := ?spine (sv_backend sv) ?sid @ es @ [e])"
    by auto
  note like = consult_records_alike [OF r ok(2)]
  obtain x sv' where ap: "append_consult_event cfg (hq_late rq') (follower_record r (co_event out)) sv3 = (x, sv')"
    by fastforce
  note after = ms.append_consult_spine [OF assms(1,3) like(1) ap, unfolded like(2)]
  show ?thesis
  proof (cases x)
    case (Inl err)
    then have "answer \<noteq> write_coalesced out" "sv_backend sv4 = sv_backend sv'"
      using assms(6) Some ap like(3,4) by (auto simp: agent_call_follow_def fail_with_def write_coalesced_def write_json_error_def)
    with Some Inl after show ?thesis by simp
  next
    case (Inr eid)
    then have "answer = write_coalesced out" "sv4 = sv'"
      using assms(6) Some ap like(3) by (simp_all add: agent_call_follow_def)
    moreover obtain f where f: "consult_written (follower_record r (co_event out)) eid f"
      "?spine (sv_backend sv') = (?spine (sv_backend sv3))(?sid := ?spine (sv_backend sv3) ?sid @ [f])"
      using after Inr by auto
    ultimately show ?thesis using Some sp f(2) like(5) [OF f(1)] like(6)
      by (simp, intro exI [of _ e] exI [of _ f]) simp
  qed
qed

subsection \<open>Calls without tools\<close>

lemma append_to_spine_tools [simp]: "sn_tools (snd (append_to_spine cfg c e s)) = sn_tools s"
  by (simp add: append_to_spine_def split_def Let_def)

lemma emit_tools [simp]: "sn_tools (snd (emit cfg c tag kind bid parent meta s)) = sn_tools s"
  by (simp add: emit_def next_event_id_def read_clock_def)

lemma emit_keeps_tools: "emit cfg c tag kind bid parent meta s = (x, s') \<Longrightarrow> sn_tools s' = sn_tools s"
  using emit_tools [of cfg c tag kind bid parent meta s] by simp

lemma set_sched_tools [simp]: "sn_tools (set_sched f s) = sn_tools s"
  by (simp add: set_sched_def)

lemma blob_tools [simp]: "sn_tools (snd (append_blob_to cfg c r p s)) = sn_tools s"
  by (simp add: append_blob_to_def split_def Let_def)

lemma assemble_keeps_tools: "assemble_for_branch cfg c bid ext s = (r, s') \<Longrightarrow> sn_tools s' = sn_tools s"
  by (auto simp: assemble_for_branch_def Let_def dest: emit_keeps_tools split: sum.splits option.splits prod.splits)

lemma audit_keeps_tools: "audit_turn cfg n tracker s = (r, t, s') \<Longrightarrow> sn_tools s' = sn_tools s"
  by (auto simp: audit_turn_def read_clock_def audit_record_turn_def Let_def split: option.splits prod.splits)

lemma compaction_tools [simp]: "sn_tools (run_compaction cfg cq c bid events reason s) = sn_tools s"
  by (simp add: run_compaction_def split_def Let_def read_clock_def split: option.split sum.split)

lemma record_turn_tools [simp]: "sn_tools (record_turn_and_maybe_compact cfg c bid s) = sn_tools s"
  by (simp add: record_turn_and_maybe_compact_def split_def Let_def split: option.split)

lemma agent_answer_keeps_tools:
  "agent_answer cfg c bid resp bytes sels ex tc s = (r, s') \<Longrightarrow> sn_tools s' = sn_tools s"
  by (auto simp: agent_answer_def dest: emit_keeps_tools split: option.splits prod.splits)

lemma no_runner_tools: "sc_runner cfg = None \<Longrightarrow> execute_tool_calls cfg c bid tcs s = (r, s') \<Longrightarrow> r \<noteq> None \<and> s' = s"
  by (cases tcs) auto

lemma turn_loop_keeps_tools:
  "sc_runner cfg = None \<Longrightarrow> turn_loop cfg c bid ext left tracker bytes s = (r, s') \<Longrightarrow> sn_tools s' = sn_tools s"
proof (induction left arbitrary: tracker bytes s)
  case (Suc left)
  from Suc.prems(2) show ?case
    by (simp only: turn_loop.simps)
       (auto simp: Let_def next_event_id_def read_clock_def
          dest!: no_runner_tools [OF Suc.prems(1)] Suc.IH [OF Suc.prems(1)] assemble_keeps_tools emit_keeps_tools
            audit_keeps_tools agent_answer_keeps_tools
          split: prod.splits sum.splits option.splits if_splits)
qed simp

lemma handle_user_turn_keeps_tools:
  "sc_runner cfg = None \<Longrightarrow> handle_user_turn cfg c branch text ext s = (r, s') \<Longrightarrow> sn_tools s' = sn_tools s"
  by (auto simp: handle_user_turn_def Let_def next_event_id_def dest!: turn_loop_keeps_tools emit_keeps_tools
      split: prod.splits option.splits)

text \<open>
  A call that does not allow tools runs none: the tool runner's state is what it was, whatever the
  model answers; and when the model asks for a tool the call fails with status 422 and the code
  \<open>tools_disabled\<close>.
\<close>

theorem tools_disabled_runs_no_tool:
  assumes "\<not> pr_allow_tools (ap_pf ap)" and "agent_call_work cfg rq ap sv = (out, sv')"
  shows "sv_tools sv' = sv_tools sv
    \<and> (case start_session_with_runner cfg (ap_session ap) (ap_branch ap) None sv of
         Inl err \<Rightarrow> co_code out = ''runtime_error''
       | Inr (scfg, s) \<Rightarrow>
           (case handle_user_turn scfg (hq_ctx rq) (ap_branch ap) (ap_text ap) (ap_external ap) s of
              ((res, Some err), s1) \<Rightarrow> co_response out = None \<and>
                (if errors_is err ErrNoToolRunnerConfigured
                 then co_status out = 422 \<and> co_code out = ''tools_disabled''
                 else co_status out = 500 \<and> co_code out = ''agent_call_failed'')
            | ((res, None), s1) \<Rightarrow> co_code out \<notin> {''tools_disabled'', ''agent_call_failed''}))"
proof -
  have tools: "sv_tools sv2 = sv_tools sv1" if "agent_call_record cfg rq ap res sv1 = (out, sv2)" for res sv1 sv2
    using that by (auto simp: agent_call_record_def Let_def append_consult_event_def next_consult_event_id_def
        failed_call_def split: sum.splits option.splits prod.splits)
  have code: "co_code out \<notin> {''tools_disabled'', ''agent_call_failed''}"
    if "agent_call_record cfg rq ap res sv1 = (out, sv2)" for res sv1 sv2
    using that by (auto simp: agent_call_record_def Let_def failed_call_def split: sum.splits prod.splits)
  show ?thesis
  proof (cases "start_session_with_runner cfg (ap_session ap) (ap_branch ap) None sv")
    case (Inl err)
    with assms show ?thesis by (auto simp: agent_call_work_def failed_call_def)
  next
    case (Inr x)
    obtain scfg s where x: "x = (scfg, s)" by (cases x)
    obtain res err s1 where h: "handle_user_turn scfg (hq_ctx rq) (ap_branch ap) (ap_text ap) (ap_external ap) s = ((res, err), s1)"
      by (metis prod.collapse)
    have "sc_runner scfg = None" "sn_tools s = sv_tools sv"
      using Inr by (auto simp: x start_session_with_runner_def start_session_def sess_defaults_def session_cfg_def
          Let_def split: if_splits sum.splits)
    with handle_user_turn_keeps_tools h have t: "sn_tools s1 = sv_tools sv" by metis
    show ?thesis
    proof (cases err)
      case None
      with assms Inr x h have "agent_call_record cfg rq ap res (leave_session s1 sv) = (out, sv')"
        by (simp add: agent_call_work_def Let_def)
      with tools code t Inr x h None show ?thesis by (auto simp: leave_session_def)
    next
      case (Some e)
      with assms Inr x h t show ?thesis
        by (auto simp: agent_call_work_def Let_def failed_call_def leave_session_def
            StatusUnprocessableEntity_def StatusInternalServerError_def split: if_splits)
    qed
  qed
qed

subsection \<open>Instances\<close>

text \<open>The demonstration server, called once and followed once.\<close>

definition demo_out :: "coalesced \<times> (mem_backend, nat, unit, unit) server" where
  "demo_out = agent_call_work demo_server_cfg (agent_post ''hi'') demo_ap demo_server"

lemma demo_server_inv: "vc_ops demo_server_cfg = mem_ops" "mb_inv (sv_backend demo_server)"
  by (simp_all add: demo_server_cfg_def demo_server_def new_server_def Let_def)

theorem agent_call_records_consult_witness:
  "\<exists>es. stored (mb_sessions (sv_backend (snd demo_out))) = (stored (mb_sessions new_mem_backend))(ap_session demo_ap := es)"
proof -
  obtain out sv2 where w: "agent_call_work demo_server_cfg (agent_post ''hi'') demo_ap demo_server = (out, sv2)" by fastforce
  have "sv_backend demo_server = new_mem_backend" by (simp add: demo_server_def new_server_def Let_def)
  with agent_call_records_consult [OF demo_server_inv demo_prepare w] w show ?thesis by (auto simp: demo_out_def)
qed

theorem follower_consult_mirrors_leader_witness:
  "\<forall>x. stored (mb_sessions (sv_backend (snd (agent_call_follow demo_server_cfg (agent_post ''hi'') (Inr (fst demo_out)) demo_server))))
     x = [] \<or> x = ap_session demo_ap"
proof -
  obtain out sv2 where w: "agent_call_work demo_server_cfg (agent_post ''hi'') demo_ap demo_server = (out, sv2)" by fastforce
  obtain a sv4 where f: "agent_call_follow demo_server_cfg (agent_post ''hi'') (Inr out) demo_server = (a, sv4)" by fastforce
  have "sv_backend demo_server = new_mem_backend" by (simp add: demo_server_def new_server_def Let_def)
  with follower_consult_mirrors_leader [OF demo_server_inv demo_server_inv(2) demo_prepare w f] w f show ?thesis
    by (auto simp: demo_out_def demo_empty split: option.splits if_splits)
qed

text \<open>The same call, not allowed to use tools.\<close>

theorem tools_disabled_runs_no_tool_witness:
  "sv_tools (snd (agent_call_work demo_server_cfg (agent_post ''hi'')
     (demo_ap\<lparr>ap_pf := (ap_pf demo_ap)\<lparr>pr_allow_tools := False\<rparr>\<rparr>) demo_server)) = sv_tools demo_server"
proof -
  let ?ap = "demo_ap\<lparr>ap_pf := (ap_pf demo_ap)\<lparr>pr_allow_tools := False\<rparr>\<rparr>"
  obtain out sv' where w: "agent_call_work demo_server_cfg (agent_post ''hi'') ?ap demo_server = (out, sv')" by fastforce
  with tools_disabled_runs_no_tool [OF _ w] show ?thesis by simp
qed

end
