(* ===== verification/ServerCounts.thy ===== *)
theory ServerCounts
  imports ServerFlight
begin

text \<open>
  What the handlers count: one request for each request, one error for each failed reply, under the name
  of the route.
\<close>

definition counts :: "('b, 'm, 't, 'd) server \<Rightarrow> (counters \<times> counters) option" where
  "counts sv = map_option (\<lambda>r. (mr_requests r, mr_errors r)) (sv_metrics sv)"

text \<open>
  A reply that reports a failure: any status but 200, and a dream that was triggered and went wrong, which
  is reported with status 200.
\<close>

definition reply_failed :: "reply \<Rightarrow> bool" where
  "reply_failed r =
     (case r of Aborted \<Rightarrow> False
      | Reply status p \<Rightarrow> status \<noteq> StatusOK \<or> (case p of DreamReply d \<Rightarrow> dp_triggered d \<and> \<not> dp_ok d | _ \<Rightarrow> False))"

definition tally_reply :: "string \<Rightarrow> reply \<Rightarrow> (counters \<times> counters) option \<Rightarrow> (counters \<times> counters) option" where
  "tally_reply route r = map_option (apsnd (if reply_failed r then add_to route 1 else id))"

lemma statuses_differ [simp]:
  "StatusBadRequest \<noteq> StatusOK" "StatusNotFound \<noteq> StatusOK" "StatusMethodNotAllowed \<noteq> StatusOK"
  "StatusUnprocessableEntity \<noteq> StatusOK" "StatusInternalServerError \<noteq> StatusOK" "StatusGatewayTimeout \<noteq> StatusOK"
  by (simp_all add: StatusOK_def StatusBadRequest_def StatusNotFound_def StatusMethodNotAllowed_def
      StatusUnprocessableEntity_def StatusInternalServerError_def StatusGatewayTimeout_def)

lemma reply_failed_error [simp]: "reply_failed (write_json_error status code msg) = (status \<noteq> StatusOK)"
  by (simp add: reply_failed_def write_json_error_def)

lemma counts_ticks [simp]: "counts (sv\<lparr>sv_ticks := n\<rparr>) = counts sv"
  "counts (sv\<lparr>sv_backend := b\<rparr>) = counts sv" "counts (sv\<lparr>sv_inflight := i\<rparr>) = counts sv"
  "counts (sv\<lparr>sv_consults := k\<rparr>) = counts sv"
  by (simp_all add: counts_def)

lemma counts_request [simp]: "counts (count_request route sv) = map_option (apfst (add_to route 1)) (counts sv)"
  by (cases "sv_metrics sv") (simp_all add: counts_def count_request_def inc_request_def)

lemma counts_fail [simp]:
  "status \<noteq> StatusOK \<Longrightarrow> counts (snd (fail_with route status code msg sv)) =
     tally_reply route (fst (fail_with route status code msg sv)) (counts sv)"
  by (cases "sv_metrics sv") (simp_all add: counts_def fail_with_def inc_error_def tally_reply_def)

lemma counts_leave [simp]: "counts (leave_session s sv) = counts sv"
  by (simp add: counts_def leave_session_def)

lemma counts_timed: "counts (snd (timed cfg name h sv)) = counts (snd (h (sv\<lparr>sv_ticks := sv_ticks sv + 2\<rparr>)))"
  "fst (timed cfg name h sv) = fst (h (sv\<lparr>sv_ticks := sv_ticks sv + 2\<rparr>))"
  by (simp_all add: timed_def Let_def split_def counts_def observe_latency_def option.map_comp comp_def)

lemma counts_consult: "append_consult_event cfg c rec sv = (r, sv1) \<Longrightarrow> counts sv1 = counts sv"
  by (auto simp: append_consult_event_def next_consult_event_id_def Let_def split_def counts_def split: option.splits)

lemma tally_ok [simp]:
  "tally_reply route (Reply StatusOK (TurnReply x)) = id" "tally_reply route (Reply StatusOK (AgentReply a)) = id"
  "tally_reply route (Reply StatusOK (ForkReply b)) = id" "tally_reply route (Reply StatusOK (ReplayReply y)) = id"
  "tally_reply route (Reply StatusOK (HealthReply z)) = id" "tally_reply route (Reply StatusOK (MetricsReply m)) = id"
  "tally_reply route Aborted = id"
  by (simp_all add: tally_reply_def reply_failed_def apsnd_def map_prod.id option.map_id0)

lemma handle_turn_counts:
  "counts (snd (handle_turn cfg rq sv)) = tally_reply ''/v1/turn'' (fst (handle_turn cfg rq sv))
     (map_option (apfst (add_to ''/v1/turn'' 1)) (counts sv))"
  unfolding handle_turn_def Let_def counts_timed
  by (simp add: split_def split: sum.split option.split)

lemma handle_fork_counts:
  "counts (snd (handle_branch_fork cfg rq sv)) = tally_reply ''/v1/branch/fork'' (fst (handle_branch_fork cfg rq sv))
     (map_option (apfst (add_to ''/v1/branch/fork'' 1)) (counts sv))"
  unfolding handle_branch_fork_def Let_def
  by (simp add: split_def split: sum.split option.split)

lemma handle_replay_counts:
  "counts (snd (handle_session_replay cfg rq sv)) =
     tally_reply ''/v1/session/{id}/replay'' (fst (handle_session_replay cfg rq sv))
       (map_option (apfst (add_to ''/v1/session/{id}/replay'' 1)) (counts sv))"
  unfolding handle_session_replay_def Let_def counts_timed
  by (simp add: split_def split: sum.split option.split)

lemma dream_report_counts:
  "counts (snd (dream_and_report dd rq sid sv)) = tally_reply ''/v1/dream'' (fst (dream_and_report dd rq sid sv)) (counts sv)"
  by (cases "sv_metrics sv")
     (simp_all add: dream_and_report_def tally_reply_def reply_failed_def counts_def inc_error_def
        inc_dream_execution_def split: prod.split sum.split)

lemma dream_if_due_counts:
  "counts (snd (dream_if_due dd rq req sid sv)) = tally_reply ''/v1/dream'' (fst (dream_if_due dd rq req sid sv)) (counts sv)"
proof -
  have same: "counts (sv\<lparr>sv_dream := d\<rparr>) = counts sv" for d by (simp add: counts_def)
  obtain due d where due: "do_should dd (sv_dream sv) = (due, d)" by (cases "do_should dd (sv_dream sv)")
  consider "dq_trigger req" | "\<not> dq_trigger req" "due" | "\<not> dq_trigger req" "\<not> due" by blast
  then show ?thesis
  proof cases
    case 3
    then show ?thesis
      by (simp add: dream_if_due_def due same tally_reply_def reply_failed_def StatusOK_def apsnd_def
          map_prod.id option.map_id0)
  qed (simp_all add: dream_if_due_def due dream_report_counts same)
qed

lemma handle_dream_counts:
  "counts (snd (handle_dream cfg rq sv)) = tally_reply ''/v1/dream'' (fst (handle_dream cfg rq sv))
     (map_option (apfst (add_to ''/v1/dream'' 1)) (counts sv))"
  unfolding handle_dream_def Let_def counts_timed
  by (simp add: dream_if_due_counts split: sum.split option.split)
     (simp add: tally_reply_def reply_failed_def apsnd_def map_prod.id option.map_id0)

lemma failed_call_counts:
  assumes "failed_call status code msg sv = (out, sv')" and "status \<noteq> StatusOK" and "code \<noteq> []"
  shows "counts sv' = tally_reply ''/v1/agent-call'' (write_coalesced out) (counts sv)"
  using assms by (cases "sv_metrics sv")
    (auto simp: failed_call_def counts_def inc_error_def tally_reply_def write_coalesced_def)

lemma record_counts:
  assumes "agent_call_record cfg rq ap res sv = (out, sv')"
  shows "counts sv' = tally_reply ''/v1/agent-call'' (write_coalesced out) (counts sv)"
proof (cases "build_consult_manifest (ap_session ap) (ap_branch ap) (ap_fingerprint ap) (ap_pf ap) (ap_task ap)
          (tu_selected res) (tu_explanation res)")
  case (Inl err)
  with assms show ?thesis by (simp add: agent_call_record_def Let_def failed_call_counts)
next
  case (Inr m)
  obtain x sv1 where a: "append_consult_event cfg (hq_late rq) (leader_record ap m) sv = (x, sv1)" by fastforce
  with counts_consult [OF a] Inr assms show ?thesis
    by (cases x) (auto simp: agent_call_record_def Let_def write_coalesced_def dest: failed_call_counts)
qed

lemma work_counts:
  assumes "agent_call_work cfg rq ap sv = (out, sv')"
  shows "counts sv' = tally_reply ''/v1/agent-call'' (write_coalesced out) (counts sv)"
proof -
  define runner where "runner = (if \<not> pr_allow_tools (ap_pf ap) then None else vc_runner cfg)"
  show ?thesis
  proof (cases "start_session_with_runner cfg (ap_session ap) (ap_branch ap) runner sv")
    case (Inl err)
    with assms show ?thesis by (simp add: agent_call_work_def runner_def [symmetric] failed_call_counts)
  next
    case (Inr x)
    obtain scfg s where x: "x = (scfg, s)" by (cases x)
    obtain res err s1 where h: "handle_user_turn scfg (hq_ctx rq) (ap_branch ap) (ap_text ap) (ap_external ap) s = ((res, err), s1)"
      by (metis prod.collapse)
    have c: "counts (leave_session s1 sv) = counts sv" by simp
    show ?thesis
    proof (cases err)
      case None
      with assms Inr x h show ?thesis
        using record_counts [of cfg rq ap res "leave_session s1 sv" out sv']
        by (simp add: agent_call_work_def runner_def [symmetric] Let_def)
    next
      case (Some e)
      with assms Inr x h c show ?thesis
        by (auto simp: agent_call_work_def runner_def [symmetric] Let_def dest!: failed_call_counts split: if_splits)
    qed
  qed
qed

lemma lead_counts:
  "counts (snd (agent_call_lead cfg rq ap t sv)) =
     tally_reply ''/v1/agent-call'' (fst (agent_call_lead cfg rq ap t sv)) (counts sv)"
  using work_counts [of cfg rq ap sv] by (cases "agent_call_work cfg rq ap sv") (simp add: agent_call_lead_def)

lemma unresolved_counts:
  "counts (snd (agent_call_unresolved cfg rq req pf sv)) =
     tally_reply ''/v1/agent-call'' (fst (agent_call_unresolved cfg rq req pf sv)) (counts sv)"
  by (auto simp: agent_call_unresolved_def Let_def dest!: counts_consult split: prod.split sum.split)

lemma prepare_counts:
  assumes "agent_call_prepare cfg rq sv = (x, sv')"
  shows "counts sv' = (case x of Inl r \<Rightarrow> tally_reply ''/v1/agent-call'' r (counts sv) | Inr ap \<Rightarrow> counts sv)"
proof -
  have "counts (snd (agent_call_prepare cfg rq sv)) =
    (case fst (agent_call_prepare cfg rq sv) of Inl r \<Rightarrow> tally_reply ''/v1/agent-call'' r (counts sv) | Inr ap \<Rightarrow> counts sv)"
    by (simp add: agent_call_prepare_def Let_def split_def unresolved_counts split: sum.split option.split)
  then show ?thesis by (simp add: assms)
qed

text \<open>The name under which the requests of a path are counted.\<close>

definition route_of :: "string \<Rightarrow> string option" where
  "route_of path =
     (if path \<in> {''/healthz'', ''/metrics'', ''/v1/turn'', ''/v1/agent-call'', ''/v1/branch/fork'', ''/v1/dream''}
      then Some path
      else if prefix ''/v1/session/'' path then Some ''/v1/session/{id}/replay'' else None)"

lemma handle_agent_counts:
  assumes "if_calls (sv_inflight sv) = Map.empty" and "handle_agent_call cfg rq sv = (Some r, sv')"
  shows "counts sv' = tally_reply ''/v1/agent-call'' r (map_option (apfst (add_to ''/v1/agent-call'' 1)) (counts sv))"
proof -
  define sv0 where "sv0 = (count_request ''/v1/agent-call'' sv)\<lparr>sv_ticks := sv_ticks (count_request ''/v1/agent-call'' sv) + 2\<rparr>"
  have c0: "counts sv0 = map_option (apfst (add_to ''/v1/agent-call'' 1)) (counts sv)" by (simp add: sv0_def)
  obtain x sv1 where prep: "agent_call_prepare cfg rq sv0 = (x, sv1)" by fastforce
  note pc = prepare_counts [OF prep]
  let ?h = "\<lambda>sv. case agent_call_prepare cfg rq sv of
         (Inl r, sv1) \<Rightarrow> (Some r, sv1)
       | (Inr ap, sv1) \<Rightarrow>
         let (t, sv2) = agent_call_enter ap sv1 in
         if tk_leader t then apfst Some (agent_call_lead cfg rq ap t sv2)
         else case if_wait (hq_ctx rq) t (sv_inflight sv2) of
             [] \<Rightarrow> (None, sv2)
           | got # _ \<Rightarrow> apfst Some (agent_call_follow cfg rq got sv2)"
  have eq: "counts sv' = counts (snd (?h sv0))" "Some r = fst (?h sv0)"
    using counts_timed [of cfg "''agent_call_latency_ms''" ?h "count_request ''/v1/agent-call'' sv"] assms(2)
    unfolding handle_agent_call_def sv0_def by simp_all
  show ?thesis
  proof (cases x)
    case (Inl r0)
    with eq prep pc c0 show ?thesis by simp
  next
    case (Inr ap)
    have "sv_inflight sv1 = sv_inflight sv0" using prepare_inflight prep by (metis snd_conv)
    then have "if_calls (sv_inflight sv1) = Map.empty" using assms(1) by (simp add: sv0_def)
    then obtain t sv2 where enter: "agent_call_enter ap sv1 = (t, sv2)" "tk_leader t" "counts sv2 = counts sv1"
      by (simp add: agent_call_enter_def if_enter_def Let_def)
    from eq prep Inr enter lead_counts [of cfg rq ap t sv2] pc c0 show ?thesis
      by (simp add: apfst_def map_prod_def split_def)
  qed
qed

text \<open>A follower counts a failure of its own and not that of its leader, which it passes on.\<close>

definition follower_fails ::
  "('b, 'm, 't, 'd) server_cfg \<Rightarrow> http_request \<Rightarrow> goerr + coalesced \<Rightarrow> ('b, 'm, 't, 'd) server \<Rightarrow> bool" where
  "follower_fails cfg rq got sv \<longleftrightarrow>
     (case got of Inl err \<Rightarrow> True
      | Inr out \<Rightarrow> (case co_response out of None \<Rightarrow> False
          | Some x \<Rightarrow> ag_resolved x \<and>
              (case fst (append_consult_event cfg (hq_late rq) (follower_record x (co_event out)) sv) of
                 Inl err \<Rightarrow> True | Inr i \<Rightarrow> False)))"

lemma follow_counts:
  "agent_call_follow cfg rq got sv = (r, sv') \<Longrightarrow>
     (if follower_fails cfg rq got sv
      then reply_failed r \<and> counts sv' = map_option (apsnd (add_to ''/v1/agent-call'' 1)) (counts sv)
      else (\<exists>out. got = Inr out \<and> r = write_coalesced out) \<and> counts sv' = counts sv)"
  using counts_fail [of StatusGatewayTimeout "''/v1/agent-call''"] counts_fail [of StatusInternalServerError "''/v1/agent-call''"]
  by (auto simp: agent_call_follow_def follower_fails_def tally_reply_def fail_with_def
      split: sum.splits option.splits prod.splits if_splits dest: counts_consult)

text \<open>
  C14. The counters of requests served one at a time tell the truth: a request on a known route, with no
  call in flight, raises the request counter of that route by one, raises its error counter by one exactly
  when the reply reports a failure (a status other than 200, or a triggered dream that failed), and
  changes no other request or error counter. An agent call that was coalesced with another is different:
  a follower counts an error when its wait or its own consult event fails, but not when it passes on the
  outcome of its leader, even if that is a failure.
\<close>

theorem handle_counts_requests_and_errors:
  assumes "sv_metrics sv = Some reg" and "if_calls (sv_inflight sv) = Map.empty"
    and "route_of (hq_path rq) = Some route" and "handle cfg rq sv = (Some r, sv')"
    and "sv_metrics fs = Some freg" and "agent_call_follow cfg frq got fs = (fr, fs')"
  shows "(\<exists>reg'. sv_metrics sv' = Some reg' \<and> mr_requests reg' = add_to route 1 (mr_requests reg)
      \<and> mr_errors reg' = (if reply_failed r then add_to route 1 (mr_errors reg) else mr_errors reg))
    \<and> (\<exists>freg'. sv_metrics fs' = Some freg' \<and> mr_requests freg' = mr_requests freg
      \<and> (if follower_fails cfg frq got fs
          then reply_failed fr \<and> mr_errors freg' = add_to ''/v1/agent-call'' 1 (mr_errors freg)
          else (\<exists>out. got = Inr out \<and> fr = write_coalesced out) \<and> mr_errors freg' = mr_errors freg))"
proof (rule conjI)
  show "\<exists>freg'. sv_metrics fs' = Some freg' \<and> mr_requests freg' = mr_requests freg
      \<and> (if follower_fails cfg frq got fs
          then reply_failed fr \<and> mr_errors freg' = add_to ''/v1/agent-call'' 1 (mr_errors freg)
          else (\<exists>out. got = Inr out \<and> fr = write_coalesced out) \<and> mr_errors freg' = mr_errors freg)"
    using follow_counts [OF assms(6)] assms(5)
    by (cases "sv_metrics fs'") (auto simp: counts_def split: if_splits)
  have health: "counts (snd (handle_healthz cfg rq sv)) = tally_reply ''/healthz'' (fst (handle_healthz cfg rq sv))
      (map_option (apfst (add_to ''/healthz'' 1)) (counts sv))"
    unfolding handle_healthz_def Let_def by (simp add: split_def)
  have metr: "counts (snd (handle_metrics rq sv)) = tally_reply ''/metrics'' (fst (handle_metrics rq sv))
      (map_option (apfst (add_to ''/metrics'' 1)) (counts sv))"
    unfolding handle_metrics_def Let_def by simp
  note each = health metr handle_turn_counts [of cfg rq sv] handle_fork_counts [of cfg rq sv]
    handle_replay_counts [of cfg rq sv] handle_dream_counts [of cfg rq sv]
  have ap: "apfst Some p = (Some r, sv') \<longleftrightarrow> p = (r, sv')" for p :: "reply \<times> ('a, 'b, 'c, 'd) server"
    by (cases p) simp
  have "counts sv' = tally_reply route r (map_option (apfst (add_to route 1)) (counts sv))"
  proof (cases "hq_path rq = ''/v1/agent-call''")
    case True
    have "handle_agent_call cfg rq sv = (Some r, sv')" using assms(4) by (simp add: handle_def True)
    moreover have "''/v1/agent-call'' = route" using assms(3) by (simp add: True route_of_def)
    ultimately show ?thesis using assms(2) handle_agent_counts by blast
  next
    case False
    with assms(3,4) show ?thesis
      by (auto simp: handle_def route_of_def ap split: if_splits) (use each in simp)+
  qed
  then show "\<exists>reg'. sv_metrics sv' = Some reg' \<and> mr_requests reg' = add_to route 1 (mr_requests reg)
      \<and> mr_errors reg' = (if reply_failed r then add_to route 1 (mr_errors reg) else mr_errors reg)"
    using assms(1) by (cases "sv_metrics sv'") (auto simp: counts_def tally_reply_def split: if_splits)
qed

text \<open>
  A \<open>GET\<close> on the route for turns is refused and counted as an error; a follower that passes on a failure of
  its leader counts none.
\<close>

definition failed_outcome :: coalesced where
  "failed_outcome = \<lparr>co_status = StatusInternalServerError, co_response = None,
     co_code = ''agent_call_failed'', co_message = ''m'', co_event = []\<rparr>"

theorem handle_counts_requests_and_errors_witness:
  "(\<exists>reg'. sv_metrics (snd (handle demo_server_cfg
       ((agent_post [])\<lparr>hq_method := ''GET'', hq_path := ''/v1/turn''\<rparr>) demo_server)) = Some reg'
     \<and> mr_errors reg' ''/v1/turn'' = Some 1)
   \<and> (\<exists>freg. sv_metrics (snd (agent_call_follow demo_server_cfg (agent_post ''hi'') (Inr failed_outcome) demo_server)) = Some freg
        \<and> mr_errors freg ''/v1/agent-call'' = None)"
proof -
  let ?rq = "(agent_post [])\<lparr>hq_method := ''GET'', hq_path := ''/v1/turn''\<rparr>"
  obtain sv' where h: "handle demo_server_cfg ?rq demo_server =
      (Some (write_json_error StatusMethodNotAllowed ''method_not_allowed'' ''method not allowed''), sv')"
    by (simp add: handle_def handle_turn_def Let_def timed_def fail_with_def agent_post_def)
  obtain reg where reg: "sv_metrics demo_server = Some reg" "mr_errors reg = Map.empty"
    by (simp add: demo_server_def new_server_def Let_def set_modes_def new_registry_def)
  have idle: "if_calls (sv_inflight demo_server) = Map.empty" by (simp add: demo_inflight new_inflight_def)
  have route: "route_of (hq_path ?rq) = Some ''/v1/turn''" by (simp add: route_of_def)
  have follow: "agent_call_follow demo_server_cfg (agent_post ''hi'') (Inr failed_outcome) demo_server
      = (write_coalesced failed_outcome, demo_server)"
    and own: "\<not> follower_fails demo_server_cfg (agent_post ''hi'') (Inr failed_outcome) demo_server"
    by (simp_all add: agent_call_follow_def follower_fails_def failed_outcome_def)
  note both = handle_counts_requests_and_errors [OF reg(1) idle route h reg(1) follow]
  from both [THEN conjunct1] reg(2) h have "\<exists>reg'. sv_metrics (snd (handle demo_server_cfg ?rq demo_server)) = Some reg'
      \<and> mr_errors reg' ''/v1/turn'' = Some 1"
    by (auto simp: add_to_def)
  moreover from both [THEN conjunct2] own reg(2) follow have "\<exists>freg. sv_metrics (snd (agent_call_follow demo_server_cfg
      (agent_post ''hi'') (Inr failed_outcome) demo_server)) = Some freg \<and> mr_errors freg ''/v1/agent-call'' = None"
    by auto
  ultimately show ?thesis by (rule conjI)
qed

end
