(* ===== verification/Consultloop.thy ===== *)
theory Consultloop
  imports Eventlog SelfAudit
begin

text \<open>
  Package \<open>internal/consultloop\<close>: the self-healing loop around a turn. The turn is a function on a
  state of its own; a model adapter is known by its name. Event times come from a clock that is read
  once for every recorded event.
\<close>

subsection \<open>Types\<close>

record turn_outcome =
  to_answer :: string
  to_decision :: string
  to_adapter :: string
  to_envelope :: int
  to_tokens :: int

definition empty_outcome :: turn_outcome where
  "empty_outcome = \<lparr>to_answer = [], to_decision = [], to_adapter = [], to_envelope = 0, to_tokens = 0\<rparr>"

record recovery_config =
  rc_max_retries :: int
  rc_models :: "string list"
  rc_prompt :: string

record recovery_event =
  rv_attempt :: int
  rv_error :: string
  rv_type :: string
  rv_model :: string
  rv_ts :: gotime

definition default_recovery_config :: recovery_config where
  "default_recovery_config = \<lparr>rc_max_retries = 1, rc_models = [],
     rc_prompt = ''Continue from last stable checkpoint. Do not repeat prior output. '' @
       ''Focus on the user's original query and provide a concise, complete response.''\<rparr>"

definition new_executor :: "recovery_config \<Rightarrow> recovery_config" where
  "new_executor cfg =
     (let c1 = (if rc_max_retries cfg \<le> 0 then cfg\<lparr>rc_max_retries := 1\<rparr> else cfg)
      in if rc_prompt c1 = [] then c1\<lparr>rc_prompt := rc_prompt default_recovery_config\<rparr> else c1)"

subsection \<open>Errors and events\<close>

definition contains_any :: "string \<Rightarrow> string list \<Rightarrow> bool" where
  "contains_any s subs \<longleftrightarrow> list_ex (\<lambda>sub. sublist sub s) subs"

definition is_recoverable_error :: "goerr \<Rightarrow> bool" where
  "is_recoverable_error err =
     (let msg = err_msg err in
      if contains_any msg [''token'', ''budget'', ''exhaust'', ''overflow'', ''context_length''] then True
      else if contains_any msg [''timeout'', ''rate_limit'', ''service_unavailable'', ''overloaded''] then True
      else if contains_any msg [''context'', ''too long'', ''exceeds''] then True
      else False)"

definition recovery_type :: "int \<Rightarrow> int \<Rightarrow> string" where
  "recovery_type attempt model_idx =
     (if model_idx > 0 then ''fallback'' else if attempt > 0 then ''retry'' else ''initial'')"

definition recovery_event_of :: "recovery_event \<Rightarrow> event" where
  "recovery_event_of r =
     \<lparr>ev_id = ''recovery.'' @ rv_model r @ ''.'' @ int_str (unix_nano (rv_ts r)), ev_session = ''recovery'',
      ev_ts = rv_ts r,
      ev_kind = (if rv_type r = ''fallback'' then KindRecoveryFallback else KindRecoveryAttempt),
      ev_branch = ''main'', ev_parent = [], ev_refs = [],
      ev_meta = [(''attempt_number'', VInt (rv_attempt r)), (''original_error'', VStr (rv_error r)),
                 (''recovery_type'', VStr (rv_type r)), (''model_name'', VStr (rv_model r)),
                 (''recovery_prompt'', VStr ''injected'')],
      ev_blob = []\<rparr>"

definition error_str :: "goerr option \<Rightarrow> string" where
  "error_str e = (case e of None \<Rightarrow> [] | Some x \<Rightarrow> err_msg x)"

subsection \<open>The loop\<close>

text \<open>
  \<open>turn\<close> and the callback \<open>app\<close> act on the caller's state, \<open>clock\<close> reads it. The error of the
  callback is ignored.
\<close>

record 'w loop_env =
  le_turn :: "string \<Rightarrow> 'w \<Rightarrow> turn_outcome result \<times> 'w"
  le_append :: "(event \<Rightarrow> 'w \<Rightarrow> goerr option \<times> 'w) option"
  le_clock :: "'w \<Rightarrow> gotime"

definition append_recovery :: "'w loop_env \<Rightarrow> int \<Rightarrow> string \<Rightarrow> string \<Rightarrow> string \<Rightarrow> 'w \<Rightarrow> 'w" where
  "append_recovery env attempt err typ model w =
     (case le_append env of None \<Rightarrow> w | Some f \<Rightarrow>
        snd (f (recovery_event_of \<lparr>rv_attempt = attempt, rv_error = err, rv_type = typ,
                                   rv_model = model, rv_ts = le_clock env w\<rparr>) w))"

text \<open>
  The inner loop on one model, from \<open>attempt\<close>, with \<open>left\<close> further attempts after this one: either
  the outcome, or the last error.
\<close>

fun attempt_loop ::
  "'w loop_env \<Rightarrow> string \<Rightarrow> int \<Rightarrow> nat \<Rightarrow> int \<Rightarrow> goerr option \<Rightarrow> 'w
   \<Rightarrow> (goerr option + turn_outcome) \<times> 'w" where
  "attempt_loop env model idx left attempt last_err w =
     (case le_turn env model w of
        (Inr outcome, w1) \<Rightarrow>
          (let w2 = (if attempt > 0 \<or> idx > 0
                     then append_recovery env attempt (error_str last_err) (recovery_type attempt idx) model w1
                     else w1)
           in (Inr (outcome\<lparr>to_adapter := model\<rparr>), w2))
      | (Inl err, w1) \<Rightarrow>
          if \<not> is_recoverable_error err then (Inl (Some err), w1)
          else (case left of
                  0 \<Rightarrow> (Inl (Some err), w1)
                | Suc k \<Rightarrow>
                    attempt_loop env model idx k (attempt + 1) (Some err)
                      (append_recovery env (attempt + 1) (err_msg err) ''retry'' model w1)))"

declare attempt_loop.simps [simp del]

text \<open>The loop over the attempts, which a negative number of retries skips.\<close>

definition attempts ::
  "'w loop_env \<Rightarrow> string \<Rightarrow> int \<Rightarrow> int \<Rightarrow> goerr option \<Rightarrow> 'w
   \<Rightarrow> (goerr option + turn_outcome) \<times> 'w" where
  "attempts env model idx retries last_err w =
     (if retries < 0 then (Inl last_err, w) else attempt_loop env model idx (nat retries) 0 last_err w)"

fun model_loop ::
  "'w loop_env \<Rightarrow> int \<Rightarrow> int \<Rightarrow> string list \<Rightarrow> goerr option \<Rightarrow> 'w \<Rightarrow> turn_outcome result \<times> 'w" where
  "model_loop env retries idx [] last_err w =
     (Inl (case last_err of
             None \<Rightarrow> Adhoc ''all models exhausted after retries: %!w(<nil>)''
           | Some e \<Rightarrow> Wrapped (''all models exhausted after retries: '' @ err_msg e) e), w)"
| "model_loop env retries idx (m # ms) last_err w =
     (case attempts env m idx retries last_err w of
        (Inr outcome, w1) \<Rightarrow> (Inr outcome, w1)
      | (Inl le, w1) \<Rightarrow>
          (let w2 = (case ms of [] \<Rightarrow> w1
                     | m2 # _ \<Rightarrow> append_recovery env 0 (error_str le) ''fallback'' m2 w1)
           in model_loop env retries (idx + 1) ms le w2))"

definition execute_recovery :: "'w loop_env \<Rightarrow> recovery_config \<Rightarrow> string \<Rightarrow> 'w \<Rightarrow> turn_outcome result \<times> 'w" where
  "execute_recovery env cfg adapter w =
     (let models = (if rc_models cfg = [] then [adapter] else rc_models cfg)
      in model_loop env (rc_max_retries cfg) 0 models None w)"

subsection \<open>How often the turn runs, and on what\<close>

text \<open>The environment that also writes down the models the turn was run with.\<close>

definition traced :: "'w loop_env \<Rightarrow> ('w \<times> string list) loop_env" where
  "traced env = \<lparr>le_turn = \<lambda>m (w, tr). (let (r, w1) = le_turn env m w in (r, (w1, tr @ [m]))),
     le_append = (case le_append env of None \<Rightarrow> None
       | Some f \<Rightarrow> Some (\<lambda>e (w, tr). let (r, w1) = f e w in (r, (w1, tr)))),
     le_clock = \<lambda>(w, tr). le_clock env w\<rparr>"

lemma traced_turn: "le_turn (traced env) m (w, tr) = (fst (le_turn env m w), (snd (le_turn env m w), tr @ [m]))"
  by (simp add: traced_def split_def Let_def)

lemma traced_append: "append_recovery (traced env) a e t m (w, tr) = (append_recovery env a e t m w, tr)"
  by (simp add: append_recovery_def traced_def split_def Let_def split: option.split)

lemma attempt_loop_trace:
  "\<exists>n \<ge> 1. n \<le> left + 1 \<and>
     attempt_loop (traced env) m idx left a le (w, tr) =
       (fst (attempt_loop env m idx left a le w), (snd (attempt_loop env m idx left a le w), tr @ replicate n m))
   \<and> (\<forall>out. fst (attempt_loop env m idx left a le w) = Inr out \<longrightarrow> to_adapter out = m)
   \<and> (\<forall>e. fst (attempt_loop env m idx left a le w) = Inl e \<longrightarrow>
        e \<noteq> None \<and> (is_recoverable_error (the e) \<longrightarrow> n = left + 1))"
proof (induction "left" arbitrary: a le w tr)
  case 0
  show ?case
    by (cases "fst (le_turn env m w)"; rule exI [of _ 1])
       (auto simp: attempt_loop.simps [of "traced env"] attempt_loop.simps [of env] traced_turn
         traced_append split_def Let_def)
next
  case (Suc k)
  show ?case
  proof (cases "fst (le_turn env m w)")
    case (Inr out)
    then show ?thesis
      by (intro exI [of _ 1])
         (auto simp: attempt_loop.simps [of "traced env"] attempt_loop.simps [of env] traced_turn
           traced_append split_def Let_def)
  next
    case (Inl err)
    show ?thesis
    proof (cases "is_recoverable_error err")
      case False
      with Inl show ?thesis
        by (intro exI [of _ 1])
           (auto simp: attempt_loop.simps [of "traced env"] attempt_loop.simps [of env] traced_turn split_def)
    next
      case True
      let ?w = "append_recovery env (a + 1) (err_msg err) ''retry'' m (snd (le_turn env m w))"
      have step: "attempt_loop env m idx (Suc k) a le w = attempt_loop env m idx k (a + 1) (Some err) ?w"
        "attempt_loop (traced env) m idx (Suc k) a le (w, tr) =
           attempt_loop (traced env) m idx k (a + 1) (Some err) (?w, tr @ [m])"
        using Inl True
        by (simp_all add: attempt_loop.simps [of "traced env" _ _ "Suc k"] attempt_loop.simps [of env _ _ "Suc k"]
            traced_turn traced_append split_def)
      from Suc.IH [of "a + 1" "Some err" ?w "tr @ [m]"] obtain n where
        n: "1 \<le> n" "n \<le> k + 1"
          "attempt_loop (traced env) m idx k (a + 1) (Some err) (?w, tr @ [m]) =
            (fst (attempt_loop env m idx k (a + 1) (Some err) ?w),
             (snd (attempt_loop env m idx k (a + 1) (Some err) ?w), (tr @ [m]) @ replicate n m))"
          "\<forall>out. fst (attempt_loop env m idx k (a + 1) (Some err) ?w) = Inr out \<longrightarrow> to_adapter out = m"
          "\<forall>e. fst (attempt_loop env m idx k (a + 1) (Some err) ?w) = Inl e \<longrightarrow>
             e \<noteq> None \<and> (is_recoverable_error (the e) \<longrightarrow> n = k + 1)"
        by blast
      then show ?thesis
        unfolding step by (intro exI [of _ "Suc n"]) auto
    qed
  qed
qed

text \<open>How often a model may be run in one visit.\<close>

definition runs_ok :: "int \<Rightarrow> nat \<Rightarrow> bool" where
  "runs_ok retries n \<longleftrightarrow> (if retries < 0 then n = 0 else 1 \<le> n \<and> n \<le> nat retries + 1)"

lemma attempts_trace:
  "\<exists>n. runs_ok retries n \<and>
     attempts (traced env) m idx retries le (w, tr) =
       (fst (attempts env m idx retries le w), (snd (attempts env m idx retries le w), tr @ replicate n m))
   \<and> (\<forall>out. fst (attempts env m idx retries le w) = Inr out \<longrightarrow> to_adapter out = m \<and> 0 \<le> retries)"
proof (cases "retries < 0")
  case False
  then show ?thesis
    using attempt_loop_trace [of "nat retries" env m idx 0 le w tr] by (auto simp: attempts_def runs_ok_def)
qed (simp add: attempts_def runs_ok_def)

lemma model_loop_trace:
  "\<exists>ns. length ns \<le> length ms \<and> (\<forall>n \<in> set ns. runs_ok retries n) \<and>
     model_loop (traced env) retries idx ms le (w, tr) =
       (fst (model_loop env retries idx ms le w),
        (snd (model_loop env retries idx ms le w), tr @ concat (map2 replicate ns ms)))
   \<and> (\<forall>e. fst (model_loop env retries idx ms le w) = Inl e \<longrightarrow> length ns = length ms)
   \<and> (\<forall>out. fst (model_loop env retries idx ms le w) = Inr out \<longrightarrow>
        length ns > 0 \<and> 0 \<le> retries \<and> to_adapter out = ms ! (length ns - 1))"
proof (induction ms arbitrary: idx le w tr)
  case Nil
  show ?case by (simp add: exI [of _ "[]"])
next
  case (Cons m ms)
  obtain n where n: "runs_ok retries n"
      "attempts (traced env) m idx retries le (w, tr) =
       (fst (attempts env m idx retries le w),
        (snd (attempts env m idx retries le w), tr @ replicate n m))"
      "\<forall>out. fst (attempts env m idx retries le w) = Inr out \<longrightarrow> to_adapter out = m \<and> 0 \<le> retries"
    using attempts_trace [of retries env m idx le w tr] by blast
  show ?case
  proof (cases "fst (attempts env m idx retries le w)")
    case (Inr out)
    with n show ?thesis by (intro exI [of _ "[n]"]) (auto simp: split_def)
  next
    case (Inl e)
    define w1 where "w1 = snd (attempts env m idx retries le w)"
    define w2 where "w2 = (case ms of [] \<Rightarrow> w1
                     | m2 # _ \<Rightarrow> append_recovery env 0 (error_str e) ''fallback'' m2 w1)"
    have al: "attempts env m idx retries le w = (Inl e, w1)"
      by (simp add: w1_def Inl prod_eq_iff)
    have 1: "model_loop env retries idx (m # ms) le w = model_loop env retries (idx + 1) ms e w2"
      by (simp add: al w2_def)
    have 2: "model_loop (traced env) retries idx (m # ms) le (w, tr) =
        model_loop (traced env) retries (idx + 1) ms e (w2, tr @ replicate n m)"
      using n(2) by (cases ms) (simp_all add: al w2_def traced_append)
    from Cons.IH [of "idx + 1" e w2 "tr @ replicate n m"] obtain ns where
      ns: "length ns \<le> length ms" "\<forall>n \<in> set ns. runs_ok retries n"
        "model_loop (traced env) retries (idx + 1) ms e (w2, tr @ replicate n m) =
          (fst (model_loop env retries (idx + 1) ms e w2),
           (snd (model_loop env retries (idx + 1) ms e w2), (tr @ replicate n m) @ concat (map2 replicate ns ms)))"
        "\<forall>e'. fst (model_loop env retries (idx + 1) ms e w2) = Inl e' \<longrightarrow> length ns = length ms"
        "\<forall>out. fst (model_loop env retries (idx + 1) ms e w2) = Inr out \<longrightarrow>
          length ns > 0 \<and> 0 \<le> retries \<and> to_adapter out = ms ! (length ns - 1)"
      by blast
    then show ?thesis
      unfolding 1 2 using n(1) by (intro exI [of _ "n # ns"]) auto
  qed
qed

text \<open>
  C25. The loop ends and is bounded: the models are tried in their order, each at least once and at
  most \<open>MaxRetries + 1\<close> times before the next, so the turn runs at most \<open>models * (MaxRetries + 1)\<close>
  times. A success names the model of the last run; a failure comes only after every model was tried.
  With a negative \<open>MaxRetries\<close>, which \<open>NewExecutor\<close> never leaves, no model is run.
\<close>

theorem execute_recovery_bounded:
  "let run = execute_recovery (traced env) cfg adapter (w, []);
       models = (if rc_models cfg = [] then [adapter] else rc_models cfg)
   in \<exists>ns. length ns \<le> length models \<and> list_all (\<lambda>n. if rc_max_retries cfg < 0 then n = 0 else 1 \<le> n \<and> n \<le> nat (rc_max_retries cfg) + 1) ns
    \<and> fst run = fst (execute_recovery env cfg adapter w)
    \<and> snd (snd run) = concat (map2 replicate ns models)
    \<and> length (snd (snd run)) \<le> length models * nat (rc_max_retries cfg + 1)
    \<and> (case fst run of Inl e \<Rightarrow> length ns = length models
       | Inr out \<Rightarrow> to_adapter out = last (snd (snd run)))"
proof -
  define run where "run = execute_recovery (traced env) cfg adapter (w, [])"
  define models where "models = (if rc_models cfg = [] then [adapter] else rc_models cfg)"
  let ?r = "rc_max_retries cfg"
  obtain ns where ns: "length ns \<le> length models" "\<forall>n \<in> set ns. runs_ok ?r n"
      "run = (fst (execute_recovery env cfg adapter w),
              (snd (execute_recovery env cfg adapter w), concat (map2 replicate ns models)))"
      "\<forall>e. fst (execute_recovery env cfg adapter w) = Inl e \<longrightarrow> length ns = length models"
      "\<forall>out. fst (execute_recovery env cfg adapter w) = Inr out \<longrightarrow>
         length ns > 0 \<and> 0 \<le> ?r \<and> to_adapter out = models ! (length ns - 1)"
    using model_loop_trace [of models ?r env 0 None w "[]"]
    unfolding run_def models_def execute_recovery_def Let_def by auto
  have "length (concat (map2 replicate ns ms)) \<le> length ms * nat (?r + 1)"
    if "length ns \<le> length ms" "\<forall>n \<in> set ns. n \<le> nat (?r + 1)" for ns and ms :: "string list"
    using that
  proof (induction ns arbitrary: ms)
    case (Cons n ns)
    obtain m rest where ms: "ms = m # rest" using Cons.prems by (cases ms) auto
    have "length (concat (map2 replicate ns rest)) \<le> length rest * nat (?r + 1)"
      using Cons.IH [of rest] Cons.prems ms by simp
    then show ?case using Cons.prems ms by simp
  qed simp
  note len_runs = this [OF ns(1)]
  have "\<forall>n \<in> set ns. n \<le> nat (?r + 1)"
    using ns(2) by (auto simp: runs_ok_def nat_add_distrib split: if_splits)
  from len_runs [OF this] have len: "length (snd (snd run)) \<le> length models * nat (?r + 1)"
    using ns(3) by simp
  have "last (concat (map2 replicate ns ms)) = ms ! (length ns - 1)"
    if "length ns \<le> length ms" "\<forall>n \<in> set ns. 1 \<le> n" "0 < length ns" for ns and ms :: "string list"
    using that
  proof (induction ns arbitrary: ms rule: rev_induct)
    case (snoc n ns)
    then obtain ms1 x ms2 where ms: "ms = ms1 @ x # ms2" "length ms1 = length ns"
      using id_take_nth_drop [of "length ns" ms] by (metis Suc_le_lessD length_append_singleton length_take min.absorb2 less_imp_le_nat)
    then have "map2 replicate (ns @ [n]) ms = map2 replicate ns ms1 @ [replicate n (ms ! length ns)]"
      by (simp add: nth_append)
    moreover have "replicate n (ms ! length ns) \<noteq> []" using snoc.prems(2) by auto
    ultimately show ?case by (simp add: last_replicate)
  qed simp
  then have last: "0 \<le> ?r \<Longrightarrow> 0 < length ns \<Longrightarrow> last (snd (snd run)) = models ! (length ns - 1)"
    using ns(1-3) by (auto simp: runs_ok_def)
  show ?thesis
    unfolding Let_def run_def [symmetric] models_def [symmetric]
    using ns len last by (intro exI [of _ ns]) (auto simp: list_all_iff runs_ok_def split: sum.split)
qed

text \<open>
  When every model fails, the caller gets the last error, wrapped: \<open>errors.Is\<close> still finds it.
\<close>

theorem execute_recovery_reports_last_error:
  assumes "fst (execute_recovery env cfg adapter w) = Inl e" and "0 \<le> rc_max_retries cfg"
  shows "\<exists>last_err. e = Wrapped (''all models exhausted after retries: '' @ err_msg last_err) last_err
    \<and> errors_is e last_err"
proof -
  have "fst (model_loop env r idx ms le w) = Inl e \<Longrightarrow> ms \<noteq> [] \<or> le \<noteq> None \<Longrightarrow> 0 \<le> r \<Longrightarrow>
      \<exists>x. e = Wrapped (''all models exhausted after retries: '' @ err_msg x) x" for r idx ms le w
  proof (induction ms arbitrary: idx le w)
    case (Cons m ms)
    obtain x w1 where al: "attempts env m idx r le w = (x, w1)" by fastforce
    have "x = Inl y \<Longrightarrow> y \<noteq> None" for y
      using attempt_loop_trace [of "nat r" env m idx 0 le w "[]"] al Cons.prems(3) by (auto simp: attempts_def)
    with Cons al show ?case by (cases x) (auto simp: Let_def)
  qed auto
  note loop = this
  obtain x where x: "e = Wrapped (''all models exhausted after retries: '' @ err_msg x) x"
  proof -
    have "fst (model_loop env (rc_max_retries cfg) 0
        (if rc_models cfg = [] then [adapter] else rc_models cfg) None w) = Inl e"
      using assms(1) unfolding execute_recovery_def Let_def .
    moreover have "(if rc_models cfg = [] then [adapter] else rc_models cfg) \<noteq> []" by simp
    ultimately show thesis using loop that assms(2) by blast
  qed
  have "errors_is e x" unfolding x by (simp only: errors_is.simps errors_is_refl simp_thms)
  with x show ?thesis by blast
qed

definition failing_env :: "unit loop_env" where
  "failing_env = \<lparr>le_turn = \<lambda>m w. (Inl (Adhoc []), w), le_append = None, le_clock = \<lambda>w. 0\<rparr>"

lemma boom_not_recoverable: "\<not> is_recoverable_error (Adhoc [])"
  by (simp add: is_recoverable_error_def contains_any_def)

lemma failing_env_fails: "\<exists>e. fst (execute_recovery failing_env default_recovery_config ''m'' ()) = Inl e"
proof -
  have cfg: "rc_models default_recovery_config = []" "rc_max_retries default_recovery_config = 1"
    by (simp_all add: default_recovery_config_def)
  have "attempt_loop failing_env ''m'' 0 1 0 None () = (Inl (Some (Adhoc [])), ())"
    by (simp add: attempt_loop.simps failing_env_def boom_not_recoverable)
  then show ?thesis by (simp add: execute_recovery_def attempts_def cfg del: append.simps)
qed

theorem execute_recovery_reports_last_error_witness:
  "\<exists>e x. fst (execute_recovery failing_env default_recovery_config ''m'' ()) = Inl e \<and> errors_is e x"
proof -
  obtain e where e: "fst (execute_recovery failing_env default_recovery_config ''m'' ()) = Inl e"
    using failing_env_fails by (rule exE)
  have "0 \<le> rc_max_retries default_recovery_config" by (simp add: default_recovery_config_def)
  from execute_recovery_reports_last_error [OF e this] obtain x where "errors_is e x" by (elim exE conjE)
  with e show ?thesis by (intro exI conjI)
qed

end
