(* ===== verification/MemCompaction.thy ===== *)
theory MemCompaction
  imports Eventlog
begin

text \<open>
  \<open>internal/memory/compaction.go\<close>: three ways of thinning out a list of events. Scores and ratios are
  exact rationals. A negative \<open>KeepRecent\<close> or \<open>MaxCompactEvents\<close> can make an index run out of
  range; that panic is \<open>None\<close>.
\<close>

record compaction_config =
  mc_trigger_turns :: int
  mc_ratio :: rat
  mc_keep_recent :: int
  mc_max_events :: int

definition default_compaction_config :: compaction_config where
  "default_compaction_config =
     \<lparr>mc_trigger_turns = 10, mc_ratio = 4 / 5, mc_keep_recent = 5, mc_max_events = 20\<rparr>"

record compaction_result =
  mr_original :: int
  mr_compacted :: int
  mr_removed :: int
  mr_saved :: int
  mr_done :: bool

definition unchanged_result :: "event list \<Rightarrow> compaction_result" where
  "unchanged_result es = \<lparr>mr_original = int (length es), mr_compacted = int (length es), mr_removed = 0,
     mr_saved = 0, mr_done = False\<rparr>"

definition by_time :: "event list \<Rightarrow> event list" where
  "by_time es = go_sort (\<lambda>a b. ev_ts a < ev_ts b) es"

subsection \<open>By score\<close>

definition score_of :: "(string \<times> rat) list \<Rightarrow> event \<Rightarrow> rat" where
  "score_of scores e = (case map_of scores (ev_id e) of None \<Rightarrow> 0 | Some q \<Rightarrow> q)"

definition score_less :: "(string \<times> rat) list \<Rightarrow> event \<Rightarrow> event \<Rightarrow> bool" where
  "score_less scores a b =
     (if score_of scores a \<noteq> score_of scores b then score_of scores a < score_of scores b
      else ev_ts a < ev_ts b)"

definition score_removals :: "int \<Rightarrow> int \<Rightarrow> int" where
  "score_removals n max_events =
     (let r = (if n > max_events then max_events else n) in if r \<ge> n then n div 2 else r)"

definition compact_by_score ::
  "event list \<Rightarrow> (string \<times> rat) list \<Rightarrow> compaction_config \<Rightarrow> (compaction_result \<times> event list) option" where
  "compact_by_score events scores cfg =
     (if int (length events) \<le> mc_keep_recent cfg then Some (unchanged_result events, events)
      else if mc_keep_recent cfg < 0 then None
      else
        let keep_from = length events - nat (mc_keep_recent cfg);
            candidates = go_sort (score_less scores) (take keep_from events);
            to_remove = score_removals (int (length candidates)) (mc_max_events cfg) in
        if to_remove < 0 then None
        else
          let kept = by_time (take (length candidates - nat to_remove) candidates @ drop keep_from events) in
          Some (\<lparr>mr_original = int (length events), mr_compacted = int (length kept),
                 mr_removed = to_remove, mr_saved = 0, mr_done = to_remove > 0\<rparr>, kept))"

subsection \<open>By size\<close>

definition meta_value_size :: "goval \<Rightarrow> nat" where
  "meta_value_size v = (case v of VStr s \<Rightarrow> length s | _ \<Rightarrow> 0)"

definition estimate_text_size :: "event \<Rightarrow> int" where
  "estimate_text_size e =
     (case map_of (ev_meta e) ''text'' of Some (VStr s) \<Rightarrow> int (length s) | _ \<Rightarrow>
      case map_of (ev_meta e) ''summary'' of Some (VStr s) \<Rightarrow> int (length s) | _ \<Rightarrow>
      case map_of (ev_meta e) ''reason'' of Some (VStr s) \<Rightarrow> int (length s) | _ \<Rightarrow>
      int (sum_list (map (\<lambda>(k, v). let s = trim_space k in
             if s = ''text'' \<or> s = ''summary'' then 0 else length s + meta_value_size v) (ev_meta e))))"

fun size_removals :: "int \<Rightarrow> int \<Rightarrow> int \<Rightarrow> int list \<Rightarrow> int \<Rightarrow> int \<times> int" where
  "size_removals budget max_events removed [] current = (removed, current)"
| "size_removals budget max_events removed (s # ss) current =
     (if removed < max_events \<and> current > budget
      then size_removals budget max_events (removed + 1) ss (current - s)
      else (removed, current))"

definition compact_by_text_size ::
  "event list \<Rightarrow> int \<Rightarrow> compaction_config \<Rightarrow> (compaction_result \<times> event list) option" where
  "compact_by_text_size events budget cfg =
     (if int (length events) \<le> mc_keep_recent cfg then Some (unchanged_result events, events)
      else
        let total = sum_list (map estimate_text_size events) in
        if total \<le> budget then Some (unchanged_result events, events)
        else if mc_keep_recent cfg < 0 then None
        else
          let keep_from = length events - nat (mc_keep_recent cfg);
              candidates = go_sort (\<lambda>a b. estimate_text_size a > estimate_text_size b) (take keep_from events);
              (removed, current) = size_removals budget (mc_max_events cfg) 0
                                     (map estimate_text_size candidates) total;
              kept = by_time (drop (nat removed) candidates @ drop keep_from events)
          in Some (\<lparr>mr_original = int (length events), mr_compacted = int (length kept),
                    mr_removed = removed, mr_saved = total - current, mr_done = removed > 0\<rparr>, kept))"

subsection \<open>By age\<close>

text \<open>The first loop, which stops altogether once the limit of removals is reached.\<close>

fun age_loop :: "gotime \<Rightarrow> int \<Rightarrow> int \<Rightarrow> event list \<Rightarrow> event list \<Rightarrow> int \<times> event list" where
  "age_loop cutoff max_events removed kept [] = (removed, kept)"
| "age_loop cutoff max_events removed kept (e # es) =
     (if \<not> removed < max_events then (removed, kept)
      else if ev_ts e < cutoff then age_loop cutoff max_events (removed + 1) kept es
      else age_loop cutoff max_events removed (kept @ [e]) es)"

definition compact_age_threshold ::
  "gotime \<Rightarrow> event list \<Rightarrow> int \<Rightarrow> compaction_config \<Rightarrow> (compaction_result \<times> event list) option" where
  "compact_age_threshold now events max_age cfg =
     (if int (length events) \<le> mc_keep_recent cfg then Some (unchanged_result events, events)
      else if mc_keep_recent cfg < 0 then None
      else
        let cutoff = now - max_age; keep_from = length events - nat (mc_keep_recent cfg);
            (removed, kept0) = age_loop cutoff (mc_max_events cfg) 0 [] (take keep_from events);
            kept = by_time (kept0 @ drop keep_from events)
        in Some (\<lparr>mr_original = int (length events), mr_compacted = int (length kept),
                  mr_removed = removed, mr_saved = 0, mr_done = removed > 0\<rparr>, kept))"

definition mem_should_compact :: "int \<Rightarrow> rat \<Rightarrow> compaction_config \<Rightarrow> bool" where
  "mem_should_compact turns ratio cfg =
     (if mc_trigger_turns cfg > 0 \<and> turns \<ge> mc_trigger_turns cfg then True
      else if mc_ratio cfg > 0 \<and> ratio \<ge> mc_ratio cfg then True
      else False)"

subsection \<open>Properties\<close>

lemma mset_by_time [simp]: "mset (by_time es) = mset es"
  by (simp add: by_time_def)

lemma set_by_time [simp]: "set (by_time es) = set es"
  by (simp add: by_time_def)

lemma length_by_time [simp]: "length (by_time es) = length es"
  by (simp add: by_time_def)

lemma sorted_by_time: "sorted (map ev_ts (by_time es))"
  by (simp add: by_time_def go_sort_key_eq)

lemma score_less_key:
  "score_less scores = (\<lambda>a b. (score_of scores a, ev_ts a) < (score_of scores b, ev_ts b))"
  by (intro ext) (auto simp: score_less_def less_prod_def)

lemma score_removals_bounds: "0 \<le> n \<Longrightarrow> 0 < m \<Longrightarrow> 0 \<le> score_removals n m \<and> score_removals n m \<le> n \<and> score_removals n m \<le> m"
  by (auto simp: score_removals_def Let_def)

text \<open>
  Score compaction accounts for every event: with sane settings it never panics, the events it
  returns are a sub-multiset of the input in chronological order, the most recent \<open>KeepRecent\<close> are
  all there, and the counts in the result add up.
\<close>

theorem compact_by_score_accounts:
  assumes "0 \<le> mc_keep_recent cfg" and "0 < mc_max_events cfg"
  shows "\<exists>r kept. compact_by_score events scores cfg = Some (r, kept)
    \<and> mset kept \<subseteq># mset events
    \<and> mset (drop (length events - nat (mc_keep_recent cfg)) events) \<subseteq># mset kept
    \<and> mr_original r = int (length events) \<and> mr_compacted r = int (length kept)
    \<and> mr_original r = mr_compacted r + mr_removed r \<and> mr_removed r \<le> mc_max_events cfg
    \<and> (int (length events) > mc_keep_recent cfg \<longrightarrow> sorted (map ev_ts kept))"
proof (cases "int (length events) \<le> mc_keep_recent cfg")
  case True
  have "mset (drop k events) \<subseteq># mset events" for k
    by (metis append_take_drop_id mset_append mset_subset_eq_add_right)
  with True assms(2) show ?thesis by (simp add: compact_by_score_def unchanged_result_def)
next
  case False
  define kf where "kf = length events - nat (mc_keep_recent cfg)"
  define cs where "cs = go_sort (score_less scores) (take kf events)"
  define rm where "rm = score_removals (int (length cs)) (mc_max_events cfg)"
  have kf: "kf \<le> length events" by (simp add: kf_def)
  have b: "0 \<le> rm" "rm \<le> int (length cs)" "rm \<le> mc_max_events cfg"
    using score_removals_bounds [of "int (length cs)" "mc_max_events cfg"] assms(2) by (simp_all add: rm_def)
  have len: "length cs = kf" using kf by (simp add: cs_def min_absorb2)
  let ?kept = "by_time (take (length cs - nat rm) cs @ drop kf events)"
  have eq: "compact_by_score events scores cfg = Some (\<lparr>mr_original = int (length events),
      mr_compacted = int (length ?kept), mr_removed = rm, mr_saved = 0, mr_done = rm > 0\<rparr>, ?kept)"
    using False assms b(1)
    by (simp add: compact_by_score_def Let_def del: length_go_sort flip: kf_def cs_def rm_def)
  have "mset (take k cs) \<subseteq># mset cs" for k
    by (metis append_take_drop_id mset_append mset_subset_eq_add_left)
  then have sub: "mset ?kept \<subseteq># mset (take kf events) + mset (drop kf events)"
    by (simp add: cs_def)
  have "mset (take kf events) + mset (drop kf events) = mset events"
    by (metis append_take_drop_id mset_append)
  with sub have "mset ?kept \<subseteq># mset events" by simp
  moreover have "int (length events) = int (length ?kept) + rm"
    using b kf len by simp
  ultimately show ?thesis
    unfolding eq using b by (simp add: sorted_by_time flip: kf_def)
qed

text \<open>
  Score compaction keeps the least relevant candidates: every candidate that is removed scores at
  least as high as every candidate that is kept, since the candidates are sorted by rising score and
  the head of that list is what is kept.
\<close>

theorem compact_by_score_removes_highest:
  assumes "compact_by_score events scores cfg = Some (r, kept)"
    and "mc_keep_recent cfg < int (length events)"
  shows "\<exists>low high. mset (take (length events - nat (mc_keep_recent cfg)) events) = mset low + mset high
    \<and> kept = by_time (low @ drop (length events - nat (mc_keep_recent cfg)) events)
    \<and> int (length high) = mr_removed r
    \<and> (\<forall>x \<in> set low. \<forall>y \<in> set high. score_of scores x \<le> score_of scores y)"
proof -
  define kf where "kf = length events - nat (mc_keep_recent cfg)"
  define cs where "cs = go_sort (score_less scores) (take kf events)"
  define rm where "rm = score_removals (int (length cs)) (mc_max_events cfg)"
  have k: "0 \<le> mc_keep_recent cfg" "0 \<le> rm"
    and eq: "kept = by_time (take (length cs - nat rm) cs @ drop kf events)" "mr_removed r = rm"
    using assms by (auto simp: compact_by_score_def Let_def split: if_splits simp del: length_go_sort simp flip: kf_def cs_def rm_def)
  have "rm \<le> int (length cs)"
    using k(2) by (auto simp: rm_def score_removals_def Let_def split: if_splits)
  let ?low = "take (length cs - nat rm) cs" and ?high = "drop (length cs - nat rm) cs"
  have "mset ?low + mset ?high = mset cs" by (metis append_take_drop_id mset_append)
  then have "mset (take kf events) = mset ?low + mset ?high" by (simp add: cs_def)
  moreover have "sorted (map (\<lambda>e. (score_of scores e, ev_ts e)) (?low @ ?high))"
    unfolding append_take_drop_id cs_def score_less_key go_sort_key_eq by (rule sorted_sort_key)
  then have "\<forall>x \<in> set ?low. \<forall>y \<in> set ?high. score_of scores x \<le> score_of scores y"
    unfolding map_append sorted_append by (auto simp: less_eq_prod_def) force
  moreover have "int (length ?high) = rm" using \<open>rm \<le> int (length cs)\<close> k(2) by simp
  ultimately show ?thesis
    unfolding kf_def [symmetric] using eq by (intro exI [of _ ?low] exI [of _ ?high]) simp
qed

definition old_event :: "string \<Rightarrow> gotime \<Rightarrow> event" where
  "old_event i t = \<lparr>ev_id = i, ev_session = ''s'', ev_ts = t, ev_kind = KindTurnUser, ev_branch = ''main'',
     ev_parent = [], ev_refs = [], ev_meta = [], ev_blob = []\<rparr>"

text \<open>
  Age compaction loses events beyond its limit: once \<open>MaxCompactEvents\<close> are removed the loop
  ends, and the events between there and the recent ones are neither kept nor counted as removed.
  Of six events, with one to be kept and a limit of one, one is removed and four vanish.
\<close>

theorem compact_age_loses_events:
  "let es = [old_event ''a'' 1, old_event ''b'' 2, old_event ''c'' 90, old_event ''d'' 91,
             old_event ''e'' 92, old_event ''f'' 93];
       cfg = default_compaction_config\<lparr>mc_keep_recent := 1, mc_max_events := 1\<rparr>
   in \<exists>r. compact_age_threshold 100 es 50 cfg = Some (r, [old_event ''f'' 93])
      \<and> mr_original r = 6 \<and> mr_compacted r = 1 \<and> mr_removed r = 1"
  by (simp add: compact_age_threshold_def default_compaction_config_def Let_def by_time_def go_sort_def
      old_event_def)

lemma size_removals_spec:
  "size_removals budget mx removed ss current = (removed', current') \<Longrightarrow>
     \<exists>k. k \<le> length ss \<and> removed' = removed + int k \<and> current' = current - sum_list (take k ss)
       \<and> (k < length ss \<longrightarrow> current' \<le> budget \<or> mx \<le> removed')"
proof (induction budget mx removed ss current rule: size_removals.induct)
  case (2 budget mx removed s ss current)
  show ?case
  proof (cases "removed < mx \<and> current > budget")
    case True
    with 2 obtain k where "k \<le> length ss" "removed' = removed + 1 + int k"
      "current' = current - s - sum_list (take k ss)" "k < length ss \<longrightarrow> current' \<le> budget \<or> mx \<le> removed'"
      by auto
    then show ?thesis by (intro exI [of _ "Suc k"]) auto
  next
    case False
    with 2(2) show ?thesis by (intro exI [of _ 0]) auto
  qed
qed auto

text \<open>
  Size compaction is exact about what it saves: the bytes it reports saved are the estimated sizes
  of exactly the events it drops, it drops nothing unless the total is over the budget, and it stops
  as soon as the rest fits or the limit is reached.
\<close>

theorem compact_by_text_size_accounts:
  assumes "0 \<le> mc_keep_recent cfg"
  shows "\<exists>r kept. compact_by_text_size events budget cfg = Some (r, kept)
    \<and> mset kept \<subseteq># mset events
    \<and> mset (drop (length events - nat (mc_keep_recent cfg)) events) \<subseteq># mset kept
    \<and> mr_original r = mr_compacted r + mr_removed r
    \<and> mr_saved r = sum_list (map estimate_text_size events) - sum_list (map estimate_text_size kept)
    \<and> (mr_done r \<longrightarrow> budget < sum_list (map estimate_text_size events))
    \<and> (mr_done r \<and> mr_removed r < mc_max_events cfg \<and> mc_keep_recent cfg < mr_compacted r \<longrightarrow>
         sum_list (map estimate_text_size kept) \<le> budget)"
proof -
  let ?size = "\<lambda>es. sum_list (map estimate_text_size es)"
  define kf where "kf = length events - nat (mc_keep_recent cfg)"
  have sum: "?size xs = sum_mset (image_mset estimate_text_size (mset xs))" for xs
    by (metis mset_map sum_mset_sum_list)
  have dropsub: "mset (drop k xs) \<subseteq># mset xs" for k and xs :: "event list"
    by (metis append_take_drop_id mset_append mset_subset_eq_add_right)
  show ?thesis
  proof (cases "int (length events) \<le> mc_keep_recent cfg \<or> ?size events \<le> budget")
    case True
    then show ?thesis
      by (auto simp: compact_by_text_size_def unchanged_result_def Let_def dropsub)
  next
    case False
    define cs where "cs = go_sort (\<lambda>a b. estimate_text_size a > estimate_text_size b) (take kf events)"
    obtain removed current where rc: "size_removals budget (mc_max_events cfg) 0 (map estimate_text_size cs) (?size events) = (removed, current)"
      by fastforce
    from size_removals_spec [OF rc] obtain k where k: "k \<le> length cs" "removed = int k"
        "current = ?size events - ?size (take k cs)"
        "k < length cs \<longrightarrow> current \<le> budget \<or> mc_max_events cfg \<le> removed"
      by (auto simp: take_map)
    let ?kept = "by_time (drop k cs @ drop kf events)"
    have eq: "compact_by_text_size events budget cfg = Some (\<lparr>mr_original = int (length events),
        mr_compacted = int (length ?kept), mr_removed = removed, mr_saved = ?size events - current,
        mr_done = removed > 0\<rparr>, ?kept)"
      using False assms rc k(2)
      by (simp add: compact_by_text_size_def Let_def del: length_go_sort flip: kf_def cs_def)
    have all: "mset events = mset (take k cs) + mset ?kept"
      by (simp add: cs_def) (metis append_take_drop_id cs_def mset_append mset_go_sort union_assoc)
    have len: "length events = k + length ?kept"
      using k(1) arg_cong [OF all, of size] by simp
    have sizes: "?size events = ?size (take k cs) + ?size ?kept"
      unfolding sum all by simp
    have "mc_keep_recent cfg < int (length ?kept) \<longrightarrow> k < length cs"
    proof -
      have "length cs = length events - nat (mc_keep_recent cfg)"
        by (simp add: cs_def kf_def)
      then show ?thesis using len False assms by linarith
    qed
    then have more: "mc_keep_recent cfg < int (length ?kept) \<longrightarrow> removed < mc_max_events cfg \<longrightarrow> current \<le> budget"
      using k(4) by auto
    let ?r = "\<lparr>mr_original = int (length events), mr_compacted = int (length ?kept), mr_removed = removed,
        mr_saved = ?size events - current, mr_done = removed > 0\<rparr>"
    have sub: "mset ?kept \<subseteq># mset events" unfolding all by (rule mset_subset_eq_add_right)
    have rec: "mset (drop kf events) \<subseteq># mset ?kept" by simp
    have saved: "?size events - current = ?size events - ?size ?kept" using k(3) sizes by linarith
    have len': "int (length events) = int (length ?kept) + removed"
      unfolding k(2) len by (simp only: of_nat_add add.commute)
    show ?thesis
      unfolding kf_def [symmetric]
    proof (intro exI [of _ ?r] exI [of _ ?kept] conjI impI)
      show "?size ?kept \<le> budget"
        if "mr_done ?r \<and> mr_removed ?r < mc_max_events cfg \<and> mc_keep_recent cfg < mr_compacted ?r"
      proof -
        have "current \<le> budget" using that more by (simp only: compaction_result.select_convs)
        with saved show ?thesis by linarith
      qed
      show "budget < ?size events" if "mr_done ?r" using False by linarith
    qed (simp_all only: eq sub rec len' saved compaction_result.select_convs)
  qed
qed

theorem compact_by_score_accounts_witness:
  "\<exists>r kept. compact_by_score [old_event ''a'' 1, old_event ''b'' 2, old_event ''c'' 3]
     [(''a'', 1)] (default_compaction_config\<lparr>mc_keep_recent := 1\<rparr>) = Some (r, kept)
   \<and> mr_original r = mr_compacted r + mr_removed r"
proof -
  have "0 \<le> mc_keep_recent (default_compaction_config\<lparr>mc_keep_recent := 1\<rparr>)"
    "0 < mc_max_events (default_compaction_config\<lparr>mc_keep_recent := 1\<rparr>)"
    by (simp_all add: default_compaction_config_def)
  from compact_by_score_accounts [OF this] show ?thesis by blast
qed

lemma score_sample:
  "compact_by_score [old_event ''a'' 1, old_event ''b'' 2, old_event ''c'' 3]
     [(''a'', 1)] (default_compaction_config\<lparr>mc_keep_recent := 1\<rparr>) =
   Some (\<lparr>mr_original = 3, mr_compacted = 2, mr_removed = 1, mr_saved = 0, mr_done = True\<rparr>,
         [old_event ''b'' 2, old_event ''c'' 3])"
  by (simp add: compact_by_score_def default_compaction_config_def Let_def go_sort_def score_less_def
      score_of_def old_event_def score_removals_def by_time_def)

theorem compact_by_score_removes_highest_witness:
  "\<exists>low high. mset [old_event ''a'' 1, old_event ''b'' 2] = mset low + mset high
     \<and> [old_event ''b'' 2, old_event ''c'' 3] = by_time (low @ [old_event ''c'' 3])
     \<and> int (length high) = 1
     \<and> (\<forall>x \<in> set low. \<forall>y \<in> set high. score_of [(''a'', 1)] x \<le> score_of [(''a'', 1)] y)"
  using compact_by_score_removes_highest [OF score_sample]
  by (simp add: default_compaction_config_def)

theorem compact_by_text_size_accounts_witness:
  "\<exists>r kept. compact_by_text_size [old_event ''a'' 1, old_event ''b'' 2] 0 default_compaction_config = Some (r, kept)
     \<and> mr_original r = mr_compacted r + mr_removed r"
proof -
  have "0 \<le> mc_keep_recent default_compaction_config" by (simp add: default_compaction_config_def)
  from compact_by_text_size_accounts [OF this] show ?thesis by blast
qed

end
