(* ===== verification/MemoryManager.thy ===== *)
theory MemoryManager
  imports SearchIndex MemCompaction "HOL-Library.Word"
begin

text \<open>
  \<open>internal/memory/memory.go\<close>: the manager of the three layers of memory. Layer 1 is the index of recent
  events with its counters (\<open>int64\<close>, so 64-bit words) and the content search, layer 2 the topics in memory
  and on disk, layer 3 the view of the spine that fits a budget. The manager locks a mutex around every
  operation. The disk is the map of its files with the faults that the next system calls report;
  \<open>encoding/json\<close> for topics, the clock and the embedder are parameters. Durations and scores are exact.
\<close>

subsection \<open>Data\<close>

record index_entry =
  ie_event :: string
  ie_session :: string
  ie_branch :: string
  ie_kind :: string
  ie_fingerprint :: string
  ie_ts :: gotime
  ie_preview :: string
  ie_blob :: string
  ie_score :: rat

record topic_memory =
  tm_id :: string
  tm_title :: string
  tm_created :: gotime
  tm_updated :: gotime
  tm_sources :: "string list"
  tm_summary :: string
  tm_tags :: "string list"

record memory_config =
  mg_topic_dir :: string
  mg_max_entries :: int
  mg_embed_enabled :: bool
  mg_embed :: "(string \<Rightarrow> string \<Rightarrow> string \<Rightarrow> string \<Rightarrow> rat) option"

record memory_manager =
  mm_cfg :: memory_config
  mm_index :: "index_entry list"
  mm_topics :: "(string \<times> topic_memory) list"
  mm_search :: search_index
  mm_hits :: "64 word"
  mm_misses :: "64 word"

subsection \<open>The disk\<close>

text \<open>
  A system call consumes the next fault; without one it succeeds. A rename replaces its target.
\<close>

record disk =
  dk_files :: "(string \<times> string) list"
  dk_faults :: "goerr option list"

definition next_fault :: "disk \<Rightarrow> goerr option \<times> disk" where
  "next_fault d = (case dk_faults d of [] \<Rightarrow> (None, d) | f # fs \<Rightarrow> (f, d\<lparr>dk_faults := fs\<rparr>))"

definition write_file :: "string \<Rightarrow> string \<Rightarrow> disk \<Rightarrow> goerr option \<times> disk" where
  "write_file path data d =
     (case next_fault d of
        (Some e, d1) \<Rightarrow> (Some e, d1)
      | (None, d1) \<Rightarrow> (None, d1\<lparr>dk_files := AList.update path data (dk_files d1)\<rparr>))"

definition rename_file :: "string \<Rightarrow> string \<Rightarrow> disk \<Rightarrow> goerr option \<times> disk" where
  "rename_file from_path to_path d =
     (case next_fault d of
        (Some e, d1) \<Rightarrow> (Some e, d1)
      | (None, d1) \<Rightarrow>
        (case map_of (dk_files d1) from_path of
           None \<Rightarrow> (Some (Sentinel ''os.ErrNotExist'' ''file does not exist''), d1)
         | Some data \<Rightarrow> (None, d1\<lparr>dk_files := AList.update to_path data (AList.delete from_path (dk_files d1))\<rparr>)))"

definition read_file :: "string \<Rightarrow> disk \<Rightarrow> string result \<times> disk" where
  "read_file path d =
     (case next_fault d of
        (Some e, d1) \<Rightarrow> (Inl e, d1)
      | (None, d1) \<Rightarrow>
        (case map_of (dk_files d1) path of
           None \<Rightarrow> (Inl (Sentinel ''os.ErrNotExist'' ''file does not exist''), d1)
         | Some data \<Rightarrow> (Inr data, d1)))"

text \<open>\<open>os.ReadDir\<close> lists the entries by name; entries that are directories are not in the map.\<close>

definition dir_prefix :: "string \<Rightarrow> string" where
  "dir_prefix dir =
     (let c = path_clean dir in if c = ''.'' then [] else if c = ''/'' then c else c @ ''/'')"

definition entry_in :: "string \<Rightarrow> string \<Rightarrow> string option" where
  "entry_in dir path =
     (let p = dir_prefix dir; name = drop (length p) path in
      if prefix p path \<and> CHR ''/'' \<notin> set name \<and> name \<noteq> [] then Some name else None)"

definition read_dir :: "string \<Rightarrow> disk \<Rightarrow> string list result \<times> disk" where
  "read_dir dir d =
     (case next_fault d of
        (Some e, d1) \<Rightarrow> (Inl e, d1)
      | (None, d1) \<Rightarrow> (Inr (sort_strings (List.map_filter (entry_in dir) (map fst (dk_files d1)))), d1))"

definition file_join :: "string \<Rightarrow> string \<Rightarrow> string" where
  "file_join dir name = path_clean (dir @ ''/'' @ name)"

text \<open>What the manager takes from outside: the search, and JSON for topics.\<close>

record memory_env =
  me_search :: search_env
  me_marshal :: "topic_memory \<Rightarrow> string result"
  me_unmarshal :: "string \<Rightarrow> topic_memory result"

subsection \<open>Loading\<close>

fun load_files ::
  "memory_env \<Rightarrow> string \<Rightarrow> string list \<Rightarrow> disk \<Rightarrow> (string \<times> topic_memory) list \<Rightarrow> (string \<times> topic_memory) list \<times> disk" where
  "load_files me dir [] d topics = (topics, d)"
| "load_files me dir (name # names) d topics =
     (if \<not> suffix ''.json'' name then load_files me dir names d topics
      else case read_file (file_join dir name) d of
        (Inl e, d1) \<Rightarrow> load_files me dir names d1 topics
      | (Inr data, d1) \<Rightarrow>
        (case me_unmarshal me data of
           Inl e \<Rightarrow> load_files me dir names d1 topics
         | Inr t \<Rightarrow> load_files me dir names d1 (if tm_id t \<noteq> [] then AList.update (tm_id t) t topics else topics)))"

definition load_topics_from_disk :: "memory_env \<Rightarrow> string \<Rightarrow> disk \<Rightarrow> (string \<times> topic_memory) list \<times> disk" where
  "load_topics_from_disk me dir d =
     (case read_dir dir d of
        (Inl e, d1) \<Rightarrow> ([], d1)
      | (Inr names, d1) \<Rightarrow> load_files me dir names d1 [])"

definition new_manager :: "memory_env \<Rightarrow> memory_config \<Rightarrow> disk \<Rightarrow> memory_manager \<times> disk" where
  "new_manager me cfg d =
     (let (topics, d1) = (if mg_topic_dir cfg \<noteq> [] then load_topics_from_disk me (mg_topic_dir cfg) d else ([], d))
      in (\<lparr>mm_cfg = cfg, mm_index = [], mm_topics = topics, mm_search = new_index, mm_hits = 0, mm_misses = 0\<rparr>, d1))"

subsection \<open>Layer 1: recent events\<close>

definition entry_of :: "event \<Rightarrow> index_entry" where
  "entry_of e =
     \<lparr>ie_event = ev_id e, ie_session = ev_session e, ie_branch = ev_branch e, ie_kind = ev_kind e,
      ie_fingerprint = meta_string (ev_meta e) ''fingerprint'', ie_ts = ev_ts e,
      ie_preview = take 128 (meta_string (ev_meta e) ''text''), ie_blob = ev_blob e, ie_score = 0\<rparr>"

definition max_index_entries :: "memory_config \<Rightarrow> int" where
  "max_index_entries cfg = (if mg_max_entries cfg \<le> 0 then 1024 else mg_max_entries cfg)"

definition index_event :: "memory_env \<Rightarrow> event \<Rightarrow> memory_manager \<Rightarrow> memory_manager" where
  "index_event me e mm =
     (let index1 = mm_index mm @ [entry_of e];
          max_entries = max_index_entries (mm_cfg mm);
          index2 = (if int (length index1) > max_entries then drop (length index1 - nat max_entries) index1 else index1)
      in mm\<lparr>mm_index := index2, mm_search := index_add (me_search me) e (mm_search mm)\<rparr>)"

definition lookup_by_fingerprint :: "string \<Rightarrow> memory_manager \<Rightarrow> index_entry list \<times> memory_manager" where
  "lookup_by_fingerprint fp mm =
     (if fp = [] then ([], mm)
      else let results = filter (\<lambda>e. ie_fingerprint e = fp) (rev (mm_index mm)) in
        (results,
         if results = [] then mm\<lparr>mm_misses := mm_misses mm + 1\<rparr>
         else mm\<lparr>mm_hits := mm_hits mm + of_nat (length results)\<rparr>))"

fun recent_loop :: "int \<Rightarrow> string \<Rightarrow> index_entry list \<Rightarrow> index_entry list \<Rightarrow> index_entry list" where
  "recent_loop n kind_prefix results [] = results"
| "recent_loop n kind_prefix results (e # es) =
     (if \<not> int (length results) < n then results
      else if kind_prefix \<noteq> [] \<and> \<not> prefix kind_prefix (ie_kind e) then recent_loop n kind_prefix results es
      else recent_loop n kind_prefix (results @ [e]) es)"

definition lookup_recent :: "int \<Rightarrow> string \<Rightarrow> memory_manager \<Rightarrow> index_entry list" where
  "lookup_recent n kind_prefix mm = rev (recent_loop n kind_prefix [] (rev (mm_index mm)))"

text \<open>\<open>time.Time.Sub\<close> saturates at the largest and smallest duration.\<close>

definition time_sub :: "gotime \<Rightarrow> gotime \<Rightarrow> int" where
  "time_sub a b = max (- (2 ^ 63)) (min (2 ^ 63 - 1) (a - b))"

definition recency_score :: "gotime \<Rightarrow> gotime \<Rightarrow> rat" where
  "recency_score now ts =
     (let hours = of_int (time_sub now ts) / (3600 * 10 ^ 9) in
      1 / (1 + (if hours < 0 then 0 else hours) / 10))"

definition score_entry :: "memory_config \<Rightarrow> gotime \<Rightarrow> string \<Rightarrow> index_entry \<Rightarrow> rat" where
  "score_entry cfg now context e =
     (case mg_embed cfg of
        None \<Rightarrow> recency_score now (ie_ts e)
      | Some fn \<Rightarrow> fn (ie_event e) (ie_kind e) (ie_preview e) context)"

definition score_events :: "gotime \<Rightarrow> string list \<Rightarrow> string \<Rightarrow> memory_manager \<Rightarrow> (string \<times> rat) list" where
  "score_events now ids context mm =
     fold (\<lambda>i scores. case find (\<lambda>e. ie_event e = i) (mm_index mm) of
             None \<Rightarrow> scores
           | Some e \<Rightarrow> AList.update i (score_entry (mm_cfg mm) now context e) scores) ids []"

definition cache_hit_rate :: "memory_manager \<Rightarrow> rat" where
  "cache_hit_rate mm =
     (let n = mm_hits mm + mm_misses mm in
      if n = 0 then 0 else of_int (sint (mm_hits mm)) / of_int (sint n))"

record index_stats =
  is_total :: nat
  is_hits :: "64 word"
  is_misses :: "64 word"
  is_rate :: rat

definition stats_of_index :: "memory_manager \<Rightarrow> index_stats" where
  "stats_of_index mm = \<lparr>is_total = length (mm_index mm), is_hits = mm_hits mm, is_misses = mm_misses mm,
     is_rate = cache_hit_rate mm\<rparr>"

subsection \<open>Layer 2: topics\<close>

definition write_topic_to_disk :: "memory_env \<Rightarrow> memory_config \<Rightarrow> topic_memory \<Rightarrow> disk \<Rightarrow> goerr option \<times> disk" where
  "write_topic_to_disk me cfg t d =
     (if mg_topic_dir cfg = [] then (None, d)
      else
        let path = file_join (mg_topic_dir cfg) (tm_id t @ ''.json'') in
        case me_marshal me t of
          Inl e \<Rightarrow> (Some (Wrapped (''marshal topic '' @ go_quote (tm_id t) @ '': '' @ err_msg e) e), d)
        | Inr data \<Rightarrow>
          (case write_file (path @ ''.tmp'') data d of
             (Some e, d1) \<Rightarrow> (Some (Wrapped (''write topic '' @ go_quote (tm_id t) @ '': '' @ err_msg e) e), d1)
           | (None, d1) \<Rightarrow> rename_file (path @ ''.tmp'') path d1))"

definition create_topic ::
  "memory_env \<Rightarrow> gotime \<Rightarrow> topic_memory \<Rightarrow> memory_manager \<times> disk \<Rightarrow> goerr option \<times> memory_manager \<times> disk" where
  "create_topic me now topic st =
     (let (mm, d) = st in
      if tm_id topic = [] then (Some (Adhoc ''topic ID is required''), mm, d)
      else if tm_title topic = [] then (Some (Adhoc ''topic title is required''), mm, d)
      else
        let t1 = (if tm_created topic = 0 then topic\<lparr>tm_created := now\<rparr> else topic);
            t2 = (if tm_updated t1 = 0 then t1\<lparr>tm_updated := tm_created t1\<rparr> else t1);
            mm1 = mm\<lparr>mm_topics := AList.update (tm_id t2) t2 (mm_topics mm)\<rparr> in
        if mg_topic_dir (mm_cfg mm) \<noteq> []
        then (let (err, d1) = write_topic_to_disk me (mm_cfg mm) t2 d in (err, mm1, d1))
        else (None, mm1, d))"

definition get_topic :: "string \<Rightarrow> memory_manager \<Rightarrow> topic_memory option" where
  "get_topic i mm = map_of (mm_topics mm) i"

definition list_topics :: "memory_manager \<Rightarrow> topic_memory list" where
  "list_topics mm = go_sort (\<lambda>a b. tm_updated a > tm_updated b) (map snd (mm_topics mm))"

fun dedup_loop :: "string list \<Rightarrow> string list \<Rightarrow> string list" where
  "dedup_loop seen [] = []"
| "dedup_loop seen (s0 # ss) =
     (let s = trim_space s0 in
      if s = [] then dedup_loop seen ss
      else if s \<in> set seen then dedup_loop seen ss
      else s # dedup_loop (s # seen) ss)"

definition deduplicate_tags :: "string list \<Rightarrow> string list" where
  "deduplicate_tags ss = dedup_loop [] ss"

definition update_topic ::
  "memory_env \<Rightarrow> gotime \<Rightarrow> string \<Rightarrow> string \<Rightarrow> string list \<Rightarrow> string list \<Rightarrow> memory_manager \<times> disk
    \<Rightarrow> goerr option \<times> memory_manager \<times> disk" where
  "update_topic me now i summary sources tags st =
     (let (mm, d) = st in
      case map_of (mm_topics mm) i of
        None \<Rightarrow> (Some (Adhoc (''topic '' @ go_quote i @ '' not found'')), mm, d)
      | Some t \<Rightarrow>
        let t1 = t\<lparr>tm_summary := summary, tm_sources := tm_sources t @ sources\<rparr>;
            t2 = (if tags \<noteq> [] then t1\<lparr>tm_tags := deduplicate_tags (tm_tags t1 @ tags)\<rparr> else t1);
            t3 = t2\<lparr>tm_updated := now\<rparr>;
            mm1 = mm\<lparr>mm_topics := AList.update i t3 (mm_topics mm)\<rparr> in
        if mg_topic_dir (mm_cfg mm) \<noteq> []
        then (let (err, d1) = write_topic_to_disk me (mm_cfg mm) t3 d in (err, mm1, d1))
        else (None, mm1, d))"

definition delete_topic :: "string \<Rightarrow> memory_manager \<Rightarrow> memory_manager" where
  "delete_topic i mm = mm\<lparr>mm_topics := AList.delete i (mm_topics mm)\<rparr>"

text \<open>\<open>Fork\<close> reads the clock for both times.\<close>

definition fork_topic ::
  "memory_env \<Rightarrow> gotime \<Rightarrow> gotime \<Rightarrow> gotime \<Rightarrow> string \<Rightarrow> string \<Rightarrow> event list \<Rightarrow> string \<Rightarrow> memory_manager \<times> disk
    \<Rightarrow> goerr option \<times> memory_manager \<times> disk" where
  "fork_topic me created updated now i title sources summary st =
     create_topic me now \<lparr>tm_id = i, tm_title = title, tm_created = created, tm_updated = updated,
       tm_sources = map ev_id sources, tm_summary = summary, tm_tags = []\<rparr> st"

subsection \<open>Layer 3: a view within a budget\<close>

definition estimated_bytes :: "event \<Rightarrow> int" where
  "estimated_bytes e =
     int (length (ev_id e)) + int (length (ev_kind e)) + int (length (remdups (map fst (ev_meta e)))) * 64"

definition view_less :: "(string \<times> rat) list \<Rightarrow> event \<Rightarrow> event \<Rightarrow> bool" where
  "view_less scores a b =
     (if score_of scores a \<noteq> score_of scores b then score_of scores a > score_of scores b
      else ev_ts a > ev_ts b)"

fun select_loop :: "int \<Rightarrow> int \<Rightarrow> event list \<Rightarrow> event list \<Rightarrow> event list" where
  "select_loop budget used selected [] = selected"
| "select_loop budget used selected (e # es) =
     (if used + estimated_bytes e > budget then selected
      else select_loop budget (used + estimated_bytes e) (selected @ [e]) es)"

definition build_compact_view ::
  "gotime \<Rightarrow> event list \<Rightarrow> int \<Rightarrow> string \<Rightarrow> memory_manager \<Rightarrow> event list \<times> int \<times> int" where
  "build_compact_view now events budget context mm =
     (if events = [] then ([], 0, 0)
      else
        let scores = score_events now (map ev_id events) context mm;
            scored = go_sort (view_less scores) events;
            selected = by_time (select_loop budget 0 [] scored)
        in (selected, int (length selected), int (length events) - int (length selected)))"

subsection \<open>Search\<close>

definition search_events ::
  "memory_env \<Rightarrow> ((string \<times> rat) list \<Rightarrow> (string \<times> rat) list) \<Rightarrow> string \<Rightarrow> string \<Rightarrow> int \<Rightarrow> memory_manager
    \<Rightarrow> search_result list" where
  "search_events me visit query branch limit mm =
     index_search (me_search me) visit query \<lparr>so_branch = branch, so_limit = limit\<rparr> (mm_search mm)"

definition bootstrap_search_index :: "memory_env \<Rightarrow> event list \<Rightarrow> memory_manager \<Rightarrow> memory_manager" where
  "bootstrap_search_index me events mm = mm\<lparr>mm_search := fold (index_add (me_search me)) events (mm_search mm)\<rparr>"

definition search_index_size :: "memory_manager \<Rightarrow> nat" where
  "search_index_size mm = index_size (mm_search mm)"

subsection \<open>What layer 1 remembers\<close>

definition last_n :: "nat \<Rightarrow> 'a list \<Rightarrow> 'a list" where
  "last_n n xs = drop (length xs - n) xs"

lemma last_n_snoc: "0 < n \<Longrightarrow> last_n n (last_n n xs @ [x]) = last_n n (xs @ [x])"
  by (cases "n \<le> length xs") (simp_all add: last_n_def Suc_diff_le)

lemma last_n_rev: "last_n n xs = rev (take n (rev xs))"
  by (simp add: last_n_def take_rev)

lemma map_last_n: "map f (last_n n xs) = last_n n (map f xs)"
  by (simp add: last_n_def drop_map)

lemma max_index_entries_pos: "0 < max_index_entries cfg"
  by (simp add: max_index_entries_def)

lemma index_event_alt:
  "mm_index (index_event me e mm) = last_n (nat (max_index_entries (mm_cfg mm))) (mm_index mm @ [entry_of e])"
  "mm_cfg (index_event me e mm) = mm_cfg mm"
  "mm_search (index_event me e mm) = index_add (me_search me) e (mm_search mm)"
  "mm_hits (index_event me e mm) = mm_hits mm" "mm_misses (index_event me e mm) = mm_misses mm"
  using max_index_entries_pos [of "mm_cfg mm"] by (auto simp: index_event_def last_n_def Let_def)

lemma recent_loop_eq:
  "recent_loop n p results es =
     results @ take (nat n - length results) (filter (\<lambda>e. prefix p (ie_kind e)) es)"
proof (induction n p results es rule: recent_loop.induct)
  case (2 n p results e es)
  show ?case
  proof (cases "int (length results) < n")
    case True
    then obtain k where k: "nat n - length results = Suc k"
      by (metis Suc_diff_Suc nat_less_iff zless_nat_eq_int_zless)
    then have "nat n - length (results @ [e]) = k" by simp
    with 2 True k show ?thesis by auto
  qed simp
qed simp

lemma indexed_events:
  "mm = fold (index_event me) es (fst (new_manager me cfg d)) \<Longrightarrow>
     mm_index mm = last_n (nat (max_index_entries cfg)) (map entry_of es)
     \<and> mm_search mm = fold (index_add (me_search me)) es new_index
     \<and> mm_cfg mm = cfg \<and> mm_hits mm = 0 \<and> mm_misses mm = 0"
proof (induction es arbitrary: mm rule: rev_induct)
  case Nil
  then show ?case by (simp add: new_manager_def split_def Let_def last_n_def)
next
  case (snoc e es)
  then show ?case
    using max_index_entries_pos [of cfg] by (simp add: index_event_alt last_n_snoc)
qed

text \<open>
  C20. Layer 1 remembers exactly the most recent events: after any sequence of events the index holds the
  last of them, as many as configured (1024 by default), while the search index holds them all; looking
  up recent events gives the last of the index whose kind has the prefix, in chronological order;
  looking up a fingerprint gives its entries, newest first, and counts each as a hit, or one miss.
\<close>

theorem memory_lookups_exact:
  "let mm = fold (index_event me) es (fst (new_manager me cfg d));
       index = last_n (nat (max_index_entries cfg)) (map entry_of es);
       found = filter (\<lambda>e. ie_fingerprint e = fp) (rev index);
       (results, mm1) = lookup_by_fingerprint fp mm
   in mm_index mm = index
      \<and> search_events me visit query branch limit mm =
          index_search (me_search me) visit query \<lparr>so_branch = branch, so_limit = limit\<rparr>
            (fold (index_add (me_search me)) es new_index)
      \<and> lookup_recent n p mm = last_n (nat n) (filter (\<lambda>e. prefix p (ie_kind e)) index)
      \<and> results = (if fp = [] then [] else found)
      \<and> mm_hits mm1 = (if fp = [] then 0 else of_nat (length found))
      \<and> mm_misses mm1 = (if fp \<noteq> [] \<and> found = [] then 1 else 0)
      \<and> mm_index mm1 = index"
proof -
  define mm where "mm = fold (index_event me) es (fst (new_manager me cfg d))"
  note mm = indexed_events [OF mm_def]
  show ?thesis
    unfolding mm_def [symmetric]
    by (simp add: Let_def split_def mm lookup_by_fingerprint_def lookup_recent_def recent_loop_eq last_n_rev
        rev_filter search_events_def)
qed

subsection \<open>What a view shows\<close>

lemma select_loop_prefix:
  "\<exists>k. select_loop budget used selected es = selected @ take k es
     \<and> (used + sum_list (map estimated_bytes (take k es)) \<le> max used budget)
     \<and> (k < length es \<longrightarrow> used + sum_list (map estimated_bytes (take (Suc k) es)) > budget)
     \<and> k \<le> length es"
proof (induction budget used selected es rule: select_loop.induct)
  case (2 budget used selected e es)
  show ?case
  proof (cases "used + estimated_bytes e > budget")
    case True
    then show ?thesis by (intro exI [of _ 0]) simp
  next
    case False
    with 2 obtain k where
      "select_loop budget (used + estimated_bytes e) (selected @ [e]) es = (selected @ [e]) @ take k es"
      "used + estimated_bytes e + sum_list (map estimated_bytes (take k es)) \<le> max (used + estimated_bytes e) budget"
      "k < length es \<longrightarrow> used + estimated_bytes e + sum_list (map estimated_bytes (take (Suc k) es)) > budget"
      "k \<le> length es" by blast
    with False show ?thesis by (intro exI [of _ "Suc k"]) (auto simp: max_def split: if_splits)
  qed
qed simp

lemma view_less_key:
  "view_less scores = (\<lambda>a b. (- score_of scores a, - ev_ts a) < (- score_of scores b, - ev_ts b))"
  by (intro ext) (auto simp: view_less_def less_prod_def)

text \<open>
  C21. A compact view is honest and greedy: it is part of the given events in chronological order, the two
  counts say how many it has and how many it leaves out, its estimated size is within the budget, it
  never prefers an event with a lower score to one that it leaves out, and if it leaves events out then
  the best of those would have exceeded the budget.
\<close>

theorem compact_view_within_budget:
  "case build_compact_view now events budget context mm of (sel, kept, dropped) \<Rightarrow>
     let scores = score_events now (map ev_id events) context mm in
     \<exists>rest. mset sel + mset rest = mset events \<and> sorted (map ev_ts sel)
       \<and> kept = int (length sel) \<and> dropped = int (length rest)
       \<and> sum_list (map estimated_bytes sel) \<le> max 0 budget
       \<and> (\<forall>a \<in> set sel. \<forall>b \<in> set rest. score_of scores b \<le> score_of scores a)
       \<and> (case rest of [] \<Rightarrow> True
          | b # bs \<Rightarrow> (\<forall>c \<in> set bs. score_of scores c \<le> score_of scores b)
              \<and> sum_list (map estimated_bytes sel) + estimated_bytes b > budget)"
proof (cases "events = []")
  case True
  then show ?thesis by (simp add: build_compact_view_def)
next
  case False
  define scores where "scores = score_events now (map ev_id events) context mm"
  define xs where "xs = go_sort (view_less scores) events"
  obtain k where k: "select_loop budget 0 [] xs = take k xs"
    "sum_list (map estimated_bytes (take k xs)) \<le> max 0 budget"
    "k < length xs \<longrightarrow> sum_list (map estimated_bytes (take (Suc k) xs)) > budget" "k \<le> length xs"
    using select_loop_prefix [of budget 0 "[]" xs] by auto
  have len: "length xs = length events" by (simp add: xs_def)
  have parts: "mset (take k xs) + mset (drop k xs) = mset events"
    by (metis append_take_drop_id mset_append mset_go_sort xs_def)
  have "sorted (map (\<lambda>a. (- score_of scores a, - ev_ts a)) xs)"
    unfolding xs_def view_less_key go_sort_key_eq by simp
  then have sorted: "sorted (map (\<lambda>a. - score_of scores a) xs)"
    unfolding sorted_map by (rule sorted_wrt_mono_rel [rotated]) (auto simp: less_eq_prod_def)
  then have two: "sorted (map (\<lambda>a. - score_of scores a) (take k xs) @ map (\<lambda>a. - score_of scores a) (drop k xs))"
    by (metis append_take_drop_id map_append)
  have view: "build_compact_view now events budget context mm =
      (by_time (take k xs), int k, int (length events) - int k)"
    using False k(1,4) len by (simp add: build_compact_view_def Let_def flip: scores_def xs_def)
  have "mset (map estimated_bytes (by_time (take k xs))) = mset (map estimated_bytes (take k xs))" by simp
  then have size: "sum_list (map estimated_bytes (by_time (take k xs))) = sum_list (map estimated_bytes (take k xs))"
    by (metis sum_mset_sum_list)
  have best: "case drop k xs of [] \<Rightarrow> True
      | b # bs \<Rightarrow> (\<forall>c \<in> set bs. score_of scores c \<le> score_of scores b)
          \<and> sum_list (map estimated_bytes (by_time (take k xs))) + estimated_bytes b > budget"
  proof (cases "drop k xs")
    case (Cons b bs)
    then have "k < length xs" "xs ! k = b"
      by (metis drop_all linorder_not_le list.distinct(1)) (metis Cons nth_via_drop)
    with k(3) have "sum_list (map estimated_bytes (take k xs)) + estimated_bytes b > budget"
      by (simp add: take_Suc_conv_app_nth)
    with two Cons size show ?thesis by (auto simp: sorted_append)
  qed simp
  show ?thesis
    unfolding view prod.case Let_def scores_def [symmetric]
    by (intro exI [of _ "drop k xs"])
      (use parts k(2,4) len size best two in \<open>auto simp: sorted_by_time sorted_append\<close>)
qed

subsection \<open>Paths of topic files\<close>

definition path_elem :: "string \<Rightarrow> bool" where
  "path_elem p \<longleftrightarrow> p \<noteq> [] \<and> p \<noteq> dot \<and> CHR ''/'' \<notin> set p"

lemma clean_elems_snoc:
  "entry_name n \<Longrightarrow> clean_elems rooted st (ps @ [n]) = clean_elems rooted st ps @ [n]"
proof (induction ps arbitrary: st)
  case Nil
  then show ?case by (simp add: entry_name_def)
next
  case (Cons p ps)
  then show ?case by (cases st) simp_all
qed

lemma str_join_snoc: "str_join sep (es @ [n]) = (if es = [] then n else str_join sep es @ sep @ n)"
  by (induction es) (auto simp: str_join_Cons)

lemma clean_elems_path_elem:
  "list_all path_elem st \<Longrightarrow> \<forall>p \<in> set ps. CHR ''/'' \<notin> set p \<Longrightarrow> list_all path_elem (clean_elems rooted st ps)"
proof (induction ps arbitrary: st)
  case (Cons p ps)
  have "list_all path_elem [dotdot]" by (simp add: path_elem_def dot_def dotdot_def)
  with Cons show ?case by (cases st) (auto simp: path_elem_def)
qed simp

lemma split_on_slash_snoc:
  "CHR ''/'' \<notin> set n \<Longrightarrow> split_on (CHR ''/'') (d @ ''/'' @ n) = split_on (CHR ''/'') d @ [n]"
proof -
  assume n: "CHR ''/'' \<notin> set n"
  let ?ps = "split_on (CHR ''/'') d"
  have "d @ ''/'' @ n = str_join ''/'' (?ps @ [n])"
    using join_split_on [of "CHR ''/''" d] by (simp add: str_join_snoc)
  moreover have "split_on (CHR ''/'') (str_join ''/'' (?ps @ [n])) = ?ps @ [n]"
    using n split_on_free by (intro split_on_join) (auto simp: list_all_iff)
  ultimately show ?thesis by simp
qed

lemma str_join_elems:
  assumes "list_all path_elem es" and "es \<noteq> []"
  shows "str_join ''/'' es \<noteq> []" "str_join ''/'' es \<noteq> ''.''" "hd (str_join ''/'' es) \<noteq> CHR ''/''"
proof -
  obtain p ps where es: "es = p # ps" using assms(2) by (cases es) auto
  then have p: "p \<noteq> []" "p \<noteq> ''.''" "CHR ''/'' \<notin> set p"
    using assms(1) by (auto simp: path_elem_def dot_def)
  then show "str_join ''/'' es \<noteq> []" "hd (str_join ''/'' es) \<noteq> CHR ''/''"
    by (auto simp: es str_join_Cons) (metis hd_in_set)+
  show "str_join ''/'' es \<noteq> ''.''"
  proof
    assume "str_join ''/'' es = ''.''"
    with p show False
      by (cases ps) (auto simp: es str_join_Cons append_eq_Cons_conv)
  qed
qed

lemma file_join_entry:
  assumes "dir \<noteq> []" and n: "entry_name n"
  shows "file_join dir n = dir_prefix dir @ n"
proof -
  let ?es = "clean_elems (hd dir = CHR ''/'') [] (split_on (CHR ''/'') dir)"
  have es: "list_all path_elem ?es"
    using split_on_free by (intro clean_elems_path_elem) auto
  have hd: "hd (dir @ ''/'' @ n) = hd dir" using assms(1) by simp
  have el: "clean_elems (hd dir = CHR ''/'') [] (split_on (CHR ''/'') (dir @ ''/'' @ n)) = ?es @ [n]"
    using n by (simp add: split_on_slash_snoc [simplified] clean_elems_snoc entry_name_def)
  show ?thesis
  proof (cases "?es = []")
    case True
    with assms(1) have "path_clean dir = (if hd dir = CHR ''/'' then ''/'' else ''.'')"
      by (cases "hd dir = CHR ''/''") (simp_all add: path_clean_def Let_def dot_def)
    then have "dir_prefix dir = (if hd dir = CHR ''/'' then ''/'' else [])"
      by (simp add: dir_prefix_def)
    with True el hd show ?thesis
      by (cases "hd dir = CHR ''/''") (simp_all add: file_join_def path_clean_def Let_def)
  next
    case False
    note j = str_join_elems [OF es False]
    have "path_clean dir = (if hd dir = CHR ''/'' then ''/'' @ str_join ''/'' ?es else str_join ''/'' ?es)"
      using assms(1) False by (cases "hd dir = CHR ''/''") (simp_all add: path_clean_def Let_def)
    with j have pre: "dir_prefix dir =
        (if hd dir = CHR ''/'' then ''/'' @ str_join ''/'' ?es @ ''/'' else str_join ''/'' ?es @ ''/'')"
      by (cases "hd dir = CHR ''/''") (auto simp: dir_prefix_def Let_def)
    from False el hd show ?thesis
      unfolding pre by (cases "hd dir = CHR ''/''") (simp_all add: file_join_def path_clean_def Let_def str_join_snoc)
  qed
qed

lemma entry_in_prefix: "CHR ''/'' \<notin> set n \<Longrightarrow> n \<noteq> [] \<Longrightarrow> entry_in dir (dir_prefix dir @ n) = Some n"
  by (simp add: entry_in_def Let_def)

lemma entry_in_Some: "entry_in dir p = Some n \<Longrightarrow> p = dir_prefix dir @ n"
  by (auto simp: entry_in_def Let_def prefix_def split: if_splits)

subsection \<open>Topics across a restart\<close>

datatype topic_op =
    CreateTopic gotime topic_memory
  | UpdateTopic gotime string string "string list" "string list"
  | DeleteTopic string

fun topic_step :: "memory_env \<Rightarrow> topic_op \<Rightarrow> memory_manager \<times> disk \<Rightarrow> memory_manager \<times> disk" where
  "topic_step me (CreateTopic now t) st = snd (create_topic me now t st)"
| "topic_step me (UpdateTopic now i summary sources tags) st = snd (update_topic me now i summary sources tags st)"
| "topic_step me (DeleteTopic i) st = (delete_topic i (fst st), snd st)"

definition run_topics :: "memory_env \<Rightarrow> topic_op list \<Rightarrow> memory_manager \<times> disk \<Rightarrow> memory_manager \<times> disk" where
  "run_topics me ops st = fold (topic_step me) ops st"

fun deletes :: "topic_op \<Rightarrow> bool" where
  "deletes (DeleteTopic i) = True"
| "deletes op = False"

text \<open>Topics that JSON represents, with identifiers that are names of files.\<close>

definition topic_ok :: "memory_env \<Rightarrow> topic_memory \<Rightarrow> bool" where
  "topic_ok me t \<longleftrightarrow> CHR ''/'' \<notin> set (tm_id t)
     \<and> (case me_marshal me t of Inl e \<Rightarrow> False | Inr data \<Rightarrow> me_unmarshal me data = Inr t)"

definition topics_ok :: "memory_env \<Rightarrow> memory_manager \<Rightarrow> bool" where
  "topics_ok me mm \<longleftrightarrow> list_all (\<lambda>(i, t). topic_ok me t) (mm_topics mm)"

definition empty_disk :: disk where
  "empty_disk = \<lparr>dk_files = [], dk_faults = []\<rparr>"

definition topic_path :: "string \<Rightarrow> string \<Rightarrow> string" where
  "topic_path dir i = dir_prefix dir @ i @ ''.json''"

lemma topic_path_eq [simp]: "topic_path dir i = topic_path dir j \<longleftrightarrow> i = j"
  by (simp add: topic_path_def)

lemma topic_path_tmp [simp]: "topic_path dir i \<noteq> topic_path dir j @ ''.tmp''"
proof
  assume "topic_path dir i = topic_path dir j @ ''.tmp''"
  then have "rev (topic_path dir i) = rev (topic_path dir j @ ''.tmp'')" by simp
  then show False by (simp add: topic_path_def)
qed

lemma file_join_topic:
  assumes "dir \<noteq> []" and "CHR ''/'' \<notin> set i"
  shows "file_join dir (i @ ''.json'') = topic_path dir i"
proof -
  have "entry_name (i @ ''.json'')"
    using assms(2) by (auto simp: entry_name_def dot_def dotdot_def dest: arg_cong [where f = length])
  with assms(1) show ?thesis by (simp add: file_join_entry topic_path_def)
qed

text \<open>
  Without faults every file is that of a topic, and the file of a topic in memory holds that topic.
  Without deletions all topics on disk are in memory.
\<close>

definition topics_inv :: "memory_env \<Rightarrow> memory_config \<Rightarrow> bool \<Rightarrow> memory_manager \<times> disk \<Rightarrow> bool" where
  "topics_inv me cfg deleted st \<longleftrightarrow>
     mm_cfg (fst st) = cfg \<and> dk_faults (snd st) = []
     \<and> (\<forall>i t. map_of (mm_topics (fst st)) i = Some t \<longrightarrow> tm_id t = i \<and> i \<noteq> [] \<and> CHR ''/'' \<notin> set i
          \<and> (\<exists>data. map_of (dk_files (snd st)) (topic_path (mg_topic_dir cfg) i) = Some data
               \<and> me_unmarshal me data = Inr t))
     \<and> (\<forall>p data. map_of (dk_files (snd st)) p = Some data \<longrightarrow>
          (\<exists>t. p = topic_path (mg_topic_dir cfg) (tm_id t) \<and> tm_id t \<noteq> [] \<and> CHR ''/'' \<notin> set (tm_id t)
             \<and> me_unmarshal me data = Inr t
             \<and> (deleted \<or> map_of (mm_topics (fst st)) (tm_id t) = Some t)))"

lemma write_topic_ok:
  assumes "mg_topic_dir cfg \<noteq> []" and ok: "topic_ok me t" and "dk_faults d = []"
    and fresh: "map_of (dk_files d) (topic_path (mg_topic_dir cfg) (tm_id t) @ ''.tmp'') = None"
  shows "\<exists>data. me_unmarshal me data = Inr t
    \<and> map_of (dk_files (snd (write_topic_to_disk me cfg t d))) =
        (map_of (dk_files d))(topic_path (mg_topic_dir cfg) (tm_id t) \<mapsto> data)
    \<and> dk_faults (snd (write_topic_to_disk me cfg t d)) = []"
proof -
  let ?p = "topic_path (mg_topic_dir cfg) (tm_id t)"
  from ok obtain data where data: "me_marshal me t = Inr data" "me_unmarshal me data = Inr t"
    and slash: "CHR ''/'' \<notin> set (tm_id t)"
    by (auto simp: topic_ok_def split: sum.splits)
  have "(map_of (dk_files d))(?p @ ''.tmp'' \<mapsto> data, ?p @ ''.tmp'' := None) = map_of (dk_files d)"
    using fresh by auto
  with data assms(1,3) show ?thesis
    by (intro exI [of _ data])
      (simp add: write_topic_to_disk_def Let_def file_join_topic [OF assms(1) slash] write_file_def
        rename_file_def next_fault_def update_conv' delete_conv')
qed

lemma topics_inv_write:
  assumes inv: "topics_inv me cfg deleted (mm, d)" and "mg_topic_dir cfg \<noteq> []"
    and ok: "topic_ok me t" and "tm_id t \<noteq> []"
  shows "topics_inv me cfg deleted (mm\<lparr>mm_topics := AList.update (tm_id t) t (mm_topics mm)\<rparr>,
    snd (write_topic_to_disk me cfg t d))"
proof -
  let ?p = "topic_path (mg_topic_dir cfg) (tm_id t)"
  from inv have
    mem: "\<And>i t. map_of (mm_topics mm) i = Some t \<Longrightarrow> tm_id t = i \<and> i \<noteq> [] \<and> CHR ''/'' \<notin> set i
        \<and> (\<exists>data. map_of (dk_files d) (topic_path (mg_topic_dir cfg) i) = Some data \<and> me_unmarshal me data = Inr t)"
    and files: "\<And>p data. map_of (dk_files d) p = Some data \<Longrightarrow>
        \<exists>t. p = topic_path (mg_topic_dir cfg) (tm_id t) \<and> tm_id t \<noteq> [] \<and> CHR ''/'' \<notin> set (tm_id t)
          \<and> me_unmarshal me data = Inr t \<and> (deleted \<or> map_of (mm_topics mm) (tm_id t) = Some t)"
    and cfg: "mm_cfg mm = cfg"
    by (simp_all add: topics_inv_def)
  have "map_of (dk_files d) (?p @ ''.tmp'') = None"
  proof (cases "map_of (dk_files d) (?p @ ''.tmp'')")
    case (Some data)
    from files [OF this] obtain t' :: topic_memory where "?p @ ''.tmp'' = topic_path (mg_topic_dir cfg) (tm_id t')" by blast
    with topic_path_tmp show ?thesis by metis
  qed
  moreover have "dk_faults d = []" using inv by (simp add: topics_inv_def)
  ultimately obtain data where w: "me_unmarshal me data = Inr t"
    "map_of (dk_files (snd (write_topic_to_disk me cfg t d))) = (map_of (dk_files d))(?p \<mapsto> data)"
    "dk_faults (snd (write_topic_to_disk me cfg t d)) = []"
    using write_topic_ok [OF assms(2) ok] by blast
  have slash: "CHR ''/'' \<notin> set (tm_id t)" using ok by (simp add: topic_ok_def)
  show ?thesis
    unfolding topics_inv_def fst_conv snd_conv
  proof (intro conjI allI impI)
    fix i t'
    assume t': "map_of (mm_topics (mm\<lparr>mm_topics := AList.update (tm_id t) t (mm_topics mm)\<rparr>)) i = Some t'"
    have "tm_id t' = i \<and> i \<noteq> [] \<and> CHR ''/'' \<notin> set i
        \<and> (\<exists>data. map_of (dk_files (snd (write_topic_to_disk me cfg t d))) (topic_path (mg_topic_dir cfg) i) = Some data
            \<and> me_unmarshal me data = Inr t')"
    proof (cases "i = tm_id t")
      case True
      with t' w slash assms(4) show ?thesis by (simp add: update_conv')
    next
      case False
      with t' mem [of i t'] show ?thesis by (simp add: update_conv' w(2))
    qed
    then show "tm_id t' = i" "i \<noteq> []" "CHR ''/'' \<notin> set i"
      "\<exists>data. map_of (dk_files (snd (write_topic_to_disk me cfg t d))) (topic_path (mg_topic_dir cfg) i) = Some data
            \<and> me_unmarshal me data = Inr t'" by blast+
  next
    fix p data'
    assume p: "map_of (dk_files (snd (write_topic_to_disk me cfg t d))) p = Some data'"
    show "\<exists>t'. p = topic_path (mg_topic_dir cfg) (tm_id t') \<and> tm_id t' \<noteq> [] \<and> CHR ''/'' \<notin> set (tm_id t')
          \<and> me_unmarshal me data' = Inr t' \<and> (deleted \<or>
              map_of (mm_topics (mm\<lparr>mm_topics := AList.update (tm_id t) t (mm_topics mm)\<rparr>)) (tm_id t') = Some t')"
    proof (cases "p = ?p")
      case True
      with p w slash assms(4) show ?thesis by (intro exI [of _ t]) (simp add: update_conv')
    next
      case False
      with p w(2) files [of p data'] obtain t' where
        t': "p = topic_path (mg_topic_dir cfg) (tm_id t')" "tm_id t' \<noteq> []" "CHR ''/'' \<notin> set (tm_id t')"
          "me_unmarshal me data' = Inr t'" "deleted \<or> map_of (mm_topics mm) (tm_id t') = Some t'"
        by auto
      with False have "tm_id t' \<noteq> tm_id t" by auto
      with t' show ?thesis by (intro exI [of _ t']) (simp add: update_conv')
    qed
  qed (simp_all add: cfg w(3))
qed

lemma topics_inv_mono: "topics_inv me cfg deleted st \<Longrightarrow> deleted \<longrightarrow> deleted' \<Longrightarrow> topics_inv me cfg deleted' st"
  unfolding topics_inv_def by blast

lemma topics_inv_step:
  assumes inv: "topics_inv me cfg deleted (mm, d)" and dir: "mg_topic_dir cfg \<noteq> []"
    and ok: "topics_ok me (fst (topic_step me op (mm, d)))"
  shows "topics_inv me cfg (deleted \<or> deletes op) (topic_step me op (mm, d))"
proof (cases op)
  case (CreateTopic now topic)
  have cfg: "mm_cfg mm = cfg" using inv by (simp add: topics_inv_def)
  show ?thesis
  proof (cases "tm_id topic = [] \<or> tm_title topic = []")
    case True
    with inv CreateTopic show ?thesis by (auto simp: create_topic_def)
  next
    case False
    define t1 where "t1 = (if tm_created topic = 0 then topic\<lparr>tm_created := now\<rparr> else topic)"
    define t where "t = (if tm_updated t1 = 0 then t1\<lparr>tm_updated := tm_created t1\<rparr> else t1)"
    have "tm_id t \<noteq> []" using False by (simp add: t_def t1_def)
    have step: "topic_step me op (mm, d) =
        (mm\<lparr>mm_topics := AList.update (tm_id t) t (mm_topics mm)\<rparr>, snd (write_topic_to_disk me cfg t d))"
      using False CreateTopic dir cfg
      by (simp add: create_topic_def Let_def split_def flip: t1_def t_def)
    have "topic_ok me t"
      using ok map_of_SomeD [of "AList.update (tm_id t) t (mm_topics mm)" "tm_id t" t]
      by (auto simp: step topics_ok_def list_all_iff update_conv')
    with topics_inv_write [OF inv dir] \<open>tm_id t \<noteq> []\<close> CreateTopic show ?thesis unfolding step by simp
  qed
next
  case (UpdateTopic now i summary sources tags)
  have cfg: "mm_cfg mm = cfg" using inv by (simp add: topics_inv_def)
  show ?thesis
  proof (cases "map_of (mm_topics mm) i")
    case None
    with inv UpdateTopic show ?thesis by (simp add: update_topic_def)
  next
    case (Some t0)
    define t1 where "t1 = t0\<lparr>tm_summary := summary, tm_sources := tm_sources t0 @ sources\<rparr>"
    define t where "t = (if tags \<noteq> [] then t1\<lparr>tm_tags := deduplicate_tags (tm_tags t1 @ tags)\<rparr> else t1)\<lparr>tm_updated := now\<rparr>"
    have i: "tm_id t = i" "i \<noteq> []"
      using inv Some by (auto simp: topics_inv_def t_def t1_def)
    have step: "topic_step me op (mm, d) =
        (mm\<lparr>mm_topics := AList.update (tm_id t) t (mm_topics mm)\<rparr>, snd (write_topic_to_disk me cfg t d))"
      using Some UpdateTopic dir cfg unfolding i(1)
      by (simp add: update_topic_def Let_def split_def t_def t1_def)
    have "topic_ok me t"
      using ok map_of_SomeD [of "AList.update (tm_id t) t (mm_topics mm)" "tm_id t" t]
      by (auto simp: step topics_ok_def list_all_iff update_conv')
    with topics_inv_write [OF inv dir, of t] i UpdateTopic show ?thesis unfolding step by simp
  qed
next
  case (DeleteTopic i)
  with inv show ?thesis
    unfolding topics_inv_def by (auto simp: delete_topic_def delete_conv' split: if_splits) blast
qed

lemma topics_inv_run:
  assumes "mg_topic_dir cfg \<noteq> []"
    and "list_all (\<lambda>k. topics_ok me (fst (run_topics me (take k ops) (new_manager me cfg empty_disk)))) [0..<Suc (length ops)]"
  shows "topics_inv me cfg (list_ex deletes ops) (run_topics me ops (new_manager me cfg empty_disk))"
  using assms(2)
proof (induction ops rule: rev_induct)
  case Nil
  have "new_manager me cfg empty_disk =
      (\<lparr>mm_cfg = cfg, mm_index = [], mm_topics = [], mm_search = new_index, mm_hits = 0, mm_misses = 0\<rparr>, empty_disk)"
    using assms(1)
    by (simp add: new_manager_def load_topics_from_disk_def read_dir_def next_fault_def empty_disk_def
        sort_strings_def List.map_filter_def)
  then show ?case by (simp add: run_topics_def topics_inv_def empty_disk_def)
next
  case (snoc op ops)
  let ?st0 = "new_manager me cfg empty_disk"
  obtain mm d where st: "run_topics me ops ?st0 = (mm, d)" by (cases "run_topics me ops ?st0")
  have ok: "topics_ok me (fst (run_topics me (take k (ops @ [op])) ?st0))" if "k \<le> Suc (length ops)" for k
    using snoc.prems that by (auto simp: list_all_iff simp del: upt_Suc)
  have "topics_ok me (fst (run_topics me (take k ops) ?st0))" if "k \<le> length ops" for k
    using ok [of k] that by simp
  then have "topics_inv me cfg (list_ex deletes ops) (mm, d)"
    using snoc.IH st by (auto simp: list_all_iff simp del: upt_Suc)
  moreover have "run_topics me (ops @ [op]) ?st0 = topic_step me op (mm, d)"
    using st by (simp add: run_topics_def)
  ultimately show ?case
    using topics_inv_step [OF _ assms(1), of me "list_ex deletes ops" mm d op] ok [of "Suc (length ops)"]
    by simp
qed

text \<open>Loading decodes every file whose name says that it is a topic.\<close>

lemma load_files_ok:
  assumes "dk_faults d = []"
    and "\<And>n. n \<in> set ns \<Longrightarrow> n = tm_id (T n) @ ''.json'' \<and> tm_id (T n) \<noteq> []
           \<and> (\<exists>data. map_of (dk_files d) (file_join dir n) = Some data \<and> me_unmarshal me data = Inr (T n))"
  shows "snd (load_files me dir ns d topics) = d
    \<and> map_of (fst (load_files me dir ns d topics)) i =
        (if i @ ''.json'' \<in> set ns then Some (T (i @ ''.json'')) else map_of topics i)"
  using assms(2)
proof (induction ns arbitrary: topics)
  case (Cons n ns)
  from Cons.prems [of n] obtain data where
    n: "n = tm_id (T n) @ ''.json''" "tm_id (T n) \<noteq> []" "map_of (dk_files d) (file_join dir n) = Some data"
      "me_unmarshal me data = Inr (T n)" by auto
  then have "suffix ''.json'' n" by (metis suffixI)
  moreover have "read_file (file_join dir n) d = (Inr data, d)"
    using assms(1) n(3) by (simp add: read_file_def next_fault_def)
  ultimately have step: "load_files me dir (n # ns) d topics =
      load_files me dir ns d (AList.update (tm_id (T n)) (T n) topics)"
    using n(2,4) by simp
  have key: "i @ ''.json'' = n \<longleftrightarrow> i = tm_id (T n)" by (metis append_same_eq n(1))
  show ?case
    unfolding step using Cons.IH [of "AList.update (tm_id (T n)) (T n) topics"] Cons.prems key
    by (auto simp: update_conv')
qed simp

text \<open>
  What a manager finds in the directory: \<open>T n\<close> is the topic that the file \<open>n\<close> holds, \<open>ns\<close> the names of
  the files.
\<close>

definition topic_at :: "memory_env \<Rightarrow> string \<Rightarrow> disk \<Rightarrow> string \<Rightarrow> topic_memory" where
  "topic_at me dir d n = projr (me_unmarshal me (the (map_of (dk_files d) (file_join dir n))))"

definition topic_names :: "string \<Rightarrow> disk \<Rightarrow> string list" where
  "topic_names dir d = sort_strings (List.map_filter (entry_in dir) (map fst (dk_files d)))"

lemma in_topic_names:
  "n \<in> set (topic_names dir d) \<longleftrightarrow> (\<exists>p data. map_of (dk_files d) p = Some data \<and> entry_in dir p = Some n)"
proof -
  have key: "map_of (dk_files d) p \<noteq> None \<longleftrightarrow> p \<in> fst ` set (dk_files d)" for p
    by (simp add: map_of_eq_None_iff)
  have "n \<in> set (topic_names dir d) \<longleftrightarrow> (\<exists>p. p \<in> fst ` set (dk_files d) \<and> entry_in dir p = Some n)"
    by (force simp: topic_names_def sort_strings_eq List.map_filter_def)
  also have "\<dots> \<longleftrightarrow> (\<exists>p. map_of (dk_files d) p \<noteq> None \<and> entry_in dir p = Some n)"
    unfolding key by blast
  finally show ?thesis by blast
qed

lemma topic_on_disk:
  assumes "topics_inv me cfg deleted (mm, d)" and "mg_topic_dir cfg \<noteq> []"
    and "n \<in> set (topic_names (mg_topic_dir cfg) d)"
  shows "\<exists>t. n = tm_id t @ ''.json'' \<and> tm_id t \<noteq> [] \<and> topic_at me (mg_topic_dir cfg) d n = t
    \<and> (\<exists>data. map_of (dk_files d) (file_join (mg_topic_dir cfg) n) = Some data \<and> me_unmarshal me data = Inr t)
    \<and> (deleted \<or> map_of (mm_topics mm) (tm_id t) = Some t)"
proof -
  let ?dir = "mg_topic_dir cfg"
  from assms(3) obtain p data where p: "map_of (dk_files d) p = Some data" "entry_in ?dir p = Some n"
    unfolding in_topic_names by blast
  from assms(1) p(1) obtain t :: topic_memory where t: "p = topic_path ?dir (tm_id t)" "tm_id t \<noteq> []"
    "CHR ''/'' \<notin> set (tm_id t)" "me_unmarshal me data = Inr t" "deleted \<or> map_of (mm_topics mm) (tm_id t) = Some t"
    unfolding topics_inv_def fst_conv snd_conv by blast
  from entry_in_Some [OF p(2)] t(1) have n: "n = tm_id t @ ''.json''" by (simp add: topic_path_def)
  have "map_of (dk_files d) (file_join ?dir n) = Some data"
    using p(1) t(1) unfolding n file_join_topic [OF assms(2) t(3)] by simp
  with n t show ?thesis by (auto simp: topic_at_def)
qed

lemma topic_in_memory_on_disk:
  assumes "topics_inv me cfg deleted (mm, d)" and "mg_topic_dir cfg \<noteq> []" and "map_of (mm_topics mm) i = Some t"
  shows "i @ ''.json'' \<in> set (topic_names (mg_topic_dir cfg) d) \<and> topic_at me (mg_topic_dir cfg) d (i @ ''.json'') = t"
proof -
  let ?dir = "mg_topic_dir cfg"
  from assms(1,3) obtain data where i: "i \<noteq> []" "CHR ''/'' \<notin> set i"
    "map_of (dk_files d) (topic_path ?dir i) = Some data" "me_unmarshal me data = Inr t"
    by (auto simp: topics_inv_def)
  then have "entry_in ?dir (topic_path ?dir i) = Some (i @ ''.json'')"
    unfolding topic_path_def by (intro entry_in_prefix) auto
  with i show ?thesis
    unfolding in_topic_names by (auto simp: topic_at_def file_join_topic [OF assms(2)])
qed

text \<open>
  C19. Topics survive a restart: after any sequence of creations, updates and deletions on a disk without
  faults, a new manager over the same directory has every topic that is still in memory, unchanged, and
  reading them changes no file; without deletions it has exactly those topics. Identifiers must be
  names of files, and JSON must represent the topics.
\<close>

theorem topics_survive_restart:
  assumes "mg_topic_dir cfg \<noteq> []"
    and "list_all (\<lambda>k. topics_ok me (fst (run_topics me (take k ops) (new_manager me cfg empty_disk)))) [0..<Suc (length ops)]"
  shows "case run_topics me ops (new_manager me cfg empty_disk) of (mm, d) \<Rightarrow>
    case new_manager me cfg d of (mm', d') \<Rightarrow>
      d' = d
      \<and> (case get_topic i mm of None \<Rightarrow> True | Some t \<Rightarrow> get_topic i mm' = Some t)
      \<and> (if list_ex deletes ops then True else get_topic i mm' = get_topic i mm)"
proof -
  let ?dir = "mg_topic_dir cfg"
  obtain mm d where st: "run_topics me ops (new_manager me cfg empty_disk) = (mm, d)"
    by (cases "run_topics me ops (new_manager me cfg empty_disk)")
  from topics_inv_run [OF assms] have inv: "topics_inv me cfg (list_ex deletes ops) (mm, d)"
    by (simp only: st)
  then have faults: "dk_faults d = []" by (simp add: topics_inv_def)
  let ?ns = "topic_names ?dir d" and ?T = "topic_at me ?dir d"
  note on_disk = topic_on_disk [OF inv assms(1)] and present = topic_in_memory_on_disk [OF inv assms(1)]
  have loaded: "snd (load_files me ?dir ?ns d []) = d
      \<and> map_of (fst (load_files me ?dir ?ns d [])) i = (if i @ ''.json'' \<in> set ?ns then Some (?T (i @ ''.json'')) else None)"
    using load_files_ok [OF faults, of ?ns ?T] on_disk by (fastforce split: if_splits)
  have new: "new_manager me cfg d =
      (\<lparr>mm_cfg = cfg, mm_index = [], mm_topics = fst (load_files me ?dir ?ns d []), mm_search = new_index,
        mm_hits = 0, mm_misses = 0\<rparr>, d)"
    using assms(1) faults loaded
    by (simp add: new_manager_def load_topics_from_disk_def read_dir_def next_fault_def split_def
        flip: topic_names_def)
  have "map_of (mm_topics mm) i = Some (?T (i @ ''.json''))" if "i @ ''.json'' \<in> set ?ns" "\<not> list_ex deletes ops"
    using on_disk [OF that(1)] that(2) by auto
  with present loaded show ?thesis
    unfolding st new prod.case get_topic_def
    by (cases "map_of (mm_topics mm) i") auto
qed

subsection \<open>Instances\<close>

definition sample_topic :: "string \<Rightarrow> topic_memory" where
  "sample_topic i = \<lparr>tm_id = i, tm_title = i, tm_created = 5, tm_updated = 5, tm_sources = [], tm_summary = [],
     tm_tags = []\<rparr>"

definition sample_memory_env :: memory_env where
  "sample_memory_env = \<lparr>me_search = sample_env, me_marshal = (\<lambda>t. Inr (tm_id t)),
     me_unmarshal = (\<lambda>data. Inr (sample_topic data))\<rparr>"

definition sample_memory_config :: memory_config where
  "sample_memory_config = \<lparr>mg_topic_dir = ''topics/'', mg_max_entries = 0, mg_embed_enabled = False, mg_embed = None\<rparr>"

text \<open>Of two events of 74 bytes, a budget of 100 bytes keeps one.\<close>

theorem compact_view_within_budget_witness:
  "case build_compact_view 7 [text_event ''a'' ''one'', text_event ''b'' ''two''] 100 []
      (fst (new_manager sample_memory_env sample_memory_config empty_disk)) of
    (sel, kept, dropped) \<Rightarrow> kept = 1 \<and> dropped = 1"
proof -
  let ?events = "[text_event ''a'' ''one'', text_event ''b'' ''two'']"
  let ?mm = "fst (new_manager sample_memory_env sample_memory_config empty_disk)"
  obtain sel kept dropped where view: "build_compact_view 7 ?events 100 [] ?mm = (sel, kept, dropped)"
    by (cases "build_compact_view 7 ?events 100 [] ?mm")
  from compact_view_within_budget [of 7 ?events "[]" ?mm 100]
  obtain rest where
    parts: "mset sel + mset rest = mset ?events" and kept: "kept = int (length sel)" "dropped = int (length rest)"
    and size: "sum_list (map estimated_bytes sel) \<le> 100"
    and best: "case rest of [] \<Rightarrow> True | b # bs \<Rightarrow> sum_list (map estimated_bytes sel) + estimated_bytes b > 100"
    unfolding view prod.case Let_def
    by (elim exE conjE) (rule that, auto split: list.splits)
  have events: "set sel \<union> set rest = set ?events"
    by (metis parts set_mset_mset set_mset_union)
  have bytes: "estimated_bytes e = 74" if "e \<in> set ?events" for e
    using that by (auto simp: estimated_bytes_def text_event_def KindTurnUser_def)
  have same: "map estimated_bytes sel = map (\<lambda>_. 74) sel"
    using events bytes by (intro map_cong) auto
  have sum: "sum_list (map estimated_bytes sel) = 74 * int (length sel)"
    unfolding same by (simp add: sum_list_triv sum_list_replicate map_replicate_const)
  have two: "length sel + length rest = 2"
    using arg_cong [OF parts, of size] by simp
  have "rest \<noteq> []"
    using size sum two by (cases rest) auto
  then obtain b bs where rest: "rest = b # bs" by (cases rest) auto
  with events bytes have "estimated_bytes b = 74" by auto
  with best rest sum have "1 \<le> length sel" by simp
  with rest two have "length sel = 1" "length rest = 1" by (cases bs; simp)+
  with view kept show ?thesis by simp
qed

text \<open>A deleted topic is back after a restart: its file is still there.\<close>

theorem topics_survive_restart_witness:
  "case run_topics sample_memory_env [CreateTopic 5 (sample_topic ''a''), CreateTopic 6 (sample_topic ''b''), DeleteTopic ''a'']
      (new_manager sample_memory_env sample_memory_config empty_disk) of (mm, d) \<Rightarrow>
    case new_manager sample_memory_env sample_memory_config d of (mm', d') \<Rightarrow>
      get_topic ''b'' mm' = Some (sample_topic ''b'')
      \<and> get_topic ''a'' mm = None \<and> get_topic ''a'' mm' = Some (sample_topic ''a'')"
proof -
  let ?me = sample_memory_env and ?cfg = sample_memory_config
  let ?ops = "[CreateTopic 5 (sample_topic ''a''), CreateTopic 6 (sample_topic ''b''), DeleteTopic ''a'']"
  let ?r = "run_topics ?me ?ops (new_manager ?me ?cfg empty_disk)"
  have ok: "list_all (\<lambda>k. topics_ok ?me (fst (run_topics ?me (take k ?ops) (new_manager ?me ?cfg empty_disk))))
      [0..<Suc (length ?ops)]"
    by code_simp
  have "get_topic ''b'' (fst ?r) = Some (sample_topic ''b'')" by code_simp
  moreover have "get_topic ''a'' (fst ?r) = None" by code_simp
  moreover have "get_topic ''a'' (fst (new_manager ?me ?cfg (snd ?r))) = Some (sample_topic ''a'')" by code_simp
  moreover have "mg_topic_dir ?cfg \<noteq> []" by (simp add: sample_memory_config_def)
  ultimately show ?thesis
    using topics_survive_restart [OF _ ok, of "''b''"] by (simp add: split_def)
qed

end
