(* ===== verification/Dream.thy ===== *)
theory Dream
  imports Server MemoryManager
begin

text \<open>
  \<open>internal/dream/daemon.go\<close> and its binary \<open>cmd/dream/main.go\<close>: the daemon that, after a time without
  activity, summarises a session into topics of the memory manager. The daemon works on a world of the
  manager, the disk and the backend behind its event log. Readings of the clock are a function of how
  many there were before; the order in which a \<open>range\<close> visits a map is the permutation \<open>visit\<close>; RFC 3339
  formatting and the title case of runes beyond ASCII are parameters.
\<close>

subsection \<open>The daemon\<close>

definition KindDreamResult :: string where
  "KindDreamResult = ''dream.result''"

record dream_config =
  dg_enabled :: bool
  dg_inactivity_hours :: int
  dg_min_sessions :: int
  dg_prompt :: string
  dg_topic_dir :: string

definition DefaultDreamPrompt :: string where
  "DefaultDreamPrompt = str_join newline
     [''You are performing a dream, a reflective pass over your memory files.'',
      ''Synthesize what you have learned recently into durable, well-organized memories'',
      ''so that future sessions can orient quickly.'',
      ''Prune contradictions, merge duplicates, rewrite topic files.'',
      ''Focus on patterns, lessons, and durable knowledge.'']"

record daemon =
  da_cfg :: dream_config
  da_last_dream :: gotime
  da_sessions :: int
  da_last_activity :: gotime
  da_dreams :: "64 word"

definition new_daemon :: "dream_config \<Rightarrow> daemon" where
  "new_daemon cfg0 =
     (let cfg1 = (if dg_inactivity_hours cfg0 \<le> 0 then cfg0\<lparr>dg_inactivity_hours := 24\<rparr> else cfg0);
          cfg2 = (if dg_min_sessions cfg1 \<le> 0 then cfg1\<lparr>dg_min_sessions := 5\<rparr> else cfg1);
          cfg3 = (if dg_prompt cfg2 = [] then cfg2\<lparr>dg_prompt := DefaultDreamPrompt\<rparr> else cfg2)
      in \<lparr>da_cfg = cfg3, da_last_dream = 0, da_sessions = 0, da_last_activity = 0, da_dreams = 0\<rparr>)"

definition record_activity :: "gotime \<Rightarrow> daemon \<Rightarrow> daemon" where
  "record_activity now da = da\<lparr>da_last_activity := now, da_sessions := da_sessions da + 1\<rparr>"

text \<open>\<open>time.Duration.Hours\<close>.\<close>

definition hours_between :: "gotime \<Rightarrow> gotime \<Rightarrow> rat" where
  "hours_between now t = of_int (time_sub now t) / (3600 * 10 ^ 9)"

definition should_dream :: "gotime \<Rightarrow> daemon \<Rightarrow> bool" where
  "should_dream now da =
     (if \<not> dg_enabled (da_cfg da) then False
      else if da_last_activity da = 0 then False
      else if hours_between now (da_last_activity da) < of_int (dg_inactivity_hours (da_cfg da)) then False
      else if da_sessions da < dg_min_sessions (da_cfg da) then False
      else if da_last_dream da \<noteq> 0
              \<and> hours_between now (da_last_dream da) < of_int (dg_inactivity_hours (da_cfg da)) then False
      else True)"

definition dream_count :: "daemon \<Rightarrow> int" where
  "dream_count da = sint (da_dreams da)"

definition dream_frequency_of :: "daemon \<Rightarrow> rat" where
  "dream_frequency_of da = 0"

subsection \<open>Topics of a session\<close>

record dream_env =
  de_memory :: memory_env
  de_title :: "string \<Rightarrow> string"
  de_rfc3339 :: "gotime \<Rightarrow> string"
  de_visit :: "string list \<Rightarrow> string list"
  de_clock :: "nat \<Rightarrow> gotime"

definition add_candidate :: "string \<Rightarrow> event \<Rightarrow> (string \<times> event list) list \<Rightarrow> (string \<times> event list) list" where
  "add_candidate topic e m =
     AList.update topic ((case map_of m topic of None \<Rightarrow> [] | Some es \<Rightarrow> es) @ [e]) m"

text \<open>\<open>strings.SplitN(kind, ".", 2)\<close>: the part before the first dot, if there is one.\<close>

definition kind_prefix :: "string \<Rightarrow> string option" where
  "kind_prefix k = (if CHR ''.'' \<in> set k then Some (takeWhile (\<lambda>c. c \<noteq> CHR ''.'') k) else None)"

definition task_topic :: "dream_env \<Rightarrow> event \<Rightarrow> string option" where
  "task_topic env e =
     (let task = meta_string (ev_meta e) ''task_summary'' in
      if task = [] then None
      else case str_fields task of
        [] \<Rightarrow> None
      | word # words \<Rightarrow> Some (''task_'' @ lower_text (sn_unicode (me_search (de_memory env))) word))"

definition add_event_topics :: "dream_env \<Rightarrow> event \<Rightarrow> (string \<times> event list) list \<Rightarrow> (string \<times> event list) list" where
  "add_event_topics env e m =
     (let m1 = (case kind_prefix (ev_kind e) of None \<Rightarrow> m | Some p \<Rightarrow> add_candidate p e m) in
      case task_topic env e of None \<Rightarrow> m1 | Some t \<Rightarrow> add_candidate t e m1)"

definition identify_topics :: "dream_env \<Rightarrow> event list \<Rightarrow> (string \<times> event list) list" where
  "identify_topics env events =
     filter (\<lambda>(topic, es). 2 \<le> length es) (fold (add_event_topics env) events [])"

text \<open>The summary of a topic; kinds with equal counts appear in the order in which the map is visited.\<close>

definition count_line :: "string \<times> nat \<Rightarrow> string" where
  "count_line kc = ''  - '' @ fst kc @ '': '' @ nat_str (snd kc) @ '' occurrences''"

definition synthesize_summary :: "dream_env \<Rightarrow> event list \<Rightarrow> string" where
  "synthesize_summary env events =
     (if events = [] then []
      else
        let counts = tally (map ev_kind events);
            listed = map (\<lambda>k. (k, the (map_of counts k))) (de_visit env (map fst counts));
            sorted_counts = go_sort (\<lambda>a b. snd a > snd b) listed;
            lines = [''Pattern analysis of '' @ nat_str (length events) @ '' events:'']
                    @ map count_line (take 5 sorted_counts)
                    @ (if 2 \<le> length events
                       then [''  Time span: '' @ de_rfc3339 env (ev_ts (hd events)) @ '' to ''
                              @ de_rfc3339 env (ev_ts (last events))]
                       else [])
        in str_join newline lines)"

text \<open>The range over the new topics, in the order of \<open>visit\<close>.\<close>

definition new_topics :: "dream_env \<Rightarrow> event list \<Rightarrow> (string \<times> string) list" where
  "new_topics env events =
     (let candidates = identify_topics env events in
      List.map_filter (\<lambda>topic.
          let summary = synthesize_summary env (the (map_of candidates topic)) in
          if summary = [] then None else Some (topic, summary))
        (de_visit env (map fst candidates)))"

definition topic_separator :: string where
  "topic_separator = newline @ newline @ ''---'' @ newline @ newline"

definition reflective_pass :: "dream_env \<Rightarrow> event list \<Rightarrow> topic_memory list \<Rightarrow> dream_result" where
  "reflective_pass env events topics =
     (let fresh = new_topics env events;
          seen = map tm_id topics;
          summary = str_join topic_separator (map snd fresh)
      in \<lparr>dr_created = [], dr_updated = [], dr_pruned = filter (\<lambda>t. t \<in> set seen) (map fst fresh),
          dr_summary = (if summary = [] then ''No new patterns identified during this dream pass.'' else summary),
          dr_time = 0, dr_duration = 0, dr_sessions = 0, dr_events = 0, dr_topics = fresh\<rparr>)"

text \<open>\<open>strings.Title\<close>: a rune after a separator is set in title case.\<close>

definition is_separator :: "unicode \<Rightarrow> string \<Rightarrow> bool" where
  "is_separator un r =
     (case r of [c] \<Rightarrow> \<not> ascii_word c
      | _ \<Rightarrow> if un_alnum un r then False else r \<in> set space_runes)"

definition title_rune :: "dream_env \<Rightarrow> string \<Rightarrow> string" where
  "title_rune env r = (case r of [c] \<Rightarrow> [upper_char c] | _ \<Rightarrow> de_title env r)"

fun title_loop :: "dream_env \<Rightarrow> string \<Rightarrow> string list \<Rightarrow> string" where
  "title_loop env before [] = []"
| "title_loop env before (r # rs) =
     (if is_separator (sn_unicode (me_search (de_memory env))) before then title_rune env r else r)
     @ title_loop env r rs"

definition str_title :: "dream_env \<Rightarrow> string \<Rightarrow> string" where
  "str_title env s = title_loop env '' '' (runes s)"

definition topic_title_from_id :: "dream_env \<Rightarrow> string \<Rightarrow> string" where
  "topic_title_from_id env i =
     (if CHR ''_'' \<in> set i then str_title env (tl (dropWhile (\<lambda>c. c \<noteq> CHR ''_'') i)) else i)"

subsection \<open>A dream pass\<close>

record 'b dream_world =
  dw_memory :: memory_manager
  dw_disk :: disk
  dw_backend :: 'b

text \<open>
  The loop over the new topics. Each one takes three readings of the clock: two for the times of a new
  topic and one inside \<open>CreateTopic\<close> or \<open>UpdateTopic\<close>. An update that fails counts as an update.
\<close>

fun save_topics ::
  "dream_env \<Rightarrow> nat \<Rightarrow> (string \<times> string) list \<Rightarrow> dream_result \<Rightarrow> memory_manager \<times> disk
    \<Rightarrow> dream_result result \<times> (memory_manager \<times> disk)" where
  "save_topics env tick [] res st = (Inr res, st)"
| "save_topics env tick ((topic, summary) # rest) res st =
     (case get_topic topic (fst st) of
        Some t \<Rightarrow>
          (let (err, st1) = update_topic (de_memory env) (de_clock env tick) topic summary [] [] st
           in save_topics env (tick + 3) rest (res\<lparr>dr_updated := dr_updated res @ [topic]\<rparr>) st1)
      | None \<Rightarrow>
          (case create_topic (de_memory env) (de_clock env (tick + 2))
                  \<lparr>tm_id = topic, tm_title = topic_title_from_id env topic, tm_created = de_clock env tick,
                   tm_updated = de_clock env (tick + 1), tm_sources = [], tm_summary = summary, tm_tags = []\<rparr> st of
             (Some e, st1) \<Rightarrow> (Inl (Wrapped (''create topic '' @ go_quote topic @ '': '' @ err_msg e) e), st1)
           | (None, st1) \<Rightarrow> save_topics env (tick + 3) rest (res\<lparr>dr_created := dr_created res @ [topic]\<rparr>) st1))"

text \<open>\<open>json.Marshal\<close> of a slice of strings, where a nil slice is \<open>null\<close>.\<close>

definition marshal_strings :: "string list \<Rightarrow> string" where
  "marshal_strings ss = json_print (if ss = [] then JNull else JArray (map JString ss))"

definition dream_event :: "string \<Rightarrow> dream_result \<Rightarrow> event" where
  "dream_event session res =
     \<lparr>ev_id = ''dream.'' @ int_str (unix_nano (dr_time res)), ev_session = session, ev_ts = dr_time res,
      ev_kind = KindDreamResult, ev_branch = ''main'', ev_parent = [], ev_refs = [],
      ev_meta = [(''topics_created'', VStr (marshal_strings (dr_created res))),
                 (''topics_updated'', VStr (marshal_strings (dr_updated res))),
                 (''topics_pruned'', VStrs (dr_pruned res)),
                 (''summary'', VStr (dr_summary res)),
                 (''duration_ms'', VInt64 (dr_duration res div 10 ^ 6)),
                 (''session_count'', VInt (dr_sessions res)),
                 (''events_reviewed'', VInt (dr_events res))],
      ev_blob = []\<rparr>"

definition execute_dream ::
  "'b backend_ops \<Rightarrow> dream_env \<Rightarrow> ctx \<Rightarrow> string \<Rightarrow> daemon \<times> 'b dream_world
    \<Rightarrow> dream_result result \<times> daemon \<times> 'b dream_world" where
  "execute_dream ops env c session dw =
     (let (da, w) = dw; started = de_clock env 0 in
      case bk_list ops c session (dw_backend w) of
        Inl e \<Rightarrow> (Inl (Wrapped (''list events: '' @ err_msg e) e), da, w)
      | Inr events \<Rightarrow>
        let res0 = reflective_pass env events (list_topics (dw_memory w));
            res1 = res0\<lparr>dr_time := started, dr_duration := time_sub (de_clock env 1) started,
                        dr_sessions := da_sessions da, dr_events := int (length events)\<rparr> in
        case save_topics env 2 (dr_topics res1) res1 (dw_memory w, dw_disk w) of
          (Inl e, (mm, d)) \<Rightarrow> (Inl e, da, w\<lparr>dw_memory := mm, dw_disk := d\<rparr>)
        | (Inr res, (mm, d)) \<Rightarrow>
          (Inr res,
           da\<lparr>da_last_dream := de_clock env (2 + 3 * length (dr_topics res1)), da_dreams := da_dreams da + 1\<rparr>,
           w\<lparr>dw_memory := mm, dw_disk := d,
             dw_backend := snd (bk_append ops c (dream_event session res) (dw_backend w))\<rparr>))"

subsection \<open>The binary\<close>

text \<open>\<open>strconv.Atoi\<close> on a 64-bit machine.\<close>

definition atoi :: "string \<Rightarrow> int option" where
  "atoi s =
     (let neg = (s \<noteq> [] \<and> hd s = CHR ''-'');
          digits = (if s \<noteq> [] \<and> (hd s = CHR ''-'' \<or> hd s = CHR ''+'') then tl s else s) in
      if digits = [] \<or> \<not> list_all (\<lambda>c. 48 \<le> (of_char c :: nat) \<and> (of_char c :: nat) \<le> 57) digits then None
      else let n = (if neg then - int (dec_value 0 digits) else int (dec_value 0 digits)) in
        if - (2 ^ 63) \<le> n \<and> n < 2 ^ 63 then Some n else None)"

definition string_or_default :: "string \<Rightarrow> string \<Rightarrow> string" where
  "string_or_default v d = (if trim_space v = [] then d else trim_space v)"

definition parse_int_or_default :: "string \<Rightarrow> int \<Rightarrow> int" where
  "parse_int_or_default raw d =
     (if trim_space raw = [] then d
      else case atoi (trim_space raw) of None \<Rightarrow> d | Some n \<Rightarrow> if n \<le> 0 then d else n)"

text \<open>The flags after parsing; \<open>dr_duration\<close> is printed by \<open>time.Duration.String\<close>, a parameter.\<close>

record dream_flags =
  df_version :: bool
  df_help :: bool
  df_session :: string
  df_topic_dir :: string
  df_inactivity_hrs :: int
  df_min_sessions :: int
  df_force :: bool

text \<open>The defaults of the flags, from the environment.\<close>

definition default_flags :: "(string \<Rightarrow> string) \<Rightarrow> dream_flags" where
  "default_flags getenv =
     \<lparr>df_version = False, df_help = False,
      df_session = string_or_default (getenv ''HARNESS_SESSION_ID'') ''demo'',
      df_topic_dir = string_or_default (getenv ''DREAM_TOPIC_DIR'') [],
      df_inactivity_hrs = parse_int_or_default (getenv ''DREAM_INACTIVITY_HOURS'') 24,
      df_min_sessions = parse_int_or_default (getenv ''DREAM_MIN_SESSIONS'') 5, df_force = False\<rparr>"

definition print_dream_result :: "(int \<Rightarrow> string) \<Rightarrow> dream_result \<Rightarrow> string" where
  "print_dream_result duration res =
     ''Dream pass completed in '' @ duration (dr_duration res) @ '':'' @ newline
     @ ''  Events reviewed: '' @ int_str (dr_events res) @ newline
     @ ''  Topics created: '' @ nat_str (length (dr_created res)) @ newline
     @ ''  Topics updated: '' @ nat_str (length (dr_updated res)) @ newline
     @ ''  Topics pruned: '' @ nat_str (length (dr_pruned res)) @ newline
     @ (if dr_summary res = [] then []
        else newline @ ''Summary:'' @ newline
          @ (if 500 < length (dr_summary res) then take 500 (dr_summary res) @ ''...'' else dr_summary res) @ newline)"

text \<open>\<open>run\<close> after parsing: exit code, standard output and error, and the world that is left.\<close>

definition dream_report ::
  "dream_env \<Rightarrow> (int \<Rightarrow> string) \<Rightarrow> string \<Rightarrow> string \<Rightarrow> daemon \<times> mem_backend dream_world
    \<Rightarrow> (int \<times> string \<times> string) \<times> mem_backend dream_world" where
  "dream_report env duration out session dw =
     (case execute_dream mem_ops env None session dw of
        (Inl e, da, w) \<Rightarrow> ((1, out, ''dream execution failed: '' @ err_msg e @ newline), w)
      | (Inr res, da, w) \<Rightarrow> ((0, out @ print_dream_result duration res, []), w))"

definition dream_run ::
  "dream_env \<Rightarrow> (int \<Rightarrow> string) \<Rightarrow> string \<Rightarrow> gotime \<Rightarrow> gotime \<Rightarrow> dream_flags \<Rightarrow> disk
    \<Rightarrow> (int \<times> string \<times> string) \<times> mem_backend dream_world option" where
  "dream_run env duration usage active now fl d =
     (if df_version fl then ((0, ''dream-daemon 0.3.1'' @ newline, []), None)
      else if df_help fl then ((0, usage, []), None)
      else
        let (mm, d1) = new_manager (de_memory env) \<lparr>mg_topic_dir = df_topic_dir fl, mg_max_entries = 1024,
              mg_embed_enabled = False, mg_embed = None\<rparr> d;
            w = \<lparr>dw_memory = mm, dw_disk = d1, dw_backend = new_mem_backend\<rparr>;
            da = new_daemon \<lparr>dg_enabled = True, dg_inactivity_hours = df_inactivity_hrs fl,
              dg_min_sessions = df_min_sessions fl, dg_prompt = [], dg_topic_dir = df_topic_dir fl\<rparr> in
        if df_force fl
        then apsnd Some (dream_report env duration
               (''Executing forced dream pass for session '' @ df_session fl @ ''...'' @ newline) (df_session fl) (da, w))
        else
          let da1 = record_activity active da in
          if \<not> should_dream now da1
          then ((0, ''Dream thresholds not met (inactivity: '' @ int_str (df_inactivity_hrs fl) @ ''h, min sessions: ''
                 @ int_str (df_min_sessions fl) @ '').'' @ newline
                 @ ''Use --force to execute a dream pass regardless.'' @ newline, []), Some w)
          else apsnd Some (dream_report env duration
               (''Executing dream pass for session '' @ df_session fl @ ''...'' @ newline) (df_session fl) (da1, w)))"

subsection \<open>What a pass changes\<close>

text \<open>The events of a topic: once for the prefix of the kind and once for the task.\<close>

definition topic_events :: "dream_env \<Rightarrow> string \<Rightarrow> event list \<Rightarrow> event list" where
  "topic_events env i events =
     concat (map (\<lambda>e. (if kind_prefix (ev_kind e) = Some i then [e] else [])
                    @ (if task_topic env e = Some i then [e] else [])) events)"

definition entry_list :: "(string \<times> 'a list) list \<Rightarrow> string \<Rightarrow> 'a list" where
  "entry_list m i = (case map_of m i of None \<Rightarrow> [] | Some es \<Rightarrow> es)"

lemma entry_list_candidate [simp]:
  "entry_list (add_candidate t e m) i = entry_list m i @ (if t = i then [e] else [])"
  by (simp add: entry_list_def add_candidate_def update_conv')

lemma candidates_of:
  "entry_list (fold (add_event_topics env) events m) i = entry_list m i @ topic_events env i events"
proof (induction events arbitrary: m)
  case (Cons e events)
  have "entry_list (add_event_topics env e m) i = entry_list m i
      @ (if kind_prefix (ev_kind e) = Some i then [e] else []) @ (if task_topic env e = Some i then [e] else [])"
    by (simp add: add_event_topics_def Let_def split: option.split)
  with Cons show ?case by (simp add: topic_events_def)
qed (simp add: topic_events_def)

lemma candidates_distinct:
  "distinct (map fst m) \<Longrightarrow> distinct (map fst (fold (add_event_topics env) events m))"
  by (induction events arbitrary: m)
    (simp_all add: add_event_topics_def add_candidate_def distinct_update Let_def split: option.split)

lemma map_of_filter_value:
  "distinct (map fst m) \<Longrightarrow>
     map_of (filter (\<lambda>(k, v). P v) m) k = (case map_of m k of None \<Rightarrow> None | Some v \<Rightarrow> if P v then Some v else None)"
  by (induction m) (auto simp: map_of_eq_None_iff image_iff split: option.split)

lemma identify_topics_exact:
  "map_of (identify_topics env events) i =
     (if 2 \<le> length (topic_events env i events) then Some (topic_events env i events) else None)"
  and identify_topics_distinct: "distinct (map fst (identify_topics env events))"
proof -
  let ?m = "fold (add_event_topics env) events []"
  have d: "distinct (map fst ?m)" by (rule candidates_distinct) simp
  have "entry_list ?m i = topic_events env i events"
    using candidates_of [of env events "[]" i] by (simp add: entry_list_def)
  then show "map_of (identify_topics env events) i =
     (if 2 \<le> length (topic_events env i events) then Some (topic_events env i events) else None)"
    unfolding identify_topics_def map_of_filter_value [OF d]
    by (cases "map_of ?m i") (auto simp: entry_list_def)
  show "distinct (map fst (identify_topics env events))"
    using d by (auto simp: identify_topics_def distinct_map intro: inj_on_subset)
qed

lemma str_join_nonempty: "x \<noteq> [] \<Longrightarrow> str_join sep (x # xs) \<noteq> []"
  by (cases xs) auto

lemma synthesize_summary_nonempty: "events \<noteq> [] \<Longrightarrow> synthesize_summary env events \<noteq> []"
  by (simp add: synthesize_summary_def Let_def str_join_nonempty)

lemma new_topics_exact:
  assumes "\<And>xs. mset (de_visit env xs) = mset xs"
  shows "map_of (new_topics env events) i =
      (if 2 \<le> length (topic_events env i events)
       then Some (synthesize_summary env (topic_events env i events)) else None)"
    and "mset (map fst (new_topics env events)) = mset (map fst (identify_topics env events))"
    and "distinct (map fst (new_topics env events))"
proof -
  let ?c = "identify_topics env events"
  let ?f = "\<lambda>topic. (topic, synthesize_summary env (the (map_of ?c topic)))"
  have members: "set (de_visit env (map fst ?c)) = fst ` set ?c"
    using assms [of "map fst ?c"] by (metis list.set_map mset_eq_setD)
  have ne: "synthesize_summary env (the (map_of ?c topic)) \<noteq> []" if "topic \<in> fst ` set ?c" for topic
  proof -
    from that obtain es where "map_of ?c topic = Some es"
      by (metis not_Some_eq map_of_eq_None_iff)
    then show ?thesis
      by (auto simp: identify_topics_exact intro!: synthesize_summary_nonempty split: if_splits)
  qed
  have eq: "new_topics env events = map ?f (de_visit env (map fst ?c))"
  proof -
    have "List.map_filter (\<lambda>topic. let summary = synthesize_summary env (the (map_of ?c topic)) in
        if summary = [] then None else Some (topic, summary)) ts = map ?f ts" if "set ts \<subseteq> fst ` set ?c" for ts
      using that by (induction ts) (auto simp: List.map_filter_def Let_def ne)
    then show ?thesis using members by (simp add: new_topics_def Let_def)
  qed
  have keys: "map fst (new_topics env events) = de_visit env (map fst ?c)"
    by (simp add: eq comp_def)
  show "mset (map fst (new_topics env events)) = mset (map fst ?c)"
    unfolding keys by (rule assms)
  then show dist: "distinct (map fst (new_topics env events))"
    using identify_topics_distinct by (metis mset_eq_imp_distinct_iff)
  show "map_of (new_topics env events) i =
      (if 2 \<le> length (topic_events env i events)
       then Some (synthesize_summary env (topic_events env i events)) else None)"
  proof (cases "i \<in> fst ` set ?c")
    case True
    then have "2 \<le> length (topic_events env i events)"
      using identify_topics_exact [of env events i] by (metis map_of_eq_None_iff)
    moreover have "?f i \<in> set (new_topics env events)" using True members by (simp add: eq)
    ultimately show ?thesis
      using dist identify_topics_exact [of env events i] by (simp add: map_of_is_SomeI)
  next
    case False
    then have "map_of (new_topics env events) i = None"
      using members keys by (metis list.set_map map_of_eq_None_iff)
    moreover from False have "map_of ?c i = None" by (simp add: map_of_eq_None_iff)
    ultimately show ?thesis using identify_topics_exact [of env events i] by (simp split: if_splits)
  qed
qed

text \<open>One topic: created or updated, in memory at least.\<close>

lemma update_topic_effect:
  "get_topic i mm = Some t \<Longrightarrow>
     get_topic j (fst (snd (update_topic me now i summary [] [] (mm, d)))) =
       (if j = i then Some (t\<lparr>tm_summary := summary, tm_updated := now\<rparr>) else get_topic j mm)"
  by (auto simp: get_topic_def update_topic_def Let_def split_def update_conv')

lemma create_topic_effect:
  "create_topic me now t (mm, d) = (None, mm1, d1) \<Longrightarrow>
     tm_id t \<noteq> [] \<and> tm_title t \<noteq> [] \<and>
     get_topic j mm1 = (if j = tm_id t
       then (let t1 = (if tm_created t = 0 then t\<lparr>tm_created := now\<rparr> else t) in
             Some (if tm_updated t1 = 0 then t1\<lparr>tm_updated := tm_created t1\<rparr> else t1))
       else get_topic j mm)"
  by (auto simp: get_topic_def create_topic_def Let_def split_def update_conv' split: if_splits)

lemma save_topics_effect:
  "save_topics env tick ts res (mm, d) = (Inr res', (mm', d')) \<Longrightarrow> distinct (map fst ts) \<Longrightarrow>
     res' = res\<lparr>dr_created := dr_created res @ filter (\<lambda>i. get_topic i mm = None) (map fst ts),
                dr_updated := dr_updated res @ filter (\<lambda>i. get_topic i mm \<noteq> None) (map fst ts)\<rparr>
     \<and> (case map_of ts j of
          None \<Rightarrow> get_topic j mm' = get_topic j mm
        | Some s \<Rightarrow> \<exists>t. get_topic j mm' = Some t \<and> tm_summary t = s
            \<and> tm_title t = (case get_topic j mm of None \<Rightarrow> topic_title_from_id env j | Some t0 \<Rightarrow> tm_title t0)
            \<and> tm_sources t = (case get_topic j mm of None \<Rightarrow> [] | Some t0 \<Rightarrow> tm_sources t0))"
proof (induction ts arbitrary: tick res mm d)
  case (Cons kv ts)
  obtain i s where kv: "kv = (i, s)" by (cases kv)
  from Cons.prems(2) kv have new: "i \<notin> fst ` set ts" "distinct (map fst ts)" by auto
  then have none: "map_of ts i = None" by (simp add: map_of_eq_None_iff)
  have same: "filter (\<lambda>k. get_topic k mm1 = None) (map fst ts) = filter (\<lambda>k. get_topic k mm = None) (map fst ts)"
    "filter (\<lambda>k. get_topic k mm1 \<noteq> None) (map fst ts) = filter (\<lambda>k. get_topic k mm \<noteq> None) (map fst ts)"
    if "\<And>k. k \<noteq> i \<Longrightarrow> get_topic k mm1 = get_topic k mm" for mm1
  proof -
    have "get_topic k mm1 = get_topic k mm" if "k \<in> set (map fst ts)" for k
      using that new(1) \<open>\<And>k. k \<noteq> i \<Longrightarrow> get_topic k mm1 = get_topic k mm\<close> by (metis list.set_map)
    then show "filter (\<lambda>k. get_topic k mm1 = None) (map fst ts) = filter (\<lambda>k. get_topic k mm = None) (map fst ts)"
      "filter (\<lambda>k. get_topic k mm1 \<noteq> None) (map fst ts) = filter (\<lambda>k. get_topic k mm \<noteq> None) (map fst ts)"
      by (intro filter_cong refl; simp)+
  qed
  show ?case
  proof (cases "get_topic i mm")
    case (Some t)
    obtain err mm1 d1 where u: "update_topic (de_memory env) (de_clock env tick) i s [] [] (mm, d) = (err, mm1, d1)"
      by (metis prod_cases3)
    have eff: "get_topic k mm1 = (if k = i then Some (t\<lparr>tm_summary := s, tm_updated := de_clock env tick\<rparr>) else get_topic k mm)" for k
      using update_topic_effect [OF Some, of k "de_memory env" "de_clock env tick" s d] by (simp add: u)
    have "save_topics env (tick + 3) ts (res\<lparr>dr_updated := dr_updated res @ [i]\<rparr>) (mm1, d1) = (Inr res', (mm', d'))"
      using Cons.prems(1) by (simp add: kv Some u)
    note rest = Cons.IH [OF this new(2)] same [of mm1] eff none
    show ?thesis
    proof (cases "i = j")
      case True
      show ?thesis using rest by (simp add: kv Some flip: True)
    next
      case False
      with rest show ?thesis by (cases "map_of ts j") (simp_all add: kv Some)
    qed
  next
    case None
    let ?t = "\<lparr>tm_id = i, tm_title = topic_title_from_id env i, tm_created = de_clock env tick,
       tm_updated = de_clock env (tick + 1), tm_sources = [], tm_summary = s, tm_tags = []\<rparr>"
    obtain err mm1 d1 where c: "create_topic (de_memory env) (de_clock env (tick + 2)) ?t (mm, d) = (err, mm1, d1)"
      by (metis prod_cases3)
    with Cons.prems(1) None have err: "err = None" by (cases err) (auto simp: kv)
    note eff = create_topic_effect [OF c [unfolded err]]
    have "save_topics env (tick + 3) ts (res\<lparr>dr_created := dr_created res @ [i]\<rparr>) (mm1, d1) = (Inr res', (mm', d'))"
      using Cons.prems(1) c by (simp add: kv None err)
    note rest = Cons.IH [OF this new(2)] same [of mm1] eff none
    show ?thesis
    proof (cases "i = j")
      case True
      show ?thesis using rest by (simp add: kv None Let_def flip: True)
    next
      case False
      with rest show ?thesis by (cases "map_of ts j") (simp_all add: kv None)
    qed
  qed
qed simp

text \<open>Whether the topics can be saved does not depend on the result so far.\<close>

lemma save_topics_ok:
  "is_ok (fst (save_topics env tick ts res st)) = is_ok (fst (save_topics env tick ts res' st))"
proof (induction ts arbitrary: tick res res' st)
  case (Cons kv ts)
  obtain i s where kv: "kv = (i, s)" by (cases kv)
  show ?case
    unfolding kv save_topics.simps
    using Cons.IH [of "tick + 3" "res\<lparr>dr_updated := dr_updated res @ [i]\<rparr>" _ "res'\<lparr>dr_updated := dr_updated res' @ [i]\<rparr>"]
      Cons.IH [of "tick + 3" "res\<lparr>dr_created := dr_created res @ [i]\<rparr>" _ "res'\<lparr>dr_created := dr_created res' @ [i]\<rparr>"]
    by (simp split: option.split prod.split)
qed simp

lemma execute_dream_ok:
  assumes "bk_list ops c session (dw_backend w) = Inr events"
  shows "is_ok (fst (execute_dream ops env c session (da, w))) =
       is_ok (fst (save_topics env 2 (new_topics env events) res (dw_memory w, dw_disk w)))"
proof -
  let ?res1 = "(reflective_pass env events (list_topics (dw_memory w)))\<lparr>dr_time := de_clock env 0,
        dr_duration := time_sub (de_clock env 1) (de_clock env 0), dr_sessions := da_sessions da,
        dr_events := int (length events)\<rparr>"
  have "dr_topics ?res1 = new_topics env events" by (simp add: reflective_pass_def Let_def)
  then have "is_ok (fst (execute_dream ops env c session (da, w))) =
       is_ok (fst (save_topics env 2 (new_topics env events) ?res1 (dw_memory w, dw_disk w)))"
    unfolding execute_dream_def Let_def prod.case assms sum.case
    by (auto split: sum.split prod.split)
  also have "\<dots> = is_ok (fst (save_topics env 2 (new_topics env events) res (dw_memory w, dw_disk w)))"
    by (rule save_topics_ok)
  finally show ?thesis .
qed

text \<open>
  C22. A dream pass accounts for what it changes. A pass that fails leaves the log and the daemon as they
  are. A pass that succeeds has read the session's log; afterwards every topic with at least two events
  in it, by the prefix of their kinds or the first word of their tasks, is in memory with the summary
  of exactly those events, with its old title and sources if it was there before; every other topic is
  unchanged; the result names each such topic once, as created or as updated; the daemon counts one
  more dream; and the log gains at most the one event that reports the result.
\<close>

theorem dream_pass_accounts:
  assumes "\<And>xs. mset (de_visit env xs) = mset xs"
  shows "case execute_dream ops env c session (da, w) of
     (Inl e, da', w') \<Rightarrow> da' = da \<and> dw_backend w' = dw_backend w
   | (Inr res, da', w') \<Rightarrow>
     (case bk_list ops c session (dw_backend w) of
        Inl e \<Rightarrow> False
      | Inr events \<Rightarrow>
        dr_events res = int (length events) \<and> da_dreams da' = da_dreams da + 1
        \<and> dw_backend w' = snd (bk_append ops c (dream_event session res) (dw_backend w))
        \<and> mset (dr_created res) + mset (dr_updated res) = mset (map fst (identify_topics env events))
        \<and> list_all (\<lambda>i. get_topic i (dw_memory w) = None) (dr_created res)
        \<and> list_all (\<lambda>i. get_topic i (dw_memory w) \<noteq> None) (dr_updated res)
        \<and> (if 2 \<le> length (topic_events env i events)
           then \<exists>t. get_topic i (dw_memory w') = Some t
             \<and> tm_summary t = synthesize_summary env (topic_events env i events)
             \<and> (case get_topic i (dw_memory w) of
                  None \<Rightarrow> tm_title t = topic_title_from_id env i \<and> tm_sources t = []
                | Some t0 \<Rightarrow> tm_title t = tm_title t0 \<and> tm_sources t = tm_sources t0)
           else get_topic i (dw_memory w') = get_topic i (dw_memory w)))"
proof (cases "bk_list ops c session (dw_backend w)")
  case (Inl e)
  then show ?thesis by (simp add: execute_dream_def Let_def)
next
  case (Inr events)
  define res1 where "res1 = (reflective_pass env events (list_topics (dw_memory w)))\<lparr>dr_time := de_clock env 0,
      dr_duration := time_sub (de_clock env 1) (de_clock env 0), dr_sessions := da_sessions da,
      dr_events := int (length events)\<rparr>"
  have res1: "dr_created res1 = []" "dr_updated res1 = []" "dr_topics res1 = new_topics env events"
    "dr_events res1 = int (length events)"
    by (simp_all add: res1_def reflective_pass_def Let_def)
  note topics = new_topics_exact [of env events, OF assms]
  obtain r mm d where save: "save_topics env 2 (dr_topics res1) res1 (dw_memory w, dw_disk w) = (r, (mm, d))"
    by (metis prod_cases3)
  have exe: "execute_dream ops env c session (da, w) =
     (case r of Inl e \<Rightarrow> (Inl e, da, w\<lparr>dw_memory := mm, dw_disk := d\<rparr>)
      | Inr res \<Rightarrow> (Inr res,
           da\<lparr>da_last_dream := de_clock env (2 + 3 * length (dr_topics res1)), da_dreams := da_dreams da + 1\<rparr>,
           w\<lparr>dw_memory := mm, dw_disk := d,
             dw_backend := snd (bk_append ops c (dream_event session res) (dw_backend w))\<rparr>))"
    unfolding execute_dream_def Let_def prod.case Inr sum.case res1_def [symmetric] save ..
  show ?thesis
  proof (cases r)
    case (Inl e)
    then show ?thesis by (simp add: exe)
  next
    case r: (Inr res)
    let ?mm = "dw_memory w"
    from save_topics_effect [OF save [unfolded r res1(3)] topics(3), of i]
    have res: "res = res1\<lparr>dr_created := filter (\<lambda>i. get_topic i ?mm = None) (map fst (new_topics env events)),
                dr_updated := filter (\<lambda>i. get_topic i ?mm \<noteq> None) (map fst (new_topics env events))\<rparr>"
      and eff: "case map_of (new_topics env events) i of
          None \<Rightarrow> get_topic i mm = get_topic i ?mm
        | Some s \<Rightarrow> \<exists>t. get_topic i mm = Some t \<and> tm_summary t = s
            \<and> tm_title t = (case get_topic i ?mm of None \<Rightarrow> topic_title_from_id env i | Some t0 \<Rightarrow> tm_title t0)
            \<and> tm_sources t = (case get_topic i ?mm of None \<Rightarrow> [] | Some t0 \<Rightarrow> tm_sources t0)"
      by (simp_all add: res1)
    have "mset (filter P xs) + mset (filter (\<lambda>x. \<not> P x) xs) = mset xs" for P and xs :: "string list"
      by simp
    from this [of "\<lambda>i. get_topic i ?mm = None" "map fst (new_topics env events)"]
    have parts: "mset (dr_created res) + mset (dr_updated res) = mset (map fst (identify_topics env events))"
      unfolding topics(2) [symmetric] by (simp add: res)
    have "list_all (\<lambda>i. get_topic i ?mm = None) (dr_created res)"
      "list_all (\<lambda>i. get_topic i ?mm \<noteq> None) (dr_updated res)"
      by (simp_all add: res list_all_iff)
    with parts eff Inr show ?thesis
      unfolding topics(1) by (auto simp: exe r res res1(4) split: option.splits if_splits)
  qed
qed

text \<open>
  The binary cannot do its work. It reads its log from a new in-memory backend, and without \<open>--force\<close>
  it counts its own start as activity. So as long as its two readings of the clock lie less than an
  hour apart, whatever the flags, it ends with success and leaves every topic and the disk as it
  loaded them; without \<open>--force\<close> it only reports that the thresholds are not met.
\<close>

theorem dream_binary_idle:
  assumes "0 \<le> now - active" and "now - active < 3600 * 10 ^ 9" and "\<And>xs. mset (de_visit env xs) = mset xs"
  shows "case dream_run env duration usage active now fl d of
     ((code, out, err), None) \<Rightarrow> df_version fl \<or> df_help fl
   | ((code, out, err), Some w) \<Rightarrow> code = 0 \<and> err = []
       \<and> (dw_memory w, dw_disk w) = new_manager (de_memory env) \<lparr>mg_topic_dir = df_topic_dir fl,
            mg_max_entries = 1024, mg_embed_enabled = False, mg_embed = None\<rparr> d
       \<and> (if df_force fl then True else dw_backend w = new_mem_backend)"
proof -
  let ?cfg = "\<lparr>mg_topic_dir = df_topic_dir fl, mg_max_entries = 1024, mg_embed_enabled = False, mg_embed = None\<rparr>"
  obtain mm d1 where mgr: "new_manager (de_memory env) ?cfg d = (mm, d1)" by (cases "new_manager (de_memory env) ?cfg d")
  let ?dcfg = "\<lparr>dg_enabled = True, dg_inactivity_hours = df_inactivity_hrs fl,
              dg_min_sessions = df_min_sessions fl, dg_prompt = [], dg_topic_dir = df_topic_dir fl\<rparr>"
  let ?w = "\<lparr>dw_memory = mm, dw_disk = d1, dw_backend = new_mem_backend\<rparr>"
  have "1 \<le> dg_inactivity_hours (da_cfg (new_daemon ?dcfg))"
    by (simp add: new_daemon_def Let_def)
  moreover have "hours_between now active < 1"
    using assms by (simp add: hours_between_def time_sub_def)
  ultimately have idle: "\<not> should_dream now (record_activity active (new_daemon ?dcfg))"
    by (auto simp: should_dream_def record_activity_def)
  have "bk_list mem_ops None s new_mem_backend = Inr []" for s
    by (simp add: mem_ops_def mb_list_session_def new_mem_backend_def stored_empty)
  then have exe: "\<exists>res da' w'. execute_dream mem_ops env None s (da, ?w) = (Inr res, da', w')
      \<and> dw_memory w' = mm \<and> dw_disk w' = d1" for s da
  proof -
    have "new_topics env [] = []"
      using assms(3) [of "[]"] by (simp add: new_topics_def identify_topics_def List.map_filter_def)
    then have "dr_topics (reflective_pass env [] ts) = []" for ts
      by (simp add: reflective_pass_def Let_def)
    with \<open>\<And>s. bk_list mem_ops None s new_mem_backend = Inr []\<close> show ?thesis
      by (simp add: execute_dream_def Let_def)
  qed
  have report: "\<exists>out' w'. dream_report env duration out s (da, ?w) = ((0, out', []), w')
      \<and> dw_memory w' = mm \<and> dw_disk w' = d1" for out s da
    using exe [of s da] by (auto simp: dream_report_def)
  show ?thesis
    using report [of "''Executing forced dream pass for session '' @ df_session fl @ ''...'' @ newline"
        "df_session fl" "new_daemon ?dcfg"] idle
    by (auto simp: dream_run_def mgr Let_def)
qed

subsection \<open>Instances\<close>

definition sample_dream_env :: dream_env where
  "sample_dream_env = \<lparr>de_memory = sample_memory_env, de_title = (\<lambda>r. r), de_rfc3339 = int_str, de_visit = rev,
     de_clock = (\<lambda>n. 100 + int n)\<rparr>"

definition kind_event :: "string \<Rightarrow> string \<Rightarrow> event" where
  "kind_event i k = \<lparr>ev_id = i, ev_session = ''s'', ev_ts = 1, ev_kind = k, ev_branch = ''main'', ev_parent = [],
     ev_refs = [], ev_meta = [(''task_summary'', VStr ''Fix it'')], ev_blob = []\<rparr>"

definition sample_world :: "mem_backend dream_world" where
  "sample_world = \<lparr>dw_memory = fst (new_manager sample_memory_env \<lparr>mg_topic_dir = [], mg_max_entries = 0,
       mg_embed_enabled = False, mg_embed = None\<rparr> empty_disk), dw_disk = empty_disk,
     dw_backend = snd (mb_append_event None (kind_event ''2'' ''turn.agent'')
                    (snd (mb_append_event None (kind_event ''1'' ''turn.user'') new_mem_backend)))\<rparr>"

definition sample_daemon :: daemon where
  "sample_daemon = new_daemon \<lparr>dg_enabled = True, dg_inactivity_hours = 0, dg_min_sessions = 0, dg_prompt = [],
     dg_topic_dir = []\<rparr>"

theorem dream_pass_accounts_witness:
  "case execute_dream mem_ops sample_dream_env None ''s'' (sample_daemon, sample_world) of
     (Inl e, da', w') \<Rightarrow> False
   | (Inr res, da', w') \<Rightarrow> da_dreams da' = 1 \<and> dr_events res = 2
       \<and> mset (dr_created res) + mset (dr_updated res) = {#''turn'', ''task_fix''#}"
proof -
  let ?r = "execute_dream mem_ops sample_dream_env None ''s'' (sample_daemon, sample_world)"
  have perm: "\<And>xs. mset (de_visit sample_dream_env xs) = mset xs" by (simp add: sample_dream_env_def)
  have events: "bk_list mem_ops None ''s'' (dw_backend sample_world) =
      Inr [kind_event ''1'' ''turn.user'', kind_event ''2'' ''turn.agent'']"
    by code_simp
  have topics: "map fst (identify_topics sample_dream_env [kind_event ''1'' ''turn.user'', kind_event ''2'' ''turn.agent''])
      = [''turn'', ''task_fix'']"
    by code_simp
  have "is_ok (fst (save_topics sample_dream_env 2
      (new_topics sample_dream_env [kind_event ''1'' ''turn.user'', kind_event ''2'' ''turn.agent''])
      (reflective_pass sample_dream_env [] []) (dw_memory sample_world, dw_disk sample_world)))"
    by code_simp
  then have ok: "is_ok (fst ?r)"
    using execute_dream_ok [OF events, of sample_dream_env sample_daemon] by simp
  have zero: "da_dreams sample_daemon = 0" by (simp add: sample_daemon_def new_daemon_def Let_def)
  obtain r da' w' where eq: "?r = (r, da', w')" by (metis prod_cases3)
  with ok obtain res where r: "r = Inr res" by (cases r) auto
  from dream_pass_accounts [OF perm, where ops = mem_ops and c = None and session = "''s''"
      and da = sample_daemon and w = sample_world and i = "''turn''"]
  have "dr_events res = int (length [kind_event ''1'' ''turn.user'', kind_event ''2'' ''turn.agent''])"
    "da_dreams da' = da_dreams sample_daemon + 1"
    "mset (dr_created res) + mset (dr_updated res) = mset [''turn'', ''task_fix'']"
    unfolding eq r prod.case sum.case events topics by blast+
  then show ?thesis unfolding eq r prod.case sum.case zero by simp
qed

theorem dream_binary_idle_witness:
  "case dream_run sample_dream_env int_str ''usage'' 5 7 (default_flags (\<lambda>v. [])) empty_disk of
     ((code, out, err), None) \<Rightarrow> False
   | ((code, out, err), Some w) \<Rightarrow> code = 0 \<and> dw_backend w = new_mem_backend"
proof -
  let ?r = "dream_run sample_dream_env int_str ''usage'' 5 7 (default_flags (\<lambda>v. [])) empty_disk"
  have "\<And>xs. mset (de_visit sample_dream_env xs) = mset xs" by (simp add: sample_dream_env_def)
  from dream_binary_idle [of 7 5, OF _ _ this, where duration = int_str and usage = "''usage''" and fl = "default_flags (\<lambda>v. [])" and d = empty_disk]
  show ?thesis by (auto simp: default_flags_def split: prod.splits option.splits)
qed

end
