(* ===== verification/Tooling.thy ===== *)
theory Tooling
  imports GoStrings "HOL-Library.AList"
begin

text \<open>
  Package \<open>internal/tooling\<close>: the registry of typed tools with its four built-in tools, the index of a
  directory tree, and the gate that admits or refuses the calls a model proposes.

  A handler is a function of its context and arguments that may also change the world \<open>'w\<close>; the two
  results of the source's handler are a pair. The directory tree the index is built from is a value:
  what \<open>filepath.WalkDir\<close> finds when it lists each directory.
\<close>

text \<open>The keys of a Go map, in the order of a \<open>range\<close> over it.\<close>

definition go_keys :: "('k \<times> 'v) list \<Rightarrow> 'k list" where
  "go_keys m = remdups (map fst m)"

lemma set_go_keys [simp]: "set (go_keys m) = fst ` set m"
  by (simp add: go_keys_def)

subsection \<open>The registry\<close>

definition ErrToolNotFound :: goerr where
  "ErrToolNotFound = Sentinel ''tooling.ErrToolNotFound'' ''tool not found''"
definition ErrToolNotReady :: goerr where
  "ErrToolNotReady = Sentinel ''tooling.ErrToolNotReady'' ''tool not ready''"
definition ErrWriteInParallel :: goerr where
  "ErrWriteInParallel = Sentinel ''tooling.ErrWriteInParallel'' ''write tools cannot run in parallel''"

datatype tool_type = ToolTypeRead | ToolTypeWrite

record tool_schema =
  ts_input :: gomap
  ts_output :: gomap

type_synonym 'w tool_handler = "ctx \<Rightarrow> gomap \<Rightarrow> 'w \<Rightarrow> (gomap \<times> goerr option) \<times> 'w"

record 'w typed_tool =
  tl_name :: string
  tl_description :: string
  tl_type :: tool_type
  tl_schema :: tool_schema
  tl_handler :: "'w tool_handler option"

record tool_result =
  tt_name :: string
  tt_result :: gomap
  tt_error :: "goerr option"

definition empty_tool_result :: tool_result where
  "empty_tool_result = \<lparr>tt_name = [], tt_result = [], tt_error = None\<rparr>"

text \<open>The map of the registry, keyed by the trimmed name; a tool keeps the name it came with.\<close>

type_synonym 'w tool_registry = "(string \<times> 'w typed_tool) list"

definition new_registry :: "'w tool_registry" where
  "new_registry = []"

definition reg_register :: "'w typed_tool \<Rightarrow> 'w tool_registry \<Rightarrow> goerr option \<times> 'w tool_registry" where
  "reg_register t r =
     (let name = trim_space (tl_name t) in
      if name = [] then (Some (Adhoc ''tool name is required''), r)
      else if tl_handler t = None
        then (Some (Adhoc (''tool '' @ go_quote name @ '' has no handler'')), r)
      else (None, AList.update name t r))"

definition reg_get :: "'w tool_registry \<Rightarrow> string \<Rightarrow> 'w typed_tool option" where
  "reg_get r name = map_of r name"

definition reg_list :: "'w tool_registry \<Rightarrow> 'w typed_tool list" where
  "reg_list r = go_sort (\<lambda>a b. tl_name a < tl_name b) (map snd r)"

definition reg_list_names :: "'w tool_registry \<Rightarrow> string list" where
  "reg_list_names r = sort_strings (map fst r)"

definition reg_execute ::
  "'w tool_registry \<Rightarrow> ctx \<Rightarrow> string \<Rightarrow> gomap \<Rightarrow> 'w \<Rightarrow> (tool_result \<times> goerr option) \<times> 'w" where
  "reg_execute r c name args w =
     (case reg_get r name of
        None \<Rightarrow> ((empty_tool_result, Some (wrap_err ErrToolNotFound name)), w)
      | Some t \<Rightarrow>
        (case tl_handler t of
           None \<Rightarrow> ((empty_tool_result, Some (wrap_err ErrToolNotReady name)), w)
         | Some h \<Rightarrow>
           let ((result, err), w1) = h c args w in
           ((\<lparr>tt_name = name, tt_result = result, tt_error = err\<rparr>, err), w1)))"

record tooling_request =
  tx_name :: string
  tx_args :: gomap

text \<open>
  \<open>ToolRequest.Execute\<close>. Both loops of \<open>ExecuteMany\<close> call this method: in the goroutine of a read
  the parameter \<open>r\<close> hides the registry.
\<close>

definition request_execute :: "tooling_request \<Rightarrow> ctx \<Rightarrow> string \<Rightarrow> gomap \<Rightarrow> 'w \<Rightarrow> (gomap \<times> goerr option) \<times> 'w" where
  "request_execute q c name args w = (([], None), w)"

definition read_requests :: "'w tool_registry \<Rightarrow> tooling_request list \<Rightarrow> tooling_request list" where
  "read_requests r qs =
     filter (\<lambda>q. case reg_get r (tx_name q) of None \<Rightarrow> False | Some t \<Rightarrow> tl_type t \<noteq> ToolTypeWrite) qs"

definition write_requests :: "'w tool_registry \<Rightarrow> tooling_request list \<Rightarrow> tooling_request list" where
  "write_requests r qs =
     filter (\<lambda>q. case reg_get r (tx_name q) of None \<Rightarrow> False | Some t \<Rightarrow> tl_type t = ToolTypeWrite) qs"

text \<open>One job: the goroutine of a read or an iteration of the loop over the writes.\<close>

definition run_job ::
  "ctx \<Rightarrow> tooling_request list \<Rightarrow> nat \<Rightarrow> tool_result list \<times> 'w \<Rightarrow> tool_result list \<times> 'w" where
  "run_job c jobs i st =
     (let q = jobs ! i; (results, w) = st; ((res, err), w1) = request_execute q c (tx_name q) (tx_args q) w
      in (results[i := \<lparr>tt_name = tx_name q, tt_result = res, tt_error = err\<rparr>], w1))"

definition tooling_jobs :: "'w tool_registry \<Rightarrow> tooling_request list \<Rightarrow> tooling_request list" where
  "tooling_jobs r qs = read_requests r qs @ write_requests r qs"

text \<open>
  \<open>ExecuteMany\<close>. The jobs are the reads followed by the writes, each writing the result of its own
  index; \<open>sched\<close> is the order in which they happen to run.
\<close>

definition execute_many ::
  "nat list \<Rightarrow> 'w tool_registry \<Rightarrow> ctx \<Rightarrow> tooling_request list \<Rightarrow> 'w \<Rightarrow> tool_result list \<times> 'w" where
  "execute_many sched r c qs w =
     fold (run_job c (tooling_jobs r qs)) sched
       (replicate (length qs) empty_tool_result, w)"

definition sort_tools :: "string list \<Rightarrow> string list" where
  "sort_tools names = sort_strings names"

subsection \<open>The built-in tools\<close>

definition grep_handler :: "'w tool_handler" where
  "grep_handler c args w =
     (let pattern = meta_string args ''pattern''; body = meta_string args ''text'' in
      if pattern = [] \<or> body = [] then (([], Some (Adhoc ''pattern and text are required'')), w)
      else let matches = (case str_index body pattern of
                            None \<Rightarrow> []
                          | Some i \<Rightarrow> [''match at position '' @ int_str (int i)])
           in (([(''matches'', VStrs matches), (''count'', VInt (int (length matches)))], None), w))"

definition glob_handler :: "'w tool_handler" where
  "glob_handler c args w = (([(''files'', VStrs [])], None), w)"

definition read_handler :: "'w tool_handler" where
  "read_handler c args w =
     (let ref = meta_string args ''ref'' in
      if ref = [] then (([], Some (Adhoc ''ref is required'')), w)
      else (([(''content'', VStr []), (''ref'', VStr ref)], None), w))"

definition write_handler :: "'w tool_handler" where
  "write_handler c args w =
     (let ref = meta_string args ''ref'' in
      if ref = [] then (([], Some (Adhoc ''ref is required'')), w)
      else (([(''ok'', VBool True), (''ref'', VStr ref)], None), w))"

definition grep_tool :: "'w typed_tool" where
  "grep_tool = \<lparr>tl_name = ''grep'', tl_description = ''Search for a pattern in text'',
     tl_type = ToolTypeRead,
     tl_schema = \<lparr>ts_input = [(''pattern'', VStr ''string''), (''text'', VStr ''string'')],
                  ts_output = [(''matches'', VStr ''array''), (''count'', VStr ''int'')]\<rparr>,
     tl_handler = Some grep_handler\<rparr>"

definition glob_tool :: "'w typed_tool" where
  "glob_tool = \<lparr>tl_name = ''glob'', tl_description = ''List files matching a pattern'',
     tl_type = ToolTypeRead,
     tl_schema = \<lparr>ts_input = [(''pattern'', VStr ''string'')], ts_output = [(''files'', VStr ''array'')]\<rparr>,
     tl_handler = Some glob_handler\<rparr>"

definition read_tool :: "'w typed_tool" where
  "read_tool = \<lparr>tl_name = ''read'', tl_description = ''Read content by reference'',
     tl_type = ToolTypeRead,
     tl_schema = \<lparr>ts_input = [(''ref'', VStr ''string'')], ts_output = [(''content'', VStr ''string'')]\<rparr>,
     tl_handler = Some read_handler\<rparr>"

definition write_tool :: "'w typed_tool" where
  "write_tool = \<lparr>tl_name = ''write'', tl_description = ''Write content by reference'',
     tl_type = ToolTypeWrite,
     tl_schema = \<lparr>ts_input = [(''ref'', VStr ''string''), (''content'', VStr ''string'')],
                  ts_output = [(''ok'', VStr ''bool'')]\<rparr>,
     tl_handler = Some write_handler\<rparr>"

definition register_builtin_tools :: "'w tool_registry \<Rightarrow> 'w tool_registry" where
  "register_builtin_tools r =
     snd (reg_register write_tool (snd (reg_register read_tool
       (snd (reg_register glob_tool (snd (reg_register grep_tool r)))))))"

subsection \<open>The path index\<close>

text \<open>The interface of the gate to a tree, and the static index that provides it.\<close>

record path_index =
  pi_has_path :: "string \<Rightarrow> bool"
  pi_has_dir :: "string \<Rightarrow> bool"

record fs_index =
  fx_files :: "string list"
  fx_dirs :: "string list"

definition normalize_path :: "string \<Rightarrow> string" where
  "normalize_path rel =
     (let clean = path_clean (trim_space rel) in
      if clean = dot \<or> clean = ''/'' then []
      else if prefix ''./'' clean then drop 2 clean else clean)"

definition fs_has_path :: "fs_index \<Rightarrow> string \<Rightarrow> bool" where
  "fs_has_path ix rel \<longleftrightarrow> normalize_path rel \<in> set (fx_files ix)"

definition fs_has_dir :: "fs_index \<Rightarrow> string \<Rightarrow> bool" where
  "fs_has_dir ix rel \<longleftrightarrow> normalize_path rel \<in> set (fx_dirs ix)"

definition fs_len :: "fs_index \<Rightarrow> int" where
  "fs_len ix = int (length (fx_files ix))"

definition fs_view :: "fs_index \<Rightarrow> path_index" where
  "fs_view ix = \<lparr>pi_has_path = fs_has_path ix, pi_has_dir = fs_has_dir ix\<rparr>"

text \<open>
  A directory entry as the walk finds it: \<open>FileNode\<close> is anything that is not a directory, a
  \<open>DirNode\<close> carries the error of listing it, if any, and its entries.
\<close>

datatype fs_node = FileNode string | DirNode string "goerr option" "fs_node list"

definition defaultSkip :: "string list" where
  "defaultSkip = [''.git'', ''node_modules'', ''__pycache__'', ''.venv'', ''checkpoints'', ''needle-data'']"

definition join_rel :: "string \<Rightarrow> string \<Rightarrow> string" where
  "join_rel pre name = (if pre = [] then name else pre @ ''/'' @ name)"

fun index_node :: "string list \<Rightarrow> string \<Rightarrow> fs_node \<Rightarrow> fs_index \<Rightarrow> fs_index result"
and index_nodes :: "string list \<Rightarrow> string \<Rightarrow> fs_node list \<Rightarrow> fs_index \<Rightarrow> fs_index result" where
  "index_node skip pre (FileNode name) ix =
     (if name \<in> set skip then Inr ix
      else Inr (ix\<lparr>fx_files := List.insert (join_rel pre name) (fx_files ix)\<rparr>))"
| "index_node skip pre (DirNode name err entries) ix =
     (if name \<in> set skip then Inr ix
      else let ix1 = ix\<lparr>fx_dirs := List.insert (join_rel pre name) (fx_dirs ix)\<rparr> in
      case err of
        Some e \<Rightarrow> Inl e
      | None \<Rightarrow> index_nodes skip (join_rel pre name) entries ix1)"
| "index_nodes skip pre [] ix = Inr ix"
| "index_nodes skip pre (n # ns) ix =
     (case index_node skip pre n ix of Inl e \<Rightarrow> Inl e | Inr ix1 \<Rightarrow> index_nodes skip pre ns ix1)"

text \<open>\<open>IndexFS\<close>: the root is an error if it cannot be stat'ed; the root itself is never skipped.\<close>

definition index_fs :: "fs_node result \<Rightarrow> string list \<Rightarrow> fs_index result" where
  "index_fs tree skip0 =
     (let skip = (if skip0 = [] then defaultSkip else skip0); ix = \<lparr>fx_files = [], fx_dirs = [[]]\<rparr> in
      case tree of
        Inl e \<Rightarrow> Inl e
      | Inr (FileNode name) \<Rightarrow> Inr ix
      | Inr (DirNode name err entries) \<Rightarrow>
        (case err of Some e \<Rightarrow> Inl e | None \<Rightarrow> index_nodes skip [] entries ix))"

subsection \<open>The gate\<close>

datatype verdict = Accept | Abstain

record gate_call =
  gc_name :: string
  gc_args :: gomap

record gate_check =
  ck_rule :: string
  ck_ok :: bool
  ck_detail :: string

record decision =
  dc_verdict :: verdict
  dc_reason :: string
  dc_call :: gate_call
  dc_checks :: "gate_check list"

definition pathArg :: "string \<Rightarrow> string option" where
  "pathArg = [''read'' \<mapsto> ''ref'', ''write'' \<mapsto> ''ref'', ''glob'' \<mapsto> ''pattern'']"

record gate =
  gt_tools :: "(string \<times> string list) list"
  gt_index :: "path_index option"

definition new_gate :: "'w tool_registry \<Rightarrow> path_index option \<Rightarrow> gate" where
  "new_gate r ix =
     \<lparr>gt_tools = fold (\<lambda>t m. AList.update (tl_name t) (sort_strings (go_keys (ts_input (tl_schema t)))) m)
                  (reg_list r) [],
      gt_index = ix\<rparr>"

definition gate_tools :: "gate \<Rightarrow> string list" where
  "gate_tools g = sort_strings (go_keys (gt_tools g))"

definition key_mismatch :: "string list \<Rightarrow> gomap \<Rightarrow> string" where
  "key_mismatch declared args =
     (case find (\<lambda>key. key \<notin> set declared) (go_keys args) of
        Some key \<Rightarrow> ''undeclared argument: '' @ key
      | None \<Rightarrow>
        (case find (\<lambda>key. meta_string args key = []) declared of
           Some key \<Rightarrow> ''missing argument: '' @ key
         | None \<Rightarrow> []))"

definition parent_dir :: "string \<Rightarrow> string" where
  "parent_dir value = (let dir = path_dir value in if dir = dot then [] else dir)"

definition resolve :: "gate \<Rightarrow> gate_call \<Rightarrow> string" where
  "resolve g call =
     (case (pathArg (gc_name call), gt_index g) of
        (Some key, Some ix) \<Rightarrow>
          let value = meta_string (gc_args call) key in
          if gc_name call = ''read'' then
            (if \<not> pi_has_path ix value then ''no such path: '' @ value else [])
          else if gc_name call = ''write'' then
            (if \<not> pi_has_dir ix (parent_dir value) then ''no such directory: '' @ value else [])
          else if gc_name call = ''glob'' then
            (if \<not> pi_has_dir ix (parent_dir value) \<and> \<not> pi_has_path ix value
             then ''no such directory: '' @ value else [])
          else []
      | _ \<Rightarrow> [])"

definition passed :: "string \<Rightarrow> gate_check" where
  "passed rule = \<lparr>ck_rule = rule, ck_ok = True, ck_detail = []\<rparr>"

definition failed_check :: "string \<Rightarrow> string \<Rightarrow> gate_check" where
  "failed_check rule detail = \<lparr>ck_rule = rule, ck_ok = False, ck_detail = detail\<rparr>"

definition check_call :: "gate \<Rightarrow> string \<Rightarrow> gate_call \<Rightarrow> decision" where
  "check_call g query call =
     (let abstain = (\<lambda>reason checks.
            \<lparr>dc_verdict = Abstain, dc_reason = reason, dc_call = call, dc_checks = checks\<rparr>) in
      case map_of (gt_tools g) (gc_name call) of
        None \<Rightarrow> abstain (''unknown tool: '' @ gc_name call) [failed_check ''tool_exists'' (gc_name call)]
      | Some declared \<Rightarrow>
        let c1 = [passed ''tool_exists'']; detail = key_mismatch declared (gc_args call) in
        if detail \<noteq> [] then abstain detail (c1 @ [failed_check ''schema'' detail])
        else let c2 = c1 @ [passed ''schema''] in
        case find (\<lambda>key. \<not> str_contains query (meta_string (gc_args call) key)) declared of
          Some key \<Rightarrow>
            abstain (''value '' @ go_quote (meta_string (gc_args call) key) @ '' is not in the request'')
              (c2 @ [failed_check ''grounding'' key])
        | None \<Rightarrow>
          let c3 = c2 @ [passed ''grounding'']; unresolved = resolve g call in
          if unresolved \<noteq> [] then abstain unresolved (c3 @ [failed_check ''resolution'' unresolved])
          else \<lparr>dc_verdict = Accept, dc_reason = ''ok'', dc_call = call,
                dc_checks = c3 @ [passed ''resolution'']\<rparr>)"

function quoted_spans :: "string \<Rightarrow> string list" where
  "quoted_spans query =
     (case str_index query [CHR 0x22] of
        None \<Rightarrow> []
      | Some start \<Rightarrow>
        let rest = drop (Suc start) query in
        (case str_index rest [CHR 0x22] of
           None \<Rightarrow> []
         | Some stop \<Rightarrow> take stop rest # quoted_spans (drop (Suc stop) rest)))"
  by pat_completeness auto
termination
  by (relation "measure length") (auto dest: str_index_Some)

declare quoted_spans.simps [simp del]

definition token_cutset :: string where
  "token_cutset = [CHR 0x22, CHR 0x27, CHR 0x60] @ '',;:()[]{}.?!''"

definition token_fits :: "path_index \<Rightarrow> string \<Rightarrow> bool" where
  "token_fits ix token0 =
     (let token = trim_chars token_cutset token0 in
      if token = [] then False
      else pi_has_path ix token \<or> pi_has_dir ix token
           \<or> (let dir = path_dir token in dir \<noteq> dot \<and> pi_has_dir ix dir))"

definition gate_fits :: "gate \<Rightarrow> string \<Rightarrow> bool" where
  "gate_fits g query =
     (if list_ex (\<lambda>span. 2 \<le> length (trim_space span)) (quoted_spans query) then True
      else case gt_index g of
        None \<Rightarrow> True
      | Some ix \<Rightarrow> list_ex (token_fits ix) (str_fields query))"

definition unsupported :: "gate_call \<Rightarrow> decision" where
  "unsupported call =
     \<lparr>dc_verdict = Abstain, dc_reason = ''the request names nothing this tool set can act on'',
      dc_call = call, dc_checks = [failed_check ''request_supported'' []]\<rparr>"

definition check_all :: "gate \<Rightarrow> string \<Rightarrow> gate_call list \<Rightarrow> gate_call list \<times> decision list" where
  "check_all g query calls =
     (if \<not> gate_fits g query then
        ([], if calls = [] then [unsupported \<lparr>gc_name = [], gc_args = []\<rparr>] else map unsupported calls)
      else fold (\<lambda>call (kept, ds).
             let d = check_call g query call in
             (if dc_verdict d = Accept then kept @ [call] else kept, ds @ [d])) calls ([], []))"


subsection \<open>The registry keeps the last tool of each name\<close>

definition register_all :: "'w typed_tool list \<Rightarrow> 'w tool_registry \<Rightarrow> 'w tool_registry" where
  "register_all ts r = fold (\<lambda>t r. snd (reg_register t r)) ts r"

definition registrable :: "'w typed_tool \<Rightarrow> bool" where
  "registrable t \<longleftrightarrow> trim_space (tl_name t) \<noteq> [] \<and> tl_handler t \<noteq> None"

definition registry_ok :: "'w tool_registry \<Rightarrow> bool" where
  "registry_ok r \<longleftrightarrow> distinct (map fst r)
     \<and> list_all (\<lambda>(k, t). k = trim_space (tl_name t) \<and> registrable t) r"

lemma reg_register_snd:
  "snd (reg_register t r) = (if registrable t then AList.update (trim_space (tl_name t)) t r else r)"
  by (simp add: reg_register_def registrable_def Let_def)

lemma set_alist_update: "set (AList.update k v al) \<subseteq> insert (k, v) (set al)"
  by (induction al) auto

lemma registry_ok_register [go_inv]: "registry_ok r \<Longrightarrow> registry_ok (snd (reg_register t r))"
  using AList.distinct_update [of r "trim_space (tl_name t)" t]
    set_alist_update [of "trim_space (tl_name t)" t r]
  by (auto simp: registry_ok_def reg_register_snd list_all_iff)

lemma registry_ok_register_all [go_inv]: "registry_ok r \<Longrightarrow> registry_ok (register_all ts r)"
  by (induction ts arbitrary: r) (simp_all add: register_all_def registry_ok_register)

lemma registry_ok_new [go_inv]: "registry_ok new_registry"
  by (simp add: registry_ok_def new_registry_def)

lemma reg_get_register_all:
  "reg_get (register_all ts r) n =
     (case find (\<lambda>t. registrable t \<and> trim_space (tl_name t) = n) (rev ts) of
        None \<Rightarrow> reg_get r n | Some t \<Rightarrow> Some t)"
proof (induction ts arbitrary: r)
  case (Cons t ts)
  let ?P = "\<lambda>t. registrable t \<and> trim_space (tl_name t) = n"
  show ?case
  proof (cases "find ?P (rev ts)")
    case None
    with Cons [of "snd (reg_register t r)"] show ?thesis
      by (auto simp: register_all_def find_snoc reg_register_snd reg_get_def update_conv')
  next
    case (Some u)
    with Cons [of "snd (reg_register t r)"] show ?thesis
      by (simp add: register_all_def find_snoc)
  qed
qed (simp add: register_all_def)

text \<open>Since the key is the trimmed name, no two tools of a registry have one name.\<close>

lemma registry_names_distinct:
  assumes "registry_ok r"
  shows "distinct (map (tl_name \<circ> snd) r)"
proof -
  have "map fst r = map trim_space (map (tl_name \<circ> snd) r)"
    using assms by (auto simp: registry_ok_def list_all_iff)
  then show ?thesis
    using assms by (metis distinct_map registry_ok_def)
qed

lemma reg_list_eq: "reg_list r = sort_key tl_name (map snd r)"
  by (simp add: reg_list_def go_sort_key_eq)

lemma map_name_reg_list: "map tl_name (reg_list r) = sort (map (tl_name \<circ> snd) r)"
  by (simp add: reg_list_eq map_sort_key_sort)

lemma set_reg_list: "set (reg_list r) = snd ` set r"
  by (simp add: reg_list_eq)

lemma reg_list_sorted:
  "registry_ok r \<Longrightarrow> sorted_wrt (<) (map tl_name (reg_list r))"
  by (simp add: map_name_reg_list strict_sorted_iff registry_names_distinct)

lemma reg_list_perm:
  assumes "registry_ok r" "mset r = mset r'"
  shows "reg_list r = reg_list r'"
proof -
  have "inj_on tl_name (set (map snd r))"
    using registry_names_distinct [OF assms(1)] by (auto simp: distinct_map inj_on_def)
  then show ?thesis
    unfolding reg_list_eq using assms(2) by (intro sort_key_unique) (simp_all)
qed

lemma set_reg_list_get:
  assumes "registry_ok r"
  shows "t \<in> set (reg_list r) \<longleftrightarrow> reg_get r (trim_space (tl_name t)) = Some t"
proof -
  have "(k, t) \<in> set r \<Longrightarrow> k = trim_space (tl_name t)" for k
    using assms by (auto simp: registry_ok_def list_all_iff)
  then have "t \<in> snd ` set r \<longleftrightarrow> (trim_space (tl_name t), t) \<in> set r"
    by force
  also have "\<dots> \<longleftrightarrow> map_of r (trim_space (tl_name t)) = Some t"
    using assms by (simp add: registry_ok_def)
  finally show ?thesis by (simp add: set_reg_list reg_get_def)
qed

text \<open>
  Whatever is registered, in whatever order: a lookup finds the last acceptable tool of that trimmed
  name, the list is strictly sorted by the tools' names and holds exactly the tools that a lookup finds,
  and the sorted names are those that a lookup knows.
\<close>

theorem registry_keeps_last_tool:
  "let r = register_all ts new_registry
   in (\<forall>n. reg_get r n = find (\<lambda>t. registrable t \<and> trim_space (tl_name t) = n) (rev ts))
      \<and> sorted_wrt (<) (map tl_name (reg_list r))
      \<and> (\<forall>t. t \<in> set (reg_list r) \<longleftrightarrow> reg_get r (trim_space (tl_name t)) = Some t)
      \<and> sorted_wrt (<) (reg_list_names r)
      \<and> (\<forall>n. n \<in> set (reg_list_names r) \<longleftrightarrow> reg_get r n \<noteq> None)"
proof -
  define r where "r = register_all ts new_registry"
  have ok: "registry_ok r"
    by (simp add: r_def go_inv)
  have "reg_get r n = find (\<lambda>t. registrable t \<and> trim_space (tl_name t) = n) (rev ts)" for n
    using reg_get_register_all [of ts new_registry n]
    by (simp add: r_def reg_get_def [of "[]"] new_registry_def split: option.splits)
  moreover have "sorted_wrt (<) (reg_list_names r)"
    using ok by (simp add: reg_list_names_def sort_strings_eq strict_sorted_iff registry_ok_def)
  moreover have "n \<in> set (reg_list_names r) \<longleftrightarrow> reg_get r n \<noteq> None" for n
    by (auto simp: reg_list_names_def sort_strings_eq reg_get_def map_of_eq_None_iff)
  ultimately show ?thesis
    using reg_list_sorted [OF ok] set_reg_list_get [OF ok] by (simp add: Let_def flip: r_def)
qed

subsection \<open>ExecuteMany runs nothing\<close>

lemma run_jobs_results:
  assumes "distinct sched" "set sched \<subseteq> {..<length results}"
  shows "fold (run_job c jobs) sched (results, w) =
    (map (\<lambda>i. if i \<in> set sched then \<lparr>tt_name = tx_name (jobs ! i), tt_result = [], tt_error = None\<rparr>
              else results ! i) [0..<length results], w)"
  using assms
proof (induction sched arbitrary: results)
  case Nil
  then show ?case by (simp add: map_nth)
next
  case (Cons i sched)
  let ?rs = "results[i := \<lparr>tt_name = tx_name (jobs ! i), tt_result = [], tt_error = None\<rparr>]"
  have step: "run_job c jobs i (results, w) = (?rs, w)"
    by (simp add: run_job_def request_execute_def)
  have "fold (run_job c jobs) sched (?rs, w) =
      (map (\<lambda>k. if k \<in> set sched then \<lparr>tt_name = tx_name (jobs ! k), tt_result = [], tt_error = None\<rparr>
                else ?rs ! k) [0..<length ?rs], w)"
    by (rule Cons.IH) (use Cons.prems in auto)
  then show ?case
    using Cons.prems by (auto simp: step nth_list_update)
qed

lemma map_index_replicate:
  "length xs \<le> n \<Longrightarrow>
   map (\<lambda>i. if i < length xs then f (xs ! i) else replicate n e ! i) [0..<n] = map f xs @ replicate (n - length xs) e"
  by (rule nth_equalityI) (auto simp: nth_append)

lemma length_jobs: "length (tooling_jobs r qs) \<le> length qs"
  by (induction qs) (auto simp: tooling_jobs_def read_requests_def write_requests_def split: option.splits)

text \<open>
  In whatever order the jobs run, \<open>ExecuteMany\<close> answers the reads, then the writes, then the
  requests for unknown tools, and no handler is ever run: every result is empty without an error, and the
  world is as before.
\<close>

theorem execute_many_runs_no_tool:
  assumes "mset sched = mset [0..<length (tooling_jobs r qs)]"
  shows "execute_many sched r c qs w =
    (map (\<lambda>q. \<lparr>tt_name = tx_name q, tt_result = [], tt_error = None\<rparr>) (tooling_jobs r qs)
       @ replicate (length qs - length (tooling_jobs r qs)) empty_tool_result, w)"
proof -
  define jobs where "jobs = tooling_jobs r qs"
  have len: "length jobs \<le> length qs"
    by (simp add: jobs_def length_jobs)
  have sched: "distinct sched" "set sched = {..<length jobs}"
    using mset_eq_imp_distinct_iff [OF assms] mset_eq_setD [OF assms]
    by (simp_all only: jobs_def distinct_upt set_upt atLeast0LessThan simp_thms)
  have "fold (run_job c jobs) sched (replicate (length qs) empty_tool_result, w) =
    (map (\<lambda>i. if i < length jobs then \<lparr>tt_name = tx_name (jobs ! i), tt_result = [], tt_error = None\<rparr>
              else replicate (length qs) empty_tool_result ! i) [0..<length qs], w)"
    by (subst run_jobs_results [OF sched(1)]) (use len in \<open>auto simp: sched(2)\<close>)
  then show ?thesis
    using map_index_replicate [OF len, of "\<lambda>q. \<lparr>tt_name = tx_name q, tt_result = [], tt_error = None\<rparr>"]
    by (simp add: execute_many_def flip: jobs_def)
qed

definition demo_requests :: "tooling_request list" where
  "demo_requests =
     [\<lparr>tx_name = ''write'', tx_args = [(''ref'', VStr ''a''), (''content'', VStr ''b'')]\<rparr>,
      \<lparr>tx_name = ''edit'', tx_args = []\<rparr>,
      \<lparr>tx_name = ''read'', tx_args = [(''ref'', VStr ''a'')]\<rparr>]"

theorem execute_many_runs_no_tool_witness:
  "mset [1, 0] = mset [0..<length (tooling_jobs (register_builtin_tools new_registry) demo_requests)]
   \<and> execute_many [1, 0] (register_builtin_tools new_registry) None demo_requests ()
     = ([\<lparr>tt_name = ''read'', tt_result = [], tt_error = None\<rparr>,
         \<lparr>tt_name = ''write'', tt_result = [], tt_error = None\<rparr>, empty_tool_result], ())"
proof -
  have jobs: "tooling_jobs (register_builtin_tools new_registry) demo_requests
      = [demo_requests ! 2, demo_requests ! 0]"
    by code_simp
  have sched: "mset [1, 0] = mset [0..<length (tooling_jobs (register_builtin_tools new_registry) demo_requests)]"
    by (simp add: jobs)
  from execute_many_runs_no_tool [OF sched, of None "()"] sched show ?thesis
    by (simp add: jobs) (simp add: demo_requests_def numeral_2_eq_2)
qed

subsection \<open>The index holds exactly the tree\<close>

text \<open>
  What the index of a directory should answer: whether the names of a path lead to a file or to a
  directory, none of them skipped.
\<close>

fun file_at :: "string list \<Rightarrow> fs_node list \<Rightarrow> string list \<Rightarrow> bool" where
  "file_at skip nodes [] = False"
| "file_at skip nodes (n # ms) =
     (n \<notin> set skip \<and>
      list_ex (\<lambda>node. case node of
                 FileNode k \<Rightarrow> k = n \<and> ms = []
               | DirNode k err entries \<Rightarrow> k = n \<and> file_at skip entries ms) nodes)"

fun dir_at :: "string list \<Rightarrow> fs_node list \<Rightarrow> string list \<Rightarrow> bool" where
  "dir_at skip nodes [] = False"
| "dir_at skip nodes (n # ms) =
     (n \<notin> set skip \<and>
      list_ex (\<lambda>node. case node of
                 FileNode k \<Rightarrow> False
               | DirNode k err entries \<Rightarrow> k = n \<and> (ms = [] \<or> dir_at skip entries ms)) nodes)"

fun tree_ok :: "fs_node \<Rightarrow> bool" where
  "tree_ok (FileNode n) = entry_name n"
| "tree_ok (DirNode n err entries) = (entry_name n \<and> list_all tree_ok entries)"

fun readable :: "string list \<Rightarrow> fs_node \<Rightarrow> bool" where
  "readable skip (FileNode n) = True"
| "readable skip (DirNode n err entries) = (n \<in> set skip \<or> err = None \<and> list_all (readable skip) entries)"

lemma file_at_Cons: "file_at skip (x # xs) p \<longleftrightarrow> file_at skip [x] p \<or> file_at skip xs p"
  by (cases p) auto

lemma dir_at_Cons: "dir_at skip (x # xs) p \<longleftrightarrow> dir_at skip [x] p \<or> dir_at skip xs p"
  by (cases p) auto

lemma file_at_FileNode: "file_at skip [FileNode k] p \<longleftrightarrow> p = [k] \<and> k \<notin> set skip"
  by (cases p) auto

lemma file_at_DirNode:
  "file_at skip [DirNode k e cs] p \<longleftrightarrow> (\<exists>q. p = k # q \<and> k \<notin> set skip \<and> file_at skip cs q)"
  by (cases p) auto

lemma dir_at_FileNode: "\<not> dir_at skip [FileNode k] p"
  by (cases p) auto

lemma dir_at_DirNode:
  "dir_at skip [DirNode k e cs] p \<longleftrightarrow> (\<exists>q. p = k # q \<and> k \<notin> set skip \<and> (q = [] \<or> dir_at skip cs q))"
  by (cases p) auto

lemma file_at_Nil [simp]: "\<not> file_at skip [] p"
  by (cases p) auto

lemma dir_at_Nil [simp]: "\<not> dir_at skip [] p"
  by (cases p) auto

lemma file_at_names: "file_at skip ns p \<Longrightarrow> list_all tree_ok ns \<Longrightarrow> p \<noteq> [] \<and> list_all entry_name p"
proof (induction skip ns p rule: file_at.induct)
  case (2 skip nodes n ms)
  then obtain x where "x \<in> set nodes" "tree_ok x" "case x of FileNode k \<Rightarrow> k = n \<and> ms = []
      | DirNode k err entries \<Rightarrow> k = n \<and> file_at skip entries ms"
    by (auto simp: list_ex_iff list_all_iff)
  with 2 show ?case
    by (cases x) auto
qed simp

lemma dir_at_names: "dir_at skip ns p \<Longrightarrow> list_all tree_ok ns \<Longrightarrow> p \<noteq> [] \<and> list_all entry_name p"
proof (induction skip ns p rule: dir_at.induct)
  case (2 skip nodes n ms)
  then obtain x where "x \<in> set nodes" "tree_ok x" "case x of FileNode k \<Rightarrow> False
      | DirNode k err entries \<Rightarrow> k = n \<and> (ms = [] \<or> dir_at skip entries ms)"
    by (auto simp: list_ex_iff list_all_iff)
  with 2 show ?case
    by (cases x) auto
qed simp

lemma join_rel_step:
  "entry_name k \<Longrightarrow> q \<noteq> [] \<Longrightarrow> join_rel (join_rel pre k) (str_join ''/'' q) = join_rel pre (str_join ''/'' (k # q))"
  by (auto simp: join_rel_def entry_name_def str_join_Cons)

definition paths_below :: "string \<Rightarrow> (string list \<Rightarrow> bool) \<Rightarrow> string set" where
  "paths_below pre at_path = {join_rel pre (str_join ''/'' p) | p. at_path p}"

lemma paths_below_disj: "paths_below pre (\<lambda>p. A p \<or> B p) = paths_below pre A \<union> paths_below pre B"
  by (auto simp: paths_below_def)

lemma index_nodes_sets:
  shows "index_node skip pre x ix = Inr ix' \<Longrightarrow> tree_ok x \<Longrightarrow>
      set (fx_files ix') = set (fx_files ix) \<union> paths_below pre (file_at skip [x])
      \<and> set (fx_dirs ix') = set (fx_dirs ix) \<union> paths_below pre (dir_at skip [x])"
    and "index_nodes skip pre xs ix = Inr ix' \<Longrightarrow> list_all tree_ok xs \<Longrightarrow>
      set (fx_files ix') = set (fx_files ix) \<union> paths_below pre (file_at skip xs)
      \<and> set (fx_dirs ix') = set (fx_dirs ix) \<union> paths_below pre (dir_at skip xs)"
proof (induction skip pre x ix and skip pre xs ix arbitrary: ix' and ix'
    rule: index_node_index_nodes.induct)
  case (1 skip pre name ix)
  then show ?case
    by (auto simp: file_at_FileNode dir_at_FileNode paths_below_def split: if_splits)
next
  case (2 skip pre name err entries ix)
  show ?case
  proof (cases "name \<in> set skip")
    case True
    with 2(2) show ?thesis by (auto simp: paths_below_def file_at_DirNode dir_at_DirNode)
  next
    case False
    define ix1 where "ix1 = ix\<lparr>fx_dirs := List.insert (join_rel pre name) (fx_dirs ix)\<rparr>"
    have err: "err = None"
      using False 2(2) by (simp split: option.splits)
    have run: "index_nodes skip (join_rel pre name) entries ix1 = Inr ix'"
      using False 2(2) err by (simp add: ix1_def)
    have nm: "entry_name name" and ok: "list_all tree_ok entries"
      using 2(3) by simp_all
    have sub: "paths_below (join_rel pre name) at_path = paths_below pre (\<lambda>p. \<exists>q. p = name # q \<and> at_path q)"
      if "\<And>q. at_path q \<Longrightarrow> q \<noteq> []" for at_path :: "string list \<Rightarrow> bool"
    proof -
      have "at_path q \<Longrightarrow> join_rel (join_rel pre name) (str_join ''/'' q) = join_rel pre (str_join ''/'' (name # q))" for q
        using that join_rel_step [OF nm] by blast
      then show ?thesis
        unfolding paths_below_def by (intro Collect_cong) metis
    qed
    have files: "paths_below pre (file_at skip [DirNode name err entries])
        = paths_below (join_rel pre name) (file_at skip entries)"
      using False file_at_names [OF _ ok] by (subst sub) (auto simp: file_at_DirNode paths_below_def)
    have dirs: "paths_below pre (dir_at skip [DirNode name err entries])
        = insert (join_rel pre name) (paths_below (join_rel pre name) (dir_at skip entries))"
      using False dir_at_names [OF _ ok]
      by (subst sub) (auto simp: dir_at_DirNode paths_below_def intro: exI [of _ "[name]"])
    have "set (fx_files ix') = set (fx_files ix1) \<union> paths_below (join_rel pre name) (file_at skip entries)
      \<and> set (fx_dirs ix') = set (fx_dirs ix1) \<union> paths_below (join_rel pre name) (dir_at skip entries)"
      by (rule 2(1) [OF False ix1_def err run ok])
    then show ?thesis using files dirs by (auto simp: ix1_def)
  qed
next
  case (3 skip pre ix)
  then show ?case by (simp add: paths_below_def)
next
  case (4 skip pre n ns ix)
  then obtain ix1 where "index_node skip pre n ix = Inr ix1" "index_nodes skip pre ns ix1 = Inr ix'"
    by (auto split: sum.splits)
  with 4 show ?case
    by (auto simp: file_at_Cons [of _ n ns] dir_at_Cons [of _ n ns] paths_below_disj)
qed

lemma index_nodes_readable:
  shows "is_ok (index_node skip pre x ix) \<longleftrightarrow> readable skip x"
    and "is_ok (index_nodes skip pre xs ix) \<longleftrightarrow> list_all (readable skip) xs"
  by (induction skip pre x ix and skip pre xs ix rule: index_node_index_nodes.induct)
    (auto simp: Let_def split: option.split sum.split)

lemma paths_below_root:
  assumes "\<And>p. at_path p \<Longrightarrow> p \<noteq> [] \<and> list_all entry_name p"
  shows "x \<in> paths_below [] at_path \<longleftrightarrow> at_path (split_on (CHR ''/'') x)"
proof
  assume "x \<in> paths_below [] at_path"
  then obtain p where p: "x = str_join ''/'' p" "at_path p"
    by (auto simp: paths_below_def join_rel_def)
  with assms have "split_on (CHR ''/'') x = p"
    by (auto intro!: split_on_join simp: list_all_iff entry_name_def)
  with p show "at_path (split_on (CHR ''/'') x)" by simp
next
  assume "at_path (split_on (CHR ''/'') x)"
  then show "x \<in> paths_below [] at_path"
    by (auto simp: paths_below_def join_rel_def join_split_on intro!: exI [of _ "split_on (CHR ''/'') x"])
qed

definition effective_skip :: "string list \<Rightarrow> string list" where
  "effective_skip skip0 = (if skip0 = [] then defaultSkip else skip0)"

lemma index_fs_dir:
  "index_fs (Inr (DirNode name err entries)) skip0 =
     (case err of Some e \<Rightarrow> Inl e
      | None \<Rightarrow> index_nodes (effective_skip skip0) [] entries \<lparr>fx_files = [], fx_dirs = [[]]\<rparr>)"
  by (cases err) (simp_all add: index_fs_def effective_skip_def Let_def)

lemma index_fs_files:
  assumes "index_fs (Inr (DirNode name None entries)) skip0 = Inr ix" "list_all tree_ok entries"
  shows "fs_has_path ix rel \<longleftrightarrow> file_at (effective_skip skip0) entries (split_on (CHR ''/'') (normalize_path rel))"
    and "fs_has_dir ix rel \<longleftrightarrow> normalize_path rel = []
       \<or> dir_at (effective_skip skip0) entries (split_on (CHR ''/'') (normalize_path rel))"
proof -
  from assms have run: "index_nodes (effective_skip skip0) [] entries \<lparr>fx_files = [], fx_dirs = [[]]\<rparr> = Inr ix"
    by (simp add: index_fs_dir)
  note sets = index_nodes_sets(2) [OF run assms(2)]
  show "fs_has_path ix rel \<longleftrightarrow> file_at (effective_skip skip0) entries (split_on (CHR ''/'') (normalize_path rel))"
    using sets file_at_names [OF _ assms(2)] by (simp add: fs_has_path_def paths_below_root)
  show "fs_has_dir ix rel \<longleftrightarrow> normalize_path rel = []
       \<or> dir_at (effective_skip skip0) entries (split_on (CHR ''/'') (normalize_path rel))"
    using sets dir_at_names [OF _ assms(2)] by (simp add: fs_has_dir_def paths_below_root)
qed

text \<open>A path without surrounding white space is its own normal form.\<close>

lemma normalize_path_names:
  assumes "ns \<noteq> []" "list_all entry_name ns" "trim_space (str_join ''/'' ns) = str_join ''/'' ns"
  shows "normalize_path (str_join ''/'' ns) = str_join ''/'' ns"
proof -
  obtain m ms where ns: "ns = m # ms" using assms(1) by (cases ns) auto
  with assms(2) have "m \<noteq> []" "m \<noteq> dot" "CHR ''/'' \<notin> set m"
    by (auto simp: entry_name_def)
  then have "str_join ''/'' ns \<noteq> dot" "str_join ''/'' ns \<noteq> ''/''" "\<not> prefix ''./'' (str_join ''/'' ns)"
    by (cases m; cases "tl m"; auto simp: ns str_join_Cons dot_def)+
  then show ?thesis
    using assms by (simp add: normalize_path_def path_clean_names Let_def)
qed

text \<open>
  C24. Indexing a directory fails exactly when it, or a directory in it that is not skipped, cannot be
  listed; otherwise the index answers, for every reference, exactly whether the names of its normal form
  lead to a file (a directory) of the tree without passing a skipped name.
\<close>

theorem index_fs_exact:
  assumes "list_all tree_ok entries"
  shows "case index_fs (Inr (DirNode name err entries)) skip0 of
      Inl e \<Rightarrow> (case err of Some e' \<Rightarrow> e = e'
                | None \<Rightarrow> \<not> list_all (readable (effective_skip skip0)) entries)
    | Inr ix \<Rightarrow> err = None \<and> list_all (readable (effective_skip skip0)) entries
        \<and> (\<forall>rel. fs_has_path ix rel
             \<longleftrightarrow> file_at (effective_skip skip0) entries (split_on (CHR ''/'') (normalize_path rel)))
        \<and> (\<forall>rel. fs_has_dir ix rel \<longleftrightarrow> normalize_path rel = []
             \<or> dir_at (effective_skip skip0) entries (split_on (CHR ''/'') (normalize_path rel)))"
proof (cases "index_fs (Inr (DirNode name err entries)) skip0")
  case (Inl e)
  then show ?thesis
    using index_nodes_readable(2) [of "effective_skip skip0" "[]" entries "\<lparr>fx_files = [], fx_dirs = [[]]\<rparr>"]
    by (auto simp: index_fs_dir split: option.splits)
next
  case (Inr ix)
  then have err: "err = None"
    by (simp add: index_fs_dir split: option.splits)
  have "list_all (readable (effective_skip skip0)) entries"
    using Inr index_nodes_readable(2) [of "effective_skip skip0" "[]" entries "\<lparr>fx_files = [], fx_dirs = [[]]\<rparr>"]
    by (simp add: index_fs_dir err)
  with Inr index_fs_files [OF Inr [unfolded err] assms] show ?thesis
    by (simp add: err)
qed

definition demo_tree :: "fs_node list" where
  "demo_tree = [DirNode ''.git'' (Some (Adhoc ''denied'')) [],
     DirNode ''internal'' None [DirNode ''server'' None [FileNode ''server.go''], FileNode ''doc.md''],
     FileNode ''run-demo.sh'']"

theorem index_fs_exact_witness:
  "list_all tree_ok demo_tree \<and>
   (case index_fs (Inr (DirNode ''repo'' None demo_tree)) [] of
      Inl e \<Rightarrow> False
    | Inr ix \<Rightarrow> fs_has_path ix '' ./internal//server/../doc.md '' \<and> \<not> fs_has_path ix ''internal'' \<and> fs_has_dir ix ''/'')"
proof -
  have ok: "list_all tree_ok demo_tree" by code_simp
  have skip: "effective_skip [] = defaultSkip" by (simp add: effective_skip_def)
  have readable: "list_all (readable defaultSkip) demo_tree" by code_simp
  have norm: "normalize_path '' ./internal//server/../doc.md '' = ''internal/doc.md''"
      "normalize_path ''internal'' = ''internal''" "normalize_path ''/'' = []"
    by code_simp+
  have "file_at defaultSkip demo_tree (split_on (CHR ''/'') ''internal/doc.md'')"
      "\<not> file_at defaultSkip demo_tree (split_on (CHR ''/'') ''internal'')"
    by code_simp+
  with index_fs_exact [OF ok, where name = "''repo''" and err = None and ?skip0.0 = "[]"] ok readable norm show ?thesis
    by (cases "index_fs (Inr (DirNode ''repo'' None demo_tree)) []") (simp_all add: skip)
qed

subsection \<open>What the gate admits\<close>

text \<open>
  The specification of an admissible call: the tool is known, no argument is undeclared, every declared
  input is a non-empty string copied from the request, and its path is in reach.
\<close>

definition copied :: "string \<Rightarrow> gomap \<Rightarrow> string \<Rightarrow> bool" where
  "copied query args key \<longleftrightarrow>
     (case map_of args key of Some (VStr v) \<Rightarrow> v \<noteq> [] \<and> sublist v query | _ \<Rightarrow> False)"

definition in_reach :: "path_index option \<Rightarrow> gate_call \<Rightarrow> bool" where
  "in_reach index call \<longleftrightarrow>
     (case index of
        None \<Rightarrow> True
      | Some ix \<Rightarrow>
        if gc_name call = ''read'' then pi_has_path ix (meta_string (gc_args call) ''ref'')
        else if gc_name call = ''write'' then pi_has_dir ix (parent_dir (meta_string (gc_args call) ''ref''))
        else if gc_name call = ''glob'' then
          pi_has_dir ix (parent_dir (meta_string (gc_args call) ''pattern''))
          \<or> pi_has_path ix (meta_string (gc_args call) ''pattern'')
        else True)"

definition admissible :: "gate \<Rightarrow> string \<Rightarrow> gate_call \<Rightarrow> bool" where
  "admissible g query call \<longleftrightarrow>
     (case map_of (gt_tools g) (gc_name call) of
        None \<Rightarrow> False
      | Some declared \<Rightarrow>
        set (go_keys (gc_args call)) \<subseteq> set declared
        \<and> list_all (copied query (gc_args call)) declared \<and> in_reach (gt_index g) call)"

lemma meta_string_VStr_iff:
  "meta_string m k \<noteq> [] \<longleftrightarrow> (\<exists>v. map_of m k = Some (VStr v) \<and> v \<noteq> [])"
  by (auto simp: meta_string_def split: option.splits goval.splits)

lemma copied_iff: "copied query args key \<longleftrightarrow> meta_string args key \<noteq> [] \<and> str_contains query (meta_string args key)"
  by (auto simp: copied_def meta_string_def str_contains_def split: option.splits goval.splits)

lemma key_mismatch_ok:
  "key_mismatch declared args = [] \<longleftrightarrow>
     set (go_keys args) \<subseteq> set declared \<and> list_all (\<lambda>k. meta_string args k \<noteq> []) declared"
proof -
  have "key_mismatch declared args = [] \<longleftrightarrow>
      find (\<lambda>key. key \<notin> set declared) (go_keys args) = None \<and> find (\<lambda>key. meta_string args key = []) declared = None"
    by (simp add: key_mismatch_def split: option.split)
  then show ?thesis
    by (auto simp: find_None_iff list_all_iff)
qed

lemma resolve_ok: "resolve g call = [] \<longleftrightarrow> in_reach (gt_index g) call"
  by (auto simp: resolve_def in_reach_def pathArg_def Let_def split: option.splits)

definition gate_rules :: "string list" where
  "gate_rules = [''tool_exists'', ''schema'', ''grounding'', ''resolution'']"

lemma check_accept_iff: "dc_verdict (check_call g query call) = Accept \<longleftrightarrow> admissible g query call"
proof (cases "map_of (gt_tools g) (gc_name call)")
  case None
  then show ?thesis by (simp add: check_call_def admissible_def Let_def)
next
  case (Some declared)
  have "list_all (copied query (gc_args call)) declared \<longleftrightarrow>
      list_all (\<lambda>k. meta_string (gc_args call) k \<noteq> []) declared
      \<and> find (\<lambda>key. \<not> str_contains query (meta_string (gc_args call) key)) declared = None"
    by (auto simp: copied_iff list_all_iff find_None_iff)
  with Some show ?thesis
    by (auto simp: check_call_def admissible_def Let_def key_mismatch_ok resolve_ok split: option.split)
qed

text \<open>
  The gate accepts exactly the admissible calls, and every decision carries the audit trail of the
  rules in their order: all before the last passed, the last one passed exactly if the call is accepted,
  and an accepted call has passed all four.
\<close>

theorem check_accepts_admissible:
  "let d = check_call g query call; n = length (dc_checks d)
   in (dc_verdict d = Accept \<longleftrightarrow> admissible g query call)
      \<and> dc_call d = call \<and> 0 < n \<and> map ck_rule (dc_checks d) = take n gate_rules
      \<and> map ck_ok (dc_checks d) = replicate (n - 1) True @ [dc_verdict d = Accept]
      \<and> (dc_verdict d = Accept \<longleftrightarrow> dc_reason d = ''ok'') \<and> (if dc_verdict d = Accept then n = 4 else n \<le> 4)"
proof -
  have reason: "unresolved \<noteq> ''ok''" if "resolve g call = unresolved" for unresolved
    using that by (auto simp: resolve_def Let_def split: option.splits if_splits)
  have keys: "detail \<noteq> ''ok''" if "key_mismatch declared args = detail" for detail declared args
    using that by (auto simp: key_mismatch_def split: option.splits)
  show ?thesis
    unfolding Let_def check_accept_iff [symmetric]
    using reason keys
    by (auto simp: check_call_def gate_rules_def passed_def failed_check_def Let_def split: option.split)
qed

text \<open>
  Of a list of proposed calls the gate keeps exactly the admissible ones, in order, and decides on each;
  a request that names nothing in reach keeps none and is refused under the rule of its own.
\<close>

theorem check_all_keeps_admissible:
  "check_all g query calls =
     (if gate_fits g query then (filter (admissible g query) calls, map (check_call g query) calls)
      else ([], case calls of [] \<Rightarrow> [unsupported \<lparr>gc_name = [], gc_args = []\<rparr>] | _ \<Rightarrow> map unsupported calls))"
proof -
  have "fold (\<lambda>call (kept, ds).
             let d = check_call g query call in
             (if dc_verdict d = Accept then kept @ [call] else kept, ds @ [d])) calls (kept, ds)
      = (kept @ filter (admissible g query) calls, ds @ map (check_call g query) calls)" for kept ds
    by (induction calls arbitrary: kept ds) (auto simp: Let_def check_accept_iff)
  from this [of "[]" "[]"] show ?thesis
    by (simp add: check_all_def split: list.split)
qed

text \<open>The keys of an admitted call are the declared ones, each with a copied value.\<close>

lemma copied_keys:
  "set (go_keys args) \<subseteq> set ds \<and> list_all (copied query args) ds \<longleftrightarrow>
     set (go_keys args) = set ds
     \<and> (\<forall>k. k \<in> set (go_keys args) \<longleftrightarrow> meta_string args k \<noteq> [] \<and> sublist (meta_string args k) query)"
proof -
  have present: "k \<in> set (go_keys args)" if "meta_string args k \<noteq> []" for k
    using that by (auto simp: meta_string_VStr_iff) (metis map_of_SomeD fst_conv image_eqI)
  have "copied query args k \<longleftrightarrow> meta_string args k \<noteq> [] \<and> sublist (meta_string args k) query" for k
    by (simp add: copied_iff str_contains_def)
  with present show ?thesis
    unfolding list_all_iff by blast
qed

text \<open>The gate over the built-in tools.\<close>

lemma builtin_gate:
  "new_gate (register_builtin_tools new_registry) index =
     \<lparr>gt_tools = [(''glob'', [''pattern'']), (''grep'', [''pattern'', ''text'']), (''read'', [''ref'']),
                  (''write'', [''content'', ''ref''])], gt_index = index\<rparr>"
proof -
  have "fold (\<lambda>t m. AList.update (tl_name t) (sort_strings (go_keys (ts_input (tl_schema t)))) m)
      (reg_list (register_builtin_tools new_registry)) []
    = [(''glob'', [''pattern'']), (''grep'', [''pattern'', ''text'']), (''read'', [''ref'']),
       (''write'', [''content'', ''ref''])]"
    by code_simp
  then show ?thesis by (simp add: new_gate_def)
qed

text \<open>
  C23. The gate over the built-in tools and the index of a directory tree accepts exactly: a search whose
  two arguments are copied from the request, a read of an existing file, a write whose directory exists,
  a glob whose pattern names a file or lies under an existing directory, whatever its last component is; every
  argument declared and copied from the request.
\<close>

theorem builtin_gate_on_tree:
  assumes "index_fs (Inr (DirNode name None entries)) skip0 = Inr ix" and "list_all tree_ok entries"
  shows "dc_verdict (check_call (new_gate (register_builtin_tools new_registry) (Some (fs_view ix))) query call) = Accept
    \<longleftrightarrow> (let value = meta_string (gc_args call); keys = set (go_keys (gc_args call));
             names = (\<lambda>rel. split_on (CHR ''/'') (normalize_path rel));
             is_file = (\<lambda>rel. file_at (effective_skip skip0) entries (names rel));
             is_dir = (\<lambda>rel. normalize_path rel = [] \<or> dir_at (effective_skip skip0) entries (names rel))
         in (\<forall>k. k \<in> keys \<longleftrightarrow> value k \<noteq> [] \<and> sublist (value k) query)
            \<and> (gc_name call = ''grep'' \<and> keys = {''pattern'', ''text''}
              \<or> gc_name call = ''read'' \<and> keys = {''ref''} \<and> is_file (value ''ref'')
              \<or> gc_name call = ''write'' \<and> keys = {''ref'', ''content''} \<and> is_dir (parent_dir (value ''ref''))
              \<or> gc_name call = ''glob'' \<and> keys = {''pattern''}
                \<and> (is_dir (parent_dir (value ''pattern'')) \<or> is_file (value ''pattern''))))"
proof -
  define cop where "cop \<longleftrightarrow> (\<forall>k. k \<in> set (go_keys (gc_args call))
    \<longleftrightarrow> meta_string (gc_args call) k \<noteq> [] \<and> sublist (meta_string (gc_args call) k) query)"
  let ?tools = "[(''glob'', [''pattern'']), (''grep'', [''pattern'', ''text'']), (''read'', [''ref'']),
                  (''write'', [''content'', ''ref''])]"
  have adm: "admissible \<lparr>gt_tools = ?tools, gt_index = Some (fs_view ix)\<rparr> query call \<longleftrightarrow>
      (case map_of ?tools (gc_name call) of
         None \<Rightarrow> False
       | Some declared \<Rightarrow> cop \<and> set (go_keys (gc_args call)) = set declared \<and> in_reach (Some (fs_view ix)) call)"
    unfolding admissible_def gate.select_convs cop_def
    by (rule option.case_cong [OF refl refl]) (metis copied_keys)
  note files = index_fs_files [OF assms]
  consider "gc_name call = ''grep''" | "gc_name call = ''read''" | "gc_name call = ''write''"
    | "gc_name call = ''glob''"
    | "gc_name call \<notin> {''grep'', ''read'', ''write'', ''glob''}" by blast
  then show ?thesis
    unfolding check_accept_iff builtin_gate adm Let_def cop_def [symmetric]
    by cases (simp_all add: in_reach_def fs_view_def files insert_commute del: set_go_keys)
qed

definition demo_index :: fs_index where
  "demo_index = \<lparr>fx_files = [''run-demo.sh'', ''internal/doc.md'', ''internal/server/server.go''],
     fx_dirs = [''internal/server'', ''internal'', []]\<rparr>"

definition demo_read :: gate_call where
  "demo_read = \<lparr>gc_name = ''read'', gc_args = [(''ref'', VStr ''internal/doc.md'')]\<rparr>"

definition demo_root_write :: gate_call where
  "demo_root_write = \<lparr>gc_name = ''write'', gc_args = [(''ref'', VStr ''/notes''), (''content'', VStr ''hi'')]\<rparr>"

lemma demo_index_built: "index_fs (Inr (DirNode ''repo'' None demo_tree)) [] = Inr demo_index"
  by code_simp

text \<open>
  A read of a file of the tree is accepted; so is a write to a path directly under the root of the
  machine, since the parent \<open>/\<close> normalises to the root of the tree.
\<close>

theorem builtin_gate_on_tree_witness:
  "dc_verdict (check_call (new_gate (register_builtin_tools new_registry) (Some (fs_view demo_index)))
     ''open internal/doc.md'' demo_read) = Accept
   \<and> dc_verdict (check_call (new_gate (register_builtin_tools new_registry) (Some (fs_view demo_index)))
     ''write hi to /notes'' demo_root_write) = Accept"
proof -
  have ok: "list_all tree_ok demo_tree" by code_simp
  have args: "set (go_keys (gc_args demo_read)) = {''ref''}"
      "set (go_keys (gc_args demo_root_write)) = {''ref'', ''content''}"
      "meta_string (gc_args demo_read) k = (if k = ''ref'' then ''internal/doc.md'' else [])"
      "meta_string (gc_args demo_root_write) k = (if k = ''ref'' then ''/notes'' else if k = ''content'' then ''hi'' else [])"
    for k
    by (auto simp: demo_read_def demo_root_write_def meta_string_def)
  have sub: "sublist ''internal/doc.md'' ''open internal/doc.md''" "sublist ''/notes'' ''write hi to /notes''"
      "sublist ''hi'' ''write hi to /notes''"
    by code_simp+
  have found: "file_at (effective_skip []) demo_tree (split_on (CHR ''/'') (normalize_path ''internal/doc.md''))"
    by code_simp
  have root: "normalize_path (parent_dir ''/notes'') = []" by code_simp
  have names: "gc_name demo_read = ''read''" "gc_name demo_root_write = ''write''"
    by (simp_all add: demo_read_def demo_root_write_def)
  show ?thesis
    unfolding builtin_gate_on_tree [OF demo_index_built ok] Let_def args names
    using sub found root by auto
qed

subsection \<open>Quoted spans\<close>

lemma str_index_char: "c \<notin> set a \<Longrightarrow> str_index (a @ c # s) [c] = Some (length a)"
  by (induction a) auto

lemma str_index_no_char: "c \<notin> set a \<Longrightarrow> str_index a [c] = None"
  by (induction a) auto

text \<open>The spans between the quotes of a text come out as they were put in.\<close>

lemma quoted_spans_parts:
  assumes "list_all (\<lambda>(a, s). CHR 0x22 \<notin> set a \<and> CHR 0x22 \<notin> set s) ps" "CHR 0x22 \<notin> set rest"
  shows "quoted_spans (concat (map (\<lambda>(a, s). a @ [CHR 0x22] @ s @ [CHR 0x22]) ps) @ rest) = map snd ps"
  using assms(1)
proof (induction ps)
  case Nil
  with assms(2) show ?case
    by (subst quoted_spans.simps) (simp add: str_index_no_char)
next
  case (Cons p ps)
  then show ?case
    by (cases p, subst quoted_spans.simps) (simp add: str_index_char)
qed

lemma quoted_request_fits:
  assumes "list_ex (\<lambda>(a, s). 2 \<le> length (trim_space s)) ps"
    and "list_all (\<lambda>(a, s). CHR 0x22 \<notin> set a \<and> CHR 0x22 \<notin> set s) ps" "CHR 0x22 \<notin> set rest"
  shows "gate_fits g (concat (map (\<lambda>(a, s). a @ [CHR 0x22] @ s @ [CHR 0x22]) ps) @ rest)"
proof -
  have "list_ex (\<lambda>span. 2 \<le> length (trim_space span)) (map snd ps)"
    using assms(1) by (force simp: list_ex_iff)
  then show ?thesis
    by (simp add: gate_fits_def quoted_spans_parts [OF assms(2,3), simplified])
qed

end
