(* ===== verification/ConsultStore.thy ===== *)
theory ConsultStore
  imports Backend GoStrings "HOL-Library.AList"
begin

text \<open>
  The stores of consult records: \<open>internal/consult/serializer.go\<close>, the manifest and event operations of
  \<open>internal/backend/xs/adapter.go\<close> (JSON text among the blobs), and package \<open>internal/review\<close> with its
  in-memory store and the service that lists and exports. The locale \<open>manifest_store\<close> is the contract of
  the manifest operations of \<open>backend.Backend\<close>; both adapters interpret it. The locale \<open>consult_store\<close> is
  the interface of package \<open>review\<close>; its in-memory store interprets it.

  \<open>json.Unmarshal\<close> is a parameter; what is needed of it is that it reads back what \<open>json.Marshal\<close> wrote.
\<close>

subsection \<open>JSON form of an event summary\<close>

text \<open>
  \<open>EventSummary\<close> has no JSON tags, so every member appears under its Go name. An absent \<open>Missing\<close> is the
  nil slice, printed \<open>null\<close>.
\<close>

definition event_summary_json :: "event_summary \<Rightarrow> json" where
  "event_summary_json e = JObject
     (fld ''SchemaVersion'' (JString (es_schema e)) @ fld ''Fingerprint'' (JString (es_fingerprint e))
      @ fld ''ContractVersion'' (JString (es_contract e))
      @ fld ''ManifestSerializerVersion'' (JString (es_serializer e))
      @ fld ''Outcome'' (JString (es_outcome e)) @ fld ''Role'' (JString (es_role e))
      @ fld ''LeaderConsultEventID'' (JString (es_leader_event e))
      @ fld ''ByteBudget'' (JInt (es_budget e)) @ fld ''ActualBytes'' (JInt (es_actual e))
      @ fld ''TaskSummary'' (JString (es_task e))
      @ fld ''Missing'' (if es_missing e = [] then JNull else JArray (map JString (es_missing e)))
      @ fld ''Selection'' (case es_selection e of None \<Rightarrow> JNull | Some s \<Rightarrow> selection_json s))"

definition event_summary_marshal :: "event_summary \<Rightarrow> string" where
  "event_summary_marshal e = json_print (event_summary_json e)"

subsection \<open>The versioned serializer\<close>

definition encode_manifest :: "manifest \<Rightarrow> string result" where
  "encode_manifest m =
     (if mf_version m \<noteq> SerializerVersionV1
      then Inl (Adhoc (''unsupported manifest serializer version '' @ go_quote (mf_version m)
             @ '', expected '' @ go_quote SerializerVersionV1))
      else Inr (manifest_marshal m))"

definition decode_manifest :: "(string \<Rightarrow> manifest result) \<Rightarrow> string \<Rightarrow> manifest result" where
  "decode_manifest unmarshal data =
     (case unmarshal data of
        Inl e \<Rightarrow> Inl (Wrapped (''manifest decode: '' @ err_msg e) e)
      | Inr m \<Rightarrow>
        if mf_version m \<noteq> SerializerVersionV1
        then Inl (Adhoc (''unsupported manifest serializer version '' @ go_quote (mf_version m)
               @ '', expected '' @ go_quote SerializerVersionV1))
        else Inr m)"

definition event_version_error :: "event_summary \<Rightarrow> goerr option" where
  "event_version_error e =
     (if es_schema e \<noteq> EventSchemaVersionV1
      then Some (Adhoc (''unsupported event schema version '' @ go_quote (es_schema e)
             @ '', expected '' @ go_quote EventSchemaVersionV1))
      else if es_serializer e \<noteq> [] \<and> es_serializer e \<noteq> SerializerVersionV1
      then Some (Adhoc (''event manifest version '' @ go_quote (es_serializer e)
             @ '' does not align with serializer version '' @ go_quote SerializerVersionV1))
      else None)"

definition encode_event_summary :: "event_summary \<Rightarrow> string result" where
  "encode_event_summary e =
     (case event_version_error e of Some err \<Rightarrow> Inl err | None \<Rightarrow> Inr (event_summary_marshal e))"

definition decode_event_summary :: "(string \<Rightarrow> event_summary result) \<Rightarrow> string \<Rightarrow> event_summary result" where
  "decode_event_summary unmarshal data =
     (case unmarshal data of
        Inl e \<Rightarrow> Inl (Wrapped (''event summary decode: '' @ err_msg e) e)
      | Inr e \<Rightarrow> (case event_version_error e of Some err \<Rightarrow> Inl err | None \<Rightarrow> Inr e))"

definition version_info :: string_map where
  "version_info = [(''serializer_version'', SerializerVersionV1), (''event_schema_version'', EventSchemaVersionV1)]"

subsection \<open>Manifests and events in the xs adapter\<close>

text \<open>
  A \<open>range\<close> over the blobs visits their keys in an order that the runtime picks; it is the argument
  \<open>keys\<close>. \<open>sent\<close> is the number of manifests that a stream delivers before a context that is done is
  noticed: \<open>select\<close> picks one of the two cases that are ready.
\<close>

definition manifest_key :: "string \<Rightarrow> string" where
  "manifest_key i = ''manifest:'' @ i"

definition event_key :: "string \<Rightarrow> string" where
  "event_key i = ''event:'' @ i"

definition xs_save_manifest :: "ctx \<Rightarrow> manifest \<Rightarrow> xs_adapter \<Rightarrow> goerr option \<times> xs_adapter" where
  "xs_save_manifest c m s =
     (case c of Some err \<Rightarrow> (Some err, s)
      | None \<Rightarrow> (None, s\<lparr>xa_blobs := (xa_blobs s)(manifest_key (mf_event_id m) \<mapsto> manifest_marshal m)\<rparr>))"

definition xs_load_manifest :: "(string \<Rightarrow> manifest result) \<Rightarrow> ctx \<Rightarrow> string \<Rightarrow> xs_adapter \<Rightarrow> manifest result" where
  "xs_load_manifest unmarshal c i s =
     (case c of Some err \<Rightarrow> Inl err | None \<Rightarrow>
      case xa_blobs s (manifest_key i) of None \<Rightarrow> Inl be_ErrNotFound | Some data \<Rightarrow>
      case unmarshal data of Inl e \<Rightarrow> Inl e | Inr m \<Rightarrow> Inr m)"

definition manifest_at :: "(string \<Rightarrow> manifest result) \<Rightarrow> xs_adapter \<Rightarrow> string \<Rightarrow> manifest option" where
  "manifest_at unmarshal s key =
     (if prefix ''manifest:'' key
      then case xa_blobs s key of None \<Rightarrow> None | Some data \<Rightarrow>
           (case unmarshal data of Inl e \<Rightarrow> None | Inr m \<Rightarrow> Some m)
      else None)"

definition xs_manifests :: "(string \<Rightarrow> manifest result) \<Rightarrow> string list \<Rightarrow> xs_adapter \<Rightarrow> manifest list" where
  "xs_manifests unmarshal keys s = List.map_filter (manifest_at unmarshal s) keys"

definition xs_list_manifests ::
  "(string \<Rightarrow> manifest result) \<Rightarrow> string list \<Rightarrow> ctx \<Rightarrow> int \<Rightarrow> int \<Rightarrow> xs_adapter \<Rightarrow> manifest list result option" where
  "xs_list_manifests unmarshal keys c limit offset s =
     (case c of Some err \<Rightarrow> Some (Inl err)
      | None \<Rightarrow> map_option Inr
          (paginate (go_sort (\<lambda>a b. mf_event_id a < mf_event_id b) (xs_manifests unmarshal keys s)) limit offset))"

definition deliver :: "ctx \<Rightarrow> nat \<Rightarrow> 'a list \<Rightarrow> 'a list \<times> goerr option" where
  "deliver c sent xs =
     (case c of None \<Rightarrow> (xs, None)
      | Some err \<Rightarrow> if sent < length xs then (take sent xs, Some err) else (xs, None))"

definition xs_stream_manifests ::
  "(string \<Rightarrow> manifest result) \<Rightarrow> string list \<Rightarrow> ctx \<Rightarrow> nat \<Rightarrow> xs_adapter \<Rightarrow> manifest list \<times> goerr option" where
  "xs_stream_manifests unmarshal keys c sent s = deliver c sent (xs_manifests unmarshal keys s)"

definition xs_save_event :: "ctx \<Rightarrow> event_summary \<Rightarrow> xs_adapter \<Rightarrow> goerr option \<times> xs_adapter" where
  "xs_save_event c e s =
     (case c of Some err \<Rightarrow> (Some err, s)
      | None \<Rightarrow> (None, s\<lparr>xa_blobs := (xa_blobs s)(event_key (es_fingerprint e) \<mapsto> event_summary_marshal e)\<rparr>))"

definition xs_load_event :: "(string \<Rightarrow> event_summary result) \<Rightarrow> ctx \<Rightarrow> string \<Rightarrow> xs_adapter \<Rightarrow> event_summary result" where
  "xs_load_event unmarshal c i s =
     (case c of Some err \<Rightarrow> Inl err | None \<Rightarrow>
      case xa_blobs s (event_key i) of None \<Rightarrow> Inl be_ErrNotFound | Some data \<Rightarrow>
      case unmarshal data of Inl e \<Rightarrow> Inl e | Inr e \<Rightarrow> Inr e)"

subsection \<open>The contract of a manifest store\<close>

text \<open>
  \<open>saved s\<close> is the abstract value: the manifest of each identifier. \<open>good\<close> are the manifests that the
  store can represent, \<open>order\<close> relates a state to the iteration orders it allows.
\<close>

locale manifest_store =
  fixes save :: "ctx \<Rightarrow> manifest \<Rightarrow> 's \<Rightarrow> goerr option \<times> 's"
    and load :: "ctx \<Rightarrow> string \<Rightarrow> 's \<Rightarrow> manifest result"
    and page :: "'k \<Rightarrow> ctx \<Rightarrow> int \<Rightarrow> int \<Rightarrow> 's \<Rightarrow> manifest list result option"
    and saved :: "'s \<Rightarrow> string \<Rightarrow> manifest option"
    and valid :: "'s \<Rightarrow> bool"
    and good :: "manifest \<Rightarrow> bool"
    and order :: "'k \<Rightarrow> 's \<Rightarrow> bool"
  assumes save_live:
      "valid s \<Longrightarrow> good m \<Longrightarrow> \<exists>s'. save None m s = (None, s') \<and> valid s'
         \<and> saved s' = (saved s)(mf_event_id m \<mapsto> m)"
    and save_done: "save (Some err) m s = (Some err, s)"
    and load_live:
      "valid s \<Longrightarrow> load None i s = (case saved s i of None \<Rightarrow> Inl be_ErrNotFound | Some m \<Rightarrow> Inr m)"
    and load_done: "load (Some err) i s = Inl err"
    and page_live:
      "valid s \<Longrightarrow> order k s \<Longrightarrow> page k None limit offset s =
         map_option Inr (paginate (map (\<lambda>i. the (saved s i)) (sorted_list_of_set (dom (saved s)))) limit offset)"
    and page_done: "page k (Some err) limit offset s = Some (Inl err)"
    and saved_finite: "valid s \<Longrightarrow> finite (dom (saved s))"
    and saved_id: "valid s \<Longrightarrow> saved s i = Some m \<Longrightarrow> mf_event_id m = i"
begin

definition saves :: "(ctx \<times> manifest) list \<Rightarrow> 's \<Rightarrow> 's" where
  "saves cms s = fold (\<lambda>(c, m) s. snd (save c m s)) cms s"

definition effect :: "(ctx \<times> manifest) list \<Rightarrow> (string \<Rightarrow> manifest option) \<Rightarrow> string \<Rightarrow> manifest option" where
  "effect cms f = fold (\<lambda>(c, m) f. if c = None then f(mf_event_id m \<mapsto> m) else f) cms f"

lemma saves_saved:
  "valid s \<Longrightarrow> list_all good (map snd cms) \<Longrightarrow> valid (saves cms s) \<and> saved (saves cms s) = effect cms (saved s)"
proof (induction cms arbitrary: s)
  case (Cons cm cms)
  obtain c m where cm: "cm = (c, m)" by (cases cm)
  show ?case
  proof (cases c)
    case None
    with Cons.prems cm save_live [of s m] obtain s' where
      "save c m s = (None, s')" "valid s'" "saved s' = (saved s)(mf_event_id m \<mapsto> m)" by auto
    with Cons None cm show ?thesis by (simp add: saves_def effect_def)
  next
    case (Some err)
    with Cons cm show ?thesis by (simp add: saves_def effect_def save_done)
  qed
qed (simp add: saves_def effect_def)

end

text \<open>Two stores with one abstract value answer alike.\<close>

lemma manifest_stores_answer:
  assumes 1: "manifest_store save1 load1 page1 saved1 valid1 good1 order1"
    and 2: "manifest_store save2 load2 page2 saved2 valid2 good2 order2"
    and "valid1 s1" "valid2 s2" "saved1 s1 = saved2 s2" "order1 k1 s1" "order2 k2 s2"
  shows "load1 c i s1 = load2 c i s2" and "page1 k1 c limit offset s1 = page2 k2 c limit offset s2"
  using assms(3-) manifest_store.load_live [OF 1] manifest_store.load_live [OF 2]
    manifest_store.load_done [OF 1] manifest_store.load_done [OF 2]
    manifest_store.page_live [OF 1] manifest_store.page_live [OF 2]
    manifest_store.page_done [OF 1] manifest_store.page_done [OF 2]
  by (cases c; simp)+

subsection \<open>The in-memory backend is a manifest store\<close>

definition mb_manifests_ok :: "mem_backend \<Rightarrow> bool" where
  "mb_manifests_ok s \<longleftrightarrow> distinct (map fst (mb_manifests s)) \<and> list_all (\<lambda>(i, m). mf_event_id m = i) (mb_manifests s)"

lemma mb_sorted_manifests_eq:
  assumes "distinct (map fst (mb_manifests s))"
  shows "mb_sorted_manifests s =
    map (\<lambda>i. the (map_of (mb_manifests s) i)) (sorted_list_of_set (dom (map_of (mb_manifests s))))"
proof -
  have "sort (map fst (mb_manifests s)) = sorted_list_of_set (set (map fst (mb_manifests s)))"
    using assms by (metis distinct_remdups_id sorted_list_of_set_sort_remdups)
  also have "set (map fst (mb_manifests s)) = dom (map_of (mb_manifests s))"
    by (simp add: dom_map_of_conv_image_fst)
  finally show ?thesis by (simp add: mb_sorted_manifests_def exchange_sort_eq)
qed

interpretation mbm: manifest_store mb_save_manifest mb_load_manifest "\<lambda>k :: unit. mb_list_manifests"
  "\<lambda>s. map_of (mb_manifests s)" mb_manifests_ok "\<lambda>m. True" "\<lambda>k s. True"
proof unfold_locales
  fix s m
  assume ok: "mb_manifests_ok s"
  let ?l = "AList.update (mf_event_id m) m (mb_manifests s)"
  have "list_all (\<lambda>(i, m). mf_event_id m = i) (AList.update (mf_event_id m) m xs)"
    if "list_all (\<lambda>(i, m). mf_event_id m = i) xs" for xs
    using that by (induction xs) auto
  with ok have "mb_manifests_ok (s\<lparr>mb_manifests := ?l\<rparr>)"
    by (simp add: mb_manifests_ok_def distinct_update)
  then show "\<exists>s'. mb_save_manifest None m s = (None, s') \<and> mb_manifests_ok s'
      \<and> map_of (mb_manifests s') = (map_of (mb_manifests s))(mf_event_id m \<mapsto> m)"
    by (simp add: mb_save_manifest_def update_conv')
next
  fix s i m
  assume "mb_manifests_ok s" "map_of (mb_manifests s) i = Some m"
  then show "mf_event_id m = i"
    by (auto simp: mb_manifests_ok_def list_all_iff dest!: map_of_SomeD)
qed (auto simp: mb_save_manifest_def mb_load_manifest_def mb_list_manifests_def mb_manifests_ok_def
    mb_sorted_manifests_eq finite_dom_map_of)

subsection \<open>The xs adapter is a manifest store\<close>

definition xs_saved :: "(string \<Rightarrow> manifest result) \<Rightarrow> xs_adapter \<Rightarrow> string \<Rightarrow> manifest option" where
  "xs_saved unmarshal s i = manifest_at unmarshal s (manifest_key i)"

definition xs_manifests_ok :: "(string \<Rightarrow> manifest result) \<Rightarrow> xs_adapter \<Rightarrow> bool" where
  "xs_manifests_ok unmarshal s \<longleftrightarrow>
     finite (dom (xa_blobs s))
     \<and> (\<forall>i data. xa_blobs s (manifest_key i) = Some data \<longrightarrow> (\<exists>m. unmarshal data = Inr m \<and> mf_event_id m = i))"

definition visits :: "string list \<Rightarrow> xs_adapter \<Rightarrow> bool" where
  "visits keys s \<longleftrightarrow> distinct keys \<and> set keys = dom (xa_blobs s)"

lemma manifest_key_eq [simp]: "manifest_key i = manifest_key j \<longleftrightarrow> i = j"
  by (simp add: manifest_key_def)

lemma prefix_manifest_key [simp]: "prefix ''manifest:'' (manifest_key i)"
  by (simp add: manifest_key_def)

lemma xs_saved_ok:
  assumes "xs_manifests_ok unmarshal s"
  shows "xs_saved unmarshal s i =
      map_option (\<lambda>data. projr (unmarshal data)) (xa_blobs s (manifest_key i))"
    and "xa_blobs s (manifest_key i) = Some data \<Longrightarrow> \<exists>m. unmarshal data = Inr m \<and> mf_event_id m = i"
  using assms
  by (force simp: xs_saved_def manifest_at_def xs_manifests_ok_def split: option.split sum.split)+

lemma xs_saved_id: "xs_manifests_ok unmarshal s \<Longrightarrow> xs_saved unmarshal s i = Some m \<Longrightarrow> mf_event_id m = i"
  using xs_saved_ok [of unmarshal s i] by (cases "xa_blobs s (manifest_key i)") auto

lemma manifest_at_key: "manifest_at unmarshal s key = Some m \<Longrightarrow> \<exists>i. key = manifest_key i \<and> xs_saved unmarshal s i = Some m"
  by (auto simp: manifest_at_def xs_saved_def manifest_key_def prefix_def split: if_splits)

lemma manifest_at_Some:
  "xs_manifests_ok unmarshal s \<Longrightarrow> manifest_at unmarshal s key = Some m \<longleftrightarrow>
     key = manifest_key (mf_event_id m) \<and> xs_saved unmarshal s (mf_event_id m) = Some m"
  using manifest_at_key [of unmarshal s key m] xs_saved_id [of unmarshal s] by (auto simp: xs_saved_def)

lemma xs_saved_finite: "xs_manifests_ok unmarshal s \<Longrightarrow> finite (dom (xs_saved unmarshal s))"
proof -
  assume ok: "xs_manifests_ok unmarshal s"
  have "dom (xs_saved unmarshal s) \<subseteq> manifest_key -` dom (xa_blobs s)"
    by (auto simp: xs_saved_def manifest_at_def split: option.splits)
  moreover have "finite (manifest_key -` dom (xa_blobs s))"
    using ok by (intro finite_vimageI) (auto simp: xs_manifests_ok_def inj_def)
  ultimately show ?thesis by (rule finite_subset)
qed

lemma distinct_map_filter:
  assumes "distinct ks" and "\<And>k k' m. f k = Some m \<Longrightarrow> f k' = Some m \<Longrightarrow> k = k'"
  shows "distinct (List.map_filter f ks)"
  using assms(1)
proof (induction ks)
  case (Cons k ks)
  have "the (f k) \<notin> (\<lambda>x. the (f x)) ` {x \<in> set ks. f x \<noteq> None}" if "f k \<noteq> None"
    using that Cons.prems assms(2) by (auto simp: image_iff) (metis option.sel)
  with Cons show ?case by (auto simp: List.map_filter_def comp_def)
qed (simp add: List.map_filter_def)

lemma xs_manifests_sorted:
  assumes ok: "xs_manifests_ok unmarshal s" and keys: "visits keys s"
  shows "go_sort (\<lambda>a b. mf_event_id a < mf_event_id b) (xs_manifests unmarshal keys s) =
    map (\<lambda>i. the (xs_saved unmarshal s i)) (sorted_list_of_set (dom (xs_saved unmarshal s)))"
    (is "_ = ?r")
proof -
  let ?ms = "xs_manifests unmarshal keys s" and ?f = "xs_saved unmarshal s"
  note idm = xs_saved_id [OF ok] and fin = xs_saved_finite [OF ok]
  have key: "key \<in> set keys" if "manifest_at unmarshal s key = Some m" for key m
    using that keys by (auto simp: manifest_at_def visits_def split: if_splits option.splits)
  have "set ?ms = {m. \<exists>key. manifest_at unmarshal s key = Some m}"
    using key by (force simp: xs_manifests_def List.map_filter_def)
  then have set_ms: "set ?ms = {m. ?f (mf_event_id m) = Some m}"
    using manifest_at_Some [OF ok] by auto
  have "k = k'" if "manifest_at unmarshal s k = Some m" "manifest_at unmarshal s k' = Some m" for k k' m
    using that by (simp add: manifest_at_Some [OF ok])
  then have dist: "distinct ?ms"
    using keys unfolding xs_manifests_def visits_def by (blast intro: distinct_map_filter)
  have ids: "map mf_event_id ?r = sorted_list_of_set (dom ?f)"
    using fin idm by (auto intro!: map_idI)
  have set_r: "set ?r = {m. ?f (mf_event_id m) = Some m}"
  proof (intro set_eqI iffI)
    fix m
    assume "m \<in> set ?r"
    with fin obtain i where "i \<in> dom ?f" "m = the (?f i)" by auto
    with idm [of i m] show "m \<in> {m. ?f (mf_event_id m) = Some m}" by auto
  next
    fix m
    assume "m \<in> {m. ?f (mf_event_id m) = Some m}"
    then have "mf_event_id m \<in> dom ?f" "m = the (?f (mf_event_id m))" by auto
    with fin show "m \<in> set ?r" by simp
  qed
  have dist_r: "distinct ?r"
    using ids by (metis distinct_map distinct_sorted_list_of_set)
  have "mset ?ms = mset ?r"
    using dist dist_r set_ms set_r by (simp only: set_eq_iff_mset_eq_distinct [symmetric])
  moreover have "inj_on mf_event_id (set ?ms)"
  proof (rule inj_onI)
    fix a b
    assume ab: "a \<in> set ?ms" "b \<in> set ?ms" and i: "mf_event_id a = mf_event_id b"
    from ab have "?f (mf_event_id a) = Some a" "?f (mf_event_id b) = Some b"
      unfolding set_ms by (simp_all only: mem_Collect_eq)
    with i show "a = b" by (metis option.inject)
  qed
  ultimately have "sort_key mf_event_id ?ms = sort_key mf_event_id ?r"
    by (intro sort_key_unique)
  also have "\<dots> = ?r"
    by (rule sort_key_id_if_sorted) (simp only: ids sorted_sorted_list_of_set)
  finally show ?thesis by (simp add: go_sort_key_eq)
qed

interpretation xsm: manifest_store xs_save_manifest "xs_load_manifest unmarshal" "xs_list_manifests unmarshal"
  "xs_saved unmarshal" "xs_manifests_ok unmarshal" "\<lambda>m. unmarshal (manifest_marshal m) = Inr m" visits
  for unmarshal
proof unfold_locales
  fix s m
  assume ok: "xs_manifests_ok unmarshal s" and rt: "unmarshal (manifest_marshal m) = Inr m"
  let ?s = "s\<lparr>xa_blobs := (xa_blobs s)(manifest_key (mf_event_id m) \<mapsto> manifest_marshal m)\<rparr>"
  have "xs_manifests_ok unmarshal ?s"
    using ok rt by (auto simp: xs_manifests_ok_def)
  moreover have "xs_saved unmarshal ?s = (xs_saved unmarshal s)(mf_event_id m \<mapsto> m)"
    using rt by (auto simp: xs_saved_def manifest_at_def)
  ultimately show "\<exists>s'. xs_save_manifest None m s = (None, s') \<and> xs_manifests_ok unmarshal s'
      \<and> xs_saved unmarshal s' = (xs_saved unmarshal s)(mf_event_id m \<mapsto> m)"
    by (simp add: xs_save_manifest_def)
next
  fix s i
  assume "xs_manifests_ok unmarshal s"
  from xs_saved_ok [OF this, of i] show "xs_load_manifest unmarshal None i s =
      (case xs_saved unmarshal s i of None \<Rightarrow> Inl be_ErrNotFound | Some m \<Rightarrow> Inr m)"
    by (cases "xa_blobs s (manifest_key i)") (auto simp: xs_load_manifest_def)
qed (auto simp: xs_save_manifest_def xs_load_manifest_def xs_list_manifests_def xs_manifests_sorted
    xs_saved_finite xs_saved_id)

subsection \<open>The two adapters, operation by operation\<close>

datatype store_op =
    AppendEvent ctx event
  | AppendBlob ctx string string
  | SaveManifest ctx manifest
  | SaveEvent ctx event_summary

fun mb_step :: "store_op \<Rightarrow> mem_backend \<Rightarrow> goerr option \<times> mem_backend" where
  "mb_step (AppendEvent c e) s = mb_append_event c e s"
| "mb_step (AppendBlob c ref p) s = mb_append_blob c ref p s"
| "mb_step (SaveManifest c m) s = mb_save_manifest c m s"
| "mb_step (SaveEvent c e) s = mb_save_event c e s"

fun xs_step :: "store_op \<Rightarrow> xs_adapter \<Rightarrow> goerr option \<times> xs_adapter" where
  "xs_step (AppendEvent c e) s = xs_append_event c e s"
| "xs_step (AppendBlob c ref p) s = xs_append_blob c ref p s"
| "xs_step (SaveManifest c m) s = xs_save_manifest c m s"
| "xs_step (SaveEvent c e) s = xs_save_event c e s"

fun run_ops :: "('a \<Rightarrow> 's \<Rightarrow> goerr option \<times> 's) \<Rightarrow> 'a list \<Rightarrow> 's \<Rightarrow> goerr option list \<times> 's" where
  "run_ops step [] s = ([], s)"
| "run_ops step (a # as) s =
     (let (err, s1) = step a s; (errs, s2) = run_ops step as s1 in (err # errs, s2))"

text \<open>The references under which the \<open>xs\<close> adapter keeps its own records.\<close>

definition reserved :: "string \<Rightarrow> bool" where
  "reserved ref \<longleftrightarrow> prefix ''manifest:'' ref \<or> prefix ''event:'' ref"

fun op_ok :: "(string \<Rightarrow> manifest result) \<Rightarrow> (string \<Rightarrow> event_summary result) \<Rightarrow> store_op \<Rightarrow> bool" where
  "op_ok dm de (AppendBlob c ref p) = (\<not> reserved ref)"
| "op_ok dm de (SaveManifest c m) = (dm (manifest_marshal m) = Inr m)"
| "op_ok dm de (SaveEvent c e) = (de (event_summary_marshal e) = Inr e)"
| "op_ok dm de (AppendEvent c e) = True"

definition stores_agree ::
  "(string \<Rightarrow> manifest result) \<Rightarrow> (string \<Rightarrow> event_summary result) \<Rightarrow> mem_backend \<Rightarrow> xs_adapter \<Rightarrow> bool" where
  "stores_agree dm de m x \<longleftrightarrow>
     mb_sessions m = xa_sessions x \<and> mb_by_id m = xa_by_id x
     \<and> (\<forall>ref. \<not> reserved ref \<longrightarrow> mb_blobs m ref = xa_blobs x ref)
     \<and> (\<forall>ref. reserved ref \<longrightarrow> mb_blobs m ref = None)
     \<and> (\<forall>i. map_option Inr (mb_events m i) = map_option de (xa_blobs x (event_key i)))
     \<and> map_of (mb_manifests m) = xs_saved dm x
     \<and> mb_manifests_ok m \<and> xs_manifests_ok dm x"

lemma reserved_keys [simp]: "reserved (manifest_key i)" "reserved (event_key i)"
  by (simp_all add: reserved_def manifest_key_def event_key_def)

lemma event_key_eq [simp]: "event_key i = event_key j \<longleftrightarrow> i = j"
  by (simp add: event_key_def)

lemma keys_differ [simp]: "event_key i \<noteq> manifest_key j" "manifest_key j \<noteq> event_key i"
  by (simp_all add: event_key_def manifest_key_def)

text \<open>A write outside the manifest keys leaves the manifests alone.\<close>

lemma xs_manifests_frame:
  assumes "\<And>i. xa_blobs s' (manifest_key i) = xa_blobs s (manifest_key i)"
    and "finite (dom (xa_blobs s)) \<Longrightarrow> finite (dom (xa_blobs s'))"
  shows "xs_saved dm s' = xs_saved dm s" and "xs_manifests_ok dm s \<Longrightarrow> xs_manifests_ok dm s'"
  using assms by (auto simp: xs_saved_def manifest_at_def xs_manifests_ok_def)

lemma stores_agree_event:
  assumes "stores_agree dm de m x"
  shows "fst (mb_append_event c e m) = fst (xs_append_event c e x)
    \<and> stores_agree dm de (snd (mb_append_event c e m)) (snd (xs_append_event c e x))"
proof -
  have "mb_manifests_ok (m\<lparr>mb_sessions := f, mb_by_id := g\<rparr>) = mb_manifests_ok m"
    "mb_manifests_ok (m\<lparr>mb_by_id := g\<rparr>) = mb_manifests_ok m"
    "xs_manifests_ok dm (x\<lparr>xa_sessions := f, xa_by_id := g\<rparr>) = xs_manifests_ok dm x"
    "xs_manifests_ok dm (x\<lparr>xa_by_id := g\<rparr>) = xs_manifests_ok dm x"
    "xs_saved dm (x\<lparr>xa_sessions := f, xa_by_id := g\<rparr>) = xs_saved dm x"
    "xs_saved dm (x\<lparr>xa_by_id := g\<rparr>) = xs_saved dm x" for f g
    by (simp_all add: mb_manifests_ok_def xs_manifests_ok_def xs_saved_def manifest_at_def fun_eq_iff)
  with assms show ?thesis
    by (auto simp: stores_agree_def mb_append_event_def xs_append_event_def Let_def split: option.split)
qed

lemma stores_agree_blob:
  assumes "stores_agree dm de m x" and "\<not> reserved ref"
  shows "fst (mb_append_blob c ref p m) = fst (xs_append_blob c ref p x)
    \<and> stores_agree dm de (snd (mb_append_blob c ref p m)) (snd (xs_append_blob c ref p x))"
proof -
  let ?x = "x\<lparr>xa_blobs := (xa_blobs x)(ref \<mapsto> p)\<rparr>"
  have ne: "manifest_key i \<noteq> ref" "event_key i \<noteq> ref" for i
    using assms(2) by auto
  have "xs_saved dm ?x = xs_saved dm x" "xs_manifests_ok dm x \<Longrightarrow> xs_manifests_ok dm ?x"
    by (rule xs_manifests_frame; simp add: ne)+
  with assms ne show ?thesis
    by (auto simp: stores_agree_def mb_append_blob_def xs_append_blob_def mb_manifests_ok_def
        split: option.split)
qed

lemma stores_agree_save_manifest:
  assumes agree: "stores_agree dm de m x" and rt: "dm (manifest_marshal mf) = Inr mf"
  shows "fst (mb_save_manifest c mf m) = fst (xs_save_manifest c mf x)
    \<and> stores_agree dm de (snd (mb_save_manifest c mf m)) (snd (xs_save_manifest c mf x))"
proof (cases c)
  case None
  from agree mbm.save_live [of m mf] obtain m' where
    m': "mb_save_manifest None mf m = (None, m')" "mb_manifests_ok m'"
      "map_of (mb_manifests m') = (map_of (mb_manifests m))(mf_event_id mf \<mapsto> mf)"
    by (auto simp: stores_agree_def)
  from agree rt xsm.save_live [of dm x mf] obtain x' where
    x': "xs_save_manifest None mf x = (None, x')" "xs_manifests_ok dm x'"
      "xs_saved dm x' = (xs_saved dm x)(mf_event_id mf \<mapsto> mf)"
    by (auto simp: stores_agree_def)
  have "mb_sessions m' = mb_sessions m" "mb_by_id m' = mb_by_id m" "mb_blobs m' = mb_blobs m"
    "mb_events m' = mb_events m"
    using m'(1) by (auto simp: mb_save_manifest_def)
  moreover have "xa_sessions x' = xa_sessions x" "xa_by_id x' = xa_by_id x"
    "xa_blobs x' = (xa_blobs x)(manifest_key (mf_event_id mf) \<mapsto> manifest_marshal mf)"
    using x'(1) by (auto simp: xs_save_manifest_def)
  ultimately show ?thesis
    using agree m' x' None by (auto simp: stores_agree_def)
next
  case (Some err)
  with agree show ?thesis by (simp add: mb_save_manifest_def xs_save_manifest_def)
qed

lemma stores_agree_save_event:
  assumes agree: "stores_agree dm de m x" and rt: "de (event_summary_marshal e) = Inr e"
  shows "fst (mb_save_event c e m) = fst (xs_save_event c e x)
    \<and> stores_agree dm de (snd (mb_save_event c e m)) (snd (xs_save_event c e x))"
proof -
  let ?x = "x\<lparr>xa_blobs := (xa_blobs x)(event_key (es_fingerprint e) \<mapsto> event_summary_marshal e)\<rparr>"
  have "xs_saved dm ?x = xs_saved dm x" "xs_manifests_ok dm x \<Longrightarrow> xs_manifests_ok dm ?x"
    using xs_manifests_frame [of ?x x] by auto
  with agree rt show ?thesis
    by (auto simp: stores_agree_def mb_save_event_def xs_save_event_def mb_manifests_ok_def
        split: option.split)
qed

lemma stores_agree_step:
  assumes "stores_agree dm de m x" and "op_ok dm de a"
  shows "fst (mb_step a m) = fst (xs_step a x) \<and> stores_agree dm de (snd (mb_step a m)) (snd (xs_step a x))"
  using assms
  by (cases a) (simp_all add: stores_agree_event stores_agree_blob stores_agree_save_manifest stores_agree_save_event)

lemma stores_agree_run:
  "stores_agree dm de m x \<Longrightarrow> list_all (op_ok dm de) ops \<Longrightarrow>
     fst (run_ops mb_step ops m) = fst (run_ops xs_step ops x)
     \<and> stores_agree dm de (snd (run_ops mb_step ops m)) (snd (run_ops xs_step ops x))"
proof (induction ops arbitrary: m x)
  case (Cons a ops)
  with stores_agree_step [of dm de m x a] Cons.IH [of "snd (mb_step a m)" "snd (xs_step a x)"]
  show ?case by (simp add: split_def Let_def)
qed simp

lemma stores_agree_new: "stores_agree dm de new_mem_backend (new_xs_adapter cfg)"
  by (auto simp: stores_agree_def new_mem_backend_def new_xs_adapter_def mb_manifests_ok_def
      xs_manifests_ok_def xs_saved_def manifest_at_def)

lemma stores_agree_streams:
  assumes "stores_agree dm de m x" and "visits keys x"
  shows "mset (fst (mb_stream_manifests m)) = mset (fst (xs_stream_manifests dm keys None n x))"
proof -
  have ok: "mb_manifests_ok m" "xs_manifests_ok dm x" and eq: "map_of (mb_manifests m) = xs_saved dm x"
    using assms(1) by (simp_all add: stores_agree_def)
  have "mset (fst (mb_stream_manifests m)) = mset (mb_sorted_manifests m)"
    using ok(1) by (simp add: mb_stream_manifests_def mset_mb_sorted_manifests mb_manifests_ok_def)
  also have "mb_sorted_manifests m =
      go_sort (\<lambda>a b. mf_event_id a < mf_event_id b) (xs_manifests dm keys x)"
    using ok eq assms(2) by (simp add: mb_sorted_manifests_eq mb_manifests_ok_def xs_manifests_sorted)
  finally show ?thesis by (simp add: xs_stream_manifests_def deliver_def)
qed

lemma xs_records_are_blobs:
  "xs_load_manifest dm None i x = Inr mf \<Longrightarrow> \<exists>p. xs_fetch_blob None (manifest_key i) x = Inr p \<and> dm p = Inr mf"
  "xs_load_event de None i x = Inr e \<Longrightarrow> \<exists>p. xs_fetch_blob None (event_key i) x = Inr p \<and> de p = Inr e"
  by (auto simp: xs_load_manifest_def xs_load_event_def xs_fetch_blob_def split: option.splits sum.splits)

text \<open>
  C26. The two adapters implement one interface: fed the same sequence of events, blobs, manifests and
  event summaries from empty stores, valid or not, duplicated or not, they return the same errors and
  then answer alike: sessions, branches, events, blobs, manifests, event summaries, every
  page of the manifests whatever order the map is visited in, and the streams up to order. This holds if
  no blob is stored under the prefixes \<open>manifest:\<close> and \<open>event:\<close>, which the xs adapter reserves, and if the
  manifests and summaries survive \<open>encoding/json\<close>. Fetching a blob under a reserved reference is where they
  differ: the in-memory backend never has one, while the xs adapter gives out its saved manifests and
  summaries as blobs.
\<close>

theorem adapters_answer_alike:
  assumes "list_all (op_ok dm de) ops"
  shows "case run_ops mb_step ops new_mem_backend of (errs, m) \<Rightarrow>
         case run_ops xs_step ops (new_xs_adapter cfg) of (errs', x) \<Rightarrow>
      errs = errs'
      \<and> mb_list_session c sid m = xs_list_session c sid x
      \<and> mb_list_branch c sid bid m = xs_list_branch c sid bid x
      \<and> mb_get_event c sid eid m = xs_get_event c sid eid x
      \<and> (\<not> reserved ref \<longrightarrow> mb_fetch_blob c ref m = xs_fetch_blob c ref x)
      \<and> mb_load_manifest c i m = xs_load_manifest dm c i x
      \<and> mb_load_event c i m = xs_load_event de c i x
      \<and> (reserved ref \<longrightarrow> mb_fetch_blob None ref m = Inl be_ErrBlobNotFound)
      \<and> (mb_load_manifest None i m = Inr mf \<longrightarrow> (\<exists>p. xs_fetch_blob None (manifest_key i) x = Inr p \<and> dm p = Inr mf))
      \<and> (mb_load_event None i m = Inr ev \<longrightarrow> (\<exists>p. xs_fetch_blob None (event_key i) x = Inr p \<and> de p = Inr ev))
      \<and> (visits keys x \<longrightarrow>
           mb_list_manifests c limit offset m = xs_list_manifests dm keys c limit offset x
           \<and> mset (fst (mb_stream_manifests m)) = mset (fst (xs_stream_manifests dm keys None n x)))"
proof -
  define m where "m = snd (run_ops mb_step ops new_mem_backend)"
  define x where "x = snd (run_ops xs_step ops (new_xs_adapter cfg))"
  have errs: "fst (run_ops mb_step ops new_mem_backend) = fst (run_ops xs_step ops (new_xs_adapter cfg))"
    and agree: "stores_agree dm de m x"
    using stores_agree_run [OF stores_agree_new assms] by (simp_all add: m_def x_def)
  have ok: "mb_manifests_ok m" "xs_manifests_ok dm x" "map_of (mb_manifests m) = xs_saved dm x"
    using agree by (simp_all add: stores_agree_def)
  note mans = manifest_stores_answer [OF mbm.manifest_store_axioms xsm.manifest_store_axioms ok]
  have reads: "map_option Inr (mb_events m i) = map_option de (xa_blobs x (event_key i))"
    "\<not> reserved ref \<Longrightarrow> mb_blobs m ref = xa_blobs x ref" "reserved ref \<Longrightarrow> mb_blobs m ref = None"
    "mb_sessions m = xa_sessions x" "mb_by_id m = xa_by_id x"
    using agree by (simp_all add: stores_agree_def)
  have events: "mb_load_event c i m = xs_load_event de c i x" for c
    using reads(1)
    by (cases "mb_events m i"; cases "xa_blobs x (event_key i)")
      (auto simp: mb_load_event_def xs_load_event_def dest: sym split: option.split)
  from ok(2) have "finite (dom (xa_blobs x))" by (simp add: xs_manifests_ok_def)
  then obtain ks where "visits ks x" by (metis finite_distinct_list visits_def)
  with mans(1) have manifests: "mb_load_manifest c i m = xs_load_manifest dm c i x" for c by simp
  have "visits keys x \<Longrightarrow> mb_list_manifests c limit offset m = xs_list_manifests dm keys c limit offset x"
    using mans(2) by simp
  moreover have "mb_list_session c sid m = xs_list_session c sid x"
    "mb_list_branch c sid bid m = xs_list_branch c sid bid x"
    "mb_get_event c sid eid m = xs_get_event c sid eid x"
    "\<not> reserved ref \<Longrightarrow> mb_fetch_blob c ref m = xs_fetch_blob c ref x"
    using reads by (simp_all add: mb_list_session_def xs_list_session_def mb_list_branch_def xs_list_branch_def
        mb_get_event_def xs_get_event_def mb_fetch_blob_def xs_fetch_blob_def split: option.split)
  moreover have "reserved ref \<Longrightarrow> mb_fetch_blob None ref m = Inl be_ErrBlobNotFound"
    using reads(3) by (simp add: mb_fetch_blob_def)
  ultimately show ?thesis
    using errs stores_agree_streams [OF agree] events manifests
      xs_records_are_blobs(1) [of dm i x mf] xs_records_are_blobs(2) [of de i x ev]
    by (simp add: split_def flip: m_def x_def)
qed

text \<open>
  The versioned serializer accepts exactly the current versions, on both sides, and what it encodes it
  decodes: a manifest (an event summary) is encoded exactly if its version is the current one, decoding
  the bytes gives it back, and decoding never yields a manifest or summary of another version.
\<close>

theorem serializer_roundtrip:
  assumes "dm (manifest_marshal m) = Inr m" and "de (event_summary_marshal e) = Inr e"
  shows "(case encode_manifest m of
            Inr data \<Rightarrow> mf_version m = SerializerVersionV1 \<and> decode_manifest dm data = Inr m
          | Inl err \<Rightarrow> mf_version m \<noteq> SerializerVersionV1 \<and> decode_manifest dm (manifest_marshal m) = Inl err)
    \<and> (case encode_event_summary e of
            Inr data \<Rightarrow> es_schema e = EventSchemaVersionV1 \<and> es_serializer e \<in> {[], SerializerVersionV1}
              \<and> decode_event_summary de data = Inr e
          | Inl err \<Rightarrow> (es_schema e \<noteq> EventSchemaVersionV1 \<or> es_serializer e \<notin> {[], SerializerVersionV1})
              \<and> decode_event_summary de (event_summary_marshal e) = Inl err)
    \<and> (case decode_manifest dm any of Inr m' \<Rightarrow> mf_version m' = SerializerVersionV1 \<and> dm any = Inr m'
       | Inl err \<Rightarrow> True)
    \<and> (case decode_event_summary de any of
         Inr e' \<Rightarrow> es_schema e' = EventSchemaVersionV1 \<and> es_serializer e' \<in> {[], SerializerVersionV1} \<and> de any = Inr e'
       | Inl err \<Rightarrow> True)"
proof (intro conjI)
  show "case encode_manifest m of
            Inr data \<Rightarrow> mf_version m = SerializerVersionV1 \<and> decode_manifest dm data = Inr m
          | Inl err \<Rightarrow> mf_version m \<noteq> SerializerVersionV1 \<and> decode_manifest dm (manifest_marshal m) = Inl err"
    using assms(1) by (simp add: encode_manifest_def decode_manifest_def)
  show "case encode_event_summary e of
            Inr data \<Rightarrow> es_schema e = EventSchemaVersionV1 \<and> es_serializer e \<in> {[], SerializerVersionV1}
              \<and> decode_event_summary de data = Inr e
          | Inl err \<Rightarrow> (es_schema e \<noteq> EventSchemaVersionV1 \<or> es_serializer e \<notin> {[], SerializerVersionV1})
              \<and> decode_event_summary de (event_summary_marshal e) = Inl err"
    using assms(2) by (simp add: encode_event_summary_def decode_event_summary_def event_version_error_def)
qed (simp_all add: decode_manifest_def decode_event_summary_def event_version_error_def split: sum.split)

subsection \<open>The in-memory store of package review\<close>

text \<open>\<open>events\<close> is a map, kept as an association list; \<open>manifests\<close> holds only identifiers.\<close>

record review_store =
  rv_events :: "(string \<times> event_summary) list"
  rv_manifests :: "manifest list"

definition rv_ErrNotFound :: goerr where
  "rv_ErrNotFound = Sentinel ''review.ErrNotFound'' ''not found''"

definition new_review_store :: review_store where
  "new_review_store = \<lparr>rv_events = [], rv_manifests = []\<rparr>"

text \<open>\<open>consult.Manifest{EventID: i}\<close>.\<close>

definition bare_manifest :: "string \<Rightarrow> manifest" where
  "bare_manifest i = \<lparr>mf_event_id = i, mf_session = [], mf_branch = [], mf_fingerprint = [], mf_mode = [],
     mf_scope = [], mf_refs = [], mf_constraints = [], mf_items = [], mf_budget = 0, mf_actual = 0,
     mf_compacted = False, mf_truncated = False, mf_version = [], mf_task = [], mf_selection = None\<rparr>"

definition rv_add :: "event_summary \<Rightarrow> review_store \<Rightarrow> review_store" where
  "rv_add e s = s\<lparr>rv_events := AList.update (es_fingerprint e) e (rv_events s),
     rv_manifests := rv_manifests s @ [bare_manifest (es_fingerprint e)]\<rparr>"

definition rv_save_event :: "ctx \<Rightarrow> event_summary \<Rightarrow> review_store \<Rightarrow> goerr option \<times> review_store" where
  "rv_save_event c e s = (case c of Some err \<Rightarrow> (Some err, s) | None \<Rightarrow> (None, rv_add e s))"

definition rv_list_manifests :: "ctx \<Rightarrow> int \<Rightarrow> int \<Rightarrow> review_store \<Rightarrow> manifest list result option" where
  "rv_list_manifests c limit offset s =
     (case c of Some err \<Rightarrow> Some (Inl err)
      | None \<Rightarrow> map_option Inr (paginate (rv_manifests s) limit offset))"

definition rv_get_event :: "ctx \<Rightarrow> string \<Rightarrow> review_store \<Rightarrow> event_summary result" where
  "rv_get_event c fp s =
     (case c of Some err \<Rightarrow> Inl err | None \<Rightarrow>
      case map_of (rv_events s) fp of None \<Rightarrow> Inl rv_ErrNotFound | Some e \<Rightarrow> Inr e)"

definition rv_stream_manifests :: "ctx \<Rightarrow> nat \<Rightarrow> review_store \<Rightarrow> manifest list \<times> goerr option" where
  "rv_stream_manifests c sent s = deliver c sent (rv_manifests s)"

definition rv_add_test_events :: "event_summary list \<Rightarrow> review_store \<Rightarrow> review_store" where
  "rv_add_test_events es s = fold rv_add es s"

definition rv_count :: "review_store \<Rightarrow> nat" where
  "rv_count s = length (rv_events s)"

definition create_test_event :: "string \<Rightarrow> string \<Rightarrow> string \<Rightarrow> event_summary" where
  "create_test_event eid model_name status =
     \<lparr>es_schema = EventSchemaVersionV1, es_fingerprint = eid, es_contract = [],
      es_serializer = SerializerVersionV1, es_outcome = status, es_role = RoleLeader, es_leader_event = [],
      es_budget = 14336, es_actual = 640, es_task = ''test task'', es_missing = [], es_selection = None\<rparr>"

subsection \<open>The review service\<close>

record 's consult_store_ops =
  cs_list :: "ctx \<Rightarrow> int \<Rightarrow> int \<Rightarrow> 's \<Rightarrow> manifest list result option"
  cs_get :: "ctx \<Rightarrow> string \<Rightarrow> 's \<Rightarrow> event_summary result"
  cs_stream :: "ctx \<Rightarrow> nat \<Rightarrow> 's \<Rightarrow> manifest list \<times> goerr option"

definition list_recent :: "'s consult_store_ops \<Rightarrow> ctx \<Rightarrow> int \<Rightarrow> 's \<Rightarrow> manifest list result option" where
  "list_recent ops c limit s = cs_list ops c (if limit \<le> 0 then 20 else limit) 0 s"

definition show_event :: "'s consult_store_ops \<Rightarrow> ctx \<Rightarrow> string \<Rightarrow> 's \<Rightarrow> event_summary result" where
  "show_event ops c eid s = cs_get ops c eid s"

text \<open>
  The writer is an operation on a state \<open>'w\<close> of its own. \<open>Export\<close> writes one line for each manifest that
  the stream delivers and stops at the first that fails; marshalling a summary does not fail.
\<close>

fun export_loop ::
  "'s consult_store_ops \<Rightarrow> ctx \<Rightarrow> (string \<Rightarrow> 'w \<Rightarrow> goerr option \<times> 'w) \<Rightarrow> 's \<Rightarrow> manifest list \<Rightarrow> 'w
    \<Rightarrow> goerr option \<times> 'w" where
  "export_loop ops c write s [] w = (None, w)"
| "export_loop ops c write s (m # ms) w =
     (case cs_get ops c (mf_event_id m) s of
        Inl err \<Rightarrow> (Some (Wrapped (''export: event '' @ mf_event_id m @ '': '' @ err_msg err) err), w)
      | Inr e \<Rightarrow>
        (case write (event_summary_marshal e @ newline) w of
           (Some err, w1) \<Rightarrow> (Some err, w1)
         | (None, w1) \<Rightarrow> export_loop ops c write s ms w1))"

definition export_events ::
  "'s consult_store_ops \<Rightarrow> ctx \<Rightarrow> nat \<Rightarrow> (string \<Rightarrow> 'w \<Rightarrow> goerr option \<times> 'w) \<Rightarrow> 's \<Rightarrow> 'w
    \<Rightarrow> goerr option \<times> 'w" where
  "export_events ops c sent write s w =
     (let (ms, err) = cs_stream ops c sent s in
      case export_loop ops c write s ms w of
        (Some e, w1) \<Rightarrow> (Some e, w1)
      | (None, w1) \<Rightarrow> (err, w1))"

definition review_ops :: "review_store consult_store_ops" where
  "review_ops = \<lparr>cs_list = rv_list_manifests, cs_get = rv_get_event, cs_stream = rv_stream_manifests\<rparr>"

subsection \<open>The contract of a consult store\<close>

text \<open>
  \<open>history s\<close> are the identifiers in the order of the stream, \<open>record_of s\<close> the record of each. The
  first locale is what \<open>Export\<close> relies on; the second adds the paging that \<open>ListRecent\<close> relies on.
\<close>

locale consult_store =
  fixes ops :: "'s consult_store_ops"
    and history :: "'s \<Rightarrow> string list"
    and record_of :: "'s \<Rightarrow> string \<Rightarrow> event_summary option"
    and valid :: "'s \<Rightarrow> bool"
  assumes stream_live: "valid s \<Longrightarrow> \<exists>ms. cs_stream ops None n s = (ms, None) \<and> map mf_event_id ms = history s"
    and get_live: "valid s \<Longrightarrow> record_of s i = Some e \<Longrightarrow> cs_get ops None i s = Inr e"
    and recorded: "valid s \<Longrightarrow> i \<in> set (history s) \<Longrightarrow> \<exists>e. record_of s i = Some e"
begin

fun write_all :: "(string \<Rightarrow> 'w \<Rightarrow> goerr option \<times> 'w) \<Rightarrow> string list \<Rightarrow> 'w \<Rightarrow> goerr option \<times> 'w" where
  "write_all write [] w = (None, w)"
| "write_all write (l # ls) w =
     (case write l w of (Some err, w1) \<Rightarrow> (Some err, w1) | (None, w1) \<Rightarrow> write_all write ls w1)"

definition export_lines :: "'s \<Rightarrow> string list" where
  "export_lines s = map (\<lambda>i. event_summary_marshal (the (record_of s i)) @ newline) (history s)"

lemma export_loop_lines:
  assumes "valid s"
  shows "\<forall>m \<in> set ms. \<exists>e. record_of s (mf_event_id m) = Some e \<Longrightarrow>
    export_loop ops None write s ms w =
      write_all write (map (\<lambda>m. event_summary_marshal (the (record_of s (mf_event_id m))) @ newline) ms) w"
proof (induction ms arbitrary: w)
  case (Cons m ms)
  then obtain e where e: "record_of s (mf_event_id m) = Some e" by auto
  with Cons get_live [OF assms e] show ?case by (simp split: prod.split option.split)
qed simp

lemma export_writes_lines:
  assumes "valid s"
  shows "export_events ops None n write s w = write_all write (export_lines s) w"
proof -
  obtain ms where ms: "cs_stream ops None n s = (ms, None)" "map mf_event_id ms = history s"
    using stream_live [OF assms] by blast
  have "\<forall>m \<in> set ms. \<exists>e. record_of s (mf_event_id m) = Some e"
    using recorded [OF assms] by (simp flip: ms(2))
  note lines = export_loop_lines [OF assms this, of _ w]
  let ?r = "export_loop ops None write s ms w"
  have "export_events ops None n write s w = ?r"
    by (cases ?r; cases "fst ?r") (simp_all add: export_events_def ms(1))
  also have "\<dots> = write_all write (export_lines s) w"
    unfolding lines by (simp add: export_lines_def comp_def flip: ms(2))
  finally show ?thesis .
qed

end

locale paged_consult_store = consult_store ops history record_of valid
  for ops :: "'s consult_store_ops" and history record_of valid +
  assumes list_live:
    "valid s \<Longrightarrow> \<exists>ms. map mf_event_id ms = history s
       \<and> (\<forall>limit offset. cs_list ops None limit offset s = map_option Inr (paginate ms limit offset))"
begin

lemma list_recent_first:
  assumes "valid s" and "int (length (history s)) < 2 ^ 62" and "limit < 2 ^ 62"
  shows "\<exists>ms. list_recent ops None limit s = Some (Inr ms)
    \<and> map mf_event_id ms = take (if limit \<le> 0 then 20 else nat limit) (history s)"
proof -
  from list_live [OF assms(1)] obtain ms where ms: "map mf_event_id ms = history s"
    "\<And>l. cs_list ops None l 0 s = map_option Inr (paginate ms l 0)" by blast
  let ?l = "if limit \<le> 0 then 20 else limit"
  have "length ms = length (history s)" using ms(1) by (metis length_map)
  with assms have "paginate ms ?l 0 = Some (take (nat ?l) (drop (nat 0) ms))"
    by (intro paginate_page) auto
  with ms show ?thesis
    by (intro exI [of _ "take (nat ?l) ms"]) (auto simp: list_recent_def simp flip: take_map ms(1))
qed

end

definition review_ok :: "review_store \<Rightarrow> bool" where
  "review_ok s \<longleftrightarrow> set (map mf_event_id (rv_manifests s)) \<subseteq> fst ` set (rv_events s)"

lemma review_ok_add: "review_ok s \<Longrightarrow> review_ok (rv_add e s)"
  by (auto simp: review_ok_def rv_add_def bare_manifest_def dom_update)

interpretation rvs: paged_consult_store review_ops "\<lambda>s. map mf_event_id (rv_manifests s)"
  "\<lambda>s. map_of (rv_events s)" review_ok
proof unfold_locales
  fix s i
  assume "review_ok s" "i \<in> set (map mf_event_id (rv_manifests s))"
  then have "i \<in> fst ` set (rv_events s)" unfolding review_ok_def by blast
  then have "map_of (rv_events s) i \<noteq> None" by (simp add: map_of_eq_None_iff)
  then show "\<exists>e. map_of (rv_events s) i = Some e" by blast
next
  fix s
  show "\<exists>ms. map mf_event_id ms = map mf_event_id (rv_manifests s)
       \<and> (\<forall>limit offset. cs_list review_ops None limit offset s = map_option Inr (paginate ms limit offset))"
    by (intro exI [of _ "rv_manifests s"]) (simp add: review_ops_def rv_list_manifests_def)
qed (auto simp: review_ops_def rv_stream_manifests_def deliver_def rv_get_event_def)

subsection \<open>What a review shows\<close>

lemma rv_events_added:
  "map_of (rv_events (fold rv_add es s)) =
     map_of (rv_events s) ++ map_of (rev (map (\<lambda>e. (es_fingerprint e, e)) es))"
proof (induction es arbitrary: s)
  case (Cons e es)
  show ?case
    unfolding fold.simps comp_apply Cons.IH
    by (simp add: rv_add_def update_conv' map_add_assoc [symmetric] map_add_upd)
qed simp

lemma rv_manifests_added:
  "map mf_event_id (rv_manifests (fold rv_add es s)) =
     map mf_event_id (rv_manifests s) @ map es_fingerprint es"
  by (induction es arbitrary: s) (simp_all add: rv_add_def bare_manifest_def)

lemma review_ok_added: "review_ok s \<Longrightarrow> review_ok (fold rv_add es s)"
  by (induction es arbitrary: s) (simp_all add: review_ok_add)

lemma rv_keys_added:
  "distinct (map fst (rv_events s)) \<Longrightarrow> distinct (map fst (rv_events (fold rv_add es s)))"
  by (induction es arbitrary: s) (simp_all add: rv_add_def distinct_update)

lemma rv_saves: "run_ops (rv_save_event None) es s = (map (\<lambda>e. None) es, rv_add_test_events es s)"
  by (induction es arbitrary: s) (simp_all add: rv_save_event_def rv_add_test_events_def)

lemma write_all_append: "rvs.write_all (\<lambda>l out. (None, out @ l)) ls out = (None, out @ concat ls)"
  by (induction ls arbitrary: out) simp_all

text \<open>The summary that was saved last under the fingerprint of \<open>e\<close>.\<close>

definition latest :: "event_summary list \<Rightarrow> event_summary \<Rightarrow> event_summary" where
  "latest es e = the (map_of (rev (map (\<lambda>e. (es_fingerprint e, e)) es)) (es_fingerprint e))"

text \<open>
  What the review of an in-memory store shows after any sequence of saves: the export has one line for
  each save, in the order of the saves, each with the summary that was saved last under that fingerprint
  (so a fingerprint saved twice is listed twice, both times with the newer summary); showing a fingerprint
  gives that same summary; the count is the number of different fingerprints; and the list of recent
  records is the first, the oldest, of the saves.
\<close>

theorem review_shows_saves:
  assumes "int (length es) < 2 ^ 62" and "limit < 2 ^ 62"
  shows "case run_ops (rv_save_event None) es new_review_store of (errs, s) \<Rightarrow>
      list_all (\<lambda>err. err = None) errs
      \<and> export_events review_ops None n (\<lambda>l out. (None, out @ l)) s [] =
          (None, concat (map (\<lambda>e. event_summary_marshal (latest es e) @ newline) es))
      \<and> list_all (\<lambda>e. show_event review_ops None (es_fingerprint e) s = Inr (latest es e)) es
      \<and> rv_count s = card (es_fingerprint ` set es)
      \<and> (case list_recent review_ops None limit s of
           Some (Inr ms) \<Rightarrow> map mf_event_id ms = take (if limit \<le> 0 then 20 else nat limit) (map es_fingerprint es)
         | _ \<Rightarrow> False)"
proof -
  define s where "s = fold rv_add es new_review_store"
  have s: "run_ops (rv_save_event None) es new_review_store = (map (\<lambda>e. None) es, s)"
    by (simp add: rv_saves rv_add_test_events_def s_def)
  have ok: "review_ok s"
    unfolding s_def by (rule review_ok_added) (simp add: review_ok_def new_review_store_def)
  have evs: "map_of (rv_events s) = map_of (rev (map (\<lambda>e. (es_fingerprint e, e)) es))"
    by (simp add: s_def rv_events_added new_review_store_def)
  have ids: "map mf_event_id (rv_manifests s) = map es_fingerprint es"
    by (simp add: s_def rv_manifests_added new_review_store_def)
  have known: "\<exists>e'. map_of (rv_events s) (es_fingerprint e) = Some e'" if "e \<in> set es" for e
    using rvs.recorded [OF ok, of "es_fingerprint e"] that ids by simp
  have shown: "show_event review_ops None (es_fingerprint e) s = Inr (latest es e)" if "e \<in> set es" for e
    using known [OF that] rvs.get_live [OF ok, of "es_fingerprint e"]
    by (auto simp: show_event_def latest_def evs)
  have "distinct (map fst (rv_events s))"
    unfolding s_def by (rule rv_keys_added) (simp add: new_review_store_def)
  then have "rv_count s = card (set (map fst (rv_events s)))"
    by (simp only: rv_count_def distinct_card length_map)
  also have "\<dots> = card (dom (map_of (rv_events s)))"
    by (simp add: dom_map_of_conv_image_fst)
  also have "dom (map_of (rv_events s)) = es_fingerprint ` set es"
    by (simp add: evs dom_map_of_conv_image_fst image_image)
  finally have count: "rv_count s = card (es_fingerprint ` set es)" .
  have export: "export_events review_ops None n (\<lambda>l out. (None, out @ l)) s [] =
      (None, concat (map (\<lambda>e. event_summary_marshal (latest es e) @ newline) es))"
    unfolding rvs.export_writes_lines [OF ok] write_all_append rvs.export_lines_def ids
    by (simp add: comp_def latest_def evs)
  have "int (length (map mf_event_id (rv_manifests s))) < 2 ^ 62"
    using assms(1) by (simp add: ids)
  from rvs.list_recent_first [OF ok this assms(2)] export shown count show ?thesis
    by (auto simp: s ids list_all_iff)
qed

subsection \<open>Instances\<close>

definition sample_summary :: "string \<Rightarrow> event_summary" where
  "sample_summary i = create_test_event i ''m'' ''ok''"

definition sample_dm :: "string \<Rightarrow> manifest result" where
  "sample_dm d = (if d = manifest_marshal (bare_manifest ''c'') then Inr (bare_manifest ''c'')
     else Inl (Adhoc ''invalid character''))"

definition sample_de :: "string \<Rightarrow> event_summary result" where
  "sample_de d = (if d = event_summary_marshal (sample_summary ''f'') then Inr (sample_summary ''f'')
     else Inl (Adhoc ''invalid character''))"

theorem adapters_answer_alike_witness:
  "let ops = [AppendBlob None ''r'' ''x'', SaveManifest None (bare_manifest ''c''), SaveEvent None (sample_summary ''f'')];
       m = snd (run_ops mb_step ops new_mem_backend);
       x = snd (run_ops xs_step ops (new_xs_adapter \<lparr>xc_command = [], xc_health_args = []\<rparr>))
   in mb_load_manifest None ''c'' m = xs_load_manifest sample_dm None ''c'' x
      \<and> mb_load_event None ''f'' m = xs_load_event sample_de None ''f'' x
      \<and> mb_list_manifests None 0 0 m =
          xs_list_manifests sample_dm [''event:f'', ''manifest:c'', ''r''] None 0 0 x"
proof -
  let ?ops = "[AppendBlob None ''r'' ''x'', SaveManifest None (bare_manifest ''c''), SaveEvent None (sample_summary ''f'')]"
  let ?cfg = "\<lparr>xc_command = [], xc_health_args = []\<rparr>"
  let ?x = "snd (run_ops xs_step ?ops (new_xs_adapter ?cfg))"
  have ok: "list_all (op_ok sample_dm sample_de) ?ops"
    by (simp add: reserved_def sample_dm_def sample_de_def)
  have "dom (xa_blobs ?x) = {''r'', ''manifest:c'', ''event:f''}"
    by (auto simp: xs_append_blob_def xs_save_manifest_def xs_save_event_def new_xs_adapter_def
        manifest_key_def event_key_def bare_manifest_def sample_summary_def create_test_event_def)
  then have "visits [''event:f'', ''manifest:c'', ''r''] ?x"
    by (auto simp: visits_def)
  with adapters_answer_alike [OF ok, where cfg = ?cfg and c = None and i = "''c''" and keys = "[''event:f'', ''manifest:c'', ''r'']"
      and limit = 0 and offset = 0]
    adapters_answer_alike [OF ok, where cfg = ?cfg and c = None and i = "''f''"]
  show ?thesis unfolding Let_def split_def by blast
qed

theorem serializer_roundtrip_witness:
  "case encode_event_summary (sample_summary ''f'') of
     Inl err \<Rightarrow> False | Inr data \<Rightarrow> decode_event_summary sample_de data = Inr (sample_summary ''f'')"
proof -
  have "encode_event_summary (sample_summary ''f'') = Inr (event_summary_marshal (sample_summary ''f''))"
    by (simp add: encode_event_summary_def event_version_error_def sample_summary_def create_test_event_def)
  moreover have "sample_dm (manifest_marshal (bare_manifest ''c'')) = Inr (bare_manifest ''c'')"
    "sample_de (event_summary_marshal (sample_summary ''f'')) = Inr (sample_summary ''f'')"
    by (simp_all add: sample_dm_def sample_de_def)
  ultimately show ?thesis
    using serializer_roundtrip [of sample_dm "bare_manifest ''c''" sample_de "sample_summary ''f''" "[]"] by simp
qed

text \<open>With 21 records the most recent one is not among the recent ones.\<close>

theorem review_shows_saves_witness:
  "case list_recent review_ops None 0
      (snd (run_ops (rv_save_event None) (map (\<lambda>k. sample_summary [char_of k]) [0..<21]) new_review_store)) of
     Some (Inr ms) \<Rightarrow> map mf_event_id ms = map (\<lambda>k. [char_of k]) [0..<20]
   | _ \<Rightarrow> False"
proof -
  let ?es = "map (\<lambda>k. sample_summary [char_of k]) [0..<21 :: nat]"
  have "map es_fingerprint ?es = map (\<lambda>k. [char_of k]) [0..<21]"
    by (simp add: sample_summary_def create_test_event_def comp_def)
  moreover have "take 20 (map (\<lambda>k. [char_of k :: char]) [0..<21 :: nat]) = map (\<lambda>k. [char_of k]) [0..<20]"
    by (simp add: take_map)
  ultimately show ?thesis
    using review_shows_saves [of ?es 0 0]
    by (simp add: split_def del: upt_conv_Cons map_map split: option.splits sum.splits)
qed

end
