(* ===== verification/FastAdapters.thy ===== *)
theory FastAdapters
  imports FastExtract Compactor
begin

text \<open>
  \<open>internal/preprocess/groq.go\<close> and \<open>needle.go\<close>: the two fast models of the preprocessor. The Groq adapter
  makes one HTTP call per message; the environment, \<open>net/http\<close> and the decoding of the envelope are
  parameters. The Needle adapter drives one long-lived bridge process over its pipes, one line out and one
  line in per call; the operating system and the process are parameters, and what the adapter makes of
  their answers is modelled.
\<close>

subsection \<open>The schema of an extraction\<close>

definition schema_of :: "string \<Rightarrow> goval" where
  "schema_of t = VMap [(''type'', VStr t)]"

definition enum_schema :: "string list \<Rightarrow> goval" where
  "enum_schema vs = VMap [(''type'', VStr ''string''), (''enum'', VStrs vs)]"

definition array_schema :: "goval \<Rightarrow> goval" where
  "array_schema items = VMap [(''type'', VStr ''array''), (''items'', items)]"

definition entity_schema :: goval where
  "entity_schema = VMap
     [(''type'', VStr ''object''),
      (''properties'', VMap
        [(''name'', schema_of ''string''),
         (''type'', enum_schema [''project'', ''person'', ''tool'', ''file'', ''session'', ''branch'']),
         (''confidence'', schema_of ''number''),
         (''match_type'', enum_schema [''exact'', ''fuzzy'', ''inferred''])]),
      (''required'', VStrs [''name'', ''type'', ''confidence'', ''match_type'']),
      (''additionalProperties'', VBool False)]"

definition extraction_json_schema :: goval where
  "extraction_json_schema = VMap
     [(''type'', VStr ''object''),
      (''properties'', VMap
        [(''intent'', enum_schema [''question'', ''command'', ''status_update'', ''artifact_share'', ''conversation'',
            ''correction'', ''unknown'']),
         (''intent_confidence'', schema_of ''number''),
         (''entities'', array_schema entity_schema),
         (''topics'', array_schema (enum_schema [''code'', ''debugging'', ''planning'', ''infra'', ''data'', ''review'',
            ''meta'', ''general''])),
         (''sentiment'', enum_schema [''neutral'', ''positive'', ''frustrated'', ''urgent'']),
         (''sentiment_confidence'', schema_of ''number''),
         (''summary'', VMap [(''type'', VStr ''string''), (''maxLength'', VInt 200)]),
         (''flags'', array_schema (enum_schema [''uncertain'', ''multi_intent'', ''ambiguous_entity'',
            ''low_confidence'', ''needs_review'']))]),
      (''required'', VStrs [''intent'', ''intent_confidence'', ''entities'', ''topics'', ''sentiment'',
         ''sentiment_confidence'', ''summary'', ''flags'']),
      (''additionalProperties'', VBool False)]"

subsection \<open>The Groq adapter\<close>

definition groq_endpoint :: string where
  "groq_endpoint = ''https://api.groq.com/openai/v1/chat/completions''"
definition groq_default_model :: string where "groq_default_model = ''openai/gpt-oss-20b''"
definition groq_default_temp :: rat where "groq_default_temp = 1 / 10"

record groq_config =
  gq_api_key :: string
  gq_model :: string
  gq_temperature :: rat
  gq_max_tokens :: int
  gq_strict :: "bool option"

definition new_groq_adapter :: "(string \<Rightarrow> string) \<Rightarrow> groq_config \<Rightarrow> groq_config result" where
  "new_groq_adapter getenv cfg0 =
     (let cfg = (if gq_api_key cfg0 = [] then cfg0\<lparr>gq_api_key := getenv ''GROQ_API_KEY''\<rparr> else cfg0) in
      if gq_api_key cfg = []
      then Inl (Adhoc ''groq: API key required (set GROQ_API_KEY or pass in config)'')
      else
        let cfg1 = (if gq_model cfg = [] then cfg\<lparr>gq_model := groq_default_model\<rparr> else cfg);
            cfg2 = (if gq_temperature cfg1 \<le> 0 then cfg1\<lparr>gq_temperature := groq_default_temp\<rparr> else cfg1);
            cfg3 = (if gq_max_tokens cfg2 \<le> 0 then cfg2\<lparr>gq_max_tokens := 1024\<rparr> else cfg2)
        in Inr (if gq_strict cfg3 = None then cfg3\<lparr>gq_strict := Some True\<rparr> else cfg3))"

definition groq_name :: "groq_config \<Rightarrow> string" where
  "groq_name cfg = ''groq/'' @ gq_model cfg"

text \<open>The pointer \<open>Strict\<close> is set in every adapter that \<open>NewGroqAdapter\<close> returns.\<close>

definition groq_build_request :: "groq_config \<Rightarrow> string \<Rightarrow> string \<Rightarrow> goval" where
  "groq_build_request cfg system_prompt text_in =
     VMap
       [(''model'', VStr (gq_model cfg)),
        (''messages'', VMaps
          [[(''role'', VStr ''system''), (''content'', VStr system_prompt)],
           [(''role'', VStr ''user''), (''content'', VStr text_in)]]),
        (''temperature'', VFloat (gq_temperature cfg)),
        (''max_tokens'', VInt (gq_max_tokens cfg)),
        (''response_format'', VMap
          [(''type'', VStr ''json_schema''),
           (''json_schema'', VMap
             [(''name'', VStr ''extraction''), (''strict'', VBool (the (gq_strict cfg))),
              (''schema'', extraction_json_schema)])])]"

record groq_choice =
  gc_index :: int
  gc_role :: string
  gc_content :: string
  gc_finish :: string

record groq_response =
  gs_id :: string
  gs_object :: string
  gs_model :: string
  gs_choices :: "groq_choice list"
  gs_prompt_tokens :: int
  gs_completion_tokens :: int
  gs_total_tokens :: int

record 'g groq_env =
  gn_marshal :: "goval \<Rightarrow> string result"
  gn_new_request :: "string \<Rightarrow> goerr option"
  gn_do :: "ctx \<Rightarrow> http_call \<Rightarrow> 'g \<Rightarrow> http_answer result \<times> 'g"
  gn_response :: "string \<Rightarrow> groq_response result"

definition groq_http_call :: "groq_config \<Rightarrow> string \<Rightarrow> http_call" where
  "groq_http_call cfg body =
     \<lparr>hc_url = groq_endpoint,
      hc_headers = [(''Content-Type'', ''application/json''), (''Authorization'', ''Bearer '' @ gq_api_key cfg)],
      hc_body = body\<rparr>"

definition groq_content :: "'g groq_env \<Rightarrow> string \<Rightarrow> string result" where
  "groq_content env body =
     (case gn_response env body of
        Inl e \<Rightarrow> Inl (Wrapped (''groq: parse response: '' @ err_msg e @ '' (raw: '' @ first_runes 200 body @ '')'') e)
      | Inr resp \<Rightarrow>
        (case gs_choices resp of
           [] \<Rightarrow> Inl (Adhoc ''groq: no choices in response'')
         | choice # _ \<Rightarrow>
           if gc_content choice = [] then Inl (Adhoc ''groq: empty content in response'')
           else Inr (gc_content choice)))"

definition groq_call ::
  "'g groq_env \<Rightarrow> groq_config \<Rightarrow> ctx \<Rightarrow> string \<Rightarrow> string \<Rightarrow> 'g \<Rightarrow> string result \<times> 'g" where
  "groq_call env cfg c prompt text_in net =
     (let fail = (\<lambda>what e. Inl (Wrapped (''groq: '' @ what @ '': '' @ err_msg e) e)) in
      case gn_marshal env (groq_build_request cfg prompt text_in) of
        Inl e \<Rightarrow> (fail ''marshal request'' e, net)
      | Inr body \<Rightarrow>
        (case gn_new_request env groq_endpoint of
           Some e \<Rightarrow> (fail ''create request'' e, net)
         | None \<Rightarrow>
           let (answer, net1) = gn_do env c (groq_http_call cfg body) net in
           (case answer of
              Inl e \<Rightarrow> (fail ''request failed'' e, net1)
            | Inr resp \<Rightarrow>
              (case ha_body resp of
                 Inl e \<Rightarrow> (fail ''read response'' e, net1)
               | Inr reply \<Rightarrow>
                 if ha_status resp \<noteq> 200
                 then (Inl (Adhoc (''groq: HTTP '' @ int_str (ha_status resp) @ '': '' @ first_runes 500 reply)), net1)
                 else (groq_content env reply, net1)))))"

subsection \<open>The Needle adapter\<close>

record needle_config =
  nc_python :: string
  nc_bridge :: string
  nc_timeout :: int

definition DefaultNeedleTimeout :: int where "DefaultNeedleTimeout = 20 * 10 ^ 9"

text \<open>A process is whatever the operating system hands out; \<open>None\<close> while no bridge runs.\<close>

record 'p needle_adapter =
  na_python :: string
  na_bridge :: string
  na_timeout :: int
  na_process :: "'p option"
  na_seq :: int

definition new_needle_adapter ::
  "(string \<Rightarrow> string) \<Rightarrow> (string \<Rightarrow> goerr option) \<Rightarrow> needle_config \<Rightarrow> 'p needle_adapter result" where
  "new_needle_adapter getenv stat cfg =
     (let py1 = (if nc_python cfg = [] then getenv ''NEEDLE_PYTHON'' else nc_python cfg);
          py = (if py1 = [] then ''python3'' else py1);
          bridge = (if nc_bridge cfg = [] then getenv ''NEEDLE_BRIDGE'' else nc_bridge cfg) in
      if bridge = []
      then Inl (Adhoc ''needle: bridge script required (set NEEDLE_BRIDGE or pass NeedleConfig.Bridge)'')
      else case stat bridge of
             Some e \<Rightarrow> Inl (Wrapped (''needle: bridge script: '' @ err_msg e) e)
           | None \<Rightarrow> Inr \<lparr>na_python = py, na_bridge = bridge,
               na_timeout = (if nc_timeout cfg \<le> 0 then DefaultNeedleTimeout else nc_timeout cfg),
               na_process = None, na_seq = 0\<rparr>)"

definition needle_name :: string where "needle_name = ''needle3''"

definition needle_request_line :: "string \<Rightarrow> string \<Rightarrow> string \<Rightarrow> string" where
  "needle_request_line i text_in prompt =
     json_print (JObject (fld ''id'' (JString i) @ fld ''text'' (JString text_in) @ opt_str ''prompt'' prompt)) @ newline"

record needle_response =
  nr_id :: string
  nr_ok :: bool
  nr_extraction :: string
  nr_error :: string

text \<open>What the \<open>select\<close> of a call sees first: the reply, an error of the pipes, the timer or the context.\<close>

datatype exchange = Replied string | Broken goerr | TimedOut | Cancelled goerr

record ('p, 'w) needle_env =
  ne_stdin_pipe :: "'w \<Rightarrow> goerr option \<times> 'w"
  ne_stdout_pipe :: "'w \<Rightarrow> goerr option \<times> 'w"
  ne_start :: "string \<Rightarrow> string \<Rightarrow> 'w \<Rightarrow> 'p result \<times> 'w"
  ne_kill :: "'p \<Rightarrow> 'w \<Rightarrow> 'w"
  ne_exchange :: "ctx \<Rightarrow> int \<Rightarrow> string \<Rightarrow> 'p \<Rightarrow> 'w \<Rightarrow> exchange \<times> 'p \<times> 'w"
  ne_decode :: "string \<Rightarrow> needle_response result"
  ne_duration :: "int \<Rightarrow> string"

definition ensure_locked ::
  "('p, 'w) needle_env \<Rightarrow> 'p needle_adapter \<times> 'w \<Rightarrow> goerr option \<times> 'p needle_adapter \<times> 'w" where
  "ensure_locked env aw =
     (let (a, w) = aw; fail = (\<lambda>what e. Some (Wrapped (''needle: '' @ what @ '': '' @ err_msg e) e)) in
      case na_process a of
        Some p \<Rightarrow> (None, a, w)
      | None \<Rightarrow>
        (case ne_stdin_pipe env w of
           (Some e, w1) \<Rightarrow> (fail ''stdin pipe'' e, a, w1)
         | (None, w1) \<Rightarrow>
           (case ne_stdout_pipe env w1 of
              (Some e, w2) \<Rightarrow> (fail ''stdout pipe'' e, a, w2)
            | (None, w2) \<Rightarrow>
              (case ne_start env (na_python a) (na_bridge a) w2 of
                 (Inl e, w3) \<Rightarrow> (fail ''start bridge'' e, a, w3)
               | (Inr p, w3) \<Rightarrow> (None, a\<lparr>na_process := Some p\<rparr>, w3)))))"

definition close_locked :: "('p, 'w) needle_env \<Rightarrow> 'p needle_adapter \<times> 'w \<Rightarrow> 'p needle_adapter \<times> 'w" where
  "close_locked env aw =
     (let (a, w) = aw in
      case na_process a of
        None \<Rightarrow> (a, w)
      | Some p \<Rightarrow> (a\<lparr>na_process := None\<rparr>, ne_kill env p w))"

definition parse_reply ::
  "('p, 'w) needle_env \<Rightarrow> string \<Rightarrow> 'p needle_adapter \<times> 'w \<Rightarrow> string result \<times> 'p needle_adapter \<times> 'w" where
  "parse_reply env line aw =
     (case ne_decode env line of
        Inl e \<Rightarrow> (Inl (Wrapped (''needle: decode reply: '' @ err_msg e) e), close_locked env aw)
      | Inr resp \<Rightarrow>
        if \<not> nr_ok resp
        then (Inl (Adhoc (''needle: '' @ (if nr_error resp = [] then ''bridge reported failure'' else nr_error resp))), aw)
        else if nr_extraction resp = [] then (Inl (Adhoc ''needle: reply carried no extraction''), aw)
        else (Inr (nr_extraction resp), aw))"

text \<open>The branches of the \<open>select\<close>: only an answer leaves the process alive.\<close>

definition settle_call ::
  "('p, 'w) needle_env \<Rightarrow> int \<Rightarrow> exchange \<Rightarrow> 'p needle_adapter \<times> 'w \<Rightarrow> string result \<times> 'p needle_adapter \<times> 'w" where
  "settle_call env timeout out aw =
     (case out of
        Broken e \<Rightarrow> (Inl (Wrapped (''needle: exchange: '' @ err_msg e) e), close_locked env aw)
      | Replied reply \<Rightarrow> parse_reply env reply aw
      | TimedOut \<Rightarrow>
          (Inl (Adhoc (''needle: extraction timed out after '' @ ne_duration env timeout)), close_locked env aw)
      | Cancelled e \<Rightarrow> (Inl (Wrapped (''needle: '' @ err_msg e) e), close_locked env aw))"

text \<open>
  One call under the lock. The goroutine that writes the line and reads the reply is part of the exchange: it
  is taken to have looked up the pipes before a timeout or a cancelled context sets them to nil. If it is
  later than that it dereferences nil and the process ends, which is no outcome here. \<open>remaining\<close> is the time until the deadline of the context, if it has one.
\<close>

definition call_timeout :: "int option \<Rightarrow> 'p needle_adapter \<Rightarrow> int" where
  "call_timeout remaining a =
     (case remaining of None \<Rightarrow> na_timeout a | Some t \<Rightarrow> if t < na_timeout a then t else na_timeout a)"

definition needle_call ::
  "('p, 'w) needle_env \<Rightarrow> ctx \<Rightarrow> int option \<Rightarrow> string \<Rightarrow> string \<Rightarrow> 'p needle_adapter \<times> 'w
    \<Rightarrow> string result \<times> 'p needle_adapter \<times> 'w" where
  "needle_call env c remaining prompt text_in aw0 =
     (if trim_space text_in = [] then (Inl (Adhoc ''needle: empty text''), aw0)
      else case ensure_locked env aw0 of
        (Some e, aw) \<Rightarrow> (Inl e, aw)
      | (None, a0, w) \<Rightarrow>
        let a = a0\<lparr>na_seq := na_seq a0 + 1\<rparr>;
            line = needle_request_line (''r'' @ int_str (na_seq a)) text_in prompt;
            timeout = call_timeout remaining a;
            (out, p, w1) = ne_exchange env c timeout line (the (na_process a)) w
        in settle_call env timeout out (a\<lparr>na_process := Some p\<rparr>, w1))"

definition needle_close :: "('p, 'w) needle_env \<Rightarrow> 'p needle_adapter \<times> 'w \<Rightarrow> 'p needle_adapter \<times> 'w" where
  "needle_close env aw = close_locked env aw"

subsection \<open>The schema and the parser\<close>

fun field_of :: "string \<Rightarrow> goval \<Rightarrow> goval" where
  "field_of k (VMap m) = (case map_of m k of None \<Rightarrow> VNil | Some v \<Rightarrow> v)"
| "field_of k _ = VNil"

fun strings_of :: "goval \<Rightarrow> string list" where
  "strings_of (VStrs ss) = ss"
| "strings_of _ = []"

definition property_of :: "string \<Rightarrow> goval \<Rightarrow> goval" where
  "property_of k schema = field_of k (field_of ''properties'' schema)"

definition enum_of :: "goval \<Rightarrow> string list" where
  "enum_of schema = strings_of (field_of ''enum'' schema)"

text \<open>
  What strict structured output demands of a schema: every object requires exactly its properties and
  allows no others.
\<close>

definition strict_object :: "goval \<Rightarrow> bool" where
  "strict_object schema \<longleftrightarrow>
     (case field_of ''properties'' schema of
        VMap m \<Rightarrow> set (strings_of (field_of ''required'' schema)) = set (map fst m)
          \<and> field_of ''additionalProperties'' schema = VBool False
      | _ \<Rightarrow> True)"

function strict_schema :: "goval \<Rightarrow> bool" where
  "strict_schema (VMap m) = (strict_object (VMap m) \<and> list_all (\<lambda>kv. strict_schema (snd kv)) m)"
| "strict_schema VNil = True"
| "strict_schema (VStr s) = True"
| "strict_schema (VInt i) = True"
| "strict_schema (VInt64 i) = True"
| "strict_schema (VFloat f) = True"
| "strict_schema (VBool b) = True"
| "strict_schema (VStrs ss) = True"
| "strict_schema (VList vs) = list_all strict_schema vs"
| "strict_schema (VMaps ms) = True"
  by pat_completeness auto
termination
  by (relation "measure size")
    (auto simp: less_Suc_eq_le intro!: size_list_estimation' trans_le_add2)

text \<open>
  The schema sent to Groq is the golden schema: the values it allows are exactly those that the parser
  accepts, for intents, sentiments, topics, flags and match types; the summary is bounded by what
  validation allows; and it meets the demands of strict structured output.
\<close>

theorem groq_schema_exact:
  "(s \<in> set (enum_of (property_of ''intent'' extraction_json_schema)) \<longleftrightarrow> is_valid_intent s)
   \<and> (s \<in> set (enum_of (property_of ''sentiment'' extraction_json_schema)) \<longleftrightarrow> is_valid_sentiment s)
   \<and> (s \<in> set (enum_of (field_of ''items'' (property_of ''topics'' extraction_json_schema))) \<longleftrightarrow> is_valid_topic s)
   \<and> (s \<in> set (enum_of (field_of ''items'' (property_of ''flags'' extraction_json_schema))) \<longleftrightarrow> is_valid_flag s)
   \<and> (s \<in> set (enum_of (property_of ''match_type'' (field_of ''items'' (property_of ''entities'' extraction_json_schema))))
     \<longleftrightarrow> default_match_type s = s)
   \<and> (field_of ''maxLength'' (property_of ''summary'' extraction_json_schema) = VInt 200)
   \<and> (strict_schema extraction_json_schema)"
  by (intro conjI) (auto simp: extraction_json_schema_def entity_schema_def enum_schema_def array_schema_def schema_of_def
      property_of_def enum_of_def strict_object_def is_valid_intent_def is_valid_sentiment_def is_valid_topic_def
      is_valid_flag_def default_match_type_def class_defs)

subsection \<open>What a Groq call returns\<close>

lemma groq_call_Inr:
  assumes "groq_call env cfg c prompt text_in net = (Inr content, net1)"
  shows "content \<noteq> [] \<and> (\<exists>body resp reply answer choice rest.
     gn_marshal env (groq_build_request cfg prompt text_in) = Inr body
     \<and> gn_do env c (groq_http_call cfg body) net = (Inr resp, net1)
     \<and> ha_status resp = 200 \<and> ha_body resp = Inr reply \<and> gn_response env reply = Inr answer
     \<and> gs_choices answer = choice # rest \<and> gc_content choice = content)"
  using assms
  by (auto simp: groq_call_def groq_content_def Let_def split: sum.splits option.splits prod.splits list.splits if_splits)

subsection \<open>The exchange with the bridge stays in step\<close>

datatype needle_op = NeedleCall ctx "int option" string string | NeedleClose

fun run_needle :: "('p, 'w) needle_env \<Rightarrow> needle_op \<Rightarrow> 'p needle_adapter \<times> 'w \<Rightarrow> 'p needle_adapter \<times> 'w" where
  "run_needle env (NeedleCall c remaining prompt text_in) aw = snd (needle_call env c remaining prompt text_in aw)"
| "run_needle env NeedleClose aw = needle_close env aw"

definition live_good :: "('p \<Rightarrow> bool) \<Rightarrow> 'p needle_adapter \<times> 'w \<Rightarrow> bool" where
  "live_good good aw \<longleftrightarrow> (case na_process (fst aw) of None \<Rightarrow> True | Some p \<Rightarrow> good p)"

lemma close_locked_gone [simp]: "na_process (fst (close_locked env aw)) = None"
  by (cases aw) (simp add: close_locked_def split: option.splits)

lemma close_locked_good [simp]: "live_good good (close_locked env aw)"
  by (simp add: live_good_def)

text \<open>
  \<open>good\<close> is any condition of a process that it has when it is started and keeps when it answers a request
  with a line that decodes, for instance that no reply is outstanding.
\<close>

definition good_process :: "('p, 'w) needle_env \<Rightarrow> ('p \<Rightarrow> bool) \<Rightarrow> bool" where
  "good_process env good \<longleftrightarrow>
     (\<forall>python bridge w p w'. ne_start env python bridge w = (Inr p, w') \<longrightarrow> good p)
     \<and> (\<forall>c t line p w reply p' w' resp. good p \<longrightarrow> ne_exchange env c t line p w = (Replied reply, p', w') \<longrightarrow>
          ne_decode env reply = Inr resp \<longrightarrow> good p')"

lemma good_started: "good_process env good \<Longrightarrow> ne_start env py bridge w = (Inr p, w') \<Longrightarrow> good p"
  unfolding good_process_def by blast

lemma ensure_locked_good:
  assumes "good_process env good" "live_good good aw" "ensure_locked env aw = (r, aw')"
  shows "live_good good aw' \<and> na_seq (fst aw') = na_seq (fst aw) \<and> (r = None \<longrightarrow> na_process (fst aw') \<noteq> None)"
  using assms
  by (cases aw)
    (auto simp: ensure_locked_def live_good_def Let_def dest: good_started split: option.splits prod.splits sum.splits)

text \<open>The reply that an answered call rests on.\<close>

definition answered ::
  "('p, 'w) needle_env \<Rightarrow> ('p \<Rightarrow> bool) \<Rightarrow> ctx \<Rightarrow> string \<Rightarrow> string \<Rightarrow> bool" where
  "answered env good c line x \<longleftrightarrow>
     x \<noteq> [] \<and> (\<exists>t p w reply p' w' resp. good p \<and> ne_exchange env c t line p w = (Replied reply, p', w')
       \<and> ne_decode env reply = Inr resp \<and> nr_ok resp \<and> nr_extraction resp = x)"

lemma settle_call_good:
  assumes "good_process env good" "good p" "ne_exchange env c t line p w = (out, p', w1)"
    and "settle_call env timeout out (a\<lparr>na_process := Some p'\<rparr>, w1) = (result, aw')"
  shows "live_good good aw' \<and> (case result of Inl e \<Rightarrow> True | Inr x \<Rightarrow> answered env good c line x)"
proof (cases out)
  case (Replied reply)
  show ?thesis
  proof (cases "ne_decode env reply")
    case (Inl e)
    with Replied assms(4) show ?thesis by (auto simp: settle_call_def parse_reply_def)
  next
    case (Inr resp)
    have "good p'" using assms(1-3) Replied Inr unfolding good_process_def by blast
    moreover have "answered env good c line x" if "nr_ok resp" "nr_extraction resp = x" "x \<noteq> []" for x
      using that assms(2,3) Replied Inr unfolding answered_def by blast
    ultimately show ?thesis
      using Replied Inr assms(4)
      by (auto simp: settle_call_def parse_reply_def live_good_def split: if_splits)
  qed
qed (use assms(4) in \<open>auto simp: settle_call_def\<close>)

lemma needle_call_good:
  assumes "good_process env good" "live_good good aw"
    and "needle_call env c remaining prompt text_in aw = (result, aw')"
  shows "live_good good aw' \<and>
    (case result of
       Inl e \<Rightarrow> True
     | Inr x \<Rightarrow> answered env good c (needle_request_line (''r'' @ int_str (na_seq (fst aw) + 1)) text_in prompt) x)"
proof (cases "trim_space text_in = []")
  case True
  with assms show ?thesis by (auto simp: needle_call_def)
next
  case False
  obtain r a0 w where ens: "ensure_locked env aw = (r, a0, w)" by (metis prod.collapse)
  note en = ensure_locked_good [OF assms(1,2) ens]
  show ?thesis
  proof (cases r)
    case (Some e)
    with False ens en assms(3) show ?thesis by (auto simp: needle_call_def)
  next
    case None
    with en obtain p where p: "na_process a0 = Some p" "good p"
      by (auto simp: live_good_def split: option.splits)
    define a where "a = a0\<lparr>na_seq := na_seq a0 + 1\<rparr>"
    define line where "line = needle_request_line (''r'' @ int_str (na_seq (fst aw) + 1)) text_in prompt"
    obtain out p' w1 where ex: "ne_exchange env c (call_timeout remaining a) line p w = (out, p', w1)"
      by (metis prod.collapse)
    have "line = needle_request_line (''r'' @ int_str (na_seq a)) text_in prompt"
      using en by (simp add: line_def a_def)
    with ex have "ne_exchange env c (call_timeout remaining a)
        (needle_request_line (''r'' @ int_str (na_seq a)) text_in prompt) p w = (out, p', w1)" by simp
    with False ens None p(1) assms(3)
    have "settle_call env (call_timeout remaining a) out (a\<lparr>na_process := Some p'\<rparr>, w1) = (result, aw')"
      by (simp add: needle_call_def Let_def a_def)
    from settle_call_good [OF assms(1) p(2) ex this] show ?thesis by (simp only: line_def)
  qed
qed

text \<open>
  C33. Whatever calls and closings there were, a bridge process that is still alive has only ever answered
  with lines that decode: one that broke, timed out, was cancelled or sent garbage is killed and replaced.
  So a call that succeeds returns the extraction of the reply of a process in step to its own request,
  and it is not empty.
\<close>

theorem needle_in_step:
  assumes "good_process env good" and "new_needle_adapter getenv stat cfg = Inr a"
    and "fold (run_needle env) ops (a, w) = aw" and "needle_call env c remaining prompt text_in aw = (result, aw')"
  shows "live_good good aw' \<and>
    (case result of
       Inl e \<Rightarrow> True
     | Inr x \<Rightarrow> answered env good c (needle_request_line (''r'' @ int_str (na_seq (fst aw) + 1)) text_in prompt) x)"
proof -
  have step: "live_good good aw \<Longrightarrow> live_good good (run_needle env op aw)" for op aw
  proof (cases op)
    case (NeedleCall c remaining prompt text_in)
    assume "live_good good aw"
    then show ?thesis
      using needle_call_good [OF assms(1), of aw c remaining prompt text_in]
      by (cases "needle_call env c remaining prompt text_in aw") (auto simp: NeedleCall)
  qed (simp add: needle_close_def)
  have "live_good good (a, w)"
    using assms(2) by (auto simp: new_needle_adapter_def live_good_def Let_def split: if_splits option.splits)
  then have "live_good good (fold (run_needle env) ops (a, w))"
    by (induction ops arbitrary: a w) (simp_all, metis step surj_pair)
  with needle_call_good [OF assms(1) _ assms(4)] assms(3) show ?thesis by simp
qed

subsection \<open>An instance\<close>

text \<open>A bridge that echoes the text and misses its time when the context has a deadline; a process counts the replies it still owes.\<close>

definition sample_bridge :: "(nat, nat) needle_env" where
  "sample_bridge =
     \<lparr>ne_stdin_pipe = Pair None, ne_stdout_pipe = Pair None, ne_start = (\<lambda>py bridge n. (Inr 0, Suc n)),
      ne_kill = (\<lambda>p n. n), ne_exchange = (\<lambda>c t line p n. if t < 10 then (TimedOut, p + 1, n) else (Replied line, p, n)),
      ne_decode = (\<lambda>s. Inr \<lparr>nr_id = [], nr_ok = True, nr_extraction = s, nr_error = []\<rparr>), ne_duration = int_str\<rparr>"

theorem needle_in_step_witness:
  "\<exists>a. new_needle_adapter (\<lambda>v. ''bridge.py'') (\<lambda>f. None) \<lparr>nc_python = [], nc_bridge = [], nc_timeout = 0\<rparr> = Inr a
     \<and> (case needle_call sample_bridge None None [] ''hi''
           (fold (run_needle sample_bridge) [NeedleCall None (Some 5) [] ''slow''] (a, 0)) of
          (result, aw') \<Rightarrow> result = Inr (needle_request_line ''r2'' ''hi'' []) \<and> na_process (fst aw') = Some 0 \<and> snd aw' = 2)"
proof -
  let ?a = "\<lparr>na_python = ''bridge.py'', na_bridge = ''bridge.py'', na_timeout = DefaultNeedleTimeout,
    na_process = None, na_seq = 0\<rparr> :: nat needle_adapter"
  have new: "new_needle_adapter (\<lambda>v. ''bridge.py'') (\<lambda>f. None) \<lparr>nc_python = [], nc_bridge = [], nc_timeout = 0\<rparr> = Inr ?a"
    by (simp add: new_needle_adapter_def Let_def)
  let ?aw = "fold (run_needle sample_bridge) [NeedleCall None (Some 5) [] ''slow''] (?a, 0)"
  have good: "good_process sample_bridge (\<lambda>p. p = 0)"
    by (auto simp: good_process_def sample_bridge_def split: if_splits)
  obtain result aw' where call: "needle_call sample_bridge None None [] ''hi'' ?aw = (result, aw')"
    by (cases "needle_call sample_bridge None None [] ''hi'' ?aw")
  have aw: "na_seq (fst ?aw) = 1 \<and> na_process (fst ?aw) = None \<and> snd ?aw = 1"
    by code_simp
  from needle_in_step [OF good new refl call] have "live_good (\<lambda>p. p = 0) aw'" ..
  moreover have "case needle_call sample_bridge None None [] ''hi'' ?aw of
      (result, aw') \<Rightarrow> result = Inr (needle_request_line ''r2'' ''hi'' []) \<and> na_process (fst aw') \<noteq> None \<and> snd aw' = 2"
    by code_simp
  ultimately show ?thesis
    using new call by (auto simp: live_good_def)
qed

end
