(* ===== verification/Preprocessor.thy ===== *)
theory Preprocessor
  imports FastExtract MemoryManager Backend
begin

text \<open>
  \<open>internal/preprocess/daemon.go\<close>: the sidecar that extracts metadata from messages in the background.
  Callers and workers interleave, so the daemon is a state machine: a call is in the list of callers from
  its first to its last access to shared state, a worker is where its goroutine stands, and every step is
  what one of them does between two points at which others may run. The fast model, the event log and the
  callback are functions of the configuration that work on a state of their own; the clock is a function
  of how often it was read. The channel \<open>queue\<close> is a list with a capacity and a flag, and what panics in Go
  (sending to a closed channel, closing it again) has its own outcome.
\<close>

subsection \<open>Configuration and results\<close>

record pp_result =
  pr_job :: string
  pr_extraction :: "extraction option"
  pr_latency :: int
  pr_error :: "goerr option"
  pr_timestamp :: gotime

definition succeeded :: "pp_result \<Rightarrow> bool" where
  "succeeded r \<longleftrightarrow> pr_error r = None \<and> pr_extraction r \<noteq> None"

record ('f, 'l, 'u) pp_config =
  pc_adapter :: "(ctx \<Rightarrow> int \<Rightarrow> string \<Rightarrow> string \<Rightarrow> 'f \<Rightarrow> string result \<times> 'f) option"
  pc_event_log :: "(ctx \<Rightarrow> event \<Rightarrow> 'l \<Rightarrow> goerr option \<times> 'l) option"
  pc_timeout :: int
  pc_max_workers :: int
  pc_queue_size :: int
  pc_on_result :: "(pp_result \<Rightarrow> 'u \<Rightarrow> 'u) option"

record ('f, 'l, 'u) pp_daemon =
  pd_cfg :: "('f, 'l, 'u) pp_config"
  pd_queue :: "pp_job list"
  pd_closed :: bool
  pd_done :: bool
  pd_running :: bool
  pd_results :: "pp_result list"
  pd_total :: "64 word"
  pd_ok :: "64 word"
  pd_err :: "64 word"
  pd_ms :: "64 word"

definition new_pp_daemon :: "('f, 'l, 'u) pp_config \<Rightarrow> ('f, 'l, 'u) pp_daemon result" where
  "new_pp_daemon cfg =
     (if pc_adapter cfg = None then Inl (Adhoc ''preprocess: FastAdapter is required'')
      else if pc_event_log cfg = None then Inl (Adhoc ''preprocess: EventLog is required'')
      else
        let cfg1 = (if pc_timeout cfg \<le> 0 then cfg\<lparr>pc_timeout := 2 * 10 ^ 9\<rparr> else cfg);
            cfg2 = (if pc_max_workers cfg1 \<le> 0 then cfg1\<lparr>pc_max_workers := 2\<rparr> else cfg1);
            cfg3 = (if pc_queue_size cfg2 \<le> 0 then cfg2\<lparr>pc_queue_size := 64\<rparr> else cfg2)
        in Inr \<lparr>pd_cfg = cfg3, pd_queue = [], pd_closed = False, pd_done = False, pd_running = False,
                pd_results = [], pd_total = 0, pd_ok = 0, pd_err = 0, pd_ms = 0\<rparr>)"

definition queue_cap :: "('f, 'l, 'u) pp_daemon \<Rightarrow> nat" where
  "queue_cap d = nat (pc_queue_size (pd_cfg d))"

subsection \<open>One job\<close>

text \<open>\<open>time.Duration.Milliseconds\<close>.\<close>

definition milliseconds :: "int \<Rightarrow> int" where
  "milliseconds d = (if 0 \<le> d then d div 10 ^ 6 else - (- d div 10 ^ 6))"

record pp_env =
  px_unmarshal :: "string \<Rightarrow> raw_extraction result"
  px_clock :: "nat \<Rightarrow> gotime"

definition call_adapter ::
  "('f, 'l, 'u) pp_config \<Rightarrow> ctx \<Rightarrow> string \<Rightarrow> 'f \<Rightarrow> string result \<times> 'f" where
  "call_adapter cfg c text f =
     (case pc_adapter cfg of
        None \<Rightarrow> (Inl (Adhoc ''nil adapter''), f)
      | Some call \<Rightarrow> call c (pc_timeout cfg) extraction_prompt text f)"

definition process_job ::
  "pp_env \<Rightarrow> ('f, 'l, 'u) pp_config \<Rightarrow> ctx \<Rightarrow> pp_job \<Rightarrow> 'f \<Rightarrow> nat \<Rightarrow> pp_result \<times> 'f \<times> nat" where
  "process_job env cfg c job f t =
     (let (raw, f1) = call_adapter cfg c (jb_text job) f;
          latency = milliseconds (time_sub (px_clock env (t + 1)) (px_clock env t));
          failed = (\<lambda>what e now. \<lparr>pr_job = jb_id job, pr_extraction = None, pr_latency = latency,
                      pr_error = Some (Wrapped (what @ '': '' @ err_msg e) e), pr_timestamp = px_clock env now\<rparr>)
      in case raw of
           Inl e \<Rightarrow> (failed ''fast model call failed'' e (t + 2), f1, t + 3)
         | Inr answer \<Rightarrow>
           (case parse_extraction (px_unmarshal env) (px_clock env (t + 2)) answer of
              Inl e \<Rightarrow> (failed ''parse extraction'' e (t + 2), f1, t + 3)
            | Inr x \<Rightarrow>
              (case extraction_validate x of
                 Some v \<Rightarrow> (failed ''validation'' (Adhoc (ve_error v)) (t + 3), f1, t + 4)
               | None \<Rightarrow> (\<lparr>pr_job = jb_id job, pr_extraction = Some x, pr_latency = latency, pr_error = None,
                          pr_timestamp = px_clock env (t + 3)\<rparr>, f1, t + 4))))"

definition count_result :: "pp_result \<Rightarrow> ('f, 'l, 'u) pp_daemon \<Rightarrow> ('f, 'l, 'u) pp_daemon" where
  "count_result r d =
     (let d1 = d\<lparr>pd_results := pd_results d @ [r], pd_total := pd_total d + 1\<rparr> in
      if succeeded r then d1\<lparr>pd_ok := pd_ok d1 + 1, pd_ms := pd_ms d1 + word_of_int (pr_latency r)\<rparr>
      else d1\<lparr>pd_err := pd_err d1 + 1\<rparr>)"

definition extract_event :: "pp_job \<Rightarrow> pp_result \<Rightarrow> extraction \<Rightarrow> event" where
  "extract_event job r x =
     \<lparr>ev_id = jb_id job @ ''.extract'', ev_session = jb_session job, ev_ts = pr_timestamp r,
      ev_kind = KindPreprocessExtract, ev_branch = jb_branch job, ev_parent = [], ev_refs = [],
      ev_meta = extraction_meta x, ev_blob = []\<rparr>"

text \<open>The event of a result on the spine; the error of the append is dropped.\<close>

definition record_result ::
  "('f, 'l, 'u) pp_config \<Rightarrow> ctx \<Rightarrow> pp_job \<Rightarrow> pp_result \<Rightarrow> 'l \<Rightarrow> 'l" where
  "record_result cfg c job r l =
     (case (succeeded r, pr_extraction r, pc_event_log cfg) of
        (True, Some x, Some add) \<Rightarrow> snd (add c (extract_event job r x) l)
      | _ \<Rightarrow> l)"

definition notify :: "('f, 'l, 'u) pp_config \<Rightarrow> pp_result \<Rightarrow> 'u \<Rightarrow> 'u" where
  "notify cfg r u = (case pc_on_result cfg of None \<Rightarrow> u | Some f \<Rightarrow> f r u)"

record pp_stats =
  ps_total :: "64 word"
  ps_ok :: "64 word"
  ps_err :: "64 word"
  ps_avg :: "64 word"
  ps_queue_len :: int
  ps_queue_cap :: int

text \<open>Division of \<open>int64\<close> rounds toward zero.\<close>

definition quot64 :: "64 word \<Rightarrow> 64 word \<Rightarrow> 64 word" where
  "quot64 a b = word_of_int (sgn (sint a) * sgn (sint b) * (\<bar>sint a\<bar> div \<bar>sint b\<bar>))"

definition pp_stats_of :: "('f, 'l, 'u) pp_daemon \<Rightarrow> pp_stats" where
  "pp_stats_of d =
     \<lparr>ps_total = pd_total d, ps_ok = pd_ok d, ps_err = pd_err d,
      ps_avg = (if 0 < sint (pd_ok d) then quot64 (pd_ms d) (pd_ok d) else 0),
      ps_queue_len = int (length (pd_queue d)), ps_queue_cap = int (queue_cap d)\<rparr>"

subsection \<open>Callers, workers and steps\<close>

text \<open>
  A caller of \<open>Submit\<close> that found the daemon running, with its job; one that has its answer; a caller of
  \<open>Stop\<close> before it closes the queue, while it waits for the workers, and when it is done.
\<close>

datatype caller = Submitting pp_job | Accepted pp_job | Refused pp_job | Closing | Draining | Stopped

text \<open>
  A worker that \<open>Start\<close> is still to add to the wait group and to spawn; a worker before it receives, with a
  job, with a result before it takes the lock, before it writes to
  the spine, before it calls back, and after its loop.
\<close>

datatype worker =
    Spawning
  | Receiving
  | Extracting pp_job
  | Counting pp_job pp_result
  | Recording pp_job pp_result
  | Notifying pp_result
  | Exited

record ('f, 'l, 'u) pp_state =
  pt_daemon :: "('f, 'l, 'u) pp_daemon"
  pt_callers :: "caller list"
  pt_workers :: "worker list"
  pt_fast :: 'f
  pt_log :: 'l
  pt_user :: 'u
  pt_ticks :: nat

definition initial_state :: "('f, 'l, 'u) pp_daemon \<Rightarrow> 'f \<Rightarrow> 'l \<Rightarrow> 'u \<Rightarrow> ('f, 'l, 'u) pp_state" where
  "initial_state d f l u =
     \<lparr>pt_daemon = d, pt_callers = [], pt_workers = [], pt_fast = f, pt_log = l, pt_user = u, pt_ticks = 0\<rparr>"

datatype 's outcome = Stepped 's | Blocked | Panicked string

text \<open>
  \<open>Start\<close> until it releases the lock; the goroutines are spawned after that, one by one
  (\<open>Spawning\<close>), so that \<open>Submit\<close> and \<open>Stop\<close> may come in between. \<open>Wait\<close> knows only those that are spawned.
\<close>

definition pp_start :: "('f, 'l, 'u) pp_state \<Rightarrow> ('f, 'l, 'u) pp_state" where
  "pp_start st =
     (if pd_running (pt_daemon st) then st
      else st\<lparr>pt_daemon := pt_daemon st\<lparr>pd_running := True\<rparr>,
              pt_workers := pt_workers st @ replicate (nat (pc_max_workers (pd_cfg (pt_daemon st)))) Spawning\<rparr>)"

text \<open>\<open>Submit\<close> until it releases the lock, and the \<open>select\<close> that sends without blocking.\<close>

definition pp_submit :: "pp_job \<Rightarrow> ('f, 'l, 'u) pp_state \<Rightarrow> ('f, 'l, 'u) pp_state" where
  "pp_submit job st =
     st\<lparr>pt_callers := pt_callers st @ [if pd_running (pt_daemon st) then Submitting job else Refused job]\<rparr>"

definition pp_send :: "nat \<Rightarrow> pp_job \<Rightarrow> ('f, 'l, 'u) pp_state \<Rightarrow> ('f, 'l, 'u) pp_state outcome" where
  "pp_send i job st =
     (let d = pt_daemon st in
      if pd_closed d then Panicked ''send on closed channel''
      else if length (pd_queue d) < queue_cap d
      then Stepped (st\<lparr>pt_daemon := d\<lparr>pd_queue := pd_queue d @ [job]\<rparr>,
                       pt_callers := (pt_callers st)[i := Accepted job]\<rparr>)
      else Stepped (st\<lparr>pt_callers := (pt_callers st)[i := Refused job]\<rparr>))"

definition pp_stop :: "('f, 'l, 'u) pp_state \<Rightarrow> ('f, 'l, 'u) pp_state" where
  "pp_stop st =
     (if pd_running (pt_daemon st)
      then st\<lparr>pt_daemon := pt_daemon st\<lparr>pd_running := False\<rparr>, pt_callers := pt_callers st @ [Closing]\<rparr>
      else st\<lparr>pt_callers := pt_callers st @ [Stopped]\<rparr>)"

definition pp_close :: "nat \<Rightarrow> ('f, 'l, 'u) pp_state \<Rightarrow> ('f, 'l, 'u) pp_state outcome" where
  "pp_close i st =
     (if pd_closed (pt_daemon st) then Panicked ''close of closed channel''
      else Stepped (st\<lparr>pt_daemon := pt_daemon st\<lparr>pd_closed := True\<rparr>, pt_callers := (pt_callers st)[i := Draining]\<rparr>))"

definition pp_wait :: "nat \<Rightarrow> ('f, 'l, 'u) pp_state \<Rightarrow> ('f, 'l, 'u) pp_state outcome" where
  "pp_wait i st =
     (if list_ex (\<lambda>w. w \<noteq> Spawning \<and> w \<noteq> Exited) (pt_workers st) then Blocked
      else if pd_done (pt_daemon st) then Panicked ''close of closed channel''
      else Stepped (st\<lparr>pt_daemon := pt_daemon st\<lparr>pd_done := True\<rparr>, pt_callers := (pt_callers st)[i := Stopped]\<rparr>))"

definition caller_step :: "nat \<Rightarrow> ('f, 'l, 'u) pp_state \<Rightarrow> ('f, 'l, 'u) pp_state outcome" where
  "caller_step i st =
     (if length (pt_callers st) \<le> i then Blocked
      else case pt_callers st ! i of
             Submitting job \<Rightarrow> pp_send i job st
           | Closing \<Rightarrow> pp_close i st
           | Draining \<Rightarrow> pp_wait i st
           | _ \<Rightarrow> Blocked)"

definition worker_step ::
  "pp_env \<Rightarrow> nat \<Rightarrow> ctx \<Rightarrow> ('f, 'l, 'u) pp_state \<Rightarrow> ('f, 'l, 'u) pp_state outcome" where
  "worker_step env i c st =
     (let d = pt_daemon st; cfg = pd_cfg d; become = (\<lambda>w. (pt_workers st)[i := w]) in
      if length (pt_workers st) \<le> i then Blocked
      else case pt_workers st ! i of
             Spawning \<Rightarrow> Stepped (st\<lparr>pt_workers := become Receiving\<rparr>)
           | Receiving \<Rightarrow>
               (case pd_queue d of
                  job # jobs \<Rightarrow> Stepped (st\<lparr>pt_daemon := d\<lparr>pd_queue := jobs\<rparr>, pt_workers := become (Extracting job)\<rparr>)
                | [] \<Rightarrow> if pd_closed d then Stepped (st\<lparr>pt_workers := become Exited\<rparr>) else Blocked)
           | Extracting job \<Rightarrow>
               (let (r, f, t) = process_job env cfg c job (pt_fast st) (pt_ticks st)
                in Stepped (st\<lparr>pt_workers := become (Counting job r), pt_fast := f, pt_ticks := t\<rparr>))
           | Counting job r \<Rightarrow>
               Stepped (st\<lparr>pt_daemon := count_result r d, pt_workers := become (Recording job r)\<rparr>)
           | Recording job r \<Rightarrow>
               Stepped (st\<lparr>pt_workers := become (Notifying r), pt_log := record_result cfg c job r (pt_log st)\<rparr>)
           | Notifying r \<Rightarrow>
               Stepped (st\<lparr>pt_workers := become Receiving, pt_user := notify cfg r (pt_user st)\<rparr>)
           | Exited \<Rightarrow> Blocked)"

datatype action = CallStart | CallSubmit pp_job | CallStop | Caller nat | Worker nat ctx

fun pp_step :: "pp_env \<Rightarrow> action \<Rightarrow> ('f, 'l, 'u) pp_state \<Rightarrow> ('f, 'l, 'u) pp_state outcome" where
  "pp_step env CallStart st = Stepped (pp_start st)"
| "pp_step env (CallSubmit job) st = Stepped (pp_submit job st)"
| "pp_step env CallStop st = Stepped (pp_stop st)"
| "pp_step env (Caller i) st = caller_step i st"
| "pp_step env (Worker i c) st = worker_step env i c st"

fun pp_steps :: "pp_env \<Rightarrow> action list \<Rightarrow> ('f, 'l, 'u) pp_state \<Rightarrow> ('f, 'l, 'u) pp_state outcome" where
  "pp_steps env [] st = Stepped st"
| "pp_steps env (a # as) st = (case pp_step env a st of Stepped st1 \<Rightarrow> pp_steps env as st1 | out \<Rightarrow> out)"

inductive pp_reach :: "pp_env \<Rightarrow> ('f, 'l, 'u) pp_state \<Rightarrow> ('f, 'l, 'u) pp_state \<Rightarrow> bool" for env st0 where
  reach_refl: "pp_reach env st0 st0"
| reach_step: "pp_reach env st0 st \<Longrightarrow> pp_step env a st = Stepped st' \<Longrightarrow> pp_reach env st0 st'"

subsection \<open>The steps one by one\<close>

lemma worker_step_cases:
  assumes "worker_step env i c st = Stepped st'"
  obtains (spawning) "pt_workers st ! i = Spawning"
      "st' = st\<lparr>pt_workers := (pt_workers st)[i := Receiving]\<rparr>" "i < length (pt_workers st)"
  | (receiving) job jobs where "pt_workers st ! i = Receiving" "pd_queue (pt_daemon st) = job # jobs"
      "st' = st\<lparr>pt_daemon := pt_daemon st\<lparr>pd_queue := jobs\<rparr>, pt_workers := (pt_workers st)[i := Extracting job]\<rparr>"
      "i < length (pt_workers st)"
  | (leaving) "pt_workers st ! i = Receiving" "pd_queue (pt_daemon st) = []" "pd_closed (pt_daemon st)"
      "st' = st\<lparr>pt_workers := (pt_workers st)[i := Exited]\<rparr>" "i < length (pt_workers st)"
  | (extracting) job r f t where "pt_workers st ! i = Extracting job"
      "process_job env (pd_cfg (pt_daemon st)) c job (pt_fast st) (pt_ticks st) = (r, f, t)"
      "st' = st\<lparr>pt_workers := (pt_workers st)[i := Counting job r], pt_fast := f, pt_ticks := t\<rparr>"
      "i < length (pt_workers st)"
  | (counting) job r where "pt_workers st ! i = Counting job r"
      "st' = st\<lparr>pt_daemon := count_result r (pt_daemon st), pt_workers := (pt_workers st)[i := Recording job r]\<rparr>"
      "i < length (pt_workers st)"
  | (recording) job r where "pt_workers st ! i = Recording job r"
      "st' = st\<lparr>pt_workers := (pt_workers st)[i := Notifying r],
                pt_log := record_result (pd_cfg (pt_daemon st)) c job r (pt_log st)\<rparr>"
      "i < length (pt_workers st)"
  | (notifying) r where "pt_workers st ! i = Notifying r"
      "st' = st\<lparr>pt_workers := (pt_workers st)[i := Receiving],
                pt_user := notify (pd_cfg (pt_daemon st)) r (pt_user st)\<rparr>"
      "i < length (pt_workers st)"
proof (cases "pt_workers st ! i")
  case Spawning
  with assms show ?thesis
    by (intro spawning) (auto simp: worker_step_def Let_def split: if_splits)
next
  case Receiving
  with assms show ?thesis
    by (auto simp: worker_step_def Let_def split: if_splits list.splits intro: receiving leaving)
next
  case (Extracting job)
  obtain r f t where job: "process_job env (pd_cfg (pt_daemon st)) c job (pt_fast st) (pt_ticks st) = (r, f, t)"
    by (metis prod.collapse)
  from Extracting job _ _ show ?thesis
    using assms by (intro extracting [of job r f t]) (auto simp: worker_step_def Let_def split: if_splits)
next
  case (Counting job r)
  with assms show ?thesis
    by (intro counting [of job r]) (auto simp: worker_step_def Let_def split: if_splits)
next
  case (Recording job r)
  with assms show ?thesis
    by (intro recording [of job r]) (auto simp: worker_step_def Let_def split: if_splits)
next
  case (Notifying r)
  with assms show ?thesis
    by (intro notifying [of r]) (auto simp: worker_step_def Let_def split: if_splits)
next
  case Exited
  with assms show ?thesis by (simp add: worker_step_def Let_def split: if_splits)
qed

lemma caller_step_cases:
  assumes "caller_step i st = Stepped st'"
  obtains (send) job where "pt_callers st ! i = Submitting job" "\<not> pd_closed (pt_daemon st)"
      "length (pd_queue (pt_daemon st)) < queue_cap (pt_daemon st)"
      "st' = st\<lparr>pt_daemon := pt_daemon st\<lparr>pd_queue := pd_queue (pt_daemon st) @ [job]\<rparr>,
                pt_callers := (pt_callers st)[i := Accepted job]\<rparr>" "i < length (pt_callers st)"
  | (full) job where "pt_callers st ! i = Submitting job" "\<not> pd_closed (pt_daemon st)"
      "queue_cap (pt_daemon st) \<le> length (pd_queue (pt_daemon st))"
      "st' = st\<lparr>pt_callers := (pt_callers st)[i := Refused job]\<rparr>" "i < length (pt_callers st)"
  | (closing) "pt_callers st ! i = Closing" "\<not> pd_closed (pt_daemon st)"
      "st' = st\<lparr>pt_daemon := pt_daemon st\<lparr>pd_closed := True\<rparr>, pt_callers := (pt_callers st)[i := Draining]\<rparr>"
      "i < length (pt_callers st)"
  | (drained) "pt_callers st ! i = Draining" "list_all (\<lambda>w. w = Spawning \<or> w = Exited) (pt_workers st)"
      "st' = st\<lparr>pt_daemon := pt_daemon st\<lparr>pd_done := True\<rparr>, pt_callers := (pt_callers st)[i := Stopped]\<rparr>"
      "i < length (pt_callers st)"
proof (cases "pt_callers st ! i")
  case (Submitting job)
  with assms show ?thesis
    by (auto simp: caller_step_def pp_send_def Let_def not_less split: if_splits intro: send full)
next
  case Closing
  with assms show ?thesis
    by (auto simp: caller_step_def pp_close_def split: if_splits intro: closing)
next
  case Draining
  with assms show ?thesis
    by (auto simp: caller_step_def pp_wait_def list_ex_iff list_all_iff split: if_splits intro: drained)
qed (use assms in \<open>simp_all add: caller_step_def split: if_splits\<close>)

lemma pp_step_cfg:
  assumes "pp_step env a st = Stepped st'"
  shows "pd_cfg (pt_daemon st') = pd_cfg (pt_daemon st)"
proof (cases a)
  case (Caller i)
  with assms have "caller_step i st = Stepped st'" by simp
  then show ?thesis by (cases rule: caller_step_cases) simp_all
next
  case (Worker i c)
  with assms have "worker_step env i c st = Stepped st'" by simp
  then show ?thesis by (cases rule: worker_step_cases) (simp_all add: count_result_def Let_def)
qed (use assms in \<open>auto simp: pp_start_def pp_submit_def pp_stop_def\<close>)

subsection \<open>What callers and workers hold\<close>

fun accepted_by :: "caller \<Rightarrow> string list" where
  "accepted_by (Accepted job) = [jb_id job]"
| "accepted_by _ = []"

fun uncounted :: "worker \<Rightarrow> string list" where
  "uncounted (Extracting job) = [jb_id job]"
| "uncounted (Counting job r) = [jb_id job]"
| "uncounted _ = []"

fun unrecorded :: "worker \<Rightarrow> pp_result list" where
  "unrecorded (Recording job r) = [r]"
| "unrecorded _ = []"

fun unnotified :: "worker \<Rightarrow> pp_result list" where
  "unnotified (Recording job r) = [r]"
| "unnotified (Notifying r) = [r]"
| "unnotified _ = []"

fun drain_weight :: "worker \<Rightarrow> nat" where
  "drain_weight Spawning = 2"
| "drain_weight Receiving = 1"
| "drain_weight (Extracting job) = 5"
| "drain_weight (Counting job r) = 4"
| "drain_weight (Recording job r) = 3"
| "drain_weight (Notifying r) = 2"
| "drain_weight Exited = 0"

definition held :: "('w \<Rightarrow> 'a list) \<Rightarrow> 'w list \<Rightarrow> 'a multiset" where
  "held f ws = mset (concat (map f ws))"

lemma held_simps [simp]:
  "held f [] = {#}" "held f (ws @ vs) = held f ws + held f vs"
  "f w = [] \<Longrightarrow> held f (replicate n w) = {#}" "held f [w] = mset (f w)"
  by (induction n) (simp_all add: held_def)

lemma held_update:
  assumes "i < length ws"
  shows "held f (ws[i := w]) + mset (f (ws ! i)) = held f ws + mset (f w)"
proof -
  have "held f ws = held f (take i ws @ ws ! i # drop (Suc i) ws)"
    using assms by (simp flip: id_take_nth_drop)
  then show ?thesis
    using assms by (simp add: upd_conv_take_nth_drop held_def)
qed

lemma held_same [simp]: "i < length ws \<Longrightarrow> f (ws ! i) = f w \<Longrightarrow> held f (ws[i := w]) = held f ws"
  using held_update [of i ws f w] by simp

lemma held_gone: "i < length ws \<Longrightarrow> f w = [] \<Longrightarrow> held f (ws[i := w]) + mset (f (ws ! i)) = held f ws"
  using held_update [of i ws f w] by simp

lemma held_new: "i < length ws \<Longrightarrow> f (ws ! i) = [] \<Longrightarrow> held f (ws[i := w]) = held f ws + mset (f w)"
  using held_update [of i ws f w] by simp

subsection \<open>What a result is\<close>

text \<open>A result has a valid extraction or an error, never both.\<close>

definition result_ok :: "pp_result \<Rightarrow> bool" where
  "result_ok r \<longleftrightarrow>
     (case pr_extraction r of
        None \<Rightarrow> pr_error r \<noteq> None
      | Some x \<Rightarrow> pr_error r = None \<and> typed_ok x \<and> extraction_validate x = None)"

lemma parse_extraction_typed: "parse_extraction u now raw = Inr x \<Longrightarrow> typed_ok x"
  by (auto simp: parse_extraction_def Let_def typed_extraction_ok split: sum.splits)

lemma process_job_ok:
  assumes "process_job env cfg c job f t = (r, f1, t1)"
  shows "result_ok r \<and> pr_job r = jb_id job"
  using assms parse_extraction_typed
  by (auto simp: process_job_def Let_def result_ok_def split: prod.splits sum.splits option.splits)

fun worker_ok :: "worker \<Rightarrow> bool" where
  "worker_ok (Counting job r) = (result_ok r \<and> pr_job r = jb_id job)"
| "worker_ok (Recording job r) = (result_ok r \<and> pr_job r = jb_id job)"
| "worker_ok (Notifying r) = result_ok r"
| "worker_ok _ = True"

subsection \<open>The invariant of the daemon\<close>

text \<open>Its counters are those of the results it keeps.\<close>

definition counters_ok :: "('f, 'l, 'u) pp_daemon \<Rightarrow> bool" where
  "counters_ok d \<longleftrightarrow>
     pd_total d = of_nat (length (pd_results d))
     \<and> pd_ok d = of_nat (length (filter succeeded (pd_results d)))
     \<and> pd_err d = of_nat (length (filter (\<lambda>r. \<not> succeeded r) (pd_results d)))
     \<and> pd_ms d = sum_list (map (\<lambda>r. word_of_int (pr_latency r)) (filter succeeded (pd_results d)))"

lemma counters_ok_count: "counters_ok d \<Longrightarrow> counters_ok (count_result r d)"
  by (simp add: counters_ok_def count_result_def Let_def add.commute)

lemma count_result_simps [simp]:
  "pd_results (count_result r d) = pd_results d @ [r]" "pd_cfg (count_result r d) = pd_cfg d"
  "pd_queue (count_result r d) = pd_queue d" "pd_closed (count_result r d) = pd_closed d"
  "pd_running (count_result r d) = pd_running d" "pd_done (count_result r d) = pd_done d"
  by (simp_all add: count_result_def Let_def)

text \<open>No job is lost or doubled; every result is one; the queue keeps to its capacity.\<close>

definition jobs_inv :: "('f, 'l, 'u) pp_state \<Rightarrow> bool" where
  "jobs_inv st \<longleftrightarrow>
     counters_ok (pt_daemon st) \<and> length (pd_queue (pt_daemon st)) \<le> queue_cap (pt_daemon st)
     \<and> held accepted_by (pt_callers st) =
         mset (map pr_job (pd_results (pt_daemon st))) + mset (map jb_id (pd_queue (pt_daemon st)))
         + held uncounted (pt_workers st)
     \<and> list_all result_ok (pd_results (pt_daemon st)) \<and> list_all worker_ok (pt_workers st)"

lemma list_all_update: "list_all P xs \<Longrightarrow> P x \<Longrightarrow> list_all P (xs[i := x])"
  using set_update_subset_insert [of xs i x] by (auto simp: list_all_iff)

lemma jobs_inv_caller:
  assumes "jobs_inv st" "caller_step i st = Stepped st'"
  shows "jobs_inv st'"
  using assms(2)
proof (cases rule: caller_step_cases)
  case (send job)
  with assms(1) show ?thesis
    by (simp add: jobs_inv_def counters_ok_def queue_cap_def held_new)
next
  case (full job)
  with assms(1) show ?thesis by (simp add: jobs_inv_def)
next
  case closing
  with assms(1) show ?thesis by (simp add: jobs_inv_def counters_ok_def queue_cap_def)
next
  case drained
  with assms(1) show ?thesis by (simp add: jobs_inv_def counters_ok_def queue_cap_def)
qed

lemma jobs_inv_worker:
  assumes "jobs_inv st" "worker_step env i c st = Stepped st'"
  shows "jobs_inv st'"
  using assms(2)
proof (cases rule: worker_step_cases)
  case spawning
  with assms(1) show ?thesis by (simp add: jobs_inv_def list_all_update)
next
  case (receiving job jobs)
  with assms(1) show ?thesis
    by (simp add: jobs_inv_def counters_ok_def queue_cap_def held_new list_all_update)
next
  case leaving
  with assms(1) show ?thesis by (simp add: jobs_inv_def list_all_update)
next
  case (extracting job r f t)
  with assms(1) process_job_ok [OF extracting(2)] show ?thesis
    by (simp add: jobs_inv_def list_all_update)
next
  case (counting job r)
  have "worker_ok (Counting job r)"
    using assms(1) counting(1,3) by (metis jobs_inv_def list_all_length)
  moreover have "held uncounted (pt_workers st) = held uncounted (pt_workers st') + {#jb_id job#}"
    using counting held_gone [of i "pt_workers st" uncounted "Recording job r"] by simp
  ultimately show ?thesis
    using assms(1) counting by (simp add: jobs_inv_def counters_ok_count queue_cap_def list_all_update)
next
  case (recording job r)
  have "worker_ok (Recording job r)"
    using assms(1) recording(1,3) by (metis jobs_inv_def list_all_length)
  with assms(1) recording show ?thesis by (simp add: jobs_inv_def list_all_update)
next
  case (notifying r)
  with assms(1) show ?thesis by (simp add: jobs_inv_def list_all_update)
qed

lemma jobs_inv_step:
  assumes "jobs_inv st" "pp_step env a st = Stepped st'"
  shows "jobs_inv st'"
proof (cases a)
  case CallStart
  with assms show ?thesis
    by (cases "pd_running (pt_daemon st)")
      (auto simp: jobs_inv_def pp_start_def counters_ok_def queue_cap_def list_all_iff)
next
  case (CallSubmit job)
  with assms show ?thesis by (auto simp: jobs_inv_def pp_submit_def)
next
  case CallStop
  with assms show ?thesis by (auto simp: jobs_inv_def pp_stop_def counters_ok_def queue_cap_def)
qed (use assms jobs_inv_caller jobs_inv_worker in auto)

lemma new_pp_daemon_fields:
  assumes "new_pp_daemon cfg = Inr d"
  shows "pd_queue d = []" "pd_results d = []" "\<not> pd_closed d" "\<not> pd_running d" "\<not> pd_done d" "counters_ok d"
    "0 < queue_cap d" "0 < pc_max_workers (pd_cfg d)" "pc_adapter (pd_cfg d) = pc_adapter cfg"
    "pc_event_log (pd_cfg d) = pc_event_log cfg" "pc_on_result (pd_cfg d) = pc_on_result cfg"
  using assms
  by (auto simp: new_pp_daemon_def Let_def counters_ok_def queue_cap_def split: if_splits)

lemma jobs_inv_reach:
  assumes "pp_reach env (initial_state d f l u) st" "new_pp_daemon cfg = Inr d"
  shows "jobs_inv st"
  using assms(1)
proof induction
  case reach_refl
  show ?case
    using new_pp_daemon_fields [OF assms(2)] by (simp add: jobs_inv_def initial_state_def)
qed (rule jobs_inv_step)

lemma pp_reach_cfg:
  "pp_reach env st0 st \<Longrightarrow> pd_cfg (pt_daemon st) = pd_cfg (pt_daemon st0)"
  by (induction rule: pp_reach.induct) (auto dest: pp_step_cfg)

subsection \<open>The spine and the callback\<close>

text \<open>The event of a successful result.\<close>

definition spine_event :: "pp_result \<Rightarrow> event \<Rightarrow> bool" where
  "spine_event r e \<longleftrightarrow>
     ev_id e = pr_job r @ ''.extract'' \<and> ev_kind e = KindPreprocessExtract \<and> ev_ts e = pr_timestamp r
     \<and> (\<exists>x. pr_extraction r = Some x \<and> ev_meta e = extraction_meta x)"

abbreviation appends_to :: "(ctx \<Rightarrow> event \<Rightarrow> 'l \<Rightarrow> goerr option \<times> 'l) \<Rightarrow> (ctx \<times> event) list \<Rightarrow> 'l \<Rightarrow> 'l" where
  "appends_to app \<equiv> fold (\<lambda>(c, e) s. snd (app c e s))"

definition log_inv ::
  "(ctx \<Rightarrow> event \<Rightarrow> 'l \<Rightarrow> goerr option \<times> 'l) \<Rightarrow> 'l \<Rightarrow> ('f, 'l, 'u) pp_state \<Rightarrow> bool" where
  "log_inv app l st \<longleftrightarrow>
     (\<exists>rs es. pt_log st = appends_to app es l \<and> list_all2 spine_event rs (map snd es)
        \<and> mset rs + filter_mset succeeded (held unrecorded (pt_workers st))
            = mset (filter succeeded (pd_results (pt_daemon st))))"

definition user_inv :: "'u \<Rightarrow> ('f, 'l, 'u) pp_state \<Rightarrow> bool" where
  "user_inv u st \<longleftrightarrow>
     (\<exists>rs. pt_user st = fold (notify (pd_cfg (pt_daemon st))) rs u
        \<and> mset rs + held unnotified (pt_workers st) = mset (pd_results (pt_daemon st)))"

lemma record_result_log:
  assumes "result_ok r" "pr_job r = jb_id job" "pc_event_log cfg = Some app"
  shows "\<not> succeeded r \<and> record_result cfg c job r l = l
    \<or> succeeded r \<and> (\<exists>e. spine_event r e \<and> record_result cfg c job r l = snd (app c e l))"
proof (cases "pr_extraction r")
  case None
  with assms(1) show ?thesis by (simp add: succeeded_def record_result_def)
next
  case (Some x)
  with assms(1) have "succeeded r" by (simp add: succeeded_def result_ok_def)
  moreover have "spine_event r (extract_event job r x)"
    using Some assms(2) by (simp add: spine_event_def extract_event_def)
  ultimately show ?thesis
    using Some assms(3) by (auto simp: record_result_def)
qed

lemma log_inv_worker:
  assumes "log_inv app l st" "jobs_inv st" "pc_event_log (pd_cfg (pt_daemon st)) = Some app"
    "worker_step env i c st = Stepped st'"
  shows "log_inv app l st'"
  using assms(4)
proof (cases rule: worker_step_cases)
  case (counting job r)
  have "held unrecorded (pt_workers st') = held unrecorded (pt_workers st) + {#r#}"
    using counting held_new [of i "pt_workers st" unrecorded "Recording job r"] by simp
  with assms(1) counting show ?thesis by (auto simp: log_inv_def)
next
  case (recording job r)
  have ok: "result_ok r" "pr_job r = jb_id job"
    using assms(2) recording(1,3) by (metis jobs_inv_def list_all_length worker_ok.simps(2))+
  obtain rs es where log: "pt_log st = appends_to app es l" "list_all2 spine_event rs (map snd es)"
    "mset rs + filter_mset succeeded (held unrecorded (pt_workers st))
       = mset (filter succeeded (pd_results (pt_daemon st)))"
    using assms(1) by (auto simp: log_inv_def)
  have gone: "held unrecorded (pt_workers st) = held unrecorded (pt_workers st') + {#r#}"
    using recording held_gone [of i "pt_workers st" unrecorded "Notifying r"] by simp
  from record_result_log [OF ok assms(3), of c "pt_log st"] show ?thesis
  proof (elim disjE conjE exE)
    fix e assume "succeeded r" "spine_event r e" "record_result (pd_cfg (pt_daemon st)) c job r (pt_log st) = snd (app c e (pt_log st))"
    with log gone recording show ?thesis
      unfolding log_inv_def by (intro exI [of _ "rs @ [r]"] exI [of _ "es @ [(c, e)]"]) (simp add: list_all2_appendI)
  qed (use log gone recording in \<open>auto simp: log_inv_def\<close>)
qed (use assms(1) in \<open>auto simp: log_inv_def\<close>)

lemma user_inv_worker:
  assumes "user_inv u st" "worker_step env i c st = Stepped st'"
  shows "user_inv u st'"
  using assms(2)
proof (cases rule: worker_step_cases)
  case (counting job r)
  have "held unnotified (pt_workers st') = held unnotified (pt_workers st) + {#r#}"
    using counting held_new [of i "pt_workers st" unnotified "Recording job r"] by simp
  with assms(1) counting show ?thesis by (auto simp: user_inv_def)
next
  case (notifying r)
  have gone: "held unnotified (pt_workers st) = held unnotified (pt_workers st') + {#r#}"
    using notifying held_gone [of i "pt_workers st" unnotified Receiving] by simp
  obtain rs where rs: "pt_user st = fold (notify (pd_cfg (pt_daemon st))) rs u"
    "mset rs + held unnotified (pt_workers st) = mset (pd_results (pt_daemon st))"
    using assms(1) by (auto simp: user_inv_def)
  with gone notifying show ?thesis
    unfolding user_inv_def by (intro exI [of _ "rs @ [r]"]) simp
qed (use assms(1) in \<open>auto simp: user_inv_def\<close>)

text \<open>What is not a step of a worker leaves results, spine and callback alone.\<close>

lemma other_step:
  assumes "pp_step env a st = Stepped st'" "\<forall>i c. a \<noteq> Worker i c"
  shows "pt_log st' = pt_log st \<and> pt_user st' = pt_user st \<and> pd_results (pt_daemon st') = pd_results (pt_daemon st)
    \<and> (\<exists>n. pt_workers st' = pt_workers st @ replicate n Spawning)"
proof (cases a)
  case CallStart
  with assms(1) show ?thesis by (auto simp: pp_start_def intro: exI [of _ 0])
next
  case (CallSubmit job)
  with assms(1) show ?thesis by (auto simp: pp_submit_def intro: exI [of _ 0])
next
  case CallStop
  with assms(1) show ?thesis by (auto simp: pp_stop_def intro: exI [of _ 0])
next
  case (Caller i)
  with assms(1) have "caller_step i st = Stepped st'" by simp
  then show ?thesis by (cases rule: caller_step_cases) (auto intro: exI [of _ 0])
qed (use assms(2) in simp)

lemma log_user_step:
  assumes "log_inv app l st" "user_inv u st" "jobs_inv st"
    "pc_event_log (pd_cfg (pt_daemon st)) = Some app" "pp_step env a st = Stepped st'"
  shows "log_inv app l st' \<and> user_inv u st'"
proof (cases "\<exists>i c. a = Worker i c")
  case True
  with assms show ?thesis by (auto intro: log_inv_worker user_inv_worker)
next
  case False
  then obtain n where "pt_log st' = pt_log st" "pt_user st' = pt_user st"
    "pd_results (pt_daemon st') = pd_results (pt_daemon st)" "pt_workers st' = pt_workers st @ replicate n Spawning"
    using other_step [OF assms(5)] by blast
  with pp_step_cfg [OF assms(5)] assms(1,2) show ?thesis
    by (simp add: log_inv_def user_inv_def)
qed

lemma log_user_reach:
  assumes "pp_reach env (initial_state d f l u) st" "new_pp_daemon cfg = Inr d" "pc_event_log cfg = Some app"
  shows "log_inv app l st \<and> user_inv u st"
  using assms(1)
proof induction
  case reach_refl
  show ?case
    using new_pp_daemon_fields(2) [OF assms(2)]
    by (auto simp: log_inv_def user_inv_def initial_state_def intro!: exI [of _ "[]"])
next
  case (reach_step st a st')
  have cfg: "pc_event_log (pd_cfg (pt_daemon st)) = Some app"
    using pp_reach_cfg [OF reach_step(1)] new_pp_daemon_fields(10) [OF assms(2)] assms(3)
    by (simp add: initial_state_def)
  from reach_step(3) show ?case
    by (elim conjE) (rule log_user_step [OF _ _ jobs_inv_reach [OF reach_step(1) assms(2)] cfg reach_step(2)])
qed

text \<open>
  C30. In every state that callers and workers reach in any order, the counters of the daemon are those of
  the results it keeps, the queue stays within its capacity, every result has a valid extraction or an
  error, and no accepted job is lost or doubled: it is a result, in the queue or in the hands of one
  worker. The event log has been asked for exactly one event for every successful result whose worker is
  past that point, with the metadata of its extraction, and the callback got every result exactly once.
\<close>

theorem preprocess_accounts:
  assumes "new_pp_daemon cfg = Inr d" and "pc_event_log cfg = Some app"
    and "pp_reach env (initial_state d f l u) st"
  shows "let rs = pd_results (pt_daemon st) in
     counters_ok (pt_daemon st) \<and> length (pd_queue (pt_daemon st)) \<le> queue_cap (pt_daemon st)
     \<and> list_all result_ok rs
     \<and> held accepted_by (pt_callers st) =
         mset (map pr_job rs) + mset (map jb_id (pd_queue (pt_daemon st))) + held uncounted (pt_workers st)
     \<and> (\<exists>recorded es. pt_log st = appends_to app es l \<and> list_all2 spine_event recorded (map snd es)
          \<and> mset recorded + filter_mset succeeded (held unrecorded (pt_workers st)) = mset (filter succeeded rs))
     \<and> (\<exists>told. pt_user st = fold (notify cfg) told u \<and> mset told + held unnotified (pt_workers st) = mset rs)"
proof -
  have "notify (pd_cfg (pt_daemon st)) = notify cfg"
    using pp_reach_cfg [OF assms(3)] new_pp_daemon_fields(11) [OF assms(1)]
    by (intro ext) (simp add: initial_state_def notify_def)
  then show ?thesis
    using jobs_inv_reach [OF assms(3,1)] log_user_reach [OF assms(3,1,2)]
    by (simp only: jobs_inv_def log_inv_def user_inv_def Let_def)
qed

subsection \<open>Stopping\<close>

definition draining_mark :: "caller \<Rightarrow> unit list" where
  "draining_mark c = (if c = Draining then [()] else [])"

fun pending_caller :: "caller \<Rightarrow> bool" where
  "pending_caller (Submitting job) = True"
| "pending_caller Closing = True"
| "pending_caller _ = False"

text \<open>
  A worker leaves only a closed and empty queue; whoever is still to touch the queue found workers; and
  the one caller that closed the queue is still waiting or has closed \<open>done\<close>.
\<close>

definition shape_inv :: "('f, 'l, 'u) pp_state \<Rightarrow> bool" where
  "shape_inv st \<longleftrightarrow>
     (Exited \<in> set (pt_workers st) \<longrightarrow> pd_closed (pt_daemon st) \<and> pd_queue (pt_daemon st) = [])
     \<and> (pd_running (pt_daemon st) \<or> pd_closed (pt_daemon st) \<or> pd_queue (pt_daemon st) \<noteq> []
          \<or> list_ex pending_caller (pt_callers st) \<longrightarrow> pt_workers st \<noteq> [])
     \<and> size (held draining_mark (pt_callers st)) + of_bool (pd_done (pt_daemon st))
         = of_bool (pd_closed (pt_daemon st))
     \<and> 0 < pc_max_workers (pd_cfg (pt_daemon st))"

lemma list_ex_pending_update:
  "list_ex pending_caller (cs[i := c]) \<Longrightarrow> \<not> pending_caller c \<Longrightarrow> list_ex pending_caller cs"
  using set_update_subset_insert [of cs i c] by (auto simp: list_ex_iff)

lemma shape_inv_caller:
  assumes "shape_inv st" "caller_step i st = Stepped st'"
  shows "shape_inv st'"
  using assms(2)
proof (cases rule: caller_step_cases)
  case (send job)
  have "list_ex pending_caller (pt_callers st)"
    using send(1,5) by (auto simp: list_ex_length)
  moreover have "held draining_mark ((pt_callers st)[i := Accepted job]) = held draining_mark (pt_callers st)"
    using send by (simp add: draining_mark_def)
  ultimately show ?thesis
    using assms(1) send by (auto simp: shape_inv_def)
next
  case (full job)
  have "held draining_mark ((pt_callers st)[i := Refused job]) = held draining_mark (pt_callers st)"
    using full by (simp add: draining_mark_def)
  then show ?thesis
    using assms(1) full list_ex_pending_update [of "pt_callers st" i "Refused job"] by (auto simp: shape_inv_def)
next
  case closing
  have "list_ex pending_caller (pt_callers st)"
    using closing(1,4) by (auto simp: list_ex_length)
  moreover have "held draining_mark ((pt_callers st)[i := Draining]) = held draining_mark (pt_callers st) + {#()#}"
    using closing held_new [of i "pt_callers st" draining_mark Draining] by (simp add: draining_mark_def)
  ultimately show ?thesis
    using assms(1) closing by (auto simp: shape_inv_def)
next
  case drained
  have "held draining_mark (pt_callers st) = held draining_mark ((pt_callers st)[i := Stopped]) + {#()#}"
    using drained held_gone [of i "pt_callers st" draining_mark Stopped] by (simp add: draining_mark_def)
  then show ?thesis
    using assms(1) drained list_ex_pending_update [of "pt_callers st" i Stopped]
    by (auto simp: shape_inv_def of_bool_def split: if_splits)
qed

lemma draining_held:
  "i < length cs \<Longrightarrow> cs ! i = Draining \<Longrightarrow> held draining_mark cs \<noteq> {#}"
  using held_gone [of i cs draining_mark Stopped] by (auto simp: draining_mark_def)

lemma in_list_update: "x \<in> set (xs[i := y]) \<Longrightarrow> x = y \<or> x \<in> set xs"
  using set_update_subset_insert [of xs i y] by blast

lemma shape_inv_worker:
  assumes "shape_inv st" "worker_step env i c st = Stepped st'"
  shows "shape_inv st'"
  using assms(2)
proof (cases rule: worker_step_cases)
  case spawning
  with assms(1) show ?thesis by (auto simp: shape_inv_def dest: in_list_update)
next
  case (receiving job jobs)
  with assms(1) show ?thesis by (auto simp: shape_inv_def dest: in_list_update)
next
  case leaving
  with assms(1) show ?thesis by (auto simp: shape_inv_def)
next
  case (extracting job r f t)
  with assms(1) show ?thesis by (auto simp: shape_inv_def dest: in_list_update)
next
  case (counting job r)
  with assms(1) show ?thesis by (auto simp: shape_inv_def dest: in_list_update)
next
  case (recording job r)
  with assms(1) show ?thesis by (auto simp: shape_inv_def dest: in_list_update)
next
  case (notifying r)
  with assms(1) show ?thesis by (auto simp: shape_inv_def dest: in_list_update)
qed

lemma shape_inv_step:
  assumes "shape_inv st" "pp_step env a st = Stepped st'"
  shows "shape_inv st'"
proof (cases a)
  case CallStart
  with assms show ?thesis
    by (cases "pd_running (pt_daemon st)") (auto simp: shape_inv_def pp_start_def of_bool_def split: if_splits)
next
  case (CallSubmit job)
  with assms show ?thesis
    by (cases "pd_running (pt_daemon st)") (auto simp: shape_inv_def pp_submit_def draining_mark_def of_bool_def split: if_splits)
next
  case CallStop
  with assms show ?thesis
    by (cases "pd_running (pt_daemon st)") (auto simp: shape_inv_def pp_stop_def draining_mark_def of_bool_def split: if_splits)
qed (use assms shape_inv_caller shape_inv_worker in auto)

lemma shape_inv_reach:
  assumes "pp_reach env (initial_state d f l u) st" "new_pp_daemon cfg = Inr d"
  shows "shape_inv st"
  using assms(1)
proof induction
  case reach_refl
  show ?case
    using new_pp_daemon_fields [OF assms(2)] by (simp add: shape_inv_def initial_state_def)
qed (rule shape_inv_step)

text \<open>How many steps the workers still have to make.\<close>

definition drain_steps :: "('f, 'l, 'u) pp_state \<Rightarrow> nat" where
  "drain_steps st = 5 * length (pd_queue (pt_daemon st)) + sum_list (map drain_weight (pt_workers st))"

lemma sum_list_map_update:
  fixes g :: "'w \<Rightarrow> nat"
  assumes "i < length ws"
  shows "sum_list (map g (ws[i := w])) + g (ws ! i) = sum_list (map g ws) + g w"
proof -
  have "sum_list (map g ws) = sum_list (map g (take i ws @ ws ! i # drop (Suc i) ws))"
    using assms by (simp flip: id_take_nth_drop)
  then show ?thesis
    using assms by (simp add: upd_conv_take_nth_drop)
qed

lemma worker_step_drains:
  assumes "worker_step env i c st = Stepped st'"
  shows "drain_steps st = Suc (drain_steps st')"
proof -
  note change = sum_list_map_update [of i "pt_workers st" drain_weight]
  from assms show ?thesis
  proof (cases rule: worker_step_cases)
    case spawning
    then show ?thesis using change [of Receiving] by (simp add: drain_steps_def)
  next
    case (receiving job jobs)
    then show ?thesis using change [of "Extracting job"] by (simp add: drain_steps_def)
  next
    case leaving
    then show ?thesis using change [of Exited] by (simp add: drain_steps_def)
  next
    case (extracting job r f t)
    then show ?thesis using change [of "Counting job r"] by (simp add: drain_steps_def)
  next
    case (counting job r)
    then show ?thesis using change [of "Recording job r"] by (simp add: drain_steps_def)
  next
    case (recording job r)
    then show ?thesis using change [of "Notifying r"] by (simp add: drain_steps_def)
  next
    case (notifying r)
    then show ?thesis using change [of Receiving] by (simp add: drain_steps_def)
  qed
qed

lemma worker_can_step:
  assumes "i < length (pt_workers st)" "pt_workers st ! i \<noteq> Exited" "pd_closed (pt_daemon st)"
  shows "\<exists>st'. worker_step env i c st = Stepped st'"
  using assms
  by (cases "pt_workers st ! i"; cases "pd_queue (pt_daemon st)")
    (simp_all add: worker_step_def Let_def split: prod.splits)

fun of_worker :: "action \<Rightarrow> bool" where
  "of_worker (Worker i c) = True"
| "of_worker _ = False"

lemma pp_steps_reach:
  "pp_steps env as st = Stepped st' \<Longrightarrow> pp_reach env st0 st \<Longrightarrow> pp_reach env st0 st'"
  by (induction as arbitrary: st) (auto split: outcome.splits intro: reach_step)

lemma worker_steps_drain:
  "pp_steps env as st = Stepped st' \<Longrightarrow> list_all of_worker as \<Longrightarrow>
     length as + drain_steps st' = drain_steps st \<and> pd_closed (pt_daemon st') = pd_closed (pt_daemon st)"
proof (induction as arbitrary: st)
  case (Cons a as)
  then obtain i c where a: "a = Worker i c" by (cases a) auto
  with Cons.prems obtain st1 where st1: "worker_step env i c st = Stepped st1" "pp_steps env as st1 = Stepped st'"
    by (auto split: outcome.splits)
  have "pd_closed (pt_daemon st1) = pd_closed (pt_daemon st)"
    using st1(1) by (cases rule: worker_step_cases) simp_all
  with Cons.IH [OF st1(2)] Cons.prems(2) worker_step_drains [OF st1(1)] show ?case by simp
qed simp

lemma drain_steps_0:
  assumes "drain_steps st = 0"
  shows "pd_queue (pt_daemon st) = [] \<and> list_all (\<lambda>w. w = Exited) (pt_workers st)
    \<and> held uncounted (pt_workers st) = {#} \<and> held unrecorded (pt_workers st) = {#}
    \<and> held unnotified (pt_workers st) = {#}"
proof -
  have "w = Exited" if "w \<in> set (pt_workers st)" for w
    using assms that by (cases w) (auto simp: drain_steps_def)
  then obtain n where ws: "pt_workers st = replicate n Exited"
    by (metis replicate_length_same)
  show ?thesis
    using assms by (simp add: ws drain_steps_def list_all_iff)
qed

text \<open>
  C31. Once the queue is closed, the workers alone always come to an end: each of their steps is one of a
  number fixed in advance, and until that is used up some worker can step, those that Start has still to
  spawn included. Then every accepted job has
  its one result and its one callback, the queue is empty, and the caller of Stop that waits returns.
\<close>

theorem stop_drains:
  assumes "new_pp_daemon cfg = Inr d" and "pc_event_log cfg = Some app"
    and "pp_reach env (initial_state d f l u) st" and "pd_closed (pt_daemon st)"
    and "list_all of_worker as" and "pp_steps env as st = Stepped st'"
  shows "length as + drain_steps st' = drain_steps st \<and>
    (if drain_steps st' = 0
     then pd_queue (pt_daemon st') = []
       \<and> held accepted_by (pt_callers st') = mset (map pr_job (pd_results (pt_daemon st')))
       \<and> (\<exists>told. pt_user st' = fold (notify cfg) told u \<and> mset told = mset (pd_results (pt_daemon st')))
       \<and> (pd_done (pt_daemon st') \<or>
            (\<exists>i st''. pp_step env (Caller i) st' = Stepped st'' \<and> pt_callers st'' ! i = Stopped
               \<and> pd_done (pt_daemon st'')))
     else \<exists>i. \<forall>c. \<exists>st''. pp_step env (Worker i c) st' = Stepped st'')"
proof -
  have reach: "pp_reach env (initial_state d f l u) st'"
    using assms(6,3) by (rule pp_steps_reach)
  note inv = jobs_inv_reach [OF reach assms(1)] log_user_reach [OF reach assms(1,2)]
    shape_inv_reach [OF reach assms(1)]
  have drain: "length as + drain_steps st' = drain_steps st" "pd_closed (pt_daemon st')"
    using worker_steps_drain [OF assms(6,5)] assms(4) by auto
  show ?thesis
  proof (cases "drain_steps st' = 0")
    case True
    note empty = drain_steps_0 [OF True]
    have "notify (pd_cfg (pt_daemon st')) = notify cfg"
      using pp_reach_cfg [OF reach] new_pp_daemon_fields(11) [OF assms(1)]
      by (intro ext) (simp add: initial_state_def notify_def)
    moreover have "\<exists>i st''. pp_step env (Caller i) st' = Stepped st'' \<and> pt_callers st'' ! i = Stopped
        \<and> pd_done (pt_daemon st'')" if "\<not> pd_done (pt_daemon st')"
    proof -
      have "held draining_mark (pt_callers st') \<noteq> {#}"
        using inv(3) drain(2) that by (auto simp: shape_inv_def)
      then obtain i where "i < length (pt_callers st')" "pt_callers st' ! i = Draining"
        by (auto simp: held_def draining_mark_def in_set_conv_nth split: if_splits)
      with empty that show ?thesis
        by (intro exI [of _ i]) (auto simp: caller_step_def pp_wait_def list_ex_iff list_all_iff)
    qed
    ultimately show ?thesis
      using True drain(1) empty inv(1,2) by (auto simp: jobs_inv_def user_inv_def)
  next
    case False
    have "\<exists>i < length (pt_workers st'). pt_workers st' ! i \<noteq> Exited"
    proof (rule ccontr)
      assume "\<not> ?thesis"
      then have ex: "w = Exited" if "w \<in> set (pt_workers st')" for w
        using that by (metis in_set_conv_nth)
      have "pt_workers st' \<noteq> []" using inv(3) drain(2) by (simp add: shape_inv_def)
      then have "Exited \<in> set (pt_workers st')" using ex by (cases "pt_workers st'") auto
      then have "pd_queue (pt_daemon st') = []" using inv(3) by (simp add: shape_inv_def)
      with False obtain w where "w \<in> set (pt_workers st')" "drain_weight w \<noteq> 0"
        by (auto simp: drain_steps_def)
      with ex [of w] show False by simp
    qed
    with worker_can_step drain(2) have "\<exists>i. \<forall>c. \<exists>st''. worker_step env i c st' = Stepped st''" by metis
    with False drain(1) show ?thesis by simp
  qed
qed

text \<open>
  C39. Submitting and stopping race: Submit releases the lock between looking at \<open>running\<close> and sending, so
  a Stop in between makes the send panic; a daemon that is started again after Stop panics at its
  next Stop; and Start releases the lock before it spawns a worker, so a Stop in between returns while an
  accepted job is still in the queue. While the queue is open no step of any caller or worker panics.
\<close>

theorem stop_races:
  assumes "new_pp_daemon cfg = Inr d"
  shows "pp_steps env [CallStart, CallSubmit job, CallStop, Caller 1, Caller 0] (initial_state d f l u)
      = Panicked ''send on closed channel''
    \<and> pp_steps env [CallStart, CallStop, Caller 0, CallStart, CallStop, Caller 1] (initial_state d f l u)
      = Panicked ''close of closed channel''
    \<and> (case pp_steps env [CallStart, CallSubmit job, Caller 0, CallStop, Caller 1, Caller 1] (initial_state d f l u) of
         Stepped late \<Rightarrow> pt_callers late = [Accepted job, Stopped] \<and> pd_done (pt_daemon late)
           \<and> pd_queue (pt_daemon late) = [job] \<and> pd_results (pt_daemon late) = []
       | _ \<Rightarrow> False)
    \<and> (pp_reach env (initial_state d f l u) st \<longrightarrow> \<not> pd_closed (pt_daemon st) \<longrightarrow> pp_step env a st \<noteq> Panicked msg)"
proof (intro conjI impI)
  assume reach: "pp_reach env (initial_state d f l u) st" and op: "\<not> pd_closed (pt_daemon st)"
  have shape: "shape_inv st" by (rule shape_inv_reach [OF reach assms])
  have idle: "pt_callers st ! i \<noteq> Draining" if "i < length (pt_callers st)" for i
  proof
    assume "pt_callers st ! i = Draining"
    then have "held draining_mark (pt_callers st) \<noteq> {#}"
      using draining_held that by blast
    with shape op show False by (simp add: shape_inv_def)
  qed
  show "pp_step env a st \<noteq> Panicked msg"
  proof (cases a)
    case (Caller i)
    with op idle [of i] show ?thesis
      by (cases "pt_callers st ! i")
        (auto simp: caller_step_def pp_send_def pp_close_def Let_def)
  next
    case (Worker i c)
    then show ?thesis
      by (cases "pt_workers st ! i"; cases "pd_queue (pt_daemon st)")
        (auto simp: worker_step_def Let_def split: prod.splits)
  qed simp_all
qed (use new_pp_daemon_fields [OF assms] in \<open>simp_all add: initial_state_def pp_start_def pp_submit_def pp_stop_def
  caller_step_def pp_send_def pp_close_def pp_wait_def queue_cap_def list_ex_iff Let_def\<close>)

subsection \<open>Instances\<close>

definition sample_pp_env :: pp_env where
  "sample_pp_env =
     \<lparr>px_unmarshal = (\<lambda>s. Inr \<lparr>rx_intent = ''question'', rx_intent_conf = 1, rx_entities = [], rx_topics = [''code''],
        rx_sentiment = ''calm'', rx_sentiment_conf = 2, rx_summary = s, rx_flags = []\<rparr>), px_clock = int\<rparr>"

definition sample_pp_config :: "(nat, mem_backend, pp_result list) pp_config" where
  "sample_pp_config =
     \<lparr>pc_adapter = Some (\<lambda>c timeout prompt text n. (if text = [] then Inl (Adhoc ''empty'') else Inr text, Suc n)),
      pc_event_log = Some mb_append_event, pc_timeout = 0, pc_max_workers = 1, pc_queue_size = 2,
      pc_on_result = Some (#)\<rparr>"

definition sample_pp_daemon :: "(nat, mem_backend, pp_result list) pp_daemon" where
  "sample_pp_daemon =
     \<lparr>pd_cfg = sample_pp_config\<lparr>pc_timeout := 2 * 10 ^ 9\<rparr>, pd_queue = [], pd_closed = False, pd_done = False,
      pd_running = False, pd_results = [], pd_total = 0, pd_ok = 0, pd_err = 0, pd_ms = 0\<rparr>"

lemma sample_pp_daemon_new: "new_pp_daemon sample_pp_config = Inr sample_pp_daemon"
  by (simp add: new_pp_daemon_def sample_pp_config_def sample_pp_daemon_def Let_def)

definition sample_job :: "string \<Rightarrow> string \<Rightarrow> pp_job" where
  "sample_job i t = \<lparr>jb_id = i, jb_session = ''s'', jb_branch = ''main'', jb_text = t, jb_ts = 1\<rparr>"

abbreviation sample_pp_start :: "(nat, mem_backend, pp_result list) pp_state" where
  "sample_pp_start \<equiv> initial_state sample_pp_daemon 0 new_mem_backend []"

text \<open>Two jobs of which the second fails, and a stop.\<close>

definition sample_actions :: "action list" where
  "sample_actions = [CallStart, CallSubmit (sample_job ''a'' ''hi''), CallSubmit (sample_job ''b'' []), Caller 0,
     Caller 1, CallStop, Caller 2]"

definition sample_drain :: "action list" where
  "sample_drain = replicate 12 (Worker 0 None)"

lemma sample_actions_run:
  "\<exists>st. pp_steps sample_pp_env sample_actions sample_pp_start = Stepped st
     \<and> pd_closed (pt_daemon st) \<and> drain_steps st = 12 \<and> accepted_by (pt_callers st ! 0) = [''a'']"
  by (simp add: sample_actions_def pp_start_def pp_submit_def pp_stop_def caller_step_def pp_send_def pp_close_def
      initial_state_def sample_pp_daemon_def sample_pp_config_def queue_cap_def drain_steps_def sample_job_def Let_def)

lemma sample_drain_run:
  "case pp_steps sample_pp_env (sample_actions @ sample_drain) sample_pp_start of
     Stepped st \<Rightarrow> map pr_job (pd_results (pt_daemon st)) = [''a'', ''b'']
       \<and> map succeeded (pd_results (pt_daemon st)) = [True, False]
   | _ \<Rightarrow> False"
  by code_simp

lemma pp_steps_append:
  "pp_steps env (as @ bs) st = (case pp_steps env as st of Stepped st1 \<Rightarrow> pp_steps env bs st1 | out \<Rightarrow> out)"
  by (induction as arbitrary: st) (auto split: outcome.splits)

theorem preprocess_accounts_witness:
  "\<exists>st. pp_steps sample_pp_env (sample_actions @ sample_drain) sample_pp_start = Stepped st
     \<and> pd_total (pt_daemon st) = 2 \<and> pd_ok (pt_daemon st) = 1 \<and> pd_err (pt_daemon st) = 1"
proof -
  obtain st where st: "pp_steps sample_pp_env (sample_actions @ sample_drain) sample_pp_start = Stepped st"
    "map pr_job (pd_results (pt_daemon st)) = [''a'', ''b'']" "map succeeded (pd_results (pt_daemon st)) = [True, False]"
    using sample_drain_run by (auto split: outcome.splits)
  have "pc_event_log sample_pp_config = Some mb_append_event" by (simp add: sample_pp_config_def)
  from preprocess_accounts [OF sample_pp_daemon_new this pp_steps_reach [OF st(1) reach_refl]]
  have "counters_ok (pt_daemon st)" by (simp add: Let_def)
  with st show ?thesis by (auto simp: counters_ok_def map_eq_Cons_conv)
qed

theorem stop_drains_witness:
  "\<exists>st. pp_steps sample_pp_env (sample_actions @ sample_drain) sample_pp_start = Stepped st
     \<and> drain_steps st = 0 \<and> pd_queue (pt_daemon st) = []
     \<and> held accepted_by (pt_callers st) = mset (map pr_job (pd_results (pt_daemon st)))"
proof -
  obtain st1 where st1: "pp_steps sample_pp_env sample_actions sample_pp_start = Stepped st1"
    "pd_closed (pt_daemon st1)" "drain_steps st1 = 12"
    using sample_actions_run by blast
  obtain st where st: "pp_steps sample_pp_env (sample_actions @ sample_drain) sample_pp_start = Stepped st"
    using sample_drain_run by (auto split: outcome.splits)
  with st1 have drain: "pp_steps sample_pp_env sample_drain st1 = Stepped st" by (simp add: pp_steps_append)
  have log: "pc_event_log sample_pp_config = Some mb_append_event" by (simp add: sample_pp_config_def)
  have "list_all of_worker sample_drain" "length sample_drain = 12" by (simp_all add: sample_drain_def list_all_iff)
  with stop_drains [OF sample_pp_daemon_new log pp_steps_reach [OF st1(1) reach_refl] st1(2) _ drain] st1(3) st
  show ?thesis by (simp split: if_splits)
qed

theorem stop_races_witness:
  "pp_steps sample_pp_env [CallStart, CallSubmit (sample_job ''a'' ''hi''), CallStop, Caller 1, Caller 0] sample_pp_start
      = Panicked ''send on closed channel''
   \<and> pp_step sample_pp_env CallStop sample_pp_start \<noteq> Panicked []"
proof -
  note races = stop_races [OF sample_pp_daemon_new, of sample_pp_env "sample_job ''a'' ''hi''" 0 new_mem_backend "[]"
      sample_pp_start CallStop "[]"]
  have "\<not> pd_closed (pt_daemon sample_pp_start)" by (simp add: initial_state_def sample_pp_daemon_def)
  with races reach_refl [of sample_pp_env sample_pp_start] show ?thesis by blast
qed

end
