(* ===== verification/Sidecar.thy ===== *)
theory Sidecar
  imports SessionSpine Preprocessor
begin

text \<open>
  The session of \<open>internal/runtime\<close> with the sidecar of \<open>internal/preprocess\<close>: which jobs a session submits,
  and what the event that the daemon writes for a job does to the log of the session.
\<close>

subsection \<open>Only the question of a turn is submitted\<close>

abbreviation jobs_of :: "('b, 'm, 't) sess \<Rightarrow> pp_job list" where
  "jobs_of s \<equiv> submitted (sn_handed s)"

lemma append_to_spine_jobs [simp]: "sn_handed (snd (append_to_spine cfg c e s)) = sn_handed s"
  by (simp add: append_to_spine_def split_def Let_def)

lemma blob_jobs [simp]: "sn_handed (snd (append_blob_to cfg c r p s)) = sn_handed s"
  by (simp add: append_blob_to_def split_def Let_def)

lemma emit_jobs [simp]: "sn_handed (snd (emit cfg c tag kind bid parent meta s)) = sn_handed s"
  by (simp add: emit_emitted)

lemma emit_keeps_jobs: "emit cfg c tag kind bid parent meta s = (x, s') \<Longrightarrow> sn_handed s' = sn_handed s"
  by (metis emit_jobs snd_conv)

lemma set_sched_jobs [simp]: "sn_handed (set_sched f s) = sn_handed s"
  by (simp add: set_sched_def)

lemma hand_event_jobs [simp]: "jobs_of (hand_event cfg e s) = jobs_of s"
  by (simp add: hand_event_def)

lemma assemble_keeps_jobs: "assemble_for_branch cfg c bid ext s = (r, s') \<Longrightarrow> sn_handed s' = sn_handed s"
  by (auto simp: assemble_for_branch_def Let_def dest: emit_keeps_jobs split: sum.splits prod.splits option.splits)

lemma audit_keeps_jobs: "audit_turn cfg n tracker s = (r, t, s') \<Longrightarrow> sn_handed s' = sn_handed s"
  by (auto simp: audit_turn_def audit_record_turn_def read_clock_def Let_def split_def split: option.splits if_splits)

lemma compaction_jobs [simp]: "sn_handed (run_compaction cfg cq c bid events reason s) = sn_handed s"
  by (simp add: run_compaction_def split_def Let_def read_clock_def split: option.split sum.split)

lemma record_turn_jobs [simp]: "sn_handed (record_turn_and_maybe_compact cfg c bid s) = sn_handed s"
  by (simp add: record_turn_and_maybe_compact_def split_def Let_def split: option.split)

lemma agent_answer_keeps_jobs:
  "agent_answer cfg c bid resp bytes sels ex tc s = (r, s') \<Longrightarrow> jobs_of s' = jobs_of s"
  by (auto simp: agent_answer_def dest: emit_keeps_jobs split: option.splits prod.splits)

lemma append_keeps_jobs: "append_to_spine cfg c e s = (x, s') \<Longrightarrow> sn_handed s' = sn_handed s"
  by (metis append_to_spine_jobs snd_conv)

lemma finish_keeps_jobs: "finish_tool_call cfg c bid req resp s = (x, s') \<Longrightarrow> sn_handed s' = sn_handed s"
  by (auto simp: finish_tool_call_def next_event_id_def read_clock_def append_blob_to_def Let_def
      dest!: append_keeps_jobs split: if_splits prod.splits)

lemma tool_calls_keep_jobs: "execute_tool_calls cfg c bid tcs s = (x, s') \<Longrightarrow> sn_handed s' = sn_handed s"
proof (induction tcs arbitrary: s)
  case (Cons tc tcs)
  then show ?case
    by (auto simp: tool_call_id_def next_event_id_def read_clock_def Let_def
        dest!: append_keeps_jobs finish_keeps_jobs split: option.splits prod.splits if_splits)
qed (auto split: option.splits)

lemma turn_loop_keeps_jobs:
  "turn_loop cfg c bid ext left tracker bytes s = (r, s') \<Longrightarrow> jobs_of s' = jobs_of s"
proof (induction left arbitrary: tracker bytes s)
  case (Suc left)
  from Suc.prems show ?case
    by (simp only: turn_loop.simps)
       (auto simp: Let_def next_event_id_def read_clock_def
          dest!: tool_calls_keep_jobs Suc.IH assemble_keeps_jobs emit_keeps_jobs
            audit_keeps_jobs agent_answer_keeps_jobs
          split: prod.splits sum.splits option.splits if_splits)
qed simp

lemma fork_keeps_jobs: "session_fork_branch cfg c parent child s = (x, s') \<Longrightarrow> jobs_of s' = jobs_of s"
  by (auto simp: session_fork_branch_def dest: emit_keeps_jobs split: sum.splits if_splits)

subsection \<open>Questions and jobs\<close>

definition job_of :: "event \<Rightarrow> pp_job" where
  "job_of e = \<lparr>jb_id = ev_id e, jb_session = ev_session e, jb_branch = ev_branch e,
     jb_text = meta_string (ev_meta e) ''text'', jb_ts = ev_ts e\<rparr>"

definition questions :: "event list \<Rightarrow> event list" where
  "questions es = filter (\<lambda>e. ev_kind e = KindTurnUser) es"

lemma questions_append [simp]: "questions (xs @ ys) = questions xs @ questions ys"
  by (simp add: questions_def)

lemma questions_none:
  "\<forall>t \<in> set (transcript es). fst (snd t) \<noteq> KindTurnUser \<Longrightarrow> questions es = []"
  by (auto simp: questions_def transcript_def filter_empty_conv spoken_def)

text \<open>From \<open>s\<close> to \<open>s'\<close> the log gains events and the jobs are exactly their questions.\<close>

definition feeds :: "bool \<Rightarrow> string \<Rightarrow> (mem_backend, 'm, 't) sess \<Rightarrow> (mem_backend, 'm, 't) sess \<Rightarrow> bool" where
  "feeds on sid s s' \<longleftrightarrow>
     (\<exists>es. stored (mb_sessions (sn_backend s')) =
         (stored (mb_sessions (sn_backend s)))(sid := stored (mb_sessions (sn_backend s)) sid @ es)
       \<and> jobs_of s' = jobs_of s @ (if on then map job_of (questions es) else []))"

lemma feeds_trans: "feeds on sid s s' \<Longrightarrow> feeds on sid s' s'' \<Longrightarrow> feeds on sid s s''"
proof -
  assume "feeds on sid s s'" "feeds on sid s' s''"
  then obtain es fs where "stored (mb_sessions (sn_backend s')) =
      (stored (mb_sessions (sn_backend s)))(sid := stored (mb_sessions (sn_backend s)) sid @ es)"
    "jobs_of s' = jobs_of s @ (if on then map job_of (questions es) else [])"
    "stored (mb_sessions (sn_backend s'')) =
      (stored (mb_sessions (sn_backend s')))(sid := stored (mb_sessions (sn_backend s')) sid @ fs)"
    "jobs_of s'' = jobs_of s' @ (if on then map job_of (questions fs) else [])"
    unfolding feeds_def by blast
  then show ?thesis
    unfolding feeds_def by (intro exI [of _ "es @ fs"]) simp
qed

lemma grows_feeds:
  assumes "grows mb_inv (\<lambda>s. stored (mb_sessions s)) sid ts s s'" and "jobs_of s' = jobs_of s"
    and "\<forall>t \<in> set ts. fst (snd t) \<noteq> KindTurnUser"
  shows "feeds on sid s s'"
  using assms questions_none unfolding grows_def feeds_def by fastforce

lemma emit_question_feeds:
  assumes "mb_inv (sn_backend s)" and "sc_ops cfg = mem_ops"
    and "emit cfg c ''turn.user'' KindTurnUser bid [] [(''text'', VStr text)] s = (None, s1)"
    and "e = emitted cfg ''turn.user'' KindTurnUser bid [] [(''text'', VStr text)] s"
    and "jobs_of s2 = jobs_of s1 @ (if on then [job_of e] else [])" and "sn_backend s2 = sn_backend s1"
  shows "feeds on (sc_id cfg) s s2"
proof -
  obtain b where "mb_append_event c e (sn_backend s) = (None, b)" "sn_backend s1 = b"
    using assms(2-4) by (auto simp: emit_emitted append_to_spine_def mem_ops_def Let_def split: prod.splits)
  then have "stored (mb_sessions (sn_backend s1)) =
      (stored (mb_sessions (sn_backend s)))(ev_session e := stored (mb_sessions (sn_backend s)) (ev_session e) @ [e])"
    using mb.append_ok [OF assms(1)] by auto
  moreover have "ev_session e = sc_id cfg" "questions [e] = [e]"
    using assms(4) by (simp_all add: emitted_def questions_def)
  moreover have "jobs_of s1 = jobs_of s"
    using emit_keeps_jobs [OF assms(3)] by simp
  ultimately show ?thesis
    using assms(5,6) unfolding feeds_def by (intro exI [of _ "[e]"]) simp
qed

lemma turn_feeds:
  assumes "mb_inv (sn_backend s)" and "sc_ops cfg = mem_ops"
    and "handle_user_turn cfg c branch text ext s = ((res, err), s')"
  shows "feeds (sc_preprocessor cfg) (sc_id cfg) s s'"
proof -
  define bid where "bid = (if branch = [] then sc_branch cfg else branch)"
  define e where "e = emitted cfg ''turn.user'' KindTurnUser bid [] [(''text'', VStr text)] s"
  obtain e1 s1 where em: "emit cfg c ''turn.user'' KindTurnUser bid [] [(''text'', VStr text)] s = (e1, s1)"
    by fastforce
  show ?thesis
  proof (cases e1)
    case (Some x)
    then have "s' = s1" using assms(3) em by (auto simp: handle_user_turn_def bid_def [symmetric])
    moreover have "grows mb_inv (\<lambda>s. stored (mb_sessions s)) (sc_id cfg) [] s s1"
      using ms.emit_grows [OF assms(2,1) em session_kinds(1)] Some by simp
    ultimately show ?thesis
      using emit_keeps_jobs [OF em] by (auto intro: grows_feeds)
  next
    case None
    define s0 where "s0 = hand_job cfg e text (hand_event cfg e s1)"
    define s2 where "s2 = s0\<lparr>sn_counter := sn_counter s1 + 1\<rparr>"
    define tracker where "tracker = (if sc_metrics cfg then Some (new_audit_tracker (sc_audit cfg)
      (event_id (sc_id cfg) (sn_counter s1 + 1) ''consult'') (sc_id cfg) bid) else None)"
    have job: "job_of e = \<lparr>jb_id = ev_id e, jb_session = sc_id cfg, jb_branch = ev_branch e, jb_text = text, jb_ts = ev_ts e\<rparr>"
      by (simp add: e_def job_of_def emitted_def)
    have "jobs_of s2 = jobs_of s1 @ (if sc_preprocessor cfg then [job_of e] else [])"
      by (simp add: s2_def s0_def hand_job_def job)
    with em None have first: "feeds (sc_preprocessor cfg) (sc_id cfg) s s2"
      by (intro emit_question_feeds [OF assms(1,2) _ e_def]) (simp_all add: s2_def s0_def)
    have loop: "turn_loop cfg c bid ext (nat (sc_max_turns cfg)) tracker 0 s2 = ((res, err), s')"
      using assms(3) em None
      by (cases "sc_metrics cfg")
        (simp_all add: handle_user_turn_def bid_def [symmetric] next_event_id_def Let_def s2_def s0_def e_def tracker_def)
    have inv: "mb_inv (sn_backend s2)"
      using grows_ok [OF ms.emit_grows [OF assms(2,1) em session_kinds(1)]] by (simp add: s2_def s0_def)
    have "\<forall>t. tracker = Some t \<longrightarrow> at_session t = sc_id cfg"
      by (simp add: tracker_def new_audit_tracker_def Let_def)
    from grows_feeds [OF ms.turn_loop_grows [OF assms(2) inv this loop] turn_loop_keeps_jobs [OF loop]]
    have "feeds (sc_preprocessor cfg) (sc_id cfg) s2 s'"
      by (simp add: KindTurnAgent_def KindTurnUser_def)
    with first show ?thesis by (rule feeds_trans)
  qed
qed

lemma run_commands_feeds:
  "mb_inv (sn_backend s) \<Longrightarrow> sc_ops cfg = mem_ops \<Longrightarrow> run_commands cfg cmds s = (rs, s') \<Longrightarrow>
    feeds (sc_preprocessor cfg) (sc_id cfg) s s'"
proof (induction cmds arbitrary: s rs)
  case Nil
  then show ?case
    using grows_feeds [OF grows_refl [of mb_inv s "\<lambda>s. stored (mb_sessions s)"]] by auto
next
  case (Cons cmd cmds)
  show ?case
  proof (cases cmd)
    case (Turn branch q ext)
    obtain res err s1 where h: "handle_user_turn cfg None branch q ext s = ((res, err), s1)"
      by (metis prod.collapse)
    obtain rs1 where r: "run_commands cfg cmds s1 = (rs1, s')"
      using Cons.prems(3) Turn h by (cases "run_commands cfg cmds s1") auto
    have "mb_inv (sn_backend s1)"
      using grows_ok [OF ms.handle_user_turn_grows [OF Cons.prems(2,1) h]] .
    from feeds_trans [OF turn_feeds [OF Cons.prems(1,2) h] Cons.IH [OF this Cons.prems(2) r]] show ?thesis .
  next
    case (Fork parent child)
    obtain err s1 where h: "session_fork_branch cfg None parent child s = (err, s1)" by fastforce
    have r: "run_commands cfg cmds s1 = (rs, s')" using Cons.prems(3) Fork h by simp
    have g: "grows mb_inv (\<lambda>s. stored (mb_sessions s)) (sc_id cfg) [] s s1"
      by (rule ms.fork_branch_grows [OF Cons.prems(2,1) h])
    from feeds_trans [OF grows_feeds [OF g fork_keeps_jobs [OF h]] Cons.IH [OF grows_ok [OF g] Cons.prems(2) r]]
    show ?thesis by simp
  qed
qed

text \<open>
  C29. Whatever turns and forks a session serves, the jobs it submits to its preprocessor are exactly the
  questions that its log gains, in order, each with the identifier, branch, text and time of its event;
  forks, answers, tool calls and turns that were refused submit nothing, and without a preprocessor
  there are no jobs.
\<close>

theorem session_submits_questions:
  assumes "mb_inv b" and "sc_ops cfg0 = mem_ops" and "start_session cfg0 b m t = Inr (cfg, s)"
    and "run_commands cfg cmds s = (rs, s')"
  shows "\<exists>es. stored (mb_sessions (sn_backend s')) =
           (stored (mb_sessions b))(sc_id cfg0 := stored (mb_sessions b) (sc_id cfg0) @ es)
         \<and> submitted (sn_handed s') = (if sc_preprocessor cfg0 then map job_of (questions es) else [])"
proof -
  note st = start_session_ok [OF assms(3,2)]
  have "submitted (sn_handed s) = []" "sc_preprocessor cfg = sc_preprocessor cfg0"
    using assms(3) by (auto simp: start_session_def sess_defaults_def Let_def split: if_splits sum.splits)
  with run_commands_feeds [of s cfg cmds rs s'] assms(1,4) st show ?thesis
    by (auto simp: feeds_def)
qed

theorem session_submits_questions_witness:
  "case run_commands demo_cfg [Fork ''main'' ''alt'', Turn ''alt'' ''hi'' []] (demo_session new_mem_backend) of
     (rs, s') \<Rightarrow> submitted (sn_handed s') = map job_of (questions (stored (mb_sessions (sn_backend s')) ''s''))"
proof -
  let ?cmds = "[Fork ''main'' ''alt'', Turn ''alt'' ''hi'' []]"
  obtain rs s' where run: "run_commands demo_cfg ?cmds (demo_session new_mem_backend) = (rs, s')" by fastforce
  have "sc_ops demo_cfg = mem_ops" "sc_id demo_cfg = ''s''" "sc_preprocessor demo_cfg" by (simp_all add: demo_cfg_def)
  with session_submits_questions [OF mb_inv_new _ demo_start run] show ?thesis
    unfolding run by (auto simp: demo_empty simp del: run_commands.simps)
qed

end
