(* ===== verification/ModelAdapters.thy ===== *)
theory ModelAdapters
  imports ModelCall Compactor GoStrings
begin

text \<open>
  \<open>internal/model/http_adapter.go\<close>, \<open>ollama_adapter.go\<close> and \<open>mock_adapter.go\<close>: the adapters behind the
  interface that \<open>ModelCall\<close> leaves open. An adapter works on the state of the network; \<open>net/http\<close> below
  the request (making it, sending it, reading the body), \<open>json.Valid\<close>, the decoding of Ollama's envelope
  and the order in which a map is visited are parameters.
\<close>

definition ErrAdapterCallFailed :: goerr where
  "ErrAdapterCallFailed = Sentinel ''model.ErrAdapterCallFailed'' ''model adapter call failed''"

subsection \<open>Headers\<close>

text \<open>
  \<open>http.Header.Set\<close>: a key of token characters is stored with capitals at its start and after hyphens,
  any other key as it is; a later value replaces an earlier one.
\<close>

definition token_char :: "char \<Rightarrow> bool" where
  "token_char c \<longleftrightarrow>
     (let n = (of_char c :: nat) in
      48 \<le> n \<and> n \<le> 57 \<or> 65 \<le> n \<and> n \<le> 90 \<or> 97 \<le> n \<and> n \<le> 122
      \<or> c \<in> set [CHR 0x21, CHR 0x23, CHR 0x24, CHR 0x25, CHR 0x26, CHR 0x27, CHR 0x2A, CHR 0x2B, CHR 0x2D,
                CHR 0x2E, CHR 0x5E, CHR 0x5F, CHR 0x60, CHR 0x7C, CHR 0x7E])"

fun canonical_rest :: "bool \<Rightarrow> string \<Rightarrow> string" where
  "canonical_rest up [] = []"
| "canonical_rest up (c # cs) = (if up then upper_char c else lower_char c) # canonical_rest (c = CHR ''-'') cs"

definition canonical_key :: "string \<Rightarrow> string" where
  "canonical_key k = (if list_all token_char k then canonical_rest True k else k)"

definition set_header :: "string \<Rightarrow> string \<Rightarrow> (string \<times> string) list \<Rightarrow> (string \<times> string) list" where
  "set_header k v hs = AList.update (canonical_key k) v hs"

record 'g adapter_env =
  an_new_request :: "string \<Rightarrow> goerr option"
  an_do :: "ctx \<Rightarrow> int \<Rightarrow> http_call \<Rightarrow> 'g \<Rightarrow> http_answer result \<times> 'g"
  an_visit :: "(string \<times> string) list \<Rightarrow> (string \<times> string) list"
  an_content :: "string \<Rightarrow> string option"
  an_valid :: "string \<Rightarrow> bool"

text \<open>
  What both adapters do with a request: make it, send it, read the body, and accept a status of 2xx.
\<close>

definition send_request ::
  "'g adapter_env \<Rightarrow> ctx \<Rightarrow> int \<Rightarrow> http_call \<Rightarrow> 'g \<Rightarrow> string result \<times> 'g" where
  "send_request env c timeout call net =
     (case an_new_request env (hc_url call) of
        Some e \<Rightarrow> (Inl (wrap_err ErrAdapterCallFailed (err_msg e)), net)
      | None \<Rightarrow>
        let (answer, net1) = an_do env c timeout call net in
        (case answer of
           Inl e \<Rightarrow> (Inl (wrap_err ErrAdapterCallFailed (err_msg e)), net1)
         | Inr resp \<Rightarrow>
           (case ha_body resp of
              Inl e \<Rightarrow> (Inl (wrap_err ErrAdapterCallFailed (err_msg e)), net1)
            | Inr payload \<Rightarrow>
              if ha_status resp < 200 \<or> 300 \<le> ha_status resp
              then (Inl (wrap_err ErrAdapterCallFailed (''status='' @ int_str (ha_status resp))), net1)
              else (Inr payload, net1))))"

subsection \<open>The HTTP adapter\<close>

record http_config =
  ht_endpoint :: string
  ht_api_key :: string
  ht_key_header :: string
  ht_timeout :: int
  ht_extra :: "(string \<times> string) list"

definition adapter_timeout :: "int \<Rightarrow> int" where
  "adapter_timeout t = (if t \<le> 0 then 10 * 10 ^ 9 else t)"

definition new_http_adapter :: "http_config \<Rightarrow> http_config" where
  "new_http_adapter cfg =
     (if trim_space (ht_key_header cfg) = [] then cfg\<lparr>ht_key_header := ''Authorization''\<rparr> else cfg)
       \<lparr>ht_timeout := adapter_timeout (ht_timeout cfg)\<rparr>"

definition http_adapter_name :: string where "http_adapter_name = ''http''"

definition http_adapter_request :: "'g adapter_env \<Rightarrow> http_config \<Rightarrow> string \<Rightarrow> http_call" where
  "http_adapter_request env cfg packet =
     (let h1 = set_header ''Content-Type'' ''application/json'' [];
          h2 = fold (\<lambda>(k, v). set_header k v) (an_visit env (ht_extra cfg)) h1;
          h3 = (if ht_api_key cfg \<noteq> [] then set_header (ht_key_header cfg) (ht_api_key cfg) h2 else h2)
      in \<lparr>hc_url = ht_endpoint cfg, hc_headers = h3, hc_body = packet\<rparr>)"

definition http_adapter :: "'g adapter_env \<Rightarrow> http_config \<Rightarrow> 'g adapter" where
  "http_adapter env cfg c req net =
     (if trim_space (ht_endpoint cfg) = []
      then (Inl (wrap_err ErrAdapterCallFailed ''endpoint is required''), net)
      else send_request env c (ht_timeout cfg) (http_adapter_request env cfg (mq_packet req)) net)"

subsection \<open>The mock\<close>

definition mock_adapter_name :: "string \<Rightarrow> string" where
  "mock_adapter_name n = (if n = [] then ''mock'' else n)"

definition mock_adapter :: "'m adapter option \<Rightarrow> 'm adapter" where
  "mock_adapter f c req m =
     (case f of None \<Rightarrow> (Inr ''{\"decision\":\"continue\"}'', m) | Some call \<Rightarrow> call c req m)"

subsection \<open>The Ollama adapter\<close>

record ollama_config =
  ol_endpoint :: string
  ol_model :: string
  ol_timeout :: int

definition new_ollama_adapter :: "ollama_config \<Rightarrow> ollama_config" where
  "new_ollama_adapter cfg = cfg\<lparr>ol_timeout := adapter_timeout (ol_timeout cfg)\<rparr>"

definition ollama_name :: string where "ollama_name = ''ollama''"

definition ollama_system_prompt :: string where
  "ollama_system_prompt = str_join newline
     [''You are a stateless model adapter.'',
      ''The packet is internal context. Use it only to answer the latest user request naturally.'',
      ''Do not summarize the packet.'',
      ''Do not mention session IDs, branch IDs, working_set, event IDs, or packet structure unless explicitly asked.'',
      ''Return exactly one JSON object and nothing else.'',
      ''No prose outside JSON. No markdown. No code fences. No extra keys.'',
      ''The object must contain exactly keys: decision and answer.'',
      ''decision must be \"answer\".'',
      ''Examples:'',
      ''- latest user request: \"hello\" -> {\"decision\":\"answer\",\"answer\":\"Hello! How can I help you today?\"}'',
      ''- latest user request: \"what is 2+2?\" -> {\"decision\":\"answer\",\"answer\":\"2+2 is 4.\"}'']"

definition ollama_message :: "string \<Rightarrow> string \<Rightarrow> json" where
  "ollama_message role content = JObject (fld ''role'' (JString role) @ fld ''content'' (JString content))"

definition ollama_format :: json where
  "ollama_format = JObject
     (fld ''type'' (JString ''object'')
      @ fld ''properties'' (JObject
          [(''answer'', JObject (fld ''type'' (JString ''string'') @ opt_strs ''enum'' [])),
           (''decision'', JObject (fld ''type'' (JString ''string'') @ opt_strs ''enum'' [''answer'']))])
      @ fld ''required'' (JArray [JString ''decision'', JString ''answer''])
      @ fld ''additionalProperties'' (JBool False))"

definition build_ollama_chat_request :: "string \<Rightarrow> string \<Rightarrow> string" where
  "build_ollama_chat_request name packet =
     json_print (JObject
       (fld ''model'' (JString name) @ fld ''stream'' (JBool False) @ fld ''think'' (JBool False)
        @ fld ''messages'' (JArray
            [ollama_message ''system'' ollama_system_prompt,
             ollama_message ''user''
               (''Respond with JSON matching the schema only. Input packet:'' @ newline @ packet)])
        @ fld ''format'' ollama_format))"

text \<open>\<open>strings.ReplaceAll\<close> of one byte by a space.\<close>

definition blank_byte :: "char \<Rightarrow> string \<Rightarrow> string" where
  "blank_byte b s = map (\<lambda>c. if c = b then CHR '' '' else c) s"

definition preview_content :: "string \<Rightarrow> string" where
  "preview_content s =
     (let cleaned = blank_byte (CHR 0x09) (blank_byte (CHR 0x0D) (blank_byte (CHR 0x0A) (trim_space s)))
      in if 160 < length cleaned then take 160 cleaned @ ''...'' else cleaned)"

definition extract_ollama_content :: "'g adapter_env \<Rightarrow> string \<Rightarrow> string result" where
  "extract_ollama_content env payload =
     (case an_content env payload of
        None \<Rightarrow> Inl (Adhoc (''invalid ollama response json: preview='' @ go_quote (preview_content payload)))
      | Some raw \<Rightarrow>
        let content = trim_space raw in
        if content = []
        then Inl (Adhoc (''missing ollama message content: preview='' @ go_quote (preview_content payload)))
        else if \<not> an_valid env content
        then Inl (Adhoc (''ollama content is not valid json: preview='' @ go_quote (preview_content content)))
        else Inr content)"

text \<open>\<open>strings.TrimRight(s, "/")\<close>.\<close>

definition trim_slashes :: "string \<Rightarrow> string" where
  "trim_slashes s = rev (dropWhile (\<lambda>c. c = CHR ''/'') (rev s))"

definition ollama_adapter :: "'g adapter_env \<Rightarrow> ollama_config \<Rightarrow> 'g adapter" where
  "ollama_adapter env cfg c req net =
     (let endpoint = trim_space (ol_endpoint cfg); name = trim_space (ol_model cfg) in
      if endpoint = [] then (Inl (wrap_err ErrAdapterCallFailed ''ollama endpoint is required''), net)
      else if name = [] then (Inl (wrap_err ErrAdapterCallFailed ''ollama model is required''), net)
      else
        case send_request env c (ol_timeout cfg)
               \<lparr>hc_url = trim_slashes endpoint @ ''/api/chat'',
                hc_headers = set_header ''Content-Type'' ''application/json'' [],
                hc_body = build_ollama_chat_request name (mq_packet req)\<rparr> net of
          (Inl e, net1) \<Rightarrow> (Inl e, net1)
        | (Inr payload, net1) \<Rightarrow>
          (case extract_ollama_content env payload of
             Inl e \<Rightarrow> (Inl (wrap_err ErrAdapterCallFailed (err_msg e)), net1)
           | Inr raw \<Rightarrow> (Inr raw, net1)))"

subsection \<open>What the adapters return\<close>

lemma send_request_error: "fst (send_request env c t call net) = Inl e \<Longrightarrow> errors_is e ErrAdapterCallFailed"
  by (auto simp: send_request_def Let_def split: option.splits prod.splits sum.splits if_splits)

lemma send_request_Inr_iff:
  "send_request env c t call net = (Inr payload, net1) \<longleftrightarrow>
     an_new_request env (hc_url call) = None
     \<and> (\<exists>status. an_do env c t call net = (Inr \<lparr>ha_status = status, ha_body = Inr payload\<rparr>, net1)
          \<and> 200 \<le> status \<and> status < 300)" (is "?l \<longleftrightarrow> ?r")
proof
  assume ?l
  then obtain resp where "an_do env c t call net = (Inr resp, net1)" "ha_body resp = Inr payload"
    "an_new_request env (hc_url call) = None" "200 \<le> ha_status resp" "ha_status resp < 300"
    by (auto simp: send_request_def Let_def split: option.splits prod.splits sum.splits if_splits)
  moreover from this(2) have "resp = \<lparr>ha_status = ha_status resp, ha_body = Inr payload\<rparr>"
    by (cases resp) simp
  ultimately show ?r by metis
qed (auto simp: send_request_def Let_def)

lemma ollama_adapter_Inr_iff:
  "ollama_adapter env cfg c req net = (Inr answer, net1) \<longleftrightarrow>
     trim_space (ol_endpoint cfg) \<noteq> [] \<and> trim_space (ol_model cfg) \<noteq> []
     \<and> (\<exists>payload. send_request env c (ol_timeout cfg)
            \<lparr>hc_url = trim_slashes (trim_space (ol_endpoint cfg)) @ ''/api/chat'',
             hc_headers = set_header ''Content-Type'' ''application/json'' [],
             hc_body = build_ollama_chat_request (trim_space (ol_model cfg)) (mq_packet req)\<rparr> net
            = (Inr payload, net1) \<and> extract_ollama_content env payload = Inr answer)"
  by (auto simp: ollama_adapter_def Let_def split: prod.splits sum.splits)

lemma extract_ollama_content_Inr:
  "extract_ollama_content env payload = Inr x \<longleftrightarrow>
     (\<exists>raw. an_content env payload = Some raw \<and> x = trim_space raw \<and> x \<noteq> [] \<and> an_valid env x)"
  by (auto simp: extract_ollama_content_def Let_def split: option.splits if_splits)

text \<open>
  C34. The HTTP adapter answers exactly when it has an endpoint and the server answers 2xx with a readable
  body, and then with that body; the Ollama adapter answers exactly when it also has a model and the
  content of the reply is, without white space around it, a valid JSON text, and then with that text.
  Whatever else happens is \<open>ErrAdapterCallFailed\<close>.
\<close>

theorem adapters_exact:
  "(http_adapter env hcfg c req net = (Inr payload, net1) \<longleftrightarrow>
      trim_space (ht_endpoint hcfg) \<noteq> [] \<and> an_new_request env (ht_endpoint hcfg) = None
      \<and> (\<exists>status. an_do env c (ht_timeout hcfg) (http_adapter_request env hcfg (mq_packet req)) net
             = (Inr \<lparr>ha_status = status, ha_body = Inr payload\<rparr>, net1) \<and> 200 \<le> status \<and> status < 300))
   \<and> (ollama_adapter env ocfg c req net = (Inr answer, net1) \<longleftrightarrow>
      (let url = trim_slashes (trim_space (ol_endpoint ocfg)) @ ''/api/chat'' in
       trim_space (ol_endpoint ocfg) \<noteq> [] \<and> trim_space (ol_model ocfg) \<noteq> [] \<and> an_new_request env url = None
       \<and> (\<exists>status body raw. an_do env c (ol_timeout ocfg)
             \<lparr>hc_url = url, hc_headers = [(''Content-Type'', ''application/json'')],
              hc_body = build_ollama_chat_request (trim_space (ol_model ocfg)) (mq_packet req)\<rparr> net
             = (Inr \<lparr>ha_status = status, ha_body = Inr body\<rparr>, net1) \<and> 200 \<le> status \<and> status < 300
           \<and> an_content env body = Some raw \<and> answer = trim_space raw \<and> answer \<noteq> [] \<and> an_valid env answer)))
   \<and> (case fst (http_adapter env hcfg c req net) of Inl e \<Rightarrow> errors_is e ErrAdapterCallFailed | Inr x \<Rightarrow> True)
   \<and> (case fst (ollama_adapter env ocfg c req net) of Inl e \<Rightarrow> errors_is e ErrAdapterCallFailed | Inr x \<Rightarrow> True)"
proof (intro conjI)
  have "set_header ''Content-Type'' ''application/json'' [] = [(''Content-Type'', ''application/json'')]"
    by code_simp
  then show "ollama_adapter env ocfg c req net = (Inr answer, net1) \<longleftrightarrow>
      (let url = trim_slashes (trim_space (ol_endpoint ocfg)) @ ''/api/chat'' in
       trim_space (ol_endpoint ocfg) \<noteq> [] \<and> trim_space (ol_model ocfg) \<noteq> [] \<and> an_new_request env url = None
       \<and> (\<exists>status body raw. an_do env c (ol_timeout ocfg)
             \<lparr>hc_url = url, hc_headers = [(''Content-Type'', ''application/json'')],
              hc_body = build_ollama_chat_request (trim_space (ol_model ocfg)) (mq_packet req)\<rparr> net
             = (Inr \<lparr>ha_status = status, ha_body = Inr body\<rparr>, net1) \<and> 200 \<le> status \<and> status < 300
           \<and> an_content env body = Some raw \<and> answer = trim_space raw \<and> answer \<noteq> [] \<and> an_valid env answer))"
    unfolding ollama_adapter_Inr_iff send_request_Inr_iff extract_ollama_content_Inr Let_def by auto
next
  show "case fst (ollama_adapter env ocfg c req net) of Inl e \<Rightarrow> errors_is e ErrAdapterCallFailed | Inr x \<Rightarrow> True"
    by (auto simp: ollama_adapter_def Let_def dest!: arg_cong [where f = fst] send_request_error
        split: prod.splits sum.splits)
qed (auto simp: http_adapter_def http_adapter_request_def Let_def send_request_Inr_iff
      dest: send_request_error split: sum.splits)

end
