(* ===== verification/GoFlag.thy ===== *)
theory GoFlag
  imports GoStrings
begin

text \<open>
  What the binaries use of packages \<open>flag\<close> and \<open>strconv\<close>: a flag set whose errors are returned, with
  flags of type string, int, bool, float and duration. The values of the flags are a function of their
  names, which parsing updates. \<open>strconv.ParseFloat\<close> and \<open>time.ParseDuration\<close> are parameters.
\<close>

subsection \<open>Package strconv\<close>

definition ErrSyntax :: goerr where "ErrSyntax = Sentinel ''strconv.ErrSyntax'' ''invalid syntax''"
definition ErrRange :: goerr where "ErrRange = Sentinel ''strconv.ErrRange'' ''value out of range''"

fun parse_bool :: "string \<Rightarrow> bool option" where
  "parse_bool s =
     (if s \<in> {''1'', ''t'', ''T'', ''TRUE'', ''true'', ''True''} then Some True
      else if s \<in> {''0'', ''f'', ''F'', ''FALSE'', ''false'', ''False''} then Some False
      else None)"

text \<open>The value of a digit in any base up to 36.\<close>

definition digit_value :: "char \<Rightarrow> nat option" where
  "digit_value c =
     (let n = (of_char (lower_char c) :: nat) in
      if 48 \<le> n \<and> n \<le> 57 then Some (n - 48)
      else if 97 \<le> n \<and> n \<le> 122 then Some (n - 87)
      else None)"

text \<open>
  The loop of \<open>ParseUint\<close> over what follows the prefix of the base: underscores are skipped, the first
  number beyond 64 bits is an error at once.
\<close>

fun uint_loop :: "nat \<Rightarrow> nat \<Rightarrow> string \<Rightarrow> goerr + nat" where
  "uint_loop base n [] = Inr n"
| "uint_loop base n (c # cs) =
     (if c = CHR ''_'' then uint_loop base n cs
      else case digit_value c of
        None \<Rightarrow> Inl ErrSyntax
      | Some d \<Rightarrow>
        if base \<le> d then Inl ErrSyntax
        else if 2 ^ 64 \<le> n * base + d then Inl ErrRange
        else uint_loop base (n * base + d) cs)"

text \<open>\<open>underscoreOK\<close>: \<open>saw\<close> is the class of the last character, a digit, an underscore or another one.\<close>

datatype saw = SawStart | SawDigit | SawUnderscore | SawOther

fun underscore_loop :: "bool \<Rightarrow> saw \<Rightarrow> string \<Rightarrow> bool" where
  "underscore_loop hex st [] = (st \<noteq> SawUnderscore)"
| "underscore_loop hex st (c # cs) =
     (let n = (of_char (lower_char c) :: nat) in
      if 48 \<le> n \<and> n \<le> 57 \<or> hex \<and> 97 \<le> n \<and> n \<le> 102 then underscore_loop hex SawDigit cs
      else if c = CHR ''_'' then (if st \<noteq> SawDigit then False else underscore_loop hex SawUnderscore cs)
      else if st = SawUnderscore then False
      else underscore_loop hex SawOther cs)"

definition base_prefix :: "string \<Rightarrow> char option" where
  "base_prefix s =
     (case s of
        a # b # _ \<Rightarrow>
          if a = CHR ''0'' \<and> lower_char b \<in> {CHR ''b'', CHR ''o'', CHR ''x''} then Some (lower_char b) else None
      | _ \<Rightarrow> None)"

definition underscore_ok :: "string \<Rightarrow> bool" where
  "underscore_ok s0 =
     (let s = (case s0 of c # cs \<Rightarrow> if c = CHR ''-'' \<or> c = CHR ''+'' then cs else s0 | [] \<Rightarrow> [])
      in case base_prefix s of
           Some b \<Rightarrow> underscore_loop (b = CHR ''x'') SawDigit (drop 2 s)
         | None \<Rightarrow> underscore_loop False SawStart s)"

definition parse_uint0 :: "string \<Rightarrow> goerr + nat" where
  "parse_uint0 s =
     (if s = [] then Inl ErrSyntax
      else
        let (base, rest) =
          (if hd s \<noteq> CHR ''0'' then (10, s)
           else case base_prefix s of
                  Some b \<Rightarrow>
                    if 3 \<le> length s then (if b = CHR ''b'' then 2 else if b = CHR ''o'' then 8 else 16, drop 2 s)
                    else (8, tl s)
                | None \<Rightarrow> (8, tl s))
        in case uint_loop base 0 rest of
             Inl e \<Rightarrow> Inl e
           | Inr n \<Rightarrow> if CHR ''_'' \<in> set rest \<and> \<not> underscore_ok s then Inl ErrSyntax else Inr n)"

text \<open>\<open>strconv.ParseInt(s, 0, 64)\<close>.\<close>

definition parse_int0 :: "string \<Rightarrow> goerr + int" where
  "parse_int0 s =
     (if s = [] then Inl ErrSyntax
      else
        let neg = (hd s = CHR ''-''); body = (if hd s = CHR ''+'' \<or> hd s = CHR ''-'' then tl s else s) in
        case parse_uint0 body of
          Inl e \<Rightarrow> Inl e
        | Inr n \<Rightarrow>
          if \<not> neg \<and> 2 ^ 63 \<le> n then Inl ErrRange
          else if neg \<and> 2 ^ 63 < n then Inl ErrRange
          else Inr (if neg then - int n else int n))"

subsection \<open>Flag sets\<close>

datatype flag_kind = KStr | KInt | KBool | KFloat | KDur

datatype flag_value = FStr string | FInt int | FBool bool | FFloat rat | FDur int

record flag_env =
  fe_float :: "string \<Rightarrow> goerr + rat"
  fe_duration :: "string \<Rightarrow> goerr + int"

definition ErrHelp :: goerr where "ErrHelp = Sentinel ''flag.ErrHelp'' ''flag: help requested''"

text \<open>\<open>numError\<close>: the two errors of \<open>strconv\<close> get a short text.\<close>

definition num_error :: "goerr \<Rightarrow> string" where
  "num_error e =
     (if errors_is e ErrSyntax then ''parse error''
      else if errors_is e ErrRange then ''value out of range'' else err_msg e)"

definition set_value :: "flag_env \<Rightarrow> flag_kind \<Rightarrow> string \<Rightarrow> string + flag_value" where
  "set_value env k s =
     (case k of
        KStr \<Rightarrow> Inr (FStr s)
      | KInt \<Rightarrow> (case parse_int0 s of Inl e \<Rightarrow> Inl (num_error e) | Inr n \<Rightarrow> Inr (FInt n))
      | KBool \<Rightarrow> (case parse_bool s of None \<Rightarrow> Inl ''parse error'' | Some b \<Rightarrow> Inr (FBool b))
      | KFloat \<Rightarrow> (case fe_float env s of Inl e \<Rightarrow> Inl (num_error e) | Inr q \<Rightarrow> Inr (FFloat q))
      | KDur \<Rightarrow> (case fe_duration env s of Inl e \<Rightarrow> Inl ''parse error'' | Inr d \<Rightarrow> Inr (FDur d)))"

type_synonym flag_values = "string \<Rightarrow> flag_value"

text \<open>A flag without its dashes: the name, and the value after the first equals sign.\<close>

definition split_flag :: "string \<Rightarrow> string \<times> string option" where
  "split_flag body =
     (case str_index body ''='' of
        None \<Rightarrow> (body, None)
      | Some i \<Rightarrow> (take i body, Some (drop (Suc i) body)))"

text \<open>What \<open>parseOne\<close> makes of the first argument: an end of the flags, an error, or a flag.\<close>

datatype flag_head = NoFlag | EndOfFlags | BadSyntax | Flag string "string option"

definition flag_head_of :: "string \<Rightarrow> flag_head" where
  "flag_head_of s =
     (if length s < 2 \<or> hd s \<noteq> CHR ''-'' then NoFlag
      else if s = ''--'' then EndOfFlags
      else
        let body = (if s ! 1 = CHR ''-'' then drop 2 s else drop 1 s) in
        if body = [] \<or> hd body = CHR ''-'' \<or> hd body = CHR ''='' then BadSyntax
        else case split_flag body of (name, v) \<Rightarrow> Flag name v)"

definition assign_flag ::
  "flag_env \<Rightarrow> flag_kind \<Rightarrow> string \<Rightarrow> string \<Rightarrow> flag_values \<Rightarrow> flag_values result" where
  "assign_flag env k name v vals =
     (case set_value env k v of
        Inr x \<Rightarrow> Inr (vals(name := x))
      | Inl msg \<Rightarrow> Inl (Adhoc (''invalid '' @ (if k = KBool then ''boolean value '' else ''value '') @ go_quote v
          @ (if k = KBool then '' for -'' else '' for flag -'') @ name @ '': '' @ msg)))"

fun flag_parse ::
  "flag_env \<Rightarrow> (string \<times> flag_kind) list \<Rightarrow> string list \<Rightarrow> flag_values \<Rightarrow> (flag_values \<times> string list) result" where
  "flag_parse env spec [] vals = Inr (vals, [])"
| "flag_parse env spec (s # rest) vals =
     (case flag_head_of s of
        NoFlag \<Rightarrow> Inr (vals, s # rest)
      | EndOfFlags \<Rightarrow> Inr (vals, rest)
      | BadSyntax \<Rightarrow> Inl (Adhoc (''bad flag syntax: '' @ s))
      | Flag name v \<Rightarrow>
        (case map_of spec name of
           None \<Rightarrow>
             Inl (if name = ''help'' \<or> name = ''h'' then ErrHelp
                  else Adhoc (''flag provided but not defined: -'' @ name))
         | Some k \<Rightarrow>
           (case v of
              Some x \<Rightarrow>
                (case assign_flag env k name x vals of Inl e \<Rightarrow> Inl e | Inr vals1 \<Rightarrow> flag_parse env spec rest vals1)
            | None \<Rightarrow>
              if k = KBool then flag_parse env spec rest (vals(name := FBool True))
              else
                (case rest of
                   [] \<Rightarrow> Inl (Adhoc (''flag needs an argument: -'' @ name))
                 | x # rest1 \<Rightarrow>
                   (case assign_flag env k name x vals of
                      Inl e \<Rightarrow> Inl e | Inr vals1 \<Rightarrow> flag_parse env spec rest1 vals1)))))"

text \<open>The values of flags keep the types of their declarations.\<close>

fun flag_typed :: "flag_kind \<Rightarrow> flag_value \<Rightarrow> bool" where
  "flag_typed KStr (FStr s) = True"
| "flag_typed KInt (FInt n) = (- (2 ^ 63) \<le> n \<and> n < 2 ^ 63)"
| "flag_typed KBool (FBool b) = True"
| "flag_typed KFloat (FFloat q) = True"
| "flag_typed KDur (FDur d) = True"
| "flag_typed _ _ = False"

definition flags_typed :: "(string \<times> flag_kind) list \<Rightarrow> flag_values \<Rightarrow> bool" where
  "flags_typed spec vals \<longleftrightarrow> (\<forall>name k. map_of spec name = Some k \<longrightarrow> flag_typed k (vals name))"

lemma parse_int0_range: "parse_int0 s = Inr n \<Longrightarrow> - (2 ^ 63) \<le> n \<and> n < 2 ^ 63"
  by (auto simp: parse_int0_def Let_def split: if_splits sum.splits)

lemma set_value_typed: "set_value env k s = Inr v \<Longrightarrow> flag_typed k v"
  by (cases k) (auto simp: set_value_def dest: parse_int0_range split: sum.splits option.splits)

lemma assign_flag_typed:
  "assign_flag env k name v vals = Inr vals1 \<Longrightarrow> flags_typed spec vals \<Longrightarrow> map_of spec name = Some k \<Longrightarrow>
     flags_typed spec vals1"
  using set_value_typed [of env k v] by (auto simp: assign_flag_def flags_typed_def split: sum.splits)

lemma flag_parse_typed:
  "flag_parse env spec args vals = Inr (vals1, rest) \<Longrightarrow> flags_typed spec vals \<Longrightarrow> flags_typed spec vals1"
proof (induction env spec args vals arbitrary: vals1 rest rule: flag_parse.induct)
  case (2 env spec s args vals)
  show ?case
  proof (cases "flag_head_of s")
    case (Flag name v)
    then obtain k where k: "map_of spec name = Some k"
      using "2.prems"(1) by (auto split: option.splits)
    show ?thesis
    proof (cases v)
      case (Some x)
      with Flag k "2.prems" obtain vals2 where "assign_flag env k name x vals = Inr vals2"
        "flag_parse env spec args vals2 = Inr (vals1, rest)" by (auto split: sum.splits)
      with "2.IH"(3) [OF Flag k Some] "2.prems"(2) k show ?thesis by (blast dest: assign_flag_typed)
    next
      case None
      show ?thesis
      proof (cases "k = KBool")
        case True
        with "2.prems"(2) k have "flags_typed spec (vals(name := FBool True))" by (simp add: flags_typed_def)
        moreover from True "2.prems"(1) Flag k None
        have "flag_parse env spec args (vals(name := FBool True)) = Inr (vals1, rest)" by simp
        ultimately show ?thesis using "2.IH"(1) [OF Flag k None True] by blast
      next
        case False
        with "2.prems" Flag k None obtain x args1 vals2 where "args = x # args1"
          "assign_flag env k name x vals = Inr vals2" "flag_parse env spec args1 vals2 = Inr (vals1, rest)"
          by (auto split: sum.splits list.splits)
        with "2.IH"(2) [OF Flag k None False] "2.prems"(2) k show ?thesis by (blast dest: assign_flag_typed)
      qed
    qed
  qed (use "2.prems" in auto)
qed simp

end
