(* ===== verification/Launcher.thy ===== *)
theory Launcher
  imports GoFlag Dream Tooling ModelAdapters FastAdapters Preprocessor
begin

text \<open>
  \<open>cmd/harness/main.go\<close>: the binary, which reads its configuration from the environment and the
  command line, answers one prompt or sets up the server. Parameters: the environment, standard input,
  \<open>net/http\<close>, \<open>os/exec\<close>, the disk, the clock and the decoders of the layers below. The context of a
  one-shot turn, whose deadline the session does not count down, is an argument. Model modes are
  compared after \<open>strings.ToLower\<close>, which \<open>Prelude\<close> models for texts that can equal an ASCII word.
\<close>

subsection \<open>Configuration\<close>

definition errEmptyPrompt :: goerr where
  "errEmptyPrompt = Sentinel ''main.errEmptyPrompt'' ''prompt is required (provide argv text or stdin)''"
definition errConflictingAuth :: goerr where
  "errConflictingAuth = Sentinel ''main.errConflictingAuth'' ''set either auth key/header or bearer token, not both''"
definition errUnsupportedModelMode :: goerr where
  "errUnsupportedModelMode = Sentinel ''main.errUnsupportedModelMode'' ''unsupported model mode''"
definition errUnsupportedBackend :: goerr where
  "errUnsupportedBackend = Sentinel ''main.errUnsupportedBackend'' ''unsupported backend mode''"
definition errUnsupportedPreprocess :: goerr where
  "errUnsupportedPreprocess = Sentinel ''main.errUnsupportedPreprocess'' ''unsupported preprocess mode''"

definition releaseVersion :: string where "releaseVersion = ''0.3.1''"

record launcher_config =
  lc_model_mode :: string
  lc_model_endpoint :: string
  lc_model_timeout :: int
  lc_ollama_endpoint :: string
  lc_ollama_model :: string
  lc_auth_header :: string
  lc_auth_value :: string
  lc_backend_mode :: string
  lc_xs_command :: string
  lc_session :: string
  lc_branch :: string
  lc_dream_enabled :: bool
  lc_dream_inactivity_hrs :: int
  lc_dream_min_sessions :: int
  lc_dream_topic_dir :: string
  lc_max_tokens :: int
  lc_auto_terminate :: bool
  lc_memory_index_size :: int
  lc_compaction_turns :: int
  lc_compaction_ratio :: rat
  lc_preprocess_mode :: string
  lc_needle_python :: string
  lc_needle_bridge :: string

record serve_config =
  vs_launcher :: launcher_config
  vs_bind :: string
  vs_port :: int

record parsed_flags =
  pf_launcher :: launcher_config
  pf_bind :: string
  pf_port :: int
  pf_rest :: "string list"

text \<open>The helpers for defaults; \<open>stringOrDefault\<close> is the one of the dream binary.\<close>

definition duration_or_default :: "flag_env \<Rightarrow> string \<Rightarrow> int \<Rightarrow> int result" where
  "duration_or_default env raw0 d =
     (let raw = trim_space raw0 in
      if raw = [] then Inr d
      else case fe_duration env raw of
        Inr t \<Rightarrow> Inr t
      | Inl e \<Rightarrow> Inl (Wrapped (''invalid HARNESS_MODEL_TIMEOUT='' @ go_quote raw @ '': '' @ err_msg e) e))"

definition int_or_default :: "string \<Rightarrow> int \<Rightarrow> int result" where
  "int_or_default raw0 d =
     (let raw = trim_space raw0 in
      if raw = [] then Inr d
      else case atoi raw of
        None \<Rightarrow> Inl (Adhoc (''invalid HARNESS_SERVE_PORT='' @ go_quote raw))
      | Some n \<Rightarrow> if n \<le> 0 then Inl (Adhoc (''invalid HARNESS_SERVE_PORT='' @ go_quote raw)) else Inr n)"

definition float_or_default :: "flag_env \<Rightarrow> string \<Rightarrow> rat \<Rightarrow> rat" where
  "float_or_default env raw0 d =
     (let raw = trim_space raw0 in
      if raw = [] then d else case fe_float env raw of Inl e \<Rightarrow> d | Inr q \<Rightarrow> q)"

definition bool_or_default :: "string \<Rightarrow> bool \<Rightarrow> bool" where
  "bool_or_default raw0 d =
     (let raw = trim_space raw0 in
      if raw = [] then d else case parse_bool raw of None \<Rightarrow> d | Some b \<Rightarrow> b)"

text \<open>The result of \<open>parseIntOrDefault\<close> where the caller drops the error.\<close>

definition int_or_zero :: "string \<Rightarrow> int \<Rightarrow> int" where
  "int_or_zero raw d = (case int_or_default raw d of Inl e \<Rightarrow> 0 | Inr n \<Rightarrow> n)"

text \<open>The flags in the order of their declarations, each with its default.\<close>

definition launcher_flags :: "flag_env \<Rightarrow> (string \<Rightarrow> string) \<Rightarrow> int \<Rightarrow> int \<Rightarrow> (string \<times> flag_value) list" where
  "launcher_flags env getenv timeout port =
     [(''model-mode'', FStr (string_or_default (getenv ''HARNESS_MODEL_MODE'') ''mock'')),
      (''model-endpoint'', FStr (trim_space (getenv ''HARNESS_MODEL_ENDPOINT''))),
      (''model-auth-header'', FStr (string_or_default (getenv ''HARNESS_MODEL_AUTH_HEADER'') ''Authorization'')),
      (''model-auth-key'', FStr (trim_space (getenv ''HARNESS_MODEL_AUTH_KEY''))),
      (''model-bearer-token'', FStr (trim_space (getenv ''HARNESS_MODEL_BEARER_TOKEN''))),
      (''model-timeout'', FDur timeout),
      (''ollama-endpoint'', FStr (string_or_default (getenv ''HARNESS_OLLAMA_ENDPOINT'') ''http://127.0.0.1:11434'')),
      (''ollama-model'', FStr (trim_space (getenv ''HARNESS_OLLAMA_MODEL''))),
      (''backend-mode'', FStr (string_or_default (getenv ''HARNESS_BACKEND_MODE'') ''memory'')),
      (''xs-command'', FStr (string_or_default (getenv ''HARNESS_XS_COMMAND'') ''xs'')),
      (''session-id'', FStr (string_or_default (getenv ''HARNESS_SESSION_ID'') ''demo'')),
      (''branch-id'', FStr (string_or_default (getenv ''HARNESS_BRANCH_ID'') ''main'')),
      (''bind'', FStr (string_or_default (getenv ''HARNESS_SERVE_BIND'') ''127.0.0.1'')),
      (''port'', FInt port),
      (''dream-enabled'', FBool (bool_or_default (getenv ''DREAM_ENABLED'') False)),
      (''dream-inactivity-hrs'', FInt (int_or_zero (getenv ''DREAM_INACTIVITY_HOURS'') 24)),
      (''dream-min-sessions'', FInt (int_or_zero (getenv ''DREAM_MIN_SESSIONS'') 5)),
      (''dream-topic-dir'', FStr (trim_space (getenv ''DREAM_TOPIC_DIR''))),
      (''max-tokens-per-consult'', FInt (int_or_zero (getenv ''MAX_TOKENS_PER_CONSULT'') 16000)),
      (''auto-terminate-audit'', FBool (bool_or_default (getenv ''AUTO_TERMINATE_ON_AUDIT_COMPLETE'') False)),
      (''memory-index-size'', FInt (int_or_zero (getenv ''MEMORY_INDEX_SIZE'') 1024)),
      (''compaction-turns'', FInt (int_or_zero (getenv ''COMPACTION_TURNS'') 10)),
      (''compaction-ratio'', FFloat (float_or_default env (getenv ''COMPACTION_RATIO'') (8 / 10))),
      (''preprocess'', FStr (string_or_default (getenv ''HARNESS_PREPROCESS'') ''off'')),
      (''needle-python'', FStr (trim_space (getenv ''NEEDLE_PYTHON''))),
      (''needle-bridge'', FStr (trim_space (getenv ''NEEDLE_BRIDGE'')))]"

fun kind_of_value :: "flag_value \<Rightarrow> flag_kind" where
  "kind_of_value (FStr s) = KStr"
| "kind_of_value (FInt n) = KInt"
| "kind_of_value (FBool b) = KBool"
| "kind_of_value (FFloat q) = KFloat"
| "kind_of_value (FDur d) = KDur"

definition flag_spec :: "(string \<times> flag_value) list \<Rightarrow> (string \<times> flag_kind) list" where
  "flag_spec ds = map (\<lambda>(name, v). (name, kind_of_value v)) ds"

definition flag_start :: "(string \<times> flag_value) list \<Rightarrow> flag_values" where
  "flag_start ds name = (case map_of ds name of Some v \<Rightarrow> v | None \<Rightarrow> FStr [])"

text \<open>Reading the variables that the flags are bound to.\<close>

fun the_str :: "flag_value \<Rightarrow> string" where "the_str (FStr s) = s" | "the_str _ = []"
fun the_int :: "flag_value \<Rightarrow> int" where "the_int (FInt n) = n" | "the_int _ = 0"
fun the_bool :: "flag_value \<Rightarrow> bool" where "the_bool (FBool b) = b" | "the_bool _ = False"
fun the_float :: "flag_value \<Rightarrow> rat" where "the_float (FFloat q) = q" | "the_float _ = 0"
fun the_dur :: "flag_value \<Rightarrow> int" where "the_dur (FDur d) = d" | "the_dur _ = 0"

definition text_flag :: "flag_values \<Rightarrow> string \<Rightarrow> string" where
  "text_flag vals name = trim_space (the_str (vals name))"

definition preprocess_mode_of :: "flag_values \<Rightarrow> string" where
  "preprocess_mode_of vals =
     (let m = to_lower (text_flag vals ''preprocess'') in if m = [] then ''off'' else m)"

text \<open>The checks after parsing, in their order; \<open>None\<close> when all pass.\<close>

definition flag_problem :: "flag_values \<Rightarrow> goerr option" where
  "flag_problem vals =
     (let model = to_lower (text_flag vals ''model-mode''); backend = to_lower (text_flag vals ''backend-mode'');
          pre = preprocess_mode_of vals in
      if model \<noteq> ''mock'' \<and> model \<noteq> ''http'' \<and> model \<noteq> ''ollama''
      then Some (wrap_err errUnsupportedModelMode (go_quote model))
      else if backend \<noteq> ''memory'' \<and> backend \<noteq> ''xs'' then Some (wrap_err errUnsupportedBackend (go_quote backend))
      else if pre \<noteq> ''off'' \<and> pre \<noteq> ''needle'' then Some (wrap_err errUnsupportedPreprocess (go_quote pre))
      else if pre = ''needle'' \<and> the_str (vals ''needle-bridge'') = []
      then Some (Adhoc (''needle bridge is required when preprocess='' @ pre @ '' (set NEEDLE_BRIDGE)''))
      else if model = ''http'' \<and> text_flag vals ''model-endpoint'' = []
      then Some (Adhoc ''model endpoint is required in http mode'')
      else if model = ''ollama'' \<and> text_flag vals ''ollama-model'' = []
      then Some (Adhoc ''ollama model is required in ollama mode'')
      else if text_flag vals ''model-bearer-token'' \<noteq> [] \<and> text_flag vals ''model-auth-key'' \<noteq> []
      then Some errConflictingAuth
      else None)"

definition launcher_of :: "flag_values \<Rightarrow> launcher_config" where
  "launcher_of vals =
     \<lparr>lc_model_mode = to_lower (text_flag vals ''model-mode''),
      lc_model_endpoint = text_flag vals ''model-endpoint'',
      lc_model_timeout = the_dur (vals ''model-timeout''),
      lc_ollama_endpoint = text_flag vals ''ollama-endpoint'',
      lc_ollama_model = text_flag vals ''ollama-model'',
      lc_auth_header = text_flag vals ''model-auth-header'',
      lc_auth_value = (if text_flag vals ''model-bearer-token'' \<noteq> []
                       then ''Bearer '' @ text_flag vals ''model-bearer-token'' else text_flag vals ''model-auth-key''),
      lc_backend_mode = to_lower (text_flag vals ''backend-mode''),
      lc_xs_command = text_flag vals ''xs-command'',
      lc_session = text_flag vals ''session-id'',
      lc_branch = text_flag vals ''branch-id'',
      lc_dream_enabled = the_bool (vals ''dream-enabled''),
      lc_dream_inactivity_hrs = the_int (vals ''dream-inactivity-hrs''),
      lc_dream_min_sessions = the_int (vals ''dream-min-sessions''),
      lc_dream_topic_dir = the_str (vals ''dream-topic-dir''),
      lc_max_tokens = the_int (vals ''max-tokens-per-consult''),
      lc_auto_terminate = the_bool (vals ''auto-terminate-audit''),
      lc_memory_index_size = the_int (vals ''memory-index-size''),
      lc_compaction_turns = the_int (vals ''compaction-turns''),
      lc_compaction_ratio = the_float (vals ''compaction-ratio''),
      lc_preprocess_mode = preprocess_mode_of vals,
      lc_needle_python = the_str (vals ''needle-python''),
      lc_needle_bridge = the_str (vals ''needle-bridge'')\<rparr>"

definition parse_flags_from ::
  "flag_env \<Rightarrow> (string \<times> flag_value) list \<Rightarrow> string list \<Rightarrow> parsed_flags result" where
  "parse_flags_from env ds args =
     (case flag_parse env (flag_spec ds) args (flag_start ds) of
        Inl e \<Rightarrow> Inl e
      | Inr (vals, rest) \<Rightarrow>
        (case flag_problem vals of
           Some e \<Rightarrow> Inl e
         | None \<Rightarrow> Inr \<lparr>pf_launcher = launcher_of vals, pf_bind = text_flag vals ''bind'',
             pf_port = the_int (vals ''port''), pf_rest = rest\<rparr>))"

definition parse_launcher_flags ::
  "flag_env \<Rightarrow> (string \<Rightarrow> string) \<Rightarrow> string list \<Rightarrow> parsed_flags result" where
  "parse_launcher_flags env getenv args =
     (case duration_or_default env (getenv ''HARNESS_MODEL_TIMEOUT'') (10 * 10 ^ 9) of
        Inl e \<Rightarrow> Inl e
      | Inr timeout \<Rightarrow>
        (case int_or_default (getenv ''HARNESS_SERVE_PORT'') 8080 of
           Inl e \<Rightarrow> Inl e
         | Inr port \<Rightarrow> parse_flags_from env (launcher_flags env getenv timeout port) args))"

definition read_prompt :: "string list \<Rightarrow> string result \<Rightarrow> string result" where
  "read_prompt args stdin =
     (let joined = trim_space (str_join '' '' args) in
      if args \<noteq> [] \<and> joined \<noteq> [] then Inr joined
      else case stdin of
        Inl e \<Rightarrow> Inl e
      | Inr raw \<Rightarrow> if trim_space raw = [] then Inl errEmptyPrompt else Inr (trim_space raw))"

definition parse_config ::
  "flag_env \<Rightarrow> (string \<Rightarrow> string) \<Rightarrow> string list \<Rightarrow> string result \<Rightarrow> (launcher_config \<times> string) result" where
  "parse_config env getenv args stdin =
     (case parse_launcher_flags env getenv args of
        Inl e \<Rightarrow> Inl e
      | Inr p \<Rightarrow>
        (case read_prompt (pf_rest p) stdin of Inl e \<Rightarrow> Inl e | Inr prompt \<Rightarrow> Inr (pf_launcher p, prompt)))"

definition parse_serve_config ::
  "flag_env \<Rightarrow> (string \<Rightarrow> string) \<Rightarrow> string list \<Rightarrow> serve_config result" where
  "parse_serve_config env getenv args =
     (case parse_launcher_flags env getenv args of
        Inl e \<Rightarrow> Inl e
      | Inr p \<Rightarrow>
        if pf_rest p \<noteq> [] then Inl (Adhoc ''unexpected positional args for serve mode'')
        else if trim_space (pf_bind p) = [] then Inl (Adhoc ''bind address is required'')
        else if pf_port p \<le> 0 then Inl (Adhoc ''port must be > 0'')
        else Inr \<lparr>vs_launcher = pf_launcher p, vs_bind = trim_space (pf_bind p), vs_port = pf_port p\<rparr>)"

subsection \<open>Building the parts\<close>

datatype launched_backend = MemoryBackend mem_backend | XsBackend xs_adapter

definition build_backend :: "launcher_config \<Rightarrow> launched_backend result" where
  "build_backend cfg =
     (if lc_backend_mode cfg = ''memory'' then Inr (MemoryBackend new_mem_backend)
      else if lc_backend_mode cfg = ''xs''
      then Inr (XsBackend (new_xs_adapter \<lparr>xc_command = lc_xs_command cfg, xc_health_args = []\<rparr>))
      else Inl (wrap_err errUnsupportedBackend (go_quote (lc_backend_mode cfg))))"

definition demo_answer :: string where
  "demo_answer = ''{\"decision\":\"answer\",\"answer\":\"demo response\"}''"

definition build_adapter :: "'g adapter_env \<Rightarrow> launcher_config \<Rightarrow> (string \<times> 'g adapter) result" where
  "build_adapter env cfg =
     (if lc_model_mode cfg = ''mock''
      then Inr (mock_adapter_name ''demo-mock'', mock_adapter (Some (\<lambda>c req g. (Inr demo_answer, g))))
      else if lc_model_mode cfg = ''http''
      then Inr (http_adapter_name, http_adapter env (new_http_adapter
             \<lparr>ht_endpoint = lc_model_endpoint cfg, ht_api_key = lc_auth_value cfg,
              ht_key_header = lc_auth_header cfg, ht_timeout = lc_model_timeout cfg, ht_extra = []\<rparr>))
      else if lc_model_mode cfg = ''ollama''
      then Inr (ollama_name, ollama_adapter env (new_ollama_adapter
             \<lparr>ol_endpoint = lc_ollama_endpoint cfg, ol_model = lc_ollama_model cfg,
              ol_timeout = lc_model_timeout cfg\<rparr>))
      else Inl (wrap_err errUnsupportedModelMode (go_quote (lc_model_mode cfg))))"

definition build_model_headers :: "launcher_config \<Rightarrow> http_header list" where
  "build_model_headers cfg =
     \<lparr>hd_name = ''Content-Type'', hd_value = ''application/json''\<rparr>
     # (if lc_auth_value cfg \<noteq> [] then [\<lparr>hd_name = lc_auth_header cfg, hd_value = lc_auth_value cfg\<rparr>] else [])"

definition build_memory_manager :: "memory_env \<Rightarrow> launcher_config \<Rightarrow> disk \<Rightarrow> memory_manager \<times> disk" where
  "build_memory_manager me cfg d =
     new_manager me \<lparr>mg_topic_dir = lc_dream_topic_dir cfg,
       mg_max_entries = (if lc_memory_index_size cfg \<le> 0 then 1024 else lc_memory_index_size cfg),
       mg_embed_enabled = False, mg_embed = None\<rparr> d"

definition build_dream_daemon :: "launcher_config \<Rightarrow> daemon option" where
  "build_dream_daemon cfg =
     (if \<not> lc_dream_enabled cfg then None
      else Some (new_daemon \<lparr>dg_enabled = lc_dream_enabled cfg,
             dg_inactivity_hours = lc_dream_inactivity_hrs cfg, dg_min_sessions = lc_dream_min_sessions cfg,
             dg_prompt = [], dg_topic_dir = lc_dream_topic_dir cfg\<rparr>))"

definition build_audit_config :: "launcher_config \<Rightarrow> audit_config" where
  "build_audit_config cfg =
     \<lparr>ac_max_tokens = (if lc_max_tokens cfg \<le> 0 then 16000 else lc_max_tokens cfg),
      ac_auto = lc_auto_terminate cfg, ac_prompt = []\<rparr>"

text \<open>
  \<open>backendEventLog\<close>: the event log of the daemons is the backend, whichever it is. The deadline of a
  call is the timeout that the preprocessor puts on its context.
\<close>

definition event_log_append ::
  "ctx \<Rightarrow> event \<Rightarrow> launched_backend \<Rightarrow> goerr option \<times> launched_backend" where
  "event_log_append c e b =
     (case b of
        MemoryBackend m \<Rightarrow> apsnd MemoryBackend (mb_append_event c e m)
      | XsBackend x \<Rightarrow> apsnd XsBackend (xs_append_event c e x))"

type_synonym ('p, 'w) needle_state = "'p needle_adapter \<times> 'w"

definition needle_preprocess_config ::
  "('p, 'w) needle_env \<Rightarrow> (('p, 'w) needle_state, launched_backend, unit) pp_config" where
  "needle_preprocess_config nenv =
     \<lparr>pc_adapter = Some (\<lambda>c timeout prompt text_in aw. needle_call nenv c (Some timeout) prompt text_in aw),
      pc_event_log = Some event_log_append, pc_timeout = DefaultNeedleTimeout, pc_max_workers = 1,
      pc_queue_size = 32, pc_on_result = None\<rparr>"

definition build_preprocessor ::
  "('p, 'w) needle_env \<Rightarrow> (string \<Rightarrow> string) \<Rightarrow> (string \<Rightarrow> goerr option) \<Rightarrow> launcher_config
    \<Rightarrow> ((('p, 'w) needle_state, launched_backend, unit) pp_daemon \<times> 'p needle_adapter) option result" where
  "build_preprocessor nenv getenv stat cfg =
     (if lc_preprocess_mode cfg = [] \<or> lc_preprocess_mode cfg = ''off'' then Inr None
      else if lc_preprocess_mode cfg = ''needle''
      then
        (case new_needle_adapter getenv stat \<lparr>nc_python = lc_needle_python cfg,
                nc_bridge = lc_needle_bridge cfg, nc_timeout = DefaultNeedleTimeout\<rparr> of
           Inl e \<Rightarrow> Inl e
         | Inr a \<Rightarrow>
           (case new_pp_daemon (needle_preprocess_config nenv) of
              Inl e \<Rightarrow> Inl e | Inr d \<Rightarrow> Inr (Some (d, a))))
      else Inl (wrap_err errUnsupportedPreprocess (go_quote (lc_preprocess_mode cfg))))"

subsection \<open>Help\<close>

definition main_usage :: string where
  "main_usage = str_join newline
     [''pancakes-harness 0.3.1'',
      '''',
      ''Local-first context and egress kernel.'',
      ''It reconstructs local consult context, shapes a bounded model-facing artifact, preserves replayable branch state, and exposes a thin ingress API.'',
      ''It is intentionally not the full agent execution/control plane.'',
      '''',
      ''Usage:'',
      ''  harness [flags] <prompt>'',
      ''  harness [flags] < <prompt-file>'',
      ''  harness serve [flags]'',
      '''',
      ''One-shot flags:'',
      ''  -model-mode string'',
      ''        model adapter mode: mock|http|ollama'',
      ''  -model-endpoint string'',
      ''        HTTP model endpoint URL'',
      ''  -model-auth-header string'',
      ''        HTTP auth header name'',
      ''  -model-auth-key string'',
      ''        HTTP auth header value'',
      ''  -model-bearer-token string'',
      ''        HTTP bearer token (sent as Bearer token)'',
      ''  -model-timeout duration'',
      ''        model call timeout (e.g. 10s)'',
      ''  -ollama-endpoint string'',
      ''        Ollama API base URL'',
      ''  -ollama-model string'',
      ''        Ollama model name'',
      ''  -backend-mode string'',
      ''        backend mode: memory|xs'',
      ''  -xs-command string'',
      ''        xs command path when backend-mode=xs'',
      ''  -session-id string'',
      ''        session id'',
      ''  -branch-id string'',
      ''        branch id'',
      '''',
      ''Serve flags:'',
      ''  -bind string'',
      ''        bind address (serve mode)'',
      ''  -port int'',
      ''        bind port (serve mode)'',
      '''',
      ''Examples:'',
      ''  harness -model-mode mock \"hello harness\"'',
      ''  harness serve -model-mode ollama -ollama-model qwen3:0.6b'',
      ''  harness -version'',
      []]"

definition serve_usage :: string where
  "serve_usage = str_join newline
     [''pancakes-harness 0.3.1'',
      '''',
      ''Usage:'',
      ''  harness serve [flags]'',
      '''',
      ''Flags:'',
      ''  -model-mode string'',
      ''        model adapter mode: mock|http|ollama'',
      ''  -model-endpoint string'',
      ''        HTTP model endpoint URL'',
      ''  -model-auth-header string'',
      ''        HTTP auth header name'',
      ''  -model-auth-key string'',
      ''        HTTP auth header value'',
      ''  -model-bearer-token string'',
      ''        HTTP bearer token (sent as Bearer token)'',
      ''  -model-timeout duration'',
      ''        model call timeout (e.g. 10s)'',
      ''  -ollama-endpoint string'',
      ''        Ollama API base URL'',
      ''  -ollama-model string'',
      ''        Ollama model name'',
      ''  -backend-mode string'',
      ''        backend mode: memory|xs'',
      ''  -xs-command string'',
      ''        xs command path when backend-mode=xs'',
      ''  -session-id string'',
      ''        default session id for one-shot parity'',
      ''  -branch-id string'',
      ''        default branch id for one-shot parity'',
      ''  -bind string'',
      ''        bind address (serve mode)'',
      ''  -port int'',
      ''        bind port (serve mode)'',
      ''  -preprocess string'',
      ''        fast ingress sidecar: off|needle (local, no API key)'',
      ''  -needle-python string'',
      ''        python interpreter for the needle bridge'',
      ''  -needle-bridge string'',
      ''        path to scripts/needle_bridge.py'',
      '''',
      ''Example:'',
      ''  harness serve -model-mode ollama -ollama-model qwen3:0.6b -bind 127.0.0.1 -port 8080'',
      ''  harness serve -model-mode mock -preprocess needle -needle-bridge scripts/needle_bridge.py'',
      []]"

definition should_show_help :: "string list \<Rightarrow> bool" where
  "should_show_help args = list_ex (\<lambda>a. trim_space a \<in> {''-h'', ''--help'', ''help''}) args"

definition should_show_version :: "string list \<Rightarrow> bool" where
  "should_show_version args = list_ex (\<lambda>a. trim_space a \<in> {''-version'', ''--version'', ''version''}) args"

text \<open>\<open>strings.EqualFold(s, "serve")\<close>: the letter \<open>s\<close> also folds from U+017F.\<close>

definition folds_to_serve :: "string \<Rightarrow> bool" where
  "folds_to_serve s \<longleftrightarrow>
     map lower_char s = ''serve''
     \<or> take 2 s = [CHR 0xC5, CHR 0xBF] \<and> map lower_char (drop 2 s) = ''erve''"

definition is_serve :: "string list \<Rightarrow> bool" where
  "is_serve args \<longleftrightarrow> args \<noteq> [] \<and> folds_to_serve (trim_space (hd args))"

subsection \<open>Running\<close>

record ('g, 'p, 'w) launch_env =
  le_flags :: flag_env
  le_getenv :: "string \<Rightarrow> string"
  le_stdin :: "string result"
  le_net :: "'g adapter_env"
  le_decoders :: model_decoders
  le_encode :: "gomap \<Rightarrow> string result"
  le_tool_decoders :: tool_decoders
  le_tool_encode :: "tool_request \<Rightarrow> string result"
  le_proc :: "command_spec \<Rightarrow> int \<Rightarrow> string \<Rightarrow> proc_result"
  le_clock :: "nat \<Rightarrow> gotime"
  le_memory :: memory_env
  le_disk :: disk
  le_needle :: "('p, 'w) needle_env"
  le_stat :: "string \<Rightarrow> goerr option"
  le_listen :: "string \<Rightarrow> goerr option"

text \<open>Exit code, standard output and standard error.\<close>

type_synonym outcome3 = "int \<times> string \<times> string"

definition launcher_runner :: tool_runner where
  "launcher_runner = new_runner_with_limits Map.empty (1024 * 1024) (256 * 1024)"

definition launch_tool :: "('g, 'p, 'w) launch_env \<Rightarrow> tool_runner \<Rightarrow> tool_request \<Rightarrow> unit \<Rightarrow> tool_response \<times> unit" where
  "launch_tool env r req t = (run_tool (le_tool_decoders env) (le_tool_encode env) (le_proc env) r req, t)"

definition one_shot_cfg ::
  "('g, 'p, 'w) launch_env \<Rightarrow> launcher_config \<Rightarrow> 'b backend_ops \<Rightarrow> string \<times> 'g adapter \<Rightarrow> ('b, 'g, unit) sess_cfg" where
  "one_shot_cfg env cfg ops adapter =
     \<lparr>sc_id = lc_session cfg, sc_branch = lc_branch cfg, sc_ops = ops, sc_decoders = le_decoders env,
      sc_adapter = fst adapter, sc_call = snd adapter,
      sc_runner = Some (launch_tool env launcher_runner),
      sc_encode = le_encode env, sc_headers = build_model_headers cfg, sc_max_turns = 0, sc_search = None,
      sc_preprocessor = False, sc_metrics = False,
      sc_audit = \<lparr>ac_max_tokens = 0, ac_auto = False, ac_prompt = []\<rparr>, sc_compactor = None,
      sc_schedule = \<lparr>sg_trigger_turns = 0, sg_ratio = 0, sg_min_events = 0, sg_cooldown = 0\<rparr>,
      sc_clock = le_clock env, sc_fmt1 = (\<lambda>_. [])\<rparr>"

definition print_turn :: "turn_result \<Rightarrow> string" where
  "print_turn out =
     ''answer: '' @ tu_answer out @ newline @ ''envelope_bytes: '' @ int_str (tu_envelope out) @ newline
     @ ''session: '' @ tu_session out @ newline @ ''branch: '' @ tu_branch out @ newline"

definition one_shot_on ::
  "('g, 'p, 'w) launch_env \<Rightarrow> ctx \<Rightarrow> launcher_config \<Rightarrow> string \<Rightarrow> string \<times> 'g adapter
    \<Rightarrow> 'b backend_ops \<Rightarrow> 'b \<Rightarrow> 'g \<Rightarrow> outcome3 \<times> 'g" where
  "one_shot_on env c cfg prompt adapter ops b net =
     (case start_session (one_shot_cfg env cfg ops adapter) b net () of
        Inl e \<Rightarrow> ((1, [], ''start session: '' @ err_msg e @ newline), net)
      | Inr (sc, s) \<Rightarrow>
        (case handle_user_turn sc (if 0 < lc_model_timeout cfg then c else None) (lc_branch cfg) prompt [] s of
           ((out, Some e), s1) \<Rightarrow> ((1, [], ''turn failed: '' @ err_msg e @ newline), sn_model s1)
         | ((out, None), s1) \<Rightarrow> ((0, print_turn out, []), sn_model s1)))"

definition run_one_shot ::
  "('g, 'p, 'w) launch_env \<Rightarrow> ctx \<Rightarrow> string list \<Rightarrow> 'g \<Rightarrow> outcome3 \<times> 'g" where
  "run_one_shot env c args net =
     (case parse_config (le_flags env) (le_getenv env) args (le_stdin env) of
        Inl e \<Rightarrow> ((2, [], ''config error: '' @ err_msg e @ newline), net)
      | Inr (cfg, prompt) \<Rightarrow>
        (case build_backend cfg of
           Inl e \<Rightarrow> ((2, [], ''backend error: '' @ err_msg e @ newline), net)
         | Inr lb \<Rightarrow>
           (case build_adapter (le_net env) cfg of
              Inl e \<Rightarrow> ((2, [], ''adapter error: '' @ err_msg e @ newline), net)
            | Inr adapter \<Rightarrow>
              (case lb of
                 MemoryBackend b \<Rightarrow> one_shot_on env c cfg prompt adapter mem_ops b net
               | XsBackend b \<Rightarrow> one_shot_on env c cfg prompt adapter xs_ops b net))))"

text \<open>What \<open>runServe\<close> hands to \<open>server.New\<close>, with the adapter of the sidecar.\<close>

record ('g, 'p, 'w) serve_parts =
  sp_backend :: launched_backend
  sp_adapter :: "string \<times> 'g adapter"
  sp_headers :: "http_header list"
  sp_timeout :: int
  sp_backend_mode :: string
  sp_model_mode :: string
  sp_memory :: "memory_manager \<times> disk"
  sp_daemon :: "daemon option"
  sp_audit :: audit_config
  sp_tools :: "'w tool_registry"
  sp_sidecar :: "((('p, 'w) needle_state, launched_backend, unit) pp_daemon \<times> 'p needle_adapter) option"

definition serve_parts_of ::
  "('g, 'p, 'w) launch_env \<Rightarrow> launcher_config \<Rightarrow> (string \<times> ('g, 'p, 'w) serve_parts) result" where
  "serve_parts_of env cfg =
     (case build_backend cfg of
        Inl e \<Rightarrow> Inl (Adhoc (''backend error: '' @ err_msg e))
      | Inr b \<Rightarrow>
        (case build_adapter (le_net env) cfg of
           Inl e \<Rightarrow> Inl (Adhoc (''adapter error: '' @ err_msg e))
         | Inr adapter \<Rightarrow>
           (case build_preprocessor (le_needle env) (le_getenv env) (le_stat env) cfg of
              Inl e \<Rightarrow> Inl (Adhoc (''preprocess error: '' @ err_msg e))
            | Inr sidecar \<Rightarrow>
              Inr (if sidecar = None then []
                   else ''preprocess: '' @ lc_preprocess_mode cfg @ '' sidecar (local)'' @ newline,
                   \<lparr>sp_backend = b, sp_adapter = adapter, sp_headers = build_model_headers cfg,
                    sp_timeout = lc_model_timeout cfg, sp_backend_mode = lc_backend_mode cfg,
                    sp_model_mode = lc_model_mode cfg,
                    sp_memory = build_memory_manager (le_memory env) cfg (le_disk env),
                    sp_daemon = build_dream_daemon cfg, sp_audit = build_audit_config cfg,
                    sp_tools = register_builtin_tools Tooling.new_registry, sp_sidecar = sidecar\<rparr>))))"

definition ErrServerClosed :: goerr where
  "ErrServerClosed = Sentinel ''http.ErrServerClosed'' ''http: Server closed''"

text \<open>
  The daemon as the server uses it: it works on the server's backend and on the memory manager with its
  directory, which the server keeps as well but no handler uses; \<open>envs k\<close> are the surroundings of its \<open>k\<close>-th call.
\<close>

type_synonym served_daemon = "nat \<times> daemon \<times> memory_manager \<times> disk"

definition served_dream :: "'b backend_ops \<Rightarrow> (nat \<Rightarrow> dream_env) \<Rightarrow> ('b, served_daemon) dream_ops" where
  "served_dream ops envs =
     \<lparr>do_execute = (\<lambda>c session b (k, da, mm, d).
        let (r, da1, w) = execute_dream ops (envs k) c session (da, \<lparr>dw_memory = mm, dw_disk = d, dw_backend = b\<rparr>)
        in (r, dw_backend w, (Suc k, da1, dw_memory w, dw_disk w))),
      do_should = (\<lambda>(k, da, mm, d). (should_dream (de_clock (envs k) 0) da, (Suc k, da, mm, d))),
      do_count = (\<lambda>(k, da, mm, d). dream_count da)\<rparr>"

text \<open>The server that the parts stand for, on a backend of either kind.\<close>

definition launched_server_cfg ::
  "('g, 'p, 'w) launch_env \<Rightarrow> ('g, 'p, 'w) serve_parts \<Rightarrow> 'b backend_ops \<Rightarrow> (ctx \<Rightarrow> 'b \<Rightarrow> health_status \<times> 'b)
    \<Rightarrow> (goval \<Rightarrow> string result) \<Rightarrow> body_decoders \<Rightarrow> (nat \<Rightarrow> dream_env) \<Rightarrow> ('b, 'g, unit, served_daemon) server_cfg" where
  "launched_server_cfg env parts ops health marshal body envs =
     \<lparr>vc_ops = ops, vc_health = health, vc_decoders = le_decoders env, vc_adapter = fst (sp_adapter parts),
      vc_call = snd (sp_adapter parts), vc_runner = Some launcher_runner, vc_run_tool = launch_tool env,
      vc_encode = le_encode env, vc_marshal = marshal, vc_headers = sp_headers parts,
      vc_backend_mode = sp_backend_mode parts, vc_model_mode = sp_model_mode parts,
      vc_dream = map_option (\<lambda>_. served_dream ops envs) (sp_daemon parts), vc_body = body, vc_clock = le_clock env,
      vc_preprocessor = (sp_sidecar parts \<noteq> None)\<rparr>"

definition served_daemon_of :: "('g, 'p, 'w) serve_parts \<Rightarrow> served_daemon" where
  "served_daemon_of parts =
     (0, (case sp_daemon parts of Some da \<Rightarrow> da
          | None \<Rightarrow> new_daemon \<lparr>dg_enabled = False, dg_inactivity_hours = 0, dg_min_sessions = 0, dg_prompt = [],
                                dg_topic_dir = []\<rparr>),
      fst (sp_memory parts), snd (sp_memory parts))"

definition launched_server ::
  "('g, 'p, 'w) launch_env \<Rightarrow> ('g, 'p, 'w) serve_parts \<Rightarrow> 'b backend_ops \<Rightarrow> (ctx \<Rightarrow> 'b \<Rightarrow> health_status \<times> 'b)
    \<Rightarrow> (goval \<Rightarrow> string result) \<Rightarrow> body_decoders \<Rightarrow> (nat \<Rightarrow> dream_env) \<Rightarrow> 'b \<Rightarrow> 'g
    \<Rightarrow> ('b, 'g, unit, served_daemon) server_cfg \<times> ('b, 'g, unit, served_daemon) server" where
  "launched_server env parts ops health marshal body envs b net =
     new_server (launched_server_cfg env parts ops health marshal body envs) (Some Metrics.new_registry) b net ()
       (served_daemon_of parts)"

text \<open>
  \<open>runServe\<close>: what the listener does until it returns is the matter of \<open>Server\<close>; here it is the error
  that \<open>ListenAndServe\<close> ends with.
\<close>

definition run_serve :: "('g, 'p, 'w) launch_env \<Rightarrow> string list \<Rightarrow> outcome3 \<times> ('g, 'p, 'w) serve_parts option" where
  "run_serve env args =
     (case parse_serve_config (le_flags env) (le_getenv env) args of
        Inl e \<Rightarrow> ((2, [], ''config error: '' @ err_msg e @ newline), None)
      | Inr vs \<Rightarrow>
        (case serve_parts_of env (vs_launcher vs) of
           Inl e \<Rightarrow> ((2, [], err_msg e @ newline), None)
         | Inr (notice, parts) \<Rightarrow>
           let addr = vs_bind vs @ '':'' @ int_str (vs_port vs);
               out = notice @ ''serving on http://'' @ addr @ newline
           in case le_listen env addr of
                None \<Rightarrow> ((0, out, []), Some parts)
              | Some e \<Rightarrow>
                if errors_is e ErrServerClosed then ((0, out, []), Some parts)
                else ((1, out, ''serve failed: '' @ err_msg e @ newline), Some parts)))"

definition run_harness ::
  "('g, 'p, 'w) launch_env \<Rightarrow> ctx \<Rightarrow> string list \<Rightarrow> 'g \<Rightarrow> outcome3 \<times> 'g" where
  "run_harness env c args net =
     (if should_show_version args then ((0, ''pancakes-harness '' @ releaseVersion @ newline, []), net)
      else if should_show_help args then ((0, if is_serve args then serve_usage else main_usage, []), net)
      else if is_serve args then (fst (run_serve env (tl args)), net)
      else run_one_shot env c args net)"

subsection \<open>What a configuration guarantees\<close>

lemma atoi_range: "atoi s = Some n \<Longrightarrow> - (2 ^ 63) \<le> n \<and> n < 2 ^ 63"
  by (auto simp: atoi_def Let_def split: if_splits)

lemma int_or_default_range:
  "int_or_default raw d = Inr n \<Longrightarrow> - (2 ^ 63) \<le> d \<and> d < 2 ^ 63 \<Longrightarrow> - (2 ^ 63) \<le> n \<and> n < 2 ^ 63"
  by (auto simp: int_or_default_def Let_def dest: atoi_range split: if_splits option.splits)

lemma int_or_zero_typed: "flag_typed KInt (FInt d) \<Longrightarrow> flag_typed KInt (FInt (int_or_zero raw d))"
  unfolding int_or_zero_def by (cases "int_or_default raw d") (auto dest: int_or_default_range)

lemma flag_start_typed:
  assumes "list_all (\<lambda>(name, v). flag_typed (kind_of_value v) v) ds"
  shows "flags_typed (flag_spec ds) (flag_start ds)"
proof -
  have "map_of (flag_spec ds) = map_option kind_of_value \<circ> map_of ds"
    by (simp add: flag_spec_def map_of_map)
  with assms show ?thesis
    by (fastforce simp: flags_typed_def flag_start_def list_all_iff dest: map_of_SomeD)
qed

lemma launcher_flags_typed:
  assumes "- (2 ^ 63) \<le> port \<and> port < 2 ^ 63"
  shows "flags_typed (flag_spec (launcher_flags env getenv timeout port)) (flag_start (launcher_flags env getenv timeout port))"
  by (rule flag_start_typed)
     (use assms in \<open>simp add: launcher_flags_def int_or_zero_typed del: flag_typed.simps(2);
        simp add: int_or_zero_typed [simplified]\<close>)

text \<open>The one place where a configuration comes from.\<close>

lemma parse_launcher_flags_cases:
  assumes "parse_launcher_flags env getenv args = Inr p"
  obtains timeout port vals where
    "flags_typed (flag_spec (launcher_flags env getenv timeout port)) vals" "flag_problem vals = None"
    "p = \<lparr>pf_launcher = launcher_of vals, pf_bind = text_flag vals ''bind'',
          pf_port = the_int (vals ''port''), pf_rest = pf_rest p\<rparr>"
proof -
  from assms obtain timeout port where
    port: "int_or_default (getenv ''HARNESS_SERVE_PORT'') 8080 = Inr port" and
    rest: "parse_flags_from env (launcher_flags env getenv timeout port) args = Inr p"
    unfolding parse_launcher_flags_def by (auto split: sum.splits)
  let ?ds = "launcher_flags env getenv timeout port"
  obtain vals rest where vals: "flag_parse env (flag_spec ?ds) args (flag_start ?ds) = Inr (vals, rest)"
    "flag_problem vals = None"
    "p = \<lparr>pf_launcher = launcher_of vals, pf_bind = text_flag vals ''bind'', pf_port = the_int (vals ''port''), pf_rest = rest\<rparr>"
    using rest by (auto simp: parse_flags_from_def split: sum.splits option.splits)
  have "- (2 ^ 63) \<le> port \<and> port < 2 ^ 63" using int_or_default_range [OF port] by simp
  from flag_parse_typed [OF vals(1) launcher_flags_typed [OF this]] that [OF _ vals(2)] vals(3)
  show ?thesis by simp
qed

lemma flag_problem_None:
  "flag_problem vals = None \<longleftrightarrow>
     lc_model_mode (launcher_of vals) \<in> {''mock'', ''http'', ''ollama''}
     \<and> lc_backend_mode (launcher_of vals) \<in> {''memory'', ''xs''}
     \<and> lc_preprocess_mode (launcher_of vals) \<in> {''off'', ''needle''}
     \<and> (lc_preprocess_mode (launcher_of vals) = ''needle'' \<longrightarrow> lc_needle_bridge (launcher_of vals) \<noteq> [])
     \<and> (lc_model_mode (launcher_of vals) = ''http'' \<longrightarrow> lc_model_endpoint (launcher_of vals) \<noteq> [])
     \<and> (lc_model_mode (launcher_of vals) = ''ollama'' \<longrightarrow> lc_ollama_model (launcher_of vals) \<noteq> [])
     \<and> (text_flag vals ''model-bearer-token'' = [] \<or> text_flag vals ''model-auth-key'' = [])"
  by (simp add: flag_problem_def launcher_of_def Let_def)

lemma needle_daemon: "\<exists>d. new_pp_daemon (needle_preprocess_config nenv) = Inr d
    \<and> pd_cfg d = needle_preprocess_config nenv"
  by (simp add: new_pp_daemon_def needle_preprocess_config_def DefaultNeedleTimeout_def)

lemma build_preprocessor_ok:
  assumes "lc_preprocess_mode cfg \<in> {''off'', ''needle''}"
    and "lc_preprocess_mode cfg = ''needle'' \<longrightarrow> lc_needle_bridge cfg \<noteq> []"
  shows "is_ok (build_preprocessor nenv getenv stat cfg) =
    (lc_preprocess_mode cfg = ''off'' \<or> stat (lc_needle_bridge cfg) = None)"
proof (cases "lc_preprocess_mode cfg = ''off''")
  case False
  with assms have mode: "lc_preprocess_mode cfg = ''needle''" "lc_needle_bridge cfg \<noteq> []" by auto
  obtain d where "new_pp_daemon (needle_preprocess_config nenv) = Inr d" using needle_daemon by blast
  with mode show ?thesis
    by (simp add: build_preprocessor_def new_needle_adapter_def Let_def split: option.split)
qed (simp add: build_preprocessor_def)

lemma build_parts_ok:
  assumes "parse_launcher_flags env getenv args = Inr p"
  shows "is_ok (build_backend (pf_launcher p))" "is_ok (build_adapter net (pf_launcher p))"
    "is_ok (build_preprocessor nenv getenv' stat (pf_launcher p)) =
      (lc_preprocess_mode (pf_launcher p) = ''off'' \<or> stat (lc_needle_bridge (pf_launcher p)) = None)"
proof -
  obtain vals where "flag_problem vals = None" "pf_launcher p = launcher_of vals"
    using parse_launcher_flags_cases [OF assms] by (metis parsed_flags.select_convs(1))
  note valid = this(1) [unfolded flag_problem_None, folded this(2)]
  show "is_ok (build_backend (pf_launcher p))" "is_ok (build_adapter net (pf_launcher p))"
    using valid by (auto simp: build_backend_def build_adapter_def)
  show "is_ok (build_preprocessor nenv getenv' stat (pf_launcher p)) =
      (lc_preprocess_mode (pf_launcher p) = ''off'' \<or> stat (lc_needle_bridge (pf_launcher p)) = None)"
    using valid by (intro build_preprocessor_ok) blast+
qed

lemma is_ok_Inr: "is_ok r \<Longrightarrow> \<exists>x. r = Inr x"
  by (cases r) auto

text \<open>
  C36. Flags and environment that parse are a configuration from which everything can be built: the modes
  are supported, the endpoint of HTTP, the model of Ollama or the bridge of the sidecar is there, backend
  and adapter are made without error, and the sidecar fails only over a bridge script that cannot be
  found. Two values are not checked: the port is any integer of 64 bits, and the endpoint of Ollama may be
  blank, in which case the adapter is made all the same and then fails every request.
\<close>

theorem parsed_flags_can_be_built:
  assumes "parse_launcher_flags env getenv args = Inr p"
  shows "let cfg = pf_launcher p in
    lc_model_mode cfg \<in> {''mock'', ''http'', ''ollama''} \<and> lc_backend_mode cfg \<in> {''memory'', ''xs''}
    \<and> lc_preprocess_mode cfg \<in> {''off'', ''needle''}
    \<and> (lc_model_mode cfg = ''http'' \<longrightarrow> lc_model_endpoint cfg \<noteq> [])
    \<and> (lc_model_mode cfg = ''ollama'' \<longrightarrow> lc_ollama_model cfg \<noteq> [])
    \<and> (lc_preprocess_mode cfg = ''needle'' \<longrightarrow> lc_needle_bridge cfg \<noteq> [])
    \<and> (lc_model_mode cfg = ''ollama'' \<and> lc_ollama_endpoint cfg = [] \<longrightarrow>
         (case build_adapter net cfg of Inl e \<Rightarrow> False
          | Inr (name, call) \<Rightarrow>
              call c req g = (Inl (wrap_err ErrAdapterCallFailed ''ollama endpoint is required''), g)))
    \<and> - (2 ^ 63) \<le> pf_port p \<and> pf_port p < 2 ^ 63
    \<and> is_ok (build_backend cfg) \<and> is_ok (build_adapter net cfg)
    \<and> is_ok (build_preprocessor nenv getenv' stat cfg) =
        (lc_preprocess_mode cfg = ''off'' \<or> stat (lc_needle_bridge cfg) = None)"
proof -
  obtain timeout port vals where
    typed: "flags_typed (flag_spec (launcher_flags env getenv timeout port)) vals" and none: "flag_problem vals = None" and
    p: "p = \<lparr>pf_launcher = launcher_of vals, pf_bind = text_flag vals ''bind'',
          pf_port = the_int (vals ''port''), pf_rest = pf_rest p\<rparr>"
    using parse_launcher_flags_cases [OF assms] .
  have "map_of (flag_spec (launcher_flags env getenv timeout port)) ''port'' = Some KInt"
    by (simp add: flag_spec_def launcher_flags_def)
  with typed have "flag_typed KInt (vals ''port'')" by (auto simp: flags_typed_def)
  then have range: "- (2 ^ 63) \<le> pf_port p" "pf_port p < 2 ^ 63"
    by (subst p, cases "vals ''port''", simp_all)+
  have cfg: "pf_launcher p = launcher_of vals" by (subst p) simp
  note valid = none [unfolded flag_problem_None, folded cfg]
  have blank: "case build_adapter net (pf_launcher p) of Inl e \<Rightarrow> False
      | Inr (name, call) \<Rightarrow> call c req g = (Inl (wrap_err ErrAdapterCallFailed ''ollama endpoint is required''), g)"
    if "lc_model_mode (pf_launcher p) = ''ollama''" "lc_ollama_endpoint (pf_launcher p) = []"
    using that by (simp add: build_adapter_def new_ollama_adapter_def ollama_adapter_def trim_space_Nil)
  show ?thesis
    using valid range blank build_parts_ok(1) [OF assms] build_parts_ok(2) [OF assms, where net = net]
      build_parts_ok(3) [OF assms, where nenv = nenv and getenv' = getenv' and stat = stat]
    unfolding Let_def by simp
qed

text \<open>How a one-shot run ends: with an answer on standard output or an error on standard error.\<close>

definition turn_outcome :: "outcome3 \<Rightarrow> bool" where
  "turn_outcome r \<longleftrightarrow>
     (case r of (code, out, err) \<Rightarrow>
       if err = [] then code = 0 \<and> prefix ''answer: '' out
       else code = 1 \<and> out = [] \<and> (prefix ''start session: '' err \<or> prefix ''turn failed: '' err))"

lemma one_shot_on_outcome: "turn_outcome (fst (one_shot_on env c cfg prompt ad ops b net))"
  by (auto simp: one_shot_on_def turn_outcome_def print_turn_def split: sum.splits prod.splits option.splits)

text \<open>
  C35. The one-shot command exits with 2 exactly when the configuration or the prompt is refused, and then
  nothing has been sent; otherwise there is a prompt without white space around it, and the command
  exits with 0 and prints only the answer, or with 1 and prints only the error of the session. The
  branches for a backend or an adapter that cannot be built are dead.
\<close>

theorem one_shot_outcomes:
  "case parse_config (le_flags env) (le_getenv env) args (le_stdin env) of
     Inl e \<Rightarrow> run_one_shot env c args net = ((2, [], ''config error: '' @ err_msg e @ newline), net)
   | Inr (cfg, prompt) \<Rightarrow>
       prompt \<noteq> [] \<and> trim_space prompt = prompt \<and> turn_outcome (fst (run_one_shot env c args net))"
proof (cases "parse_config (le_flags env) (le_getenv env) args (le_stdin env)")
  case (Inr cp)
  obtain cfg prompt where cp: "cp = (cfg, prompt)" by fastforce
  obtain p where p: "parse_launcher_flags (le_flags env) (le_getenv env) args = Inr p"
    "read_prompt (pf_rest p) (le_stdin env) = Inr prompt" "cfg = pf_launcher p"
    using Inr by (auto simp: cp parse_config_def split: sum.splits)
  have prompt: "prompt \<noteq> []" "trim_space prompt = prompt"
    using p(2) by (auto simp: read_prompt_def Let_def split: if_splits sum.splits)
  obtain lb ad where "build_backend cfg = Inr lb" "build_adapter (le_net env) cfg = Inr ad"
    using is_ok_Inr [OF build_parts_ok(1) [OF p(1)]] is_ok_Inr [OF build_parts_ok(2) [OF p(1)]] p(3) by metis
  with prompt Inr show ?thesis
    by (simp add: cp run_one_shot_def one_shot_on_outcome split: launched_backend.split)
qed (simp add: run_one_shot_def)

lemma build_preprocessor_parts:
  assumes "build_preprocessor nenv getenv stat cfg = Inr sidecar"
    and "lc_preprocess_mode cfg \<in> {''off'', ''needle''}"
    and "lc_preprocess_mode cfg = ''needle'' \<longrightarrow> lc_needle_bridge cfg \<noteq> []"
  shows "case sidecar of
      None \<Rightarrow> lc_preprocess_mode cfg = ''off''
    | Some (d, a) \<Rightarrow> lc_preprocess_mode cfg = ''needle'' \<and> na_bridge a = lc_needle_bridge cfg
        \<and> na_process a = None \<and> pc_max_workers (pd_cfg d) = 1 \<and> queue_cap d = 32"
proof (cases "lc_preprocess_mode cfg = ''off''")
  case False
  with assms have mode: "lc_preprocess_mode cfg = ''needle''" "lc_needle_bridge cfg \<noteq> []" by auto
  obtain d where d: "new_pp_daemon (needle_preprocess_config nenv) = Inr d"
    "pd_cfg d = needle_preprocess_config nenv"
    using needle_daemon by blast
  with mode assms(1) show ?thesis
    by (auto simp: build_preprocessor_def new_needle_adapter_def Let_def queue_cap_def needle_preprocess_config_def
        split: option.splits)
qed (use assms(1) in \<open>simp add: build_preprocessor_def\<close>)

text \<open>
  When the server gets as far as listening, its parts are those of the configuration: a positive port
  and an address, the built-in tools, positive limits where the configuration had none, a dream daemon
  exactly when it is enabled, and a sidecar exactly in mode \<open>needle\<close>, with one worker, a queue of 32 and
  the script that was named. The exit code tells whether the listener ended well.
\<close>

theorem serve_parts_follow_config:
  assumes "run_serve env args = (out, Some parts)"
    and "parse_serve_config (le_flags env) (le_getenv env) args = Inr vs"
  shows "let cfg = vs_launcher vs in
    vs_bind vs \<noteq> [] \<and> 0 < vs_port vs
    \<and> map fst (sp_tools parts) = [''grep'', ''glob'', ''read'', ''write'']
    \<and> 0 < mg_max_entries (mm_cfg (fst (sp_memory parts))) \<and> 0 < ac_max_tokens (sp_audit parts)
    \<and> (case sp_daemon parts of
         None \<Rightarrow> \<not> lc_dream_enabled cfg
       | Some da \<Rightarrow> lc_dream_enabled cfg \<and> 0 < dg_inactivity_hours (da_cfg da) \<and> 0 < dg_min_sessions (da_cfg da))
    \<and> (case sp_sidecar parts of
         None \<Rightarrow> lc_preprocess_mode cfg = ''off''
       | Some (d, a) \<Rightarrow> lc_preprocess_mode cfg = ''needle'' \<and> na_bridge a = lc_needle_bridge cfg
           \<and> na_process a = None \<and> pc_max_workers (pd_cfg d) = 1 \<and> queue_cap d = 32)
    \<and> fst out = (case le_listen env (vs_bind vs @ '':'' @ int_str (vs_port vs)) of
                    None \<Rightarrow> 0 | Some e \<Rightarrow> if errors_is e ErrServerClosed then 0 else 1)"
proof -
  obtain p where p: "parse_launcher_flags (le_flags env) (le_getenv env) args = Inr p" "vs_launcher vs = pf_launcher p"
    and net: "vs_bind vs \<noteq> []" "0 < vs_port vs"
    using assms(2) by (auto simp: parse_serve_config_def split: sum.splits if_splits)
  obtain vals where "flag_problem vals = None" "pf_launcher p = launcher_of vals"
    using parse_launcher_flags_cases [OF p(1)] by (metis parsed_flags.select_convs(1))
  then have valid: "lc_preprocess_mode (vs_launcher vs) \<in> {''off'', ''needle''}"
    "lc_preprocess_mode (vs_launcher vs) = ''needle'' \<longrightarrow> lc_needle_bridge (vs_launcher vs) \<noteq> []"
    by (auto simp: p(2) flag_problem_None)
  obtain notice where parts: "serve_parts_of env (vs_launcher vs) = Inr (notice, parts)"
    using assms by (auto simp: run_serve_def Let_def split: sum.splits option.splits if_splits)
  from assms this have exit: "fst out = (case le_listen env (vs_bind vs @ '':'' @ int_str (vs_port vs)) of
      None \<Rightarrow> 0 | Some e \<Rightarrow> if errors_is e ErrServerClosed then 0 else 1)"
    by (auto simp: run_serve_def Let_def split: option.splits if_splits)
  obtain sidecar where side: "build_preprocessor (le_needle env) (le_getenv env) (le_stat env) (vs_launcher vs) = Inr sidecar"
    "sp_sidecar parts = sidecar" "sp_memory parts = build_memory_manager (le_memory env) (vs_launcher vs) (le_disk env)"
    "sp_daemon parts = build_dream_daemon (vs_launcher vs)" "sp_audit parts = build_audit_config (vs_launcher vs)"
    "sp_tools parts = register_builtin_tools Tooling.new_registry"
    using parts by (auto simp: serve_parts_of_def split: sum.splits)
  have "map fst (register_builtin_tools Tooling.new_registry :: 'c tool_registry) = [''grep'', ''glob'', ''read'', ''write'']"
    by code_simp
  moreover have "case sidecar of
         None \<Rightarrow> lc_preprocess_mode (vs_launcher vs) = ''off''
       | Some (d, a) \<Rightarrow> lc_preprocess_mode (vs_launcher vs) = ''needle'' \<and> na_bridge a = lc_needle_bridge (vs_launcher vs)
           \<and> na_process a = None \<and> pc_max_workers (pd_cfg d) = 1 \<and> queue_cap d = 32"
    using build_preprocessor_parts [OF side(1) valid] .
  ultimately show ?thesis
    using net exit unfolding side Let_def
    by (auto simp: build_memory_manager_def new_manager_def build_audit_config_def build_dream_daemon_def
        new_daemon_def Let_def split: prod.splits)
qed

subsection \<open>Instances\<close>

definition sample_flag_env :: flag_env where
  "sample_flag_env = \<lparr>fe_float = (\<lambda>s. Inl ErrSyntax), fe_duration = (\<lambda>s. Inr (5 * 10 ^ 9))\<rparr>"

definition sample_launch :: "string \<Rightarrow> (unit, nat, nat) launch_env" where
  "sample_launch stdin = \<lparr>le_flags = sample_flag_env, le_getenv = (\<lambda>_. []), le_stdin = Inr stdin,
     le_net = \<lparr>an_new_request = (\<lambda>_. None), an_do = (\<lambda>c t call net. (Inl (Adhoc ''refused''), net)),
       an_visit = (\<lambda>m. m), an_content = (\<lambda>_. None), an_valid = (\<lambda>_. False)\<rparr>,
     le_decoders = echo_decoders, le_encode = (\<lambda>_. Inr ''{}''),
     le_tool_decoders = \<lparr>td_top = (\<lambda>_. Inl (Adhoc ''EOF'')), td_bool = (\<lambda>_. None), td_string = (\<lambda>_. None),
       td_object = (\<lambda>_. None), td_artifacts = (\<lambda>_. None), td_error = (\<lambda>_. None)\<rparr>,
     le_tool_encode = (\<lambda>_. Inr ''{}''),
     le_proc = (\<lambda>spec t input. \<lparr>pc_stdout = [], pc_stderr = [], pc_error = None, pc_deadline = False\<rparr>),
     le_clock = int, le_memory = de_memory sample_dream_env, le_disk = \<lparr>dk_files = [], dk_faults = []\<rparr>,
     le_needle = sample_bridge, le_stat = (\<lambda>_. None), le_listen = (\<lambda>_. Some ErrServerClosed)\<rparr>"



lemma launch_trims:
  "trim_space '' http://m '' = ''http://m''" "trim_space ''HTTP'' = ''HTTP''" "trim_space ''memory'' = ''memory''"
  "trim_space ''mock'' = ''mock''" "trim_space ''off'' = ''off''" "trim_space ''needle'' = ''needle''"
  "trim_space ''127.0.0.1'' = ''127.0.0.1''" "trim_space [] = []"
  "to_lower ''HTTP'' = ''http''" "to_lower ''memory'' = ''memory''" "to_lower ''mock'' = ''mock''"
  "to_lower ''off'' = ''off''" "to_lower ''needle'' = ''needle''" "to_lower [] = []"
  by code_simp+

lemmas sample_flag_simps = flag_spec_def flag_start_def launcher_flags_def flag_head_of_def split_flag_def assign_flag_def
  set_value_def parse_int0_def parse_uint0_def base_prefix_def text_flag_def
  preprocess_mode_of_def string_or_default_def

lemma sample_start:
  "parse_launcher_flags sample_flag_env (\<lambda>_. []) args =
     parse_flags_from sample_flag_env (launcher_flags sample_flag_env (\<lambda>_. []) (10 * 10 ^ 9) 8080) args"
  by (simp add: parse_launcher_flags_def duration_or_default_def int_or_default_def launch_trims)

lemma sample_http:
  "case parse_launcher_flags sample_flag_env (\<lambda>_. [])
       [''-model-mode'', ''HTTP'', ''--model-endpoint= http://m '', ''-port'', ''0x10'', ''hi''] of
     Inl e \<Rightarrow> False
   | Inr p \<Rightarrow> pf_port p = 16 \<and> pf_rest p = [''hi''] \<and> lc_model_mode (pf_launcher p) = ''http''"
proof -
  let ?ds = "launcher_flags sample_flag_env (\<lambda>_. []) (10 * 10 ^ 9) 8080"
  let ?vals = "(flag_start ?ds)(''model-mode'' := FStr ''HTTP'', ''model-endpoint'' := FStr '' http://m '', ''port'' := FInt 16)"
  have "flag_parse sample_flag_env (flag_spec ?ds)
      [''-model-mode'', ''HTTP'', ''--model-endpoint= http://m '', ''-port'', ''0x10'', ''hi''] (flag_start ?ds)
      = Inr (?vals, [''hi''])"
    by (simp add: flag_spec_def launcher_flags_def flag_head_of_def split_flag_def assign_flag_def set_value_def
        parse_int0_def parse_uint0_def base_prefix_def lower_char_def digit_value_def Let_def)
  moreover have "flag_problem ?vals = None"
    by (simp add: flag_problem_def sample_flag_simps launch_trims Let_def del: to_lower.simps)
  moreover have "lc_model_mode (launcher_of ?vals) = ''http''"
    by (simp add: launcher_of_def text_flag_def launch_trims del: to_lower.simps)
  ultimately show ?thesis by (simp add: sample_start parse_flags_from_def)
qed

lemma sample_needle:
  "case parse_serve_config sample_flag_env (\<lambda>_. []) [''-preprocess=needle'', ''-needle-bridge'', ''b.py'', ''-memory-index-size=0''] of
     Inl e \<Rightarrow> False
   | Inr vs \<Rightarrow> lc_preprocess_mode (vs_launcher vs) = ''needle'' \<and> lc_needle_bridge (vs_launcher vs) = ''b.py''"
proof -
  let ?ds = "launcher_flags sample_flag_env (\<lambda>_. []) (10 * 10 ^ 9) 8080"
  let ?vals = "(flag_start ?ds)(''preprocess'' := FStr ''needle'', ''needle-bridge'' := FStr ''b.py'', ''memory-index-size'' := FInt 0)"
  have "flag_parse sample_flag_env (flag_spec ?ds)
      [''-preprocess=needle'', ''-needle-bridge'', ''b.py'', ''-memory-index-size=0''] (flag_start ?ds) = Inr (?vals, [])"
    by (simp add: flag_spec_def launcher_flags_def flag_head_of_def split_flag_def assign_flag_def set_value_def
        parse_int0_def parse_uint0_def base_prefix_def lower_char_def digit_value_def Let_def)
  moreover have "flag_problem ?vals = None" "text_flag ?vals ''bind'' = ''127.0.0.1''" "the_int (?vals ''port'') = 8080"
    by (simp_all add: flag_problem_def sample_flag_simps launch_trims Let_def del: to_lower.simps)
  moreover have "lc_preprocess_mode (launcher_of ?vals) = ''needle''" "lc_needle_bridge (launcher_of ?vals) = ''b.py''"
    by (simp_all add: launcher_of_def preprocess_mode_of_def text_flag_def launch_trims del: to_lower.simps)
  ultimately show ?thesis by (simp add: parse_serve_config_def sample_start parse_flags_from_def launch_trims)
qed
theorem parsed_flags_can_be_built_witness:
  "case parse_launcher_flags sample_flag_env (\<lambda>_. [])
       [''-model-mode'', ''HTTP'', ''--model-endpoint= http://m '', ''-port'', ''0x10'', ''hi''] of
     Inl e \<Rightarrow> False
   | Inr p \<Rightarrow> pf_port p = 16 \<and> pf_rest p = [''hi''] \<and> lc_model_mode (pf_launcher p) = ''http''
       \<and> is_ok (build_backend (pf_launcher p))
       \<and> is_ok (build_adapter (le_net (sample_launch [])) (pf_launcher p))"
proof -
  let ?r = "parse_launcher_flags sample_flag_env (\<lambda>_. [])
       [''-model-mode'', ''HTTP'', ''--model-endpoint= http://m '', ''-port'', ''0x10'', ''hi'']"
  obtain p where p: "?r = Inr p" "pf_port p = 16 \<and> pf_rest p = [''hi''] \<and> lc_model_mode (pf_launcher p) = ''http''"
    using sample_http by (cases ?r) auto
  show ?thesis
    using parsed_flags_can_be_built [OF p(1), where net = "le_net (sample_launch [])"
        and nenv = sample_bridge and getenv' = "\<lambda>_. []" and stat = "\<lambda>_. None"] p(2)
    unfolding p(1) by (simp add: Let_def)
qed

theorem serve_parts_follow_config_witness:
  "case run_serve (sample_launch []) [''-preprocess=needle'', ''-needle-bridge'', ''b.py'', ''-memory-index-size=0''] of
     (out, None) \<Rightarrow> False
   | (out, Some parts) \<Rightarrow> fst out = 0 \<and> 0 < mg_max_entries (mm_cfg (fst (sp_memory parts)))
       \<and> (case sp_sidecar parts of None \<Rightarrow> False | Some (d, a) \<Rightarrow> na_bridge a = ''b.py'' \<and> queue_cap d = 32)"
proof -
  let ?env = "sample_launch []" and ?args = "[''-preprocess=needle'', ''-needle-bridge'', ''b.py'', ''-memory-index-size=0'']"
  have env: "le_flags ?env = sample_flag_env" "le_getenv ?env = (\<lambda>_. [])" "le_stat ?env = (\<lambda>_. None)"
    "le_listen ?env = (\<lambda>_. Some ErrServerClosed)"
    by (simp_all add: sample_launch_def)
  obtain vs where vs: "parse_serve_config (le_flags ?env) (le_getenv ?env) ?args = Inr vs"
    "lc_preprocess_mode (vs_launcher vs) = ''needle''" "lc_needle_bridge (vs_launcher vs) = ''b.py''"
    using sample_needle unfolding env by (cases "parse_serve_config sample_flag_env (\<lambda>_. []) ?args") auto
  obtain p where p: "parse_launcher_flags (le_flags ?env) (le_getenv ?env) ?args = Inr p" "vs_launcher vs = pf_launcher p"
    using vs(1) by (auto simp: parse_serve_config_def split: sum.splits if_splits)
  obtain b ad sc where "build_backend (vs_launcher vs) = Inr b"
    "build_adapter (le_net ?env) (vs_launcher vs) = Inr ad"
    "build_preprocessor (le_needle ?env) (le_getenv ?env) (le_stat ?env) (vs_launcher vs) = Inr sc"
    using is_ok_Inr [OF build_parts_ok(1) [OF p(1)]] is_ok_Inr [OF build_parts_ok(2) [OF p(1)]]
      is_ok_Inr [OF build_parts_ok(3) [OF p(1), THEN iffD2]] env(3) p(2) by metis
  then obtain out parts where run: "run_serve ?env ?args = (out, Some parts)"
    using vs(1) env by (auto simp: run_serve_def serve_parts_of_def Let_def)
  from serve_parts_follow_config [OF run vs(1)] vs show ?thesis
    unfolding run by (auto simp: Let_def env split: option.splits)
qed

end
