(* ===== verification/BackendChoice.thy ===== *)
theory BackendChoice
  imports Launcher
begin

text \<open>
  The backend is a choice of the command line (\<open>--backend-mode\<close>), and the code above it sees only the
  interface \<open>Backend\<close>. This theory proves that the choice is not visible: two backends that a relation
  \<open>R\<close> keeps alike under the four operations the session uses (locale \<open>backend_pair\<close>) give every function of
  the session, and every handler of the server, the same results and leave states that are alike. Each
  function is related to itself at the two types by a transfer rule, proved from those of the functions
  it calls. A relation \<open>D\<close> does the same for the state of the server's dream daemon (\<open>served_pair\<close>). The
  interpretation on the two adapters of the repository is at the end, with what a user of the one-shot
  command and a client of the server can tell; a second one, of a backend with itself and of daemons
  that have seen no activity, shows that no run of a server makes its daemon due.
\<close>

subsection \<open>Related operations, configurations and states\<close>

text \<open>The configurations and states agree but for the backend; the two health checks may answer differently.\<close>

definition rel_ops :: "('a \<Rightarrow> 'b \<Rightarrow> bool) \<Rightarrow> 'a backend_ops \<Rightarrow> 'b backend_ops \<Rightarrow> bool" where
  "rel_ops R ops ops' \<longleftrightarrow>
     rel_fun (=) (rel_fun (=) (rel_fun R (rel_prod (=) R))) (bk_append ops) (bk_append ops')
     \<and> rel_fun (=) (rel_fun (=) (rel_fun (=) (rel_fun R (rel_prod (=) R)))) (bk_append_blob ops) (bk_append_blob ops')
     \<and> rel_fun (=) (rel_fun (=) (rel_fun R (=))) (bk_list ops) (bk_list ops')
     \<and> rel_fun (=) (rel_fun (=) (rel_fun (=) (rel_fun R (=)))) (bk_list_branch ops) (bk_list_branch ops')"

definition rel_cfg :: "('a \<Rightarrow> 'b \<Rightarrow> bool) \<Rightarrow> ('a, 'm, 't) sess_cfg \<Rightarrow> ('b, 'm, 't) sess_cfg \<Rightarrow> bool" where
  "rel_cfg R x y \<longleftrightarrow> rel_ops R (sc_ops x) (sc_ops y) \<and> sc_id x = sc_id y \<and> sc_branch x = sc_branch y
     \<and> sc_decoders x = sc_decoders y \<and> sc_adapter x = sc_adapter y \<and> sc_call x = sc_call y
     \<and> sc_runner x = sc_runner y \<and> sc_encode x = sc_encode y \<and> sc_headers x = sc_headers y
     \<and> sc_max_turns x = sc_max_turns y \<and> sc_search x = sc_search y \<and> sc_preprocessor x = sc_preprocessor y
     \<and> sc_metrics x = sc_metrics y \<and> sc_audit x = sc_audit y \<and> sc_compactor x = sc_compactor y
     \<and> sc_schedule x = sc_schedule y \<and> sc_clock x = sc_clock y \<and> sc_fmt1 x = sc_fmt1 y"

definition rel_sess :: "('a \<Rightarrow> 'b \<Rightarrow> bool) \<Rightarrow> ('a, 'm, 't) sess \<Rightarrow> ('b, 'm, 't) sess \<Rightarrow> bool" where
  "rel_sess R s s' \<longleftrightarrow> R (sn_backend s) (sn_backend s') \<and> sn_counter s = sn_counter s' \<and> sn_ticks s = sn_ticks s'
     \<and> sn_model s = sn_model s' \<and> sn_tools s = sn_tools s' \<and> sn_sched s = sn_sched s' \<and> sn_handed s = sn_handed s'"

definition rel_dream ::
  "('a \<Rightarrow> 'b \<Rightarrow> bool) \<Rightarrow> ('d \<Rightarrow> 'e \<Rightarrow> bool) \<Rightarrow> ('a, 'd) dream_ops \<Rightarrow> ('b, 'e) dream_ops \<Rightarrow> bool" where
  "rel_dream R D x y \<longleftrightarrow>
     rel_fun (=) (rel_fun (=) (rel_fun R (rel_fun D (rel_prod (=) (rel_prod R D))))) (do_execute x) (do_execute y)
     \<and> rel_fun D (rel_prod (=) D) (do_should x) (do_should y) \<and> rel_fun D (=) (do_count x) (do_count y)"

definition rel_vcfg ::
  "('a \<Rightarrow> 'b \<Rightarrow> bool) \<Rightarrow> ('d \<Rightarrow> 'e \<Rightarrow> bool) \<Rightarrow> ('a, 'm, 't, 'd) server_cfg \<Rightarrow> ('b, 'm, 't, 'e) server_cfg \<Rightarrow> bool" where
  "rel_vcfg R D x y \<longleftrightarrow> rel_ops R (vc_ops x) (vc_ops y)
     \<and> rel_fun (=) (rel_fun R (rel_prod (\<lambda>_ _. True) R)) (vc_health x) (vc_health y)
     \<and> vc_decoders x = vc_decoders y \<and> vc_adapter x = vc_adapter y \<and> vc_call x = vc_call y
     \<and> vc_runner x = vc_runner y \<and> vc_run_tool x = vc_run_tool y \<and> vc_encode x = vc_encode y
     \<and> vc_marshal x = vc_marshal y \<and> vc_headers x = vc_headers y
     \<and> vc_model_mode x = vc_model_mode y \<and> rel_option (rel_dream R D) (vc_dream x) (vc_dream y) \<and> vc_body x = vc_body y
     \<and> vc_clock x = vc_clock y \<and> vc_preprocessor x = vc_preprocessor y"

text \<open>The registries agree but for the name of the backend.\<close>

definition no_mode :: "registry \<Rightarrow> registry" where
  "no_mode r = r\<lparr>mr_backend_mode := []\<rparr>"

definition rel_reg :: "registry option \<Rightarrow> registry option \<Rightarrow> bool" where
  "rel_reg r r' \<longleftrightarrow> map_option no_mode r = map_option no_mode r'"

lemma rel_reg_map:
  assumes "\<And>a. no_mode (f a) = no_mode (f (no_mode a))" and "rel_reg r r'"
  shows "rel_reg (map_option f r) (map_option f r')"
proof -
  have "map_option no_mode (map_option f r) = map_option (no_mode \<circ> f) (map_option no_mode r)" for r
    using assms(1) by (cases r) simp_all
  with assms(2) show ?thesis by (simp add: rel_reg_def)
qed

lemma rel_reg_ops:
  assumes "rel_reg r r'"
  shows "rel_reg (inc_request k r) (inc_request k r')" "rel_reg (inc_error k r) (inc_error k r')"
    "rel_reg (inc_dream_execution r) (inc_dream_execution r')"
    "rel_reg (observe_latency k d r) (observe_latency k d r')" "r = None \<longleftrightarrow> r' = None"
  using assms
  by (auto simp: inc_request_def inc_error_def inc_dream_execution_def observe_latency_def no_mode_def
      intro!: rel_reg_map) (auto simp: rel_reg_def)

lemma set_modes_rel: "rel_reg (set_modes b m r) (set_modes b' m r)"
  by (cases r) (simp_all add: rel_reg_def set_modes_def no_mode_def)

lemma take_snapshot_rel:
  assumes "rel_reg r r'"
  shows "(take_snapshot r)\<lparr>ms_backend_mode := []\<rparr> = (take_snapshot r')\<lparr>ms_backend_mode := []\<rparr>"
proof -
  have "(take_snapshot r)\<lparr>ms_backend_mode := []\<rparr> = take_snapshot (map_option no_mode r)" for r
    by (cases r) (simp_all add: take_snapshot_def empty_snapshot_def no_mode_def recovery_rate_def
        dream_frequency_def compaction_ratio_def Metrics.cache_hit_rate_def)
  with assms show ?thesis by (simp add: rel_reg_def)
qed

definition rel_server ::
  "('a \<Rightarrow> 'b \<Rightarrow> bool) \<Rightarrow> ('d \<Rightarrow> 'e \<Rightarrow> bool) \<Rightarrow> ('a, 'm, 't, 'd) server \<Rightarrow> ('b, 'm, 't, 'e) server \<Rightarrow> bool" where
  "rel_server R D s s' \<longleftrightarrow> R (sv_backend s) (sv_backend s') \<and> sv_model s = sv_model s' \<and> sv_tools s = sv_tools s'
     \<and> D (sv_dream s) (sv_dream s') \<and> rel_reg (sv_metrics s) (sv_metrics s') \<and> sv_inflight s = sv_inflight s'
     \<and> sv_consults s = sv_consults s' \<and> sv_ticks s = sv_ticks s' \<and> sv_jobs s = sv_jobs s'"

subsection \<open>The session on two backends that are alike\<close>

locale backend_pair =
  fixes ops1 :: "'a backend_ops" and ops2 :: "'b backend_ops" and R :: "'a \<Rightarrow> 'b \<Rightarrow> bool"
  assumes append_alike: "R a b \<Longrightarrow> rel_prod (=) R (bk_append ops1 c e a) (bk_append ops2 c e b)"
    and blob_alike: "R a b \<Longrightarrow> rel_prod (=) R (bk_append_blob ops1 c r p a) (bk_append_blob ops2 c r p b)"
    and list_alike: "R a b \<Longrightarrow> bk_list ops1 c sid a = bk_list ops2 c sid b"
    and branch_alike: "R a b \<Longrightarrow> bk_list_branch ops1 c sid bid a = bk_list_branch ops2 c sid bid b"
begin

lemma ops_alike: "rel_ops R ops1 ops2"
  by (auto simp: rel_ops_def rel_fun_def append_alike blob_alike list_alike branch_alike)

lemma ops_rules [transfer_rule]:
  "rel_fun (rel_ops R) (rel_fun (=) (rel_fun (=) (rel_fun R (rel_prod (=) R)))) bk_append bk_append"
  "rel_fun (rel_ops R) (rel_fun (=) (rel_fun (=) (rel_fun (=) (rel_fun R (rel_prod (=) R))))) bk_append_blob bk_append_blob"
  "rel_fun (rel_ops R) (rel_fun (=) (rel_fun (=) (rel_fun R (=)))) bk_list bk_list"
  "rel_fun (rel_ops R) (rel_fun (=) (rel_fun (=) (rel_fun (=) (rel_fun R (=))))) bk_list_branch bk_list_branch"
  by (simp_all add: rel_ops_def rel_fun_def)

lemma cfg_rules [transfer_rule]:
  "rel_fun (rel_cfg R) (rel_ops R) sc_ops sc_ops"
  "rel_fun (rel_cfg R) (=) sc_id sc_id"
  "rel_fun (rel_cfg R) (=) sc_branch sc_branch"
  "rel_fun (rel_cfg R) (=) sc_decoders sc_decoders"
  "rel_fun (rel_cfg R) (=) sc_adapter sc_adapter"
  "rel_fun (rel_cfg R) (=) sc_call sc_call"
  "rel_fun (rel_cfg R) (=) sc_runner sc_runner"
  "rel_fun (rel_cfg R) (=) sc_encode sc_encode"
  "rel_fun (rel_cfg R) (=) sc_headers sc_headers"
  "rel_fun (rel_cfg R) (=) sc_max_turns sc_max_turns"
  "rel_fun (rel_cfg R) (=) sc_search sc_search"
  "rel_fun (rel_cfg R) (=) sc_preprocessor sc_preprocessor"
  "rel_fun (rel_cfg R) (=) sc_metrics sc_metrics"
  "rel_fun (rel_cfg R) (=) sc_audit sc_audit"
  "rel_fun (rel_cfg R) (=) sc_compactor sc_compactor"
  "rel_fun (rel_cfg R) (=) sc_schedule sc_schedule"
  "rel_fun (rel_cfg R) (=) sc_clock sc_clock"
  "rel_fun (rel_cfg R) (=) sc_fmt1 sc_fmt1"
  by (auto simp: rel_cfg_def intro!: rel_funI)

lemma sess_rules [transfer_rule]:
  "rel_fun (rel_sess R) R sn_backend sn_backend"
  "rel_fun (rel_sess R) (=) sn_counter sn_counter"
  "rel_fun (rel_sess R) (=) sn_ticks sn_ticks"
  "rel_fun (rel_sess R) (=) sn_model sn_model"
  "rel_fun (rel_sess R) (=) sn_tools sn_tools"
  "rel_fun (rel_sess R) (=) sn_sched sn_sched"
  "rel_fun (rel_sess R) (=) sn_handed sn_handed"
  "rel_fun (rel_fun R R) (rel_fun (rel_sess R) (rel_sess R)) sn_backend_update sn_backend_update"
  "rel_fun (=) (rel_fun (rel_sess R) (rel_sess R)) sn_counter_update sn_counter_update"
  "rel_fun (=) (rel_fun (rel_sess R) (rel_sess R)) sn_ticks_update sn_ticks_update"
  "rel_fun (=) (rel_fun (rel_sess R) (rel_sess R)) sn_model_update sn_model_update"
  "rel_fun (=) (rel_fun (rel_sess R) (rel_sess R)) sn_tools_update sn_tools_update"
  "rel_fun (=) (rel_fun (rel_sess R) (rel_sess R)) sn_sched_update sn_sched_update"
  "rel_fun (=) (rel_fun (rel_sess R) (rel_sess R)) sn_handed_update sn_handed_update"
  by (auto simp: rel_sess_def intro!: rel_funI dest: rel_funD)

lemma next_event_id_alike [transfer_rule]:
  "rel_fun (rel_cfg R) (rel_fun (=) (rel_fun (rel_sess R) (rel_prod (=) (rel_sess R)))) next_event_id next_event_id"
  unfolding next_event_id_def by transfer_prover

lemma read_clock_alike [transfer_rule]:
  "rel_fun (rel_cfg R) (rel_fun (rel_sess R) (rel_prod (=) (rel_sess R))) read_clock read_clock"
  unfolding read_clock_def by transfer_prover

lemma append_to_spine_alike [transfer_rule]:
  "rel_fun (rel_cfg R) (rel_fun (=) (rel_fun (=) (rel_fun (rel_sess R) (rel_prod (=) (rel_sess R))))) append_to_spine append_to_spine"
  unfolding append_to_spine_def by transfer_prover

lemma append_blob_alike [transfer_rule]:
  "rel_fun (rel_cfg R) (rel_fun (=) (rel_fun (=) (rel_fun (=) (rel_fun (rel_sess R) (rel_prod (=) (rel_sess R)))))) append_blob_to append_blob_to"
  unfolding append_blob_to_def by transfer_prover

lemma emit_alike [transfer_rule]:
  "rel_fun (rel_cfg R) (rel_fun (=) (rel_fun (=) (rel_fun (=) (rel_fun (=) (rel_fun (=) (rel_fun (=) (rel_fun (rel_sess R) (rel_prod (=) (rel_sess R))))))))) emit emit"
  unfolding emit_def by transfer_prover


lemma emitted_alike [transfer_rule]:
  "rel_fun (rel_cfg R) (rel_fun (=) (rel_fun (=) (rel_fun (=) (rel_fun (=) (rel_fun (=) (rel_fun (rel_sess R) (=))))))) emitted emitted"
  unfolding emitted_def by transfer_prover

lemma hand_event_alike [transfer_rule]:
  "rel_fun (rel_cfg R) (rel_fun (=) (rel_fun (rel_sess R) (rel_sess R))) hand_event hand_event"
  unfolding hand_event_def by transfer_prover

lemma hand_job_alike [transfer_rule]:
  "rel_fun (rel_cfg R) (rel_fun (=) (rel_fun (=) (rel_fun (rel_sess R) (rel_sess R)))) hand_job hand_job"
  unfolding hand_job_def by transfer_prover

lemma enrich_alike [transfer_rule]:
  "rel_fun (rel_cfg R) (=) enrich_candidates enrich_candidates"
  by (auto simp: rel_fun_def rel_cfg_def enrich_candidates_def fun_eq_iff)

lemma packet_request_alike [transfer_rule]:
  "rel_fun (rel_cfg R) (=) packet_request_of packet_request_of"
  by (auto simp: rel_fun_def rel_cfg_def packet_request_of_def fun_eq_iff)

lemma assemble_alike [transfer_rule]:
  "rel_fun (rel_cfg R) (rel_fun (=) (rel_fun (=) (rel_fun (=) (rel_fun (rel_sess R) (rel_prod (=) (rel_sess R))))))
     assemble_for_branch assemble_for_branch"
  unfolding assemble_for_branch_def by transfer_prover

lemma tool_call_id_alike [transfer_rule]:
  "rel_fun (rel_cfg R) (rel_fun (=) (rel_fun (rel_sess R) (rel_prod (=) (rel_sess R)))) tool_call_id tool_call_id"
  unfolding tool_call_id_def by transfer_prover

lemma finish_tool_call_alike [transfer_rule]:
  "rel_fun (rel_cfg R) (rel_fun (=) (rel_fun (=) (rel_fun (=) (rel_fun (=) (rel_fun (rel_sess R) (rel_prod (=) (rel_sess R)))))))
     finish_tool_call finish_tool_call"
  unfolding finish_tool_call_def by transfer_prover

lemma set_sched_alike [transfer_rule]:
  "rel_fun (=) (rel_fun (rel_sess R) (rel_sess R)) set_sched set_sched"
  unfolding set_sched_def by transfer_prover

lemma complete_meta_alike [transfer_rule]:
  "rel_fun (rel_cfg R) (=) compaction_complete_meta compaction_complete_meta"
  "rel_fun (rel_cfg R) (=) ast_persisted_meta ast_persisted_meta"
  by (auto simp: rel_fun_def rel_cfg_def compaction_complete_meta_def ast_persisted_meta_def fun_eq_iff)

lemma run_compaction_alike [transfer_rule]:
  "rel_fun (rel_cfg R) (rel_fun (=) (rel_fun (=) (rel_fun (=) (rel_fun (=) (rel_fun (=) (rel_fun (rel_sess R) (rel_sess R)))))))
     run_compaction run_compaction"
  unfolding run_compaction_def by transfer_prover

lemma record_turn_alike [transfer_rule]:
  "rel_fun (rel_cfg R) (rel_fun (=) (rel_fun (=) (rel_fun (rel_sess R) (rel_sess R))))
     record_turn_and_maybe_compact record_turn_and_maybe_compact"
  unfolding record_turn_and_maybe_compact_def by transfer_prover

lemma audit_record_turn_alike [transfer_rule]:
  "rel_fun (=) (rel_fun (=) (rel_fun (=) (rel_fun (rel_option (rel_fun (=) (rel_fun (rel_sess R) (rel_prod (=) (rel_sess R)))))
     (rel_fun (=) (rel_fun (rel_sess R) (rel_prod (=) (rel_prod (=) (rel_sess R)))))))) audit_record_turn audit_record_turn"
  unfolding audit_record_turn_def by transfer_prover

lemma audit_turn_alike [transfer_rule]:
  "rel_fun (rel_cfg R) (rel_fun (=) (rel_fun (=) (rel_fun (rel_sess R) (rel_prod (=) (rel_prod (=) (rel_sess R))))))
     audit_turn audit_turn"
  unfolding audit_turn_def by transfer_prover

lemma agent_answer_alike [transfer_rule]:
  "rel_fun (rel_cfg R) (rel_fun (=) (rel_fun (=) (rel_fun (=) (rel_fun (=) (rel_fun (=) (rel_fun (=) (rel_fun (=)
     (rel_fun (rel_sess R) (rel_prod (=) (rel_sess R)))))))))) agent_answer agent_answer"
  unfolding agent_answer_def by transfer_prover

lemma execute_and_persist_alike [transfer_rule]:
  "rel_fun (rel_ops R) (rel_fun (=) (rel_fun (=) (rel_fun (=) (rel_fun (=) (rel_fun (=) (rel_fun (=) (rel_fun (=) (rel_fun (=)
     (rel_fun R (rel_prod (=) (rel_prod (=) R)))))))))) ) execute_and_persist execute_and_persist"
  unfolding execute_and_persist_def by transfer_prover

lemma fork_alike [transfer_rule]:
  "rel_fun (rel_cfg R) (rel_fun (=) (rel_fun (=) (rel_fun (=) (rel_fun (rel_sess R) (rel_prod (=) (rel_sess R))))))
     session_fork_branch session_fork_branch"
  unfolding session_fork_branch_def by transfer_prover

lemma replay_alike [transfer_rule]:
  "rel_fun (rel_cfg R) (rel_fun (=) (rel_fun (rel_sess R) (=))) replay_session replay_session"
  unfolding replay_session_def by transfer_prover


lemma execute_tool_calls_alike [transfer_rule]:
  "rel_fun (rel_cfg R) (rel_fun (=) (rel_fun (=) (rel_fun (=) (rel_fun (rel_sess R) (rel_prod (=) (rel_sess R))))))
     execute_tool_calls execute_tool_calls"
proof -
  have "rel_fun (rel_sess R) (rel_prod (=) (rel_sess R)) (execute_tool_calls x c bid tcs) (execute_tool_calls y c bid tcs)"
    if [transfer_rule]: "rel_cfg R x y" for x y c bid tcs
  proof (induction tcs)
    case Nil
    have "rel_prod (=) (rel_sess R) (execute_tool_calls x c bid [] s) (execute_tool_calls y c bid [] s')"
      if [transfer_rule]: "rel_sess R s s'" for s s'
      unfolding execute_tool_calls.simps by transfer_prover
    then show ?case by (simp add: rel_fun_def)
  next
    case (Cons tc tcs)
    define f g where "f = execute_tool_calls x c bid tcs" and "g = execute_tool_calls y c bid tcs"
    have [transfer_rule]: "rel_fun (rel_sess R) (rel_prod (=) (rel_sess R)) f g"
      using Cons.IH by (simp add: f_def g_def)
    have "rel_prod (=) (rel_sess R) (execute_tool_calls x c bid (tc # tcs) s) (execute_tool_calls y c bid (tc # tcs) s')"
      if [transfer_rule]: "rel_sess R s s'" for s s'
      unfolding execute_tool_calls.simps f_def [symmetric] g_def [symmetric] by transfer_prover
    then show ?case by (simp add: rel_fun_def)
  qed
  then show ?thesis unfolding rel_fun_def by blast
qed

lemma turn_loop_alike [transfer_rule]:
  "rel_fun (rel_cfg R) (rel_fun (=) (rel_fun (=) (rel_fun (=) (rel_fun (=) (rel_fun (=) (rel_fun (=)
     (rel_fun (rel_sess R) (rel_prod (=) (rel_sess R))))))))) turn_loop turn_loop"
proof -
  have "rel_fun (=) (rel_fun (=) (rel_fun (rel_sess R) (rel_prod (=) (rel_sess R))))
      (turn_loop x c bid ext n) (turn_loop y c bid ext n)"
    if [transfer_rule]: "rel_cfg R x y" for x y c bid ext n
  proof (induction n)
    case 0
    show ?case by (auto simp: rel_fun_def empty_turn_result_def rel_cfg_def that [unfolded rel_cfg_def])
  next
    case (Suc n)
    define f g where "f = turn_loop x c bid ext n" and "g = turn_loop y c bid ext n"
    have [transfer_rule]: "rel_fun (=) (rel_fun (=) (rel_fun (rel_sess R) (rel_prod (=) (rel_sess R)))) f g"
      using Suc.IH by (simp add: f_def g_def)
    have "rel_prod (=) (rel_sess R) (turn_loop x c bid ext (Suc n) tr size s) (turn_loop y c bid ext (Suc n) tr size s')"
      if [transfer_rule]: "rel_sess R s s'" for tr size s s'
      unfolding turn_loop.simps f_def [symmetric] g_def [symmetric] by transfer_prover
    then show ?case by (simp add: rel_fun_def)
  qed
  then show ?thesis unfolding rel_fun_def by blast
qed

lemma handle_user_turn_alike [transfer_rule]:
  "rel_fun (rel_cfg R) (rel_fun (=) (rel_fun (=) (rel_fun (=) (rel_fun (=) (rel_fun (rel_sess R) (rel_prod (=) (rel_sess R)))))))
     handle_user_turn handle_user_turn"
  unfolding handle_user_turn_def by transfer_prover

lemma run_commands_alike:
  assumes [transfer_rule]: "rel_cfg R x y"
  shows "rel_sess R s s' \<Longrightarrow> rel_prod (=) (rel_sess R) (run_commands x cmds s) (run_commands y cmds s')"
proof (induction cmds arbitrary: s s')
  case (Cons cmd cmds)
  define f g where "f = run_commands x cmds" and "g = run_commands y cmds"
  have [transfer_rule]: "rel_fun (rel_sess R) (rel_prod (=) (rel_sess R)) f g"
    using Cons.IH by (simp add: f_def g_def rel_fun_def)
  note [transfer_rule] = Cons.prems
  show ?case
  proof (cases cmd)
    case (Turn branch q ext)
    show ?thesis unfolding Turn run_commands.simps f_def [symmetric] g_def [symmetric] by transfer_prover
  next
    case (Fork parent child)
    show ?thesis unfolding Fork run_commands.simps f_def [symmetric] g_def [symmetric] by transfer_prover
  qed
qed simp

lemma session_built [transfer_rule]:
  "rel_fun (rel_cfg R) (rel_cfg R) sess_defaults sess_defaults"
  by (auto simp: rel_fun_def rel_cfg_def sess_defaults_def)

lemma session_made [transfer_rule]:
  "rel_fun R (rel_fun (=) (rel_fun (=) (rel_fun (=) (rel_fun (=) (rel_fun (=) (rel_fun (=) (rel_fun (=) (rel_sess R))))))))
     sess_ext sess_ext"
  by (auto simp: rel_fun_def rel_sess_def)

lemma start_session_alike [transfer_rule]:
  "rel_fun (rel_cfg R) (rel_fun R (rel_fun (=) (rel_fun (=) (rel_sum (=) (rel_prod (rel_cfg R) (rel_sess R))))))
     start_session start_session"
  unfolding start_session_def by transfer_prover

lemma one_shot_alike:
  assumes "R a b"
  shows "one_shot_on env c cfg prompt ad ops1 a net = one_shot_on env c cfg prompt ad ops2 b net"
proof -
  have [transfer_rule]: "rel_cfg R (one_shot_cfg env cfg ops1 ad) (one_shot_cfg env cfg ops2 ad)"
    by (simp add: one_shot_cfg_def rel_cfg_def ops_alike)
  note [transfer_rule] = assms
  show ?thesis unfolding one_shot_on_def by transfer_prover
qed

end

subsection \<open>The server on two backends that are alike\<close>

text \<open>The snapshot that \<open>/metrics\<close> shows contains the name of the backend.\<close>

definition hide_mode :: "reply \<Rightarrow> reply" where
  "hide_mode r = (case r of Reply status (MetricsReply ms) \<Rightarrow> Reply status (MetricsReply (ms\<lparr>ms_backend_mode := []\<rparr>))
     | _ \<Rightarrow> r)"

text \<open>\<open>D\<close> relates the states of the two dream daemons.\<close>

locale served_pair = backend_pair ops1 ops2 R
  for ops1 :: "'a backend_ops" and ops2 :: "'b backend_ops" and R :: "'a \<Rightarrow> 'b \<Rightarrow> bool" +
  fixes D :: "'d \<Rightarrow> 'e \<Rightarrow> bool"
begin

lemma vcfg_rules [transfer_rule]:
  "rel_fun (rel_vcfg R D) (rel_ops R) vc_ops vc_ops"
  "rel_fun (rel_vcfg R D) (rel_fun (=) (rel_fun R (rel_prod (\<lambda>_ _. True) R))) vc_health vc_health"
  "rel_fun (rel_vcfg R D) (=) vc_decoders vc_decoders"
  "rel_fun (rel_vcfg R D) (=) vc_adapter vc_adapter"
  "rel_fun (rel_vcfg R D) (=) vc_call vc_call"
  "rel_fun (rel_vcfg R D) (=) vc_runner vc_runner"
  "rel_fun (rel_vcfg R D) (=) vc_run_tool vc_run_tool"
  "rel_fun (rel_vcfg R D) (=) vc_encode vc_encode"
  "rel_fun (rel_vcfg R D) (=) vc_marshal vc_marshal"
  "rel_fun (rel_vcfg R D) (=) vc_headers vc_headers"
  "rel_fun (rel_vcfg R D) (=) vc_model_mode vc_model_mode"
  "rel_fun (rel_vcfg R D) (rel_option (rel_dream R D)) vc_dream vc_dream"
  "rel_fun (rel_vcfg R D) (=) vc_body vc_body"
  "rel_fun (rel_vcfg R D) (=) vc_clock vc_clock"
  "rel_fun (rel_vcfg R D) (=) vc_preprocessor vc_preprocessor"
  by (simp_all add: rel_vcfg_def rel_fun_def)

lemma server_rules [transfer_rule]:
  "rel_fun (rel_server R D) R sv_backend sv_backend"
  "rel_fun (rel_server R D) (=) sv_model sv_model"
  "rel_fun (rel_server R D) (=) sv_tools sv_tools"
  "rel_fun (rel_server R D) D sv_dream sv_dream"
  "rel_fun (rel_server R D) rel_reg sv_metrics sv_metrics"
  "rel_fun (rel_server R D) (=) sv_inflight sv_inflight"
  "rel_fun (rel_server R D) (=) sv_consults sv_consults"
  "rel_fun (rel_server R D) (=) sv_ticks sv_ticks"
  "rel_fun (rel_server R D) (=) sv_jobs sv_jobs"
  "rel_fun (rel_fun R R) (rel_fun (rel_server R D) (rel_server R D)) sv_backend_update sv_backend_update"
  "rel_fun (=) (rel_fun (rel_server R D) (rel_server R D)) sv_model_update sv_model_update"
  "rel_fun (=) (rel_fun (rel_server R D) (rel_server R D)) sv_tools_update sv_tools_update"
  "rel_fun (rel_fun D D) (rel_fun (rel_server R D) (rel_server R D)) sv_dream_update sv_dream_update"
  "rel_fun (rel_fun rel_reg rel_reg) (rel_fun (rel_server R D) (rel_server R D)) sv_metrics_update sv_metrics_update"
  "rel_fun (=) (rel_fun (rel_server R D) (rel_server R D)) sv_inflight_update sv_inflight_update"
  "rel_fun (=) (rel_fun (rel_server R D) (rel_server R D)) sv_consults_update sv_consults_update"
  "rel_fun (=) (rel_fun (rel_server R D) (rel_server R D)) sv_ticks_update sv_ticks_update"
  "rel_fun (=) (rel_fun (rel_server R D) (rel_server R D)) sv_jobs_update sv_jobs_update"
  by (auto simp: rel_server_def intro!: rel_funI dest: rel_funD)

lemma registry_rules [transfer_rule]:
  "rel_fun (=) (rel_fun rel_reg rel_reg) inc_request inc_request"
  "rel_fun (=) (rel_fun rel_reg rel_reg) inc_error inc_error"
  "rel_fun rel_reg rel_reg inc_dream_execution inc_dream_execution"
  "rel_fun (=) (rel_fun (=) (rel_fun rel_reg rel_reg)) observe_latency observe_latency"
  by (simp_all add: rel_fun_def rel_reg_ops(1-4))

lemma fail_alike [transfer_rule]:
  "rel_fun (=) (rel_fun (=) (rel_fun (=) (rel_fun (=) (rel_fun (rel_server R D) (rel_prod (=) (rel_server R D)))))) fail_with fail_with"
  unfolding fail_with_def by transfer_prover

lemma count_request_alike [transfer_rule]:
  "rel_fun (=) (rel_fun (rel_server R D) (rel_server R D)) count_request count_request"
  unfolding count_request_def by transfer_prover

lemma timed_alike [transfer_rule]:
  "rel_fun (rel_vcfg R D) (rel_fun (=) (rel_fun (rel_fun (rel_server R D) (rel_prod A (rel_server R D)))
     (rel_fun (rel_server R D) (rel_prod A (rel_server R D))))) timed timed"
  unfolding timed_def by transfer_prover

lemma session_cfg_alike [transfer_rule]:
  "rel_fun (rel_vcfg R D) (rel_fun (=) (rel_fun (=) (rel_fun (=) (rel_fun (rel_server R D) (rel_cfg R))))) session_cfg session_cfg"
  by (auto simp: rel_fun_def rel_cfg_def rel_vcfg_def rel_server_def session_cfg_def dest!: rel_reg_ops(5))

lemma server_session_alike [transfer_rule]:
  "rel_fun (rel_vcfg R D) (rel_fun (=) (rel_fun (=) (rel_fun (=) (rel_fun (rel_server R D)
     (rel_sum (=) (rel_prod (rel_cfg R) (rel_sess R))))))) start_session_with_runner start_session_with_runner"
  "rel_fun (rel_vcfg R D) (rel_fun (=) (rel_fun (=) (rel_fun (rel_server R D)
     (rel_sum (=) (rel_prod (rel_cfg R) (rel_sess R)))))) server_session server_session"
proof -
  show [transfer_rule]: "rel_fun (rel_vcfg R D) (rel_fun (=) (rel_fun (=) (rel_fun (=) (rel_fun (rel_server R D)
     (rel_sum (=) (rel_prod (rel_cfg R) (rel_sess R))))))) start_session_with_runner start_session_with_runner"
    unfolding start_session_with_runner_def by transfer_prover
  show "rel_fun (rel_vcfg R D) (rel_fun (=) (rel_fun (=) (rel_fun (rel_server R D)
     (rel_sum (=) (rel_prod (rel_cfg R) (rel_sess R)))))) server_session server_session"
    unfolding server_session_def by transfer_prover
qed

lemma leave_session_alike [transfer_rule]:
  "rel_fun (rel_sess R) (rel_fun (rel_server R D) (rel_server R D)) leave_session leave_session"
  unfolding leave_session_def by transfer_prover

lemma handle_turn_alike [transfer_rule]:
  "rel_fun (rel_vcfg R D) (rel_fun (=) (rel_fun (rel_server R D) (rel_prod (=) (rel_server R D)))) handle_turn handle_turn"
  unfolding handle_turn_def by transfer_prover

lemma consult_event_id_alike [transfer_rule]:
  "rel_fun (=) (rel_fun (=) (rel_fun (rel_server R D) (rel_prod (=) (rel_server R D)))) next_consult_event_id next_consult_event_id"
  unfolding next_consult_event_id_def by transfer_prover

lemma append_consult_alike [transfer_rule]:
  "rel_fun (rel_vcfg R D) (rel_fun (=) (rel_fun (=) (rel_fun (rel_server R D) (rel_prod (=) (rel_server R D)))))
     append_consult_event append_consult_event"
  unfolding append_consult_event_def by transfer_prover

lemma unresolved_alike [transfer_rule]:
  "rel_fun (rel_vcfg R D) (rel_fun (=) (rel_fun (=) (rel_fun (=) (rel_fun (rel_server R D) (rel_prod (=) (rel_server R D))))))
     agent_call_unresolved agent_call_unresolved"
  unfolding agent_call_unresolved_def by transfer_prover

lemma prepare_alike [transfer_rule]:
  "rel_fun (rel_vcfg R D) (rel_fun (=) (rel_fun (rel_server R D) (rel_prod (=) (rel_server R D))))
     agent_call_prepare agent_call_prepare"
  unfolding agent_call_prepare_def by transfer_prover

lemma find_trace_alike [transfer_rule]:
  "rel_fun (rel_vcfg R D) (rel_fun (=) (rel_fun (=) (rel_fun R (=)))) find_trace find_trace"
  unfolding find_trace_def by transfer_prover

lemma failed_call_alike [transfer_rule]:
  "rel_fun (=) (rel_fun (=) (rel_fun (=) (rel_fun (rel_server R D) (rel_prod (=) (rel_server R D))))) failed_call failed_call"
  unfolding failed_call_def by transfer_prover

lemma record_alike [transfer_rule]:
  "rel_fun (rel_vcfg R D) (rel_fun (=) (rel_fun (=) (rel_fun (=) (rel_fun (rel_server R D) (rel_prod (=) (rel_server R D))))))
     agent_call_record agent_call_record"
  unfolding agent_call_record_def by transfer_prover

lemma work_alike [transfer_rule]:
  "rel_fun (rel_vcfg R D) (rel_fun (=) (rel_fun (=) (rel_fun (rel_server R D) (rel_prod (=) (rel_server R D)))))
     agent_call_work agent_call_work"
  unfolding agent_call_work_def by transfer_prover

lemma lead_alike [transfer_rule]:
  "rel_fun (rel_vcfg R D) (rel_fun (=) (rel_fun (=) (rel_fun (=) (rel_fun (rel_server R D) (rel_prod (=) (rel_server R D))))))
     agent_call_lead agent_call_lead"
  unfolding agent_call_lead_def by transfer_prover

lemma follow_alike [transfer_rule]:
  "rel_fun (rel_vcfg R D) (rel_fun (=) (rel_fun (=) (rel_fun (rel_server R D) (rel_prod (=) (rel_server R D)))))
     agent_call_follow agent_call_follow"
  unfolding agent_call_follow_def by transfer_prover

lemma enter_alike [transfer_rule]:
  "rel_fun (=) (rel_fun (rel_server R D) (rel_prod (=) (rel_server R D))) agent_call_enter agent_call_enter"
  unfolding agent_call_enter_def by transfer_prover

lemma handle_agent_call_alike [transfer_rule]:
  "rel_fun (rel_vcfg R D) (rel_fun (=) (rel_fun (rel_server R D) (rel_prod (=) (rel_server R D)))) handle_agent_call handle_agent_call"
  unfolding handle_agent_call_def apfst_def by transfer_prover

lemma handle_branch_fork_alike [transfer_rule]:
  "rel_fun (rel_vcfg R D) (rel_fun (=) (rel_fun (rel_server R D) (rel_prod (=) (rel_server R D)))) handle_branch_fork handle_branch_fork"
  unfolding handle_branch_fork_def by transfer_prover

lemma handle_session_replay_alike [transfer_rule]:
  "rel_fun (rel_vcfg R D) (rel_fun (=) (rel_fun (rel_server R D) (rel_prod (=) (rel_server R D))))
     handle_session_replay handle_session_replay"
  unfolding handle_session_replay_def by transfer_prover

lemma handle_metrics_alike:
  assumes "rel_server R D s s'"
  shows "rel_prod (\<lambda>r r'. hide_mode r = hide_mode r') (rel_server R D) (handle_metrics rq s) (handle_metrics rq s')"
proof -
  have counted: "rel_server R D (count_request ''/metrics'' s) (count_request ''/metrics'' s')"
    using assms rel_reg_ops(1) by (simp add: rel_server_def count_request_def)
  then have shown: "rel_reg (sv_metrics (count_request ''/metrics'' s)) (sv_metrics (count_request ''/metrics'' s'))"
    by (simp add: rel_server_def)
  show ?thesis
  proof (cases "hq_method rq = ''GET''")
    case True
    with counted take_snapshot_rel [OF shown] show ?thesis
      by (simp add: handle_metrics_def Let_def hide_mode_def rel_prod_sel)
  next
    case False
    have "rel_prod (=) (rel_server R D) (fail_with k status code msg (count_request ''/metrics'' s))
        (fail_with k status code msg (count_request ''/metrics'' s'))" for k status code msg
      using fail_alike [THEN rel_funD, OF refl, THEN rel_funD, OF refl, THEN rel_funD, OF refl, THEN rel_funD, OF refl,
          THEN rel_funD, OF counted] .
    with False show ?thesis by (simp add: handle_metrics_def Let_def rel_prod_sel)
  qed
qed

lemma dream_rules [transfer_rule]:
  "rel_fun (rel_dream R D) (rel_fun (=) (rel_fun (=) (rel_fun R (rel_fun D (rel_prod (=) (rel_prod R D)))))) do_execute do_execute"
  "rel_fun (rel_dream R D) (rel_fun D (rel_prod (=) D)) do_should do_should"
  "rel_fun (rel_dream R D) (rel_fun D (=)) do_count do_count"
  by (simp_all add: rel_dream_def rel_fun_def)

lemma dream_and_report_alike [transfer_rule]:
  "rel_fun (rel_dream R D) (rel_fun (=) (rel_fun (=) (rel_fun (rel_server R D) (rel_prod (=) (rel_server R D))))) dream_and_report dream_and_report"
  unfolding dream_and_report_def by transfer_prover

lemma dream_if_due_alike [transfer_rule]:
  "rel_fun (rel_dream R D) (rel_fun (=) (rel_fun (=) (rel_fun (=) (rel_fun (rel_server R D) (rel_prod (=) (rel_server R D))))))
     dream_if_due dream_if_due"
  unfolding dream_if_due_def by transfer_prover

lemma handle_dream_alike [transfer_rule]:
  "rel_fun (rel_vcfg R D) (rel_fun (=) (rel_fun (rel_server R D) (rel_prod (=) (rel_server R D)))) handle_dream handle_dream"
  unfolding handle_dream_def by transfer_prover

lemma handle_healthz_alike:
  assumes "rel_vcfg R D x y" and "rel_server R D s s'"
  shows "rel_server R D (snd (handle_healthz x rq s)) (snd (handle_healthz y rq s'))"
proof -
  have "rel_prod (\<lambda>_ _. True) R (vc_health x c a) (vc_health y c b)" if "R a b" for c a b
    using assms(1) that by (simp add: rel_vcfg_def rel_fun_def)
  then have "R (snd (vc_health x (hq_ctx rq) (sv_backend s))) (snd (vc_health y (hq_ctx rq) (sv_backend s')))"
    using assms(2) by (simp add: rel_server_def rel_prod_sel)
  then show ?thesis
    using assms(2) by (simp add: handle_healthz_def Let_def rel_server_def count_request_def fail_with_def split_def
        rel_reg_ops(1,2))
qed

lemma handle_alike:
  assumes [transfer_rule]: "rel_vcfg R D x y" "rel_server R D s s'"
  shows "rel_prod (\<lambda>r r'. hq_path rq = ''/healthz'' \<or> map_option hide_mode r = map_option hide_mode r') (rel_server R D)
    (handle x rq s) (handle y rq s')"
proof -
  consider "hq_path rq = ''/healthz''" | "hq_path rq = ''/metrics''"
    | (others) "hq_path rq \<noteq> ''/healthz''" "hq_path rq \<noteq> ''/metrics''" by blast
  then show ?thesis
  proof cases
    case 1
    then show ?thesis
      using handle_healthz_alike [OF assms, of rq] by (simp add: handle_def rel_prod_sel apfst_def)
  next
    case 2
    then show ?thesis
      using handle_metrics_alike [OF assms(2), of rq] by (simp add: handle_def rel_prod_sel apfst_def)
  next
    case others
    have "rel_prod (=) (rel_server R D) (handle x rq s) (handle y rq s')"
      unfolding handle_def if_not_P [OF others(1)] if_not_P [OF others(2)] apfst_def by transfer_prover
    then show ?thesis by (simp add: rel_prod_sel)
  qed
qed

end

subsection \<open>A server handling one request after the other\<close>

text \<open>
  What the clients have seen is every reply but those to health checks, which ask the backend for a state
  of its own, and without the name of the backend in the metrics.
\<close>

primrec serve_all ::
  "('b, 'm, 't, 'd) server_cfg \<Rightarrow> http_request list \<Rightarrow> ('b, 'm, 't, 'd) server
   \<Rightarrow> reply option list \<times> ('b, 'm, 't, 'd) server" where
  "serve_all cfg [] sv = ([], sv)"
| "serve_all cfg (rq # rqs) sv =
     (let (r, sv1) = handle cfg rq sv; (rs, sv2) = serve_all cfg rqs sv1 in (r # rs, sv2))"

definition replies_seen ::
  "('b, 'm, 't, 'd) server_cfg \<times> ('b, 'm, 't, 'd) server \<Rightarrow> http_request list
   \<Rightarrow> (http_request \<times> reply option) list" where
  "replies_seen started rqs =
     map (apsnd (map_option hide_mode)) (filter (\<lambda>(rq, r). hq_path rq \<noteq> ''/healthz'')
       (zip rqs (fst (serve_all (fst started) rqs (snd started)))))"

context served_pair
begin

lemma serve_all_alike:
  assumes "rel_vcfg R D x y"
  shows "rel_server R D s s' \<Longrightarrow> replies_seen (x, s) rqs = replies_seen (y, s') rqs
    \<and> rel_server R D (snd (serve_all x rqs s)) (snd (serve_all y rqs s'))"
proof (induction rqs arbitrary: s s')
  case (Cons rq rqs)
  have "rel_prod (\<lambda>r r'. hq_path rq = ''/healthz'' \<or> map_option hide_mode r = map_option hide_mode r') (rel_server R D)
      (handle x rq s) (handle y rq s')"
    using assms Cons.prems by (rule handle_alike)
  with Cons.IH [of "snd (handle x rq s)" "snd (handle y rq s')"] show ?case
    by (auto simp: replies_seen_def split_def Let_def rel_prod_sel)
qed (simp add: replies_seen_def)

lemma new_server_alike:
  assumes "rel_vcfg R D x y" and "R a b" and "D d e"
  shows "rel_prod (rel_vcfg R D) (rel_server R D) (new_server x reg a m t d) (new_server y reg b m t e)"
  using assms by (auto simp: new_server_def Let_def rel_vcfg_def rel_server_def set_modes_rel)

lemma new_server_served_alike:
  assumes "rel_vcfg R D x y" and "R a b" and "D d e"
  shows "replies_seen (new_server x reg a m t d) rqs = replies_seen (new_server y reg b m t e) rqs"
    and "D (sv_dream (snd (case new_server x reg a m t d of (c, s) \<Rightarrow> serve_all c rqs s)))
           (sv_dream (snd (case new_server y reg b m t e of (c, s) \<Rightarrow> serve_all c rqs s)))"
proof -
  obtain x1 s where x: "new_server x reg a m t d = (x1, s)" by (cases "new_server x reg a m t d")
  obtain y1 s' where y: "new_server y reg b m t e = (y1, s')" by (cases "new_server y reg b m t e")
  have "rel_vcfg R D x1 y1" "rel_server R D s s'"
    using new_server_alike [OF assms, of reg m t] by (simp_all add: x y)
  note served = serve_all_alike [OF this, of rqs]
  show "replies_seen (new_server x reg a m t d) rqs = replies_seen (new_server y reg b m t e) rqs"
    unfolding x y using served by simp
  show "D (sv_dream (snd (case new_server x reg a m t d of (c, s) \<Rightarrow> serve_all c rqs s)))
      (sv_dream (snd (case new_server y reg b m t e of (c, s) \<Rightarrow> serve_all c rqs s)))"
    unfolding x y using served by (simp add: rel_server_def)
qed

end

subsection \<open>The dream daemon on two backends that are alike\<close>

definition rel_world :: "('a \<Rightarrow> 'b \<Rightarrow> bool) \<Rightarrow> 'a dream_world \<Rightarrow> 'b dream_world \<Rightarrow> bool" where
  "rel_world R w w' \<longleftrightarrow> dw_memory w = dw_memory w' \<and> dw_disk w = dw_disk w' \<and> R (dw_backend w) (dw_backend w')"

context backend_pair
begin

lemma world_rules [transfer_rule]:
  "rel_fun (rel_world R) (=) dw_memory dw_memory"
  "rel_fun (rel_world R) (=) dw_disk dw_disk"
  "rel_fun (rel_world R) R dw_backend dw_backend"
  "rel_fun (=) (rel_fun (rel_world R) (rel_world R)) dw_memory_update dw_memory_update"
  "rel_fun (=) (rel_fun (rel_world R) (rel_world R)) dw_disk_update dw_disk_update"
  "rel_fun (rel_fun R R) (rel_fun (rel_world R) (rel_world R)) dw_backend_update dw_backend_update"
  "rel_fun (=) (rel_fun (=) (rel_fun R (rel_fun (=) (rel_world R)))) dream_world_ext dream_world_ext"
  by (auto simp: rel_world_def intro!: rel_funI dest: rel_funD)

lemma execute_dream_alike [transfer_rule]:
  "rel_fun (rel_ops R) (rel_fun (=) (rel_fun (=) (rel_fun (=) (rel_fun (rel_prod (=) (rel_world R))
     (rel_prod (=) (rel_prod (=) (rel_world R))))))) execute_dream execute_dream"
  unfolding execute_dream_def by transfer_prover

lemma served_dream_alike: "rel_dream R (=) (served_dream ops1 envs) (served_dream ops2 envs)"
proof -
  note [transfer_rule] = ops_alike
  have "rel_fun (=) (rel_fun (=) (rel_fun R (rel_fun (=) (rel_prod (=) (rel_prod R (=))))))
      (do_execute (served_dream ops1 envs)) (do_execute (served_dream ops2 envs))"
    unfolding served_dream_def dream_ops.select_convs by transfer_prover
  moreover have "do_should (served_dream ops1 envs) = do_should (served_dream ops2 envs)"
    "do_count (served_dream ops1 envs) = do_count (served_dream ops2 envs)"
    by (simp_all add: served_dream_def)
  ultimately show ?thesis by (simp add: rel_dream_def prod.rel_eq rel_fun_def [of "(=)" "(=)"])
qed

end

subsection \<open>The two adapters\<close>

interpretation bp: served_pair mem_ops xs_ops adapters_agree "(=)"
proof unfold_locales
  fix m x c e and ref payload sid bid :: string
  assume alike: "adapters_agree m x"
  show "rel_prod (=) adapters_agree (bk_append mem_ops c e m) (bk_append xs_ops c e x)"
    using adapters_agree_append [OF alike] by (simp add: rel_prod_sel)
  show "rel_prod (=) adapters_agree (bk_append_blob mem_ops c ref payload m) (bk_append_blob xs_ops c ref payload x)"
    using alike by (auto simp: rel_prod_sel adapters_agree_def mb_append_blob_def xs_append_blob_def Let_def
        split: option.split)
  show "bk_list mem_ops c sid m = bk_list xs_ops c sid x"
    by (simp add: adapters_agree_reads [OF alike])
  show "bk_list_branch mem_ops c sid bid m = bk_list_branch xs_ops c sid bid x"
    by (simp add: adapters_agree_reads [OF alike])
qed

lemma health_checks_keep_alike:
  "rel_fun (=) (rel_fun adapters_agree (rel_prod (\<lambda>_ _. True) adapters_agree))
     mb_health_check (xs_health_check look_path run)"
  by (auto simp: rel_fun_def rel_prod_sel adapters_agree_def mb_health_check_def xs_health_check_def Let_def
      split: option.split prod.split)

definition served_replies ::
  "('g, 'p, 'w) launch_env \<Rightarrow> (string \<Rightarrow> goerr option) \<Rightarrow> (ctx \<Rightarrow> string \<Rightarrow> string list \<Rightarrow> string \<times> goerr option)
   \<Rightarrow> (goval \<Rightarrow> string result) \<Rightarrow> body_decoders \<Rightarrow> (nat \<Rightarrow> dream_env) \<Rightarrow> 'g \<Rightarrow> http_request list
   \<Rightarrow> ('g, 'p, 'w) serve_parts \<Rightarrow> (http_request \<times> reply option) list" where
  "served_replies env look_path run marshal body envs net rqs parts =
     (case sp_backend parts of
        MemoryBackend b \<Rightarrow> replies_seen (launched_server env parts mem_ops mb_health_check marshal body envs b net) rqs
      | XsBackend b \<Rightarrow> replies_seen (launched_server env parts xs_ops (xs_health_check look_path run) marshal body envs b net) rqs)"

text \<open>What the two modes make of one configuration.\<close>

lemma one_shot_mode:
  "one_shot_on env c (cfg\<lparr>lc_backend_mode := mode\<rparr>) prompt ad ops b net = one_shot_on env c cfg prompt ad ops b net"
proof -
  have sel: "one_shot_cfg env (cfg\<lparr>lc_backend_mode := mode\<rparr>) ops ad = one_shot_cfg env cfg ops ad"
    "lc_branch (cfg\<lparr>lc_backend_mode := mode\<rparr>) = lc_branch cfg"
    "lc_model_timeout (cfg\<lparr>lc_backend_mode := mode\<rparr>) = lc_model_timeout cfg"
    by (simp_all add: one_shot_cfg_def build_model_headers_def)
  show ?thesis unfolding one_shot_on_def sel ..
qed

lemma mode_unused:
  "build_adapter net (cfg\<lparr>lc_backend_mode := mode\<rparr>) = build_adapter net cfg"
  "build_preprocessor nenv getenv stat (cfg\<lparr>lc_backend_mode := mode\<rparr>) = build_preprocessor nenv getenv stat cfg"
  "build_model_headers (cfg\<lparr>lc_backend_mode := mode\<rparr>) = build_model_headers cfg"
  "build_memory_manager me (cfg\<lparr>lc_backend_mode := mode\<rparr>) d = build_memory_manager me cfg d"
  "build_dream_daemon (cfg\<lparr>lc_backend_mode := mode\<rparr>) = build_dream_daemon cfg"
  "build_audit_config (cfg\<lparr>lc_backend_mode := mode\<rparr>) = build_audit_config cfg"
  "lc_model_timeout (cfg\<lparr>lc_backend_mode := mode\<rparr>) = lc_model_timeout cfg"
  "lc_model_mode (cfg\<lparr>lc_backend_mode := mode\<rparr>) = lc_model_mode cfg"
  "lc_preprocess_mode (cfg\<lparr>lc_backend_mode := mode\<rparr>) = lc_preprocess_mode cfg"
  by (simp_all add: build_adapter_def build_preprocessor_def build_model_headers_def build_memory_manager_def
      build_dream_daemon_def build_audit_config_def)

lemma backend_of_modes:
  "build_backend (cfg\<lparr>lc_backend_mode := ''memory''\<rparr>) = Inr (MemoryBackend new_mem_backend)"
  "build_backend (cfg\<lparr>lc_backend_mode := ''xs''\<rparr>)
     = Inr (XsBackend (new_xs_adapter \<lparr>xc_command = lc_xs_command cfg, xc_health_args = []\<rparr>))"
  by (simp_all add: build_backend_def)

lemma parts_of_modes:
  "serve_parts_of env (lcfg\<lparr>lc_backend_mode := ''xs''\<rparr>) =
     map_sum id (apsnd (\<lambda>p. p\<lparr>sp_backend_mode := ''xs'',
        sp_backend := XsBackend (new_xs_adapter \<lparr>xc_command = lc_xs_command lcfg, xc_health_args = []\<rparr>)\<rparr>))
       (serve_parts_of env (lcfg\<lparr>lc_backend_mode := ''memory''\<rparr>))"
  "serve_parts_of env (lcfg\<lparr>lc_backend_mode := ''memory''\<rparr>) = Inr (n, p) \<Longrightarrow> sp_backend p = MemoryBackend new_mem_backend"
  unfolding serve_parts_of_def backend_of_modes mode_unused sum.case
  by (auto split: sum.splits)

lemma launched_alike:
  assumes "parts' = parts\<lparr>sp_backend_mode := mode, sp_backend := lb\<rparr>"
  shows "replies_seen (launched_server env parts mem_ops mb_health_check marshal body envs new_mem_backend net) rqs
    = replies_seen (launched_server env parts' xs_ops (xs_health_check look_path run) marshal body envs
        (new_xs_adapter xc) net) rqs"
proof -
  have "rel_vcfg adapters_agree (=) (launched_server_cfg env parts mem_ops mb_health_check marshal body envs)
      (launched_server_cfg env parts' xs_ops (xs_health_check look_path run) marshal body envs)"
    by (cases "sp_daemon parts") (simp_all add: assms launched_server_cfg_def rel_vcfg_def bp.ops_alike
        bp.served_dream_alike health_checks_keep_alike)
  moreover have "served_daemon_of parts' = served_daemon_of parts" by (simp add: assms served_daemon_of_def)
  ultimately show ?thesis
    unfolding launched_server_def
    by (simp only:) (rule bp.new_server_served_alike, simp_all add: adapters_agree_new)
qed

text \<open>
  C37. The choice of the backend is not visible. Whatever the prompt, the model and the tools do, the
  one-shot command ends with the same exit code and prints the same with \<open>--backend-mode memory\<close> and
  with \<open>xs\<close>. With either mode the same configuration is refused for the same reason or makes a
  server, and the two servers give any sequence of requests the same replies: turns, agent calls, forks,
  replays, metrics, dreams and failures alike. Excepted are the health check, whose reply is the backend's,
  and the field of the metrics that names the backend.
\<close>

theorem backend_choice_unseen:
  "one_shot_on env c (cfg\<lparr>lc_backend_mode := ''memory''\<rparr>) prompt ad mem_ops new_mem_backend net
     = one_shot_on env c (cfg\<lparr>lc_backend_mode := ''xs''\<rparr>) prompt ad xs_ops (new_xs_adapter xc) net
   \<and> (case serve_parts_of env (lcfg\<lparr>lc_backend_mode := ''memory''\<rparr>) of
        Inl e \<Rightarrow> serve_parts_of env (lcfg\<lparr>lc_backend_mode := ''xs''\<rparr>) = Inl e
      | Inr (notice, p) \<Rightarrow>
          (case serve_parts_of env (lcfg\<lparr>lc_backend_mode := ''xs''\<rparr>) of
             Inl e \<Rightarrow> False
           | Inr (notice', p') \<Rightarrow> notice' = notice
               \<and> served_replies env look_path run marshal body envs net rqs p
                 = served_replies env look_path run marshal body envs net rqs p'))"
proof (rule conjI)
  show "one_shot_on env c (cfg\<lparr>lc_backend_mode := ''memory''\<rparr>) prompt ad mem_ops new_mem_backend net
      = one_shot_on env c (cfg\<lparr>lc_backend_mode := ''xs''\<rparr>) prompt ad xs_ops (new_xs_adapter xc) net"
    unfolding one_shot_mode by (rule bp.one_shot_alike [OF adapters_agree_new])
next
  show "case serve_parts_of env (lcfg\<lparr>lc_backend_mode := ''memory''\<rparr>) of
        Inl e \<Rightarrow> serve_parts_of env (lcfg\<lparr>lc_backend_mode := ''xs''\<rparr>) = Inl e
      | Inr (notice, p) \<Rightarrow>
          (case serve_parts_of env (lcfg\<lparr>lc_backend_mode := ''xs''\<rparr>) of
             Inl e \<Rightarrow> False
           | Inr (notice', p') \<Rightarrow> notice' = notice
               \<and> served_replies env look_path run marshal body envs net rqs p
                 = served_replies env look_path run marshal body envs net rqs p')"
    unfolding parts_of_modes(1)
    by (auto simp: served_replies_def parts_of_modes(2) intro: launched_alike split: sum.split)
qed

subsection \<open>The daemon of a server never dreams by itself\<close>

text \<open>Nothing that a server does counts as activity, so the thresholds are never met.\<close>

definition inactive :: "served_daemon \<Rightarrow> bool" where
  "inactive st \<longleftrightarrow> da_last_activity (fst (snd st)) = 0"

lemma execute_dream_inactive:
  "da_last_activity (fst (snd (execute_dream ops env c session (da, w)))) = da_last_activity da"
  by (simp add: execute_dream_def Let_def split: sum.split prod.split)

lemma inactive_not_due: "inactive st \<Longrightarrow> \<not> fst (do_should (served_dream ops envs) st)"
  by (cases st) (simp add: inactive_def served_dream_def should_dream_def)

lemma served_dream_inactive: "rel_dream (=) (eq_onp inactive) (served_dream ops envs) (served_dream ops envs)"
proof -
  have "inactive (snd (snd (do_execute (served_dream ops envs) c session b st)))" if "inactive st" for c session b st
    using that by (cases st) (simp add: inactive_def served_dream_def split_def Let_def execute_dream_inactive)
  moreover have "inactive (snd (do_should (served_dream ops envs) st))" if "inactive st" for st
    using that by (cases st) (simp add: inactive_def served_dream_def)
  ultimately show ?thesis
    by (auto simp: rel_dream_def rel_fun_def eq_onp_def rel_prod_sel)
qed

interpretation ip: served_pair ops ops "(=)" "eq_onp inactive" for ops
  by unfold_locales (simp_all add: prod.rel_eq)

lemma new_daemon_inactive: "da_last_activity (new_daemon dg) = 0"
  by (simp add: new_daemon_def Let_def)

lemma built_daemon_inactive: "build_dream_daemon lcfg = Some da \<Longrightarrow> da_last_activity da = 0"
  by (auto simp: build_dream_daemon_def new_daemon_inactive split: if_splits)

lemma parts_daemon_inactive:
  "serve_parts_of env lcfg = Inr (notice, parts) \<Longrightarrow> inactive (served_daemon_of parts)"
  by (auto simp: inactive_def serve_parts_of_def served_daemon_of_def Let_def new_daemon_inactive built_daemon_inactive
      split: sum.splits option.splits)

text \<open>
  C38. The daemon of a server never dreams by itself. Whatever requests a launched server has handled, in
  whatever order, on whichever backend: the thresholds of its daemon are not met, so that a request for
  \<open>/v1/dream\<close> that reaches a daemon runs a pass exactly if it asks for one, and is told that the thresholds
  are not met otherwise. (Without a daemon configured there is nothing to run.)
\<close>

theorem served_daemon_waits:
  "case serve_parts_of env lcfg of
     Inl err \<Rightarrow> True
   | Inr (notice, parts) \<Rightarrow>
     (case launched_server env parts ops health marshal body envs b net of (cfg, sv0) \<Rightarrow>
        let sv = snd (serve_all cfg rqs sv0); dd = served_dream ops envs in
        \<not> fst (do_should dd (sv_dream sv))
        \<and> (if dq_trigger req then dream_if_due dd rq req sid sv = dream_and_report dd rq sid sv
           else fst (dream_if_due dd rq req sid sv) = Reply StatusOK (DreamReply
                  \<lparr>dp_ok = True, dp_triggered = False, dp_result = None, dp_reason = ''dream thresholds not met'',
                   dp_count = do_count dd (sv_dream sv), dp_enabled = True\<rparr>)))"
proof (cases "serve_parts_of env lcfg")
  case (Inr np)
  obtain notice parts where np: "np = (notice, parts)" by (cases np)
  define cfg where "cfg = launched_server_cfg env parts ops health marshal body envs"
  obtain cfg1 sv0 where start: "launched_server env parts ops health marshal body envs b net = (cfg1, sv0)"
    by (cases "launched_server env parts ops health marshal body envs b net")
  have "rel_vcfg (=) (eq_onp inactive) cfg cfg"
    by (cases "sp_daemon parts") (simp_all add: cfg_def launched_server_cfg_def rel_vcfg_def ip.ops_alike
        served_dream_inactive rel_fun_def rel_prod_sel)
  from ip.new_server_served_alike(2) [OF this refl, where d = "served_daemon_of parts" and
      e = "served_daemon_of parts" and reg = "Some Metrics.new_registry" and a = b and m = net and t = "()" and
      rqs = rqs]
  have "inactive (sv_dream (snd (serve_all cfg1 rqs sv0)))"
    using parts_daemon_inactive [OF Inr [unfolded np]] start
    by (simp add: launched_server_def cfg_def eq_onp_def)
  from inactive_not_due [OF this, of ops envs] show ?thesis
    unfolding Inr np sum.case prod.case start Let_def
    by (cases "sv_dream (snd (serve_all cfg1 rqs sv0))")
      (simp add: dream_if_due_def split_def served_dream_def)
qed simp

end
