(* ===== verification/DemoCli.thy ===== *)
theory DemoCli
  imports GoFlag Compactor GoJson
begin

text \<open>
  \<open>cmd/demo-cli/main.go\<close>: the interactive client of the server. Standard input is a text and the error
  its reader ends with; the loop recurses over its lines and accumulates what is written to the two
  outputs. Parameters: \<open>net/http\<close> on a state of the network, the decoding of replies, the order in which
  a map is visited, and \<open>strconv\<close>'s floats and durations, which no flag here uses. Command names and
  arguments are lowered as \<open>strings.ToLower\<close> does it on ASCII.
\<close>

subsection \<open>Configuration\<close>

definition modeTurn :: string where "modeTurn = ''turn''"
definition modeAgent :: string where "modeAgent = ''agent''"
definition cli_release_version :: string where "cli_release_version = ''0.2.4''"

record cli_config =
  ck_addr :: string
  ck_session :: string
  ck_branch :: string
  ck_json :: bool
  ck_mode :: string

fun cli_defaults :: flag_values where
  "cli_defaults name =
     (if name = ''addr'' then FStr ''http://127.0.0.1:8080''
      else if name = ''branch-id'' then FStr ''main''
      else if name = ''json'' then FBool False
      else if name = ''mode'' then FStr modeTurn else FStr [])"

definition cli_flags :: "(string \<times> flag_kind) list" where
  "cli_flags = [(''addr'', KStr), (''session-id'', KStr), (''branch-id'', KStr), (''json'', KBool), (''mode'', KStr)]"

fun str_flag :: "flag_value \<Rightarrow> string" where "str_flag (FStr s) = s" | "str_flag _ = []"

text \<open>\<open>strings.TrimRight(s, "/")\<close>.\<close>

definition trim_right_slashes :: "string \<Rightarrow> string" where
  "trim_right_slashes s = rev (dropWhile (\<lambda>c. c = CHR ''/'') (rev s))"

definition cli_parse_flags :: "flag_env \<Rightarrow> string list \<Rightarrow> cli_config result" where
  "cli_parse_flags env args =
     (case flag_parse env cli_flags args cli_defaults of
        Inl e \<Rightarrow> Inl e
      | Inr (vals, rest) \<Rightarrow>
        let addr = trim_right_slashes (trim_space (str_flag (vals ''addr'')));
            mode = to_lower (trim_space (str_flag (vals ''mode'')))
        in if mode \<noteq> modeTurn \<and> mode \<noteq> modeAgent then Inl (Adhoc ''mode must be turn or agent'')
           else if addr = [] then Inl (Adhoc ''addr is required'')
           else Inr \<lparr>ck_addr = addr, ck_session = trim_space (str_flag (vals ''session-id'')),
                  ck_branch = trim_space (str_flag (vals ''branch-id'')),
                  ck_json = (vals ''json'' = FBool True), ck_mode = mode\<rparr>)"

subsection \<open>Lines\<close>

record parsed_line =
  pl_kind :: string
  pl_arg :: string

definition parse_line :: "string \<Rightarrow> parsed_line" where
  "parse_line line0 =
     (let line = trim_space line0 in
      if line = [] then \<lparr>pl_kind = ''text'', pl_arg = []\<rparr>
      else if hd line \<noteq> CHR '':'' then \<lparr>pl_kind = ''text'', pl_arg = line\<rparr>
      else
        let cmd = trim_space (tl line); parts = str_fields cmd in
        if parts = [] then \<lparr>pl_kind = ''text'', pl_arg = []\<rparr>
        else
          let name = to_lower (hd parts);
              arg = (if 1 < length parts then trim_space (drop (length (hd parts)) cmd) else [])
          in if name \<in> {''q'', ''quit'', ''exit''} then \<lparr>pl_kind = ''quit'', pl_arg = []\<rparr>
             else if name \<in> {''help'', ''h'', ''?''} then \<lparr>pl_kind = ''help'', pl_arg = []\<rparr>
             else if name \<in> {''status'', ''replay'', ''manifest''} then \<lparr>pl_kind = name, pl_arg = []\<rparr>
             else if name \<in> {''mode'', ''json''} then \<lparr>pl_kind = name, pl_arg = to_lower arg\<rparr>
             else if name \<in> {''trace'', ''last''} then \<lparr>pl_kind = ''trace'', pl_arg = []\<rparr>
             else \<lparr>pl_kind = name, pl_arg = arg\<rparr>)"

text \<open>\<open>bufio.MaxScanTokenSize\<close>, the longest token of a scanner that has no buffer of its own.\<close>

definition max_token :: nat where "max_token = 64 * 1024"

subsection \<open>Requests\<close>

record cli_request =
  cq_method :: string
  cq_call :: http_call

record cli_selection =
  cx_pressure :: bool
  cx_in :: "(string \<times> int) list"
  cx_ex :: "(string \<times> int) list"

record cli_turn_reply =
  ct_session :: string
  ct_branch :: string
  ct_decision :: string
  ct_answer :: string

record cli_agent_reply =
  cg_session :: string
  cg_branch :: string
  cg_decision :: string
  cg_resolved :: bool
  cg_missing :: "string list"
  cg_fingerprint :: string
  cg_contract :: string
  cg_answer :: string
  cg_manifest :: "(int \<times> int \<times> cli_selection option) option"

record cli_consult =
  co_outcome :: string
  co_role :: string
  co_branch :: string
  co_fingerprint :: string
  co_leader :: string
  co_missing :: "string list"
  co_budget :: int
  co_actual :: int
  co_selection :: "cli_selection option"

record cli_replay_reply =
  cp_session :: string
  cp_branches :: "string list"
  cp_events :: int
  cp_consults :: "cli_consult list"

record cli_manifest =
  cm_session :: string
  cm_branch :: string
  cm_fingerprint :: string
  cm_mode :: string
  cm_scope :: string
  cm_refs :: "string list"
  cm_constraints :: "(string \<times> string) list"
  cm_items :: "(string \<times> string) list"
  cm_budget :: int
  cm_actual :: int
  cm_compacted :: bool
  cm_truncated :: bool
  cm_serializer :: string
  cm_task :: string
  cm_selection :: "(cli_selection \<times> (string \<times> string) list) option"

record 'n cli_env =
  cn_new_request :: "string \<Rightarrow> string \<Rightarrow> goerr option"
  cn_do :: "cli_request \<Rightarrow> 'n \<Rightarrow> http_answer result \<times> 'n"
  cn_error :: "string \<Rightarrow> (string \<times> string) option"
  cn_turn :: "string \<Rightarrow> cli_turn_reply option"
  cn_agent :: "string \<Rightarrow> cli_agent_reply option"
  cn_replay :: "string \<Rightarrow> cli_replay_reply option"
  cn_manifest :: "string \<Rightarrow> cli_manifest option option"

record 'n cli =
  cl_cfg :: cli_config
  cl_mode :: string
  cl_result :: string
  cl_manifest :: string
  cl_out :: string
  cl_err :: string
  cl_net :: 'n

definition say :: "string \<Rightarrow> 'n cli \<Rightarrow> 'n cli" where
  "say t c = c\<lparr>cl_out := cl_out c @ t\<rparr>"

definition complain :: "string \<Rightarrow> 'n cli \<Rightarrow> 'n cli" where
  "complain t c = c\<lparr>cl_err := cl_err c @ t\<rparr>"

definition failure_of :: "'n cli_env \<Rightarrow> int \<Rightarrow> string \<Rightarrow> goerr" where
  "failure_of env status raw =
     (case cn_error env raw of
        Some (code, msg) \<Rightarrow>
          if code \<noteq> [] then Adhoc (code @ '': '' @ msg)
          else Adhoc (''http '' @ int_str status @ '': '' @ trim_space raw)
      | None \<Rightarrow> Adhoc (''http '' @ int_str status @ '': '' @ trim_space raw))"

definition cli_do :: "'n cli_env \<Rightarrow> cli_request \<Rightarrow> 'n \<Rightarrow> string result \<times> 'n" where
  "cli_do env rq net =
     (case cn_new_request env (cq_method rq) (hc_url (cq_call rq)) of
        Some e \<Rightarrow> (Inl e, net)
      | None \<Rightarrow>
        let (answer, net1) = cn_do env rq net in
        (case answer of
           Inl e \<Rightarrow> (Inl e, net1)
         | Inr resp \<Rightarrow>
           (case ha_body resp of
              Inl e \<Rightarrow> (Inl e, net1)
            | Inr raw \<Rightarrow> (if 400 \<le> ha_status resp then Inl (failure_of env (ha_status resp) raw) else Inr raw, net1))))"

text \<open>\<open>json.Marshal\<close> sorts the keys of a map.\<close>

definition post_request :: "string \<Rightarrow> string \<Rightarrow> (string \<times> json) list \<Rightarrow> cli_request" where
  "post_request addr path body =
     \<lparr>cq_method = ''POST'', cq_call = \<lparr>hc_url = addr @ path,
        hc_headers = [(''Content-Type'', ''application/json'')], hc_body = json_print (JObject body)\<rparr>\<rparr>"

definition get_request :: "string \<Rightarrow> string \<Rightarrow> cli_request" where
  "get_request addr path = \<lparr>cq_method = ''GET'', cq_call = \<lparr>hc_url = addr @ path, hc_headers = [], hc_body = []\<rparr>\<rparr>"

definition build_turn_request :: "string \<Rightarrow> string \<Rightarrow> string \<Rightarrow> (string \<times> json) list" where
  "build_turn_request session branch text_in =
     [(''branch_id'', JString (trim_space branch)), (''session_id'', JString (trim_space session)),
      (''text'', JString (trim_space text_in))]"

definition build_agent_call_request :: "string \<Rightarrow> string \<Rightarrow> string \<Rightarrow> (string \<times> json) list" where
  "build_agent_call_request session branch task =
     [(''allow_tools'', JBool False), (''branch_id'', JString (trim_space branch)),
      (''session_id'', JString (trim_space session)), (''task'', JString (trim_space task))]"

definition build_fork_request :: "string \<Rightarrow> string \<Rightarrow> string \<Rightarrow> (string \<times> json) list" where
  "build_fork_request session branch child =
     [(''child_branch_id'', JString (trim_space child)), (''parent_branch_id'', JString branch),
      (''session_id'', JString session)]"

text \<open>The request of a command on the client's network.\<close>

definition cli_send :: "'n cli_env \<Rightarrow> cli_request \<Rightarrow> 'n cli \<Rightarrow> string result \<times> 'n cli" where
  "cli_send env rq c = (case cli_do env rq (cl_net c) of (r, net) \<Rightarrow> (r, c\<lparr>cl_net := net\<rparr>))"

definition post_json ::
  "'n cli_env \<Rightarrow> string \<Rightarrow> (string \<times> json) list \<Rightarrow> 'n cli \<Rightarrow> string result \<times> 'n cli" where
  "post_json env path body c = cli_send env (post_request (ck_addr (cl_cfg c)) path body) c"

definition cli_get :: "'n cli_env \<Rightarrow> string \<Rightarrow> 'n cli \<Rightarrow> string result \<times> 'n cli" where
  "cli_get env path c = cli_send env (get_request (ck_addr (cl_cfg c)) path) c"

subsection \<open>Printing\<close>

definition bool_str :: "bool \<Rightarrow> string" where
  "bool_str b = (if b then ''true'' else ''false'')"

definition short_fingerprint :: "string \<Rightarrow> string" where
  "short_fingerprint fp0 =
     (let fp = trim_space fp0 in if fp = [] then ''-'' else if 12 < length fp then take 12 fp else fp)"

definition dominant_part :: "string \<Rightarrow> (string \<times> int) list \<Rightarrow> string list" where
  "dominant_part label counts =
     (case counts of [] \<Rightarrow> [] | (reason, n) # _ \<Rightarrow> if reason \<noteq> [] then [label @ reason] else [])"

definition selection_parts :: "cli_selection \<Rightarrow> string list" where
  "selection_parts x =
     dominant_part ''in='' (cx_in x) @ dominant_part ''ex='' (cx_ex x) @ (if cx_pressure x then [''pressure=yes''] else [])"

definition selector_summary_from_selection :: "cli_selection option \<Rightarrow> string" where
  "selector_summary_from_selection sel =
     (case sel of
        None \<Rightarrow> []
      | Some x \<Rightarrow> if selection_parts x = [] then [] else '' selector['' @ str_join '' '' (selection_parts x) @ '']'')"

definition selector_summary_from_manifest :: "(int \<times> int \<times> cli_selection option) option \<Rightarrow> string" where
  "selector_summary_from_manifest m =
     (case m of None \<Rightarrow> [] | Some (actual, budget, sel) \<Rightarrow> selector_summary_from_selection sel)"

definition selector_summary_from_manifest_selection :: "cli_selection option \<Rightarrow> string" where
  "selector_summary_from_manifest_selection sel =
     (case sel of
        None \<Rightarrow> []
      | Some x \<Rightarrow> if selection_parts x = [] then [] else ''['' @ str_join '' '' (selection_parts x) @ '']'')"

definition help_text :: string where
  "help_text = str_join newline
     [''demo-cli commands:'',
      ''  :help                 show this help'',
      ''  :json on|off          toggle raw JSON output'',
      ''  :manifest             show last agent-call consult manifest'',
      ''  :trace, :last         show last agent-call raw JSON result'',
      ''  :agent <text>         send /v1/agent-call'',
      ''  :fork <name>          fork current branch'',
      ''  :replay               replay session events'',
      ''  :status               show current state'',
      ''  :mode <turn|agent>    switch default mode'',
      ''  :quit                 exit'',
      '''',
      ''flags:'',
      ''  --addr        harness server address (default http://127.0.0.1:8080)'',
      ''  --session-id  session id (default: generated)'',
      ''  --branch-id   branch id (default: main)'',
      ''  --mode        default mode: turn|agent (default: turn)'',
      ''  --json        start with JSON output enabled'',
      []]"

definition cli_usage :: string where
  "cli_usage = str_join newline
     [''demo-cli 0.2.4'',
      '''',
      ''Thin demo shell over the pancakes-harness HTTP API.'',
      ''It does not add runtime logic or expand the kernel surface.'',
      '''',
      ''Usage:'',
      ''  demo-cli [flags]'',
      '''',
      ''Flags:'',
      ''  --addr string'',
      ''        harness server address (default http://127.0.0.1:8080)'',
      ''  --session-id string'',
      ''        existing session id; if empty a new demo id is generated'',
      ''  --branch-id string'',
      ''        active branch id (default main)'',
      ''  --mode string'',
      ''        default input mode: turn|agent (default turn)'',
      ''  --json'',
      ''        print raw response JSON'',
      '''',
      ''Commands:'',
      ''  plain text'',
      ''        sends /v1/turn or /v1/agent-call based on current mode'',
      ''  :help'',
      ''        show command help'',
      ''  :json on|off'',
      ''        toggle raw JSON output'',
      ''  :manifest'',
      ''        show last agent-call consult manifest'',
      ''  :trace, :last'',
      ''        show last agent-call raw JSON result'',
      ''  :agent <text>'',
      ''        sends /v1/agent-call'',
      ''  :fork <name>'',
      ''        sends /v1/branch/fork and switches active branch'',
      ''  :replay'',
      ''        fetches /v1/session/{session_id}/replay'',
      ''  :status'',
      ''        prints current client state'',
      ''  :mode <turn|agent>'',
      ''        switches default mode'',
      ''  :quit'',
      ''        exits the REPL'',
      '''',
      ''Examples:'',
      ''  demo-cli --addr http://127.0.0.1:8080 --session-id demo --branch-id main'',
      ''  demo-cli --addr http://127.0.0.1:8080 --session-id demo --branch-id main --mode agent'',
      ''  demo-cli --version'',
      []]"

subsection \<open>Commands\<close>

text \<open>What every handler does with a reply: print it raw in JSON mode, or when it does not decode.\<close>

definition print_reply :: "string \<Rightarrow> string option \<Rightarrow> 'n cli \<Rightarrow> 'n cli" where
  "print_reply raw shown c =
     say (if ck_json (cl_cfg c) then raw @ newline
          else case shown of None \<Rightarrow> raw @ newline | Some t \<Rightarrow> t) c"

definition show_turn :: "cli_turn_reply \<Rightarrow> string" where
  "show_turn r = ''['' @ ct_session r @ ''/'' @ ct_branch r @ ''] '' @ ct_answer r @ newline"

definition cli_handle_turn :: "'n cli_env \<Rightarrow> string \<Rightarrow> 'n cli \<Rightarrow> goerr option \<times> 'n cli" where
  "cli_handle_turn env text_in c =
     (case post_json env ''/v1/turn'' (build_turn_request (ck_session (cl_cfg c)) (ck_branch (cl_cfg c)) text_in) c of
        (Inl e, c1) \<Rightarrow> (Some e, c1)
      | (Inr raw, c1) \<Rightarrow> (None, print_reply raw (map_option show_turn (cn_turn env raw)) c1))"

definition bytes_summary :: "(int \<times> int \<times> cli_selection option) option \<Rightarrow> string" where
  "bytes_summary m =
     (case m of
        None \<Rightarrow> ''-''
      | Some (actual, budget, sel) \<Rightarrow> int_str actual @ ''/'' @ (if 0 < budget then int_str budget else ''-''))"

definition show_agent :: "cli_agent_reply \<Rightarrow> string" where
  "show_agent r =
     (let place = ''['' @ cg_session r @ ''/'' @ cg_branch r @ ''] agent '';
          contract = (if cg_contract r = [] then ''agent_call.v1'' else cg_contract r);
          common = '' fp='' @ short_fingerprint (cg_fingerprint r) @ '' contract='' @ contract
                   @ '' consult='' @ (if cg_manifest r = None then ''no'' else ''yes'');
          missing = str_join '','' (cg_missing r);
          selector = selector_summary_from_manifest (cg_manifest r)
      in if \<not> cg_resolved r
         then place @ ''unresolved'' @ common @ '' missing='' @ (if missing = [] then ''-'' else missing) @ selector @ newline
         else place @ ''resolved'' @ common @ '' bytes='' @ bytes_summary (cg_manifest r) @ selector
              @ '' answer='' @ cg_answer r @ newline)"

text \<open>The reply is remembered as the last result, and as the last manifest if it was shown and has one.\<close>

definition remember_manifest :: "'n cli_env \<Rightarrow> string \<Rightarrow> 'n cli \<Rightarrow> 'n cli" where
  "remember_manifest env raw c =
     (if ck_json (cl_cfg c) then c
      else case cn_agent env raw of
        None \<Rightarrow> c
      | Some r \<Rightarrow> if cg_manifest r = None then c else c\<lparr>cl_manifest := raw\<rparr>)"

definition cli_handle_agent :: "'n cli_env \<Rightarrow> string \<Rightarrow> 'n cli \<Rightarrow> goerr option \<times> 'n cli" where
  "cli_handle_agent env task c =
     (case post_json env ''/v1/agent-call'' (build_agent_call_request (ck_session (cl_cfg c)) (ck_branch (cl_cfg c)) task) c of
        (Inl e, c1) \<Rightarrow> (Some e, c1)
      | (Inr raw, c1) \<Rightarrow>
          (None, print_reply raw (map_option show_agent (cn_agent env raw)) (remember_manifest env raw (c1\<lparr>cl_result := raw\<rparr>))))"

definition cli_handle_fork :: "'n cli_env \<Rightarrow> string \<Rightarrow> 'n cli \<Rightarrow> goerr option \<times> 'n cli" where
  "cli_handle_fork env child c =
     (case post_json env ''/v1/branch/fork'' (build_fork_request (ck_session (cl_cfg c)) (ck_branch (cl_cfg c)) child) c of
        (Inl e, c1) \<Rightarrow> (Some e, c1)
      | (Inr raw, c1) \<Rightarrow>
        (let c2 = print_reply raw (Some (''forked '' @ ck_branch (cl_cfg c) @ '' -> '' @ trim_space child @ newline)) c1
         in (None, c2\<lparr>cl_cfg := (cl_cfg c2)\<lparr>ck_branch := trim_space child\<rparr>\<rparr>)))"

definition show_consult :: "cli_consult \<Rightarrow> string" where
  "show_consult x =
     (let line = ''consult '' @ co_outcome x @ '' role='' @ co_role x @ '' branch='' @ co_branch x
            @ '' fp='' @ short_fingerprint (co_fingerprint x)
      in if co_missing x \<noteq> [] then line @ '' missing='' @ str_join '','' (co_missing x) @ newline
         else line
           @ (if 0 < co_budget x \<or> 0 < co_actual x
              then '' bytes='' @ int_str (co_actual x) @ ''/'' @ int_str (co_budget x) else [])
           @ (if co_leader x \<noteq> [] then '' leader='' @ co_leader x else [])
           @ selector_summary_from_selection (co_selection x) @ newline)"

definition show_replay :: "cli_replay_reply \<Rightarrow> string" where
  "show_replay r =
     ''replay session='' @ cp_session r @ '' events='' @ int_str (cp_events r)
     @ '' branches='' @ str_join '','' (sort_strings (cp_branches r))
     @ '' consults='' @ nat_str (length (cp_consults r)) @ newline @ concat (map show_consult (cp_consults r))"

definition replay_path :: "string \<Rightarrow> string" where
  "replay_path session = ''/v1/session/'' @ session @ ''/replay''"

definition cli_handle_replay :: "'n cli_env \<Rightarrow> 'n cli \<Rightarrow> goerr option \<times> 'n cli" where
  "cli_handle_replay env c =
     (case cli_get env (replay_path (ck_session (cl_cfg c))) c of
        (Inl e, c1) \<Rightarrow> (Some e, c1)
      | (Inr raw, c1) \<Rightarrow> (None, print_reply raw (map_option show_replay (cn_replay env raw)) c1))"

definition show_manifest :: "cli_manifest \<Rightarrow> string" where
  "show_manifest m =
     ''manifest:'' @ newline
     @ ''  session='' @ cm_session m @ '' branch='' @ cm_branch m @ '' mode='' @ cm_mode m @ '' scope='' @ cm_scope m @ newline
     @ ''  fingerprint='' @ cm_fingerprint m @ newline @ ''  task='' @ cm_task m @ newline
     @ ''  refs='' @ str_join '', '' (cm_refs m) @ newline
     @ ''  items='' @ nat_str (length (cm_items m)) @ '' budget='' @ int_str (cm_budget m) @ '' actual='' @ int_str (cm_actual m)
     @ '' compacted='' @ bool_str (cm_compacted m) @ '' truncated='' @ bool_str (cm_truncated m) @ newline
     @ ''  serializer='' @ cm_serializer m @ newline
     @ concat (map (\<lambda>(i, reason). if reason = [] then [] else ''  selected '' @ i @ ''='' @ reason @ newline) (cm_items m))
     @ (case cm_selection m of
          None \<Rightarrow> []
        | Some (sel, excluded) \<Rightarrow>
            ''  selector'' @ selector_summary_from_manifest_selection (Some sel) @ newline
            @ concat (map (\<lambda>(i, reason). ''  excluded '' @ i @ ''='' @ reason @ newline) excluded))
     @ (if cm_constraints m = [] then []
        else ''  constraints:'' @ newline
          @ concat (map (\<lambda>(k, v). ''    '' @ k @ ''='' @ v @ newline) (cm_constraints m)))"

definition cli_handle_manifest :: "'n cli_env \<Rightarrow> 'n cli \<Rightarrow> 'n cli" where
  "cli_handle_manifest env c =
     (if cl_manifest c = [] then complain (''no manifest available; run an agent-call first'' @ newline) c
      else if ck_json (cl_cfg c) then say (cl_manifest c @ newline) c
      else case cn_manifest env (cl_manifest c) of
        None \<Rightarrow> say (cl_manifest c @ newline) c
      | Some None \<Rightarrow> complain (''no manifest in last result'' @ newline) c
      | Some (Some m) \<Rightarrow> say (show_manifest m) c)"

definition cli_handle_trace :: "'n cli \<Rightarrow> 'n cli" where
  "cli_handle_trace c =
     (if cl_result c = [] then complain (''no trace available; run an agent-call first'' @ newline) c
      else say (cl_result c @ newline) c)"

definition report :: "string \<Rightarrow> goerr option \<times> 'n cli \<Rightarrow> 'n cli" where
  "report what r =
     (case r of (None, c) \<Rightarrow> c | (Some e, c) \<Rightarrow> complain (what @ '' failed: '' @ err_msg e @ newline) c)"

definition show_status :: "'n cli \<Rightarrow> string" where
  "show_status c =
     ''session='' @ ck_session (cl_cfg c) @ '' branch='' @ ck_branch (cl_cfg c) @ '' mode='' @ cl_mode c
     @ '' json='' @ bool_str (ck_json (cl_cfg c)) @ '' addr='' @ ck_addr (cl_cfg c) @ newline"

definition set_json :: "bool \<Rightarrow> 'n cli \<Rightarrow> 'n cli" where
  "set_json b c = c\<lparr>cl_cfg := (cl_cfg c)\<lparr>ck_json := b\<rparr>\<rparr>"

text \<open>The \<open>switch\<close> of the loop, but for \<open>quit\<close>.\<close>

definition cli_command :: "'n cli_env \<Rightarrow> parsed_line \<Rightarrow> 'n cli \<Rightarrow> 'n cli" where
  "cli_command env pl c =
     (let kind = pl_kind pl; arg = pl_arg pl in
      if kind = ''help'' then say help_text c
      else if kind = ''json'' then
        (if arg = ''on'' then say (''json=on'' @ newline) (set_json True c)
         else if arg = ''off'' then say (''json=off'' @ newline) (set_json False c)
         else complain (''usage: :json on|off'' @ newline) c)
      else if kind = ''manifest'' then cli_handle_manifest env c
      else if kind = ''trace'' then cli_handle_trace c
      else if kind = ''status'' then say (show_status c) c
      else if kind = ''mode'' then
        (if arg \<noteq> modeTurn \<and> arg \<noteq> modeAgent then complain (''mode must be turn or agent'' @ newline) c
         else say (''mode='' @ arg @ newline) (c\<lparr>cl_mode := arg\<rparr>))
      else if kind = ''fork'' then
        (if arg = [] then complain (''usage: :fork <name>'' @ newline) c
         else report ''fork'' (cli_handle_fork env arg c))
      else if kind = ''replay'' then report ''replay'' (cli_handle_replay env c)
      else if kind = ''agent'' then
        (if arg = [] then complain (''usage: :agent <text>'' @ newline) c
         else report ''agent-call'' (cli_handle_agent env arg c))
      else if kind = ''text'' then
        (if cl_mode c = modeAgent then report ''agent-call'' (cli_handle_agent env arg c)
         else report ''turn'' (cli_handle_turn env arg c))
      else complain (''unknown command: '' @ kind @ newline) c)"

definition cli_banner :: "'n cli \<Rightarrow> string" where
  "cli_banner c =
     ''demo-cli session='' @ ck_session (cl_cfg c) @ '' branch='' @ ck_branch (cl_cfg c) @ '' mode='' @ cl_mode c
     @ '' addr='' @ ck_addr (cl_cfg c) @ newline
     @ ''commands: :help  :json on|off  :manifest  :trace  :agent <text>  :fork <name>  :replay  :status  :mode <turn|agent>  :quit''
     @ newline"

text \<open>The loop over the lines; at their end \<open>fault\<close> is the error of the scanner. The result is the exit code.\<close>

fun cli_loop :: "'n cli_env \<Rightarrow> goerr option \<Rightarrow> string list \<Rightarrow> 'n cli \<Rightarrow> int \<times> 'n cli" where
  "cli_loop env fault [] c =
     (case fault of
        None \<Rightarrow> (0, say ''> '' c)
      | Some e \<Rightarrow> (1, complain (''read error: '' @ err_msg e @ newline) (say ''> '' c)))"
| "cli_loop env fault (l # ls) c =
     (let c1 = say ''> '' c; line = trim_space l in
      if line = [] then cli_loop env fault ls c1
      else if pl_kind (parse_line line) = ''quit'' then (0, c1)
      else cli_loop env fault ls (cli_command env (parse_line line) c1))"

definition cli_repl :: "'n cli_env \<Rightarrow> string \<Rightarrow> goerr option \<Rightarrow> 'n cli \<Rightarrow> int \<times> 'n cli" where
  "cli_repl env input fault c =
     (let (ls, long) = scan_lines max_token (split_on (CHR 0x0A) input)
      in cli_loop env (if long then Some ErrTooLong else fault) ls (say (cli_banner c) c))"

definition cli_should_show_help :: "string list \<Rightarrow> bool" where
  "cli_should_show_help args = list_ex (\<lambda>a. trim_space a \<in> {''-h'', ''--help'', ''help''}) args"

definition cli_should_show_version :: "string list \<Rightarrow> bool" where
  "cli_should_show_version args = list_ex (\<lambda>a. trim_space a \<in> {''-version'', ''--version'', ''version''}) args"

definition start_cli :: "cli_config \<Rightarrow> 'n \<Rightarrow> 'n cli" where
  "start_cli cfg net =
     \<lparr>cl_cfg = cfg, cl_mode = ck_mode cfg, cl_result = [], cl_manifest = [], cl_out = [], cl_err = [], cl_net = net\<rparr>"

text \<open>Exit code, the two outputs and the network that is left.\<close>

definition run_cli ::
  "flag_env \<Rightarrow> 'n cli_env \<Rightarrow> int \<Rightarrow> string list \<Rightarrow> string \<Rightarrow> goerr option \<Rightarrow> 'n \<Rightarrow> (int \<times> string \<times> string) \<times> 'n" where
  "run_cli fenv env nanos args input fault net =
     (if cli_should_show_version args then ((0, ''demo-cli '' @ cli_release_version @ newline, []), net)
      else if cli_should_show_help args then ((0, cli_usage, []), net)
      else case cli_parse_flags fenv args of
        Inl e \<Rightarrow> ((2, [], ''config error: '' @ err_msg e @ newline), net)
      | Inr cfg0 \<Rightarrow>
        let cfg = (if ck_session cfg0 = [] then cfg0\<lparr>ck_session := ''demo-'' @ int_str nanos\<rparr> else cfg0);
            (code, c) = cli_repl env input fault (start_cli cfg net)
        in ((code, cl_out c, cl_err c), cl_net c))"

subsection \<open>What the client does to the server\<close>

text \<open>
  The client as an abstract machine on the branch, the mode and the network: which request a command
  stands for, and what its reply changes.
\<close>

definition line_request :: "string \<Rightarrow> string \<Rightarrow> string \<Rightarrow> string \<Rightarrow> parsed_line \<Rightarrow> cli_request option" where
  "line_request addr session branch mode pl =
     (if pl_kind pl = ''fork'' \<and> pl_arg pl \<noteq> []
      then Some (post_request addr ''/v1/branch/fork'' (build_fork_request session branch (pl_arg pl)))
      else if pl_kind pl = ''replay'' then Some (get_request addr (replay_path session))
      else if pl_kind pl = ''agent'' \<and> pl_arg pl \<noteq> [] \<or> pl_kind pl = ''text'' \<and> mode = modeAgent
      then Some (post_request addr ''/v1/agent-call'' (build_agent_call_request session branch (pl_arg pl)))
      else if pl_kind pl = ''text''
      then Some (post_request addr ''/v1/turn'' (build_turn_request session branch (pl_arg pl)))
      else None)"

definition plan_step ::
  "'n cli_env \<Rightarrow> string \<Rightarrow> string \<Rightarrow> parsed_line \<Rightarrow> string \<times> string \<times> 'n \<Rightarrow> string \<times> string \<times> 'n" where
  "plan_step env addr session pl st =
     (case st of (branch, mode, net) \<Rightarrow>
        (case line_request addr session branch mode pl of
           None \<Rightarrow>
             (branch, if pl_kind pl = ''mode'' \<and> pl_arg pl \<in> {modeTurn, modeAgent} then pl_arg pl else mode, net)
         | Some rq \<Rightarrow>
             (case cli_do env rq net of (r, net1) \<Rightarrow>
                (if pl_kind pl = ''fork'' \<and> is_ok r then trim_space (pl_arg pl) else branch, mode, net1))))"

definition commands_of :: "string list \<Rightarrow> parsed_line list" where
  "commands_of ls =
     takeWhile (\<lambda>pl. pl_kind pl \<noteq> ''quit'') (map (\<lambda>l. parse_line (trim_space l)) (filter (\<lambda>l. trim_space l \<noteq> []) ls))"

definition cli_plan :: "'n cli \<Rightarrow> string \<times> string \<times> 'n" where
  "cli_plan c = (ck_branch (cl_cfg c), cl_mode c, cl_net c)"

definition same_target :: "'n cli \<Rightarrow> 'n cli \<Rightarrow> bool" where
  "same_target c c' \<longleftrightarrow>
     ck_addr (cl_cfg c') = ck_addr (cl_cfg c) \<and> ck_session (cl_cfg c') = ck_session (cl_cfg c)"

lemma cli_output_simps [simp]:
  "cl_cfg (say t c) = cl_cfg c" "cl_mode (say t c) = cl_mode c" "cl_net (say t c) = cl_net c"
  "cl_cfg (complain t c) = cl_cfg c" "cl_mode (complain t c) = cl_mode c" "cl_net (complain t c) = cl_net c"
  "cl_cfg (print_reply raw x c) = cl_cfg c" "cl_mode (print_reply raw x c) = cl_mode c"
  "cl_net (print_reply raw x c) = cl_net c"
  "cl_cfg (remember_manifest env raw c) = cl_cfg c" "cl_mode (remember_manifest env raw c) = cl_mode c"
  "cl_net (remember_manifest env raw c) = cl_net c"
  by (simp_all add: say_def complain_def print_reply_def remember_manifest_def split: option.split)

lemma report_simps [simp]:
  "cl_cfg (report w r) = cl_cfg (snd r)" "cl_mode (report w r) = cl_mode (snd r)" "cl_net (report w r) = cl_net (snd r)"
  by (simp_all add: report_def split: prod.split option.split)

lemma printing_handlers [simp]:
  "cl_cfg (cli_handle_manifest env c) = cl_cfg c" "cl_mode (cli_handle_manifest env c) = cl_mode c"
  "cl_net (cli_handle_manifest env c) = cl_net c" "cl_cfg (cli_handle_trace c) = cl_cfg c"
  "cl_mode (cli_handle_trace c) = cl_mode c" "cl_net (cli_handle_trace c) = cl_net c"
  by (simp_all add: cli_handle_manifest_def cli_handle_trace_def split: option.split)

text \<open>A handler that sends a request and changes nothing else the machine sees.\<close>

definition sends_only :: "'n cli_env \<Rightarrow> cli_request \<Rightarrow> 'n cli \<Rightarrow> 'n cli \<Rightarrow> bool" where
  "sends_only env rq c c' \<longleftrightarrow>
     cl_cfg c' = cl_cfg c \<and> cl_mode c' = cl_mode c \<and> cl_net c' = snd (cli_do env rq (cl_net c))"

lemma turn_sends_only:
  "sends_only env (post_request (ck_addr (cl_cfg c)) ''/v1/turn''
      (build_turn_request (ck_session (cl_cfg c)) (ck_branch (cl_cfg c)) t)) c (snd (cli_handle_turn env t c))"
  by (auto simp: sends_only_def cli_handle_turn_def post_json_def cli_send_def split: prod.splits sum.splits)

lemma agent_sends_only:
  "sends_only env (post_request (ck_addr (cl_cfg c)) ''/v1/agent-call''
      (build_agent_call_request (ck_session (cl_cfg c)) (ck_branch (cl_cfg c)) t)) c (snd (cli_handle_agent env t c))"
  by (auto simp: sends_only_def cli_handle_agent_def post_json_def cli_send_def split: prod.splits sum.splits)

lemma replay_sends_only:
  "sends_only env (get_request (ck_addr (cl_cfg c)) (replay_path (ck_session (cl_cfg c)))) c (snd (cli_handle_replay env c))"
  by (auto simp: sends_only_def cli_handle_replay_def cli_get_def cli_send_def split: prod.splits sum.splits)

lemma fork_sends:
  "case cli_do env (post_request (ck_addr (cl_cfg c)) ''/v1/branch/fork''
        (build_fork_request (ck_session (cl_cfg c)) (ck_branch (cl_cfg c)) child)) (cl_net c) of
     (r, net1) \<Rightarrow> cl_net (snd (cli_handle_fork env child c)) = net1 \<and> cl_mode (snd (cli_handle_fork env child c)) = cl_mode c
       \<and> cl_cfg (snd (cli_handle_fork env child c)) =
           (if is_ok r then (cl_cfg c)\<lparr>ck_branch := trim_space child\<rparr> else cl_cfg c)"
  by (auto simp: cli_handle_fork_def post_json_def cli_send_def Let_def split: prod.splits sum.splits)

lemma sends_only_plan:
  assumes "sends_only env rq c (snd r)"
    and "line_request (ck_addr (cl_cfg c)) (ck_session (cl_cfg c)) (ck_branch (cl_cfg c)) (cl_mode c) pl = Some rq"
    and "pl_kind pl \<noteq> ''fork''"
  shows "cli_plan (report what r) = plan_step env (ck_addr (cl_cfg c)) (ck_session (cl_cfg c)) pl (cli_plan c)
    \<and> same_target c (report what r)"
  using assms by (simp add: sends_only_def cli_plan_def same_target_def plan_step_def split: prod.split)

lemma command_follows_plan:
  "cli_plan (cli_command env pl c) =
     plan_step env (ck_addr (cl_cfg c)) (ck_session (cl_cfg c)) pl (cli_plan c)
   \<and> same_target c (cli_command env pl c)"
proof -
  consider (turn) "pl_kind pl = ''text''" "cl_mode c \<noteq> modeAgent"
    | (agent) "pl_kind pl = ''text'' \<and> cl_mode c = modeAgent \<or> pl_kind pl = ''agent'' \<and> pl_arg pl \<noteq> []"
    | (replay) "pl_kind pl = ''replay''" | (fork) "pl_kind pl = ''fork''" "pl_arg pl \<noteq> []"
    | (mode) "pl_kind pl = ''mode''"
    | (none) "pl_kind pl \<notin> {''text'', ''replay'', ''mode''}" "pl_kind pl \<in> {''agent'', ''fork''} \<Longrightarrow> pl_arg pl = []"
    by fastforce
  then show ?thesis
  proof cases
    case turn
    then have "cli_command env pl c = report ''turn'' (cli_handle_turn env (pl_arg pl) c)"
      by (simp add: cli_command_def)
    then show ?thesis using sends_only_plan [where c = c and pl = pl, OF turn_sends_only] turn by (simp add: line_request_def)
  next
    case agent
    then have "cli_command env pl c = report ''agent-call'' (cli_handle_agent env (pl_arg pl) c)"
      by (auto simp: cli_command_def)
    moreover have "pl_kind pl \<noteq> ''fork''" "line_request (ck_addr (cl_cfg c)) (ck_session (cl_cfg c)) (ck_branch (cl_cfg c)) (cl_mode c) pl =
        Some (post_request (ck_addr (cl_cfg c)) ''/v1/agent-call''
          (build_agent_call_request (ck_session (cl_cfg c)) (ck_branch (cl_cfg c)) (pl_arg pl)))"
      using agent by (auto simp: line_request_def)
    ultimately show ?thesis using sends_only_plan [where c = c and pl = pl, OF agent_sends_only] by simp
  next
    case replay
    then have "cli_command env pl c = report ''replay'' (cli_handle_replay env c)"
      by (simp add: cli_command_def)
    then show ?thesis using sends_only_plan [where c = c and pl = pl, OF replay_sends_only] replay by (simp add: line_request_def)
  next
    case fork
    then have "cli_command env pl c = report ''fork'' (cli_handle_fork env (pl_arg pl) c)"
      by (simp add: cli_command_def)
    then show ?thesis using fork_sends [where env = env and c = c and child = "pl_arg pl"] fork
      by (auto simp: cli_plan_def plan_step_def same_target_def line_request_def split: prod.splits)
  next
    case mode
    then show ?thesis
      by (auto simp: cli_command_def cli_plan_def plan_step_def same_target_def line_request_def say_def)
  next
    case none
    then show ?thesis
      by (auto simp: cli_command_def cli_plan_def plan_step_def same_target_def line_request_def set_json_def Let_def)
  qed
qed

lemma commands_of_Cons:
  "commands_of (l # ls) =
     (if trim_space l = [] then commands_of ls
      else if pl_kind (parse_line (trim_space l)) = ''quit'' then []
      else parse_line (trim_space l) # commands_of ls)"
  by (simp add: commands_of_def)

lemma loop_follows_plan:
  "cli_loop env fault ls c = (code, c') \<Longrightarrow>
     cli_plan c' = fold (plan_step env (ck_addr (cl_cfg c)) (ck_session (cl_cfg c))) (commands_of ls) (cli_plan c)
     \<and> same_target c c'"
proof (induction env fault ls c arbitrary: code c' rule: cli_loop.induct)
  case (1 env fault c)
  then show ?case by (auto simp: commands_of_def cli_plan_def same_target_def split: option.splits)
next
  case (2 env fault l ls c)
  let ?c1 = "say ''> '' c" and ?pl = "parse_line (trim_space l)"
  have same: "cli_plan ?c1 = cli_plan c" "cl_cfg ?c1 = cl_cfg c" by (simp_all add: cli_plan_def)
  show ?case
  proof (cases "trim_space l = []")
    case True
    with "2.prems" have "cli_loop env fault ls ?c1 = (code, c')" by (simp add: Let_def)
    from "2.IH"(1) [OF refl refl True this] True same show ?thesis by (simp add: commands_of_Cons same_target_def)
  next
    case nonblank: False
    show ?thesis
    proof (cases "pl_kind ?pl = ''quit''")
      case True
      with "2.prems" nonblank same show ?thesis by (auto simp: commands_of_Cons same_target_def Let_def)
    next
      case False
      with "2.prems" nonblank have run: "cli_loop env fault ls (cli_command env ?pl ?c1) = (code, c')"
        by (simp add: Let_def)
      from "2.IH"(2) [OF refl refl nonblank False run] command_follows_plan [of env ?pl ?c1] same nonblank False
      show ?thesis by (auto simp: commands_of_Cons same_target_def)
    qed
  qed
qed

text \<open>
  C40. Whatever is typed and however the server answers, the requests the client sends, the branch and the
  mode are those of the abstract machine run over the commands before the first quit: each command
  sends at most one request, a text goes to the endpoint of the mode, the branch changes only to the
  child of a fork that was accepted, and session and server never change.
\<close>

theorem client_follows_plan:
  assumes "cli_repl env input fault (start_cli cfg net) = (code, c)"
  shows "cli_plan c =
      fold (plan_step env (ck_addr cfg) (ck_session cfg))
        (commands_of (fst (scan_lines max_token (split_on (CHR 0x0A) input)))) (ck_branch cfg, ck_mode cfg, net)
    \<and> ck_addr (cl_cfg c) = ck_addr cfg \<and> ck_session (cl_cfg c) = ck_session cfg"
proof -
  obtain ls long where scan: "scan_lines max_token (split_on (CHR 0x0A) input) = (ls, long)" by fastforce
  let ?c = "say (cli_banner (start_cli cfg net)) (start_cli cfg net)"
  have "cli_loop env (if long then Some ErrTooLong else fault) ls ?c = (code, c)"
    using assms by (simp add: cli_repl_def scan Let_def)
  from loop_follows_plan [OF this] show ?thesis
    by (simp add: scan cli_plan_def start_cli_def same_target_def)
qed

text \<open>A network that accepts every request and remembers it.\<close>

definition recording_env :: "cli_request list cli_env" where
  "recording_env = \<lparr>cn_new_request = (\<lambda>m u. None),
     cn_do = (\<lambda>rq sent. (Inr \<lparr>ha_status = 200, ha_body = Inr ''{}''\<rparr>, sent @ [rq])), cn_error = (\<lambda>_. None),
     cn_turn = (\<lambda>_. None), cn_agent = (\<lambda>_. None), cn_replay = (\<lambda>_. None), cn_manifest = (\<lambda>_. None)\<rparr>"

definition sample_cli_config :: cli_config where
  "sample_cli_config = \<lparr>ck_addr = ''http://h'', ck_session = ''s'', ck_branch = ''main'', ck_json = False, ck_mode = modeTurn\<rparr>"

definition sample_input :: string where
  "sample_input = ''hi'' @ newline @ '' :fork  alt'' @ newline @ '':mode agent'' @ newline @ ''go'' @ newline @ '':q'' @ newline @ ''rest''"

lemma sample_split:
  "split_on (CHR 0x0A) sample_input = [''hi'', '' :fork  alt'', '':mode agent'', ''go'', '':q'', ''rest'']"
  by code_simp

lemma sample_commands:
  "commands_of [''hi'', '' :fork  alt'', '':mode agent'', ''go'', '':q'', ''rest''] =
     [\<lparr>pl_kind = ''text'', pl_arg = ''hi''\<rparr>, \<lparr>pl_kind = ''fork'', pl_arg = ''alt''\<rparr>,
      \<lparr>pl_kind = ''mode'', pl_arg = ''agent''\<rparr>, \<lparr>pl_kind = ''text'', pl_arg = ''go''\<rparr>]"
  by code_simp

theorem client_follows_plan_witness:
  "case cli_repl recording_env sample_input None (start_cli sample_cli_config []) of
     (code, c) \<Rightarrow> cli_plan c = (''alt'', ''agent'',
       [post_request ''http://h'' ''/v1/turn'' (build_turn_request ''s'' ''main'' ''hi''),
        post_request ''http://h'' ''/v1/branch/fork'' (build_fork_request ''s'' ''main'' ''alt''),
        post_request ''http://h'' ''/v1/agent-call'' (build_agent_call_request ''s'' ''alt'' ''go'')])"
proof -
  obtain code c where run: "cli_repl recording_env sample_input None (start_cli sample_cli_config []) = (code, c)"
    by fastforce
  have commands: "commands_of (fst (scan_lines max_token (split_on (CHR 0x0A) sample_input))) =
      [\<lparr>pl_kind = ''text'', pl_arg = ''hi''\<rparr>, \<lparr>pl_kind = ''fork'', pl_arg = ''alt''\<rparr>,
       \<lparr>pl_kind = ''mode'', pl_arg = ''agent''\<rparr>, \<lparr>pl_kind = ''text'', pl_arg = ''go''\<rparr>]"
    using sample_commands by (simp add: sample_split max_token_def drop_cr_def)
  have "trim_space ''alt'' = ''alt''" by code_simp
  with client_follows_plan [OF run, unfolded commands] show ?thesis
    unfolding run by (simp add: plan_step_def line_request_def sample_cli_config_def recording_env_def cli_do_def
        modeTurn_def modeAgent_def)
qed

end
