(* ===== verification/Compliance.thy ===== *)
theory Compliance
  imports ConsultStore
begin

text \<open>
  \<open>internal/backend/compliance.go\<close>: the suite that every backend has to pass. A backend is a record of the
  operations the suite calls, a subtest a function from the backend that the factory makes to the messages it
  reports (the values formatted into a message are left out). \<open>t.Fatalf\<close> ends a subtest, \<open>t.Errorf\<close> lets
  it go on. The locale \<open>consult_backend\<close> is what a backend promises; every backend that keeps it passes, and
  both adapters do. The suite promises less than it looks: a backend that lists backwards passes too.
\<close>

subsection \<open>The interface\<close>

record 's backend_api =
  ba_save_manifest :: "ctx \<Rightarrow> manifest \<Rightarrow> 's \<Rightarrow> goerr option \<times> 's"
  ba_load_manifest :: "ctx \<Rightarrow> string \<Rightarrow> 's \<Rightarrow> manifest result"
  ba_list_manifests :: "ctx \<Rightarrow> int \<Rightarrow> int \<Rightarrow> 's \<Rightarrow> manifest list result option"
  ba_stream_manifests :: "ctx \<Rightarrow> 's \<Rightarrow> manifest list \<times> goerr option"
  ba_save_event :: "ctx \<Rightarrow> event_summary \<Rightarrow> 's \<Rightarrow> goerr option \<times> 's"
  ba_load_event :: "ctx \<Rightarrow> string \<Rightarrow> 's \<Rightarrow> event_summary result"
  ba_ping :: "ctx \<Rightarrow> 's \<Rightarrow> goerr option"
  ba_close :: "'s \<Rightarrow> goerr option \<times> 's"
  ba_health :: "ctx \<Rightarrow> 's \<Rightarrow> health_status \<times> 's"

definition expect :: "bool \<Rightarrow> string \<Rightarrow> string list" where
  "expect ok msg = (if ok then [] else [msg])"

text \<open>A panic in the code under test ends the subtest, too.\<close>

definition panicked :: "string list" where
  "panicked = [''panic'']"

subsection \<open>The subtests\<close>

definition suite_manifest :: "string \<Rightarrow> string \<Rightarrow> manifest" where
  "suite_manifest i fp = (bare_manifest i)\<lparr>mf_session := ''test-session'', mf_branch := ''main'',
     mf_fingerprint := fp, mf_mode := ''agent_call'', mf_budget := 14336, mf_version := SerializerVersionV1\<rparr>"

definition test_save_load_manifest :: "'s backend_api \<Rightarrow> 's \<Rightarrow> string list" where
  "test_save_load_manifest api b =
     (let m = (suite_manifest ''test-manifest-1'' ''fp-test-1'')\<lparr>mf_actual := 640, mf_task := ''test task''\<rparr> in
      case ba_save_manifest api None m b of
        (Some err, b1) \<Rightarrow> [''SaveManifest failed'']
      | (None, b1) \<Rightarrow>
        (case ba_load_manifest api None ''test-manifest-1'' b1 of
           Inl err \<Rightarrow> [''LoadManifest failed'']
         | Inr loaded \<Rightarrow>
             expect (mf_event_id loaded = mf_event_id m) ''EventID mismatch''
             @ expect (mf_fingerprint loaded = mf_fingerprint m) ''Fingerprint mismatch''
             @ expect (mf_version loaded = mf_version m) ''SerializerVersion mismatch''))"

definition suite_event :: event_summary where
  "suite_event =
     \<lparr>es_schema = EventSchemaVersionV1, es_fingerprint = ''test-event-1'', es_contract = [],
      es_serializer = SerializerVersionV1, es_outcome = OutcomeResolved, es_role = RoleLeader,
      es_leader_event = [], es_budget = 14336, es_actual = 640, es_task = ''test task'', es_missing = [],
      es_selection = None\<rparr>"

definition test_save_load_event :: "'s backend_api \<Rightarrow> 's \<Rightarrow> string list" where
  "test_save_load_event api b =
     (case ba_save_event api None suite_event b of
        (Some err, b1) \<Rightarrow> [''SaveEvent failed'']
      | (None, b1) \<Rightarrow>
        (case ba_load_event api None ''test-event-1'' b1 of
           Inl err \<Rightarrow> [''LoadEvent failed'']
         | Inr loaded \<Rightarrow>
             expect (es_fingerprint loaded = es_fingerprint suite_event) ''Fingerprint mismatch''
             @ expect (es_schema loaded = es_schema suite_event) ''SchemaVersion mismatch''))"

definition test_manifest_not_found :: "'s backend_api \<Rightarrow> 's \<Rightarrow> string list" where
  "test_manifest_not_found api b =
     (case ba_load_manifest api None ''nonexistent'' b of
        Inr m \<Rightarrow> [''expected error for nonexistent manifest, got nil'']
      | Inl err \<Rightarrow> expect (err = be_ErrNotFound) ''expected ErrNotFound'')"

definition test_event_not_found :: "'s backend_api \<Rightarrow> 's \<Rightarrow> string list" where
  "test_event_not_found api b =
     (case ba_load_event api None ''nonexistent'' b of
        Inr e \<Rightarrow> [''expected error for nonexistent event, got nil'']
      | Inl err \<Rightarrow> expect (err = be_ErrNotFound) ''expected ErrNotFound'')"

text \<open>The identifiers \<open>"list-test-" + string(rune('0'+i))\<close>, and the loop that saves a manifest for each.\<close>

definition suite_ids :: "string \<Rightarrow> nat \<Rightarrow> string list" where
  "suite_ids pre n = map (\<lambda>i. pre @ [digit_char i]) [0..<n]"

fun save_each :: "'s backend_api \<Rightarrow> string list \<Rightarrow> 's \<Rightarrow> goerr option \<times> 's" where
  "save_each api [] b = (None, b)"
| "save_each api (i # ids) b =
     (case ba_save_manifest api None (suite_manifest i (''fp-'' @ i)) b of
        (Some err, b1) \<Rightarrow> (Some err, b1)
      | (None, b1) \<Rightarrow> save_each api ids b1)"

text \<open>The loop over the second page: \<open>all\<close> are the identifiers seen, each known one is an overlap.\<close>

fun overlaps_from :: "string list \<Rightarrow> string list \<Rightarrow> string list" where
  "overlaps_from all [] = expect (length all = 10) ''expected 10 unique manifests across pages''"
| "overlaps_from all (i # ids) = expect (i \<notin> set all) ''overlap detected'' @ overlaps_from (List.insert i all) ids"

definition test_list_manifests :: "'s backend_api \<Rightarrow> 's \<Rightarrow> string list" where
  "test_list_manifests api b =
     (case save_each api (suite_ids ''list-test-'' 10) b of
        (Some err, b1) \<Rightarrow> [''SaveManifest failed'']
      | (None, b1) \<Rightarrow>
        (case ba_list_manifests api None 5 0 b1 of
           None \<Rightarrow> panicked
         | Some (Inl err) \<Rightarrow> [''ListManifests failed'']
         | Some (Inr first) \<Rightarrow>
             expect (length first = 5) ''expected 5 manifests''
             @ (case ba_list_manifests api None 5 5 b1 of
                  None \<Rightarrow> panicked
                | Some (Inl err) \<Rightarrow> [''ListManifests with offset failed'']
                | Some (Inr snd_page) \<Rightarrow>
                    expect (length snd_page = 5) ''expected 5 manifests with offset''
                    @ overlaps_from (remdups (map mf_event_id first)) (map mf_event_id snd_page))))"

definition test_stream_manifests :: "'s backend_api \<Rightarrow> 's \<Rightarrow> string list" where
  "test_stream_manifests api b =
     (let ids = suite_ids ''stream-test-'' 5 in
      case save_each api ids b of
        (Some err, b1) \<Rightarrow> [''SaveManifest failed'']
      | (None, b1) \<Rightarrow>
        (case ba_stream_manifests api None b1 of
           (ms, Some err) \<Rightarrow> [''StreamManifests returned error'']
         | (ms, None) \<Rightarrow>
             let received = remdups (map mf_event_id ms) in
             expect (length received = 5) ''expected 5 manifests from stream''
             @ concat (map (\<lambda>i. expect (i \<in> set received) ''missing manifest from stream'') ids)))"

definition test_cancellation :: "'s backend_api \<Rightarrow> 's \<Rightarrow> string list" where
  "test_cancellation api b =
     (let c = Some ctx_canceled; msg = ''expected context.Canceled'' in
      expect (ba_load_manifest api c ''test'' b = Inl ctx_canceled) msg
      @ expect (ba_load_event api c ''test'' b = Inl ctx_canceled) msg
      @ (case ba_list_manifests api c 10 0 b of
           None \<Rightarrow> panicked | Some r \<Rightarrow> expect (r = Inl ctx_canceled) msg))"

definition test_ping_close :: "'s backend_api \<Rightarrow> 's \<Rightarrow> string list" where
  "test_ping_close api b =
     expect (ba_ping api None b = None) ''Ping failed'' @ expect (fst (ba_close api b) = None) ''Close failed''"

definition test_health_check :: "'s backend_api \<Rightarrow> 's \<Rightarrow> string list" where
  "test_health_check api b =
     (let status = fst (ba_health api None b) in
      expect (hs_ok status \<or> hs_diagnostics status \<noteq> []) ''unhealthy status should have diagnostics'')"

text \<open>Every subtest works on a backend of its own.\<close>

definition compliance_suite :: "'s backend_api \<Rightarrow> 's \<Rightarrow> (string \<times> string list) list" where
  "compliance_suite api b =
     [(''SaveLoadManifestRoundTrip'', test_save_load_manifest api b),
      (''SaveLoadEventRoundTrip'', test_save_load_event api b),
      (''ManifestNotFound'', test_manifest_not_found api b),
      (''EventNotFound'', test_event_not_found api b),
      (''ListManifestsPagination'', test_list_manifests api b),
      (''StreamManifests'', test_stream_manifests api b),
      (''ContextCancellation'', test_cancellation api b),
      (''PingAndClose'', test_ping_close api b),
      (''HealthCheck'', test_health_check api b)]"

definition passes :: "'s backend_api \<Rightarrow> 's \<Rightarrow> bool" where
  "passes api b \<longleftrightarrow> list_all (\<lambda>(name, reported). reported = []) (compliance_suite api b)"

definition suite_manifests :: "manifest list" where
  "suite_manifests = (suite_manifest ''test-manifest-1'' ''fp-test-1'')\<lparr>mf_actual := 640, mf_task := ''test task''\<rparr>
     # map (\<lambda>i. suite_manifest i (''fp-'' @ i)) (suite_ids ''list-test-'' 10 @ suite_ids ''stream-test-'' 5)"

lemma length_suite_ids: "length (suite_ids pre n) = n"
  by (simp add: suite_ids_def)

lemma distinct_suite_ids: "n \<le> 10 \<Longrightarrow> distinct (suite_ids pre n)"
proof -
  assume n: "n \<le> 10"
  have "inj_on (\<lambda>i. pre @ [digit_char i]) {0..<n}"
  proof (rule inj_onI)
    fix i j
    assume "i \<in> {0..<n}" "j \<in> {0..<n}" "pre @ [digit_char i] = pre @ [digit_char j]"
    then have "i < 10" "j < 10" and "digit_char i = digit_char j" using n by simp_all
    then have "48 + i = 48 + j" by (metis of_char_digit_char)
    then show "i = j" by simp
  qed
  then show ?thesis by (simp add: suite_ids_def distinct_map)
qed

subsection \<open>What a backend promises\<close>

text \<open>
  \<open>saved\<close> and \<open>found\<close> are the manifests and the summaries of a state. The pages of a state are those of
  one enumeration of the saved manifests: sorted for both adapters, but nothing here or in the suite asks
  for that.
\<close>

locale consult_backend =
  fixes api :: "'s backend_api"
    and valid :: "'s \<Rightarrow> bool"
    and saved :: "'s \<Rightarrow> string \<Rightarrow> manifest option"
    and found :: "'s \<Rightarrow> string \<Rightarrow> event_summary option"
    and good :: "manifest \<Rightarrow> bool"
    and recordable :: "event_summary \<Rightarrow> bool"
  assumes save_manifest:
      "valid s \<Longrightarrow> good m \<Longrightarrow> \<exists>s'. ba_save_manifest api None m s = (None, s') \<and> valid s'
         \<and> saved s' = (saved s)(mf_event_id m \<mapsto> m)"
    and load_manifest: "valid s \<Longrightarrow>
         ba_load_manifest api None i s = (case saved s i of None \<Rightarrow> Inl be_ErrNotFound | Some m \<Rightarrow> Inr m)"
    and load_manifest_done: "ba_load_manifest api (Some err) i s = Inl err"
    and pages: "valid s \<Longrightarrow> \<exists>is. distinct is \<and> set is = dom (saved s)
         \<and> (\<forall>limit offset. ba_list_manifests api None limit offset s =
              map_option Inr (paginate (map (\<lambda>i. the (saved s i)) is) limit offset))"
    and pages_done: "ba_list_manifests api (Some err) limit offset s = Some (Inl err)"
    and stream: "valid s \<Longrightarrow> \<exists>ms. ba_stream_manifests api None s = (ms, None) \<and> set ms = ran (saved s)"
    and saved_id: "valid s \<Longrightarrow> saved s i = Some m \<Longrightarrow> mf_event_id m = i"
    and save_event:
      "valid s \<Longrightarrow> recordable e \<Longrightarrow> \<exists>s'. ba_save_event api None e s = (None, s')
         \<and> valid s' \<and> found s' = (found s)(es_fingerprint e \<mapsto> e)"
    and load_event: "valid s \<Longrightarrow>
         ba_load_event api None i s = (case found s i of None \<Rightarrow> Inl be_ErrNotFound | Some e \<Rightarrow> Inr e)"
    and load_event_done: "ba_load_event api (Some err) i s = Inl err"
    and ping: "ba_ping api None s = None"
    and close: "fst (ba_close api s) = None"
    and health: "hs_ok (fst (ba_health api None s)) \<or> hs_diagnostics (fst (ba_health api None s)) \<noteq> []"
begin

lemma save_each_live:
  "valid s \<Longrightarrow> list_all (\<lambda>i. good (suite_manifest i (''fp-'' @ i))) ids \<Longrightarrow>
     \<exists>s'. save_each api ids s = (None, s') \<and> valid s' \<and> dom (saved s') = dom (saved s) \<union> set ids"
proof (induction ids arbitrary: s)
  case (Cons i ids)
  let ?m = "suite_manifest i (''fp-'' @ i)"
  have i: "mf_event_id ?m = i" by (simp add: suite_manifest_def bare_manifest_def)
  from Cons.prems(2) have "good ?m" by simp
  from save_manifest [OF Cons.prems(1) this] obtain s1 where
    s1: "ba_save_manifest api None ?m s = (None, s1)" "valid s1" "saved s1 = (saved s)(i \<mapsto> ?m)"
    unfolding i by blast
  from Cons.IH [OF s1(2)] Cons.prems(2) s1(3) s1(1) show ?case by auto
qed simp

text \<open>Two pages of five are the two halves of ten manifests.\<close>

lemma overlaps_none:
  "distinct (all @ ids) \<Longrightarrow> length all + length ids = 10 \<Longrightarrow> overlaps_from all ids = []"
  by (induction ids arbitrary: all) (auto simp: expect_def)

lemma list_manifests_quiet:
  assumes "valid s" and "saved s = Map.empty"
    and "list_all (\<lambda>i. good (suite_manifest i (''fp-'' @ i))) (suite_ids ''list-test-'' 10)"
  shows "test_list_manifests api s = []"
proof -
  let ?ids = "suite_ids ''list-test-'' 10"
  from save_each_live [OF assms(1,3)] obtain s1 where
    s1: "save_each api ?ids s = (None, s1)" "valid s1" "dom (saved s1) = set ?ids"
    using assms(2) by auto
  from pages [OF s1(2)] obtain "is" where "is": "distinct is" "set is = set ?ids"
    "\<And>limit offset. ba_list_manifests api None limit offset s1 =
       map_option Inr (paginate (map (\<lambda>i. the (saved s1 i)) is) limit offset)"
    using s1(3) by auto
  have len: "length is = 10"
    using "is"(1,2) distinct_suite_ids [of 10] by (metis order.refl distinct_card length_suite_ids)
  have mid: "map mf_event_id (map (\<lambda>i. the (saved s1 i)) js) = js" if "set js \<subseteq> set is" for js
  proof -
    have "mf_event_id (the (saved s1 i)) = i" if "i \<in> set js" for i
      using \<open>set js \<subseteq> set is\<close> that s1(3) "is"(2) saved_id [OF s1(2), of i] by (cases "saved s1 i") auto
    then show ?thesis by (simp add: map_idI)
  qed
  have page: "paginate (map (\<lambda>i. the (saved s1 i)) is) 5 offset
      = Some (take 5 (drop (nat offset) (map (\<lambda>i. the (saved s1 i)) is)))" if "offset \<in> {0, 5}" for offset
    using that len by (auto intro!: paginate_page [THEN trans])
  have "overlaps_from (take 5 is) (drop 5 is) = []"
    using "is"(1) len by (intro overlaps_none) (simp_all add: append_take_drop_id)
  moreover have "map mf_event_id (map (\<lambda>i. the (saved s1 i)) (take 5 is)) = take 5 is"
    "map mf_event_id (map (\<lambda>i. the (saved s1 i)) (drop 5 is)) = drop 5 is"
    by (intro mid set_take_subset set_drop_subset)+
  moreover have "distinct (take 5 is)" using "is"(1) by simp
  ultimately show ?thesis
    using s1(1) len page [of 0] page [of 5]
    by (simp del: map_map add: test_list_manifests_def "is"(3) expect_def take_map drop_map distinct_remdups_id)
qed

lemma stream_manifests_quiet:
  assumes "valid s" and "saved s = Map.empty"
    and "list_all (\<lambda>i. good (suite_manifest i (''fp-'' @ i))) (suite_ids ''stream-test-'' 5)"
  shows "test_stream_manifests api s = []"
proof -
  let ?ids = "suite_ids ''stream-test-'' 5"
  from save_each_live [OF assms(1,3)] obtain s1 where
    s1: "save_each api ?ids s = (None, s1)" "valid s1" "dom (saved s1) = set ?ids"
    using assms(2) by auto
  from stream [OF s1(2)] obtain ms where ms: "ba_stream_manifests api None s1 = (ms, None)" "set ms = ran (saved s1)"
    by auto
  have "mf_event_id ` ran (saved s1) = dom (saved s1)"
  proof
    show "mf_event_id ` ran (saved s1) \<subseteq> dom (saved s1)"
      using saved_id [OF s1(2)] by (auto simp: ran_def)
    show "dom (saved s1) \<subseteq> mf_event_id ` ran (saved s1)"
    proof
      fix i
      assume "i \<in> dom (saved s1)"
      then obtain m where m: "saved s1 i = Some m" by auto
      with saved_id [OF s1(2) m] show "i \<in> mf_event_id ` ran (saved s1)" by (auto intro: ranI)
    qed
  qed
  with ms(2) s1(3) have ids: "set (map mf_event_id ms) = set ?ids" by simp
  then have "length (remdups (map mf_event_id ms)) = card (set ?ids)"
    by (simp only: length_remdups_card_conv)
  also have "\<dots> = 5"
    using distinct_suite_ids [of 5 "''stream-test-''"] by (simp only: distinct_card length_suite_ids)
  finally have "length (remdups (map mf_event_id ms)) = 5" .
  with s1(1) ms(1) ids show ?thesis
    by (auto simp: test_stream_manifests_def Let_def expect_def)
qed

lemma records_quiet:
  assumes "valid s" and "saved s = Map.empty" and "found s = Map.empty"
    and "good ((suite_manifest ''test-manifest-1'' ''fp-test-1'')\<lparr>mf_actual := 640, mf_task := ''test task''\<rparr>)"
    and "recordable suite_event"
  shows "test_save_load_manifest api s = []" and "test_save_load_event api s = []"
    and "test_manifest_not_found api s = []" and "test_event_not_found api s = []"
proof -
  let ?m = "(suite_manifest ''test-manifest-1'' ''fp-test-1'')\<lparr>mf_actual := 640, mf_task := ''test task''\<rparr>"
  have ids: "mf_event_id ?m = ''test-manifest-1''" "es_fingerprint suite_event = ''test-event-1''"
    by (simp_all add: suite_manifest_def bare_manifest_def suite_event_def)
  from save_manifest [OF assms(1,4)] obtain s1 where
    s1: "ba_save_manifest api None ?m s = (None, s1)" "valid s1" "saved s1 ''test-manifest-1'' = Some ?m"
    unfolding ids by auto
  then show "test_save_load_manifest api s = []"
    by (simp add: test_save_load_manifest_def Let_def load_manifest expect_def)
  from save_event [OF assms(1,5)] obtain s2 where
    s2: "ba_save_event api None suite_event s = (None, s2)" "valid s2" "found s2 ''test-event-1'' = Some suite_event"
    unfolding ids by auto
  then show "test_save_load_event api s = []"
    by (simp add: test_save_load_event_def load_event expect_def)
  show "test_manifest_not_found api s = []" and "test_event_not_found api s = []"
    using assms(1-3) by (simp_all add: test_manifest_not_found_def test_event_not_found_def load_manifest load_event expect_def)
qed

lemma passes_suite:
  assumes "valid s" and "saved s = Map.empty" and "found s = Map.empty"
    and "list_all good suite_manifests" and "recordable suite_event"
  shows "passes api s"
proof -
  have "test_cancellation api s = []" "test_ping_close api s = []" "test_health_check api s = []"
    using health [of s]
    by (auto simp: test_cancellation_def test_ping_close_def test_health_check_def expect_def Let_def
        load_manifest_done load_event_done pages_done ping close)
  moreover have "list_all (\<lambda>i. good (suite_manifest i (''fp-'' @ i))) (suite_ids ''list-test-'' 10)"
    "list_all (\<lambda>i. good (suite_manifest i (''fp-'' @ i))) (suite_ids ''stream-test-'' 5)"
    "good ((suite_manifest ''test-manifest-1'' ''fp-test-1'')\<lparr>mf_actual := 640, mf_task := ''test task''\<rparr>)"
    using assms(4) by (auto simp: suite_manifests_def list_all_iff)
  note records_quiet [OF assms(1-3) this(3) assms(5)] list_manifests_quiet [OF assms(1,2) this(1)]
    stream_manifests_quiet [OF assms(1,2) this(2)]
  ultimately show ?thesis by (simp add: passes_def compliance_suite_def)
qed

end

subsection \<open>The backends under test\<close>

definition mb_close :: "mem_backend \<Rightarrow> goerr option \<times> mem_backend" where
  "mb_close s = (None, s)"

definition xs_close :: "xs_adapter \<Rightarrow> goerr option \<times> xs_adapter" where
  "xs_close s = (None, s)"

definition mem_api :: "mem_backend backend_api" where
  "mem_api = \<lparr>ba_save_manifest = mb_save_manifest, ba_load_manifest = mb_load_manifest,
     ba_list_manifests = mb_list_manifests, ba_stream_manifests = (\<lambda>c. mb_stream_manifests),
     ba_save_event = mb_save_event, ba_load_event = mb_load_event, ba_ping = (\<lambda>c s. mb_ping c),
     ba_close = mb_close, ba_health = mb_health_check\<rparr>"

text \<open>\<open>keys\<close> gives the order in which the map of blobs is visited, \<open>sent\<close> what is sent before a cancellation is seen.\<close>

definition xs_api ::
  "(string \<Rightarrow> manifest result) \<Rightarrow> (string \<Rightarrow> event_summary result) \<Rightarrow> (xs_adapter \<Rightarrow> string list) \<Rightarrow> nat
   \<Rightarrow> (string \<Rightarrow> goerr option) \<Rightarrow> (ctx \<Rightarrow> string \<Rightarrow> string list \<Rightarrow> string \<times> goerr option) \<Rightarrow> xs_adapter backend_api" where
  "xs_api dm de keys sent look_path run =
     \<lparr>ba_save_manifest = xs_save_manifest, ba_load_manifest = xs_load_manifest dm,
      ba_list_manifests = (\<lambda>c limit offset s. xs_list_manifests dm (keys s) c limit offset s),
      ba_stream_manifests = (\<lambda>c s. xs_stream_manifests dm (keys s) c sent s),
      ba_save_event = xs_save_event, ba_load_event = xs_load_event de, ba_ping = (\<lambda>c s. xs_ping c),
      ba_close = xs_close, ba_health = xs_health_check look_path run\<rparr>"

text \<open>A backend no adapter should be: the in-memory one, listing from the last identifier to the first.\<close>

definition backwards_api :: "mem_backend backend_api" where
  "backwards_api = mem_api\<lparr>ba_list_manifests := (\<lambda>c limit offset s. case c of Some err \<Rightarrow> Some (Inl err)
     | None \<Rightarrow> map_option Inr (paginate (rev (mb_sorted_manifests s)) limit offset))\<rparr>"

lemma mb_stream_set:
  "mb_manifests_ok s \<Longrightarrow> set (fst (mb_stream_manifests s)) = ran (map_of (mb_manifests s))"
  by (simp add: mb_stream_manifests_def mb_manifests_ok_def ran_distinct)

lemma mb_health_explained: "hs_ok (fst (mb_health_check c s)) \<or> hs_diagnostics (fst (mb_health_check c s)) \<noteq> []"
  by (simp add: mb_health_check_def split: option.split)

interpretation mbc: consult_backend mem_api mb_manifests_ok "\<lambda>s. map_of (mb_manifests s)" mb_events "\<lambda>m. True" "\<lambda>e. True"
proof unfold_locales
  fix s m
  assume ok: "mb_manifests_ok s"
  show "\<exists>s'. ba_save_manifest mem_api None m s = (None, s') \<and> mb_manifests_ok s'
      \<and> map_of (mb_manifests s') = (map_of (mb_manifests s))(mf_event_id m \<mapsto> m)"
    using mbm.save_live [OF ok, of m] by (simp add: mem_api_def)
  show "\<exists>is. distinct is \<and> set is = dom (map_of (mb_manifests s))
      \<and> (\<forall>limit offset. ba_list_manifests mem_api None limit offset s =
           map_option Inr (paginate (map (\<lambda>i. the (map_of (mb_manifests s) i)) is) limit offset))"
    using mbm.page_live [OF ok] mbm.saved_finite [OF ok]
    by (intro exI [of _ "sorted_list_of_set (dom (map_of (mb_manifests s)))"]) (simp add: mem_api_def)
  show "\<exists>ms. ba_stream_manifests mem_api None s = (ms, None) \<and> set ms = ran (map_of (mb_manifests s))"
    using mb_stream_set [OF ok] by (simp add: mem_api_def mb_stream_manifests_def)
next
  fix s i m
  assume "mb_manifests_ok s" and "map_of (mb_manifests s) i = Some m"
  then show "mf_event_id m = i" by (rule mbm.saved_id)
qed (auto simp: mem_api_def mbm.load_live mbm.load_done mbm.page_done mb_save_event_def mb_load_event_def
    mb_ping_def mb_close_def mb_health_explained mb_manifests_ok_def split: option.split)

interpretation mbr: consult_backend backwards_api mb_manifests_ok "\<lambda>s. map_of (mb_manifests s)" mb_events "\<lambda>m. True" "\<lambda>e. True"
proof unfold_locales
  fix s m
  assume ok: "mb_manifests_ok s"
  show "\<exists>s'. ba_save_manifest backwards_api None m s = (None, s') \<and> mb_manifests_ok s'
      \<and> map_of (mb_manifests s') = (map_of (mb_manifests s))(mf_event_id m \<mapsto> m)"
    using mbc.save_manifest [OF ok, of m] by (simp add: backwards_api_def)
  have "distinct (map fst (mb_manifests s))" using ok by (simp add: mb_manifests_ok_def)
  from mb_sorted_manifests_eq [OF this] mbm.saved_finite [OF ok]
  show "\<exists>is. distinct is \<and> set is = dom (map_of (mb_manifests s))
      \<and> (\<forall>limit offset. ba_list_manifests backwards_api None limit offset s =
           map_option Inr (paginate (map (\<lambda>i. the (map_of (mb_manifests s) i)) is) limit offset))"
    by (intro exI [of _ "rev (sorted_list_of_set (dom (map_of (mb_manifests s))))"])
      (simp add: backwards_api_def rev_map)
  show "\<exists>ms. ba_stream_manifests backwards_api None s = (ms, None) \<and> set ms = ran (map_of (mb_manifests s))"
    using mbc.stream [OF ok] by (simp add: backwards_api_def)
next
  fix s i m
  assume "mb_manifests_ok s" and "map_of (mb_manifests s) i = Some m"
  then show "mf_event_id m = i" by (rule mbm.saved_id)
qed (simp_all add: backwards_api_def mbc.load_manifest mbc.load_manifest_done mbc.save_event mbc.load_event
    mbc.load_event_done mbc.ping mbc.close mbc.health)

subsection \<open>The xs adapter keeps the promise\<close>

definition xs_found :: "(string \<Rightarrow> event_summary result) \<Rightarrow> xs_adapter \<Rightarrow> string \<Rightarrow> event_summary option" where
  "xs_found de s i = map_option (\<lambda>data. projr (de data)) (xa_blobs s (event_key i))"

definition xs_records_ok :: "(string \<Rightarrow> manifest result) \<Rightarrow> (string \<Rightarrow> event_summary result) \<Rightarrow> xs_adapter \<Rightarrow> bool" where
  "xs_records_ok dm de s \<longleftrightarrow> xs_manifests_ok dm s
     \<and> (\<forall>i data. xa_blobs s (event_key i) = Some data \<longrightarrow> (\<exists>e. de data = Inr e))"

lemma xs_save_manifest_frame:
  "snd (xs_save_manifest None m s) = s\<lparr>xa_blobs := (xa_blobs s)(manifest_key (mf_event_id m) \<mapsto> manifest_marshal m)\<rparr>"
  by (simp add: xs_save_manifest_def)

lemma xs_stream_set:
  assumes "xs_manifests_ok dm s" and "visits ks s"
  shows "set (xs_manifests dm ks s) = ran (xs_saved dm s)"
proof -
  have "m \<in> set (xs_manifests dm ks s) \<longleftrightarrow> (\<exists>i. xs_saved dm s i = Some m)" for m
  proof
    assume "m \<in> set (xs_manifests dm ks s)"
    then obtain key where "manifest_at dm s key = Some m"
      by (auto simp: xs_manifests_def List.map_filter_def)
    then show "\<exists>i. xs_saved dm s i = Some m" using manifest_at_key by blast
  next
    assume "\<exists>i. xs_saved dm s i = Some m"
    then obtain i where i: "manifest_at dm s (manifest_key i) = Some m" by (auto simp: xs_saved_def)
    then have "manifest_key i \<in> set ks"
      using assms(2) by (auto simp: manifest_at_def visits_def split: option.splits)
    with i show "m \<in> set (xs_manifests dm ks s)" by (force simp: xs_manifests_def List.map_filter_def)
  qed
  then show ?thesis by (auto simp: ran_def)
qed

lemma xs_keeps_promise:
  assumes keys: "\<And>s. finite (dom (xa_blobs s)) \<Longrightarrow> visits (keys s) s"
  shows "consult_backend (xs_api dm de keys sent look_path run) (xs_records_ok dm de) (xs_saved dm) (xs_found de)
    (\<lambda>m. dm (manifest_marshal m) = Inr m) (\<lambda>e. de (event_summary_marshal e) = Inr e)"
proof unfold_locales
  fix s m
  assume ok: "xs_records_ok dm de s"
  then have man: "xs_manifests_ok dm s" and order: "visits (keys s) s"
    using keys by (simp_all add: xs_records_ok_def xs_manifests_ok_def)
  {
    assume "dm (manifest_marshal m) = Inr m"
    from xsm.save_live [OF man this] obtain s' where
      s': "xs_save_manifest None m s = (None, s')" "xs_manifests_ok dm s'" "xs_saved dm s' = (xs_saved dm s)(mf_event_id m \<mapsto> m)"
      by blast
    with ok xs_save_manifest_frame [of m s] have "xs_records_ok dm de s'"
      by (simp add: xs_records_ok_def)
    with s' show "\<exists>s'. ba_save_manifest (xs_api dm de keys sent look_path run) None m s = (None, s')
        \<and> xs_records_ok dm de s' \<and> xs_saved dm s' = (xs_saved dm s)(mf_event_id m \<mapsto> m)"
      by (simp add: xs_api_def)
  }
  show "\<exists>is. distinct is \<and> set is = dom (xs_saved dm s)
      \<and> (\<forall>limit offset. ba_list_manifests (xs_api dm de keys sent look_path run) None limit offset s =
           map_option Inr (paginate (map (\<lambda>i. the (xs_saved dm s i)) is) limit offset))"
    using xsm.page_live [OF man order] xsm.saved_finite [OF man]
    by (intro exI [of _ "sorted_list_of_set (dom (xs_saved dm s))"]) (simp add: xs_api_def)
  show "\<exists>ms. ba_stream_manifests (xs_api dm de keys sent look_path run) None s = (ms, None) \<and> set ms = ran (xs_saved dm s)"
    using xs_stream_set [OF man order] by (simp add: xs_api_def xs_stream_manifests_def deliver_def)
  fix i
  show "ba_load_manifest (xs_api dm de keys sent look_path run) None i s =
      (case xs_saved dm s i of None \<Rightarrow> Inl be_ErrNotFound | Some m \<Rightarrow> Inr m)"
    using xsm.load_live [OF man] by (simp add: xs_api_def)
  show "ba_load_event (xs_api dm de keys sent look_path run) None i s =
      (case xs_found de s i of None \<Rightarrow> Inl be_ErrNotFound | Some e \<Rightarrow> Inr e)"
    using ok by (fastforce simp: xs_api_def xs_load_event_def xs_found_def xs_records_ok_def split: option.split sum.splits)
  show "xs_saved dm s i = Some m \<Longrightarrow> mf_event_id m = i"
    by (rule xs_saved_id [OF man])
next
  fix s e
  assume ok: "xs_records_ok dm de s" and rt: "de (event_summary_marshal e) = Inr e"
  let ?s = "s\<lparr>xa_blobs := (xa_blobs s)(event_key (es_fingerprint e) \<mapsto> event_summary_marshal e)\<rparr>"
  have "xs_records_ok dm de ?s"
    using ok rt by (auto simp: xs_records_ok_def xs_manifests_ok_def)
  moreover have "xs_found de ?s = (xs_found de s)(es_fingerprint e \<mapsto> e)"
    using rt by (auto simp: xs_found_def)
  ultimately show "\<exists>s'. ba_save_event (xs_api dm de keys sent look_path run) None e s = (None, s')
      \<and> xs_records_ok dm de s' \<and> xs_found de s' = (xs_found de s)(es_fingerprint e \<mapsto> e)"
    by (simp add: xs_api_def xs_save_event_def)
qed (auto simp: xs_api_def xs_load_manifest_def xs_load_event_def xs_list_manifests_def xs_ping_def xs_close_def
    xs_health_check_def Let_def split: prod.split option.split)

text \<open>
  Every backend that keeps the promise passes the compliance suite, so both adapters do: the
  in-memory backend, and the xs adapter whatever order its map is visited in, if \<open>encoding/json\<close> reads
  back the sixteen manifests and the summary of the suite. The suite does not see the order of a listing:
  the backend that lists backwards passes, though its first page is not that of the in-memory backend.
\<close>

theorem adapters_pass_suite:
  assumes "\<And>s. finite (dom (xa_blobs s)) \<Longrightarrow> visits (keys s) s"
    and "list_all (\<lambda>m. dm (manifest_marshal m) = Inr m) suite_manifests"
    and "de (event_summary_marshal suite_event) = Inr suite_event"
  shows "passes mem_api new_mem_backend
    \<and> passes (xs_api dm de keys sent look_path run) (new_xs_adapter cfg)
    \<and> passes backwards_api new_mem_backend
    \<and> ba_list_manifests backwards_api None 5 0 (snd (save_each mem_api (suite_ids ''list-test-'' 10) new_mem_backend))
      \<noteq> ba_list_manifests mem_api None 5 0 (snd (save_each mem_api (suite_ids ''list-test-'' 10) new_mem_backend))"
proof (intro conjI)
  have empty: "mb_manifests_ok new_mem_backend" "map_of (mb_manifests new_mem_backend) = Map.empty"
    "mb_events new_mem_backend = Map.empty"
    by (simp_all add: new_mem_backend_def mb_manifests_ok_def)
  show "passes mem_api new_mem_backend" by (rule mbc.passes_suite [OF empty]) (simp_all add: list_all_iff)
  show "passes backwards_api new_mem_backend" by (rule mbr.passes_suite [OF empty]) (simp_all add: list_all_iff)
  have "xs_records_ok dm de (new_xs_adapter cfg)" "xs_saved dm (new_xs_adapter cfg) = Map.empty"
    "xs_found de (new_xs_adapter cfg) = Map.empty"
    by (auto simp: new_xs_adapter_def xs_records_ok_def xs_manifests_ok_def xs_saved_def xs_found_def manifest_at_def)
  moreover have "consult_backend (xs_api dm de keys sent look_path run) (xs_records_ok dm de) (xs_saved dm) (xs_found de)
    (\<lambda>m. dm (manifest_marshal m) = Inr m) (\<lambda>e. de (event_summary_marshal e) = Inr e)"
    by (rule xs_keeps_promise) (rule assms(1))
  ultimately show "passes (xs_api dm de keys sent look_path run) (new_xs_adapter cfg)"
    using assms(2,3) by (intro consult_backend.passes_suite)
  show "ba_list_manifests backwards_api None 5 0 (snd (save_each mem_api (suite_ids ''list-test-'' 10) new_mem_backend))
      \<noteq> ba_list_manifests mem_api None 5 0 (snd (save_each mem_api (suite_ids ''list-test-'' 10) new_mem_backend))"
    by code_simp
qed

end
