(* ===== verification/Scripts.thy ===== *)
theory Scripts
  imports Tooling GoJson
begin

text \<open>
  The two Go programs under \<open>scripts/\<close>. \<open>scripts/dumptools\<close> prints the built-in tools in the form the fast
  model is trained on, which is checked in as \<open>needle_tools.json\<close>; \<open>scripts/gate-eval\<close> replays the
  predictions of a model through the gate and counts. The flags are taken as parsed; the decoding of a
  line by \<open>encoding/json\<close>, the tree that is indexed, the contents of the files and the formatting of a
  percentage are parameters.
\<close>

subsection \<open>Printing JSON with indentation\<close>

text \<open>\<open>json.Encoder\<close> with \<open>SetEscapeHTML(false)\<close>: the escaping of \<open>json_escape\<close> without that of HTML.\<close>

function plain_escape :: "string \<Rightarrow> string" where
  "plain_escape [] = []"
| "plain_escape (c # cs) =
     (if c = CHR ''<'' \<or> c = CHR ''>'' \<or> c = CHR ''&'' then c # plain_escape cs
      else if (of_char c :: nat) < 128 then escape_ascii c @ plain_escape cs
      else (case rune_size (c # cs) of
              None \<Rightarrow> [CHR 0x5C] @ ''ufffd'' @ plain_escape cs
            | Some n \<Rightarrow> escape_rune (take n (c # cs)) @ plain_escape (drop n (c # cs))))"
  by pat_completeness auto
termination
  by (relation "measure length") (auto dest!: rune_size_bounds)

declare plain_escape.simps(2) [simp del]

definition plain_string :: "string \<Rightarrow> string" where
  "plain_string s = CHR 0x22 # plain_escape s @ [CHR 0x22]"

text \<open>\<open>SetIndent("", "  ")\<close>: every element of a non-empty array or object on a line of its own.\<close>

fun json_indented :: "string \<Rightarrow> json \<Rightarrow> string" where
  "json_indented ind JNull = ''null''"
| "json_indented ind (JBool b) = (if b then ''true'' else ''false'')"
| "json_indented ind (JInt i) = int_str i"
| "json_indented ind (JString s) = plain_string s"
| "json_indented ind (JArray vs) =
     (if vs = [] then ''[]''
      else ''['' @ newline @ str_join ('','' @ newline) (map (\<lambda>v. ind @ ''  '' @ json_indented (ind @ ''  '') v) vs)
           @ newline @ ind @ '']'')"
| "json_indented ind (JObject fs) =
     (if fs = [] then ''{}''
      else ''{'' @ newline
           @ str_join ('','' @ newline)
               (map (\<lambda>(k, v). ind @ ''  '' @ plain_string k @ '': '' @ json_indented (ind @ ''  '') v) fs)
           @ newline @ ind @ ''}'')"

subsection \<open>Dumping the tools\<close>

text \<open>
  \<open>paramSchema\<close>, a map of maps: \<open>encoding/json\<close> prints the keys of a map in their order. \<open>sprint\<close> is
  \<open>fmt.Sprint\<close>.
\<close>

definition param_schema :: "(goval \<Rightarrow> string) \<Rightarrow> gomap \<Rightarrow> json" where
  "param_schema sprint input =
     (let names = sort_strings (go_keys input);
          value = (\<lambda>name. case map_of input name of None \<Rightarrow> VNil | Some v \<Rightarrow> v) in
      JObject ([(''properties'', JObject (map (\<lambda>name. (name, JObject [(''type'', JString (sprint (value name)))])) names))]
        @ (if names \<noteq> [] then [(''required'', JArray (map JString names))] else [])
        @ [(''type'', JString ''object'')]))"

definition tool_json :: "(goval \<Rightarrow> string) \<Rightarrow> 'w typed_tool \<Rightarrow> json" where
  "tool_json sprint t = JObject
     [(''type'', JString ''function''),
      (''function'', JObject
        [(''name'', JString (tl_name t)), (''description'', JString (tl_description t)),
         (''parameters'', param_schema sprint (ts_input (tl_schema t)))])]"

definition dump_tools :: "(goval \<Rightarrow> string) \<Rightarrow> 'w tool_registry \<Rightarrow> string" where
  "dump_tools sprint r = json_indented [] (JArray (map (tool_json sprint) (reg_list r))) @ newline"

definition dumptools_main :: "(goval \<Rightarrow> string) \<Rightarrow> string" where
  "dumptools_main sprint = dump_tools sprint (register_builtin_tools new_registry :: unit tool_registry)"

text \<open>The file \<open>scripts/needle_tools.json\<close>, line by line.\<close>

definition needle_tools_lines :: "string list" where
  "needle_tools_lines =
     (let q = [CHR 0x22];
          open_tool = (\<lambda>name desc. [''  {'', ''    '' @ q @ ''type'' @ q @ '': '' @ q @ ''function'' @ q @ '','',
            ''    '' @ q @ ''function'' @ q @ '': {'', ''      '' @ q @ ''name'' @ q @ '': '' @ q @ name @ q @ '','',
            ''      '' @ q @ ''description'' @ q @ '': '' @ q @ desc @ q @ '','',
            ''      '' @ q @ ''parameters'' @ q @ '': {'', ''        '' @ q @ ''properties'' @ q @ '': {'']);
          prop = (\<lambda>name end. [''          '' @ q @ name @ q @ '': {'',
            ''            '' @ q @ ''type'' @ q @ '': '' @ q @ ''string'' @ q, ''          }'' @ end]);
          required = [''        },'', ''        '' @ q @ ''required'' @ q @ '': ['']; 
          req = (\<lambda>name end. [''          '' @ q @ name @ q @ end]);
          close_tool = (\<lambda>end. [''        ],'', ''        '' @ q @ ''type'' @ q @ '': '' @ q @ ''object'' @ q,
            ''      }'', ''    }'', ''  }'' @ end]) in
      [''['']
      @ open_tool ''glob'' ''List files matching a pattern'' @ prop ''pattern'' [] @ required @ req ''pattern'' []
      @ close_tool '',''
      @ open_tool ''grep'' ''Search for a pattern in text'' @ prop ''pattern'' '','' @ prop ''text'' [] @ required
      @ req ''pattern'' '','' @ req ''text'' [] @ close_tool '',''
      @ open_tool ''read'' ''Read content by reference'' @ prop ''ref'' [] @ required @ req ''ref'' [] @ close_tool '',''
      @ open_tool ''write'' ''Write content by reference'' @ prop ''content'' '','' @ prop ''ref'' [] @ required
      @ req ''content'' '','' @ req ''ref'' [] @ close_tool []
      @ ['']''])"

text \<open>What is checked in is what the program prints today.\<close>

lemma dump_is_checked_in:
  assumes "sprint (VStr ''string'') = ''string''"
  shows "dumptools_main sprint = str_join newline needle_tools_lines @ newline"
proof -
  let ?shape = "\<lambda>t :: unit typed_tool. (tl_name t, tl_description t, tl_schema t)"
  let ?print = "\<lambda>sprint (name, desc, schema). JObject [(''type'', JString ''function''),
    (''function'', JObject [(''name'', JString name), (''description'', JString desc),
       (''parameters'', param_schema sprint (ts_input schema))])]"
  have tools: "map ?shape (reg_list (register_builtin_tools new_registry :: unit tool_registry)) = map ?shape [glob_tool, grep_tool, read_tool, write_tool]"
    by code_simp
  have "param_schema sprint input = param_schema (\<lambda>_. ''string'') input" if "\<forall>v \<in> snd ` set input. v = VStr ''string''" for input
  proof -
    have "sprint (case map_of input name of None \<Rightarrow> VNil | Some v \<Rightarrow> v) = ''string''" if "name \<in> set (go_keys input)" for name
      using that \<open>\<forall>v \<in> snd ` set input. v = VStr ''string''\<close> assms
      by (cases "map_of input name") (auto simp: map_of_eq_None_iff dest!: map_of_SomeD)
    then show ?thesis by (auto simp: param_schema_def Let_def sort_strings_def)
  qed
  then have same: "map (?print sprint) (map ?shape [glob_tool, grep_tool, read_tool, write_tool])
      = map (?print (\<lambda>_. ''string'')) (map ?shape [glob_tool, grep_tool, read_tool, write_tool])"
    by (simp add: glob_tool_def grep_tool_def read_tool_def write_tool_def)
  have shapes: "map (tool_json sprint) ts = map (?print sprint) (map ?shape ts)" for sprint ts
    by (simp add: tool_json_def)
  have "dumptools_main sprint = dumptools_main (\<lambda>_. ''string'')"
    unfolding dumptools_main_def dump_tools_def shapes tools same ..
  also have "\<dots> = str_join newline needle_tools_lines @ newline"
    by code_simp
  finally show ?thesis .
qed

subsection \<open>Replaying predictions: the data\<close>

record eval_row =
  ew_query :: string
  ew_answers :: "gate_call list"

record pred_row =
  pw_query :: string
  pw_gold :: "gate_call list"
  pw_predicted :: "gate_call list"
  pw_exact :: bool

record eval_tally =
  ta_rows :: int
  ta_before :: int
  ta_after :: int
  ta_exact :: int
  ta_preserved :: int
  ta_rejected :: "(string \<times> int) list"

definition empty_tally :: eval_tally where
  "empty_tally = \<lparr>ta_rows = 0, ta_before = 0, ta_after = 0, ta_exact = 0, ta_preserved = 0, ta_rejected = []\<rparr>"

text \<open>\<open>eachLine\<close> with the loop of its two callers, for a file that cannot be opened or its bytes.\<close>

definition eval_buffer :: nat where "eval_buffer = 2 ^ 22"

fun decode_lines :: "string \<Rightarrow> (string \<Rightarrow> 'a result) \<Rightarrow> string list \<Rightarrow> 'a list \<times> goerr option" where
  "decode_lines file dec [] = ([], None)"
| "decode_lines file dec (l # ls) =
     (if l = [] then decode_lines file dec ls
      else case dec l of
        Inl err \<Rightarrow> ([], Some (Wrapped (file @ '': '' @ err_msg err) err))
      | Inr row \<Rightarrow> apfst ((#) row) (decode_lines file dec ls))"

definition read_rows :: "string \<Rightarrow> (string \<Rightarrow> 'a result) \<Rightarrow> string result \<Rightarrow> 'a list \<times> goerr option" where
  "read_rows file dec content =
     (case content of
        Inl err \<Rightarrow> ([], Some err)
      | Inr bytes \<Rightarrow>
        let (ls, long) = scan_lines eval_buffer (split_on (CHR 0x0A) bytes) in
        case decode_lines file dec ls of
          (rows, Some err) \<Rightarrow> (rows, Some err)
        | (rows, None) \<Rightarrow> (rows, if long then Some ErrTooLong else None))"

subsection \<open>Replaying predictions: the loop\<close>

text \<open>The rule that decided; no decision of the gate is without one (\<open>decided_rule\<close> below).\<close>

definition last_rule :: "decision \<Rightarrow> string" where
  "last_rule d = ck_rule (last (dc_checks d))"

definition reject :: "decision \<Rightarrow> (string \<times> int) list \<Rightarrow> (string \<times> int) list" where
  "reject d m =
     (if dc_verdict d = Abstain
      then AList.update (last_rule d) ((case map_of m (last_rule d) of None \<Rightarrow> 0 | Some n \<Rightarrow> n) + 1) m else m)"

definition tally_row :: "pred_row \<Rightarrow> gate_call list \<Rightarrow> decision list \<Rightarrow> eval_tally \<Rightarrow> eval_tally" where
  "tally_row row kept ds t =
     t\<lparr>ta_rows := ta_rows t + 1,
       ta_before := ta_before t + (if pw_predicted row = [] then 1 else 0),
       ta_after := ta_after t + (if kept = [] then 1 else 0),
       ta_exact := ta_exact t + (if pw_exact row then 1 else 0),
       ta_preserved := ta_preserved t + (if pw_exact row \<and> kept \<noteq> [] then 1 else 0),
       ta_rejected := fold reject ds (ta_rejected t)\<rparr>"

record replayed_rows =
  rw_refusals :: eval_tally
  rw_answering :: eval_tally
  rw_lost :: "string list"
  rw_out :: string

definition refused_lines :: "string \<Rightarrow> decision list \<Rightarrow> string" where
  "refused_lines query ds =
     concat (map (\<lambda>d. ''  refused: '' @ last_rule d @ '' | '' @ dc_reason d @ '' | '' @ query @ newline)
       (filter (\<lambda>d. dc_verdict d = Abstain) ds))"

definition replay_row :: "gate \<Rightarrow> bool \<Rightarrow> pred_row \<times> eval_row \<Rightarrow> replayed_rows \<Rightarrow> replayed_rows" where
  "replay_row g verbose rows st =
     (let (row, gold) = rows; (kept, ds) = check_all g (pw_query row) (pw_predicted row);
          answering = (ew_answers gold \<noteq> []);
          st1 = (if answering then st\<lparr>rw_answering := tally_row row kept ds (rw_answering st)\<rparr>
                 else st\<lparr>rw_refusals := tally_row row kept ds (rw_refusals st)\<rparr>) in
      if kept = []
      then st1\<lparr>rw_lost := (if answering then rw_lost st1 @ [pw_query row] else rw_lost st1),
               rw_out := (if verbose then rw_out st1 @ refused_lines (pw_query row) ds else rw_out st1)\<rparr>
      else st1)"

definition replay_rows :: "gate \<Rightarrow> bool \<Rightarrow> pred_row list \<Rightarrow> eval_row list \<Rightarrow> replayed_rows" where
  "replay_rows g verbose preds evals =
     fold (replay_row g verbose) (zip preds evals)
       \<lparr>rw_refusals = empty_tally, rw_answering = empty_tally, rw_lost = [], rw_out = []\<rparr>"

subsection \<open>Replaying predictions: the report\<close>

definition abstain_reasons :: "string \<Rightarrow> eval_tally \<Rightarrow> string" where
  "abstain_reasons name t =
     (if ta_rejected t = [] then []
      else ''  '' @ name @ '':'' @ newline
        @ concat (map (\<lambda>rule. ''    '' @ rule @ replicate (12 - length rule) (CHR '' '') @ '' ''
              @ int_str (case map_of (ta_rejected t) rule of None \<Rightarrow> 0 | Some n \<Rightarrow> n) @ newline)
            (sort_strings (go_keys (ta_rejected t)))))"

definition table_row :: "string \<Rightarrow> eval_tally \<Rightarrow> string" where
  "table_row name t =
     ''| '' @ name @ '' | '' @ int_str (ta_rows t) @ '' | '' @ int_str (ta_before t) @ '' | ''
     @ int_str (ta_after t) @ '' |'' @ newline"

definition gate_report :: "(rat \<Rightarrow> string) \<Rightarrow> fs_index \<Rightarrow> nat \<Rightarrow> replayed_rows \<Rightarrow> string" where
  "gate_report fmt1 ix n st =
     (let refusals = rw_refusals st; answering = rw_answering st; kept = ta_rows answering - ta_after answering in
      ''indexed files: '' @ int_str (fs_len ix) @ newline @ newline
      @ ''rows the model already abstained on: '' @ int_str (ta_before answering + ta_before refusals) @ '' of ''
      @ int_str (int n) @ newline @ newline
      @ ''| set | rows | abstain before gate | abstain after gate |'' @ newline
      @ ''| :--- | ---: | ---: | ---: |'' @ newline
      @ table_row ''no tool fits (gold = [])'' refusals @ table_row ''answering (gold non-empty)'' answering @ newline
      @ ''exact rows preserved: '' @ int_str (ta_preserved answering) @ '' of '' @ int_str (ta_exact answering) @ newline
      @ (if kept > 0
         then ''executed precision: '' @ int_str (ta_preserved answering) @ '' of '' @ int_str kept @ '' rows kept (''
              @ fmt1 (100 * of_int (ta_preserved answering) / of_int kept) @ ''%)'' @ newline
         else [])
      @ (if rw_lost st \<noteq> []
         then ''answering rows refused by the gate: '' @ int_str (int (length (rw_lost st))) @ newline
              @ concat (map (\<lambda>query. ''  - '' @ query @ newline) (rw_lost st))
         else [])
      @ newline @ ''abstain reasons'' @ newline
      @ abstain_reasons ''no tool fits'' refusals @ abstain_reasons ''answering'' answering)"

record gate_eval_flags =
  gf_root :: string
  gf_eval :: string
  gf_preds :: string
  gf_verbose :: bool

text \<open>\<open>main\<close> after \<open>flag.Parse\<close>: exit code, standard output, standard error.\<close>

definition gate_eval_main ::
  "(rat \<Rightarrow> string) \<Rightarrow> (string \<Rightarrow> eval_row result) \<Rightarrow> (string \<Rightarrow> pred_row result) \<Rightarrow> (string \<Rightarrow> fs_node result)
   \<Rightarrow> (string \<Rightarrow> string result) \<Rightarrow> gate_eval_flags \<Rightarrow> int \<times> string \<times> string" where
  "gate_eval_main fmt1 dec_eval dec_pred tree file flags =
     (let die = (\<lambda>code msg. (code, [], ''gate-eval: '' @ msg @ newline)) in
      if gf_preds flags = [] then die 2 ''--preds is required''
      else case index_fs (tree (gf_root flags)) [] of
        Inl err \<Rightarrow> die 1 (''index '' @ gf_root flags @ '': '' @ err_msg err)
      | Inr ix \<Rightarrow>
        let g = new_gate (register_builtin_tools new_registry :: unit tool_registry) (Some (fs_view ix)) in
        (case read_rows (gf_eval flags) dec_eval (file (gf_eval flags)) of
           (evals, Some err) \<Rightarrow> die 1 (err_msg err)
         | (evals, None) \<Rightarrow>
           (case read_rows (gf_preds flags) dec_pred (file (gf_preds flags)) of
              (preds, Some err) \<Rightarrow> die 1 (err_msg err)
            | (preds, None) \<Rightarrow>
              if length evals \<noteq> length preds
              then die 1 (int_str (int (length evals)) @ '' eval rows vs '' @ int_str (int (length preds)) @ '' predictions'')
              else let st = replay_rows g (gf_verbose flags) preds evals in
                (0, rw_out st @ gate_report fmt1 ix (length preds) st, []))))"

subsection \<open>What the report counts\<close>

text \<open>Every decision of the gate ends with the rule that decided it.\<close>

definition verdict_rules :: "string list" where
  "verdict_rules = [''grounding'', ''request_supported'', ''resolution'', ''schema'', ''tool_exists'']"

lemma decided_rule:
  assumes "d \<in> set (snd (check_all g query calls))" and "dc_verdict d = Abstain"
  shows "dc_checks d \<noteq> [] \<and> last_rule d \<in> set verdict_rules"
proof (cases "gate_fits g query")
  case True
  then obtain call where d: "d = check_call g query call"
    using assms(1) by (auto simp: check_all_keeps_admissible)
  have n: "0 < length (dc_checks d)" and rules: "map ck_rule (dc_checks d) = take (length (dc_checks d)) gate_rules"
    using check_accepts_admissible [of g query call] unfolding d Let_def by auto
  then have "last_rule d = last (take (length (dc_checks d)) gate_rules)"
    by (metis last_map last_rule_def length_greater_0_conv)
  also have "\<dots> \<in> set (take (length (dc_checks d)) gate_rules)"
    using n by (intro last_in_set) (simp add: gate_rules_def)
  finally have "last_rule d \<in> set gate_rules" by (rule in_set_takeD)
  with n show ?thesis by (auto simp: gate_rules_def verdict_rules_def)
next
  case False
  then have "d \<in> range unsupported"
    using assms(1) by (auto simp: check_all_keeps_admissible split: list.splits)
  then show ?thesis
    by (auto simp: unsupported_def failed_check_def last_rule_def verdict_rules_def)
qed

text \<open>What the gate keeps of a row, and how often a rule refused a call of it.\<close>

definition kept_calls :: "gate \<Rightarrow> pred_row \<Rightarrow> gate_call list" where
  "kept_calls g p =
     (if gate_fits g (pw_query p) then filter (admissible g (pw_query p)) (pw_predicted p) else [])"

definition refusals_by :: "gate \<Rightarrow> string \<Rightarrow> pred_row \<Rightarrow> nat" where
  "refusals_by g rule p = length (filter (\<lambda>d. dc_verdict d = Abstain \<and> last_rule d = rule)
     (snd (check_all g (pw_query p) (pw_predicted p))))"

definition rule_count :: "eval_tally \<Rightarrow> string \<Rightarrow> int" where
  "rule_count t rule = (case map_of (ta_rejected t) rule of None \<Rightarrow> 0 | Some n \<Rightarrow> n)"

definition tallied :: "gate \<Rightarrow> pred_row list \<Rightarrow> eval_tally \<Rightarrow> bool" where
  "tallied g ps t \<longleftrightarrow>
     ta_rows t = int (length ps)
     \<and> ta_before t = int (length (filter (\<lambda>p. pw_predicted p = []) ps))
     \<and> ta_after t = int (length (filter (\<lambda>p. kept_calls g p = []) ps))
     \<and> ta_exact t = int (length (filter pw_exact ps))
     \<and> ta_preserved t = int (length (filter (\<lambda>p. pw_exact p \<and> kept_calls g p \<noteq> []) ps))
     \<and> distinct (map fst (ta_rejected t)) \<and> set (map fst (ta_rejected t)) \<subseteq> set verdict_rules
     \<and> (\<forall>rule. rule_count t rule = int (sum_list (map (refusals_by g rule) ps)))"

lemma fold_reject:
  assumes "distinct (map fst m)" and "set (map fst m) \<subseteq> R"
    and "\<And>d. d \<in> set ds \<Longrightarrow> dc_verdict d = Abstain \<Longrightarrow> last_rule d \<in> R"
  shows "distinct (map fst (fold reject ds m)) \<and> set (map fst (fold reject ds m)) \<subseteq> R
    \<and> (case map_of (fold reject ds m) rule of None \<Rightarrow> 0 | Some n \<Rightarrow> n)
        = (case map_of m rule of None \<Rightarrow> 0 | Some n \<Rightarrow> n)
          + int (length (filter (\<lambda>d. dc_verdict d = Abstain \<and> last_rule d = rule) ds))"
  using assms
proof (induction ds arbitrary: m)
  case (Cons d ds)
  have "distinct (map fst (reject d m))" "set (map fst (reject d m)) \<subseteq> R"
    using Cons.prems by (auto simp: reject_def distinct_update dom_update)
  note IH = Cons.IH [OF this]
  have "(case map_of (reject d m) rule of None \<Rightarrow> 0 | Some n \<Rightarrow> n)
      = (case map_of m rule of None \<Rightarrow> 0 | Some n \<Rightarrow> n) + (if dc_verdict d = Abstain \<and> last_rule d = rule then 1 else 0)"
    by (auto simp: reject_def update_conv')
  with IH Cons.prems(3) show ?case by simp
qed simp

lemma tally_row_tallied:
  assumes "tallied g ps t"
  shows "tallied g (ps @ [p]) (tally_row p (kept_calls g p) (snd (check_all g (pw_query p) (pw_predicted p))) t)"
proof -
  let ?ds = "snd (check_all g (pw_query p) (pw_predicted p))"
  have "distinct (map fst (fold reject ?ds (ta_rejected t))) \<and> set (map fst (fold reject ?ds (ta_rejected t))) \<subseteq> set verdict_rules
    \<and> (case map_of (fold reject ?ds (ta_rejected t)) rule of None \<Rightarrow> 0 | Some n \<Rightarrow> n) = rule_count t rule + int (refusals_by g rule p)"
    for rule
    using assms decided_rule unfolding rule_count_def refusals_by_def tallied_def
    by (intro fold_reject) auto
  then show ?thesis
    using assms by (auto simp: tallied_def tally_row_def rule_count_def)
qed

lemma check_all_kept: "check_all g (pw_query p) (pw_predicted p) = (kept_calls g p, snd (check_all g (pw_query p) (pw_predicted p)))"
  by (simp add: check_all_keeps_admissible kept_calls_def)

definition rows_of :: "bool \<Rightarrow> (pred_row \<times> eval_row) list \<Rightarrow> pred_row list" where
  "rows_of answering rows = map fst (filter (\<lambda>(p, e). (ew_answers e \<noteq> []) = answering) rows)"

lemma replay_tallied:
  "let st = fold (replay_row g verbose) rows \<lparr>rw_refusals = empty_tally, rw_answering = empty_tally, rw_lost = [], rw_out = []\<rparr> in
     tallied g (rows_of False rows) (rw_refusals st) \<and> tallied g (rows_of True rows) (rw_answering st)
     \<and> rw_lost st = map pw_query (filter (\<lambda>p. kept_calls g p = []) (rows_of True rows))"
proof (induction rows rule: rev_induct)
  case Nil
  show ?case by (simp add: rows_of_def tallied_def empty_tally_def rule_count_def)
next
  case (snoc row rows)
  obtain p e where row: "row = (p, e)" by (cases row)
  obtain ds where ca: "check_all g (pw_query p) (pw_predicted p) = (kept_calls g p, ds)"
    using check_all_kept by blast
  have step: "tallied g (ps @ [p]) (tally_row p (kept_calls g p) ds t)" if "tallied g ps t" for ps t
    using tally_row_tallied [OF that, of p] by (simp add: ca)
  show ?case
  proof (cases "ew_answers e = []")
    case True
    with snoc row step show ?thesis
      by (auto simp: rows_of_def replay_row_def Let_def ca)
  next
    case False
    with snoc row step show ?thesis
      by (auto simp: rows_of_def replay_row_def Let_def ca)
  qed
qed

lemma tallied_bounds:
  assumes "tallied g ps t"
  shows "ta_before t \<le> ta_after t" and "ta_preserved t \<le> ta_rows t - ta_after t"
proof -
  have "length (filter (\<lambda>p. pw_predicted p = []) ps) \<le> length (filter (\<lambda>p. kept_calls g p = []) ps)"
    by (induction ps) (auto simp: kept_calls_def)
  then show "ta_before t \<le> ta_after t" using assms by (simp add: tallied_def)
  have "length (filter (\<lambda>p. pw_exact p \<and> kept_calls g p \<noteq> []) ps) + length (filter (\<lambda>p. kept_calls g p = []) ps) \<le> length ps"
    by (induction ps) auto
  then show "ta_preserved t \<le> ta_rows t - ta_after t" using assms by (simp add: tallied_def)
qed

lemma rows_of_both: "length (rows_of False rows) + length (rows_of True rows) = length rows"
  by (induction rows) (auto simp: rows_of_def)

text \<open>
  The report of \<open>gate-eval\<close> is a true account. Whatever the predictions and the gate, the rows are divided
  by whether the evaluation has an answer, each half is counted exactly (rows, rows without a call before
  and after the gate, exact rows, exact rows of which a call is kept, refusals by rule), no half has fewer
  abstentions after the gate than before, and the queries listed as lost are those of the answerable rows of
  which nothing is kept.
\<close>

theorem gate_eval_accounts:
  "let st = replay_rows g verbose preds evals; rows = zip preds evals in
     tallied g (rows_of False rows) (rw_refusals st) \<and> tallied g (rows_of True rows) (rw_answering st)
     \<and> ta_rows (rw_refusals st) + ta_rows (rw_answering st) = int (min (length preds) (length evals))
     \<and> ta_before (rw_refusals st) \<le> ta_after (rw_refusals st) \<and> ta_before (rw_answering st) \<le> ta_after (rw_answering st)
     \<and> ta_preserved (rw_answering st) \<le> ta_rows (rw_answering st) - ta_after (rw_answering st)
     \<and> rw_lost st = map pw_query (filter (\<lambda>p. kept_calls g p = []) (rows_of True rows))"
proof -
  have sum: "int (length (rows_of False (zip preds evals))) + int (length (rows_of True (zip preds evals)))
      = int (min (length preds) (length evals))"
    using rows_of_both [of "zip preds evals"] by (simp flip: of_nat_add)
  note all = replay_tallied [of g verbose "zip preds evals", folded replay_rows_def, unfolded Let_def]
  then have "ta_rows (rw_refusals (replay_rows g verbose preds evals)) = int (length (rows_of False (zip preds evals)))"
    "ta_rows (rw_answering (replay_rows g verbose preds evals)) = int (length (rows_of True (zip preds evals)))"
    by (simp_all add: tallied_def)
  with all sum tallied_bounds show ?thesis unfolding Let_def by metis
qed

end
