(* ===== verification/Spec2Isabelle.thy ===== *)
theory Spec2Isabelle
  imports ServerSpine ServerCounts Consultloop Dream Tooling ConsultStore FastAdapters Sidecar ModelAdapters BackendChoice DemoCli Compliance Scripts
begin

text \<open>
  Pancakes-harness (\<open>github.com/shaoyanji/pancakes-harness\<close>) runs conversations with a language model
  from a local, append-only log of events, the spine. A request enters through \<open>internal/ingress\<close> (a
  fingerprint, and coalescing of equal requests in flight) and \<open>internal/preflight\<close> (is it complete?);
  \<open>internal/runtime\<close> appends the user's turn, hands it to the memory layer (\<open>internal/memory\<close>) and to a
  fast sidecar (\<open>internal/preprocess\<close>), lets \<open>internal/egress\<close> choose what of the spine may leave the
  machine, builds a packet within a byte budget with \<open>internal/assembler\<close>, calls the model through
  \<open>internal/model\<close>, runs \<open>internal/tools\<close>, appends everything that happened and now and then compacts it
  (\<open>internal/compactor\<close>); \<open>internal/replay\<close> folds the spine back into branches (\<open>internal/branchdag\<close>) and
  consult history (\<open>internal/consult\<close>), \<open>internal/dream\<close> into topics. Storage is behind
  \<open>internal/backend\<close>. \<open>internal/server\<close> puts all of it behind HTTP and counts in \<open>internal/metrics\<close>;
  \<open>cmd/harness\<close> builds the parts from flags and environment. All paths are under \<open>src/\<close>.

  \<^bold>\<open>Theories\<close>, in the order of their imports:

    \<^item> \<open>Prelude\<close>: Go's errors, results, contexts, dynamic values, and what is used of \<open>strings\<close>,
      \<open>strconv\<close> and \<open>sort\<close>; \<open>GoJson\<close>: \<open>json.Marshal\<close> byte for byte, and that it is injective;
      \<open>GoStrings\<close>: more of \<open>strings\<close> and \<open>path\<close>; \<open>GoFlag\<close>: \<open>flag\<close> and the parsers of \<open>strconv\<close>.
    \<^item> \<open>Eventlog\<close>: \<open>eventlog/*.go\<close>; the locale \<open>event_spine\<close> is the contract of every event store,
      interpreted for \<open>eventlog.MemoryStore\<close> here and for both backends in \<open>Backend\<close>.
    \<^item> \<open>Branchdag\<close>: \<open>branchdag/*.go\<close> and \<open>summaries/checkpoint.go\<close>; \<open>Consult\<close>: \<open>consult/types.go\<close> and
      \<open>manifest.go\<close>; \<open>Replay\<close>: \<open>replay/replay.go\<close>.
    \<^item> \<open>Egress\<close>: \<open>egress/selector.go\<close>; \<open>Assembler\<close>: \<open>assembler/assembler.go\<close>.
    \<^item> \<open>Ingress\<close>: \<open>ingress/fingerprint.go\<close> with SHA-256, and \<open>ingress/inflight.go\<close> as a step relation;
      \<open>Preflight\<close>: \<open>preflight/validate.go\<close>.
    \<^item> \<open>Backend\<close>: \<open>backend/memory.go\<close> and \<open>backend/xs/adapter.go\<close>, with the locale \<open>blob_store\<close>;
      \<open>ConsultStore\<close>: the manifests and summaries of the \<open>xs\<close> adapter, \<open>consult/serializer.go\<close> and
      \<open>review/*.go\<close>.
    \<^item> \<open>Tools\<close>: \<open>tools/*.go\<close>; \<open>ModelCall\<close>: \<open>model/service.go\<close>, \<open>types.go\<close>, \<open>validation.go\<close>, with the
      locale \<open>session_store\<close> that joins the two contracts for the clients of a backend;
      \<open>ModelAdapters\<close>: \<open>model/http_adapter.go\<close>, \<open>ollama_adapter.go\<close>, \<open>mock_adapter.go\<close>.
    \<^item> \<open>SelfAudit\<close>: \<open>audit/audit.go\<close>; \<open>Scheduler\<close>: \<open>compactor/scheduler.go\<close>; \<open>CompactAst\<close>, \<open>AstShape\<close>
      and \<open>Compactor\<close>: \<open>compactor/schema.go\<close>, \<open>compactor.go\<close>, \<open>gemini.go\<close>; \<open>MemCompaction\<close>:
      \<open>memory/compaction.go\<close>; \<open>SearchIndex\<close>: \<open>memory/search.go\<close>, \<open>search_ast.go\<close>; \<open>MemoryManager\<close>:
      \<open>memory/memory.go\<close> on a disk with faults; \<open>Consultloop\<close>: \<open>consultloop/loop.go\<close>.
    \<^item> \<open>FastExtract\<close>: \<open>preprocess/types.go\<close>, \<open>parse.go\<close>, \<open>prompt.go\<close>; \<open>Preprocessor\<close>:
      \<open>preprocess/daemon.go\<close> as a machine of callers and workers; \<open>FastAdapters\<close>: \<open>groq.go\<close> and
      \<open>needle.go\<close>.
    \<^item> \<open>Session\<close>: \<open>runtime/session.go\<close>, the operations of a session; \<open>SessionSpine\<close>: what they do to
      the spine, proved in the context of \<open>session_store\<close> and stated for the in-memory backend;
      \<open>Sidecar\<close>: what they hand to the preprocessor.
    \<^item> \<open>Metrics\<close>: \<open>metrics/metrics.go\<close>, the registry as an account of what was done to it.
    \<^item> \<open>Server\<close>: \<open>server/server.go\<close>, every handler, the agent call split where other requests come in
      between; \<open>ServerFlight\<close>: agent calls that overlap, as a step relation in which a leader
      works, publishes and removes its key in separate steps; \<open>ServerSpine\<close>: what a call
      leaves on the spine and what the replay reads of it; \<open>ServerCounts\<close>: what the handlers count.
    \<^item> \<open>Dream\<close>: \<open>dream/daemon.go\<close> and \<open>cmd/dream/main.go\<close>; \<open>Tooling\<close>: \<open>tooling/*.go\<close>; \<open>Launcher\<close>:
      \<open>cmd/harness/main.go\<close>; \<open>DemoCli\<close>: \<open>cmd/demo-cli/main.go\<close>; \<open>Scripts\<close>: the Go programs
      under \<open>scripts\<close>.
    \<^item> \<open>BackendChoice\<close>: no function of the session and no handler can tell the two backends apart, by
      transfer of each to a related backend, the dream daemon of the server included; \<open>Compliance\<close>: \<open>backend/compliance.go\<close>, the suite that every
      backend has to pass.

  \<^bold>\<open>Correspondence.\<close> A struct is a record whose fields carry a short prefix (\<open>ev_\<close>, \<open>br_\<close>, \<open>mf_\<close>, \<open>cd_\<close>,
  \<open>pb_\<close>, ...), a function or method a definition with the snake-case form of its name, an error return
  the left side of a sum or \<open>Some\<close> of an option, a mutable receiver an argument and a result. Strings
  are byte strings; maps whose iteration order shows are association lists; \<open>int\<close> is \<^typ>\<open>int\<close> with
  the wrap-around written out where a caller can reach it (pagination); counters that are read as such are
  64-bit words; \<open>float64\<close> values are exact rationals. A panic on a bad slice index is \<open>None\<close>, on a closed
  channel an outcome of the step. Methods that hold a mutex are atomic; the coalescer, whose \<open>Complete\<close>
  publishes and removes in two critical sections, the agent calls around it, which work outside every lock,
  and the preprocessor, whose \<open>Submit\<close> sends and whose \<open>Start\<close> spawns after the lock is released, are
  step relations. JSON decoding of numbers and strings rounds to \<open>float64\<close> and replaces invalid UTF-8. The clock is a function of the number of readings.

  \<^bold>\<open>What is shown.\<close> Spine: append-only, no duplicates, events read back, both adapters
  indistinguishable (also through sessions and server) and compliant, blobs written once, pages complete; the review store shows what was saved. Replay:
  branch heads refine an abstract machine, consult summaries survive the log, through JSON if their
  integers and strings do. Egress: only active,
  harmless text leaves. Assembler: the byte envelope is respected and measured exactly. Ingress:
  fingerprints identify logical requests (up to SHA-256), everyone is released. Session: over any sequence
  of turns and forks, with any model and tools, the log is the conversation, and the sidecar gets exactly
  its questions. Compactor: the parsed tree is exactly characterised, a compaction accounts for its calls
  and events. Memory: the index is that of the events added, a search returns the best of them, topics
  survive a restart, views stay in their budget. Preprocessor: no job is lost or doubled, stopping drains,
  what is parsed is typed. Server: an answered agent call leaves its conversation and exactly one consult,
  followers repeat their leader, no call gets stuck in any interleaving, and the counters agree with the
  replies but for followers of a failed leader. Tools: the
  gate accepts exactly the calls that are copied from the request and exist on the tree. Loops: bounded
  retries, capped buffers, cooldown. Launcher: a configuration that parses can be built, exit codes and
  outputs, and what it runs or serves does not depend on the backend it was told to use, health checks and
  the backend's name in the metrics apart. Client: its
  requests are those of an abstract machine over the commands typed. Scripts: the checked-in tools are
  those of the code, and the report counts what the gate did. Several theorems state defects of the code
  as it is, among them \<open>restart_reuses_event_ids\<close>,
  \<open>paginate_overflow_panics\<close>, \<open>compact_by_score_removes_highest\<close>, \<open>compact_age_loses_events\<close>,
  \<open>execute_many_runs_no_tool\<close>, \<open>run_tool_response_valid\<close>, \<open>adapters_answer_alike\<close>, \<open>dream_binary_idle\<close>, \<open>served_daemon_waits\<close> and \<open>stop_races\<close>.

  \<^bold>\<open>Bounds.\<close> All loops of the model are total functions. The retry loop counts down the attempts that
  remain, the turn loop the reasoning turns, \<open>measure_loop\<close> the eight rounds of the code (proved enough
  for the manifest's own length to settle), the assembler the eight stages. The cycle check of
  \<open>validate_ids\<close> terminates on every map of leaves; \<open>drain_steps\<close> is the exact number of steps until all
  workers of a closed queue have left. \<open>valid_utf8_fuel\<close> and \<open>nat_str\<close> recurse on lengths and values.

  \<^bold>\<open>Parameters:\<close> decoding of foreign bytes by \<open>encoding/json\<close>, the clock, the order in which a map is
  visited, Unicode tables beyond ASCII, \<open>go/parser\<close>, \<open>math.Log\<close>, the faults of the disk, \<open>net/http\<close>
  below the handlers and behind the clients, the processes behind tools and bridge, \<open>ParseFloat\<close> and
  \<open>ParseDuration\<close>, the embedding function of the memory manager.

  \<^bold>\<open>Not modelled:\<close> what a session adds to the metrics; the deadline of a context running out in the
  middle of a call (a context is live or done for the whole call); the sidecar's workers running beside
  the handlers of a server (each is modelled, their product is not); a panic of the leader of an agent call, which would leave its
  key behind; the goroutine of a bridge call finding its pipes closed by a timeout; the flags of the programs
  under \<open>scripts\<close>; the values that the compliance suite formats into its messages.
\<close>

end
